(* ===== verification/Prelude.thy ===== *)
theory Prelude
  imports Main "HOL-Library.Word" "HOL-Library.Monad_Syntax"
begin

text \<open>
  Shared vocabulary of the development: the C constants and pointer type the components
  use, the collections of proof hints, and generic lemmas on lists and options.
  Addresses are natural numbers and 0 is \<open>NULL\<close>.  A model function that touches memory
  returns an \<open>option\<close>: \<open>None\<close> is a memory fault of the C program (a read or write through
  \<open>NULL\<close> or through a freed or wrongly typed block, or a double free), so a theorem that
  gives \<open>Some\<close> includes memory safety.
\<close>

named_theorems heap_simps \<open>reading and writing cells of the C heap\<close>
named_theorems codec_simps \<open>bit fields, packing and unpacking\<close>

type_synonym ptr = nat
type_synonym u8 = "8 word"
type_synonym u16 = "16 word"
type_synonym u32 = "32 word"

abbreviation (input) NULL :: ptr where "NULL \<equiv> 0"

text \<open>local.h: \<open>ERROR\<close> is \<open>-1\<close>.\<close>

abbreviation (input) ERROR :: int where "ERROR \<equiv> - 1"

lemma bind_Some_iff [simp]: "(Option.bind m f = Some y) \<longleftrightarrow> (\<exists>x. m = Some x \<and> f x = Some y)"
  by (cases m) auto

lemma last_ConsI: "l \<noteq> [] \<Longrightarrow> last (x # l) = last l"
  by simp

lemma list_split_nth: "i < length xs \<Longrightarrow> xs = take i xs @ xs ! i # drop (Suc i) xs"
  by (rule id_take_nth_drop)

lemma nonempty_snoc: "xs \<noteq> [] \<Longrightarrow> \<exists>ys y. xs = ys @ [y]"
  by (metis rev_exhaust)

text \<open>What a buffer bounded to \<open>n\<close> records keeps of a sequence (0: no bound).\<close>

definition keep_last :: "nat \<Rightarrow> 'r list \<Rightarrow> 'r list" where
  "keep_last n rs = (if n = 0 then rs else drop (length rs - n) rs)"

lemma keep_last_app [simp]: "keep_last n (keep_last n xs @ ys) = keep_last n (xs @ ys)"
proof -
  have "length xs + length ys - (length xs - n + n) + (length xs - n) = length xs + length ys - n \<or> n \<ge> length xs + length ys \<or> length xs \<le> n"
    by linarith
  then show ?thesis by (cases "n \<le> length xs") (auto simp: keep_last_def)
qed

lemma length_keep_last: "n \<noteq> 0 \<Longrightarrow> length (keep_last n xs) \<le> n"
  by (simp add: keep_last_def)

text \<open>Little-endian byte sequences.\<close>

fun le_nat :: "u8 list \<Rightarrow> nat" where
  "le_nat [] = 0"
| "le_nat (b # bs) = unat b + 256 * le_nat bs"

fun le_bytes :: "nat \<Rightarrow> nat \<Rightarrow> u8 list" where
  "le_bytes 0 x = []"
| "le_bytes (Suc n) x = of_nat (x mod 256) # le_bytes n (x div 256)"

lemma length_le_bytes [simp]: "length (le_bytes n x) = n"
  by (induction n arbitrary: x) auto

lemma unat_of_nat_byte [simp]: "unat (of_nat (x mod 256) :: u8) = x mod 256"
  by (simp add: unat_of_nat)

lemma le_nat_bytes [simp]: "le_nat (le_bytes n x) = x mod 256 ^ n"
  by (induction n arbitrary: x) (auto simp: mod_mult2_eq)

end
