(* ===== verification/CHeap.thy ===== *)
theory CHeap
  imports Prelude
begin

text \<open>
  The memory of the list library (path/local/sys_list.h, sys_mem.h).  A heap maps addresses to
  typed blocks: single and double list nodes and heads, and client objects of type \<open>'a\<close>
  (what the \<open>void *\<close> items point to).  \<open>avail\<close> holds the addresses the C allocator will
  offer, in order; \<open>malloc\<close> returns \<open>NULL\<close> when the avail is exhausted, offers 0, or
  offers an address that is in use, so every behaviour of a correct allocator (failure and
  re-use of freed blocks included) is some avail.
\<close>

record ll_node = ln_pitem :: ptr
  ln_pnext :: ptr

record ll_head = lh_length :: int
  lh_pfirst :: ptr
  lh_plast :: ptr

record dl_node = dn_pitem :: ptr
  dn_pprev :: ptr
  dn_pnext :: ptr

record dl_head = dh_length :: int
  dh_pfirst :: ptr
  dh_plast :: ptr

datatype 'a cell = LlNode ll_node | LlHead ll_head | DlNode dl_node | DlHead dl_head | Obj 'a

record 'a heap = cells :: "ptr \<rightharpoonup> 'a cell"
  avail :: "ptr list"

definition malloc :: "'a cell \<Rightarrow> 'a heap \<Rightarrow> ptr \<times> 'a heap" where
  "malloc c h = (case avail h of
      [] \<Rightarrow> (NULL, h)
    | p # ps \<Rightarrow> if p = NULL \<or> cells h p \<noteq> None then (NULL, h\<lparr>avail := ps\<rparr>)
        else (p, h\<lparr>cells := (cells h)(p \<mapsto> c), avail := ps\<rparr>))"

text \<open>\<open>free(NULL)\<close> does nothing; freeing an address that holds no block is a fault.\<close>

definition free :: "ptr \<Rightarrow> 'a heap \<Rightarrow> 'a heap option" where
  "free p h = (if p = NULL then Some h
     else if cells h p = None then None else Some (h\<lparr>cells := (cells h)(p := None)\<rparr>))"

fun dl_node_of :: "'a cell option \<Rightarrow> dl_node option" where
  "dl_node_of (Some (DlNode n)) = Some n" | "dl_node_of _ = None"

fun dl_head_of :: "'a cell option \<Rightarrow> dl_head option" where
  "dl_head_of (Some (DlHead n)) = Some n" | "dl_head_of _ = None"

fun ll_node_of :: "'a cell option \<Rightarrow> ll_node option" where
  "ll_node_of (Some (LlNode n)) = Some n" | "ll_node_of _ = None"

fun ll_head_of :: "'a cell option \<Rightarrow> ll_head option" where
  "ll_head_of (Some (LlHead n)) = Some n" | "ll_head_of _ = None"

fun obj_of :: "'a cell option \<Rightarrow> 'a option" where
  "obj_of (Some (Obj x)) = Some x" | "obj_of _ = None"

lemma obj_of_eq [simp]: "obj_of c = Some x \<longleftrightarrow> c = Some (Obj x)"
  by (cases c rule: obj_of.cases) auto

definition put :: "ptr \<Rightarrow> 'a cell \<Rightarrow> 'a heap \<Rightarrow> 'a heap" where
  "put p c h = h\<lparr>cells := (cells h)(p \<mapsto> c)\<rparr>"

definition get_dn :: "'a heap \<Rightarrow> ptr \<Rightarrow> dl_node option" where
  "get_dn h p = dl_node_of (cells h p)"

definition get_dh :: "'a heap \<Rightarrow> ptr \<Rightarrow> dl_head option" where
  "get_dh h p = dl_head_of (cells h p)"

definition get_ln :: "'a heap \<Rightarrow> ptr \<Rightarrow> ll_node option" where
  "get_ln h p = ll_node_of (cells h p)"

definition get_lh :: "'a heap \<Rightarrow> ptr \<Rightarrow> ll_head option" where
  "get_lh h p = ll_head_of (cells h p)"

definition get_obj :: "'a heap \<Rightarrow> ptr \<Rightarrow> 'a option" where
  "get_obj h p = obj_of (cells h p)"

definition upd_dn :: "ptr \<Rightarrow> (dl_node \<Rightarrow> dl_node) \<Rightarrow> 'a heap \<Rightarrow> 'a heap option" where
  "upd_dn p f h = map_option (\<lambda>n. put p (DlNode (f n)) h) (get_dn h p)"

definition upd_dh :: "ptr \<Rightarrow> (dl_head \<Rightarrow> dl_head) \<Rightarrow> 'a heap \<Rightarrow> 'a heap option" where
  "upd_dh p f h = map_option (\<lambda>n. put p (DlHead (f n)) h) (get_dh h p)"

definition upd_ln :: "ptr \<Rightarrow> (ll_node \<Rightarrow> ll_node) \<Rightarrow> 'a heap \<Rightarrow> 'a heap option" where
  "upd_ln p f h = map_option (\<lambda>n. put p (LlNode (f n)) h) (get_ln h p)"

definition upd_lh :: "ptr \<Rightarrow> (ll_head \<Rightarrow> ll_head) \<Rightarrow> 'a heap \<Rightarrow> 'a heap option" where
  "upd_lh p f h = map_option (\<lambda>n. put p (LlHead (f n)) h) (get_lh h p)"

definition upd_obj :: "ptr \<Rightarrow> ('a \<Rightarrow> 'a) \<Rightarrow> 'a heap \<Rightarrow> 'a heap option" where
  "upd_obj p f h = map_option (\<lambda>n. put p (Obj (f n)) h) (get_obj h p)"

lemma cells_put [heap_simps, simp]: "cells (put p c h) = (cells h)(p \<mapsto> c)"
  by (simp add: put_def)

lemma avail_put [heap_simps, simp]: "avail (put p c h) = avail h"
  by (simp add: put_def)

lemmas access_defs = get_dn_def get_dh_def get_ln_def get_lh_def get_obj_def
  upd_dn_def upd_dh_def upd_ln_def upd_lh_def upd_obj_def

text \<open>What an allocation can do: fail and leave memory alone, or fill one unused address.\<close>

lemma malloc_cases:
  "malloc c h = (p, h') \<Longrightarrow> (p = NULL \<and> cells h' = cells h) \<or>
     (p \<noteq> NULL \<and> cells h p = None \<and> cells h' = (cells h)(p \<mapsto> c))"
  unfolding malloc_def by (clarsimp split: list.splits if_splits)

text \<open>\<open>same_except S h h'\<close>: memory outside \<open>S\<close> is untouched.\<close>

definition same_except :: "ptr set \<Rightarrow> 'a heap \<Rightarrow> 'a heap \<Rightarrow> bool" where
  "same_except S h h' \<longleftrightarrow> (\<forall>a. a \<notin> S \<longrightarrow> cells h' a = cells h a)"

lemma same_except_refl [simp]: "cells h' = cells h \<Longrightarrow> same_except S h h'"
  by (simp add: same_except_def)

lemma same_except_trans:
  "same_except S h h1 \<Longrightarrow> same_except T h1 h2 \<Longrightarrow> S \<union> T \<subseteq> U \<Longrightarrow> same_except U h h2"
  unfolding same_except_def by (metis Un_iff subsetD)

end
