(* ===== verification/ListStore.thy ===== *)
theory ListStore
  imports CHeap
begin

text \<open>
  The contract of the list module (path/local/sys_list.h) as its clients use it: a list in memory
  stands for a sequence of (node, item) pairs, an item can be added and removed at both ends, an
  addition can fail for want of memory and then changes nothing, and no operation touches memory
  that is not the list's.  The double and the single linked list both provide it (SysListRep.thy
  and SysLl.thy); the clients' loops over it (freeing all items, sequences of operations) are
  proved here once.
\<close>

type_synonym node_items = "(ptr \<times> ptr) list"

abbreviation nodes :: "node_items \<Rightarrow> ptr set" where "nodes L \<equiv> fst ` set L"
abbreviation items :: "node_items \<Rightarrow> ptr list" where "items L \<equiv> map snd L"

text \<open>\<open>while ((pitem = rm_last(phead)) != NULL) free(pitem);\<close>\<close>

partial_function (option) free_items ::
  "(ptr \<Rightarrow> 'a heap \<Rightarrow> (ptr \<times> 'a heap) option) \<Rightarrow> ptr \<Rightarrow> 'a heap \<Rightarrow> 'a heap option" where
  "free_items rm_last phead h = do {
     (pitem, h) \<leftarrow> rm_last phead h;
     if pitem = NULL then Some h else do {
       h \<leftarrow> free pitem h;
       free_items rm_last phead h
     }
   }"

text \<open>A client's sequence of operations, and what each call returned.\<close>

datatype list_op = Insert ptr | Append ptr | RmFirst | RmLast

datatype list_res = Added bool | Removed ptr

fun list_do :: "(ptr \<Rightarrow> ptr \<Rightarrow> 'a heap \<Rightarrow> (bool \<times> 'a heap) option) \<Rightarrow> (ptr \<Rightarrow> ptr \<Rightarrow> 'a heap \<Rightarrow> (bool \<times> 'a heap) option) \<Rightarrow>
    (ptr \<Rightarrow> 'a heap \<Rightarrow> (ptr \<times> 'a heap) option) \<Rightarrow> (ptr \<Rightarrow> 'a heap \<Rightarrow> (ptr \<times> 'a heap) option) \<Rightarrow>
    list_op list \<Rightarrow> ptr \<Rightarrow> 'a heap \<Rightarrow> (list_res list \<times> 'a heap) option" where
  "list_do ins app rf rl [] ph h = Some ([], h)"
| "list_do ins app rf rl (op # ops) ph h = do {
     (r, h) \<leftarrow> (case op of
        Insert x \<Rightarrow> map_option (map_prod Added id) (ins x ph h)
      | Append x \<Rightarrow> map_option (map_prod Added id) (app x ph h)
      | RmFirst \<Rightarrow> map_option (map_prod Removed id) (rf ph h)
      | RmLast \<Rightarrow> map_option (map_prod Removed id) (rl ph h));
     (rs, h) \<leftarrow> list_do ins app rf rl ops ph h;
     Some (r # rs, h)
   }"

text \<open>The abstract list: an addition may be refused, a removal returns the item at that end.\<close>

inductive list_step :: "list_op \<Rightarrow> list_res \<Rightarrow> ptr list \<Rightarrow> ptr list \<Rightarrow> bool" where
  refused: "op = Insert x \<or> op = Append x \<Longrightarrow> list_step op (Added False) xs xs"
| insert: "list_step (Insert x) (Added True) xs (x # xs)"
| append: "list_step (Append x) (Added True) xs (xs @ [x])"
| empty: "op = RmFirst \<or> op = RmLast \<Longrightarrow> list_step op (Removed NULL) [] []"
| rm_first: "list_step RmFirst (Removed x) (x # xs) xs"
| rm_last: "list_step RmLast (Removed x) (xs @ [x]) xs"

inductive list_steps :: "list_op list \<Rightarrow> list_res list \<Rightarrow> ptr list \<Rightarrow> ptr list \<Rightarrow> bool" where
  stop: "list_steps [] [] xs xs"
| more: "list_step op r xs ys \<Longrightarrow> list_steps ops rs ys zs \<Longrightarrow> list_steps (op # ops) (r # rs) xs zs"

inductive_cases list_step_removedE: "list_step op (Removed x) xs ys"
inductive_simps list_steps_Nil [simp]: "list_steps [] rs xs ys"
inductive_simps list_steps_Cons [simp]: "list_steps (op # ops) rs xs ys"

definition own_items :: "'a heap \<Rightarrow> node_items \<Rightarrow> bool" where
  "own_items h L \<longleftrightarrow> distinct (items L) \<and> (\<forall>p \<in> set (items L). \<exists>x. cells h p = Some (Obj x))"

locale list_store =
  fixes rep :: "'a heap \<Rightarrow> ptr \<Rightarrow> node_items \<Rightarrow> bool"
    and ins app :: "ptr \<Rightarrow> ptr \<Rightarrow> 'a heap \<Rightarrow> (bool \<times> 'a heap) option"
    and rf rl :: "ptr \<Rightarrow> 'a heap \<Rightarrow> (ptr \<times> 'a heap) option"
  assumes insert_law: "rep h ph L \<Longrightarrow>
      (\<exists>h'. ins x ph h = Some (False, h') \<and> cells h' = cells h) \<or>
      (\<exists>h' n. ins x ph h = Some (True, h') \<and> cells h n = None \<and> rep h' ph ((n, x) # L) \<and>
         same_except ({ph, n} \<union> nodes L) h h')"
    and append_law: "rep h ph L \<Longrightarrow>
      (\<exists>h'. app x ph h = Some (False, h') \<and> cells h' = cells h) \<or>
      (\<exists>h' n. app x ph h = Some (True, h') \<and> cells h n = None \<and> rep h' ph (L @ [(n, x)]) \<and>
         same_except ({ph, n} \<union> nodes L) h h')"
    and rm_first_empty: "rep h ph [] \<Longrightarrow> rf ph h = Some (NULL, h)"
    and rm_first_law: "rep h ph ((n, x) # L) \<Longrightarrow>
      \<exists>h'. rf ph h = Some (x, h') \<and> rep h' ph L \<and> cells h' n = None \<and> same_except ({ph, n} \<union> nodes L) h h'"
    and rm_last_empty: "rep h ph [] \<Longrightarrow> rl ph h = Some (NULL, h)"
    and rm_last_law: "rep h ph (L @ [(n, x)]) \<Longrightarrow>
      \<exists>h'. rl ph h = Some (x, h') \<and> rep h' ph L \<and> cells h' n = None \<and> same_except ({ph, n} \<union> nodes L) h h'"
    and rep_frame: "rep h ph L \<Longrightarrow> same_except S h h' \<Longrightarrow> S \<inter> ({NULL, ph} \<union> nodes L) = {} \<Longrightarrow> rep h' ph L"
    and rep_NULL: "rep h ph L \<Longrightarrow> cells h NULL = None \<and> ph \<notin> nodes L"
    and rep_other: "rep h ph L \<Longrightarrow> cells h p = None \<or> cells h p = Some (Obj v) \<Longrightarrow> p \<noteq> ph \<and> p \<notin> nodes L"
begin

lemma rep_cells: "rep h ph L \<Longrightarrow> cells h' = cells h \<Longrightarrow> rep h' ph L"
  by (rule rep_frame[where S = "{}"]) auto

lemma obj_not_node:
  assumes "rep h ph L" "cells h p = Some (Obj x)" shows "p \<notin> nodes L" "p \<noteq> ph" "p \<noteq> NULL"
  using rep_other[OF assms(1), of p x] rep_NULL[OF assms(1)] assms(2) by auto

text \<open>Every sequence of operations runs without a fault and acts as on an abstract list.\<close>

lemma list_do_refines:
  "rep h ph L \<Longrightarrow> \<exists>rs h' L'. list_do ins app rf rl ops ph h = Some (rs, h') \<and> rep h' ph L' \<and>
     list_steps ops rs (items L) (items L')"
proof (induction ops arbitrary: h L)
  case Nil
  then show ?case by (auto intro: exI[of _ L])
next
  case (Cons op ops)
  have "\<exists>r h1 L1. (case op of
        Insert x \<Rightarrow> map_option (map_prod Added id) (ins x ph h)
      | Append x \<Rightarrow> map_option (map_prod Added id) (app x ph h)
      | RmFirst \<Rightarrow> map_option (map_prod Removed id) (rf ph h)
      | RmLast \<Rightarrow> map_option (map_prod Removed id) (rl ph h)) = Some (r, h1) \<and> rep h1 ph L1 \<and>
      list_step op r (items L) (items L1)"
  proof (cases op)
    case (Insert x)
    show ?thesis using insert_law[OF Cons.prems, of x]
    proof (elim disjE exE conjE)
      fix h' assume "ins x ph h = Some (False, h')" "cells h' = cells h"
      then show ?thesis using Insert rep_cells[OF Cons.prems]
        by (auto intro!: exI[of _ L] list_step.intros)
    next
      fix h' n assume "ins x ph h = Some (True, h')" "rep h' ph ((n, x) # L)"
      then show ?thesis using Insert list_step.insert[of x "items L"]
        by (auto intro!: exI[of _ "(n, x) # L"])
    qed
  next
    case (Append x)
    show ?thesis using append_law[OF Cons.prems, of x]
    proof (elim disjE exE conjE)
      fix h' assume "app x ph h = Some (False, h')" "cells h' = cells h"
      then show ?thesis using Append rep_cells[OF Cons.prems]
        by (auto intro!: exI[of _ L] list_step.intros)
    next
      fix h' n assume "app x ph h = Some (True, h')" "rep h' ph (L @ [(n, x)])"
      then show ?thesis using Append list_step.append[of x "items L"]
        by (auto intro!: exI[of _ "L @ [(n, x)]"])
    qed
  next
    case RmFirst
    show ?thesis
    proof (cases L)
      case Nil
      then show ?thesis using RmFirst rm_first_empty[of h ph] Cons.prems
        by (auto intro!: exI[of _ "[]"] list_step.intros)
    next
      case (Cons m K)
      obtain n x where "m = (n, x)" by fastforce
      then show ?thesis using RmFirst rm_first_law[of h ph n x K] Cons.prems Cons
        by (auto intro!: exI[of _ K] list_step.intros)
    qed
  next
    case RmLast
    show ?thesis
    proof (cases L rule: rev_cases)
      case Nil
      then show ?thesis using RmLast rm_last_empty[of h ph] Cons.prems
        by (auto intro!: exI[of _ "[]"] list_step.intros)
    next
      case (snoc K m)
      obtain n x where m: "m = (n, x)" by fastforce
      then show ?thesis using RmLast rm_last_law[of h ph K n x] Cons.prems snoc
        by (auto intro!: exI[of _ K] list_step.intros)
    qed
  qed
  then obtain r h1 L1 where op: "(case op of
        Insert x \<Rightarrow> map_option (map_prod Added id) (ins x ph h)
      | Append x \<Rightarrow> map_option (map_prod Added id) (app x ph h)
      | RmFirst \<Rightarrow> map_option (map_prod Removed id) (rf ph h)
      | RmLast \<Rightarrow> map_option (map_prod Removed id) (rl ph h)) = Some (r, h1)" "rep h1 ph L1"
      "list_step op r (items L) (items L1)" by blast
  obtain rs h' L' where "list_do ins app rf rl ops ph h1 = Some (rs, h')" "rep h' ph L'"
    "list_steps ops rs (items L1) (items L')" using Cons.IH[OF op(2)] by blast
  then show ?case using op by (auto intro!: exI[of _ L'])
qed

text \<open>Freeing the items of a list that owns them: every item and node is freed, nothing else.\<close>

lemma free_items_law:
  assumes "rep h ph L" "own_items h L"
  shows "\<exists>h'. free_items rl ph h = Some h' \<and> rep h' ph [] \<and>
    (\<forall>a \<in> nodes L \<union> set (items L). cells h' a = None) \<and>
    same_except ({ph} \<union> nodes L \<union> set (items L)) h h'"
  using assms
proof (induction L arbitrary: h rule: rev_induct)
  case Nil
  then show ?case by (subst free_items.simps) (simp add: rm_last_empty)
next
  case (snoc m L)
  obtain n x where m: "m = (n, x)" by fastforce
  obtain v where v: "cells h x = Some (Obj v)" using snoc.prems(2) m by (auto simp: own_items_def)
  obtain h1 where h1: "rl ph h = Some (x, h1)" "rep h1 ph L" "cells h1 n = None"
    "same_except ({ph, n} \<union> nodes L) h h1"
    using rm_last_law[of h ph L n x] snoc.prems(1) m by auto
  note o = obj_not_node[OF snoc.prems(1)]
  have keep: "cells h1 p = cells h p" if "cells h p = Some (Obj w)" for p w
    using h1(4) o[OF that] m by (auto simp: same_except_def)
  define h2 where "h2 = h1\<lparr>cells := (cells h1)(x := None)\<rparr>"
  have h2: "free x h1 = Some h2" using v keep[OF v] o(3)[OF v] by (simp add: free_def h2_def)
  have se: "same_except {x} h1 h2" by (simp add: same_except_def h2_def)
  have "rep h2 ph L"
    by (rule rep_frame[OF h1(2) se]) (use o[OF v] m in auto)
  moreover have "own_items h2 L"
    using snoc.prems(2) keep m by (fastforce simp: own_items_def h2_def)
  ultimately obtain h3 where h3: "free_items rl ph h2 = Some h3" "rep h3 ph []"
    "\<forall>a \<in> nodes L \<union> set (items L). cells h3 a = None"
    "same_except ({ph} \<union> nodes L \<union> set (items L)) h2 h3"
    using snoc.IH by blast
  have nx: "n \<noteq> x" "n \<noteq> ph" "x \<noteq> ph" using o(1,2)[OF v] rep_NULL[OF snoc.prems(1)] m by auto
  have none: "cells h3 n = None" "cells h3 x = None"
    using h3(3,4) h1(3) nx
    by (cases "n \<in> nodes L \<union> set (items L)", auto simp: same_except_def h2_def,
        cases "x \<in> nodes L \<union> set (items L)", auto simp: same_except_def h2_def)
  have "free_items rl ph h = Some h3"
    using h1(1) h2 h3(1) o(3)[OF v] by (subst free_items.simps) simp
  moreover have "same_except ({ph} \<union> nodes (L @ [m]) \<union> set (items (L @ [m]))) h h3"
    using h1(4) se h3(4) m by (auto simp: same_except_def)
  ultimately show ?case using h3(2,3) none m by auto
qed

text \<open>An item that is not an allocated block any more is a double free.\<close>

lemma free_items_dangling:
  assumes "rep h ph L" "p \<in> set (items L)" "cells h p = None"
    "\<And>q. q \<in> set (items L) \<Longrightarrow> q \<noteq> NULL \<and> (cells h q = None \<or> (\<exists>v. cells h q = Some (Obj v)))"
  shows "free_items rl ph h = None"
  using assms
proof (induction L arbitrary: h rule: rev_induct)
  case Nil
  then show ?case by simp
next
  case (snoc m L)
  obtain n x where m: "m = (n, x)" by fastforce
  have x0: "x \<noteq> NULL" using snoc.prems(4) m by auto
  obtain h1 where h1: "rl ph h = Some (x, h1)" "rep h1 ph L" "cells h1 n = None"
    "same_except ({ph, n} \<union> nodes L) h h1"
    using rm_last_law[of h ph L n x] snoc.prems(1) m by auto
  have keep: "q \<notin> {ph, n} \<union> nodes L \<and> cells h1 q = cells h q" if qi: "q \<in> set (items (L @ [m]))" for q
  proof -
    have "q \<noteq> ph \<and> q \<notin> nodes (L @ [m])"
      using snoc.prems(4)[OF qi] rep_other[OF snoc.prems(1), of q] by metis
    then show ?thesis using h1(4) m by (auto simp: same_except_def)
  qed
  show ?case
  proof (cases "free x h1")
    case None
    then show ?thesis using h1(1) x0 by (subst free_items.simps) simp
  next
    case (Some h2)
    then have h2: "cells h2 = (cells h1)(x := None)" "cells h1 x \<noteq> None"
      using x0 by (auto simp: free_def split: if_splits)
    have "x \<in> set (items (L @ [m]))" using m by simp
    note kx = keep[OF this]
    have "same_except {x} h1 h2" using h2 by (simp add: same_except_def)
    then have "rep h2 ph L" using kx x0 by (intro rep_frame[OF h1(2)]) auto
    moreover have "p \<noteq> x" using keep[OF snoc.prems(2)] snoc.prems(3) h2 by auto
    then have "p \<in> set (items L)" "cells h2 p = None"
      using snoc.prems(2,3) keep[OF snoc.prems(2)] m h2 by auto
    moreover have "q \<noteq> NULL \<and> (cells h2 q = None \<or> (\<exists>v. cells h2 q = Some (Obj v)))"
      if "q \<in> set (items L)" for q
      using snoc.prems(4)[of q] keep[of q] that h2 by auto
    ultimately have "free_items rl ph h2 = None" by (rule snoc.IH)
    then show ?thesis using h1(1) x0 Some by (subst free_items.simps) simp
  qed
qed

end

end
