(* ===== verification/SysList.thy ===== *)
theory SysList
  imports ListStore
begin

text \<open>
  path/local/sys_list.c, the double linked list: one definition per C function over the heap of
  CHeap.  A search key may live outside the heap (on the caller's stack), so its type is free; the
  user's comparison function gets the heap, the key and an item pointer.  A \<open>NULL\<close> result is the address 0; an out parameter (\<open>pcurrent\<close>) is a result.  Loops
  along \<open>pnext\<close> are \<open>partial_function\<close>s: on a cyclic list they have no value.
\<close>

definition dl_create :: "'a heap \<Rightarrow> ptr \<times> 'a heap" where
  "dl_create h = malloc (DlHead \<lparr>dh_length = 0, dh_pfirst = NULL, dh_plast = NULL\<rparr>) h"

definition dl_inst_node :: "ptr \<Rightarrow> ptr \<Rightarrow> ptr \<Rightarrow> 'a heap \<Rightarrow> ptr \<times> 'a heap" where
  "dl_inst_node pitem pprev pnext h =
     malloc (DlNode \<lparr>dn_pitem = pitem, dn_pprev = pprev, dn_pnext = pnext\<rparr>) h"

definition dl_insert :: "ptr \<Rightarrow> ptr \<Rightarrow> 'a heap \<Rightarrow> (bool \<times> 'a heap) option" where
  "dl_insert pitem phead h = do {
     hd \<leftarrow> get_dh h phead;
     let (pnew, h) = dl_inst_node pitem NULL (dh_pfirst hd) h;
     if pnew \<noteq> NULL then do {
       h \<leftarrow> (if dh_length hd = 0 then upd_dh phead (dh_plast_update (\<lambda>_. pnew)) h
             else upd_dn (dh_pfirst hd) (dn_pprev_update (\<lambda>_. pnew)) h);
       h \<leftarrow> upd_dh phead (dh_pfirst_update (\<lambda>_. pnew)) h;
       h \<leftarrow> upd_dh phead (dh_length_update (\<lambda>l. l + 1)) h;
       Some (True, h)
     } else Some (False, h)
   }"

definition dl_append :: "ptr \<Rightarrow> ptr \<Rightarrow> 'a heap \<Rightarrow> (bool \<times> 'a heap) option" where
  "dl_append pitem phead h = do {
     hd \<leftarrow> get_dh h phead;
     let (pnew, h) = dl_inst_node pitem (dh_plast hd) NULL h;
     if pnew \<noteq> NULL then do {
       h \<leftarrow> (if dh_length hd = 0 then upd_dh phead (dh_pfirst_update (\<lambda>_. pnew)) h
             else upd_dn (dh_plast hd) (dn_pnext_update (\<lambda>_. pnew)) h);
       h \<leftarrow> upd_dh phead (dh_plast_update (\<lambda>_. pnew)) h;
       h \<leftarrow> upd_dh phead (dh_length_update (\<lambda>l. l + 1)) h;
       Some (True, h)
     } else Some (False, h)
   }"

definition dl_rm_first :: "ptr \<Rightarrow> 'a heap \<Rightarrow> (ptr \<times> 'a heap) option" where
  "dl_rm_first phead h =
     (if phead = NULL then Some (NULL, h) else do {
       hd \<leftarrow> get_dh h phead;
       if dh_pfirst hd = NULL then Some (NULL, h) else do {
         let pold = dh_pfirst hd;
         old \<leftarrow> get_dn h pold;
         h \<leftarrow> upd_dh phead (dh_pfirst_update (\<lambda>_. dn_pnext old)) h;
         h \<leftarrow> upd_dh phead (dh_length_update (\<lambda>l. l - 1)) h;
         hd \<leftarrow> get_dh h phead;
         h \<leftarrow> (if dh_length hd = 0 then upd_dh phead (dh_plast_update (\<lambda>_. NULL)) h
               else upd_dn (dh_pfirst hd) (dn_pprev_update (\<lambda>_. NULL)) h);
         h \<leftarrow> free pold h;
         Some (dn_pitem old, h)
       }
     })"

definition dl_rm_last :: "ptr \<Rightarrow> 'a heap \<Rightarrow> (ptr \<times> 'a heap) option" where
  "dl_rm_last phead h = do {
     hd \<leftarrow> get_dh h phead;
     if dh_length hd = 0 then Some (NULL, h) else do {
       let pold = dh_plast hd;
       old \<leftarrow> get_dn h pold;
       h \<leftarrow> upd_dh phead (dh_plast_update (\<lambda>_. dn_pprev old)) h;
       h \<leftarrow> upd_dh phead (dh_length_update (\<lambda>l. l - 1)) h;
       hd \<leftarrow> get_dh h phead;
       h \<leftarrow> (if dh_length hd = 0 then upd_dh phead (dh_pfirst_update (\<lambda>_. NULL)) h
             else upd_dn (dh_plast hd) (dn_pnext_update (\<lambda>_. NULL)) h);
       h \<leftarrow> free pold h;
       Some (dn_pitem old, h)
     }
   }"

text \<open>\<open>dl_rm_node(phead, &pcurrent)\<close> returns the item and the new value of \<open>pcurrent\<close>.\<close>

definition dl_rm_node :: "ptr \<Rightarrow> ptr \<Rightarrow> 'a heap \<Rightarrow> (ptr \<times> ptr \<times> 'a heap) option" where
  "dl_rm_node phead pcurrent h = do {
     let pold = pcurrent;
     old \<leftarrow> get_dn h pold;
     let pcurrent = dn_pprev old;
     if dn_pprev old = NULL then do {
       (pitem, h) \<leftarrow> dl_rm_first phead h;
       Some (pitem, NULL, h)
     } else if dn_pnext old = NULL then do {
       (pitem, h) \<leftarrow> dl_rm_last phead h;
       Some (pitem, pcurrent, h)
     } else do {
       h \<leftarrow> upd_dn (dn_pprev old) (dn_pnext_update (\<lambda>_. dn_pnext old)) h;
       h \<leftarrow> upd_dn (dn_pnext old) (dn_pprev_update (\<lambda>_. dn_pprev old)) h;
       h \<leftarrow> upd_dh phead (dh_length_update (\<lambda>l. l - 1)) h;
       h \<leftarrow> free pold h;
       Some (dn_pitem old, pcurrent, h)
     }
   }"


partial_function (option) dl_search ::
  "('a heap \<Rightarrow> 'k \<Rightarrow> ptr \<Rightarrow> int option) \<Rightarrow> 'a heap \<Rightarrow> 'k \<Rightarrow> ptr \<Rightarrow> ptr option" where
  "dl_search pfkeycmp h pkey pnode =
     (if pnode = NULL then Some NULL else do {
        n \<leftarrow> get_dn h pnode;
        c \<leftarrow> pfkeycmp h pkey (dn_pitem n);
        if c = 0 then Some pnode else dl_search pfkeycmp h pkey (dn_pnext n)
      })"

definition dl_first :: "('a heap \<Rightarrow> 'k \<Rightarrow> ptr \<Rightarrow> int option) \<Rightarrow> ptr \<Rightarrow> 'k \<Rightarrow> 'a heap \<Rightarrow> ptr option" where
  "dl_first pfkeycmp phead pkey h =
     (if phead = NULL then Some NULL else do {
        hd \<leftarrow> get_dh h phead;
        dl_search pfkeycmp h pkey (dh_pfirst hd)
      })"

definition dl_next :: "('a heap \<Rightarrow> 'k \<Rightarrow> ptr \<Rightarrow> int option) \<Rightarrow> ptr \<Rightarrow> 'k \<Rightarrow> 'a heap \<Rightarrow> ptr option" where
  "dl_next pfkeycmp pnode pkey h =
     (if pnode = NULL then Some NULL else dl_search pfkeycmp h pkey pnode)"

fun dl_nth_loop :: "nat \<Rightarrow> ptr \<Rightarrow> 'a heap \<Rightarrow> ptr option" where
  "dl_nth_loop 0 pnode h = Some pnode"
| "dl_nth_loop (Suc n) pnode h =
     (if pnode = NULL then Some NULL else do {
        nd \<leftarrow> get_dn h pnode;
        dl_nth_loop n (dn_pnext nd) h
      })"

definition dl_nth_node :: "int \<Rightarrow> ptr \<Rightarrow> 'a heap \<Rightarrow> ptr option" where
  "dl_nth_node n phead h =
     (if n < 0 then Some NULL else do {
        hd \<leftarrow> get_dh h phead;
        if dh_length hd \<le> n then Some NULL else dl_nth_loop (nat n) (dh_pfirst hd) h
      })"

definition dl_insert_before :: "ptr \<Rightarrow> ptr \<Rightarrow> ptr \<Rightarrow> 'a heap \<Rightarrow> (bool \<times> 'a heap) option" where
  "dl_insert_before phead pcurrent pitem h =
     (if phead = NULL then Some (False, h) else do {
        cur \<leftarrow> get_dn h pcurrent;
        let pleft = dn_pprev cur;
        if pleft = NULL then dl_insert pitem phead h else do {
          let (pnew, h) = dl_inst_node pitem pleft pcurrent h;
          if pnew \<noteq> NULL then do {
            h \<leftarrow> upd_dn pcurrent (dn_pprev_update (\<lambda>_. pnew)) h;
            h \<leftarrow> upd_dn pleft (dn_pnext_update (\<lambda>_. pnew)) h;
            h \<leftarrow> upd_dh phead (dh_length_update (\<lambda>l. l + 1)) h;
            Some (True, h)
          } else Some (False, h)
        }
      })"

definition dl_insert_after :: "ptr \<Rightarrow> ptr \<Rightarrow> ptr \<Rightarrow> 'a heap \<Rightarrow> (bool \<times> 'a heap) option" where
  "dl_insert_after phead pcurrent pitem h =
     (if phead = NULL then Some (False, h) else do {
        cur \<leftarrow> get_dn h pcurrent;
        let pright = dn_pnext cur;
        if pright = NULL then dl_append pitem phead h else do {
          let (pnew, h) = dl_inst_node pitem pcurrent pright h;
          if pnew \<noteq> NULL then do {
            h \<leftarrow> upd_dn pcurrent (dn_pnext_update (\<lambda>_. pnew)) h;
            h \<leftarrow> upd_dn pright (dn_pprev_update (\<lambda>_. pnew)) h;
            h \<leftarrow> upd_dh phead (dh_length_update (\<lambda>l. l + 1)) h;
            Some (True, h)
          } else Some (False, h)
        }
      })"

definition dl_nth_insert :: "int \<Rightarrow> ptr \<Rightarrow> ptr \<Rightarrow> 'a heap \<Rightarrow> (bool \<times> 'a heap) option" where
  "dl_nth_insert n pitem phead h =
     (if n = 0 then dl_insert pitem phead h else do {
        hd \<leftarrow> get_dh h phead;
        if n \<ge> dh_length hd then dl_append pitem phead h else do {
          pnew_right \<leftarrow> dl_nth_node n phead h;
          if pnew_right = NULL then Some (False, h) else do {
            pnew_left \<leftarrow> dl_nth_node (n - 1) phead h;
            if pnew_left = NULL then Some (False, h) else do {
              let (pnew, h) = dl_inst_node pitem pnew_left pnew_right h;
              if pnew \<noteq> NULL then do {
                h \<leftarrow> upd_dn pnew_left (dn_pnext_update (\<lambda>_. pnew)) h;
                h \<leftarrow> upd_dn pnew_right (dn_pprev_update (\<lambda>_. pnew)) h;
                h \<leftarrow> upd_dh phead (dh_length_update (\<lambda>l. l + 1)) h;
                Some (True, h)
              } else Some (False, h)
            }
          }
        }
      })"

definition dl_length :: "ptr \<Rightarrow> 'a heap \<Rightarrow> int option" where
  "dl_length phead h = (if phead = NULL then Some ERROR else map_option dh_length (get_dh h phead))"

text \<open>The \<open>size\<close> bytes copied from \<open>pdata\<close> are the object \<open>x\<close>.\<close>

definition dl_add_dup :: "ptr \<Rightarrow> 'a \<Rightarrow> bool \<Rightarrow> 'a heap \<Rightarrow> (bool \<times> 'a heap) option" where
  "dl_add_dup phead x front h =
     (let (pnew, h) = malloc (Obj x) h in
      if pnew = NULL then Some (False, h) else do {
        (status, h) \<leftarrow> (if front then dl_insert pnew phead h else dl_append pnew phead h);
        if \<not> status then do { h \<leftarrow> free pnew h; Some (status, h) } else Some (status, h)
      })"

definition dl_mv_node :: "'a \<Rightarrow> ptr \<Rightarrow> int \<Rightarrow> 'a heap \<Rightarrow> (int \<times> 'a heap) option" where
  "dl_mv_node x phead maximum h =
     (let (psave, h) = malloc (Obj x) h in
      if psave = NULL then Some (0, h) else do {
        (ok, h) \<leftarrow> dl_insert psave phead h;
        if \<not> ok then Some (0, h) else do {
          hd \<leftarrow> get_dh h phead;
          h \<leftarrow> (if dh_length hd > maximum then do {
                  (pold, h) \<leftarrow> dl_rm_last phead h;
                  if pold \<noteq> NULL then free pold h else Some h
                } else Some h);
          hd \<leftarrow> get_dh h phead;
          Some (dh_length hd, h)
        }
      })"

partial_function (option) dl_pq_search ::
  "('a heap \<Rightarrow> ptr \<Rightarrow> ptr \<Rightarrow> int option) \<Rightarrow> 'a heap \<Rightarrow> ptr \<Rightarrow> ptr \<Rightarrow> ptr option" where
  "dl_pq_search pfcmp h psave pnode =
     (if pnode = NULL then Some NULL else do {
        n \<leftarrow> get_dn h pnode;
        c \<leftarrow> pfcmp h psave (dn_pitem n);
        if c > 0 then Some pnode else dl_pq_search pfcmp h psave (dn_pnext n)
      })"

definition dl_pq_add :: "('a heap \<Rightarrow> ptr \<Rightarrow> ptr \<Rightarrow> int option) \<Rightarrow> ptr \<Rightarrow> 'a \<Rightarrow> 'a heap \<Rightarrow> (bool \<times> 'a heap) option" where
  "dl_pq_add pfcmp phead x h =
     (if phead = NULL then Some (False, h)
      else let (psave, h) = malloc (Obj x) h in
      if psave = NULL then Some (False, h) else do {
        hd \<leftarrow> get_dh h phead;
        pnode \<leftarrow> dl_pq_search pfcmp h psave (dh_pfirst hd);
        (ok, h) \<leftarrow> (if pnode \<noteq> NULL then dl_insert_before phead pnode psave h
                    else dl_append psave phead h);
        if \<not> ok then do { h \<leftarrow> free psave h; Some (False, h) } else Some (True, h)
      })"

definition dl_free :: "ptr \<Rightarrow> 'a heap \<Rightarrow> 'a heap option" where
  "dl_free phead h =
     (if phead = NULL then Some h else do {
        hd \<leftarrow> get_dh h phead;
        if dh_length hd = 0 then free phead h else do {
          h \<leftarrow> free_items dl_rm_last phead h;
          free phead h
        }
      })"

end
