(* ===== verification/SysListRep.thy ===== *)
theory SysListRep
  imports SysList
begin

text \<open>
  The representation predicate \<open>dl_rep\<close> relates a double linked list in memory to the list of its
  (node address, item pointer) pairs; one lemma per operation says that it returns (no fault, no
  endless loop), what it does to that list, and which memory it leaves alone.
\<close>

definition dl_first_addr :: "node_items \<Rightarrow> ptr \<Rightarrow> ptr" where
  "dl_first_addr L q = (case L of [] \<Rightarrow> q | m # _ \<Rightarrow> fst m)"

definition dl_last_addr :: "ptr \<Rightarrow> node_items \<Rightarrow> ptr" where
  "dl_last_addr p L = (if L = [] then p else fst (last L))"

fun dseg :: "(ptr \<rightharpoonup> 'a cell) \<Rightarrow> ptr \<Rightarrow> node_items \<Rightarrow> ptr \<Rightarrow> bool" where
  "dseg c p [] q \<longleftrightarrow> True"
| "dseg c p (m # L) q \<longleftrightarrow>
     c (fst m) = Some (DlNode \<lparr>dn_pitem = snd m, dn_pprev = p, dn_pnext = dl_first_addr L q\<rparr>) \<and>
     dseg c (fst m) L q"

definition dl_rep :: "'a heap \<Rightarrow> ptr \<Rightarrow> node_items \<Rightarrow> bool" where
  "dl_rep h ph L \<longleftrightarrow> cells h NULL = None \<and>
     cells h ph = Some (DlHead \<lparr>dh_length = int (length L), dh_pfirst = dl_first_addr L NULL,
       dh_plast = dl_last_addr NULL L\<rparr>) \<and>
     dseg (cells h) NULL L NULL \<and> distinct (map fst L)"

lemma dl_first_simps [simp]:
  "dl_first_addr [] q = q" "dl_first_addr (m # L) q = fst m"
  "dl_first_addr (L @ M) q = dl_first_addr L (dl_first_addr M q)"
  by (auto simp: dl_first_addr_def split: list.splits)

lemma dl_last_simps [simp]:
  "dl_last_addr p [] = p" "dl_last_addr p (L @ M) = dl_last_addr (dl_last_addr p L) M"
  "dl_last_addr p (m # L) = dl_last_addr (fst m) L"
  by (auto simp: dl_last_addr_def)

lemma dseg_append [simp]:
  "dseg c p (L @ M) q \<longleftrightarrow> dseg c p L (dl_first_addr M q) \<and> dseg c (dl_last_addr p L) M q"
  by (induction L arbitrary: p) auto

lemma dseg_upd [simp]: "a \<notin> fst ` set L \<Longrightarrow> dseg (c(a := v)) p L q = dseg c p L q"
  by (induction L arbitrary: p) auto

lemma dseg_cell: "dseg c p L q \<Longrightarrow> a \<in> fst ` set L \<Longrightarrow> \<exists>n. c a = Some (DlNode n)"
  by (induction L arbitrary: p) auto

lemma dseg_notin: "dseg c p L q \<Longrightarrow> \<forall>n. c a \<noteq> Some (DlNode n) \<Longrightarrow> a \<notin> fst ` set L"
  using dseg_cell by blast

lemma dseg_agree: "(\<And>a. a \<in> fst ` set L \<Longrightarrow> c' a = c a) \<Longrightarrow> dseg c' p L q = dseg c p L q"
  by (induction L arbitrary: p) auto

lemma dl_repE:
  assumes "dl_rep h ph L"
  shows "cells h NULL = None" "ph \<noteq> NULL"
    "cells h ph = Some (DlHead \<lparr>dh_length = int (length L), dh_pfirst = dl_first_addr L NULL,
       dh_plast = dl_last_addr NULL L\<rparr>)"
    "dseg (cells h) NULL L NULL" "distinct (map fst L)" "ph \<notin> nodes L" "NULL \<notin> nodes L"
proof -
  show "cells h NULL = None" "cells h ph = Some (DlHead \<lparr>dh_length = int (length L),
      dh_pfirst = dl_first_addr L NULL, dh_plast = dl_last_addr NULL L\<rparr>)"
    "dseg (cells h) NULL L NULL" "distinct (map fst L)"
    using assms by (auto simp: dl_rep_def)
  then show "ph \<noteq> NULL" "ph \<notin> nodes L" "NULL \<notin> nodes L"
    using dseg_notin[of "cells h" NULL L NULL] by (cases "ph = NULL", auto)+
qed

lemmas dl_acc = get_dn_def get_dh_def upd_dn_def upd_dh_def

lemma dl_inst_node_cases:
  assumes "dl_rep h ph L" "dl_inst_node x p q h = (n, h1)"
  shows "n = NULL \<and> cells h1 = cells h \<or> n \<noteq> NULL \<and> cells h n = None \<and> n \<notin> nodes L \<and> n \<noteq> ph \<and>
    cells h1 = (cells h)(n \<mapsto> DlNode \<lparr>dn_pitem = x, dn_pprev = p, dn_pnext = q\<rparr>)"
proof -
  note R = dl_repE[OF assms(1)]
  have "cells h n = None \<Longrightarrow> n \<notin> nodes L \<and> n \<noteq> ph"
    using dseg_notin[OF R(4), of n] R(3) by auto
  then show ?thesis
    using malloc_cases[OF assms(2)[unfolded dl_inst_node_def]] by (elim disjE) simp_all
qed

lemma dl_insert_spec:
  assumes rep: "dl_rep h ph L"
  shows "(\<exists>h'. dl_insert x ph h = Some (False, h') \<and> cells h' = cells h) \<or>
    (\<exists>h' n. dl_insert x ph h = Some (True, h') \<and> cells h n = None \<and>
       dl_rep h' ph ((n, x) # L) \<and> same_except ({ph, n} \<union> nodes L) h h')"
proof -
  note R = dl_repE[OF rep]
  obtain n h1 where m: "dl_inst_node x NULL (dl_first_addr L NULL) h = (n, h1)"
    by fastforce
  from dl_inst_node_cases[OF rep m] show ?thesis
  proof (elim disjE conjE, goal_cases)
    case 1
    then show ?thesis using R by (simp add: dl_insert_def dl_acc m)
  next
    case 2
    then show ?thesis using R m
      by (cases L) (auto simp: dl_insert_def dl_acc dl_rep_def same_except_def intro!: exI[of _ n])
  qed
qed

lemma dl_append_spec:
  assumes rep: "dl_rep h ph L"
  shows "(\<exists>h'. dl_append x ph h = Some (False, h') \<and> cells h' = cells h) \<or>
    (\<exists>h' n. dl_append x ph h = Some (True, h') \<and> cells h n = None \<and>
       dl_rep h' ph (L @ [(n, x)]) \<and> same_except ({ph, n} \<union> nodes L) h h')"
proof -
  note R = dl_repE[OF rep]
  obtain n h1 where m: "dl_inst_node x (dl_last_addr NULL L) NULL h = (n, h1)"
    by fastforce
  from dl_inst_node_cases[OF rep m] show ?thesis
  proof (elim disjE conjE, goal_cases)
    case 1
    then show ?thesis using R by (simp add: dl_append_def dl_acc m)
  next
    case 2
    then show ?thesis using R m
      by (cases L rule: rev_cases)
         (auto simp: dl_append_def dl_acc dl_rep_def same_except_def intro!: exI[of _ n])
  qed
qed

lemma dl_rm_first_empty: "dl_rep h ph [] \<Longrightarrow> dl_rm_first ph h = Some (NULL, h)"
  using dl_repE[of h ph "[]"] by (simp add: dl_rm_first_def dl_acc)

lemma dl_rm_first_spec:
  assumes rep: "dl_rep h ph ((n, x) # L)"
  shows "\<exists>h'. dl_rm_first ph h = Some (x, h') \<and> dl_rep h' ph L \<and> cells h' n = None \<and>
    same_except ({ph, n} \<union> nodes L) h h'"
  using dl_repE[OF rep]
  by (cases L) (auto simp: dl_rm_first_def dl_acc dl_rep_def same_except_def free_def)

lemma dl_rm_last_empty: "dl_rep h ph [] \<Longrightarrow> dl_rm_last ph h = Some (NULL, h)"
  using dl_repE[of h ph "[]"] by (simp add: dl_rm_last_def dl_acc)

lemma dl_rm_last_spec:
  assumes rep: "dl_rep h ph (L @ [(n, x)])"
  shows "\<exists>h'. dl_rm_last ph h = Some (x, h') \<and> dl_rep h' ph L \<and> cells h' n = None \<and>
    same_except ({ph, n} \<union> nodes L) h h'"
  using dl_repE[OF rep]
  by (cases L rule: rev_cases) (auto simp: dl_rm_last_def dl_acc dl_rep_def same_except_def free_def)

lemma dl_rm_node_spec:
  assumes rep: "dl_rep h ph (A @ (n, x) # B)"
  shows "\<exists>h'. dl_rm_node ph n h = Some (x, dl_last_addr NULL A, h') \<and> dl_rep h' ph (A @ B) \<and>
    cells h' n = None \<and> same_except ({ph, n} \<union> nodes (A @ B)) h h'"
proof -
  note R = dl_repE[OF rep]
  consider "A = []" | "A \<noteq> []" "B = []" | A' a B' b where "A = A' @ [a]" "B = b # B'"
    by (metis list.exhaust rev_exhaust)
  then show ?thesis
  proof cases
    case 1
    then show ?thesis
      using R dl_rm_first_spec[of h ph n x B] rep by (auto simp: dl_rm_node_def dl_acc)
  next
    case 2
    then obtain A' a where A: "A = A' @ [a]" by (metis rev_exhaust)
    then have "fst a \<noteq> NULL" using R by auto
    then show ?thesis
      using 2 A R dl_rm_last_spec[of h ph A n x] rep by (auto simp: dl_rm_node_def dl_acc)
  next
    case 3
    define c where "c = (cells h)(fst a \<mapsto> DlNode \<lparr>dn_pitem = snd a,
       dn_pprev = dl_last_addr NULL A', dn_pnext = fst b\<rparr>, fst b \<mapsto> DlNode \<lparr>dn_pitem = snd b,
       dn_pprev = fst a, dn_pnext = dl_first_addr B' NULL\<rparr>, ph \<mapsto> DlHead \<lparr>dh_length =
       int (length (A @ B)), dh_pfirst = dl_first_addr (A @ B) NULL,
       dh_plast = dl_last_addr NULL (A @ B)\<rparr>, n := None)"
    have D: "fst a \<noteq> n" "fst b \<noteq> n" "fst a \<noteq> fst b" "ph \<noteq> n" "ph \<noteq> fst a" "ph \<noteq> fst b"
      "fst a \<noteq> NULL" "fst b \<noteq> NULL" "n \<noteq> NULL" "ph \<noteq> NULL"
      "n \<notin> nodes A'" "n \<notin> nodes B'" "ph \<notin> nodes A'" "ph \<notin> nodes B'"
      "fst a \<notin> nodes A'" "fst a \<notin> nodes B'" "fst b \<notin> nodes A'" "fst b \<notin> nodes B'"
      using R 3 by auto
    note D' = D D(1-6)[symmetric]
    have C: "cells h (fst a) = Some (DlNode \<lparr>dn_pitem = snd a, dn_pprev = dl_last_addr NULL A', dn_pnext = n\<rparr>)"
      "cells h n = Some (DlNode \<lparr>dn_pitem = x, dn_pprev = fst a, dn_pnext = fst b\<rparr>)"
      "cells h (fst b) = Some (DlNode \<lparr>dn_pitem = snd b, dn_pprev = n, dn_pnext = dl_first_addr B' NULL\<rparr>)"
      "cells h ph = Some (DlHead \<lparr>dh_length = int (length A' + length B' + 3),
         dh_pfirst = dl_first_addr (A @ B) NULL, dh_plast = dl_last_addr NULL (A @ B)\<rparr>)"
      using R 3 by auto
    have "\<exists>h'. dl_rm_node ph n h = Some (x, fst a, h') \<and> cells h' = c"
      using D' C 3 by (simp add: dl_rm_node_def dl_acc free_def c_def fun_upd_twist Let_def)
    moreover have "dl_rep h' ph (A @ B)" if "cells h' = c" for h'
    proof -
      have "dseg (cells h) NULL A' (fst a)" "dseg (cells h) (fst b) B' NULL" "distinct (map fst (A @ B))"
        using R 3 by auto
      then show ?thesis using R(1) D' 3 that by (simp add: dl_rep_def c_def)
    qed
    ultimately show ?thesis using 3 D' by (auto simp: c_def same_except_def)
  qed
qed

lemma dl_nth_loop_spec:
  "dseg (cells h) p L NULL \<Longrightarrow> NULL \<notin> nodes L \<Longrightarrow> n < length L \<Longrightarrow>
   dl_nth_loop n (dl_first_addr L NULL) h = Some (fst (L ! n))"
proof (induction n arbitrary: L p)
  case 0
  then show ?case by (cases L) auto
next
  case (Suc n)
  then show ?case by (cases L) (auto simp: dl_acc)
qed

lemma dl_nth_node_spec:
  assumes "dl_rep h ph L"
  shows "dl_nth_node n ph h = Some (if 0 \<le> n \<and> n < int (length L) then fst (L ! nat n) else NULL)"
  using dl_repE[OF assms] dl_nth_loop_spec[of h NULL L "nat n"]
  by (auto simp: dl_nth_node_def dl_acc nat_less_iff)

lemma dl_search_spec:
  "dseg (cells h) p L NULL \<Longrightarrow> NULL \<notin> nodes L \<Longrightarrow> (\<And>m. m \<in> set L \<Longrightarrow> cmp h k (snd m) = Some (f (snd m))) \<Longrightarrow>
   dl_search cmp h k (dl_first_addr L NULL) =
     Some (case find (\<lambda>m. f (snd m) = 0) L of None \<Rightarrow> NULL | Some m \<Rightarrow> fst m)"
proof (induction L arbitrary: p)
  case Nil
  then show ?case by (simp add: dl_search.simps)
next
  case (Cons m L)
  then show ?case by (subst dl_search.simps) (auto simp: dl_acc)
qed

lemma dl_first_spec:
  assumes "dl_rep h ph L" "\<And>m. m \<in> set L \<Longrightarrow> cmp h k (snd m) = Some (f (snd m))"
  shows "dl_first cmp ph k h = Some (case find (\<lambda>m. f (snd m) = 0) L of None \<Rightarrow> NULL | Some m \<Rightarrow> fst m)"
  using dl_repE[OF assms(1)] dl_search_spec[of h NULL L cmp k f] assms(2)
  by (auto simp: dl_first_def dl_acc)

lemma dl_pq_search_spec:
  "dseg (cells h) p L NULL \<Longrightarrow> NULL \<notin> nodes L \<Longrightarrow> (\<And>m. m \<in> set L \<Longrightarrow> cmp h k (snd m) = Some (f (snd m))) \<Longrightarrow>
   dl_pq_search cmp h k (dl_first_addr L NULL) =
     Some (dl_first_addr (dropWhile (\<lambda>m. f (snd m) \<le> 0) L) NULL)"
proof (induction L arbitrary: p)
  case Nil
  then show ?case by (simp add: dl_pq_search.simps)
next
  case (Cons m L)
  then show ?case by (subst dl_pq_search.simps) (auto simp: dl_acc)
qed

lemma dl_link_facts:
  assumes rep: "dl_rep h ph (A @ a # b # B)" and n: "n \<notin> nodes (A @ a # b # B)" "n \<noteq> ph" "n \<noteq> NULL"
  shows "fst a \<noteq> n" "fst b \<noteq> n" "fst a \<noteq> fst b" "ph \<noteq> n" "ph \<noteq> fst a" "ph \<noteq> fst b"
    "n \<noteq> fst a" "n \<noteq> fst b" "fst b \<noteq> fst a" "n \<noteq> ph" "fst a \<noteq> ph" "fst b \<noteq> ph"
    "n \<notin> nodes A" "n \<notin> nodes B" "ph \<notin> nodes A" "ph \<notin> nodes B"
    "fst a \<notin> nodes A" "fst a \<notin> nodes B" "fst b \<notin> nodes A" "fst b \<notin> nodes B" "n \<noteq> NULL"
    "fst a \<noteq> NULL" "fst b \<noteq> NULL" "ph \<noteq> NULL"
    "cells h (fst a) = Some (DlNode \<lparr>dn_pitem = snd a, dn_pprev = dl_last_addr NULL A, dn_pnext = fst b\<rparr>)"
    "cells h (fst b) = Some (DlNode \<lparr>dn_pitem = snd b, dn_pprev = fst a, dn_pnext = dl_first_addr B NULL\<rparr>)"
    "dseg (cells h) NULL A (fst a)" "dseg (cells h) (fst b) B NULL" "distinct (map fst (A @ B))"
  using dl_repE[OF rep] n by auto

lemma dl_link_before:
  assumes rep: "dl_rep h ph (A @ a # b # B)" and n: "n \<notin> nodes (A @ a # b # B)" "n \<noteq> ph" "n \<noteq> NULL"
    and h1: "cells h1 = (cells h)(n \<mapsto> DlNode \<lparr>dn_pitem = x, dn_pprev = fst a, dn_pnext = fst b\<rparr>)"
  obtains h2 h3 h4 where "upd_dn (fst b) (dn_pprev_update (\<lambda>_. n)) h1 = Some h2"
    "upd_dn (fst a) (dn_pnext_update (\<lambda>_. n)) h2 = Some h3"
    "upd_dh ph (dh_length_update (\<lambda>l. l + 1)) h3 = Some h4"
    "dl_rep h4 ph (A @ a # (n, x) # b # B)" "same_except ({ph, n} \<union> nodes (A @ a # b # B)) h h4"
  using dl_link_facts[OF rep n] dl_repE(1,3)[OF rep]
  by (simp add: dl_acc h1 dl_rep_def same_except_def)

lemma dl_link_after:
  assumes rep: "dl_rep h ph (A @ a # b # B)" and n: "n \<notin> nodes (A @ a # b # B)" "n \<noteq> ph" "n \<noteq> NULL"
    and h1: "cells h1 = (cells h)(n \<mapsto> DlNode \<lparr>dn_pitem = x, dn_pprev = fst a, dn_pnext = fst b\<rparr>)"
  obtains h2 h3 h4 where "upd_dn (fst a) (dn_pnext_update (\<lambda>_. n)) h1 = Some h2"
    "upd_dn (fst b) (dn_pprev_update (\<lambda>_. n)) h2 = Some h3"
    "upd_dh ph (dh_length_update (\<lambda>l. l + 1)) h3 = Some h4"
    "dl_rep h4 ph (A @ a # (n, x) # b # B)" "same_except ({ph, n} \<union> nodes (A @ a # b # B)) h h4"
  using dl_link_facts[OF rep n] dl_repE(1,3)[OF rep]
  by (simp add: dl_acc h1 dl_rep_def same_except_def)

text \<open>The outcome of every operation that tries to add one node carrying item \<open>x\<close>.\<close>

definition added :: "'a heap \<Rightarrow> ptr \<Rightarrow> node_items \<Rightarrow> node_items \<Rightarrow> ptr \<Rightarrow> (bool \<times> 'a heap) option \<Rightarrow> bool" where
  "added h ph A B x res \<longleftrightarrow>
     (\<exists>h'. res = Some (False, h') \<and> cells h' = cells h) \<or>
     (\<exists>h' n. res = Some (True, h') \<and> cells h n = None \<and> dl_rep h' ph (A @ (n, x) # B) \<and>
        same_except ({ph, n} \<union> nodes (A @ B)) h h')"

lemma dl_link_step:
  assumes rep: "dl_rep h ph (A @ a # b # B)" and m: "dl_inst_node x (fst a) (fst b) h = (n, h1)"
  shows "added h ph (A @ [a]) (b # B) x (if n \<noteq> NULL then do {
       h \<leftarrow> upd_dn (fst b) (dn_pprev_update (\<lambda>_. n)) h1;
       h \<leftarrow> upd_dn (fst a) (dn_pnext_update (\<lambda>_. n)) h;
       h \<leftarrow> upd_dh ph (dh_length_update (\<lambda>l. l + 1)) h;
       Some (True, h) } else Some (False, h1))"
    and "added h ph (A @ [a]) (b # B) x (if n \<noteq> NULL then do {
       h \<leftarrow> upd_dn (fst a) (dn_pnext_update (\<lambda>_. n)) h1;
       h \<leftarrow> upd_dn (fst b) (dn_pprev_update (\<lambda>_. n)) h;
       h \<leftarrow> upd_dh ph (dh_length_update (\<lambda>l. l + 1)) h;
       Some (True, h) } else Some (False, h1))"
proof -
  consider "n = NULL" "cells h1 = cells h"
    | "n \<notin> nodes (A @ a # b # B)" "n \<noteq> ph" "n \<noteq> NULL" "cells h n = None"
      "cells h1 = (cells h)(n \<mapsto> DlNode \<lparr>dn_pitem = x, dn_pprev = fst a, dn_pnext = fst b\<rparr>)"
    using dl_inst_node_cases[OF rep m] by metis
  note C = this
  show "added h ph (A @ [a]) (b # B) x (if n \<noteq> NULL then do {
       h \<leftarrow> upd_dn (fst b) (dn_pprev_update (\<lambda>_. n)) h1;
       h \<leftarrow> upd_dn (fst a) (dn_pnext_update (\<lambda>_. n)) h;
       h \<leftarrow> upd_dh ph (dh_length_update (\<lambda>l. l + 1)) h;
       Some (True, h) } else Some (False, h1))"
  proof (rule C)
    assume "n \<notin> nodes (A @ a # b # B)" "n \<noteq> ph" "n \<noteq> NULL" "cells h n = None"
      "cells h1 = (cells h)(n \<mapsto> DlNode \<lparr>dn_pitem = x, dn_pprev = fst a, dn_pnext = fst b\<rparr>)"
    then show ?thesis
      by (rule_tac dl_link_before[OF rep, of n h1 x]) (auto simp: added_def intro!: exI[of _ n])
  qed (simp add: added_def)
  show "added h ph (A @ [a]) (b # B) x (if n \<noteq> NULL then do {
       h \<leftarrow> upd_dn (fst a) (dn_pnext_update (\<lambda>_. n)) h1;
       h \<leftarrow> upd_dn (fst b) (dn_pprev_update (\<lambda>_. n)) h;
       h \<leftarrow> upd_dh ph (dh_length_update (\<lambda>l. l + 1)) h;
       Some (True, h) } else Some (False, h1))"
  proof (rule C)
    assume "n \<notin> nodes (A @ a # b # B)" "n \<noteq> ph" "n \<noteq> NULL" "cells h n = None"
      "cells h1 = (cells h)(n \<mapsto> DlNode \<lparr>dn_pitem = x, dn_pprev = fst a, dn_pnext = fst b\<rparr>)"
    then show ?thesis
      by (rule_tac dl_link_after[OF rep, of n h1 x]) (auto simp: added_def intro!: exI[of _ n])
  qed (simp add: added_def)
qed

lemma added_insert:
  "dl_rep h ph L \<Longrightarrow> added h ph [] L x (dl_insert x ph h)"
  using dl_insert_spec[of h ph L x] by (simp add: added_def)

lemma added_append:
  "dl_rep h ph L \<Longrightarrow> added h ph L [] x (dl_append x ph h)"
  using dl_append_spec[of h ph L x] by (simp add: added_def)

lemma dl_insert_before_spec:
  assumes rep: "dl_rep h ph (A @ b # B)"
  shows "added h ph A (b # B) x (dl_insert_before ph (fst b) x h)"
proof (cases A rule: rev_cases)
  case Nil
  then show ?thesis
    using added_insert[OF rep, of x] dl_repE[OF rep] by (simp add: dl_insert_before_def dl_acc)
next
  case (snoc A' a)
  then have rep': "dl_rep h ph (A' @ a # b # B)" using rep by simp
  have ne: "fst a \<noteq> NULL" "ph \<noteq> NULL" "get_dn h (fst b) = Some \<lparr>dn_pitem = snd b,
      dn_pprev = fst a, dn_pnext = dl_first_addr B NULL\<rparr>"
    using dl_repE[OF rep] snoc by (auto simp: dl_acc)
  obtain n h1 where m: "dl_inst_node x (fst a) (fst b) h = (n, h1)" by fastforce
  show ?thesis using dl_link_step(1)[OF rep' m] ne snoc m by (simp add: dl_insert_before_def)
qed

lemma dl_insert_after_spec:
  assumes rep: "dl_rep h ph (A @ a # B)"
  shows "added h ph (A @ [a]) B x (dl_insert_after ph (fst a) x h)"
proof (cases B)
  case Nil
  then show ?thesis
    using added_append[OF rep, of x] dl_repE[OF rep] by (simp add: dl_insert_after_def dl_acc)
next
  case (Cons b B')
  then have rep': "dl_rep h ph (A @ a # b # B')" using rep by simp
  have ne: "fst b \<noteq> NULL" "ph \<noteq> NULL" "get_dn h (fst a) = Some \<lparr>dn_pitem = snd a,
      dn_pprev = dl_last_addr NULL A, dn_pnext = fst b\<rparr>"
    using dl_repE[OF rep] Cons by (auto simp: dl_acc)
  obtain n h1 where m: "dl_inst_node x (fst a) (fst b) h = (n, h1)" by fastforce
  show ?thesis using dl_link_step(2)[OF rep' m] ne Cons m by (simp add: dl_insert_after_def)
qed

lemma dl_nth_insert_negative:
  "dl_rep h ph L \<Longrightarrow> n < 0 \<Longrightarrow> dl_nth_insert n x ph h = Some (False, h)"
  using dl_repE[of h ph L] dl_nth_node_spec[of h ph L n] by (simp add: dl_nth_insert_def dl_acc)

lemma dl_nth_insert_spec:
  assumes rep: "dl_rep h ph L"
  shows "added h ph (take k L) (drop k L) x (dl_nth_insert (int k) x ph h)"
proof -
  note R = dl_repE[OF rep]
  consider "k = 0" | "k \<noteq> 0" "length L \<le> k" | "k \<noteq> 0" "k < length L" by linarith
  then show ?thesis
  proof cases
    case 1
    then show ?thesis using added_insert[OF rep] by (simp add: dl_nth_insert_def)
  next
    case 2
    then show ?thesis using added_append[OF rep] R(3) by (simp add: dl_nth_insert_def dl_acc)
  next
    case 3
    define A a b B where "A = take (k - 1) L" "a = L ! (k - 1)" "b = L ! k" "B = drop (Suc k) L"
    have take: "take k L = A @ [a]" and drop: "drop k L = b # B"
      using 3 take_Suc_conv_app_nth[of "k - 1" L] by (auto simp: A_a_b_B_def Cons_nth_drop_Suc)
    then have L: "L = A @ a # b # B" by (metis append.assoc append_Cons append_Nil append_take_drop_id)
    then have rep': "dl_rep h ph (A @ a # b # B)" using rep by simp
    have nth: "dl_nth_node (int k) ph h = Some (fst b)" "dl_nth_node (int k - 1) ph h = Some (fst a)"
      using 3 dl_nth_node_spec[OF rep, of "int k"] dl_nth_node_spec[OF rep, of "int k - 1"]
      by (auto simp: A_a_b_B_def nat_diff_distrib)
    have ne: "fst a \<noteq> NULL" "fst b \<noteq> NULL" using dl_repE(7)[OF rep'] by auto
    obtain n h1 where m: "dl_inst_node x (fst a) (fst b) h = (n, h1)" by fastforce
    show ?thesis unfolding take drop
      using dl_link_step(2)[OF rep' m] ne nth R(3) 3 m by (simp add: dl_nth_insert_def get_dh_def)
  qed
qed

lemma dl_rep_agree:
  assumes "dl_rep h ph L" "same_except S h h'" "S \<inter> ({NULL, ph} \<union> nodes L) = {}"
  shows "dl_rep h' ph L"
proof -
  have "\<And>a. a \<in> {NULL, ph} \<union> nodes L \<Longrightarrow> cells h' a = cells h a"
    using assms(2,3) by (auto simp: same_except_def)
  then show ?thesis
    using assms(1) dseg_agree[of L "cells h'" "cells h"] by (auto simp: dl_rep_def)
qed

lemma dl_rep_malloc:
  assumes "dl_rep h ph L" "malloc c h = (p, h1)"
  shows "dl_rep h1 ph L" "p \<noteq> NULL \<Longrightarrow> p \<notin> nodes L \<and> p \<noteq> ph"
proof -
  note R = dl_repE[OF assms(1)]
  have p: "cells h p = None \<Longrightarrow> p \<notin> nodes L \<and> p \<noteq> ph"
    using dseg_notin[OF R(4), of p] R(3) by auto
  show "dl_rep h1 ph L"
    using malloc_cases[OF assms(2)] p assms(1)
    by (elim disjE) (auto simp: dl_rep_def)
  show "p \<noteq> NULL \<Longrightarrow> p \<notin> nodes L \<and> p \<noteq> ph"
    using malloc_cases[OF assms(2)] p by (elim disjE) auto
qed

lemma dl_add_dup_spec:
  assumes rep: "dl_rep h ph L"
  shows "(\<exists>h'. dl_add_dup ph x front h = Some (False, h') \<and> cells h' = cells h) \<or>
    (\<exists>h' n p. dl_add_dup ph x front h = Some (True, h') \<and> cells h n = None \<and> cells h p = None \<and> p \<noteq> NULL \<and>
       cells h' p = Some (Obj x) \<and> dl_rep h' ph (if front then (n, p) # L else L @ [(n, p)]) \<and>
       same_except ({ph, n, p} \<union> nodes L) h h')"
proof -
  obtain p h1 where m: "malloc (Obj x) h = (p, h1)" by fastforce
  consider "p = NULL" "cells h1 = cells h"
    | "p \<noteq> NULL" "cells h p = None" "cells h1 = (cells h)(p \<mapsto> Obj x)"
    using malloc_cases[OF m] by metis
  then show ?thesis
  proof cases
    case 1
    then show ?thesis using m by (simp add: dl_add_dup_def)
  next
    case 2
    have rep1: "dl_rep h1 ph L" and pL: "p \<notin> nodes L" "p \<noteq> ph" using dl_rep_malloc[OF rep m] 2 by auto
    have "added h1 ph (if front then [] else L) (if front then L else []) p
       (if front then dl_insert p ph h1 else dl_append p ph h1)"
      using added_insert[OF rep1] added_append[OF rep1] by simp
    then consider h2 where "(if front then dl_insert p ph h1 else dl_append p ph h1) = Some (False, h2)"
        "cells h2 = cells h1"
      | h2 n where "(if front then dl_insert p ph h1 else dl_append p ph h1) = Some (True, h2)"
        "cells h1 n = None" "dl_rep h2 ph (if front then (n, p) # L else L @ [(n, p)])"
        "same_except ({ph, n} \<union> nodes L) h1 h2"
      by (auto simp: added_def split: if_splits)
    then show ?thesis
    proof cases
      case (1 h2)
      have "(cells h)(p := None) = cells h" using 2 by auto
      then show ?thesis using 1 2 m by (auto simp: dl_add_dup_def free_def)
    next
      case (2 h2 n)
      have "n \<noteq> p" using 2(2) \<open>cells h1 = _\<close> by auto
      then have "cells h2 p = Some (Obj x)" "cells h n = None" "same_except ({ph, n, p} \<union> nodes L) h h2"
        using 2 pL \<open>cells h1 = _\<close> by (auto simp: same_except_def)
      then show ?thesis using 2 m \<open>p \<noteq> NULL\<close> \<open>cells h p = None\<close>
        by (cases front) (auto simp: dl_add_dup_def)
    qed
  qed
qed

text \<open>The double linked list provides the list contract.\<close>

lemma dl_rep_other:
  assumes rep: "dl_rep h ph L" and p: "cells h p = None \<or> cells h p = Some (Obj v)"
  shows "p \<noteq> ph \<and> p \<notin> nodes L"
proof -
  have "p \<notin> nodes L" using p dseg_notin[OF dl_repE(4)[OF rep], of p] by (elim disjE) simp_all
  moreover have "p \<noteq> ph" using p dl_repE(3)[OF rep] by auto
  ultimately show ?thesis by blast
qed

lemma dl_rep_heads: "dl_rep h ph L \<Longrightarrow> cells h NULL = None \<and> ph \<notin> nodes L"
  using dl_repE(1,6) by blast

interpretation dl: list_store dl_rep dl_insert dl_append dl_rm_first dl_rm_last
  by (unfold_locales; fact dl_insert_spec dl_append_spec dl_rm_first_empty dl_rm_first_spec
        dl_rm_last_empty dl_rm_last_spec dl_rep_agree dl_rep_heads dl_rep_other)

lemma dl_free_spec:
  assumes "dl_rep h ph L" "own_items h L"
  shows "\<exists>h'. dl_free ph h = Some h' \<and>
    (\<forall>a \<in> {ph} \<union> nodes L \<union> set (items L). cells h' a = None) \<and>
    same_except ({ph} \<union> nodes L \<union> set (items L)) h h'"
proof (cases "L = []")
  case True
  then show ?thesis using dl_repE[OF assms(1)]
    by (auto simp: dl_free_def dl_acc free_def same_except_def)
next
  case False
  obtain h1 where h1: "free_items dl_rm_last ph h = Some h1" "dl_rep h1 ph []"
    "\<forall>a \<in> nodes L \<union> set (items L). cells h1 a = None"
    "same_except ({ph} \<union> nodes L \<union> set (items L)) h h1"
    using dl.free_items_law[OF assms] by blast
  then show ?thesis using dl_repE[OF assms(1)] dl_repE[OF h1(2)] False
    by (auto simp: dl_free_def dl_acc free_def same_except_def)
qed

lemma dl_pq_add_spec:
  assumes rep: "dl_rep h ph L"
    and cmp: "\<And>h' p m. cells h' = (cells h)(p \<mapsto> Obj x) \<Longrightarrow> cells h p = None \<Longrightarrow> m \<in> set L \<Longrightarrow>
      cmp h' p (snd m) = Some (f (snd m))"
  defines "A \<equiv> takeWhile (\<lambda>m. f (snd m) \<le> 0) L" and "B \<equiv> dropWhile (\<lambda>m. f (snd m) \<le> 0) L"
  shows "(\<exists>h'. dl_pq_add cmp ph x h = Some (False, h') \<and> cells h' = cells h) \<or>
    (\<exists>h' n p. dl_pq_add cmp ph x h = Some (True, h') \<and> cells h p = None \<and> p \<noteq> NULL \<and>
       cells h n = None \<and> cells h' p = Some (Obj x) \<and> dl_rep h' ph (A @ (n, p) # B) \<and>
       same_except ({ph, n, p} \<union> nodes L) h h')"
proof -
  have L: "L = A @ B" by (simp add: A_def B_def)
  obtain p h1 where m: "malloc (Obj x) h = (p, h1)" by fastforce
  consider "p = NULL" "cells h1 = cells h"
    | "p \<noteq> NULL" "cells h p = None" "cells h1 = (cells h)(p \<mapsto> Obj x)"
    using malloc_cases[OF m] by metis
  then show ?thesis
  proof cases
    case 1
    then show ?thesis using m dl_repE(2)[OF rep] by (simp add: dl_pq_add_def)
  next
    case 2
    have rep1: "dl_rep h1 ph L" and pL: "p \<notin> nodes L" "p \<noteq> ph" using dl_rep_malloc[OF rep m] 2 by auto
    note R1 = dl_repE[OF rep1]
    let ?act = "if dl_first_addr B NULL \<noteq> NULL then dl_insert_before ph (dl_first_addr B NULL) p h1
      else dl_append p ph h1"
    have search: "dl_pq_search cmp h1 p (dl_first_addr L NULL) = Some (dl_first_addr B NULL)"
      unfolding B_def by (rule dl_pq_search_spec[OF R1(4,7)]) (use cmp 2 in blast)
    have "added h1 ph A B p ?act"
    proof (cases B)
      case Nil
      then show ?thesis using added_append[OF rep1] L by simp
    next
      case (Cons b B')
      then have "fst b \<noteq> NULL" using R1(7) L by auto
      then show ?thesis using dl_insert_before_spec[of h1 ph A b B' p] rep1 Cons L by simp
    qed
    moreover have "dl_pq_add cmp ph x h = do { (ok, h) \<leftarrow> ?act;
        if \<not> ok then do { h \<leftarrow> free p h; Some (False, h) } else Some (True, h) }"
      using m search R1(2,3) 2(1) by (simp add: dl_pq_add_def get_dh_def)
    moreover have "(cells h)(p := None) = cells h" using 2 by auto
    ultimately show ?thesis unfolding added_def
    proof (elim disjE exE conjE)
      fix h2 n assume "?act = Some (True, h2)" "cells h1 n = None" "dl_rep h2 ph (A @ (n, p) # B)"
        "same_except ({ph, n} \<union> nodes (A @ B)) h1 h2"
        "dl_pq_add cmp ph x h = do { (ok, h) \<leftarrow> ?act;
           if \<not> ok then do { h \<leftarrow> free p h; Some (False, h) } else Some (True, h) }"
      moreover from this have "n \<noteq> p" using 2 by auto
      ultimately show ?thesis using 2 pL L
        by (intro disjI2 exI[of _ h2] exI[of _ n] exI[of _ p]) (auto simp: same_except_def)
    qed (use 2 in \<open>auto simp: free_def\<close>)
  qed
qed

lemma dl_mv_node_spec:
  assumes rep: "dl_rep h ph L" and own: "own_items h L"
  shows "(\<exists>h'. dl_mv_node x ph maximum h = Some (0, h') \<and> cells h' = cells h) \<or>
    (\<exists>h' p. dl_mv_node x ph maximum h = Some (0, h') \<and> cells h p = None \<and> cells h' = (cells h)(p \<mapsto> Obj x)) \<or>
    (\<exists>h' n p L'. dl_mv_node x ph maximum h = Some (int (length L'), h') \<and> cells h p = None \<and>
       L' = (if int (length L) + 1 > maximum then butlast ((n, p) # L) else (n, p) # L) \<and> dl_rep h' ph L')"
proof -
  obtain p h1 where m: "malloc (Obj x) h = (p, h1)" by fastforce
  consider "p = NULL" "cells h1 = cells h"
    | "p \<noteq> NULL" "cells h p = None" "cells h1 = (cells h)(p \<mapsto> Obj x)"
    using malloc_cases[OF m] by metis
  then show ?thesis
  proof cases
    case 1
    then show ?thesis using m by (simp add: dl_mv_node_def)
  next
    case 2
    have rep1: "dl_rep h1 ph L" and pL: "p \<notin> nodes L" "p \<noteq> ph" using dl_rep_malloc[OF rep m] 2 by auto
    show ?thesis using dl_insert_spec[OF rep1, of p]
    proof (elim disjE exE conjE)
      fix h2 assume "dl_insert p ph h1 = Some (False, h2)" "cells h2 = cells h1"
      then show ?thesis using m 2 by (auto simp: dl_mv_node_def intro!: exI[of _ p])
    next
      fix h2 n
      assume ins: "dl_insert p ph h1 = Some (True, h2)" "cells h1 n = None" and rep2: "dl_rep h2 ph ((n, p) # L)"
        and se: "same_except ({ph, n} \<union> nodes L) h1 h2"
      have len: "get_dh h2 ph = Some \<lparr>dh_length = int (length L) + 1, dh_pfirst = n,
          dh_plast = dl_last_addr n L\<rparr>" using dl_repE(3)[OF rep2] by (simp add: get_dh_def)
      show ?thesis
      proof (cases "int (length L) + 1 > maximum")
        case False
        then have "dl_mv_node x ph maximum h = Some (int (length ((n, p) # L)), h2)"
          using m 2 ins len by (auto simp: dl_mv_node_def)
        with False show ?thesis using 2 rep2
          by (intro disjI2 exI[of _ h2] exI[of _ n] exI[of _ p] exI[of _ "(n, p) # L"]) auto
      next
        case True
        obtain K k y where K: "(n, p) # L = K @ [(k, y)]" by (metis nonempty_snoc list.distinct(1) surj_pair)
        obtain h3 where h3: "dl_rm_last ph h2 = Some (y, h3)" "dl_rep h3 ph K" "same_except ({ph, k} \<union> nodes K) h2 h3"
          using dl_rm_last_spec[of h2 ph K k y] rep2 K by auto
        have "y \<in> set (items ((n, p) # L))" using K by simp
        then obtain v where v1: "cells h1 y = Some (Obj v)" using own 2
          by (cases "y = p", simp, fastforce simp: own_items_def)
        then have "y \<notin> {ph, n} \<union> nodes L" using dl.obj_not_node[OF rep1 v1] ins(2) by auto
        then have v: "cells h2 y = Some (Obj v)" using se v1 by (simp add: same_except_def)
        note y = dl.obj_not_node[OF rep2 v]
        then have y3: "cells h3 y = Some (Obj v)" using h3(3) v K by (auto simp: same_except_def)
        define h4 where "h4 = h3\<lparr>cells := (cells h3)(y := None)\<rparr>"
        have "free y h3 = Some h4" using y3 y(3) by (simp add: free_def h4_def)
        moreover have rep4: "dl_rep h4 ph K"
          by (rule dl_rep_agree[OF h3(2), of "{y}"]) (use y K in \<open>auto simp: same_except_def h4_def\<close>)
        moreover have "butlast ((n, p) # L) = K" using K by simp
        moreover have "dl_mv_node x ph maximum h = Some (int (length K), h4)"
          using m 2(1) ins(1) len h3(1) y(3) True \<open>free y h3 = Some h4\<close> dl_repE(3)[OF rep4]
          by (simp add: dl_mv_node_def get_dh_def)
        ultimately show ?thesis using True 2
          by (intro disjI2 exI[of _ h4] exI[of _ n] exI[of _ p] exI[of _ K]) auto
      qed
    qed
  qed
qed

lemma dl_length_spec: "dl_rep h ph L \<Longrightarrow> dl_length ph h = Some (int (length L))"
  using dl_repE[of h ph L] by (simp add: dl_length_def dl_acc)

lemma dl_rep_create:
  assumes "cells h NULL = None" "dl_create h = (ph, h0)" "ph \<noteq> NULL" shows "dl_rep h0 ph []"
  using malloc_cases[OF assms(2)[unfolded dl_create_def]] assms(1,3) by (auto simp: dl_rep_def)

text \<open>The objects a list's items point to, and the place of a new one among them by priority.\<close>

definition item_values :: "'a heap \<Rightarrow> node_items \<Rightarrow> 'a list" where
  "item_values h L = map (\<lambda>p. the (get_obj h p)) (items L)"

definition pq_place :: "('a \<Rightarrow> int) \<Rightarrow> 'a \<Rightarrow> 'a list \<Rightarrow> 'a list" where
  "pq_place key x ys = takeWhile (\<lambda>y. key x \<le> key y) ys @ x # dropWhile (\<lambda>y. key x \<le> key y) ys"

lemma pq_place_sorted:
  "sorted_wrt (\<lambda>a b. key b \<le> key a) ys \<Longrightarrow> sorted_wrt (\<lambda>a b. key b \<le> key a) (pq_place key x ys)"
proof (induction ys)
  case Nil
  then show ?case by (simp add: pq_place_def)
next
  case (Cons y ys)
  show ?case
  proof (cases "key x \<le> key y")
    case True
    have "pq_place key x (y # ys) = y # pq_place key x ys" using True by (simp add: pq_place_def)
    moreover have "\<forall>z \<in> set (pq_place key x ys). key z \<le> key y"
      using Cons.prems True by (auto simp: pq_place_def dest: set_takeWhileD set_dropWhileD)
    ultimately show ?thesis using Cons by simp
  next
    case False
    then show ?thesis using Cons.prems by (auto simp: pq_place_def)
  qed
qed

lemma own_items_values:
  assumes "own_items h L" "m \<in> set L" shows "cells h (snd m) = Some (Obj (the (get_obj h (snd m))))"
  using assms by (fastforce simp: own_items_def get_obj_def)

lemma dl_pq_add_values:
  assumes rep: "dl_rep h ph L" and own: "own_items h L"
    and cmp: "\<And>h p q x y. cells h p = Some (Obj x) \<Longrightarrow> cells h q = Some (Obj y) \<Longrightarrow> cmp h p q = Some (key x - key y)"
  shows "(\<exists>h'. dl_pq_add cmp ph x h = Some (False, h') \<and> cells h' = cells h) \<or>
    (\<exists>h' L'. dl_pq_add cmp ph x h = Some (True, h') \<and> dl_rep h' ph L' \<and> own_items h' L' \<and>
       item_values h' L' = pq_place key x (item_values h L))"
proof -
  define f where "f = (\<lambda>q. key x - key (the (get_obj h q)))"
  have c: "cmp h' p (snd m) = Some (f (snd m))"
    if "cells h' = (cells h)(p \<mapsto> Obj x)" "cells h p = None" "m \<in> set L" for h' p m
  proof -
    note o = own_items_values[OF own that(3)]
    then have "snd m \<noteq> p" using that(2) by auto
    then show ?thesis using cmp[of h' p x "snd m"] that(1) o by (simp add: f_def)
  qed
  let ?A = "takeWhile (\<lambda>m. f (snd m) \<le> 0) L" and ?B = "dropWhile (\<lambda>m. f (snd m) \<le> 0) L"
  have "(\<exists>h'. dl_pq_add cmp ph x h = Some (False, h') \<and> cells h' = cells h) \<or>
    (\<exists>h' n p. dl_pq_add cmp ph x h = Some (True, h') \<and> cells h p = None \<and> p \<noteq> NULL \<and>
       cells h n = None \<and> cells h' p = Some (Obj x) \<and> dl_rep h' ph (?A @ (n, p) # ?B) \<and>
       same_except ({ph, n, p} \<union> nodes L) h h')"
    by (rule dl_pq_add_spec[OF rep]) (fact c)
  then show ?thesis
  proof (elim disjE exE conjE)
    fix h' n p assume a: "dl_pq_add cmp ph x h = Some (True, h')" "cells h p = None" "p \<noteq> NULL"
      "cells h n = None" "cells h' p = Some (Obj x)" "dl_rep h' ph (?A @ (n, p) # ?B)"
      "same_except ({ph, n, p} \<union> nodes L) h h'"
    have keep: "cells h' (snd m) = cells h (snd m)" "snd m \<noteq> p" if m: "m \<in> set L" for m
    proof -
      note o = own_items_values[OF own m]
      have "snd m \<notin> {ph, n, p} \<union> nodes L"
        using dl.obj_not_node[OF rep o] o a(2,4) by (intro notI) (elim UnE insertE, simp_all)
      then show "cells h' (snd m) = cells h (snd m)" "snd m \<noteq> p" using a(7) by (auto simp: same_except_def)
    qed
    have vals: "map (\<lambda>m. the (get_obj h' (snd m))) M = map (\<lambda>m. the (get_obj h (snd m))) M" if "set M \<subseteq> set L" for M
      using keep that by (auto simp: get_obj_def)
    have AB: "set ?A \<subseteq> set L" "set ?B \<subseteq> set L" by (auto dest: set_takeWhileD set_dropWhileD)
    have P: "(\<lambda>m. f (snd m) \<le> 0) = (\<lambda>y. key x \<le> key y) \<circ> (\<lambda>m. the (get_obj h (snd m)))"
      by (auto simp: f_def fun_eq_iff)
    have "item_values h' (?A @ (n, p) # ?B) = pq_place key x (item_values h L)"
      using vals[OF AB(1)] vals[OF AB(2)] a(5)
      by (simp add: item_values_def pq_place_def takeWhile_map dropWhile_map comp_def get_obj_def P[unfolded comp_def])
    moreover have "own_items h' (?A @ (n, p) # ?B)"
    proof -
      have "distinct (items (?A @ ?B))" using own by (simp add: own_items_def)
      moreover have "p \<notin> set (items (?A @ ?B))" using keep(2) by fastforce
      moreover have "distinct (items (A @ B)) \<Longrightarrow> p \<notin> set (items (A @ B)) \<Longrightarrow> distinct (items (A @ (n, p) # B))"
        for A B :: node_items by auto
      ultimately have "distinct (items (?A @ (n, p) # ?B))" by blast
      moreover have "\<exists>v. cells h' q = Some (Obj v)" if q: "q \<in> set (items (?A @ (n, p) # ?B))" for q
      proof (cases "q = p")
        case True
        then show ?thesis using a(5) by auto
      next
        case False
        then obtain m where m: "m \<in> set ?A \<or> m \<in> set ?B" "q = snd m"
          using q False by fastforce
        then have "m \<in> set L" using AB by blast
        then show ?thesis using keep(1) own_items_values[OF own] m(2) by metis
      qed
      ultimately show ?thesis by (simp add: own_items_def)
    qed
    ultimately show ?thesis using a(1,6) by blast
  qed auto
qed

end
