(* ===== verification/DbTypes.thy ===== *)
theory DbTypes
  imports SysListRep
begin

text \<open>
  The structures of the data server (path/db/db_comm.h, db_clt.h, db_slv.h).  The union
  \<open>value\<close> of a message is its 128 bytes; its members are read and written through the
  little-endian accessors below, as the ILP32 target lays them out.  \<open>double\<close> times are
  opaque numbers.
\<close>

abbreviation (input) COMM_QNX_XPORT :: nat where "COMM_QNX_XPORT \<equiv> 1"
abbreviation (input) COMM_TCP_XPORT :: nat where "COMM_TCP_XPORT \<equiv> 2"
abbreviation (input) COMM_PSX_XPORT :: nat where "COMM_PSX_XPORT \<equiv> 3"
abbreviation (input) COMM_QNX6_XPORT :: nat where "COMM_QNX6_XPORT \<equiv> 4"
abbreviation (input) DB_MSGQ_RETRY_LIMIT :: nat where "DB_MSGQ_RETRY_LIMIT \<equiv> 10"

abbreviation (input) MAX_DATA_SIZE :: nat where "MAX_DATA_SIZE \<equiv> 128"
abbreviation (input) DB_BAD_VAR :: u32 where "DB_BAD_VAR \<equiv> 0"
abbreviation (input) MAX_DB_BUILTIN_VAR :: u32 where "MAX_DB_BUILTIN_VAR \<equiv> 2"
abbreviation (input) DB_BAD_TYPE :: u32 where "DB_BAD_TYPE \<equiv> 0"
abbreviation (input) DB_BOOL_TYPE :: u32 where "DB_BOOL_TYPE \<equiv> 5"

abbreviation (input) DB_BAD_CMD :: int where "DB_BAD_CMD \<equiv> 0"
abbreviation (input) DB_LOGIN_CMD :: int where "DB_LOGIN_CMD \<equiv> 1"
abbreviation (input) DB_LOGIN_REPLY :: int where "DB_LOGIN_REPLY \<equiv> 2"
abbreviation (input) DB_LOGOUT_CMD :: int where "DB_LOGOUT_CMD \<equiv> 3"
abbreviation (input) DB_LOGOUT_REPLY :: int where "DB_LOGOUT_REPLY \<equiv> 4"
abbreviation (input) DB_CREATE_CMD :: int where "DB_CREATE_CMD \<equiv> 5"
abbreviation (input) DB_CREATE_REPLY :: int where "DB_CREATE_REPLY \<equiv> 6"
abbreviation (input) DB_READ_CMD :: int where "DB_READ_CMD \<equiv> 7"
abbreviation (input) DB_READ_REPLY :: int where "DB_READ_REPLY \<equiv> 8"
abbreviation (input) DB_UPDATE_CMD :: int where "DB_UPDATE_CMD \<equiv> 9"
abbreviation (input) DB_UPDATE_REPLY :: int where "DB_UPDATE_REPLY \<equiv> 10"
abbreviation (input) DB_DESTROY_CMD :: int where "DB_DESTROY_CMD \<equiv> 11"
abbreviation (input) DB_DESTROY_REPLY :: int where "DB_DESTROY_REPLY \<equiv> 12"
abbreviation (input) DB_TRIG_SET_CMD :: int where "DB_TRIG_SET_CMD \<equiv> 13"
abbreviation (input) DB_TRIG_SET_REPLY :: int where "DB_TRIG_SET_REPLY \<equiv> 14"
abbreviation (input) DB_TRIG_UNSET_CMD :: int where "DB_TRIG_UNSET_CMD \<equiv> 15"
abbreviation (input) DB_TRIG_UNSET_REPLY :: int where "DB_TRIG_UNSET_REPLY \<equiv> 16"
abbreviation (input) DB_TRIGGER :: int where "DB_TRIGGER \<equiv> 17"

text \<open>\<open>xport_info\<close> is a union of four ints (\<open>chid\<close>, \<open>pid\<close>, \<open>fd\<close>, \<open>qid\<close>): one int.\<close>

record comm_clt = xport :: nat
  xport_info :: int

record db_data = dcmd :: int
  dkey :: int
  dvar :: u32
  dtype :: u32
  dtime :: int
  dvalue :: "u8 list"

record db_entry = edata :: db_data
  esize :: nat
  eptrig_head :: ptr

text \<open>The pulse a QNX 6 client wants: \<open>sigev_coid\<close> and \<open>sigev_value.sival_int\<close>.\<close>

record sigevent = sigev_coid :: int
  sival_int :: int

record trig_comm = tc_pclt :: ptr
  tc_event :: sigevent

record trig_info = tmsg_type :: int
  tkey :: int
  tvar :: u32
  ttype :: u32

record slv_clt = sc_client :: "u8 list"
  sc_login_time :: int
  sc_pclt :: ptr

text \<open>The handle of a client (\<open>db_clt_typ\<close>) and a trigger it asked for (\<open>clt_trig_typ\<close>).\<close>

record db_clt = dc_error :: int
  dc_pcomm :: ptr
  dc_pread :: ptr
  dc_ptrig_head :: ptr
  dc_key :: int
  dc_pservice :: string

record clt_trig = ct_info :: trig_info
  ct_pcomm :: ptr

datatype dbobj = Clt comm_clt | TrigComm trig_comm | Entry db_entry | Usr slv_clt
  | Handle db_clt | CltTrig clt_trig

text \<open>What travels to a client: a reply, a trigger packet or a pulse.\<close>

datatype msg = Reply db_data | Trig trig_info | Pulse sigevent

text \<open>\<open>sizeof\<close> on the 32-bit Linux target: 152 bytes of \<open>db_data_typ\<close>, a size, a pointer.\<close>

definition sizeof_db_entry :: nat where "sizeof_db_entry = 160"
definition sizeof_db_login :: nat where "sizeof_db_login = 52"

definition db_long :: "u8 list \<Rightarrow> u32" where
  "db_long v = of_nat (le_nat (take 4 v))"

definition set_db_long :: "u32 \<Rightarrow> u8 list \<Rightarrow> u8 list" where
  "set_db_long w v = le_bytes 4 (unat w) @ drop 4 v"

definition set_db_bool :: "bool \<Rightarrow> u8 list \<Rightarrow> u8 list" where
  "set_db_bool b v = set_db_long (if b then 1 else 0) v"

definition db_bool :: "u8 list \<Rightarrow> bool" where
  "db_bool v \<longleftrightarrow> db_long v \<noteq> 0"

lemma db_long_set [simp, codec_simps]: "db_long (set_db_long w v) = w"
  using unsigned_less[of w, where ?'a = nat] by (simp add: db_long_def set_db_long_def)

lemma db_bool_set [simp, codec_simps]: "db_bool (set_db_bool b v) = b"
  by (simp add: db_bool_def set_db_bool_def)

lemma length_set_db_long [simp]: "4 \<le> length v \<Longrightarrow> length (set_db_long w v) = length v"
  by (simp add: set_db_long_def)

fun clt_of :: "dbobj option \<Rightarrow> comm_clt option" where
  "clt_of (Some (Clt c)) = Some c" | "clt_of _ = None"

fun entry_of :: "dbobj option \<Rightarrow> db_entry option" where
  "entry_of (Some (Entry e)) = Some e" | "entry_of _ = None"

fun trig_comm_of :: "dbobj option \<Rightarrow> trig_comm option" where
  "trig_comm_of (Some (TrigComm t)) = Some t" | "trig_comm_of _ = None"

fun usr_of :: "dbobj option \<Rightarrow> slv_clt option" where
  "usr_of (Some (Usr u)) = Some u" | "usr_of _ = None"

fun handle_of :: "dbobj option \<Rightarrow> db_clt option" where
  "handle_of (Some (Handle d)) = Some d" | "handle_of _ = None"

fun clt_trig_of :: "dbobj option \<Rightarrow> clt_trig option" where
  "clt_trig_of (Some (CltTrig t)) = Some t" | "clt_trig_of _ = None"

definition get_clt :: "dbobj heap \<Rightarrow> ptr \<Rightarrow> comm_clt option" where
  "get_clt h p = clt_of (get_obj h p)"

definition get_entry :: "dbobj heap \<Rightarrow> ptr \<Rightarrow> db_entry option" where
  "get_entry h p = entry_of (get_obj h p)"

definition get_trig_comm :: "dbobj heap \<Rightarrow> ptr \<Rightarrow> trig_comm option" where
  "get_trig_comm h p = trig_comm_of (get_obj h p)"

definition get_usr :: "dbobj heap \<Rightarrow> ptr \<Rightarrow> slv_clt option" where
  "get_usr h p = usr_of (get_obj h p)"

definition get_handle :: "dbobj heap \<Rightarrow> ptr \<Rightarrow> db_clt option" where
  "get_handle h p = handle_of (get_obj h p)"

definition get_clt_trig :: "dbobj heap \<Rightarrow> ptr \<Rightarrow> clt_trig option" where
  "get_clt_trig h p = clt_trig_of (get_obj h p)"

definition upd_entry :: "ptr \<Rightarrow> (db_entry \<Rightarrow> db_entry) \<Rightarrow> dbobj heap \<Rightarrow> dbobj heap option" where
  "upd_entry p f h = map_option (\<lambda>e. put p (Obj (Entry (f e))) h) (get_entry h p)"

lemma obj_kind [simp]:
  "clt_of o1 = Some c \<longleftrightarrow> o1 = Some (Clt c)"
  "entry_of o1 = Some e \<longleftrightarrow> o1 = Some (Entry e)"
  "trig_comm_of o1 = Some t \<longleftrightarrow> o1 = Some (TrigComm t)"
  "usr_of o1 = Some u \<longleftrightarrow> o1 = Some (Usr u)"
  "handle_of o1 = Some d \<longleftrightarrow> o1 = Some (Handle d)"
  by (cases o1 rule: clt_of.cases, auto, cases o1 rule: entry_of.cases, auto,
      cases o1 rule: trig_comm_of.cases, auto, cases o1 rule: usr_of.cases, auto,
      cases o1 rule: handle_of.cases, auto)

lemma get_kind [simp]:
  "get_clt h p = Some c \<longleftrightarrow> cells h p = Some (Obj (Clt c))"
  "get_entry h p = Some e \<longleftrightarrow> cells h p = Some (Obj (Entry e))"
  "get_trig_comm h p = Some t \<longleftrightarrow> cells h p = Some (Obj (TrigComm t))"
  "get_usr h p = Some u \<longleftrightarrow> cells h p = Some (Obj (Usr u))"
  "get_handle h p = Some d \<longleftrightarrow> cells h p = Some (Obj (Handle d))"
  by (simp_all add: get_clt_def get_entry_def get_trig_comm_def get_usr_def get_handle_def get_obj_def)

end
