(* ===== verification/DbComm.thy ===== *)
theory DbComm
  imports DbTypes
begin

text \<open>
  path/db/db_comm.c: the channels over which clients and data server talk.  The operating system
  calls (\<open>msgsnd\<close>, \<open>msgrcv\<close>, \<open>MsgReply_r\<close>, \<open>Trigger\<close>, \<open>dup\<close>, ...) are a stream of outcomes
  (\<open>True\<close>: the call succeeded), consumed in call order, together with a log of the messages that
  were put on a channel; \<open>msgget\<close> maps a key to a queue id,
  \<open>sigev_of\<close> reads a \<open>struct sigevent\<close> (laid out by the system's headers) from a union, \<open>junk\<close> is
  what fresh memory holds.  The messages have type \<open>'m\<close>.
\<close>

record 'm os = outcome :: "nat \<Rightarrow> bool"
  calls :: nat
  sent :: "(comm_clt \<times> 'm) list"
  msgget :: "int \<Rightarrow> int"
  dupfd :: "int \<Rightarrow> int"
  junk :: nat
  sigev_of :: "u8 list \<Rightarrow> sigevent"

text \<open>One system call: its outcome, and the state after it.\<close>

definition syscall :: "'m os \<Rightarrow> bool \<times> 'm os" where
  "syscall s = (outcome s (calls s), s\<lparr>calls := calls s + 1\<rparr>)"

definition deliver :: "comm_clt \<Rightarrow> 'm \<Rightarrow> 'm os \<Rightarrow> 'm os" where
  "deliver c m s = s\<lparr>sent := sent s @ [(c, m)]\<rparr>"

text \<open>
  The retry loop of the message queue transport,
  \<open>while (msgsnd(...) == -1 && repeat++ < DB_MSGQ_RETRY_LIMIT);\<close>
  from a given \<open>repeat\<close>: the final value of \<open>repeat\<close> and whether the last call succeeded.
\<close>

function psx_retry :: "nat \<Rightarrow> 'm os \<Rightarrow> nat \<times> bool \<times> 'm os" where
  "psx_retry repeat s = (let (ok, s) = syscall s in
     if ok then (repeat, True, s)
     else if repeat < DB_MSGQ_RETRY_LIMIT then psx_retry (repeat + 1) s
     else (repeat + 1, False, s))"
  by pat_completeness auto
termination by (relation "measure (\<lambda>(r, s). Suc DB_MSGQ_RETRY_LIMIT - r)") auto

declare psx_retry.simps [simp del]

definition psx_send :: "comm_clt \<Rightarrow> 'm \<Rightarrow> 'm os \<Rightarrow> bool \<times> 'm os" where
  "psx_send c m s = (let (repeat, ok, s) = psx_retry 0 s; s = (if ok then deliver c m s else s) in
     (\<not> repeat \<ge> DB_MSGQ_RETRY_LIMIT, s))"

text \<open>A transport with one call per message.\<close>

definition qnx_send :: "comm_clt \<Rightarrow> 'm \<Rightarrow> 'm os \<Rightarrow> bool \<times> 'm os" where
  "qnx_send c m s = (let (ok, s) = syscall s in if ok then (True, deliver c m s) else (False, s))"

definition comm_sync_reply :: "comm_clt option \<Rightarrow> 'm \<Rightarrow> 'm os \<Rightarrow> bool \<times> 'm os" where
  "comm_sync_reply pclt preply s = (case pclt of None \<Rightarrow> (False, s) | Some c \<Rightarrow>
     if xport c = COMM_QNX6_XPORT then qnx_send c preply s
     else if xport c = COMM_QNX_XPORT then qnx_send c preply s
     else if xport c = COMM_PSX_XPORT then psx_send c preply s
     else (False, s))"

definition comm_async_trig :: "comm_clt option \<Rightarrow> 'm \<Rightarrow> 'm os \<Rightarrow> bool \<times> 'm os" where
  "comm_async_trig pclt pxmit s = (case pclt of None \<Rightarrow> (False, s) | Some c \<Rightarrow>
     if xport c = COMM_QNX6_XPORT then qnx_send c pxmit s
     else if xport c = COMM_QNX_XPORT then qnx_send c pxmit s
     else if xport c = COMM_PSX_XPORT then psx_send c pxmit s
     else (False, s))"

text \<open>\<open>same\<close> says whether the two pointers are equal.\<close>

definition comm_clt_cmp :: "bool \<Rightarrow> comm_clt option \<Rightarrow> comm_clt option \<Rightarrow> int" where
  "comm_clt_cmp same p1 p2 = (case (p1, p2) of
     (Some c1, Some c2) \<Rightarrow>
       if xport c1 \<noteq> xport c2 then - 1
       else if same then 0
       else if xport c1 \<in> {COMM_QNX6_XPORT, COMM_QNX_XPORT, COMM_TCP_XPORT, COMM_PSX_XPORT} then
         (if xport_info c1 = xport_info c2 then 0 else 1)
       else 1
   | _ \<Rightarrow> - 1)"

text \<open>The channel objects.  \<open>CALLOC\<close> clears, \<open>MALLOC\<close> leaves \<open>junk\<close>.\<close>

definition comm_init :: "nat \<Rightarrow> int \<Rightarrow> 'm os \<Rightarrow> dbobj heap \<Rightarrow> (ptr \<times> dbobj heap) option" where
  "comm_init xp handle s h =
     (let (pnew, h) = malloc (Obj (Clt \<lparr>xport = xp, xport_info = 0\<rparr>)) h in
      if pnew = NULL then Some (NULL, h)
      else if xp \<in> {COMM_QNX6_XPORT, COMM_QNX_XPORT, COMM_TCP_XPORT} then
        Some (pnew, put pnew (Obj (Clt \<lparr>xport = xp, xport_info = handle\<rparr>)) h)
      else if xp = COMM_PSX_XPORT then
        Some (pnew, put pnew (Obj (Clt \<lparr>xport = xp, xport_info = msgget s handle\<rparr>)) h)
      else do { h \<leftarrow> free pnew h; Some (NULL, h) })"

definition comm_clt_dup :: "comm_clt option \<Rightarrow> 'm os \<Rightarrow> dbobj heap \<Rightarrow> (ptr \<times> 'm os \<times> dbobj heap) option" where
  "comm_clt_dup pclt s h = (case pclt of None \<Rightarrow> Some (NULL, s, h) | Some c \<Rightarrow>
     (let (pnew, h) = malloc (Obj (Clt \<lparr>xport = junk s, xport_info = int (junk s)\<rparr>)) h in
      if pnew = NULL then Some (NULL, s, h)
      else if xport c \<in> {COMM_QNX6_XPORT, COMM_QNX_XPORT, COMM_PSX_XPORT} then
        Some (pnew, s, put pnew (Obj (Clt \<lparr>xport = xport c, xport_info = xport_info c\<rparr>)) h)
      else if xport c = COMM_TCP_XPORT then
        (let (ok, s) = syscall s in
         if \<not> ok then do { h \<leftarrow> free pnew h; Some (NULL, s, h) }
         else Some (pnew, s, put pnew (Obj (Clt \<lparr>xport = junk s, xport_info = dupfd s (xport_info c)\<rparr>)) h))
      else do { h \<leftarrow> free pnew h; Some (NULL, s, h) }))"

definition comm_done :: "ptr \<Rightarrow> dbobj heap \<Rightarrow> (bool \<times> dbobj heap) option" where
  "comm_done pclt h =
     (if pclt = NULL then Some (False, h) else do {
        c \<leftarrow> get_clt h pclt;
        if xport c = COMM_TCP_XPORT then do { h \<leftarrow> free pclt h; Some (True, h) }
        else do { h \<leftarrow> free pclt h; Some (False, h) }
      })"

end
