(* ===== verification/DbSlv.thy ===== *)
theory DbSlv
  imports DbComm
begin

text \<open>
  path/db/db_slv.c, the data server: a list of variables (each with its value, its size and the
  list of the channels to trigger when it changes) and a list of logged-in clients, both double
  linked lists in the heap.  \<open>slv_cmd\<close> serves one request.  \<open>now\<close> is what \<open>get_sec_clock()\<close>
  returns during the request; \<open>stk\<close> is the uninitialised reply buffer on the stack.  The verbose
  dumps are output only and are not modelled.
\<close>

definition db_entry_cmp :: "dbobj heap \<Rightarrow> u32 \<times> u32 \<Rightarrow> ptr \<Rightarrow> int option" where
  "db_entry_cmp h key p2 = do {
     e \<leftarrow> get_entry h p2;
     Some (if fst key = dvar (edata e) \<and> snd key = dtype (edata e) then 0
           else if dvar (edata e) < fst key then 1 else - 1)
   }"

definition db_entry_find :: "ptr \<Rightarrow> u32 \<Rightarrow> u32 \<Rightarrow> dbobj heap \<Rightarrow> ptr option" where
  "db_entry_find pdb var type h = do {
     pnode \<leftarrow> dl_first db_entry_cmp pdb (var, type) h;
     if pnode = NULL then Some NULL else do { n \<leftarrow> get_dn h pnode; Some (dn_pitem n) }
   }"

definition db_entry_bad :: "ptr \<Rightarrow> dbobj heap \<Rightarrow> ptr option" where
  "db_entry_bad pdb h = do {
     hd \<leftarrow> get_dh h pdb;
     n \<leftarrow> get_dn h (dh_plast hd);
     Some (dn_pitem n)
   }"

partial_function (option) done_all :: "ptr \<Rightarrow> dbobj heap \<Rightarrow> dbobj heap option" where
  "done_all pnode h =
     (if pnode = NULL then Some h else do {
        n \<leftarrow> get_dn h pnode;
        (ok, h) \<leftarrow> comm_done (dn_pitem n) h;
        n \<leftarrow> get_dn h pnode;
        done_all (dn_pnext n) h
      })"

definition db_entry_destroy :: "ptr \<Rightarrow> dbobj heap \<Rightarrow> dbobj heap option" where
  "db_entry_destroy pentry h = do {
     e \<leftarrow> get_entry h pentry;
     hd \<leftarrow> get_dh h (eptrig_head e);
     h \<leftarrow> done_all (dh_pfirst hd) h;
     e \<leftarrow> get_entry h pentry;
     dl_free (eptrig_head e) h
   }"

text \<open>\<open>CALLOC\<close> clears the entry; its message value is 128 zero bytes.\<close>

definition zero_entry :: db_entry where
  "zero_entry = \<lparr>edata = \<lparr>dcmd = 0, dkey = 0, dvar = 0, dtype = 0, dtime = 0,
     dvalue = replicate MAX_DATA_SIZE 0\<rparr>, esize = 0, eptrig_head = NULL\<rparr>"

definition db_entry_create :: "ptr \<Rightarrow> u32 \<Rightarrow> u32 \<Rightarrow> nat \<Rightarrow> int \<Rightarrow> dbobj heap \<Rightarrow> (bool \<times> dbobj heap) option" where
  "db_entry_create pdb var type size1 now h =
     (if sizeof_db_entry < size1 then Some (False, h) else do {
        pfound \<leftarrow> db_entry_find pdb var type h;
        if pfound \<noteq> NULL then Some (False, h) else
        let (pentry, h) = malloc (Obj (Entry zero_entry)) h in
        if pentry = NULL then Some (False, h) else
        let (ptrig_head, h) = dl_create h in
        if ptrig_head = NULL then do { h \<leftarrow> free pentry h; Some (False, h) }
        else do {
          h \<leftarrow> upd_entry pentry (\<lambda>e. e\<lparr>eptrig_head := ptrig_head,
                 edata := (edata e)\<lparr>dcmd := DB_BAD_CMD, dvar := var, dtype := type, dtime := now\<rparr>,
                 esize := size1\<rparr>) h;
          (ok, h) \<leftarrow> dl_insert pentry pdb h;
          if \<not> ok then do {
            h \<leftarrow> db_entry_destroy pentry h;
            h \<leftarrow> free pentry h;
            Some (False, h)
          } else Some (True, h)
        }
      })"

definition db_entry_rm :: "ptr \<Rightarrow> u32 \<Rightarrow> u32 \<Rightarrow> dbobj heap \<Rightarrow> (bool \<times> dbobj heap) option" where
  "db_entry_rm pdb var type h = do {
     pnode \<leftarrow> dl_first db_entry_cmp pdb (var, type) h;
     if pnode = NULL then Some (False, h) else do {
       (pentry, pnode, h) \<leftarrow> dl_rm_node pdb pnode h;
       h \<leftarrow> db_entry_destroy pentry h;
       Some (True, h)
     }
   }"

partial_function (option) destroy_all :: "ptr \<Rightarrow> dbobj heap \<Rightarrow> dbobj heap option" where
  "destroy_all pnode h =
     (if pnode = NULL then Some h else do {
        n \<leftarrow> get_dn h pnode;
        h \<leftarrow> db_entry_destroy (dn_pitem n) h;
        n \<leftarrow> get_dn h pnode;
        destroy_all (dn_pnext n) h
      })"

definition slv_db_destroy :: "ptr \<Rightarrow> dbobj heap \<Rightarrow> (bool \<times> dbobj heap) option" where
  "slv_db_destroy pdb h =
     (if pdb = NULL then Some (False, h) else do {
        hd \<leftarrow> get_dh h pdb;
        h \<leftarrow> destroy_all (dh_pfirst hd) h;
        h \<leftarrow> dl_free pdb h;
        Some (True, h)
      })"

definition slv_db_create :: "int \<Rightarrow> dbobj heap \<Rightarrow> (ptr \<times> dbobj heap) option" where
  "slv_db_create now h =
     (let (pdb, h) = dl_create h in
      if pdb = NULL then Some (NULL, h) else do {
        (ok, h) \<leftarrow> db_entry_create pdb DB_BAD_VAR DB_BAD_TYPE MAX_DATA_SIZE now h;
        if \<not> ok then do { (ok, h) \<leftarrow> slv_db_destroy pdb h; Some (NULL, h) }
        else Some (pdb, h)
      })"

definition slv_var_reply :: "comm_clt \<Rightarrow> int \<Rightarrow> ptr \<Rightarrow> msg os \<Rightarrow> dbobj heap \<Rightarrow> (bool \<times> msg os \<times> dbobj heap) option" where
  "slv_var_reply pclt cmd pentry s h = do {
     h \<leftarrow> upd_entry pentry (\<lambda>e. e\<lparr>edata := (edata e)\<lparr>dcmd := cmd\<rparr>\<rparr>) h;
     e \<leftarrow> get_entry h pentry;
     let (ok, s) = comm_sync_reply (Some pclt) (Reply (edata e)) s;
     Some (ok, s, h)
   }"

definition slv_bool_reply :: "comm_clt \<Rightarrow> int \<Rightarrow> bool \<Rightarrow> db_data \<Rightarrow> msg os \<Rightarrow> bool \<times> msg os" where
  "slv_bool_reply pclt cmd status stk s =
     (let reply_buff = stk\<lparr>dcmd := cmd, dvar := DB_BAD_VAR, dtype := DB_BOOL_TYPE,
            dvalue := set_db_bool status (dvalue stk)\<rparr>
      in comm_sync_reply (Some pclt) (Reply reply_buff) s)"

text \<open>
  Updating a variable copies \<open>size\<close> bytes between two 128-byte unions; more than 128 bytes is a
  buffer overrun.
\<close>

definition copy_value :: "nat \<Rightarrow> u8 list \<Rightarrow> u8 list \<Rightarrow> u8 list option" where
  "copy_value size1 src dst =
     (if length src < size1 \<or> length dst < size1 then None else Some (take size1 src @ drop size1 dst))"

partial_function (option) trig_loop_qnx6 ::
  "ptr \<Rightarrow> ptr \<Rightarrow> msg os \<Rightarrow> dbobj heap \<Rightarrow> (msg os \<times> dbobj heap) option" where
  "trig_loop_qnx6 ptrig_head pnode s h =
     (if pnode = NULL then Some (s, h) else do {
        n \<leftarrow> get_dn h pnode;
        t \<leftarrow> get_trig_comm h (dn_pitem n);
        c \<leftarrow> get_clt h (tc_pclt t);
        let (ok, s) = comm_async_trig (Some c) (Pulse (tc_event t)) s;
        if \<not> ok then do {
          (ptrigcomm, pnode, h) \<leftarrow> dl_rm_node ptrig_head pnode h;
          t \<leftarrow> get_trig_comm h ptrigcomm;
          (ok, h) \<leftarrow> comm_done (tc_pclt t) h;
          h \<leftarrow> free ptrigcomm h;
          if pnode = NULL then do {
            hd \<leftarrow> get_dh h ptrig_head;
            trig_loop_qnx6 ptrig_head (dh_pfirst hd) s h
          } else do {
            n \<leftarrow> get_dn h pnode;
            trig_loop_qnx6 ptrig_head (dn_pnext n) s h
          }
        } else trig_loop_qnx6 ptrig_head (dn_pnext n) s h
      })"

partial_function (option) trig_loop ::
  "trig_info \<Rightarrow> ptr \<Rightarrow> ptr \<Rightarrow> msg os \<Rightarrow> dbobj heap \<Rightarrow> (msg os \<times> dbobj heap) option" where
  "trig_loop trig_pack ptrig_head pnode s h =
     (if pnode = NULL then Some (s, h) else do {
        n \<leftarrow> get_dn h pnode;
        c \<leftarrow> get_clt h (dn_pitem n);
        let (ok, s) = comm_async_trig (Some c) (Trig trig_pack) s;
        if \<not> ok then do {
          (pclt, pnode, h) \<leftarrow> dl_rm_node ptrig_head pnode h;
          (ok, h) \<leftarrow> comm_done pclt h;
          if pnode = NULL then do {
            hd \<leftarrow> get_dh h ptrig_head;
            trig_loop trig_pack ptrig_head (dh_pfirst hd) s h
          } else do {
            n \<leftarrow> get_dn h pnode;
            trig_loop trig_pack ptrig_head (dn_pnext n) s h
          }
        } else trig_loop trig_pack ptrig_head (dn_pnext n) s h
      })"

definition slv_update :: "ptr \<Rightarrow> db_data \<Rightarrow> nat \<Rightarrow> int \<Rightarrow> msg os \<Rightarrow> dbobj heap \<Rightarrow> (bool \<times> msg os \<times> dbobj heap) option" where
  "slv_update pdb pdata xp now s h = do {
     pentry \<leftarrow> db_entry_find pdb (dvar pdata) (dtype pdata) h;
     if pentry \<noteq> NULL then do {
       e \<leftarrow> get_entry h pentry;
       v \<leftarrow> copy_value (esize e) (dvalue pdata) (dvalue (edata e));
       h \<leftarrow> upd_entry pentry (\<lambda>e. e\<lparr>edata := (edata e)\<lparr>dvalue := v, dtime := now\<rparr>\<rparr>) h;
       let trig_pack = \<lparr>tmsg_type = DB_TRIGGER, tkey = 0, tvar = dvar pdata, ttype = dtype pdata\<rparr>;
       hd \<leftarrow> get_dh h (eptrig_head e);
       (s, h) \<leftarrow> (if xp = COMM_QNX6_XPORT then trig_loop_qnx6 (eptrig_head e) (dh_pfirst hd) s h
                  else trig_loop trig_pack (eptrig_head e) (dh_pfirst hd) s h);
       Some (True, s, h)
     } else Some (False, s, h)
   }"

text \<open>The comparison functions handed to \<open>dl_first\<close>; the key is never in the heap.\<close>

definition clt_item_cmp :: "dbobj heap \<Rightarrow> comm_clt \<Rightarrow> ptr \<Rightarrow> int option" where
  "clt_item_cmp h key p2 = (if p2 = NULL then Some (comm_clt_cmp False (Some key) None)
     else do { c \<leftarrow> get_clt h p2; Some (comm_clt_cmp False (Some key) (Some c)) })"

definition trig_comm_cmp :: "dbobj heap \<Rightarrow> comm_clt \<Rightarrow> ptr \<Rightarrow> int option" where
  "trig_comm_cmp h key p2 = do { t \<leftarrow> get_trig_comm h p2; clt_item_cmp h key (tc_pclt t) }"

definition slv_clt_cmp :: "dbobj heap \<Rightarrow> comm_clt \<Rightarrow> ptr \<Rightarrow> int option" where
  "slv_clt_cmp h key p2 = do { u \<leftarrow> get_usr h p2; clt_item_cmp h key (sc_pclt u) }"

definition slv_trig_set :: "ptr \<Rightarrow> comm_clt \<Rightarrow> db_data \<Rightarrow> msg os \<Rightarrow> dbobj heap \<Rightarrow> (bool \<times> msg os \<times> dbobj heap) option" where
  "slv_trig_set pdb pclt precv s h = do {
     pentry \<leftarrow> db_entry_find pdb (dvar precv) (dtype precv) h;
     if pentry = NULL then Some (False, s, h) else do {
       e \<leftarrow> get_entry h pentry;
       if xport pclt = COMM_QNX6_XPORT then do {
         let find_key = \<lparr>xport = COMM_QNX6_XPORT, xport_info = xport_info pclt\<rparr>;
         p \<leftarrow> dl_first trig_comm_cmp (eptrig_head e) find_key h;
         if p \<noteq> NULL then Some (False, s, h) else do {
           (pnew_clt, h) \<leftarrow> comm_init COMM_QNX6_XPORT (xport_info find_key) s h;
           if pnew_clt = NULL then Some (False, s, h) else do {
             let ev = sigev_of s (dvalue precv);
             let (pnew_trig_comm, h) = malloc (Obj (TrigComm \<lparr>tc_pclt = pnew_clt, tc_event = ev\<rparr>)) h;
             if pnew_trig_comm = NULL then Some (False, s, h) else do {
               (ok, h) \<leftarrow> dl_append pnew_trig_comm (eptrig_head e) h;
               if \<not> ok then do {
                 (ok, h) \<leftarrow> comm_done pnew_clt h;
                 h \<leftarrow> free pnew_trig_comm h;
                 Some (False, s, h)
               } else Some (True, s, h)
             }
           }
         }
       } else if xport pclt = COMM_QNX_XPORT then do {
         let find_key = \<lparr>xport = COMM_QNX_XPORT, xport_info = sint (db_long (dvalue precv))\<rparr>;
         p \<leftarrow> dl_first clt_item_cmp (eptrig_head e) find_key h;
         if p \<noteq> NULL then Some (False, s, h) else do {
           (pnew_clt, h) \<leftarrow> comm_init COMM_QNX_XPORT (xport_info find_key) s h;
           if pnew_clt = NULL then Some (False, s, h) else do {
             (ok, h) \<leftarrow> dl_append pnew_clt (eptrig_head e) h;
             if \<not> ok then do { (ok, h) \<leftarrow> comm_done pnew_clt h; Some (False, s, h) }
             else Some (True, s, h)
           }
         }
       } else if xport pclt = COMM_PSX_XPORT then do {
         p \<leftarrow> dl_first clt_item_cmp (eptrig_head e) pclt h;
         if p \<noteq> NULL then Some (False, s, h) else do {
           (pnew_clt, s, h) \<leftarrow> comm_clt_dup (Some pclt) s h;
           if pnew_clt = NULL then Some (False, s, h) else do {
             (ok, h) \<leftarrow> dl_append pnew_clt (eptrig_head e) h;
             if \<not> ok then do { (ok, h) \<leftarrow> comm_done pnew_clt h; Some (False, s, h) }
             else Some (True, s, h)
           }
         }
       } else Some (True, s, h)
     }
   }"

definition slv_trig_unset :: "ptr \<Rightarrow> comm_clt \<Rightarrow> db_data \<Rightarrow> dbobj heap \<Rightarrow> (bool \<times> dbobj heap) option" where
  "slv_trig_unset pdb pclt precv h = do {
     pentry \<leftarrow> db_entry_find pdb (dvar precv) (dtype precv) h;
     if pentry = NULL then Some (False, h) else do {
       e \<leftarrow> get_entry h pentry;
       if xport pclt = COMM_QNX6_XPORT then do {
         let find_key = \<lparr>xport = COMM_QNX6_XPORT, xport_info = xport_info pclt\<rparr>;
         pnode \<leftarrow> dl_first trig_comm_cmp (eptrig_head e) find_key h;
         if pnode = NULL then Some (False, h) else do {
           (ptrigcomm, pnode, h) \<leftarrow> dl_rm_node (eptrig_head e) pnode h;
           if ptrigcomm = NULL then Some (False, h) else do {
             t \<leftarrow> get_trig_comm h ptrigcomm;
             (retval, h) \<leftarrow> comm_done (tc_pclt t) h;
             if \<not> retval then Some (False, h) else do {
               h \<leftarrow> free ptrigcomm h;
               Some (True, h)
             }
           }
         }
       } else do {
         let find_key = (if xport pclt = COMM_QNX_XPORT
               then \<lparr>xport = COMM_QNX_XPORT, xport_info = sint (db_long (dvalue precv))\<rparr> else pclt);
         pnode \<leftarrow> dl_first clt_item_cmp (eptrig_head e) find_key h;
         if pnode = NULL then Some (False, h) else do {
           (ptrig_clt, pnode, h) \<leftarrow> dl_rm_node (eptrig_head e) pnode h;
           if ptrig_clt = NULL then Some (False, h) else comm_done ptrig_clt h
         }
       }
     }
   }"

definition slv_clt_add :: "ptr \<Rightarrow> comm_clt \<Rightarrow> u8 list \<Rightarrow> int \<Rightarrow> msg os \<Rightarrow> dbobj heap \<Rightarrow> (bool \<times> msg os \<times> dbobj heap) option" where
  "slv_clt_add pusr pclt plogin now s h = do {
     (p, s, h) \<leftarrow> comm_clt_dup (Some pclt) s h;
     if p = NULL then Some (False, s, h) else do {
       let new_usr = \<lparr>sc_client = take sizeof_db_login plogin, sc_login_time = now, sc_pclt = p\<rparr>;
       (ok, h) \<leftarrow> dl_add_dup pusr (Usr new_usr) False h;
       if \<not> ok then do { (ok, h) \<leftarrow> comm_done p h; Some (False, s, h) }
       else Some (True, s, h)
     }
   }"

definition slv_clt_rm :: "ptr \<Rightarrow> comm_clt \<Rightarrow> dbobj heap \<Rightarrow> (bool \<times> dbobj heap) option" where
  "slv_clt_rm pusr pclt h = do {
     pnode \<leftarrow> dl_first slv_clt_cmp pusr pclt h;
     if pnode = NULL then Some (False, h) else do {
       (pold_clt, pnode, h) \<leftarrow> dl_rm_node pusr pnode h;
       u \<leftarrow> get_usr h pold_clt;
       (ok, h) \<leftarrow> comm_done (sc_pclt u) h;
       if \<not> ok then Some (False, h) else do {
         h \<leftarrow> free pold_clt h;
         Some (True, h)
       }
     }
   }"

definition slv_cmd :: "ptr \<Rightarrow> ptr \<Rightarrow> comm_clt \<Rightarrow> db_data \<Rightarrow> int \<Rightarrow> db_data \<Rightarrow> msg os \<Rightarrow> dbobj heap
    \<Rightarrow> (bool \<times> msg os \<times> dbobj heap) option" where
  "slv_cmd pdb pusr pclt precv now stk s h =
    (if dcmd precv = DB_CREATE_CMD then do {
       (status, h) \<leftarrow> db_entry_create pdb (dvar precv) (dtype precv) (unat (db_long (dvalue precv))) now h;
       let (r, s) = slv_bool_reply pclt DB_CREATE_REPLY status stk s;
       Some (status, s, h)
     } else if dcmd precv = DB_READ_CMD then do {
       pfound \<leftarrow> db_entry_find pdb (dvar precv) (dtype precv) h;
       pentry \<leftarrow> (if pfound = NULL then db_entry_bad pdb h else Some pfound);
       (r, s, h) \<leftarrow> slv_var_reply pclt DB_READ_REPLY pentry s h;
       Some (pfound \<noteq> NULL, s, h)
     } else if dcmd precv = DB_UPDATE_CMD then do {
       (status, s, h) \<leftarrow> slv_update pdb precv (xport pclt) now s h;
       let (r, s) = slv_bool_reply pclt DB_UPDATE_REPLY status stk s;
       Some (status, s, h)
     } else if dcmd precv = DB_DESTROY_CMD then do {
       (status, h) \<leftarrow> db_entry_rm pdb (dvar precv) (dtype precv) h;
       let (r, s) = slv_bool_reply pclt DB_DESTROY_REPLY status stk s;
       Some (status, s, h)
     } else if dcmd precv = DB_LOGIN_CMD then do {
       (status, s, h) \<leftarrow> slv_clt_add pusr pclt (dvalue precv) now s h;
       let (r, s) = slv_bool_reply pclt DB_LOGIN_REPLY status stk s;
       Some (status, s, h)
     } else if dcmd precv = DB_LOGOUT_CMD then do {
       (status, h) \<leftarrow> slv_clt_rm pusr pclt h;
       let (r, s) = slv_bool_reply pclt DB_LOGOUT_REPLY status stk s;
       Some (status, s, h)
     } else if dcmd precv = DB_TRIG_SET_CMD then do {
       (status, s, h) \<leftarrow> slv_trig_set pdb pclt precv s h;
       let (r, s) = slv_bool_reply pclt DB_TRIG_SET_REPLY status stk s;
       Some (status, s, h)
     } else if dcmd precv = DB_TRIG_UNSET_CMD then do {
       (status, h) \<leftarrow> slv_trig_unset pdb pclt precv h;
       let (r, s) = slv_bool_reply pclt DB_TRIG_UNSET_REPLY status stk s;
       Some (status, s, h)
     } else Some (False, s, h))"

end
