(* ===== verification/ObjList.thy ===== *)
theory ObjList
  imports SysListRep
begin

text \<open>
  Lists of objects that own memory: the way the data server keeps its variables, the clients to
  trigger and its users.  A list is given by its nodes, each with an abstract object \<open>v\<close>, whose
  block is at \<open>pt v\<close>, which owns the addresses \<open>foot v\<close> and is laid out in the heap as \<open>ok h v\<close>
  says.  \<open>olist\<close> says that the list and its objects are in memory, without sharing.  The locale
  states what a kind of object must satisfy and derives searching, adding, removing and changing
  an object of the list; DbRep.thy instantiates it three times, one instance inside another.
\<close>

fun sep :: "'b set list \<Rightarrow> bool" where
  "sep [] \<longleftrightarrow> True"
| "sep (S # Ss) \<longleftrightarrow> S \<inter> \<Union> (set Ss) = {} \<and> sep Ss"

lemma sep_append [simp]: "sep (A @ B) \<longleftrightarrow> sep A \<and> sep B \<and> \<Union> (set A) \<inter> \<Union> (set B) = {}"
  by (induction A) auto

definition node_of :: "('v \<Rightarrow> ptr) \<Rightarrow> (ptr \<times> 'v) list \<Rightarrow> node_items" where
  "node_of pt ns = map (\<lambda>(n, v). (n, pt v)) ns"

lemma node_of_simps [simp]:
  "node_of pt [] = []" "node_of pt (m # ns) = (fst m, pt (snd m)) # node_of pt ns"
  "node_of pt (ms @ ns) = node_of pt ms @ node_of pt ns"
  "fst ` set (node_of pt ns) = fst ` set ns" "snd ` set (node_of pt ns) = pt ` snd ` set ns"
  "map fst (node_of pt ns) = map fst ns" "length (node_of pt ns) = length ns"
  "node_of pt ns = [] \<longleftrightarrow> ns = []"
  by (force simp: node_of_def image_image case_prod_beta)+

definition objs_foot :: "('v \<Rightarrow> ptr set) \<Rightarrow> (ptr \<times> 'v) list \<Rightarrow> ptr set" where
  "objs_foot foot ns = (\<Union>v \<in> snd ` set ns. foot v)"

lemma objs_foot_simps [simp]:
  "objs_foot foot [] = {}" "objs_foot foot (m # ns) = foot (snd m) \<union> objs_foot foot ns"
  "objs_foot foot (ms @ ns) = objs_foot foot ms \<union> objs_foot foot ns"
  by (auto simp: objs_foot_def)

definition spine :: "ptr \<Rightarrow> (ptr \<times> 'v) list \<Rightarrow> ptr set" where
  "spine ph ns = insert ph (fst ` set ns)"

definition olist_foot :: "('v \<Rightarrow> ptr set) \<Rightarrow> ptr \<Rightarrow> (ptr \<times> 'v) list \<Rightarrow> ptr set" where
  "olist_foot foot ph ns = spine ph ns \<union> objs_foot foot ns"

definition olist :: "('v \<Rightarrow> ptr) \<Rightarrow> ('v \<Rightarrow> ptr set) \<Rightarrow> ('a heap \<Rightarrow> 'v \<Rightarrow> bool) \<Rightarrow>
    'a heap \<Rightarrow> ptr \<Rightarrow> (ptr \<times> 'v) list \<Rightarrow> bool" where
  "olist pt foot ok h ph ns \<longleftrightarrow> dl_rep h ph (node_of pt ns) \<and> list_all (ok h) (map snd ns) \<and>
     spine ph ns \<inter> objs_foot foot ns = {} \<and> sep (map (foot \<circ> snd) ns)"

lemma spine_simps [simp]:
  "spine ph [] = {ph}" "spine ph (m # ns) = insert (fst m) (spine ph ns)"
  "spine ph (ms @ ns) = spine ph ms \<union> spine ph ns"
  by (auto simp: spine_def)

lemma head_in_spine [simp]: "ph \<in> spine ph ns"
  by (simp add: spine_def)

lemma spine_cells:
  "dl_rep h ph (node_of pt ns) \<Longrightarrow> a \<in> spine ph ns \<Longrightarrow> cells h a \<noteq> None \<and> (\<forall>x. cells h a \<noteq> Some (Obj x)) \<and> a \<noteq> NULL"
  using dl_repE(2,3,7)[of h ph "node_of pt ns"] dseg_cell[OF dl_repE(4), of h ph "node_of pt ns" a]
  by (cases "a = ph") (auto simp: spine_def intro: gr0I)

text \<open>The memory the allocator can still hand out: the next \<open>k\<close> calls will succeed.\<close>

definition ample :: "nat \<Rightarrow> 'a heap \<Rightarrow> bool" where
  "ample k h \<longleftrightarrow> k \<le> length (avail h) \<and> distinct (take k (avail h)) \<and>
     (\<forall>p \<in> set (take k (avail h)). p \<noteq> NULL \<and> cells h p = None)"

lemma malloc_ample:
  "malloc c h = (p, h1) \<Longrightarrow> ample (Suc k) h \<Longrightarrow> p \<noteq> NULL \<and> ample k h1"
  by (cases "avail h") (auto simp: malloc_def ample_def)

lemma ample_put [simp]: "cells h p \<noteq> None \<Longrightarrow> ample k (put p c h) = ample k h"
  by (auto simp: ample_def)

lemma ample_mono: "ample k h \<Longrightarrow> j \<le> k \<Longrightarrow> ample j h"
  unfolding ample_def
  by (auto simp: take_take dest: set_take_subset_set_take[THEN subsetD])
     (metis distinct_take min.absorb1 take_take)

lemma dl_insert_ample: "dl_insert x ph h = Some (False, h') \<Longrightarrow> \<not> ample (Suc k) h"
proof
  assume 1: "dl_insert x ph h = Some (False, h')" "ample (Suc k) h"
  obtain hd where hd: "get_dh h ph = Some hd" using 1(1) by (auto simp: dl_insert_def)
  obtain n h1 where m: "dl_inst_node x NULL (dh_pfirst hd) h = (n, h1)" by fastforce
  show False using 1(1) hd m malloc_ample[OF m[unfolded dl_inst_node_def] 1(2)]
    by (simp add: dl_insert_def)
qed

lemma dl_append_ample: "dl_append x ph h = Some (False, h') \<Longrightarrow> \<not> ample (Suc k) h"
proof
  assume 1: "dl_append x ph h = Some (False, h')" "ample (Suc k) h"
  obtain hd where hd: "get_dh h ph = Some hd" using 1(1) by (auto simp: dl_append_def)
  obtain n h1 where m: "dl_inst_node x (dh_plast hd) NULL h = (n, h1)" by fastforce
  show False using 1(1) hd m malloc_ample[OF m[unfolded dl_inst_node_def] 1(2)]
    by (simp add: dl_append_def)
qed

lemma same_except_eq: "same_except S h h' \<Longrightarrow> a \<notin> S \<Longrightarrow> cells h' a = cells h a"
  by (simp add: same_except_def)

lemma same_except_mono: "same_except S h h' \<Longrightarrow> S \<subseteq> T \<Longrightarrow> same_except T h h'"
  by (auto simp: same_except_def)

lemma same_except_put [simp]: "same_except S h (put p c h) \<longleftrightarrow> p \<in> S \<or> cells h p = Some c"
  by (auto simp: same_except_def)

text \<open>
  Ownership.  \<open>takes F h F' h'\<close>: a step from \<open>h\<close> to \<open>h'\<close> that owned the memory \<open>F\<close> changed only
  that and memory that was free, and owns \<open>F'\<close> afterwards.  Whoever owns other memory is not
  affected (\<open>takes_frame\<close>).
\<close>

definition fresh :: "'a heap \<Rightarrow> ptr set" where
  "fresh h = {a. a \<noteq> NULL \<and> cells h a = None}"

definition takes :: "ptr set \<Rightarrow> 'a heap \<Rightarrow> ptr set \<Rightarrow> 'a heap \<Rightarrow> bool" where
  "takes F h F' h' \<longleftrightarrow> (\<forall>a. a \<notin> F \<union> fresh h \<longrightarrow> cells h' a = cells h a) \<and> F' \<subseteq> F \<union> fresh h \<and>
     cells h' NULL = cells h NULL"

lemma takes_same [simp]: "cells h' = cells h \<Longrightarrow> F' \<subseteq> F \<Longrightarrow> takes F h F' h'"
  by (auto simp: takes_def)

lemma takes_trans:
  assumes "takes F h F' h'" "takes F' h' F'' h''" shows "takes F h F'' h''"
proof -
  have "fresh h' \<subseteq> F \<union> fresh h" using assms(1) unfolding takes_def fresh_def by fastforce
  then have "F' \<union> fresh h' \<subseteq> F \<union> fresh h" using assms(1) unfolding takes_def by blast
  then show ?thesis using assms unfolding takes_def by (metis subset_trans subsetD)
qed

lemma takes_mono: "takes F h F' h' \<Longrightarrow> F \<subseteq> G \<Longrightarrow> H \<subseteq> F' \<union> G \<Longrightarrow> takes G h H h'"
  unfolding takes_def by blast

lemma takes_frame:
  "takes F h F' h' \<Longrightarrow> G \<inter> F = {} \<Longrightarrow> (\<And>a. a \<in> G \<Longrightarrow> cells h a \<noteq> None) \<Longrightarrow>
   G \<inter> F' = {} \<and> (\<forall>a \<in> G. cells h' a = cells h a)"
  unfolding takes_def fresh_def by blast

lemma takes_null: "takes F h F' h' \<Longrightarrow> cells h NULL = None \<Longrightarrow> cells h' NULL = None"
  by (simp add: takes_def)

lemma takes_put: "p \<noteq> NULL \<Longrightarrow> takes {p} h {p} (put p c h)"
  by (auto simp: takes_def)

lemma takes_free: "free p h = Some h' \<Longrightarrow> cells h NULL = None \<Longrightarrow> takes {p} h {} h'"
  by (auto simp: takes_def free_def split: if_splits)

lemma takes_malloc:
  "malloc c h = (p, h') \<Longrightarrow> p = NULL \<and> cells h' = cells h \<or>
     p \<noteq> NULL \<and> cells h p = None \<and> cells h' p = Some c \<and> takes {} h {p} h'"
  using malloc_cases[of c h p h'] by (auto simp: takes_def fresh_def)

lemma takes_except:
  "same_except S h h' \<Longrightarrow> S \<subseteq> F \<union> fresh h \<Longrightarrow> F' \<subseteq> F \<union> fresh h \<Longrightarrow> NULL \<notin> F \<Longrightarrow> takes F h F' h'"
  unfolding takes_def same_except_def fresh_def by blast

locale objects =
  fixes pt :: "'v \<Rightarrow> ptr" and foot :: "'v \<Rightarrow> ptr set" and ok :: "'a heap \<Rightarrow> 'v \<Rightarrow> bool"
  assumes pt_foot: "pt v \<in> foot v"
    and ok_NULL: "ok h v \<Longrightarrow> NULL \<notin> foot v"
    and ok_cells: "ok h v \<Longrightarrow> a \<in> foot v \<Longrightarrow> cells h a \<noteq> None"
    and ok_frame: "ok h v \<Longrightarrow> cells h' NULL = None \<Longrightarrow> (\<And>a. a \<in> foot v \<Longrightarrow> cells h' a = cells h a) \<Longrightarrow> ok h' v"
begin

lemma alive:
  assumes "olist pt foot ok h ph ns" "a \<in> olist_foot foot ph ns"
  shows "cells h a \<noteq> None \<and> a \<noteq> NULL"
proof (cases "a \<in> spine ph ns")
  case True
  then show ?thesis using spine_cells[of h ph pt ns a] assms(1) by (auto simp: olist_def)
next
  case False
  then obtain v where "v \<in> snd ` set ns" "a \<in> foot v" using assms(2) by (auto simp: olist_foot_def objs_foot_def)
  moreover have "ok h v" using assms(1) calculation(1) by (auto simp: olist_def list_all_iff)
  ultimately show ?thesis using ok_cells ok_NULL by metis
qed

lemma frame_objs:
  assumes "list_all (ok h) (map snd ns)" "cells h' NULL = None"
    "\<And>a. a \<in> objs_foot foot ns \<Longrightarrow> cells h' a = cells h a"
  shows "list_all (ok h') (map snd ns)"
  unfolding list_all_iff
proof
  fix v assume v: "v \<in> set (map snd ns)"
  then have "foot v \<subseteq> objs_foot foot ns" by (auto simp: objs_foot_def)
  then show "ok h' v" using v assms by (intro ok_frame[of h v h']) (auto simp: list_all_iff)
qed

lemma frame:
  assumes "olist pt foot ok h ph ns" "cells h' NULL = None"
    "\<And>a. a \<in> olist_foot foot ph ns \<Longrightarrow> cells h' a = cells h a"
  shows "olist pt foot ok h' ph ns"
proof -
  have d: "dl_rep h ph (node_of pt ns)" using assms(1) by (simp add: olist_def)
  have "same_except (- insert NULL (spine ph ns)) h h'"
    unfolding same_except_def using assms(2,3) dl_repE(1)[OF d] unfolding olist_foot_def by auto
  then have "dl_rep h' ph (node_of pt ns)" by (rule dl_rep_agree[OF d]) (simp add: spine_def)
  moreover have "list_all (ok h') (map snd ns)"
    by (rule frame_objs[of h]) (use assms(1) in \<open>simp add: olist_def\<close>, rule assms(2),
        rule assms(3), simp add: olist_foot_def)
  ultimately show ?thesis using assms(1) by (simp add: olist_def)
qed

lemma null: "olist pt foot ok h ph ns \<Longrightarrow> cells h NULL = None \<and> ph \<noteq> NULL"
  using dl_repE(1,2) by (auto simp: olist_def)

text \<open>Memory outside of the list may change, memory that was free may be taken.\<close>

lemma frame_takes:
  assumes "olist pt foot ok h ph ns" "takes F h F' h'" "olist_foot foot ph ns \<inter> F = {}"
  shows "olist pt foot ok h' ph ns \<and> olist_foot foot ph ns \<inter> F' = {}"
proof -
  note f = takes_frame[OF assms(2,3)]
  have "cells h' a = cells h a" if "a \<in> olist_foot foot ph ns" for a
    using f alive[OF assms(1)] that by blast
  then have "olist pt foot ok h' ph ns"
    by (intro frame[OF assms(1)] takes_null[OF assms(2)]) (use null[OF assms(1)] in simp_all)
  then show ?thesis using f alive[OF assms(1)] by blast
qed

lemma frame_except:
  assumes "olist pt foot ok h ph ns" "same_except S h h'" "S \<inter> olist_foot foot ph ns = {}" "NULL \<notin> S"
  shows "olist pt foot ok h' ph ns"
  using assms null[OF assms(1)] by (intro frame[OF assms(1)]) (auto simp: same_except_def)

lemma unowned: "olist pt foot ok h ph ns \<Longrightarrow> cells h a = None \<Longrightarrow> a \<notin> olist_foot foot ph ns"
  using alive by blast

text \<open>A search finds the first object the comparison accepts.\<close>

lemma first:
  assumes "olist pt foot ok h ph ns" "\<forall>v \<in> snd ` set ns. cmp h k (pt v) = Some (f v)"
  shows "(\<forall>v \<in> snd ` set ns. f v \<noteq> 0) \<and> dl_first cmp ph k h = Some NULL \<or>
    (\<exists>A n v B. ns = A @ (n, v) # B \<and> (\<forall>w \<in> snd ` set A. f w \<noteq> 0) \<and> f v = 0 \<and>
       dl_first cmp ph k h = Some n \<and> n \<noteq> NULL \<and>
       get_dn h n = Some \<lparr>dn_pitem = pt v, dn_pprev = dl_last_addr NULL (node_of pt A),
         dn_pnext = dl_first_addr (node_of pt B) NULL\<rparr>)"
proof -
  have d: "dl_rep h ph (node_of pt ns)" using assms(1) by (simp add: olist_def)
  have find: "dl_first cmp ph k h = Some (case find (\<lambda>m. the (cmp h k (snd m)) = 0) (node_of pt ns) of
      None \<Rightarrow> NULL | Some m \<Rightarrow> fst m)"
    by (rule dl_first_spec[OF d]) (use assms(2) in \<open>force simp: node_of_def\<close>)
  have val: "\<And>m. m \<in> set ns \<Longrightarrow> the (cmp h k (pt (snd m))) = f (snd m)" using assms(2) by simp
  have "find (\<lambda>m. the (cmp h k (snd m)) = 0) (node_of pt ns) =
      map_option (\<lambda>m. (fst m, pt (snd m))) (find (\<lambda>m. f (snd m) = 0) ns)"
    using val by (induction ns) auto
  moreover have "find (\<lambda>m. f (snd m) = 0) ns = None \<and> (\<forall>v \<in> snd ` set ns. f v \<noteq> 0) \<or>
      (\<exists>A m B. ns = A @ m # B \<and> (\<forall>w \<in> snd ` set A. f w \<noteq> 0) \<and> f (snd m) = 0 \<and>
        find (\<lambda>m. f (snd m) = 0) ns = Some m)"
  proof (induction ns)
    case (Cons m ns)
    then show ?case
    proof (cases "f (snd m) = 0")
      case True
      then show ?thesis by (intro disjI2 exI[of _ "[]"] exI[of _ m] exI[of _ ns]) simp
    next
      case False
      from Cons show ?thesis
      proof (elim disjE exE conjE, goal_cases)
        case (2 A x B)
        then show ?thesis using False by (intro disjI2 exI[of _ "m # A"] exI[of _ x] exI[of _ B]) simp
      qed (use False in simp)
    qed
  qed simp
  moreover have "ns = A @ m # B \<Longrightarrow> fst m \<noteq> NULL \<and> get_dn h (fst m) =
      Some \<lparr>dn_pitem = pt (snd m), dn_pprev = dl_last_addr NULL (node_of pt A),
         dn_pnext = dl_first_addr (node_of pt B) NULL\<rparr>" for A m B
    using dl_repE(4,7)[OF d] by (auto simp: dl_acc)
  ultimately show ?thesis using find by fastforce
qed

text \<open>Adding an object that owns other memory: refused and nothing changes, or one new node.\<close>

lemma relink:
  assumes "olist pt foot ok h ph (A @ B)" "ok h v" "foot v \<inter> olist_foot foot ph (A @ B) = {}"
    "cells h n = None" "dl_rep h' ph (node_of pt (A @ (n, v) # B))"
    "same_except (insert n (spine ph (A @ B))) h h'"
  shows "olist pt foot ok h' ph (A @ (n, v) # B)"
proof -
  have n: "n \<notin> foot v" "n \<notin> olist_foot foot ph (A @ B)"
    using ok_cells[OF assms(2), of n] unowned[OF assms(1,4)] assms(4) by auto
  have same: "cells h' a = cells h a" if "a \<in> objs_foot foot (A @ (n, v) # B)" for a
    using same_except_eq[OF assms(6), of a] that n assms(1,3) by (auto simp: olist_foot_def olist_def)
  have "list_all (ok h) (map snd (A @ (n, v) # B))" using assms(1,2) by (simp add: olist_def)
  then have "list_all (ok h') (map snd (A @ (n, v) # B))"
    by (rule frame_objs) (use dl_repE(1)[OF assms(5)] same in auto)
  moreover have "spine ph (A @ (n, v) # B) \<inter> objs_foot foot (A @ (n, v) # B) = {}"
    using assms(1,3) n by (auto simp: olist_def olist_foot_def)
  moreover have "sep (map (foot \<circ> snd) (A @ (n, v) # B))"
    using assms(1,3) by (auto simp: olist_def olist_foot_def objs_foot_def)
  ultimately show ?thesis using assms(5) unfolding olist_def by blast
qed

lemma insert:
  assumes "olist pt foot ok h ph ns" "ok h v" "foot v \<inter> olist_foot foot ph ns = {}"
  shows "(\<exists>h'. dl_insert (pt v) ph h = Some (False, h') \<and> cells h' = cells h) \<or>
    (\<exists>h' n. dl_insert (pt v) ph h = Some (True, h') \<and> cells h n = None \<and>
       olist pt foot ok h' ph ((n, v) # ns) \<and> same_except (insert n (spine ph ns)) h h')"
proof -
  have d: "dl_rep h ph (node_of pt ns)" using assms(1) by (simp add: olist_def)
  show ?thesis using dl_insert_spec[OF d, of "pt v"]
  proof (elim disjE exE conjE)
    fix h' n assume a: "dl_insert (pt v) ph h = Some (True, h')" "cells h n = None"
      "dl_rep h' ph ((n, pt v) # node_of pt ns)" "same_except ({ph, n} \<union> nodes (node_of pt ns)) h h'"
    have se: "same_except (insert n (spine ph ns)) h h'"
      by (rule same_except_mono[OF a(4)]) (auto simp: spine_def)
    have "olist pt foot ok h' ph ([] @ (n, v) # ns)"
      by (rule relink) (use assms a se in auto)
    then show ?thesis using a se by auto
  qed auto
qed

lemma append:
  assumes "olist pt foot ok h ph ns" "ok h v" "foot v \<inter> olist_foot foot ph ns = {}"
  shows "(\<exists>h'. dl_append (pt v) ph h = Some (False, h') \<and> cells h' = cells h) \<or>
    (\<exists>h' n. dl_append (pt v) ph h = Some (True, h') \<and> cells h n = None \<and>
       olist pt foot ok h' ph (ns @ [(n, v)]) \<and> same_except (insert n (spine ph ns)) h h')"
proof -
  have d: "dl_rep h ph (node_of pt ns)" using assms(1) by (simp add: olist_def)
  show ?thesis using dl_append_spec[OF d, of "pt v"]
  proof (elim disjE exE conjE)
    fix h' n assume a: "dl_append (pt v) ph h = Some (True, h')" "cells h n = None"
      "dl_rep h' ph (node_of pt ns @ [(n, pt v)])" "same_except ({ph, n} \<union> nodes (node_of pt ns)) h h'"
    have se: "same_except (insert n (spine ph ns)) h h'"
      by (rule same_except_mono[OF a(4)]) (auto simp: spine_def)
    have "olist pt foot ok h' ph (ns @ (n, v) # [])"
      by (rule relink) (use assms a se in auto)
    then show ?thesis using a se by auto
  qed auto
qed

text \<open>Unlinking an object: it keeps its memory, the list no longer owns it.\<close>

lemma remove:
  assumes "olist pt foot ok h ph (A @ (n, v) # B)"
  shows "\<exists>h'. dl_rm_node ph n h = Some (pt v, dl_last_addr NULL (node_of pt A), h') \<and>
    olist pt foot ok h' ph (A @ B) \<and> ok h' v \<and> cells h' n = None \<and> cells h' NULL = None \<and>
    same_except (spine ph (A @ (n, v) # B)) h h'"
proof -
  have "dl_rep h ph (node_of pt A @ (n, pt v) # node_of pt B)" using assms by (simp add: olist_def)
  from dl_rm_node_spec[OF this] obtain h' where h':
    "dl_rm_node ph n h = Some (pt v, dl_last_addr NULL (node_of pt A), h')"
    "dl_rep h' ph (node_of pt (A @ B))" "cells h' n = None"
    "same_except ({ph, n} \<union> nodes (node_of pt (A @ B))) h h'" by auto
  have se: "same_except (spine ph (A @ (n, v) # B)) h h'"
    by (rule same_except_mono[OF h'(4)]) (unfold node_of_simps(4) spine_def, auto)
  have same: "cells h' a = cells h a" if "a \<in> objs_foot foot (A @ (n, v) # B)" for a
    using same_except_eq[OF se, of a] that assms unfolding olist_def by blast
  have "list_all (ok h) (map snd (A @ (n, v) # B))" using assms by (simp add: olist_def)
  then have "list_all (ok h') (map snd (A @ (n, v) # B))"
    by (rule frame_objs) (use dl_repE(1)[OF h'(2)] same in auto)
  then have "olist pt foot ok h' ph (A @ B) \<and> ok h' v"
    using assms h'(2) by (auto simp: olist_def)
  then show ?thesis using h'(1,3) se dl_repE(1)[OF h'(2)] by blast
qed

lemma foot_null: "olist pt foot ok h ph ns \<Longrightarrow> NULL \<notin> olist_foot foot ph ns"
  using alive by blast

lemma takes_added:
  assumes "olist pt foot ok h ph ns" "ok h v" "cells h n = None" "n \<noteq> NULL"
    "same_except (insert n (spine ph ns)) h h'"
  shows "takes (olist_foot foot ph ns \<union> foot v) h (insert n (olist_foot foot ph ns \<union> foot v)) h'"
  by (rule takes_except[OF assms(5)])
     (use assms foot_null[OF assms(1)] ok_NULL[OF assms(2)] in \<open>auto simp: olist_foot_def fresh_def\<close>)

lemma takes_removed:
  assumes "olist pt foot ok h ph (A @ (n, v) # B)" "same_except (spine ph (A @ (n, v) # B)) h h'"
  shows "takes (olist_foot foot ph (A @ (n, v) # B)) h (olist_foot foot ph (A @ B) \<union> foot v) h'"
  by (rule takes_except[OF assms(2)]) (use foot_null[OF assms(1)] in \<open>auto simp: olist_foot_def\<close>)

text \<open>Changing one object of the list.\<close>

lemma update:
  assumes "olist pt foot ok h ph (A @ (n, v) # B)" "ok h' v'" "pt v' = pt v"
    "same_except S h h'" "S \<inter> olist_foot foot ph (A @ (n, v) # B) \<subseteq> foot v"
    "foot v' \<inter> olist_foot foot ph (A @ (n, v) # B) \<subseteq> foot v" "NULL \<notin> S"
  shows "olist pt foot ok h' ph (A @ (n, v') # B)"
proof -
  let ?ns = "A @ (n, v) # B" and ?ns' = "A @ (n, v') # B"
  have d: "dl_rep h ph (node_of pt ?ns)" using assms(1) by (simp add: olist_def)
  have o: "spine ph ?ns \<inter> foot v = {}" "objs_foot foot (A @ B) \<inter> foot v = {}"
    using assms(1) by (auto simp: olist_def objs_foot_def)
  have d': "dl_rep h' ph (node_of pt ?ns)"
    by (rule dl_rep_agree[OF d assms(4)]) (unfold node_of_simps(4), use o(1) assms(5,7) in \<open>auto simp: olist_foot_def spine_def\<close>)
  have same: "cells h' a = cells h a" if "a \<in> objs_foot foot (A @ B)" for a
    using same_except_eq[OF assms(4), of a] that o(2) assms(5) by (auto simp: olist_foot_def)
  have "list_all (ok h) (map snd (A @ B))" using assms(1) by (simp add: olist_def)
  then have "list_all (ok h') (map snd (A @ B))"
    by (rule frame_objs) (use dl_repE(1)[OF d'] same in auto)
  moreover have "dl_rep h' ph (node_of pt ?ns')" using d' assms(3) by simp
  moreover have "spine ph ?ns' \<inter> objs_foot foot ?ns' = {}"
    using assms(1,6) o(1) by (auto simp: olist_def olist_foot_def)
  moreover have "sep (map (foot \<circ> snd) ?ns')"
    using assms(1,6) o(2) by (auto simp: olist_def olist_foot_def objs_foot_def)
  ultimately show ?thesis using assms(2) by (auto simp: olist_def)
qed

end

end
