(* ===== verification/DbSpec.thy ===== *)
theory DbSpec
  imports DbSlv ObjList
begin

text \<open>
  What the data server promises, without its memory: the variables, newest first, each with its
  value, its size and the clients to trigger, and the users in the order of their logins.
  \<open>srv_step\<close> serves one request of a client on a POSIX message queue; \<open>mem\<close> says whether the
  request finds the memory it needs.  \<open>None\<close> is a fault of the server: an update of a variable
  that was created larger than the 128 bytes of a value, destroying a variable that has
  triggers, and reading a missing variable when no variable at all is left.
\<close>

record avar = av_data :: db_data
  av_size :: nat
  av_trigs :: "comm_clt list"

record auser = au_clt :: comm_clt
  au_login :: "u8 list"
  au_time :: int

record server = srv_vars :: "avar list"
  srv_users :: "auser list"

definition is_var :: "u32 \<Rightarrow> u32 \<Rightarrow> avar \<Rightarrow> bool" where
  "is_var var type v \<longleftrightarrow> dvar (av_data v) = var \<and> dtype (av_data v) = type"

fun upd_first :: "('b \<Rightarrow> bool) \<Rightarrow> ('b \<Rightarrow> 'b) \<Rightarrow> 'b list \<Rightarrow> 'b list" where
  "upd_first P f [] = []"
| "upd_first P f (x # xs) = (if P x then f x # xs else x # upd_first P f xs)"

fun rm_first :: "('b \<Rightarrow> bool) \<Rightarrow> 'b list \<Rightarrow> 'b list" where
  "rm_first P [] = []"
| "rm_first P (x # xs) = (if P x then xs else x # rm_first P xs)"

lemma first_split:
  "(\<forall>x \<in> set A. \<not> P x) \<Longrightarrow> P y \<Longrightarrow>
   find P (A @ y # B) = Some y \<and> upd_first P f (A @ y # B) = A @ f y # B \<and> rm_first P (A @ y # B) = A @ B"
  by (induction A) auto

lemma first_none [simp]: "(\<forall>x \<in> set xs. \<not> P x) \<Longrightarrow> find P xs = None"
  by (induction xs) auto

text \<open>Every client on the list is triggered once, in order; one that cannot be reached is dropped.\<close>

fun notify :: "trig_info \<Rightarrow> comm_clt list \<Rightarrow> msg os \<Rightarrow> comm_clt list \<times> msg os" where
  "notify t [] s = ([], s)"
| "notify t (c # cs) s = (let (ok, s) = comm_async_trig (Some c) (Trig t) s; (cs, s) = notify t cs s in
     (if ok then c # cs else cs, s))"

definition new_var :: "u32 \<Rightarrow> u32 \<Rightarrow> nat \<Rightarrow> int \<Rightarrow> avar" where
  "new_var var type size1 now = \<lparr>av_data = \<lparr>dcmd = 0, dkey = 0, dvar = var, dtype = type, dtime = now,
     dvalue = replicate MAX_DATA_SIZE 0\<rparr>, av_size = size1, av_trigs = []\<rparr>"

definition srv_create :: "bool \<Rightarrow> u32 \<Rightarrow> u32 \<Rightarrow> nat \<Rightarrow> int \<Rightarrow> server \<Rightarrow> bool \<times> server" where
  "srv_create mem var type size1 now A =
     (if sizeof_db_entry < size1 \<or> find (is_var var type) (srv_vars A) \<noteq> None \<or> \<not> mem then (False, A)
      else (True, A\<lparr>srv_vars := new_var var type size1 now # srv_vars A\<rparr>))"

definition srv_read :: "u32 \<Rightarrow> u32 \<Rightarrow> server \<Rightarrow> (bool \<times> db_data) option" where
  "srv_read var type A = (case find (is_var var type) (srv_vars A) of
     Some v \<Rightarrow> Some (True, (av_data v)\<lparr>dcmd := DB_READ_REPLY\<rparr>)
   | None \<Rightarrow> if srv_vars A = [] then None
       else Some (False, (av_data (last (srv_vars A)))\<lparr>dcmd := DB_READ_REPLY\<rparr>))"

definition srv_update :: "db_data \<Rightarrow> int \<Rightarrow> msg os \<Rightarrow> server \<Rightarrow> (bool \<times> msg os \<times> server) option" where
  "srv_update m now s A = (case find (is_var (dvar m) (dtype m)) (srv_vars A) of
     None \<Rightarrow> Some (False, s, A)
   | Some v \<Rightarrow> do {
       x \<leftarrow> copy_value (av_size v) (dvalue m) (dvalue (av_data v));
       let (cs, s) = notify \<lparr>tmsg_type = DB_TRIGGER, tkey = 0, tvar = dvar m, ttype = dtype m\<rparr> (av_trigs v) s;
       Some (True, s, A\<lparr>srv_vars := upd_first (is_var (dvar m) (dtype m))
         (\<lambda>v. v\<lparr>av_data := (av_data v)\<lparr>dvalue := x, dtime := now\<rparr>, av_trigs := cs\<rparr>) (srv_vars A)\<rparr>)
     })"

definition srv_destroy :: "u32 \<Rightarrow> u32 \<Rightarrow> server \<Rightarrow> (bool \<times> server) option" where
  "srv_destroy var type A = (case find (is_var var type) (srv_vars A) of
     None \<Rightarrow> Some (False, A)
   | Some v \<Rightarrow> if av_trigs v \<noteq> [] then None
       else Some (True, A\<lparr>srv_vars := rm_first (is_var var type) (srv_vars A)\<rparr>))"

definition srv_login :: "bool \<Rightarrow> comm_clt \<Rightarrow> u8 list \<Rightarrow> int \<Rightarrow> server \<Rightarrow> bool \<times> server" where
  "srv_login mem c login now A = (if \<not> mem then (False, A) else (True,
     A\<lparr>srv_users := srv_users A @ [\<lparr>au_clt = c, au_login = take sizeof_db_login login, au_time = now\<rparr>]\<rparr>))"

text \<open>The status of a logout and of the removal of a trigger is always false.\<close>

definition srv_logout :: "comm_clt \<Rightarrow> server \<Rightarrow> server" where
  "srv_logout c A = A\<lparr>srv_users := rm_first (\<lambda>u. au_clt u = c) (srv_users A)\<rparr>"

definition srv_trig_set :: "bool \<Rightarrow> comm_clt \<Rightarrow> u32 \<Rightarrow> u32 \<Rightarrow> server \<Rightarrow> bool \<times> server" where
  "srv_trig_set mem c var type A = (case find (is_var var type) (srv_vars A) of
     None \<Rightarrow> (False, A)
   | Some v \<Rightarrow> if c \<in> set (av_trigs v) \<or> \<not> mem then (False, A)
       else (True, A\<lparr>srv_vars := upd_first (is_var var type) (\<lambda>v. v\<lparr>av_trigs := av_trigs v @ [c]\<rparr>) (srv_vars A)\<rparr>))"

definition srv_trig_unset :: "comm_clt \<Rightarrow> u32 \<Rightarrow> u32 \<Rightarrow> server \<Rightarrow> server" where
  "srv_trig_unset c var type A =
     A\<lparr>srv_vars := upd_first (is_var var type) (\<lambda>v. v\<lparr>av_trigs := rm_first ((=) c) (av_trigs v)\<rparr>) (srv_vars A)\<rparr>"

text \<open>The whole request, with the reply it sends.\<close>

definition srv_step :: "bool \<Rightarrow> comm_clt \<Rightarrow> db_data \<Rightarrow> int \<Rightarrow> db_data \<Rightarrow> msg os \<Rightarrow> server \<Rightarrow> (bool \<times> msg os \<times> server) option" where
  "srv_step mem c m now stk s A =
    (let answer = (\<lambda>cmd (status, s, A). Some (status, snd (slv_bool_reply c cmd status stk s), A)) in
     if dcmd m = DB_CREATE_CMD then
       let (status, A) = srv_create mem (dvar m) (dtype m) (unat (db_long (dvalue m))) now A in
       answer DB_CREATE_REPLY (status, s, A)
     else if dcmd m = DB_READ_CMD then do {
       (status, d) \<leftarrow> srv_read (dvar m) (dtype m) A;
       Some (status, snd (comm_sync_reply (Some c) (Reply d) s), A)
     }
     else if dcmd m = DB_UPDATE_CMD then Option.bind (srv_update m now s A) (answer DB_UPDATE_REPLY)
     else if dcmd m = DB_DESTROY_CMD then do {
       (status, A) \<leftarrow> srv_destroy (dvar m) (dtype m) A;
       answer DB_DESTROY_REPLY (status, s, A)
     }
     else if dcmd m = DB_LOGIN_CMD then
       let (status, A) = srv_login mem c (dvalue m) now A in answer DB_LOGIN_REPLY (status, s, A)
     else if dcmd m = DB_LOGOUT_CMD then answer DB_LOGOUT_REPLY (False, s, srv_logout c A)
     else if dcmd m = DB_TRIG_SET_CMD then
       let (status, A) = srv_trig_set mem c (dvar m) (dtype m) A in answer DB_TRIG_SET_REPLY (status, s, A)
     else if dcmd m = DB_TRIG_UNSET_CMD then
       answer DB_TRIG_UNSET_REPLY (False, s, srv_trig_unset c (dvar m) (dtype m) A)
     else Some (False, s, A))"

end
