(* ===== verification/DbRep.thy ===== *)
theory DbRep
  imports DbSpec
begin

text \<open>
  The memory of the data server: how the variables with their triggers and the users of the
  abstract server lie in the heap, and that each operation of db_slv.c does to them what the
  specification says, or faults exactly where it says so.
\<close>

text \<open>A client to trigger: its block.\<close>

type_synonym trig_obj = "ptr \<times> comm_clt"

definition trig_ok :: "dbobj heap \<Rightarrow> trig_obj \<Rightarrow> bool" where
  "trig_ok h v \<longleftrightarrow> fst v \<noteq> NULL \<and> cells h (fst v) = Some (Obj (Clt (snd v)))"

definition trig_foot :: "trig_obj \<Rightarrow> ptr set" where
  "trig_foot v = {fst v}"

interpretation trigs: objects fst trig_foot trig_ok
  by unfold_locales (auto simp: trig_foot_def trig_ok_def)

text \<open>A variable: its block and its list of triggers.\<close>

type_synonym var_obj = "ptr \<times> db_entry \<times> (ptr \<times> trig_obj) list"

abbreviation "trig_list \<equiv> olist fst trig_foot trig_ok"
abbreviation "trig_mem \<equiv> olist_foot trig_foot"

definition var_ok :: "dbobj heap \<Rightarrow> var_obj \<Rightarrow> bool" where
  "var_ok h v = (case v of (p, e, T) \<Rightarrow> p \<noteq> NULL \<and> cells h p = Some (Obj (Entry e)) \<and>
     trig_list h (eptrig_head e) T \<and> p \<notin> trig_mem (eptrig_head e) T)"

definition var_foot :: "var_obj \<Rightarrow> ptr set" where
  "var_foot v = (case v of (p, e, T) \<Rightarrow> insert p (trig_mem (eptrig_head e) T))"

interpretation vars: objects fst var_foot var_ok
proof unfold_locales
  fix h :: "dbobj heap" and v a assume v: "var_ok h v"
  obtain p e T where [simp]: "v = (p, e, T)" by (cases v)
  note V = v[unfolded var_ok_def, simplified]
  show "NULL \<notin> var_foot v" using V trigs.foot_null by (auto simp: var_foot_def)
  show "cells h a \<noteq> None" if "a \<in> var_foot v" using that V trigs.alive by (auto simp: var_foot_def)
next
  fix h h' :: "dbobj heap" and v
  assume v: "var_ok h v" "cells h' NULL = None" and same: "\<And>a. a \<in> var_foot v \<Longrightarrow> cells h' a = cells h a"
  obtain p e T where [simp]: "v = (p, e, T)" by (cases v)
  have "trig_list h' (eptrig_head e) T"
    by (rule trigs.frame[of h]) (use v same in \<open>auto simp: var_ok_def var_foot_def\<close>)
  then show "var_ok h' v" using v same[of p] by (auto simp: var_ok_def var_foot_def)
qed (auto simp: var_foot_def split: prod.splits)

text \<open>A user: the record of the login and the client's block.\<close>

type_synonym usr_obj = "ptr \<times> slv_clt \<times> comm_clt"

definition usr_ok :: "dbobj heap \<Rightarrow> usr_obj \<Rightarrow> bool" where
  "usr_ok h v = (case v of (q, u, c) \<Rightarrow> q \<noteq> NULL \<and> cells h q = Some (Obj (Usr u)) \<and>
     sc_pclt u \<noteq> NULL \<and> cells h (sc_pclt u) = Some (Obj (Clt c)))"

definition usr_foot :: "usr_obj \<Rightarrow> ptr set" where
  "usr_foot v = (case v of (q, u, c) \<Rightarrow> {q, sc_pclt u})"

interpretation usrs: objects fst usr_foot usr_ok
  by unfold_locales (auto simp: usr_foot_def usr_ok_def split: prod.splits)

abbreviation "var_list \<equiv> olist fst var_foot var_ok"
abbreviation "usr_list \<equiv> olist fst usr_foot usr_ok"
abbreviation "var_mem \<equiv> olist_foot var_foot"
abbreviation "usr_mem \<equiv> olist_foot usr_foot"

definition srv_rep :: "dbobj heap \<Rightarrow> ptr \<Rightarrow> ptr \<Rightarrow> (ptr \<times> var_obj) list \<Rightarrow> (ptr \<times> usr_obj) list \<Rightarrow> bool" where
  "srv_rep h pdb pusr V U \<longleftrightarrow> var_list h pdb V \<and> usr_list h pusr U \<and> var_mem pdb V \<inter> usr_mem pusr U = {}"

fun abs_var :: "ptr \<times> var_obj \<Rightarrow> avar" where
  "abs_var (n, p, e, T) = \<lparr>av_data = (edata e)\<lparr>dcmd := 0\<rparr>, av_size = esize e, av_trigs = map (\<lambda>m. snd (snd m)) T\<rparr>"

fun abs_usr :: "ptr \<times> usr_obj \<Rightarrow> auser" where
  "abs_usr (n, q, u, c) = \<lparr>au_clt = c, au_login = sc_client u, au_time = sc_login_time u\<rparr>"

definition srv_abs :: "(ptr \<times> var_obj) list \<Rightarrow> (ptr \<times> usr_obj) list \<Rightarrow> server" where
  "srv_abs V U = \<lparr>srv_vars = map abs_var V, srv_users = map abs_usr U\<rparr>"

text \<open>A change of the variables leaves the users alone, and the other way round.\<close>

lemma srv_vars_change:
  assumes "srv_rep h pdb pusr V U" "takes (var_mem pdb V) h F' h'" "var_list h' pdb V'" "var_mem pdb V' \<subseteq> F'"
  shows "srv_rep h' pdb pusr V' U"
  using assms usrs.frame_takes[OF _ assms(2), of pusr U] by (auto simp: srv_rep_def)

lemma srv_users_change:
  assumes "srv_rep h pdb pusr V U" "takes (usr_mem pusr U) h F' h'" "usr_list h' pusr U'" "usr_mem pusr U' \<subseteq> F'"
  shows "srv_rep h' pdb pusr V U'"
  using assms vars.frame_takes[OF _ assms(2), of pdb V] by (auto simp: srv_rep_def)

text \<open>Changing one variable in place.\<close>

lemma var_change:
  assumes "var_list h pdb (A @ (n, v) # B)" "takes (var_foot v) h (var_foot v') h'" "var_ok h' v'" "fst v' = fst v"
  shows "var_list h' pdb (A @ (n, v') # B) \<and>
    takes (var_mem pdb (A @ (n, v) # B)) h (var_mem pdb (A @ (n, v') # B)) h'"
proof -
  let ?V = "A @ (n, v) # B"
  let ?S = "{a. a \<noteq> NULL \<and> (a \<in> var_foot v \<or> cells h a = None)}"
  have sub: "var_foot v \<subseteq> var_mem pdb ?V" by (auto simp: olist_foot_def)
  have al: "\<And>a. a \<in> var_mem pdb ?V \<Longrightarrow> cells h a \<noteq> None" using vars.alive[OF assms(1)] by blast
  have "same_except ?S h h'" using assms(2) by (auto simp: same_except_def takes_def fresh_def)
  then have "var_list h' pdb (A @ (n, v') # B)"
  proof (rule vars.update[where S = ?S, OF assms(1,3,4)])
    show "?S \<inter> var_mem pdb ?V \<subseteq> var_foot v" using al by blast
    show "var_foot v' \<inter> var_mem pdb ?V \<subseteq> var_foot v"
      using al assms(2) unfolding takes_def fresh_def by blast
  qed (use assms(1) vars.ok_NULL in \<open>auto simp: olist_def\<close>)
  moreover have "takes (var_mem pdb ?V) h (var_mem pdb (A @ (n, v') # B)) h'"
    by (rule takes_mono[OF assms(2) sub]) (auto simp: olist_foot_def)
  ultimately show ?thesis by blast
qed

lemma srv_var_change:
  assumes "srv_rep h pdb pusr (A @ (n, v) # B) U" "takes (var_foot v) h (var_foot v') h'" "var_ok h' v'" "fst v' = fst v"
  shows "srv_rep h' pdb pusr (A @ (n, v') # B) U"
  using srv_vars_change[OF assms(1)] var_change[OF _ assms(2-4)] assms(1) unfolding srv_rep_def by blast

subsection \<open>Finding and changing an entry\<close>

lemma abs_var_sel [simp]:
  "av_data (abs_var (n, p, e, T)) = (edata e)\<lparr>dcmd := 0\<rparr>" "av_size (abs_var (n, p, e, T)) = esize e"
  "av_trigs (abs_var (n, p, e, T)) = map (\<lambda>m. snd (snd m)) T"
  by simp_all

lemma entry_first:
  assumes "var_list h pdb V"
  shows "(\<forall>m \<in> set V. \<not> is_var var type (abs_var m)) \<and> dl_first db_entry_cmp pdb (var, type) h = Some NULL \<and>
      db_entry_find pdb var type h = Some NULL \<or>
    (\<exists>A n p e T B. V = A @ (n, p, e, T) # B \<and> (\<forall>m \<in> set A. \<not> is_var var type (abs_var m)) \<and>
      is_var var type (abs_var (n, p, e, T)) \<and> dl_first db_entry_cmp pdb (var, type) h = Some n \<and> n \<noteq> NULL \<and>
      db_entry_find pdb var type h = Some p \<and> p \<noteq> NULL \<and> var_ok h (p, e, T))"
proof -
  define f where "f = (\<lambda>(p :: ptr, e :: db_entry, T :: (ptr \<times> trig_obj) list).
    if var = dvar (edata e) \<and> type = dtype (edata e) then 0 else if dvar (edata e) < var then 1 else - 1 :: int)"
  have ok: "var_ok h v" if "v \<in> snd ` set V" for v using assms that by (auto simp: olist_def list_all_iff)
  have cmp: "\<forall>v \<in> snd ` set V. db_entry_cmp h (var, type) (fst v) = Some (f v)"
  proof
    fix v assume "v \<in> snd ` set V"
    then show "db_entry_cmp h (var, type) (fst v) = Some (f v)"
      using ok[of v] by (cases v) (simp add: db_entry_cmp_def var_ok_def f_def get_entry_def get_obj_def)
  qed
  have f: "f (snd m) = 0 \<longleftrightarrow> is_var var type (abs_var m)" for m
    by (cases m) (auto simp: f_def is_var_def)
  show ?thesis
    using vars.first[where cmp = db_entry_cmp and f = f, OF assms cmp]
  proof (elim disjE exE conjE)
    fix A n v B assume a: "V = A @ (n, v) # B" "\<forall>w\<in>snd ` set A. f w \<noteq> 0" "f v = 0"
      "dl_first db_entry_cmp pdb (var, type) h = Some n" "n \<noteq> 0" and dn: "get_dn h n =
        Some \<lparr>dn_pitem = fst v, dn_pprev = dl_last_addr 0 (node_of fst A), dn_pnext = dl_first_addr (node_of fst B) 0\<rparr>"
    obtain p e T where v: "v = (p, e, T)" by (cases v)
    have "var_ok h (p, e, T)" using ok[of v] a(1) v by force
    moreover have "db_entry_find pdb var type h = Some p" using a dn v by (simp add: db_entry_find_def)
    ultimately show ?thesis using a v f[of "(n, v)"] f by (intro disjI2 exI[of _ A] exI[of _ n] exI[of _ p] exI[of _ e] exI[of _ T] exI[of _ B]) (auto simp: var_ok_def)
  qed (use f in \<open>auto simp: db_entry_find_def\<close>)
qed

lemma var_entry_put:
  assumes "var_ok h (p, e, T)" "eptrig_head e' = eptrig_head e"
  shows "var_ok (put p (Obj (Entry e')) h) (p, e', T)"
    "takes (var_foot (p, e, T)) h (var_foot (p, e', T)) (put p (Obj (Entry e')) h)"
proof -
  have p: "p \<noteq> NULL" "p \<notin> trig_mem (eptrig_head e) T" and t: "trig_list h (eptrig_head e) T"
    using assms(1) by (auto simp: var_ok_def)
  have "trig_list (put p (Obj (Entry e')) h) (eptrig_head e) T"
    using trigs.frame_takes[OF t takes_put[OF p(1)]] p(2) by blast
  then show "var_ok (put p (Obj (Entry e')) h) (p, e', T)" using p assms(2) by (simp add: var_ok_def)
  show "takes (var_foot (p, e, T)) h (var_foot (p, e', T)) (put p (Obj (Entry e')) h)"
    by (rule takes_mono[OF takes_put[OF p(1)]]) (auto simp: var_foot_def assms(2))
qed

lemma upd_entry_var: "var_ok h (p, e, T) \<Longrightarrow> upd_entry p f h = Some (put p (Obj (Entry (f e))) h)"
  by (simp add: upd_entry_def var_ok_def get_entry_def get_obj_def)

lemma get_entry_var: "var_ok h (p, e, T) \<Longrightarrow> get_entry h p = Some e"
  by (simp add: var_ok_def)

subsection \<open>Triggering\<close>

lemma comm_done_clt:
  assumes "cells h p = Some (Obj (Clt c))" "p \<noteq> NULL"
  shows "comm_done p h = Some (xport c = COMM_TCP_XPORT, h\<lparr>cells := (cells h)(p := None)\<rparr>)"
  using assms by (simp add: comm_done_def get_clt_def get_obj_def free_def)

lemma takes_drop: "p \<noteq> NULL \<Longrightarrow> takes {p} h {} (h\<lparr>cells := (cells h)(p := None)\<rparr>)"
  by (simp add: takes_def)

lemma trig_node:
  assumes "trig_list h ph (D @ (n, p, c) # R)"
  shows "n \<noteq> NULL" "get_dn h n = Some \<lparr>dn_pitem = p, dn_pprev = dl_last_addr NULL (node_of fst D),
      dn_pnext = dl_first_addr (node_of fst R) NULL\<rparr>" "get_clt h p = Some c" "p \<noteq> NULL"
    "p \<notin> trig_mem ph (D @ R)"
proof -
  have d: "dl_rep h ph (node_of fst (D @ (n, p, c) # R))" using assms by (simp add: olist_def)
  show "n \<noteq> NULL" "get_dn h n = Some \<lparr>dn_pitem = p, dn_pprev = dl_last_addr NULL (node_of fst D),
      dn_pnext = dl_first_addr (node_of fst R) NULL\<rparr>"
    using dl_repE(4,7)[OF d] by (auto simp: dl_acc)
  show "get_clt h p = Some c" "p \<noteq> NULL" using assms by (auto simp: olist_def trig_ok_def)
  show "p \<notin> trig_mem ph (D @ R)"
    using assms by (auto simp: olist_def olist_foot_def objs_foot_def trig_foot_def)
qed

text \<open>Removing the trigger at the cursor and freeing its client.\<close>

lemma trig_drop:
  assumes "trig_list h ph (D @ (n, p, c) # R)"
  shows "\<exists>h1 h2. dl_rm_node ph n h = Some (p, dl_last_addr NULL (node_of fst D), h1) \<and>
    comm_done p h1 = Some (xport c = COMM_TCP_XPORT, h2) \<and> trig_list h2 ph (D @ R) \<and>
    takes (trig_mem ph (D @ (n, p, c) # R)) h (trig_mem ph (D @ R)) h2"
proof -
  obtain h1 where h1: "dl_rm_node ph n h = Some (p, dl_last_addr NULL (node_of fst D), h1)"
    "trig_list h1 ph (D @ R)" "trig_ok h1 (p, c)" "same_except (spine ph (D @ (n, p, c) # R)) h h1"
    using trigs.remove[OF assms] by auto
  let ?h2 = "h1\<lparr>cells := (cells h1)(p := None)\<rparr>"
  have p: "p \<noteq> NULL" "cells h1 p = Some (Obj (Clt c))" using h1(3) by (auto simp: trig_ok_def)
  note t1 = trigs.takes_removed[OF assms h1(4)] and t2 = takes_drop[OF p(1), of h1]
  have "trig_list ?h2 ph (D @ R)"
    using trigs.frame_takes[OF h1(2) t2] trig_node(5)[OF assms] by blast
  moreover have "takes (trig_mem ph (D @ R) \<union> trig_foot (p, c)) h1 (trig_mem ph (D @ R)) ?h2"
    by (rule takes_mono[OF t2]) (auto simp: trig_foot_def)
  ultimately show ?thesis using h1(1) comm_done_clt[OF p(2,1)] takes_trans[OF t1] by blast
qed

lemma trig_resume:
  assumes "trig_list h ph (D @ R)" "dl_last_addr NULL (node_of fst D) = pnode"
  shows "pnode = NULL \<Longrightarrow> get_dh h ph = Some hh \<Longrightarrow> dh_pfirst hh = dl_first_addr (node_of fst R) NULL"
    "pnode = NULL \<Longrightarrow> \<exists>hh. get_dh h ph = Some hh"
    "pnode \<noteq> NULL \<Longrightarrow> \<exists>x q. get_dn h pnode = Some \<lparr>dn_pitem = x, dn_pprev = q,
      dn_pnext = dl_first_addr (node_of fst R) NULL\<rparr>"
proof -
  have d: "dl_rep h ph (node_of fst (D @ R))" using assms(1) by (simp add: olist_def)
  have hd: "get_dh h ph = Some \<lparr>dh_length = int (length (D @ R)), dh_pfirst = dl_first_addr (node_of fst (D @ R)) NULL,
      dh_plast = dl_last_addr NULL (node_of fst (D @ R))\<rparr>"
    using dl_repE(3)[OF d] by (simp add: dl_acc)
  have "pnode = NULL \<longleftrightarrow> D = []"
    using dl_repE(7)[OF d] assms(2) by (cases D rule: rev_cases) auto
  then show "pnode = NULL \<Longrightarrow> get_dh h ph = Some hh \<Longrightarrow> dh_pfirst hh = dl_first_addr (node_of fst R) NULL"
    "pnode = NULL \<Longrightarrow> \<exists>hh. get_dh h ph = Some hh"
    "pnode \<noteq> NULL \<Longrightarrow> \<exists>x q. get_dn h pnode = Some \<lparr>dn_pitem = x, dn_pprev = q,
      dn_pnext = dl_first_addr (node_of fst R) NULL\<rparr>"
    using hd dl_repE(4)[OF d] assms(2) by (cases D rule: rev_cases; auto simp: dl_acc)+
qed

lemma trig_loop_notifies:
  "trig_list h ph (D @ R) \<Longrightarrow> \<exists>h' R' s'. notify t (map (\<lambda>m. snd (snd m)) R) s = (map (\<lambda>m. snd (snd m)) R', s') \<and>
     trig_loop t ph (dl_first_addr (node_of fst R) NULL) s h = Some (s', h') \<and> trig_list h' ph (D @ R') \<and>
     takes (trig_mem ph (D @ R)) h (trig_mem ph (D @ R')) h'"
proof (induction R arbitrary: D h s)
  case Nil
  then show ?case by (subst trig_loop.simps) (auto intro!: exI[of _ "[]"])
next
  case (Cons m R)
  obtain n p c where m: "m = (n, p, c)" by (cases m)
  note T = Cons.prems[unfolded m] and node = trig_node[OF Cons.prems[unfolded m]]
  obtain b s1 where send: "comm_async_trig (Some c) (Trig t) s = (b, s1)" by fastforce
  show ?case
  proof (cases b)
    case True
    have "trig_list h ph ((D @ [m]) @ R)" using Cons.prems by simp
    from Cons.IH[OF this, of s1] obtain h' R' s' where IH:
      "notify t (map (\<lambda>m. snd (snd m)) R) s1 = (map (\<lambda>m. snd (snd m)) R', s')"
      "trig_loop t ph (dl_first_addr (node_of fst R) NULL) s1 h = Some (s', h')"
      "trig_list h' ph ((D @ [m]) @ R')" "takes (trig_mem ph ((D @ [m]) @ R)) h (trig_mem ph ((D @ [m]) @ R')) h'"
      by blast
    have "trig_loop t ph n s h = Some (s', h')"
      using node send True IH(2) by (subst trig_loop.simps) simp
    then show ?thesis using IH send True m
      by (intro exI[of _ h'] exI[of _ "m # R'"] exI[of _ s']) simp
  next
    case False
    obtain h1 h2 where h: "dl_rm_node ph n h = Some (p, dl_last_addr NULL (node_of fst D), h1)"
      "comm_done p h1 = Some (xport c = COMM_TCP_XPORT, h2)" "trig_list h2 ph (D @ R)"
      "takes (trig_mem ph (D @ (n, p, c) # R)) h (trig_mem ph (D @ R)) h2"
      using trig_drop[OF T] by blast
    from Cons.IH[OF h(3), of s1] obtain h' R' s' where IH:
      "notify t (map (\<lambda>m. snd (snd m)) R) s1 = (map (\<lambda>m. snd (snd m)) R', s')"
      "trig_loop t ph (dl_first_addr (node_of fst R) NULL) s1 h2 = Some (s', h')"
      "trig_list h' ph (D @ R')" "takes (trig_mem ph (D @ R)) h2 (trig_mem ph (D @ R')) h'" by blast
    have "trig_loop t ph n s h = Some (s', h')"
      using node send False h(1,2) IH(2) trig_resume[OF h(3) refl]
      by (subst trig_loop.simps) (cases "dl_last_addr NULL (node_of fst D) = NULL"; fastforce)
    moreover have "takes (trig_mem ph (D @ m # R)) h (trig_mem ph (D @ R')) h'"
      using takes_trans[OF h(4) IH(4)] m by simp
    ultimately show ?thesis using IH(1,3) send False m
      by (intro exI[of _ h'] exI[of _ R'] exI[of _ s']) simp
  qed
qed

end
