(* ===== verification/DbOps.thy ===== *)
theory DbOps
  imports DbRep
begin

text \<open>
  Each operation of db_slv.c against the specification: \<open>server_at h pdb pusr A\<close> says that the
  server \<open>A\<close> lies in the heap \<open>h\<close>.
\<close>

definition server_at :: "dbobj heap \<Rightarrow> ptr \<Rightarrow> ptr \<Rightarrow> server \<Rightarrow> bool" where
  "server_at h pdb pusr A \<longleftrightarrow> (\<exists>V U. srv_rep h pdb pusr V U \<and> srv_abs V U = A)"

lemma server_atI: "srv_rep h pdb pusr V U \<Longrightarrow> server_at h pdb pusr (srv_abs V U)"
  by (auto simp: server_at_def)

lemma srv_abs_sel [simp]:
  "srv_vars (srv_abs V U) = map abs_var V" "srv_users (srv_abs V U) = map abs_usr U"
  by (simp_all add: srv_abs_def)

lemma srv_abs_upd [simp]:
  "srv_abs V U\<lparr>srv_vars := map abs_var V'\<rparr> = srv_abs V' U"
  "srv_abs V U\<lparr>srv_users := map abs_usr U'\<rparr> = srv_abs V U'"
  by (simp_all add: srv_abs_def)

lemma srv_rep_take:
  assumes "srv_rep h pdb pusr V U" "takes {} h F h'"
  shows "srv_rep h' pdb pusr V U" "F \<inter> (var_mem pdb V \<union> usr_mem pusr U) = {}"
proof -
  have r: "var_list h pdb V" "usr_list h pusr U" "var_mem pdb V \<inter> usr_mem pusr U = {}"
    using assms(1) by (auto simp: srv_rep_def)
  show "srv_rep h' pdb pusr V U" "F \<inter> (var_mem pdb V \<union> usr_mem pusr U) = {}"
    using vars.frame_takes[OF r(1) assms(2)] usrs.frame_takes[OF r(2) assms(2)] r(3)
    by (auto simp: srv_rep_def)
qed

lemma server_take: "server_at h pdb pusr A \<Longrightarrow> takes {} h F h' \<Longrightarrow> server_at h' pdb pusr A"
  using srv_rep_take(1) unfolding server_at_def by blast

text \<open>The search for a variable, at the level of the server.\<close>

lemma server_first:
  assumes "srv_rep h pdb pusr V U"
  shows "find (is_var var type) (map abs_var V) = None \<and> (\<forall>m \<in> set V. \<not> is_var var type (abs_var m)) \<and>
      dl_first db_entry_cmp pdb (var, type) h = Some NULL \<and> db_entry_find pdb var type h = Some NULL \<or>
    (\<exists>A n p e T B. V = A @ (n, p, e, T) # B \<and> (\<forall>v \<in> set (map abs_var A). \<not> is_var var type v) \<and>
      is_var var type (abs_var (n, p, e, T)) \<and> find (is_var var type) (map abs_var V) = Some (abs_var (n, p, e, T)) \<and>
      dl_first db_entry_cmp pdb (var, type) h = Some n \<and> n \<noteq> NULL \<and>
      db_entry_find pdb var type h = Some p \<and> p \<noteq> NULL \<and> var_ok h (p, e, T))"
proof -
  have "var_list h pdb V" using assms by (simp add: srv_rep_def)
  from entry_first[OF this, of var type] show ?thesis
proof (elim disjE exE conjE)
  fix A n p e T B
  assume a: "V = A @ (n, p, e, T) # B" "\<forall>m\<in>set A. \<not> is_var var type (abs_var m)"
    "is_var var type (abs_var (n, p, e, T))" "dl_first db_entry_cmp pdb (var, type) h = Some n" "n \<noteq> NULL"
    "db_entry_find pdb var type h = Some p" "p \<noteq> NULL" "var_ok h (p, e, T)"
  have "find (is_var var type) (map abs_var V) = Some (abs_var (n, p, e, T))"
    using first_split[of "map abs_var A" "is_var var type" "abs_var (n, p, e, T)"] a(1-3)
    by (simp del: abs_var.simps)
  then show ?thesis using a by (intro disjI2 exI[of _ A] exI[of _ n] exI[of _ p] exI[of _ e] exI[of _ T] exI[of _ B])
    (simp del: abs_var.simps)
qed simp
qed

subsection \<open>Destroying\<close>

lemma done_all_frees:
  "dseg (cells h) q (node_of fst R) NULL \<Longrightarrow> NULL \<notin> fst ` set R \<Longrightarrow> list_all (trig_ok h) (map snd R) \<Longrightarrow>
   distinct (map (\<lambda>m. fst (snd m)) R) \<Longrightarrow>
   \<exists>h'. done_all (dl_first_addr (node_of fst R) NULL) h = Some h' \<and>
     same_except (fst ` snd ` set R) h h' \<and> (\<forall>a \<in> fst ` snd ` set R. cells h' a = None)"
proof (induction R arbitrary: h q)
  case Nil
  then show ?case by (subst done_all.simps) simp
next
  case (Cons m R)
  obtain n p c where m: "m = (n, p, c)" by (cases m)
  have n: "n \<noteq> NULL" "cells h n = Some (DlNode \<lparr>dn_pitem = p, dn_pprev = q, dn_pnext = dl_first_addr (node_of fst R) NULL\<rparr>)"
    and p: "p \<noteq> NULL" "cells h p = Some (Obj (Clt c))" and seg: "dseg (cells h) n (node_of fst R) NULL"
    using Cons.prems m by (auto simp: trig_ok_def)
  let ?h1 = "h\<lparr>cells := (cells h)(p := None)\<rparr>"
  have pR: "p \<notin> fst ` set (node_of fst R)" by (rule dseg_notin[OF seg]) (simp add: p)
  have seg1: "dseg (cells ?h1) n (node_of fst R) NULL" using seg by (simp add: dseg_upd[OF pR])
  have "list_all (trig_ok ?h1) (map snd R)"
    using Cons.prems(3,4) m by (auto simp: list_all_iff trig_ok_def image_iff)
  from Cons.IH[OF seg1 _ this] obtain h' where h': "done_all (dl_first_addr (node_of fst R) NULL) ?h1 = Some h'"
    "same_except (fst ` snd ` set R) ?h1 h'" "\<forall>a \<in> fst ` snd ` set R. cells h' a = None"
    using Cons.prems(2,4) by auto
  have "n \<noteq> p" using n(2) p(2) by auto
  then have "done_all n h = Some h'"
    using n comm_done_clt[OF p(2,1)] h'(1) by (subst done_all.simps) (simp add: get_dn_def)
  moreover have "cells h' p = None" using h'(2,3) by (cases "p \<in> fst ` snd ` set R") (auto simp: same_except_def)
  ultimately show ?case using h' m by (intro exI[of _ h']) (auto simp: same_except_def)
qed

lemma entry_destroy_clean:
  assumes "var_ok h (p, e, [])"
  shows "\<exists>h'. db_entry_destroy p h = Some h' \<and> takes (var_foot (p, e, [])) h {p} h' \<and> cells h' p = cells h p"
proof -
  have e: "cells h p = Some (Obj (Entry e))" and d: "dl_rep h (eptrig_head e) []"
    using assms by (auto simp: var_ok_def olist_def)
  obtain h' where h': "dl_free (eptrig_head e) h = Some h'" "same_except {eptrig_head e} h h'"
    using dl_free_spec[OF d] by (auto simp: own_items_def)
  have "db_entry_destroy p h = Some h'"
    using e dl_repE(3)[OF d] h'(1) by (simp add: db_entry_destroy_def get_entry_def get_obj_def get_dh_def done_all.simps)
  moreover have "cells h' p = cells h p"
    using same_except_eq[OF h'(2), of p] e dl_repE(3)[OF d] by (cases "p = eptrig_head e") simp_all
  moreover have "takes (var_foot (p, e, [])) h {p} h'"
    by (rule takes_except[OF h'(2)])
       (use vars.ok_NULL[OF assms] in \<open>auto simp: var_foot_def olist_foot_def\<close>)
  ultimately show ?thesis by blast
qed

text \<open>An entry with triggers is destroyed by freeing its clients twice.\<close>

lemma entry_destroy_faults:
  assumes "var_ok h (p, e, T)" "T \<noteq> []"
  shows "db_entry_destroy p h = None"
proof -
  have e: "cells h p = Some (Obj (Entry e))" and t: "trig_list h (eptrig_head e) T"
    using assms by (auto simp: var_ok_def)
  have d: "dl_rep h (eptrig_head e) (node_of fst T)" and ok: "list_all (trig_ok h) (map snd T)"
    and s: "sep (map (trig_foot \<circ> snd) T)" using t by (auto simp: olist_def)
  have dis: "distinct (map (\<lambda>m. fst (snd m)) T)"
    using s by (induction T) (auto simp: trig_foot_def)
  obtain h1 where h1: "done_all (dl_first_addr (node_of fst T) NULL) h = Some h1"
    "same_except (fst ` snd ` set T) h h1" "\<forall>a \<in> fst ` snd ` set T. cells h1 a = None"
    using done_all_frees[OF dl_repE(4)[OF d] _ ok dis] dl_repE(7)[OF d] by auto
  have clt: "\<exists>c. cells h a = Some (Obj (Clt c)) \<and> a \<noteq> NULL" if "a \<in> fst ` snd ` set T" for a
    using ok that by (auto simp: list_all_iff trig_ok_def)
  have d1: "dl_rep h1 (eptrig_head e) (node_of fst T)"
  proof (rule dl_rep_agree[OF d h1(2)], rule ccontr)
    assume "fst ` snd ` set T \<inter> ({NULL, eptrig_head e} \<union> nodes (node_of fst T)) \<noteq> {}"
    then obtain a where "a \<in> fst ` snd ` set T" "a = NULL \<or> a = eptrig_head e \<or> a \<in> nodes (node_of fst T)" by blast
    then show False using clt[of a] dl_rep_other[OF d, of a] by blast
  qed
  obtain T' n p' c where T: "T = T' @ [(n, p', c)]" using assms(2) by (metis rev_exhaust surj_pair)
  obtain h2 where h2: "dl_rm_last (eptrig_head e) h1 = Some (p', h2)"
    "same_except ({eptrig_head e, n} \<union> nodes (node_of fst T')) h1 h2" "cells h2 n = None"
    using dl_rm_last_spec[of h1 "eptrig_head e" "node_of fst T'" n p'] d1 T by auto
  have p': "p' \<in> fst ` snd ` set T" "cells h1 p' = None" using h1(3) T by auto
  then have "cells h2 p' = None"
    using same_except_eq[OF h2(2), of p'] dl_rep_other[OF d1, of p'] h2(3) T by auto
  then have "free p' h2 = None" using clt[OF p'(1)] by (simp add: free_def)
  then have "free_items dl_rm_last (eptrig_head e) h1 = None"
    using h2(1) clt[OF p'(1)] by (subst free_items.simps) simp
  then have "dl_free (eptrig_head e) h1 = None"
    using dl_repE(2,3)[OF d1] assms(2) by (simp add: dl_free_def get_dh_def)
  moreover have "get_entry h1 p = Some e"
    using same_except_eq[OF h1(2), of p] clt[of p] e by (cases "p \<in> fst ` snd ` set T") auto
  ultimately show ?thesis
    using e h1(1) dl_repE(3)[OF d] by (simp add: db_entry_destroy_def get_dh_def get_entry_def get_obj_def)
qed

subsection \<open>Creating\<close>

text \<open>A new entry and its empty list of triggers.\<close>

lemma new_entry:
  assumes "malloc (Obj (Entry zero_entry)) h = (p, h1)" "p \<noteq> NULL" "dl_create h1 = (q, h2)" "q \<noteq> NULL"
    "cells h NULL = None" "eptrig_head e = q"
  shows "upd_entry p (\<lambda>e0. f e0) h2 = Some (put p (Obj (Entry (f zero_entry))) h2)"
    "var_ok (put p (Obj (Entry e)) h2) (p, e, [])" "takes {} h (var_foot (p, e, [])) (put p (Obj (Entry e)) h2)"
proof -
  have 1: "cells h p = None" "cells h1 p = Some (Obj (Entry zero_entry))" "takes {} h {p} h1"
    using takes_malloc[OF assms(1)] assms(2) by auto
  have 2: "cells h1 q = None" "cells h2 q = Some (DlHead \<lparr>dh_length = 0, dh_pfirst = NULL, dh_plast = NULL\<rparr>)"
    "takes {} h1 {q} h2" using takes_malloc[OF assms(3)[unfolded dl_create_def]] assms(4) by auto
  have pq: "p \<noteq> q" and p2: "cells h2 p = Some (Obj (Entry zero_entry))"
    using 1 2 takes_frame[OF 2(3), of "{p}"] by auto
  have 3: "takes {p} h1 {p, q} h2" by (rule takes_mono[OF 2(3)]) auto
  have 4: "takes {p, q} h2 {p, q} (put p (Obj (Entry e)) h2)" by (rule takes_mono[OF takes_put[OF assms(2)]]) auto
  show "upd_entry p (\<lambda>e0. f e0) h2 = Some (put p (Obj (Entry (f zero_entry))) h2)"
    using p2 by (simp add: upd_entry_def get_entry_def get_obj_def)
  have t: "takes {} h {p, q} (put p (Obj (Entry e)) h2)"
    using takes_trans[OF takes_trans[OF 1(3) 3] 4] .
  then show "takes {} h (var_foot (p, e, [])) (put p (Obj (Entry e)) h2)"
    using assms(6) by (simp add: var_foot_def olist_foot_def insert_commute)
  have "dl_rep (put p (Obj (Entry e)) h2) q []"
    using takes_null[OF t assms(5)] 2(2) pq by (simp add: dl_rep_def)
  then show "var_ok (put p (Obj (Entry e)) h2) (p, e, [])"
    using assms(2,6) pq by (auto simp: var_ok_def olist_def olist_foot_def)
qed

text \<open>Undoing a creation gives all memory back.\<close>

lemma undo_entry:
  assumes "malloc (Obj (Entry zero_entry)) h = (p, h1)" "p \<noteq> NULL" "cells h2 = cells h1" "cells h NULL = None"
  shows "\<exists>h3. free p h2 = Some h3 \<and> takes {} h {} h3"
proof -
  have 1: "cells h1 p \<noteq> None" "takes {} h {p} h1" using takes_malloc[OF assms(1)] assms(2) by auto
  then obtain h3 where h3: "free p h2 = Some h3" using assms(2,3) by (auto simp: free_def)
  have t2: "takes {} h {p} h2" by (rule takes_trans[OF 1(2)]) (simp add: assms(3))
  show ?thesis using h3 takes_trans[OF t2 takes_free[OF h3 takes_null[OF t2 assms(4)]]] by blast
qed

lemma undo_inserted:
  assumes "var_ok h3 (p, e, [])" "takes {} h (var_foot (p, e, [])) h3" "cells h4 = cells h3" "cells h NULL = None"
  shows "\<exists>h5 h6. db_entry_destroy p h4 = Some h5 \<and> free p h5 = Some h6 \<and> takes {} h {} h6"
proof -
  have t4: "takes {} h (var_foot (p, e, [])) h4"
    by (rule takes_trans[OF assms(2) takes_same]) (auto simp: assms(3))
  have v4: "var_ok h4 (p, e, [])"
    by (rule vars.ok_frame[OF assms(1)]) (use assms(3) takes_null[OF t4 assms(4)] in auto)
  obtain h5 where h5: "db_entry_destroy p h4 = Some h5" "takes (var_foot (p, e, [])) h4 {p} h5" "cells h5 p = cells h4 p"
    using entry_destroy_clean[OF v4] by blast
  have t5: "takes {} h {p} h5" by (rule takes_trans[OF t4 h5(2)])
  obtain h6 where h6: "free p h5 = Some h6" using h5(3) v4 by (auto simp: free_def var_ok_def)
  then show ?thesis using h5(1) takes_trans[OF t5 takes_free[OF h6 takes_null[OF t5 assms(4)]]] by blast
qed

text \<open>Linking the new entry.\<close>

lemma link_entry:
  assumes "srv_rep h pdb pusr V U" "var_ok h3 (p, e, [])" "takes {} h (var_foot (p, e, [])) h3"
  shows "(\<exists>h4. dl_insert p pdb h3 = Some (False, h4) \<and> cells h4 = cells h3) \<or>
    (\<exists>h4 k. dl_insert p pdb h3 = Some (True, h4) \<and> srv_rep h4 pdb pusr ((k, p, e, []) # V) U)"
proof -
  have v3: "var_list h3 pdb V" and fr: "var_foot (p, e, []) \<inter> var_mem pdb V = {}"
    using srv_rep_take[OF assms(1,3)] by (auto simp: srv_rep_def)
  show ?thesis using vars.insert[OF v3 assms(2) fr]
  proof (elim disjE exE conjE, goal_cases)
    case (2 h4 k)
    have "k \<noteq> NULL" using 2(3) vars.alive[of h4 pdb "(k, p, e, []) # V" k] by (auto simp: olist_foot_def)
    then have t4: "takes (var_mem pdb V \<union> var_foot (p, e, [])) h3 (insert k (var_mem pdb V \<union> var_foot (p, e, []))) h4"
      by (rule vars.takes_added[OF v3 assms(2) 2(2) _ 2(4)])
    have t3: "takes (var_mem pdb V) h (var_mem pdb V \<union> var_foot (p, e, [])) h3"
      by (rule takes_mono[OF assms(3)]) auto
    have "srv_rep h4 pdb pusr ((k, p, e, []) # V) U"
      by (rule srv_vars_change[OF assms(1) takes_trans[OF t3 t4] 2(3)]) (auto simp: olist_foot_def)
    then show ?case using 2(1) by auto
  qed auto
qed

lemma create_refines:
  assumes "server_at h pdb pusr A"
  shows "\<exists>mem h'. (ample 3 h \<longrightarrow> mem) \<and>
    db_entry_create pdb var type size1 now h = Some (fst (srv_create mem var type size1 now A), h') \<and>
    server_at h' pdb pusr (snd (srv_create mem var type size1 now A))"
proof -
  obtain V U where r: "srv_rep h pdb pusr V U" "A = srv_abs V U" using assms by (auto simp: server_at_def)
  have hN: "cells h NULL = None" using r(1) vars.null by (auto simp: srv_rep_def)
  show ?thesis
  proof (cases "sizeof_db_entry < size1 \<or> find (is_var var type) (srv_vars A) \<noteq> None")
    case True
    then have "db_entry_create pdb var type size1 now h = Some (False, h)"
      using server_first[OF r(1), of var type] r(2)
      by (cases "sizeof_db_entry < size1") (auto simp: db_entry_create_def simp del: abs_var.simps)
    then show ?thesis using True assms by (intro exI[of _ True] exI[of _ h]) (simp add: srv_create_def)
  next
    case False
    then have new: "db_entry_find pdb var type h = Some NULL" "\<not> sizeof_db_entry < size1"
      using server_first[OF r(1), of var type] r(2) by (auto simp del: abs_var.simps)
    have refused: ?thesis if "\<not> ample 3 h" "db_entry_create pdb var type size1 now h = Some (False, h')" "takes {} h {} h'" for h'
      using that False server_take[OF assms that(3)] by (intro exI[of _ False] exI[of _ h']) (simp add: srv_create_def)
    obtain p h1 where m1: "malloc (Obj (Entry zero_entry)) h = (p, h1)" by fastforce
    obtain q h2 where m2: "dl_create h1 = (q, h2)" by fastforce
    have am: "ample 3 h \<Longrightarrow> p \<noteq> NULL \<and> ample 2 h1" "ample 2 h1 \<Longrightarrow> q \<noteq> NULL \<and> ample 1 h2"
      using malloc_ample[OF m1, of 2] malloc_ample[OF m2[unfolded dl_create_def], of 1]
      by (auto simp: numeral_eq_Suc)
    define e where "e = zero_entry\<lparr>eptrig_head := q,
       edata := (edata zero_entry)\<lparr>dcmd := DB_BAD_CMD, dvar := var, dtype := type, dtime := now\<rparr>, esize := size1\<rparr>"
    consider "p = NULL" | "p \<noteq> NULL" "q = NULL" | "p \<noteq> NULL" "q \<noteq> NULL" by blast
    then show ?thesis
    proof cases
      case 1
      then show ?thesis using am(1) new m1 takes_malloc[OF m1]
        by (intro refused[of h1]) (auto simp: db_entry_create_def)
    next
      case 2
      have "cells h2 = cells h1" using takes_malloc[OF m2[unfolded dl_create_def]] 2 by simp
      from undo_entry[OF m1 2(1) this hN] obtain h3 where h3: "free p h2 = Some h3" "takes {} h {} h3" by blast
      have "db_entry_create pdb var type size1 now h = Some (False, h3)"
        using 2 new m1 m2 h3(1) by (simp add: db_entry_create_def)
      moreover have "\<not> ample 3 h" using am 2 by blast
      ultimately show ?thesis using refused h3(2) by blast
    next
      case 3
      have eq: "eptrig_head e = q" by (simp add: e_def)
      let ?h3 = "put p (Obj (Entry e)) h2"
      note n = new_entry[OF m1 3(1) m2 3(2) hN eq]
      have run: "db_entry_create pdb var type size1 now h = do {
          (ok, h) \<leftarrow> dl_insert p pdb ?h3;
          if \<not> ok then do { h \<leftarrow> db_entry_destroy p h; h \<leftarrow> free p h; Some (False, h) } else Some (True, h) }"
        using new m1 m2 3 n(1) by (simp add: db_entry_create_def e_def)
      show ?thesis using link_entry[OF r(1) n(2,3)]
      proof (elim disjE exE conjE)
        fix h4 assume h4: "dl_insert p pdb ?h3 = Some (False, h4)" "cells h4 = cells ?h3"
        have "cells h2 p \<noteq> None" using n(1)[of id] by (auto simp: upd_entry_def)
        then have "\<not> ample 3 h" using dl_insert_ample[of p pdb ?h3 h4 0] h4(1) am by auto
        moreover obtain h5 h6 where h6: "db_entry_destroy p h4 = Some h5" "free p h5 = Some h6" "takes {} h {} h6"
          using undo_inserted[OF n(2,3) h4(2) hN] by blast
        moreover have "db_entry_create pdb var type size1 now h = Some (False, h6)"
          using run h4(1) h6(1,2) by simp
        ultimately show ?thesis using refused h6(3) by blast
      next
        fix h4 k assume h4: "dl_insert p pdb ?h3 = Some (True, h4)" "srv_rep h4 pdb pusr ((k, p, e, []) # V) U"
        have "srv_abs ((k, p, e, []) # V) U = snd (srv_create True var type size1 now A)"
          using False r(2) by (simp add: srv_create_def srv_abs_def new_var_def e_def zero_entry_def)
        then have "server_at h4 pdb pusr (snd (srv_create True var type size1 now A))"
          using server_atI[OF h4(2)] by metis
        then show ?thesis using run h4(1) False
          by (intro exI[of _ True] exI[of _ h4]) (simp add: srv_create_def)
      qed
    qed
  qed
qed

subsection \<open>Reading, updating, destroying\<close>

text \<open>\<open>serves pdb pusr r a\<close>: the code's result \<open>r\<close> is what the specification's \<open>a\<close> allows.\<close>

definition serves :: "ptr \<Rightarrow> ptr \<Rightarrow> (bool \<times> msg os \<times> dbobj heap) option \<Rightarrow> (bool \<times> msg os \<times> server) option \<Rightarrow> bool" where
  "serves pdb pusr r a \<longleftrightarrow> (case a of None \<Rightarrow> r = None
     | Some (st, s, A) \<Rightarrow> \<exists>h. r = Some (st, s, h) \<and> server_at h pdb pusr A)"

lemma entry_change:
  assumes "srv_rep h pdb pusr (A @ (n, p, e, T) # B) U" "eptrig_head (f e) = eptrig_head e"
  shows "upd_entry p f h = Some (put p (Obj (Entry (f e))) h)"
    "get_entry (put p (Obj (Entry (f e))) h) p = Some (f e)"
    "srv_rep (put p (Obj (Entry (f e))) h) pdb pusr (A @ (n, p, f e, T) # B) U"
    "var_ok (put p (Obj (Entry (f e))) h) (p, f e, T)"
proof -
  have ok: "var_ok h (p, e, T)" using assms(1) by (auto simp: srv_rep_def olist_def)
  note put = var_entry_put[OF ok assms(2)]
  show "upd_entry p f h = Some (put p (Obj (Entry (f e))) h)" by (rule upd_entry_var[OF ok])
  show "get_entry (put p (Obj (Entry (f e))) h) p = Some (f e)" by simp
  show "srv_rep (put p (Obj (Entry (f e))) h) pdb pusr (A @ (n, p, f e, T) # B) U"
    by (rule srv_var_change[OF assms(1) put(2,1)]) simp
  show "var_ok (put p (Obj (Entry (f e))) h) (p, f e, T)" by (rule put(1))
qed

lemma var_reply:
  assumes "srv_rep h pdb pusr (A @ (n, p, e, T) # B) U"
  shows "\<exists>ok h'. slv_var_reply c cmd p s h =
      Some (ok, snd (comm_sync_reply (Some c) (Reply ((edata e)\<lparr>dcmd := cmd\<rparr>)) s), h') \<and>
    server_at h' pdb pusr (srv_abs (A @ (n, p, e, T) # B) U)"
proof -
  let ?f = "\<lambda>e. e\<lparr>edata := (edata e)\<lparr>dcmd := cmd\<rparr>\<rparr> :: db_entry"
  have f: "eptrig_head (?f e) = eptrig_head e" by simp
  note ch = entry_change[OF assms, of ?f, OF f]
  obtain ok s' where "comm_sync_reply (Some c) (Reply ((edata e)\<lparr>dcmd := cmd\<rparr>)) s = (ok, s')" by fastforce
  moreover have eq: "srv_abs (A @ (n, p, ?f e, T) # B) U = srv_abs (A @ (n, p, e, T) # B) U"
    by (simp add: srv_abs_def)
  have "server_at (put p (Obj (Entry (?f e))) h) pdb pusr (srv_abs (A @ (n, p, e, T) # B) U)"
    using server_atI[OF ch(3)] unfolding eq .
  ultimately show ?thesis using ch(1)
    by (intro exI[of _ ok] exI[of _ "put p (Obj (Entry (?f e))) h"])
       (simp add: slv_var_reply_def get_entry_def get_obj_def)
qed

lemma entry_bad:
  assumes "srv_rep h pdb pusr V U"
  shows "V = [] \<Longrightarrow> db_entry_bad pdb h = None"
    "V = V' @ [(n, p, e, T)] \<Longrightarrow> db_entry_bad pdb h = Some p"
proof -
  have d: "dl_rep h pdb (node_of fst V)" using assms by (simp add: srv_rep_def olist_def)
  show "V = [] \<Longrightarrow> db_entry_bad pdb h = None" "V = V' @ [(n, p, e, T)] \<Longrightarrow> db_entry_bad pdb h = Some p"
    using dl_repE(1,3,4)[OF d] by (auto simp: db_entry_bad_def dl_acc)
qed

lemma read_refines:
  assumes "server_at h pdb pusr A" "dcmd m = DB_READ_CMD"
  shows "serves pdb pusr (slv_cmd pdb pusr c m now stk s h) (srv_step mem c m now stk s A)"
proof -
  obtain V U where r: "srv_rep h pdb pusr V U" "A = srv_abs V U" using assms by (auto simp: server_at_def)
  have cmd: "slv_cmd pdb pusr c m now stk s h = do {
      pfound \<leftarrow> db_entry_find pdb (dvar m) (dtype m) h;
      pentry \<leftarrow> (if pfound = NULL then db_entry_bad pdb h else Some pfound);
      (r, s, h) \<leftarrow> slv_var_reply c DB_READ_REPLY pentry s h;
      Some (pfound \<noteq> NULL, s, h) }" using assms(2) by (simp add: slv_cmd_def)
  have stp: "srv_step mem c m now stk s A = do {
       (status, d) \<leftarrow> srv_read (dvar m) (dtype m) A;
       Some (status, snd (comm_sync_reply (Some c) (Reply d) s), A) }"
    using assms(2) by (simp add: srv_step_def)
  show ?thesis using server_first[OF r(1), of "dvar m" "dtype m"]
  proof (elim disjE exE conjE)
    assume none: "find (is_var (dvar m) (dtype m)) (map abs_var V) = None"
      "db_entry_find pdb (dvar m) (dtype m) h = Some NULL"
    show ?thesis
    proof (cases V rule: rev_cases)
      case Nil
      then show ?thesis using none r entry_bad(1)[OF r(1)] cmd stp
        by (simp add: serves_def srv_read_def)
    next
      case (snoc V' v)
      obtain n p e T where v: "v = (n, p, e, T)" by (cases v)
      have V: "V = V' @ (n, p, e, T) # []" using snoc v by simp
      show ?thesis using none r var_reply[OF r(1)[unfolded V], of c DB_READ_REPLY s] cmd stp
          entry_bad(2)[OF r(1), of V' n p e T] V
        by (auto simp: serves_def srv_read_def)
    qed
  next
    fix A' n p e T B
    assume some: "V = A' @ (n, p, e, T) # B" "db_entry_find pdb (dvar m) (dtype m) h = Some p" "p \<noteq> NULL"
      "find (is_var (dvar m) (dtype m)) (map abs_var V) = Some (abs_var (n, p, e, T))"
    show ?thesis using some r var_reply[OF r(1)[unfolded some(1)], of c DB_READ_REPLY s] cmd stp
      by (auto simp: serves_def srv_read_def)
  qed
qed

lemma update_refines:
  assumes "server_at h pdb pusr A" "xp \<noteq> COMM_QNX6_XPORT"
  shows "serves pdb pusr (slv_update pdb m xp now s h) (srv_update m now s A)"
proof -
  obtain V U where r: "srv_rep h pdb pusr V U" "A = srv_abs V U" using assms by (auto simp: server_at_def)
  show ?thesis using server_first[OF r(1), of "dvar m" "dtype m"]
  proof (elim disjE exE conjE)
    assume none: "find (is_var (dvar m) (dtype m)) (map abs_var V) = None"
      "db_entry_find pdb (dvar m) (dtype m) h = Some NULL"
    then show ?thesis using r assms(1) by (simp add: serves_def srv_update_def slv_update_def)
  next
    fix A' n p e T B
    assume some: "V = A' @ (n, p, e, T) # B" "db_entry_find pdb (dvar m) (dtype m) h = Some p" "p \<noteq> NULL"
      "find (is_var (dvar m) (dtype m)) (map abs_var V) = Some (abs_var (n, p, e, T))"
      "\<forall>v\<in>set (map abs_var A'). \<not> is_var (dvar m) (dtype m) v"
      "is_var (dvar m) (dtype m) (abs_var (n, p, e, T))" "var_ok h (p, e, T)"
    show ?thesis
    proof (cases "copy_value (esize e) (dvalue m) (dvalue (edata e))")
      case None
      then show ?thesis using some r get_entry_var[OF some(7)]
        by (simp add: serves_def srv_update_def slv_update_def get_entry_def get_obj_def)
    next
      case (Some x)
      let ?f = "\<lambda>e. e\<lparr>edata := (edata e)\<lparr>dvalue := x, dtime := now\<rparr>\<rparr> :: db_entry"
      let ?h1 = "put p (Obj (Entry (?f e))) h" and ?ph = "eptrig_head e"
      let ?t = "\<lparr>tmsg_type = DB_TRIGGER, tkey = 0, tvar = dvar m, ttype = dtype m\<rparr>"
      have f: "eptrig_head (?f e) = ?ph" by simp
      note ch = entry_change[OF r(1)[unfolded some(1)], of ?f, OF f]
      have tl: "trig_list ?h1 ?ph ([] @ T)" using ch(4) by (simp add: var_ok_def)
      obtain h' T' s' where n: "notify ?t (map (\<lambda>m. snd (snd m)) T) s = (map (\<lambda>m. snd (snd m)) T', s')"
        "trig_loop ?t ?ph (dl_first_addr (node_of fst T) NULL) s ?h1 = Some (s', h')"
        "trig_list h' ?ph T'" "takes (trig_mem ?ph T) ?h1 (trig_mem ?ph T') h'"
        using trig_loop_notifies[OF tl, of ?t s] by auto
      have fr: "{p} \<inter> trig_mem ?ph T' = {} \<and> (\<forall>a \<in> {p}. cells h' a = cells ?h1 a)"
        by (rule takes_frame[OF n(4)]) (use some(7) in \<open>auto simp: var_ok_def\<close>)
      have ok': "var_ok h' (p, ?f e, T')" using fr n(3) some(3) by (simp add: var_ok_def)
      have "takes (var_foot (p, ?f e, T)) ?h1 (var_foot (p, ?f e, T')) h'"
        by (rule takes_mono[OF n(4)]) (auto simp: var_foot_def)
      from srv_var_change[OF ch(3) this ok'] have r': "srv_rep h' pdb pusr (A' @ (n, p, ?f e, T') # B) U" by simp
      have "srv_update m now s A = Some (True, s', srv_abs (A' @ (n, p, ?f e, T') # B) U)"
        using some r(2) Some n(1) first_split[OF some(5,6)] by (simp add: srv_update_def srv_abs_def)
      moreover have "get_dh ?h1 ?ph = Some \<lparr>dh_length = int (length T), dh_pfirst = dl_first_addr (node_of fst T) NULL,
          dh_plast = dl_last_addr NULL (node_of fst T)\<rparr>"
        using tl dl_repE(3)[of ?h1 ?ph "node_of fst T"] by (simp add: olist_def get_dh_def del: cells_put)
      ultimately show ?thesis
        using some(2,3) get_entry_var[OF some(7)] Some ch(1) n(2) assms(2) server_atI[OF r']
        by (simp add: serves_def slv_update_def get_entry_def get_obj_def)
    qed
  qed
qed

end
