(* ===== verification/DbUsers.thy ===== *)
theory DbUsers
  imports DbOps
begin

text \<open>
  Removing variables, logging in and out, and registering for triggers: the operations of
  db_slv.c that add and remove members of the server's lists.
\<close>

text \<open>A channel on a POSIX queue is found by its queue id.\<close>

abbreviation psx :: "comm_clt \<Rightarrow> bool" where "psx c \<equiv> xport c = COMM_PSX_XPORT"

lemma clt_cmp_psx: "psx k \<Longrightarrow> comm_clt_cmp False (Some k) (Some c) = 0 \<longleftrightarrow> c = k"
  by (cases k; cases c) (auto simp: comm_clt_cmp_def)

lemma dup_psx:
  assumes "psx c" "comm_clt_dup (Some c) s h = r"
  shows "\<exists>p h1. r = Some (p, s, h1) \<and> (p = NULL \<and> cells h1 = cells h \<and> \<not> ample (Suc k) h \<or>
    p \<noteq> NULL \<and> cells h p = None \<and> cells h1 p = Some (Obj (Clt c)) \<and> takes {} h {p} h1 \<and>
      (ample (Suc k) h \<longrightarrow> ample k h1))"
proof -
  obtain p h0 where m: "malloc (Obj (Clt \<lparr>xport = junk s, xport_info = int (junk s)\<rparr>)) h = (p, h0)" by fastforce
  note a = malloc_ample[OF m, of k]
  show ?thesis
  proof (cases "p = NULL")
    case True
    then show ?thesis using assms m a takes_malloc[OF m] by (auto simp: comm_clt_dup_def)
  next
    case False
    then have p: "cells h p = None" "takes {} h {p} h0" "cells h0 p \<noteq> None" using takes_malloc[OF m] by auto
    have c: "\<lparr>xport = COMM_PSX_XPORT, xport_info = xport_info c\<rparr> = c" using assms(1) by (cases c) simp
    have "takes {} h {p} (put p (Obj (Clt c)) h0)" by (rule takes_trans[OF p(2) takes_put[OF False]])
    then show ?thesis using assms m a False p c by (auto simp: comm_clt_dup_def)
  qed
qed

lemma undo_clt:
  assumes "cells h1 p = Some (Obj (Clt c))" "takes {} h {p} h1" "p \<noteq> NULL" "cells h2 = cells h1"
  shows "\<exists>ok h3. comm_done p h2 = Some (ok, h3) \<and> takes {} h {} h3"
proof -
  have "cells h2 p = Some (Obj (Clt c))" using assms(1,4) by simp
  from comm_done_clt[OF this assms(3)]
  have "comm_done p h2 = Some (xport c = COMM_TCP_XPORT, h2\<lparr>cells := (cells h2)(p := None)\<rparr>)" .
  moreover have "takes {} h {p} h2" by (rule takes_trans[OF assms(2)]) (simp add: assms(4))
  ultimately show ?thesis using takes_trans[OF _ takes_drop[OF assms(3)]] by blast
qed

subsection \<open>Destroying a variable\<close>

lemma destroy_refines:
  assumes "server_at h pdb pusr A"
  shows "case srv_destroy var type A of None \<Rightarrow> db_entry_rm pdb var type h = None
    | Some (st, A) \<Rightarrow> \<exists>h'. db_entry_rm pdb var type h = Some (st, h') \<and> server_at h' pdb pusr A"
proof -
  obtain V U where r: "srv_rep h pdb pusr V U" "A = srv_abs V U" using assms by (auto simp: server_at_def)
  show ?thesis using server_first[OF r(1), of var type]
  proof (elim disjE exE conjE)
    assume "find (is_var var type) (map abs_var V) = None" "dl_first db_entry_cmp pdb (var, type) h = Some NULL"
    then show ?thesis using r assms by (simp add: srv_destroy_def db_entry_rm_def)
  next
    fix A' n p e T B
    assume some: "V = A' @ (n, p, e, T) # B" "dl_first db_entry_cmp pdb (var, type) h = Some n" "n \<noteq> NULL"
      "find (is_var var type) (map abs_var V) = Some (abs_var (n, p, e, T))"
      "\<forall>v\<in>set (map abs_var A'). \<not> is_var var type v" "is_var var type (abs_var (n, p, e, T))"
    have vl: "var_list h pdb (A' @ (n, p, e, T) # B)" using r(1) some(1) by (simp add: srv_rep_def)
    obtain h1 where h1: "dl_rm_node pdb n h = Some (p, dl_last_addr NULL (node_of fst A'), h1)"
      "var_list h1 pdb (A' @ B)" "var_ok h1 (p, e, T)" "same_except (spine pdb (A' @ (n, p, e, T) # B)) h h1"
      using vars.remove[OF vl] by auto
    show ?thesis
    proof (cases "T = []")
      case False
      then show ?thesis using some r(2) h1(1) entry_destroy_faults[OF h1(3)]
        by (simp add: srv_destroy_def db_entry_rm_def)
    next
      case True
      obtain h2 where h2: "db_entry_destroy p h1 = Some h2" "takes (var_foot (p, e, T)) h1 {p} h2"
        using entry_destroy_clean h1(3) True by blast
      have dis: "var_mem pdb (A' @ B) \<inter> var_foot (p, e, T) = {}"
        using vl by (auto simp: olist_def olist_foot_def objs_foot_def)
      have v2: "var_list h2 pdb (A' @ B)" using vars.frame_takes[OF h1(2) h2(2) dis] by blast
      have "takes (var_mem pdb (A' @ B) \<union> var_foot (p, e, T)) h1 (var_mem pdb (A' @ B)) h2"
        by (rule takes_mono[OF h2(2)]) auto
      note t = takes_trans[OF vars.takes_removed[OF vl h1(4)] this]
      have "srv_rep h2 pdb pusr (A' @ B) U"
        by (rule srv_vars_change[OF r(1)[unfolded some(1)] t v2]) simp
      from server_atI[OF this] show ?thesis
        using some r(2) True h1(1) h2(1) first_split[OF some(5,6), of "map abs_var B" id]
        by (simp add: srv_destroy_def db_entry_rm_def srv_abs_def)
    qed
  qed
qed

subsection \<open>Users\<close>

lemma link_user:
  assumes "srv_rep h pdb pusr V U" "usr_ok h2 (q, u, c)" "takes {} h (usr_foot (q, u, c)) h2"
  shows "(\<exists>h3. dl_append q pusr h2 = Some (False, h3) \<and> cells h3 = cells h2) \<or>
    (\<exists>h3 k. dl_append q pusr h2 = Some (True, h3) \<and> srv_rep h3 pdb pusr V (U @ [(k, q, u, c)]))"
proof -
  have u2: "usr_list h2 pusr U" and fr: "usr_foot (q, u, c) \<inter> usr_mem pusr U = {}"
    using srv_rep_take[OF assms(1,3)] by (auto simp: srv_rep_def)
  show ?thesis using usrs.append[OF u2 assms(2) fr]
  proof (elim disjE exE conjE, goal_cases)
    case (2 h3 k)
    have "k \<noteq> NULL" using 2(3) usrs.alive[of h3 pusr "U @ [(k, q, u, c)]" k] by (auto simp: olist_foot_def)
    then have t3: "takes (usr_mem pusr U \<union> usr_foot (q, u, c)) h2 (insert k (usr_mem pusr U \<union> usr_foot (q, u, c))) h3"
      by (rule usrs.takes_added[OF u2 assms(2) 2(2) _ 2(4)])
    have "takes (usr_mem pusr U) h (usr_mem pusr U \<union> usr_foot (q, u, c)) h2"
      by (rule takes_mono[OF assms(3)]) auto
    note t = takes_trans[OF this t3]
    have "srv_rep h3 pdb pusr V (U @ [(k, q, u, c)])"
      by (rule srv_users_change[OF assms(1) t 2(3)]) (auto simp: olist_foot_def)
    then show ?case using 2(1) by auto
  qed auto
qed

lemma login_refines:
  assumes "server_at h pdb pusr A" "psx c"
  shows "\<exists>mem h'. (ample 3 h \<longrightarrow> mem) \<and>
    slv_clt_add pusr c login now s h = Some (fst (srv_login mem c login now A), s, h') \<and>
    server_at h' pdb pusr (snd (srv_login mem c login now A))"
proof -
  obtain V U where r: "srv_rep h pdb pusr V U" "A = srv_abs V U" using assms by (auto simp: server_at_def)
  have refused: ?thesis if "\<not> ample 3 h" "slv_clt_add pusr c login now s h = Some (False, s, h')" "takes {} h {} h'" for h'
    using that server_take[OF assms(1) that(3)] by (intro exI[of _ False] exI[of _ h']) (simp add: srv_login_def)
  obtain p h1 where dup: "comm_clt_dup (Some c) s h = Some (p, s, h1)" "p = NULL \<and> cells h1 = cells h \<and> \<not> ample (Suc 2) h \<or>
    p \<noteq> NULL \<and> cells h p = None \<and> cells h1 p = Some (Obj (Clt c)) \<and> takes {} h {p} h1 \<and> (ample (Suc 2) h \<longrightarrow> ample 2 h1)"
    using dup_psx[OF assms(2) refl, of s h 2] by auto
  show ?thesis
  proof (cases "p = NULL")
    case True
    then show ?thesis using dup by (intro refused[of h1]) (auto simp: slv_clt_add_def numeral_eq_Suc)
  next
    case False
    then have d: "cells h p = None" "cells h1 p = Some (Obj (Clt c))" "takes {} h {p} h1" "ample 3 h \<Longrightarrow> ample 2 h1"
      using dup(2) by (auto simp: numeral_eq_Suc)
    define u where "u = \<lparr>sc_client = take sizeof_db_login login, sc_login_time = now, sc_pclt = p\<rparr>"
    obtain q h2 where m: "malloc (Obj (Usr u)) h1 = (q, h2)" by fastforce
    have run: "slv_clt_add pusr c login now s h = do {
        (ok, h) \<leftarrow> (if q = NULL then Some (False, h2) else do {
          (st, h) \<leftarrow> dl_append q pusr h2;
          if \<not> st then do { h \<leftarrow> free q h; Some (st, h) } else Some (st, h) });
        if \<not> ok then do { (ok, h) \<leftarrow> comm_done p h; Some (False, s, h) } else Some (True, s, h) }"
      using dup(1) False m by (simp add: slv_clt_add_def dl_add_dup_def u_def)
    show ?thesis
    proof (cases "q = NULL")
      case True
      then have "cells h2 = cells h1" "\<not> ample 3 h"
        using takes_malloc[OF m] malloc_ample[OF m, of 1] d(4) by (auto simp: numeral_eq_Suc)
      then show ?thesis using undo_clt[OF d(2,3) False] run True refused by fastforce
    next
      case q: False
      have 2: "cells h1 q = None" "cells h2 q = Some (Obj (Usr u))" "takes {} h1 {q} h2" using takes_malloc[OF m] q by auto
      have pq: "p \<noteq> q" "cells h2 p = Some (Obj (Clt c))" using 2 d(2) takes_frame[OF 2(3), of "{p}"] by auto
      have "takes {p} h1 {p, q} h2" by (rule takes_mono[OF 2(3)]) auto
      note t2 = takes_trans[OF d(3) this]
      have ok2: "usr_ok h2 (q, u, c)" using q 2 False pq by (simp add: usr_ok_def u_def)
      have ft: "usr_foot (q, u, c) = {p, q}" by (auto simp: usr_foot_def u_def)
      from link_user[OF r(1) ok2 t2[folded ft]] show ?thesis
      proof (elim disjE exE conjE)
        fix h3 assume h3: "dl_append q pusr h2 = Some (False, h3)" "cells h3 = cells h2"
        have na: "\<not> ample 3 h" using dl_append_ample[of q pusr h2 h3 0] h3(1) malloc_ample[OF m, of 1] d(4)
          by (auto simp: numeral_eq_Suc)
        let ?h4 = "h3\<lparr>cells := (cells h3)(q := None)\<rparr>"
        have "cells ?h4 p = Some (Obj (Clt c))" "takes {p, q} h2 {p} ?h4"
          using pq h3(2) q by (simp_all add: takes_def)
        with undo_clt[OF _ takes_trans[OF t2] False refl] obtain ok h5 where
          h5: "comm_done p ?h4 = Some (ok, h5)" "takes {} h {} h5" by blast
        have "free q h3 = Some ?h4" using q h3(2) 2(2) by (simp add: free_def)
        then have "slv_clt_add pusr c login now s h = Some (False, s, h5)" using run q h3(1) h5(1) by simp
        then show ?thesis using refused[OF na _ h5(2)] by blast
      next
        fix h3 k assume h3: "dl_append q pusr h2 = Some (True, h3)" "srv_rep h3 pdb pusr V (U @ [(k, q, u, c)])"
        from server_atI[OF h3(2)] show ?thesis using run q h3(1) r(2)
          by (intro exI[of _ True] exI[of _ h3]) (simp add: srv_login_def srv_abs_def u_def)
      qed
    qed
  qed
qed

lemma logout_refines:
  assumes "server_at h pdb pusr A" "psx c"
  shows "\<exists>h'. slv_clt_rm pusr c h = Some (False, h') \<and> server_at h' pdb pusr (srv_logout c A)"
proof -
  obtain V U where r: "srv_rep h pdb pusr V U" "A = srv_abs V U" using assms by (auto simp: server_at_def)
  have ul: "usr_list h pusr U" using r(1) by (simp add: srv_rep_def)
  define f where "f = (\<lambda>(q :: ptr, u :: slv_clt, k). comm_clt_cmp False (Some c) (Some k))"
  have cmp: "\<forall>v \<in> snd ` set U. slv_clt_cmp h c (fst v) = Some (f v)"
  proof
    fix v assume v: "v \<in> snd ` set U"
    then have "usr_ok h v" using ul by (auto simp: olist_def list_all_iff)
    then show "slv_clt_cmp h c (fst v) = Some (f v)"
      by (cases v) (simp add: slv_clt_cmp_def clt_item_cmp_def f_def usr_ok_def get_usr_def get_clt_def get_obj_def)
  qed
  have f: "f (snd m) = 0 \<longleftrightarrow> au_clt (abs_usr m) = c" for m
    using clt_cmp_psx[OF assms(2)] by (cases m) (auto simp: f_def)
  show ?thesis using usrs.first[where cmp = slv_clt_cmp and f = f, OF ul cmp]
  proof (elim disjE exE conjE)
    assume none: "\<forall>v\<in>snd ` set U. f v \<noteq> 0" "dl_first slv_clt_cmp pusr c h = Some NULL"
    have "rm_first (\<lambda>u. au_clt u = c) (map abs_usr U) = map abs_usr U"
      using none(1) f by (induction U) auto
    then show ?thesis using none r assms(1) by (simp add: slv_clt_rm_def srv_logout_def srv_abs_def)
  next
    fix A' n v B assume some: "U = A' @ (n, v) # B" "\<forall>w\<in>snd ` set A'. f w \<noteq> 0" "f v = 0"
      "dl_first slv_clt_cmp pusr c h = Some n" "n \<noteq> NULL"
    obtain q u k where v: "v = (q, u, k)" by (cases v)
    have ul': "usr_list h pusr (A' @ (n, q, u, k) # B)" using ul some(1) v by simp
    obtain h1 where h1: "dl_rm_node pusr n h = Some (q, dl_last_addr NULL (node_of fst A'), h1)"
      "usr_list h1 pusr (A' @ B)" "usr_ok h1 (q, u, k)" "same_except (spine pusr (A' @ (n, q, u, k) # B)) h h1"
      using usrs.remove[OF ul'] by auto
    have k: "k = c" using f[of "(n, v)"] some(3) v by simp
    let ?h2 = "h1\<lparr>cells := (cells h1)(sc_pclt u := None)\<rparr>"
    have cl: "cells h1 (sc_pclt u) = Some (Obj (Clt k))" "sc_pclt u \<noteq> NULL" "get_usr h1 q = Some u"
      using h1(3) by (auto simp: usr_ok_def)
    have "comm_done (sc_pclt u) h1 = Some (False, ?h2)"
      using comm_done_clt[OF cl(1,2)] assms(2) k by simp
    then have run: "slv_clt_rm pusr c h = Some (False, ?h2)"
      using some(4,5) h1(1) h1(3) by (simp add: slv_clt_rm_def usr_ok_def get_usr_def get_obj_def)
    have dis: "usr_mem pusr (A' @ B) \<inter> {sc_pclt u} = {}"
      using ul' by (auto simp: olist_def olist_foot_def objs_foot_def usr_foot_def)
    have u2: "usr_list ?h2 pusr (A' @ B)" using usrs.frame_takes[OF h1(2) takes_drop[OF cl(2)] dis] by blast
    have "takes (usr_mem pusr (A' @ B) \<union> usr_foot (q, u, k)) h1 (usr_mem pusr (A' @ B)) ?h2"
      by (rule takes_mono[OF takes_drop[OF cl(2)]]) (auto simp: usr_foot_def)
    note t = takes_trans[OF usrs.takes_removed[OF ul' h1(4)] this]
    have "srv_rep ?h2 pdb pusr V (A' @ B)"
      by (rule srv_users_change[OF r(1) _ u2]) (use t some(1) v in auto)
    from server_atI[OF this] have "server_at ?h2 pdb pusr (srv_abs V (A' @ B))" .
    moreover have "rm_first (\<lambda>u. au_clt u = c) (map abs_usr U) = map abs_usr (A' @ B)"
      using first_split[of "map abs_usr A'" "\<lambda>u. au_clt u = c" "abs_usr (n, v)" "map abs_usr B" id]
        some(1-3) f[of "(n, v)"] f by force
    ultimately show ?thesis using run r(2) by (simp add: srv_logout_def srv_abs_def)
  qed
qed

end
