(* ===== verification/DbTrig.thy ===== *)
theory DbTrig
  imports DbUsers
begin

text \<open>Registering for and giving up the triggers of a variable.\<close>

lemma trig_first:
  assumes "trig_list h ph T" "psx c"
  shows "c \<notin> (\<lambda>m. snd (snd m)) ` set T \<and> dl_first clt_item_cmp ph c h = Some NULL \<or>
    (\<exists>A n p B. T = A @ (n, p, c) # B \<and> c \<notin> (\<lambda>m. snd (snd m)) ` set A \<and>
       dl_first clt_item_cmp ph c h = Some n \<and> n \<noteq> NULL)"
proof -
  define f where "f = (\<lambda>v :: trig_obj. comm_clt_cmp False (Some c) (Some (snd v)))"
  have cmp: "\<forall>v \<in> snd ` set T. clt_item_cmp h c (fst v) = Some (f v)"
  proof
    fix v assume "v \<in> snd ` set T"
    then have "trig_ok h v" using assms(1) by (auto simp: olist_def list_all_iff)
    then show "clt_item_cmp h c (fst v) = Some (f v)"
      by (simp add: clt_item_cmp_def f_def trig_ok_def get_clt_def get_obj_def)
  qed
  have f: "f v = 0 \<longleftrightarrow> snd v = c" for v using clt_cmp_psx[OF assms(2)] by (simp add: f_def)
  show ?thesis using trigs.first[where cmp = clt_item_cmp and f = f, OF assms(1) cmp]
  proof (elim disjE exE conjE)
    fix A n v B assume a: "T = A @ (n, v) # B" "\<forall>w\<in>snd ` set A. f w \<noteq> 0" "f v = 0"
      "dl_first clt_item_cmp ph c h = Some n" "n \<noteq> 0"
    then have "v = (fst v, c)" using f by (cases v) auto
    then show ?thesis using a f by (intro disjI2 exI[of _ A] exI[of _ n] exI[of _ "fst v"] exI[of _ B]) auto
  qed (use f in auto)
qed

text \<open>Changing the list of triggers of the variable found.\<close>

lemma triggers_change:
  assumes "srv_rep h pdb pusr (A @ (n, p, e, T) # B) U" "trig_list h' (eptrig_head e) T'"
    "takes (trig_mem (eptrig_head e) T) h (trig_mem (eptrig_head e) T') h'"
  shows "srv_rep h' pdb pusr (A @ (n, p, e, T') # B) U"
proof -
  have ok: "var_ok h (p, e, T)" using assms(1) by (auto simp: srv_rep_def olist_def)
  have fr: "{p} \<inter> trig_mem (eptrig_head e) T' = {} \<and> (\<forall>a \<in> {p}. cells h' a = cells h a)"
    by (rule takes_frame[OF assms(3)]) (use ok in \<open>auto simp: var_ok_def\<close>)
  have ok': "var_ok h' (p, e, T')" using fr ok assms(2) by (simp add: var_ok_def)
  have "takes (var_foot (p, e, T)) h (var_foot (p, e, T')) h'"
    by (rule takes_mono[OF assms(3)]) (auto simp: var_foot_def)
  from srv_var_change[OF assms(1) this ok'] show ?thesis by simp
qed

lemma trig_unset_refines:
  assumes "server_at h pdb pusr A" "psx c"
  shows "\<exists>h'. slv_trig_unset pdb c m h = Some (False, h') \<and>
    server_at h' pdb pusr (srv_trig_unset c (dvar m) (dtype m) A)"
proof -
  obtain V U where r: "srv_rep h pdb pusr V U" "A = srv_abs V U" using assms by (auto simp: server_at_def)
  let ?P = "is_var (dvar m) (dtype m)" and ?drop = "\<lambda>v. v\<lparr>av_trigs := rm_first ((=) c) (av_trigs v)\<rparr>"
  show ?thesis using server_first[OF r(1), of "dvar m" "dtype m"]
  proof (elim disjE exE conjE)
    assume none: "\<forall>v\<in>set V. \<not> ?P (abs_var v)" "db_entry_find pdb (dvar m) (dtype m) h = Some NULL"
    have "upd_first ?P ?drop (map abs_var V) = map abs_var V"
      using none(1) by (induction V) auto
    then show ?thesis using none(2) r assms(1) by (simp add: slv_trig_unset_def srv_trig_unset_def srv_abs_def)
  next
    fix A' n p e T B
    assume some: "V = A' @ (n, p, e, T) # B" "db_entry_find pdb (dvar m) (dtype m) h = Some p" "p \<noteq> NULL"
      "\<forall>v\<in>set (map abs_var A'). \<not> ?P v" "?P (abs_var (n, p, e, T))" "var_ok h (p, e, T)"
    have tl: "trig_list h (eptrig_head e) T" using some(6) by (simp add: var_ok_def)
    have upd: "srv_trig_unset c (dvar m) (dtype m) A =
        srv_abs (A' @ (n, p, e, T') # B) U" if "map (\<lambda>m. snd (snd m)) T' = rm_first ((=) c) (map (\<lambda>m. snd (snd m)) T)" for T'
      using that some(1) r(2) first_split[OF some(4,5), of "map abs_var B" ?drop]
      by (simp add: srv_trig_unset_def srv_abs_def)
    have entry: "get_entry h p = Some e" using some(6) by (rule get_entry_var)
    show ?thesis using trig_first[OF tl assms(2)]
    proof (elim disjE exE conjE)
      assume nc: "c \<notin> (\<lambda>m. snd (snd m)) ` set T" "dl_first clt_item_cmp (eptrig_head e) c h = Some NULL"
      have "map (\<lambda>m. snd (snd m)) T = rm_first ((=) c) (map (\<lambda>m. snd (snd m)) T)"
        using nc(1) by (induction T) auto
      from upd[OF this] have "srv_trig_unset c (dvar m) (dtype m) A = A" using some(1) r(2) by simp
      then show ?thesis using some(2,3) entry nc(2) assms
        by (simp add: slv_trig_unset_def get_entry_def get_obj_def)
    next
      fix D k q R assume c: "T = D @ (k, q, c) # R" "c \<notin> (\<lambda>m. snd (snd m)) ` set D"
        "dl_first clt_item_cmp (eptrig_head e) c h = Some k" "k \<noteq> NULL"
      obtain h1 h2 where h2: "dl_rm_node (eptrig_head e) k h = Some (q, dl_last_addr NULL (node_of fst D), h1)"
        "comm_done q h1 = Some (xport c = COMM_TCP_XPORT, h2)" "trig_list h2 (eptrig_head e) (D @ R)"
        "takes (trig_mem (eptrig_head e) T) h (trig_mem (eptrig_head e) (D @ R)) h2"
        using trig_drop[OF tl[unfolded c(1)]] c(1) by blast
      have r2: "srv_rep h2 pdb pusr (A' @ (n, p, e, D @ R) # B) U"
        by (rule triggers_change[OF r(1)[unfolded some(1)] h2(3,4)])
      have "rm_first ((=) c) (map (\<lambda>m. snd (snd m)) T) = map (\<lambda>m. snd (snd m)) (D @ R)"
        using first_split[of "map (\<lambda>m. snd (snd m)) D" "(=) c" c "map (\<lambda>m. snd (snd m)) R" id] c(1,2) by force
      with upd server_atI[OF r2] have "server_at h2 pdb pusr (srv_trig_unset c (dvar m) (dtype m) A)" by metis
      moreover have "q \<noteq> NULL" using trig_node(4)[OF tl[unfolded c(1)]] .
      ultimately show ?thesis using some(2,3) entry c(3,4) h2(1,2) assms(2)
        by (simp add: slv_trig_unset_def get_entry_def get_obj_def)
    qed
  qed
qed

text \<open>Appending a new client to the triggers.\<close>

lemma link_trig:
  assumes "trig_list h ph T" "trig_ok h1 (p, c)" "takes {} h {p} h1"
  shows "(\<exists>h2. dl_append p ph h1 = Some (False, h2) \<and> cells h2 = cells h1) \<or>
    (\<exists>h2 k. dl_append p ph h1 = Some (True, h2) \<and> trig_list h2 ph (T @ [(k, p, c)]) \<and>
       takes (trig_mem ph T) h (trig_mem ph (T @ [(k, p, c)])) h2)"
proof -
  have t1: "trig_list h1 ph T" and fr: "trig_foot (p, c) \<inter> trig_mem ph T = {}"
    using trigs.frame_takes[OF assms(1,3)] by (auto simp: trig_foot_def)
  show ?thesis using trigs.append[OF t1 assms(2) fr]
  proof (elim disjE exE conjE, goal_cases)
    case (2 h2 k)
    have "k \<noteq> NULL" using 2(3) trigs.alive[of h2 ph "T @ [(k, p, c)]" k] by (auto simp: olist_foot_def)
    then have t2: "takes (trig_mem ph T \<union> trig_foot (p, c)) h1 (insert k (trig_mem ph T \<union> trig_foot (p, c))) h2"
      by (rule trigs.takes_added[OF t1 assms(2) 2(2) _ 2(4)])
    have "takes (trig_mem ph T) h (trig_mem ph T \<union> trig_foot (p, c)) h1"
      by (rule takes_mono[OF assms(3)]) (auto simp: trig_foot_def)
    from takes_trans[OF this t2] have "takes (trig_mem ph T) h (trig_mem ph (T @ [(k, p, c)])) h2"
      by (rule takes_mono) (auto simp: olist_foot_def)
    then show ?case using 2(1,3) by auto
  qed auto
qed

lemma trig_set_refines:
  assumes "server_at h pdb pusr A" "psx c"
  shows "\<exists>mem h'. (ample 3 h \<longrightarrow> mem) \<and>
    slv_trig_set pdb c m s h = Some (fst (srv_trig_set mem c (dvar m) (dtype m) A), s, h') \<and>
    server_at h' pdb pusr (snd (srv_trig_set mem c (dvar m) (dtype m) A))"
proof -
  obtain V U where r: "srv_rep h pdb pusr V U" "A = srv_abs V U" using assms by (auto simp: server_at_def)
  let ?P = "is_var (dvar m) (dtype m)" and ?add = "\<lambda>v. v\<lparr>av_trigs := av_trigs v @ [c]\<rparr>"
  show ?thesis using server_first[OF r(1), of "dvar m" "dtype m"]
  proof (elim disjE exE conjE)
    assume "find ?P (map abs_var V) = None" "db_entry_find pdb (dvar m) (dtype m) h = Some NULL"
    then show ?thesis using r assms(1)
      by (intro exI[of _ True] exI[of _ h]) (simp add: slv_trig_set_def srv_trig_set_def)
  next
    fix A' n p e T B
    assume some: "V = A' @ (n, p, e, T) # B" "db_entry_find pdb (dvar m) (dtype m) h = Some p" "p \<noteq> NULL"
      "find ?P (map abs_var V) = Some (abs_var (n, p, e, T))"
      "\<forall>v\<in>set (map abs_var A'). \<not> ?P v" "?P (abs_var (n, p, e, T))" "var_ok h (p, e, T)"
    have tl: "trig_list h (eptrig_head e) T" using some(7) by (simp add: var_ok_def)
    have entry: "get_entry h p = Some e" using some(7) by (rule get_entry_var)
    have spec: "srv_trig_set mem c (dvar m) (dtype m) A =
        (if c \<in> (\<lambda>m. snd (snd m)) ` set T \<or> \<not> mem then (False, A)
         else (True, A\<lparr>srv_vars := upd_first ?P ?add (map abs_var V)\<rparr>))" for mem
      using some(4) r(2) by (simp add: srv_trig_set_def)
    show ?thesis using trig_first[OF tl assms(2)]
    proof (elim disjE exE conjE)
      fix D k q R assume "T = D @ (k, q, c) # R" "dl_first clt_item_cmp (eptrig_head e) c h = Some k" "k \<noteq> NULL"
      then show ?thesis using some(2,3) entry assms spec[of True]
        by (intro exI[of _ True] exI[of _ h]) (simp add: slv_trig_set_def get_entry_def get_obj_def)
    next
      assume nc: "c \<notin> (\<lambda>m. snd (snd m)) ` set T" "dl_first clt_item_cmp (eptrig_head e) c h = Some NULL"
      obtain q h1 where dup: "comm_clt_dup (Some c) s h = Some (q, s, h1)" "q = NULL \<and> cells h1 = cells h \<and> \<not> ample (Suc 2) h \<or>
        q \<noteq> NULL \<and> cells h q = None \<and> cells h1 q = Some (Obj (Clt c)) \<and> takes {} h {q} h1 \<and> (ample (Suc 2) h \<longrightarrow> ample 2 h1)"
        using dup_psx[OF assms(2) refl, of s h 2] by auto
      have run: "slv_trig_set pdb c m s h = (if q = NULL then Some (False, s, h1) else do {
          (ok, h) \<leftarrow> dl_append q (eptrig_head e) h1;
          if \<not> ok then do { (ok, h) \<leftarrow> comm_done q h; Some (False, s, h) } else Some (True, s, h) })"
        using some(2,3) entry assms(2) nc(2) dup(1) by (simp add: slv_trig_set_def get_entry_def get_obj_def)
      have refused: ?thesis if "\<not> ample 3 h" "slv_trig_set pdb c m s h = Some (False, s, h')" "takes {} h {} h'" for h'
        using that server_take[OF assms(1) that(3)] spec[of False] by (intro exI[of _ False] exI[of _ h']) simp
      show ?thesis
      proof (cases "q = NULL")
        case True
        then show ?thesis using dup(2) run by (intro refused[of h1]) (auto simp: numeral_eq_Suc)
      next
        case False
        then have q: "trig_ok h1 (q, c)" "cells h1 q = Some (Obj (Clt c))" "takes {} h {q} h1" "ample 3 h \<Longrightarrow> ample 2 h1"
          using dup(2) by (auto simp: trig_ok_def numeral_eq_Suc)
        show ?thesis using link_trig[OF tl q(1,3)]
        proof (elim disjE exE conjE)
          fix h2 assume h2: "dl_append q (eptrig_head e) h1 = Some (False, h2)" "cells h2 = cells h1"
          have na: "\<not> ample 3 h" using dl_append_ample[OF h2(1), of 1] q(4) by (auto simp: numeral_eq_Suc)
          obtain ok h3 where h3: "comm_done q h2 = Some (ok, h3)" "takes {} h {} h3"
            using undo_clt[OF q(2,3) False h2(2)] by blast
          show ?thesis by (rule refused[OF na _ h3(2)]) (use run False h2(1) h3(1) in simp)
        next
          fix h2 k assume h2: "dl_append q (eptrig_head e) h1 = Some (True, h2)"
            "trig_list h2 (eptrig_head e) (T @ [(k, q, c)])"
            "takes (trig_mem (eptrig_head e) T) h (trig_mem (eptrig_head e) (T @ [(k, q, c)])) h2"
          have r2: "srv_rep h2 pdb pusr (A' @ (n, p, e, T @ [(k, q, c)]) # B) U"
            by (rule triggers_change[OF r(1)[unfolded some(1)] h2(2,3)])
          have "srv_abs (A' @ (n, p, e, T @ [(k, q, c)]) # B) U = snd (srv_trig_set True c (dvar m) (dtype m) A)"
            using spec[of True] nc(1) some(1) r(2) first_split[OF some(5,6), of "map abs_var B" ?add]
            by (simp add: srv_abs_def)
          with server_atI[OF r2] have "server_at h2 pdb pusr (snd (srv_trig_set True c (dvar m) (dtype m) A))" by metis
          then show ?thesis using run False h2(1) spec[of True] nc(1)
            by (intro exI[of _ True] exI[of _ h2]) simp
        qed
      qed
    qed
  qed
qed

text \<open>One request.\<close>

theorem request_refines:
  assumes "server_at h pdb pusr A" "psx c"
  shows "\<exists>mem. (ample 3 h \<longrightarrow> mem) \<and>
    serves pdb pusr (slv_cmd pdb pusr c m now stk s h) (srv_step mem c m now stk s A)"
proof -
  have xp: "xport c \<noteq> COMM_QNX6_XPORT" using assms(2) by simp
  note d = serves_def srv_step_def slv_cmd_def case_prod_beta
  consider "dcmd m = DB_CREATE_CMD" | "dcmd m = DB_READ_CMD" | "dcmd m = DB_UPDATE_CMD" | "dcmd m = DB_DESTROY_CMD"
    | "dcmd m = DB_LOGIN_CMD" | "dcmd m = DB_LOGOUT_CMD" | "dcmd m = DB_TRIG_SET_CMD" | "dcmd m = DB_TRIG_UNSET_CMD"
    | "dcmd m \<notin> {DB_CREATE_CMD, DB_READ_CMD, DB_UPDATE_CMD, DB_DESTROY_CMD, DB_LOGIN_CMD, DB_LOGOUT_CMD,
        DB_TRIG_SET_CMD, DB_TRIG_UNSET_CMD}" by blast
  then show ?thesis
  proof cases
    case 1
    obtain mem h' where "ample 3 h \<longrightarrow> mem" and
      "db_entry_create pdb (dvar m) (dtype m) (unat (db_long (dvalue m))) now h =
        Some (fst (srv_create mem (dvar m) (dtype m) (unat (db_long (dvalue m))) now A), h')"
      "server_at h' pdb pusr (snd (srv_create mem (dvar m) (dtype m) (unat (db_long (dvalue m))) now A))"
      using create_refines[OF assms(1)] by blast
    then show ?thesis using 1 by (intro exI[of _ mem]) (simp add: d)
  next
    case 2
    then show ?thesis using read_refines[OF assms(1)] by (intro exI[of _ True]) simp
  next
    case 3
    then show ?thesis using update_refines[OF assms(1) xp, of m now s]
      by (cases "srv_update m now s A") (auto simp: d)
  next
    case 4
    then show ?thesis using destroy_refines[OF assms(1), of "dvar m" "dtype m"]
      by (cases "srv_destroy (dvar m) (dtype m) A") (auto simp: d)
  next
    case 5
    obtain mem h' where "ample 3 h \<longrightarrow> mem" and
      "slv_clt_add pusr c (dvalue m) now s h = Some (fst (srv_login mem c (dvalue m) now A), s, h')"
      "server_at h' pdb pusr (snd (srv_login mem c (dvalue m) now A))"
      using login_refines[OF assms] by blast
    then show ?thesis using 5 by (intro exI[of _ mem]) (simp add: d)
  next
    case 6
    then show ?thesis using logout_refines[OF assms] by (auto simp: d)
  next
    case 7
    obtain mem h' where "ample 3 h \<longrightarrow> mem" and
      "slv_trig_set pdb c m s h = Some (fst (srv_trig_set mem c (dvar m) (dtype m) A), s, h')"
      "server_at h' pdb pusr (snd (srv_trig_set mem c (dvar m) (dtype m) A))"
      using trig_set_refines[OF assms] by blast
    then show ?thesis using 7 by (intro exI[of _ mem]) (simp add: d)
  next
    case 8
    then show ?thesis using trig_unset_refines[OF assms, of m] by (auto simp: d)
  next
    case 9
    then show ?thesis using assms(1) by (intro exI[of _ True]) (simp add: d)
  qed
qed

end
