(* ===== verification/DbServer.thy ===== *)
theory DbServer
  imports DbTrig
begin

text \<open>
  The main program of the data server (db_slv.c, \<open>main\<close>): creating the data base, the channel and
  the list of users, serving requests until the channel fails, and cleaning up.  A request is the
  client's channel, the message, the time and what the reply buffer holds.
\<close>

type_synonym request = "comm_clt \<times> db_data \<times> int \<times> db_data"

definition slv_done :: "ptr \<Rightarrow> ptr \<Rightarrow> ptr \<Rightarrow> dbobj heap \<Rightarrow> dbobj heap option" where
  "slv_done pdb pusr psvc_clt h = do {
     c \<leftarrow> get_clt h psvc_clt;
     h \<leftarrow> (if pusr \<noteq> NULL then dl_free pusr h else Some h);
     h \<leftarrow> (if psvc_clt \<noteq> NULL then do { (ok, h) \<leftarrow> comm_done psvc_clt h; Some h } else Some h);
     (if pdb \<noteq> NULL then do { (ok, h) \<leftarrow> slv_db_destroy pdb h; Some h } else Some h)
   }"

text \<open>The outcome of the start: the three objects, or \<open>None\<close> when the program gives up.\<close>

definition slv_start :: "nat \<Rightarrow> int \<Rightarrow> int \<Rightarrow> msg os \<Rightarrow> dbobj heap \<Rightarrow> ((ptr \<times> ptr \<times> ptr) option \<times> dbobj heap) option" where
  "slv_start xp handle now s h = do {
     (pdb, h) \<leftarrow> slv_db_create now h;
     if pdb = NULL then do { h \<leftarrow> slv_done pdb NULL NULL h; Some (None, h) } else do {
       (psvc_clt, h) \<leftarrow> comm_init xp handle s h;
       if psvc_clt = NULL then do { h \<leftarrow> slv_done pdb NULL psvc_clt h; Some (None, h) } else do {
         let (pusr, h) = dl_create h;
         if pusr = NULL then do { h \<leftarrow> slv_done pdb pusr psvc_clt h; Some (None, h) }
         else Some (Some (pdb, psvc_clt, pusr), h)
       }
     }
   }"

fun slv_loop :: "ptr \<Rightarrow> ptr \<Rightarrow> request list \<Rightarrow> msg os \<Rightarrow> dbobj heap \<Rightarrow> (bool list \<times> msg os \<times> dbobj heap) option" where
  "slv_loop pdb pusr [] s h = Some ([], s, h)"
| "slv_loop pdb pusr ((pdb_clt, recv_buff, now, stk) # rs) s h = do {
     (status, s, h) \<leftarrow> slv_cmd pdb pusr pdb_clt recv_buff now stk s h;
     (sts, s, h) \<leftarrow> slv_loop pdb pusr rs s h;
     Some (status # sts, s, h)
   }"

text \<open>The specification serving the same requests; one memory flag per request.\<close>

fun srv_loop :: "bool list \<Rightarrow> request list \<Rightarrow> msg os \<Rightarrow> server \<Rightarrow> (bool list \<times> msg os \<times> server) option" where
  "srv_loop ms [] s A = Some ([], s, A)"
| "srv_loop [] (r # rs) s A = None"
| "srv_loop (mem # ms) ((c, m, now, stk) # rs) s A = do {
     (status, s, A) \<leftarrow> srv_step mem c m now stk s A;
     (sts, s, A) \<leftarrow> srv_loop ms rs s A;
     Some (status # sts, s, A)
   }"

definition serves_all :: "ptr \<Rightarrow> ptr \<Rightarrow> (bool list \<times> msg os \<times> dbobj heap) option \<Rightarrow>
    (bool list \<times> msg os \<times> server) option \<Rightarrow> bool" where
  "serves_all pdb pusr r a \<longleftrightarrow> (case a of None \<Rightarrow> r = None
     | Some (sts, s, A) \<Rightarrow> \<exists>h. r = Some (sts, s, h) \<and> server_at h pdb pusr A)"

lemma requests_refine:
  assumes "server_at h pdb pusr A" "list_all (\<lambda>r. psx (fst r)) rs"
  shows "\<exists>ms. length ms = length rs \<and>
    serves_all pdb pusr (slv_loop pdb pusr rs s h) (srv_loop ms rs s A)"
  using assms
proof (induction rs arbitrary: s h A)
  case Nil
  then show ?case by (simp add: serves_all_def)
next
  case (Cons r rs)
  obtain c m now stk where r: "r = (c, m, now, stk)" by (cases r)
  have "psx c" using Cons.prems(2) r by simp
  from request_refines[OF Cons.prems(1) this] obtain mem where
    mem: "serves pdb pusr (slv_cmd pdb pusr c m now stk s h) (srv_step mem c m now stk s A)" by blast
  show ?case
  proof (cases "srv_step mem c m now stk s A")
    case None
    then show ?thesis using mem r
      by (intro exI[of _ "mem # replicate (length rs) True"]) (simp add: serves_def serves_all_def)
  next
    case (Some x)
    obtain st s1 A1 where x: "x = (st, s1, A1)" by (cases x)
    then obtain h1 where h1: "slv_cmd pdb pusr c m now stk s h = Some (st, s1, h1)" "server_at h1 pdb pusr A1"
      using mem Some by (auto simp: serves_def)
    from Cons.IH[OF h1(2)] Cons.prems(2) obtain ms where
      "length ms = length rs" "serves_all pdb pusr (slv_loop pdb pusr rs s1 h1) (srv_loop ms rs s1 A1)" by auto
    then show ?thesis using Some x h1(1) r
      by (intro exI[of _ "mem # ms"]) (auto simp: serves_all_def split: option.splits)
  qed
qed

subsection \<open>Starting\<close>

definition srv_init :: "int \<Rightarrow> server" where
  "srv_init now = \<lparr>srv_vars = [new_var DB_BAD_VAR DB_BAD_TYPE MAX_DATA_SIZE now], srv_users = []\<rparr>"

lemma bad_variable_created:
  assumes "dl_rep h pdb []" "db_entry_create pdb var type size1 now h = Some (True, h')"
  shows "\<exists>V. var_list h' pdb V \<and> map abs_var V = [new_var var type size1 now]"
proof -
  have v0: "var_list h pdb []" using assms(1) by (simp add: olist_def)
  have find: "db_entry_find pdb var type h = Some NULL"
    using entry_first[OF v0, of var type] by simp
  have hN: "cells h NULL = None" using dl_repE(1)[OF assms(1)] .
  obtain p h1 where m1: "malloc (Obj (Entry zero_entry)) h = (p, h1)" by fastforce
  obtain q h2 where m2: "dl_create h1 = (q, h2)" by fastforce
  have p: "p \<noteq> NULL" and q: "q \<noteq> NULL" using assms(2) find m1 m2
    by (auto simp: db_entry_create_def split: if_splits)
  define e where "e = zero_entry\<lparr>eptrig_head := q,
     edata := (edata zero_entry)\<lparr>dcmd := DB_BAD_CMD, dvar := var, dtype := type, dtime := now\<rparr>, esize := size1\<rparr>"
  have eq: "eptrig_head e = q" by (simp add: e_def)
  let ?h3 = "put p (Obj (Entry e)) h2"
  note n = new_entry[OF m1 p m2 q hN eq]
  have run: "db_entry_create pdb var type size1 now h = do {
      (ok, h) \<leftarrow> dl_insert p pdb ?h3;
      if \<not> ok then do { h \<leftarrow> db_entry_destroy p h; h \<leftarrow> free p h; Some (False, h) } else Some (True, h) }"
    using assms(2) find m1 m2 p q n(1) by (simp add: db_entry_create_def e_def split: if_splits)
  have v3: "var_list ?h3 pdb []" and fr: "var_foot (p, e, []) \<inter> var_mem pdb [] = {}"
    using vars.frame_takes[OF v0 n(3)] by auto
  show ?thesis using vars.insert[OF v3 n(2) fr]
  proof (elim disjE exE conjE)
    fix h4 assume "dl_insert (fst (p, e, [] :: (ptr \<times> trig_obj) list)) pdb ?h3 = Some (False, h4)"
    then show ?thesis using assms(2)[unfolded run] by auto
  next
    fix h4 k assume "dl_insert (fst (p, e, [] :: (ptr \<times> trig_obj) list)) pdb ?h3 = Some (True, h4)"
      "var_list h4 pdb [(k, p, e, [])]"
    then show ?thesis using run assms(2)
      by (intro exI[of _ "[(k, p, e, [])]"]) (simp add: new_var_def e_def zero_entry_def)
  qed
qed

lemma comm_init_takes:
  assumes "comm_init xp handle s h = Some (p, h')" "p \<noteq> NULL"
  shows "takes {} h {p} h'"
proof -
  obtain q h1 where m: "malloc (Obj (Clt \<lparr>xport = xp, xport_info = 0\<rparr>)) h = (q, h1)" by fastforce
  have q: "q = p" "p \<noteq> NULL" "\<exists>c. h' = put p c h1" using assms m by (auto simp: comm_init_def split: if_splits)
  then show ?thesis using takes_malloc[OF m] takes_trans[OF _ takes_put[OF assms(2)]] by blast
qed

lemma server_starts:
  assumes "slv_start xp handle now s h = Some (Some (pdb, psvc_clt, pusr), h')" "cells h NULL = None"
  shows "server_at h' pdb pusr (srv_init now)"
proof -
  obtain h1 h2 where 1: "slv_db_create now h = Some (pdb, h1)" "pdb \<noteq> NULL" "comm_init xp handle s h1 = Some (psvc_clt, h2)"
    "psvc_clt \<noteq> NULL" "dl_create h2 = (pusr, h')" "pusr \<noteq> NULL"
    using assms(1) by (auto simp: slv_start_def Let_def case_prod_beta split: if_splits)
  obtain h0 where h0: "dl_create h = (pdb, h0)" "db_entry_create pdb DB_BAD_VAR DB_BAD_TYPE MAX_DATA_SIZE now h0 = Some (True, h1)"
  proof -
    obtain p0 h0 where d: "dl_create h = (p0, h0)" by fastforce
    have p0: "p0 \<noteq> NULL" using 1(1,2) d by (cases "p0 = NULL") (simp_all add: slv_db_create_def)
    have c: "do { (ok, h) \<leftarrow> db_entry_create p0 DB_BAD_VAR DB_BAD_TYPE MAX_DATA_SIZE now h0;
        if \<not> ok then do { (ok, h) \<leftarrow> slv_db_destroy p0 h; Some (NULL, h) } else Some (p0, h) } = Some (pdb, h1)"
      using 1(1) p0 unfolding slv_db_create_def d by simp
    obtain ok h2 where e: "db_entry_create p0 DB_BAD_VAR DB_BAD_TYPE MAX_DATA_SIZE now h0 = Some (ok, h2)"
      using c by (cases "db_entry_create p0 DB_BAD_VAR DB_BAD_TYPE MAX_DATA_SIZE now h0") auto
    have "ok" using c 1(2) unfolding e by (cases ok) auto
    moreover have "p0 = pdb" "h2 = h1" using c calculation unfolding e by simp_all
    ultimately show ?thesis using that d e by metis
  qed
  obtain V where V: "var_list h1 pdb V" "map abs_var V = [new_var DB_BAD_VAR DB_BAD_TYPE MAX_DATA_SIZE now]"
    using bad_variable_created[OF dl_rep_create[OF assms(2) h0(1) 1(2)] h0(2)] by (elim exE conjE)
  have V2: "var_list h2 pdb V" using vars.frame_takes[OF V(1) comm_init_takes[OF 1(3,4)]] by blast
  have hN: "cells h2 NULL = None" using vars.null[OF V2] by simp
  have m: "takes {} h2 {pusr} h'" using takes_malloc[OF 1(5)[unfolded dl_create_def]] 1(6) by blast
  have "srv_rep h' pdb pusr V []"
    using vars.frame_takes[OF V2 m] dl_rep_create[OF hN 1(5,6)] by (auto simp: srv_rep_def olist_def olist_foot_def)
  from server_atI[OF this] show ?thesis using V(2) by (simp add: srv_abs_def srv_init_def)
qed

end
