(* ===== verification/DbProps.thy ===== *)
theory DbProps
  imports DbServer "HOL-Library.Sublist"
begin

text \<open>What the data server guarantees to its clients: the properties of db_slv.c and db_comm.c.\<close>

subsection \<open>Sending on a message queue\<close>

lemma psx_retry_law:
  "r \<le> DB_MSGQ_RETRY_LIMIT \<Longrightarrow> psx_retry r s = (q, ok, s1) \<Longrightarrow>
   ok = (\<exists>k < Suc DB_MSGQ_RETRY_LIMIT - r. outcome s (calls s + k)) \<and>
   (q < DB_MSGQ_RETRY_LIMIT) = (\<exists>k < DB_MSGQ_RETRY_LIMIT - r. outcome s (calls s + k)) \<and>
   sent s1 = sent s \<and> outcome s1 = outcome s \<and> calls s < calls s1 \<and> calls s1 \<le> calls s + (Suc DB_MSGQ_RETRY_LIMIT - r)"
proof (induction r s arbitrary: q ok s1 rule: psx_retry.induct)
  case (1 r s)
  let ?s = "s\<lparr>calls := calls s + 1\<rparr>"
  have ex: "(\<exists>k < Suc n. outcome s (calls s + k)) \<longleftrightarrow> outcome s (calls s) \<or> (\<exists>k < n. outcome ?s (calls ?s + k))" for n
    by (auto simp: less_Suc_eq_0_disj)
  show ?case
  proof (cases "outcome s (calls s)")
    case True
    then have "q = r" "ok" "s1 = ?s" using 1(3) by (auto simp: psx_retry.simps[of r s] syscall_def)
    moreover have "11 - r = Suc (10 - r)" "r < 10 \<Longrightarrow> 10 - r = Suc (9 - r)" using 1(2) by auto
    ultimately show ?thesis using True 1(2) ex[of "10 - r"] ex[of "9 - r"] by (cases "r < 10") simp_all
  next
    case f: False
    show ?thesis
    proof (cases "r < DB_MSGQ_RETRY_LIMIT")
      case True
      have "psx_retry (r + 1) ?s = (q, ok, s1)" using 1(3) f True by (simp add: psx_retry.simps[of r s] syscall_def)
      with 1(1)[of "(False, ?s)" False ?s q ok s1] f True
      have "ok = (\<exists>k < Suc DB_MSGQ_RETRY_LIMIT - (r + 1). outcome ?s (calls ?s + k)) \<and>
         (q < DB_MSGQ_RETRY_LIMIT) = (\<exists>k < DB_MSGQ_RETRY_LIMIT - (r + 1). outcome ?s (calls ?s + k)) \<and>
         sent s1 = sent ?s \<and> outcome s1 = outcome ?s \<and> calls ?s < calls s1 \<and>
         calls s1 \<le> calls ?s + (Suc DB_MSGQ_RETRY_LIMIT - (r + 1))"
        by (simp add: syscall_def)
      moreover have "11 - r = Suc (10 - r)" "10 - r = Suc (9 - r)" "11 - (r + 1) = 10 - r" "10 - (r + 1) = 9 - r"
        using True by auto
      moreover have "(\<exists>k<11 - r. outcome s (calls s + k)) = (\<exists>k<10 - r. outcome ?s (calls ?s + k))"
        "(\<exists>k<10 - r. outcome s (calls s + k)) = (\<exists>k<9 - r. outcome ?s (calls ?s + k))"
        using ex[of "10 - r"] ex[of "9 - r"] f calculation(2,3) by simp_all
      ultimately show ?thesis using True by simp
    next
      case False
      then have "r = 10" using 1(2) by simp
      then show ?thesis using 1(3) f by (auto simp: psx_retry.simps[of 10 s] syscall_def)
    qed
  qed
qed

lemma psx_send_law:
  "fst (psx_send c m s) = (\<exists>k < DB_MSGQ_RETRY_LIMIT. outcome s (calls s + k))"
  "sent (snd (psx_send c m s)) = sent s @ (if \<exists>k \<le> DB_MSGQ_RETRY_LIMIT. outcome s (calls s + k) then [(c, m)] else [])"
  "outcome (snd (psx_send c m s)) = outcome s" "calls s < calls (snd (psx_send c m s))"
  "calls (snd (psx_send c m s)) \<le> calls s + 11"
proof -
  obtain q ok s1 where r: "psx_retry 0 s = (q, ok, s1)" by (metis prod_cases3)
  have ps: "psx_send c m s = (q < 10, if ok then deliver c m s1 else s1)" using r by (simp add: psx_send_def not_le)
  have L: "ok = (\<exists>k \<le> 10. outcome s (calls s + k))" "(q < 10) = (\<exists>k < 10. outcome s (calls s + k))"
    "sent s1 = sent s" "outcome s1 = outcome s" "calls s < calls s1" "calls s1 \<le> calls s + 11"
    using psx_retry_law[OF _ r] by (simp_all add: less_Suc_eq_le[of _ 10, simplified])
  show "fst (psx_send c m s) = (\<exists>k < DB_MSGQ_RETRY_LIMIT. outcome s (calls s + k))"
    by (simp add: ps L(2))
  show "sent (snd (psx_send c m s)) = sent s @ (if \<exists>k \<le> DB_MSGQ_RETRY_LIMIT. outcome s (calls s + k) then [(c, m)] else [])"
    unfolding ps L(1)[symmetric] by (simp add: deliver_def L(3))
  show "outcome (snd (psx_send c m s)) = outcome s" "calls s < calls (snd (psx_send c m s))"
    "calls (snd (psx_send c m s)) \<le> calls s + 11"
    by (simp_all add: ps deliver_def L(4-6))
qed

text \<open>
  A reply or trigger on a POSIX queue is tried at most eleven times.  The caller is told of a
  success exactly when one of the first ten attempts succeeds, but the message also goes out when
  only the eleventh does: a client reached then counts as lost.
\<close>

theorem psx_send_attempts:
  "fst (psx_send c m s) = (\<exists>k < DB_MSGQ_RETRY_LIMIT. outcome s (calls s + k)) \<and>
   sent (snd (psx_send c m s)) = sent s @ (if \<exists>k \<le> DB_MSGQ_RETRY_LIMIT. outcome s (calls s + k) then [(c, m)] else []) \<and>
   calls (snd (psx_send c m s)) \<le> calls s + 11"
  by (intro conjI psx_send_law)

subsection \<open>Refinement\<close>

text \<open>
  C4: from its start on, whatever requests its clients send on POSIX queues, the data server with
  its linked lists in memory behaves as the specification over plain lists: same statuses, same
  messages to the same clients, and a memory fault only where the specification has one.
\<close>

theorem data_server_refines:
  assumes "slv_start COMM_PSX_XPORT handle t0 s0 h0 = Some (Some (pdb, psvc_clt, pusr), h)"
    and "cells h0 NULL = None" and "list_all (\<lambda>r. xport (fst r) = COMM_PSX_XPORT) rs"
  shows "\<exists>ms. length ms = length rs \<and>
    (case srv_loop ms rs s (srv_init t0) of None \<Rightarrow> slv_loop pdb pusr rs s h = None
     | Some (sts, s', A) \<Rightarrow> \<exists>h'. slv_loop pdb pusr rs s h = Some (sts, s', h') \<and> server_at h' pdb pusr A)"
  using requests_refine[OF server_starts[OF assms(1,2)] assms(3), of s] by (simp add: serves_all_def)

text \<open>A concrete start: an allocator that offers the addresses 1, 2, ...\<close>

definition os0 :: "msg os" where
  "os0 = \<lparr>outcome = (\<lambda>n. True), calls = 0, sent = [], msgget = (\<lambda>k. k + 1000), dupfd = (\<lambda>f. f + 1),
     junk = 99, sigev_of = (\<lambda>v. \<lparr>sigev_coid = 0, sival_int = 0\<rparr>)\<rparr>"

definition heap0 :: "dbobj heap" where
  "heap0 = \<lparr>cells = Map.empty, avail = [1..<50]\<rparr>"

definition clt7 :: comm_clt where "clt7 = \<lparr>xport = COMM_PSX_XPORT, xport_info = 7\<rparr>"

definition req :: "int \<Rightarrow> u32 \<Rightarrow> u32 \<Rightarrow> u8 list \<Rightarrow> db_data" where
  "req cmd var type v = \<lparr>dcmd = cmd, dkey = 0, dvar = var, dtype = type, dtime = 0, dvalue = v\<rparr>"

definition started :: "((ptr \<times> ptr \<times> ptr) option \<times> dbobj heap) option" where
  "started = slv_start COMM_PSX_XPORT 5 100 os0 heap0"

declare dl_search.simps [code] done_all.simps [code] destroy_all.simps [code] trig_loop.simps [code]
  trig_loop_qnx6.simps [code] free_items.simps [code]

lemma started_pointers: "map_option fst started = Some (Some (1, 5, 6))"
  by code_simp

lemma started_heap: "\<exists>h. started = Some (Some (1, 5, 6), h)"
  using started_pointers by (cases started) auto

definition demo :: "request list" where
  "demo = [(clt7, req DB_LOGIN_CMD 0 0 (replicate 128 0), 101, edata zero_entry),
     (clt7, req DB_CREATE_CMD 9 2 (set_db_long 4 (replicate 128 0)), 102, edata zero_entry)]"

theorem data_server_refines_witness:
  "\<exists>h. slv_start COMM_PSX_XPORT 5 100 os0 heap0 = Some (Some (1, 5, 6), h) \<and>
    (\<exists>ms. length ms = length demo \<and>
      (case srv_loop ms demo os0 (srv_init 100) of None \<Rightarrow> slv_loop 1 6 demo os0 h = None
       | Some (sts, s', A) \<Rightarrow> \<exists>h'. slv_loop 1 6 demo os0 h = Some (sts, s', h') \<and> server_at h' 1 6 A))"
proof -
  obtain h where h: "slv_start COMM_PSX_XPORT 5 100 os0 heap0 = Some (Some (1, 5, 6), h)"
    using started_heap by (auto simp: started_def)
  have "cells heap0 NULL = None" "list_all (\<lambda>r. xport (fst r) = COMM_PSX_XPORT) demo"
    by (simp_all add: heap0_def demo_def clt7_def)
  from data_server_refines[OF h this, of os0] show ?thesis using h by blast
qed

lemma concrete_server: "\<exists>h. server_at h 1 6 (srv_init 100)"
proof -
  obtain h where "slv_start COMM_PSX_XPORT 5 100 os0 heap0 = Some (Some (1, 5, 6), h)"
    using started_heap by (auto simp: started_def)
  from server_starts[OF this] show ?thesis by (auto simp: heap0_def)
qed

subsection \<open>Faults\<close>

lemma step_fault:
  "srv_step mem c m now stk s A = None \<longleftrightarrow>
    dcmd m = DB_UPDATE_CMD \<and> (\<exists>v. find (is_var (dvar m) (dtype m)) (srv_vars A) = Some v \<and>
        copy_value (av_size v) (dvalue m) (dvalue (av_data v)) = None) \<or>
    dcmd m = DB_DESTROY_CMD \<and> (\<exists>v. find (is_var (dvar m) (dtype m)) (srv_vars A) = Some v \<and> av_trigs v \<noteq> []) \<or>
    dcmd m = DB_READ_CMD \<and> srv_vars A = []"
  by (cases "find (is_var (dvar m) (dtype m)) (srv_vars A)")
     (auto simp: srv_step_def srv_update_def srv_destroy_def srv_read_def case_prod_beta Let_def bind_eq_None_conv)

text \<open>
  C29: a request crashes the server in exactly three cases: an update of a variable that was
  created larger than the 128 bytes of a value, the destruction of a variable that has triggers
  (their clients are freed twice), and a read when there is no variable left.
\<close>

theorem data_server_faults:
  assumes "server_at h pdb pusr A" "xport c = COMM_PSX_XPORT" "length (dvalue m) = MAX_DATA_SIZE"
    and "list_all (\<lambda>v. length (dvalue (av_data v)) = MAX_DATA_SIZE) (srv_vars A)"
  shows "slv_cmd pdb pusr c m now stk s h = None \<longleftrightarrow>
    dcmd m = DB_UPDATE_CMD \<and> (\<exists>v. find (is_var (dvar m) (dtype m)) (srv_vars A) = Some v \<and> MAX_DATA_SIZE < av_size v) \<or>
    dcmd m = DB_DESTROY_CMD \<and> (\<exists>v. find (is_var (dvar m) (dtype m)) (srv_vars A) = Some v \<and> av_trigs v \<noteq> []) \<or>
    dcmd m = DB_READ_CMD \<and> srv_vars A = []"
proof -
  have cp: "copy_value (av_size v) (dvalue m) (dvalue (av_data v)) = None \<longleftrightarrow> MAX_DATA_SIZE < av_size v"
    if "find (is_var (dvar m) (dtype m)) (srv_vars A) = Some v" for v
    using that assms(3,4) by (auto simp: copy_value_def list_all_iff find_Some_iff)
  obtain mem where "serves pdb pusr (slv_cmd pdb pusr c m now stk s h) (srv_step mem c m now stk s A)"
    using request_refines[OF assms(1,2)] by blast
  then have "slv_cmd pdb pusr c m now stk s h = None \<longleftrightarrow> srv_step mem c m now stk s A = None"
    by (auto simp: serves_def split: option.splits)
  then show ?thesis unfolding step_fault using cp by blast
qed

theorem data_server_faults_witness:
  "\<exists>h. server_at h 1 6 (srv_init 100) \<and>
    (slv_cmd 1 6 clt7 (req DB_READ_CMD 9 2 (replicate 128 0)) 103 (edata zero_entry) os0 h \<noteq> None)"
proof -
  obtain h where h: "server_at h 1 6 (srv_init 100)" using concrete_server by blast
  have "slv_cmd 1 6 clt7 (req DB_READ_CMD 9 2 (replicate 128 0)) 103 (edata zero_entry) os0 h \<noteq> None"
    by (subst data_server_faults[OF h])
       (simp_all add: clt7_def req_def srv_init_def new_var_def)
  then show ?thesis using h by blast
qed

subsection \<open>Values\<close>

definition value_of :: "u32 \<Rightarrow> u32 \<Rightarrow> server \<Rightarrow> db_data option" where
  "value_of var type A = map_option av_data (find (is_var var type) (srv_vars A))"

lemma find_upd_first:
  assumes "\<And>v. is_var var' type' v \<Longrightarrow> is_var var' type' (f v)"
    and "(var', type') = (var, type) \<Longrightarrow> (\<And>v. av_data (f v) = av_data v)"
  shows "map_option av_data (find (is_var var type) (upd_first (is_var var' type') f vs)) =
    map_option av_data (find (is_var var type) vs)"
proof (induction vs)
  case (Cons v vs)
  show ?case using Cons assms(1)[of v] assms(2)[of v]
    by (cases "(var', type') = (var, type)") (auto simp: is_var_def)
qed simp

lemma find_rm_first:
  "(var', type') \<noteq> (var, type) \<Longrightarrow> find (is_var var type) (rm_first (is_var var' type') vs) = find (is_var var type) vs"
  by (induction vs) (auto simp: is_var_def)

text \<open>Only an update and a destruction of a variable change its value.\<close>

lemma step_keeps_value:
  assumes "srv_step mem c m now stk s A = Some (st, s', A')" "value_of var type A = Some d"
    "dvar m = var \<Longrightarrow> dtype m = type \<Longrightarrow> dcmd m \<noteq> DB_UPDATE_CMD \<and> dcmd m \<noteq> DB_DESTROY_CMD"
  shows "value_of var type A' = Some d"
proof -
  have upd: "(dvar m, dtype m) \<noteq> (var, type) \<Longrightarrow> value_of var type (A\<lparr>srv_vars := upd_first (is_var (dvar m) (dtype m))
      (\<lambda>v. v\<lparr>av_data := (av_data v)\<lparr>dvalue := x, dtime := now\<rparr>, av_trigs := cs\<rparr>) (srv_vars A)\<rparr>) = value_of var type A" for x cs
    unfolding value_of_def by simp (rule find_upd_first, auto simp: is_var_def)
  have trig: "value_of var type (A\<lparr>srv_vars := upd_first (is_var (dvar m) (dtype m)) (\<lambda>v. v\<lparr>av_trigs := g v\<rparr>) (srv_vars A)\<rparr>) =
      value_of var type A" for g
    unfolding value_of_def by simp (rule find_upd_first, auto simp: is_var_def)
  have rm: "(dvar m, dtype m) \<noteq> (var, type) \<Longrightarrow> value_of var type (A\<lparr>srv_vars := rm_first (is_var (dvar m) (dtype m)) (srv_vars A)\<rparr>) =
      value_of var type A" by (simp add: value_of_def find_rm_first)
  have new: "find (is_var v t) (srv_vars A) = None \<Longrightarrow>
      value_of var type (A\<lparr>srv_vars := new_var v t sz now # srv_vars A\<rparr>) = value_of var type A" for v t sz
    using assms(2) by (auto simp: value_of_def is_var_def new_var_def)
  have usr: "value_of var type (A\<lparr>srv_users := us\<rparr>) = value_of var type A" for us by (simp add: value_of_def)
  show ?thesis using assms upd trig rm new usr
    by (auto simp: srv_step_def srv_create_def srv_read_def srv_update_def srv_destroy_def srv_login_def
        srv_logout_def srv_trig_set_def srv_trig_unset_def case_prod_beta Let_def split: if_splits option.splits)
qed

text \<open>Requests of PSX clients that leave the variable alone.\<close>

definition leaves :: "u32 \<Rightarrow> u32 \<Rightarrow> request \<Rightarrow> bool" where
  "leaves var type r = (case r of (c, m, now, stk) \<Rightarrow> xport c = COMM_PSX_XPORT \<and>
     (dvar m = var \<and> dtype m = type \<longrightarrow> dcmd m \<noteq> DB_UPDATE_CMD \<and> dcmd m \<noteq> DB_DESTROY_CMD))"

lemma cmd_server:
  assumes "server_at h pdb pusr A" "psx c" "slv_cmd pdb pusr c m now stk s h = Some (st, s', h')"
  shows "\<exists>mem A'. srv_step mem c m now stk s A = Some (st, s', A') \<and> server_at h' pdb pusr A'"
proof -
  obtain mem where "serves pdb pusr (slv_cmd pdb pusr c m now stk s h) (srv_step mem c m now stk s A)"
    using request_refines[OF assms(1,2)] by blast
  then show ?thesis using assms(3) by (auto simp: serves_def split: option.splits)
qed

lemma loop_keeps_value:
  "server_at h pdb pusr A \<Longrightarrow> list_all (leaves var type) rs \<Longrightarrow> value_of var type A = Some d \<Longrightarrow>
   slv_loop pdb pusr rs s h = Some (sts, s', h') \<Longrightarrow> \<exists>A'. server_at h' pdb pusr A' \<and> value_of var type A' = Some d"
proof (induction rs arbitrary: s h A sts)
  case (Cons r rs)
  obtain c m now stk where r: "r = (c, m, now, stk)" by (cases r)
  obtain st s1 h1 sts' where run: "slv_cmd pdb pusr c m now stk s h = Some (st, s1, h1)"
    "slv_loop pdb pusr rs s1 h1 = Some (sts', s', h')" using Cons.prems(4) r by auto
  have lv: "psx c" "dvar m = var \<Longrightarrow> dtype m = type \<Longrightarrow> dcmd m \<noteq> DB_UPDATE_CMD \<and> dcmd m \<noteq> DB_DESTROY_CMD"
    using Cons.prems(2) r by (auto simp: leaves_def)
  obtain mem A1 where A1: "srv_step mem c m now stk s A = Some (st, s1, A1)" "server_at h1 pdb pusr A1"
    using cmd_server[OF Cons.prems(1) lv(1) run(1)] by blast
  have "value_of var type A1 = Some d" by (rule step_keeps_value[OF A1(1) Cons.prems(3) lv(2)])
  then show ?case using Cons.IH[OF A1(2) _ _ run(2)] Cons.prems(2) by simp
qed auto

lemma update_value:
  assumes "srv_update m now s A = Some (True, s', A')"
  shows "\<exists>v x. find (is_var (dvar m) (dtype m)) (srv_vars A) = Some v \<and>
    copy_value (av_size v) (dvalue m) (dvalue (av_data v)) = Some x \<and>
    value_of (dvar m) (dtype m) A' = Some ((av_data v)\<lparr>dvalue := x, dtime := now\<rparr>)"
proof -
  let ?P = "is_var (dvar m) (dtype m)"
  obtain v x cs where v: "find ?P (srv_vars A) = Some v" "copy_value (av_size v) (dvalue m) (dvalue (av_data v)) = Some x"
    "A' = A\<lparr>srv_vars := upd_first ?P (\<lambda>v. v\<lparr>av_data := (av_data v)\<lparr>dvalue := x, dtime := now\<rparr>, av_trigs := cs\<rparr>) (srv_vars A)\<rparr>"
    using assms by (auto simp: srv_update_def case_prod_beta Let_def split: option.splits)
  have "find ?P (upd_first ?P f vs) = map_option f (find ?P vs)" if "\<And>v. ?P v \<Longrightarrow> ?P (f v)" for f vs
    using that by (induction vs) auto
  then show ?thesis using v by (auto simp: value_of_def is_var_def)
qed

text \<open>
  C23: what was written is read.  After a successful update of a variable and whatever other
  requests that neither update nor destroy it (by any clients, reads, creations, logins, triggers
  of this variable and anything to other variables), a read is answered with the value of that
  update in the bytes of the variable's size, its time and the variable's name.
\<close>

theorem read_returns_last_update:
  assumes "server_at h pdb pusr A" "xport c1 = COMM_PSX_XPORT" "xport c2 = COMM_PSX_XPORT"
    and "dcmd upd = DB_UPDATE_CMD" "slv_cmd pdb pusr c1 upd t1 k1 s h = Some (True, s1, h1)"
    and "list_all (leaves (dvar upd) (dtype upd)) others" "slv_loop pdb pusr others s1 h1 = Some (sts, s2, h2)"
    and "dcmd rd = DB_READ_CMD" "dvar rd = dvar upd" "dtype rd = dtype upd"
  shows "\<exists>v d h3. find (is_var (dvar upd) (dtype upd)) (srv_vars A) = Some v \<and>
    slv_cmd pdb pusr c2 rd t2 k2 s2 h2 = Some (True, snd (comm_sync_reply (Some c2) (Reply d) s2), h3) \<and>
    dvalue d = take (av_size v) (dvalue upd) @ drop (av_size v) (dvalue (av_data v)) \<and>
    dtime d = t1 \<and> dvar d = dvar upd \<and> dtype d = dtype upd \<and> dcmd d = DB_READ_REPLY"
proof -
  obtain mem A1 where A1: "srv_step mem c1 upd t1 k1 s A = Some (True, s1, A1)" "server_at h1 pdb pusr A1"
    using cmd_server[OF assms(1,2,5)] by blast
  then obtain s0 where "srv_update upd t1 s A = Some (True, s0, A1)"
    using assms(4) by (auto simp: srv_step_def case_prod_beta)
  from update_value[OF this] obtain v x where v: "find (is_var (dvar upd) (dtype upd)) (srv_vars A) = Some v"
    "copy_value (av_size v) (dvalue upd) (dvalue (av_data v)) = Some x"
    "value_of (dvar upd) (dtype upd) A1 = Some ((av_data v)\<lparr>dvalue := x, dtime := t1\<rparr>)" by blast
  obtain A2 where A2: "server_at h2 pdb pusr A2"
    "value_of (dvar upd) (dtype upd) A2 = Some ((av_data v)\<lparr>dvalue := x, dtime := t1\<rparr>)"
    using loop_keeps_value[OF A1(2) assms(6) v(3) assms(7)] by blast
  obtain w where w: "find (is_var (dvar upd) (dtype upd)) (srv_vars A2) = Some w"
    "av_data w = (av_data v)\<lparr>dvalue := x, dtime := t1\<rparr>" using A2(2) by (auto simp: value_of_def)
  let ?d = "(av_data w)\<lparr>dcmd := DB_READ_REPLY\<rparr>"
  have "is_var (dvar upd) (dtype upd) v" using v(1) by (auto simp: find_Some_iff)
  moreover have "x = take (av_size v) (dvalue upd) @ drop (av_size v) (dvalue (av_data v))"
    using v(2) by (simp add: copy_value_def split: if_splits)
  moreover obtain h3 where "slv_cmd pdb pusr c2 rd t2 k2 s2 h2 = Some (True, snd (comm_sync_reply (Some c2) (Reply ?d) s2), h3)"
    using read_refines[OF A2(1) assms(8), of c2 t2 k2 s2 True] w(1) assms(8-10)
    by (auto simp: serves_def srv_step_def srv_read_def)
  ultimately show ?thesis using v(1) w(2)
    by (intro exI[of _ v] exI[of _ ?d] exI[of _ h3]) (simp add: is_var_def)
qed

text \<open>A run: the bad variable is updated, another client logs in, and the variable is read.\<close>

definition upd0 :: db_data where "upd0 = req DB_UPDATE_CMD 0 0 (replicate 128 1)"
definition rd0 :: db_data where "rd0 = req DB_READ_CMD 0 0 (replicate 128 0)"

theorem read_returns_last_update_witness:
  "\<exists>h s1 h1 h3 d. server_at h 1 6 (srv_init 100) \<and>
    slv_cmd 1 6 clt7 upd0 101 (edata zero_entry) os0 h = Some (True, s1, h1) \<and>
    slv_cmd 1 6 clt7 rd0 103 (edata zero_entry) s1 h1 = Some (True, snd (comm_sync_reply (Some clt7) (Reply d) s1), h3) \<and>
    dvalue d = replicate 128 1 \<and> dtime d = 101 \<and> dcmd d = DB_READ_REPLY"
proof -
  obtain h where h: "server_at h 1 6 (srv_init 100)" using concrete_server by blast
  have c: "xport clt7 = COMM_PSX_XPORT" by (simp add: clt7_def)
  obtain mem where m: "serves 1 6 (slv_cmd 1 6 clt7 upd0 101 (edata zero_entry) os0 h)
      (srv_step mem clt7 upd0 101 (edata zero_entry) os0 (srv_init 100))" using request_refines[OF h c] by blast
  moreover have "\<exists>s1 A1. srv_step mem clt7 upd0 101 (edata zero_entry) os0 (srv_init 100) = Some (True, s1, A1)"
    by (simp add: srv_step_def upd0_def req_def srv_update_def srv_init_def new_var_def is_var_def copy_value_def)
  ultimately obtain s1 h1 where 1: "slv_cmd 1 6 clt7 upd0 101 (edata zero_entry) os0 h = Some (True, s1, h1)"
    by (auto simp: serves_def)
  have others: "list_all (leaves (dvar upd0) (dtype upd0)) []" "slv_loop 1 6 [] s1 h1 = Some ([], s1, h1)" by simp_all
  have k: "dcmd upd0 = DB_UPDATE_CMD" "dcmd rd0 = DB_READ_CMD" "dvar rd0 = dvar upd0" "dtype rd0 = dtype upd0"
    by (simp_all add: upd0_def rd0_def req_def)
  obtain v d h3 where r: "find (is_var (dvar upd0) (dtype upd0)) (srv_vars (srv_init 100)) = Some v"
    "slv_cmd 1 6 clt7 rd0 103 (edata zero_entry) s1 h1 = Some (True, snd (comm_sync_reply (Some clt7) (Reply d) s1), h3)"
    "dvalue d = take (av_size v) (dvalue upd0) @ drop (av_size v) (dvalue (av_data v))"
    "dtime d = 101" "dvar d = dvar upd0" "dtype d = dtype upd0" "dcmd d = DB_READ_REPLY"
    using read_returns_last_update[OF h c c k(1) 1 others k(2-4), of 103 "edata zero_entry"] by blast
  have "v = new_var 0 0 128 100" using r(1) by (simp add: srv_init_def upd0_def req_def is_var_def new_var_def)
  then have "dvalue d = replicate 128 1" using r(3) by (simp add: new_var_def upd0_def req_def)
  then show ?thesis using h 1 r(2,4,7) by blast
qed

subsection \<open>Triggers\<close>

lemma psx_trig: "psx c \<Longrightarrow> comm_async_trig (Some c) m s = psx_send c m s"
  by (simp add: comm_async_trig_def)

lemma psx_reply: "psx c \<Longrightarrow> comm_sync_reply (Some c) m s = psx_send c m s"
  by (simp add: comm_sync_reply_def)

lemma psx_sent:
  "\<exists>cs. sent (snd (psx_send c m s)) = sent s @ map (\<lambda>c. (c, m)) cs \<and> (cs = [c] \<or> cs = []) \<and>
    (fst (psx_send c m s) \<longrightarrow> cs = [c])"
proof (cases "\<exists>k \<le> 10. outcome s (calls s + k)")
  case True
  then show ?thesis by (intro exI[of _ "[c]"]) (simp add: psx_send_law(2))
next
  case False
  then have "\<not> fst (psx_send c m s)" unfolding psx_send_law(1) using less_imp_le by blast
  then show ?thesis using False by (intro exI[of _ "[]"]) (simp add: psx_send_law(2))
qed

lemma notify_law:
  "list_all psx cs \<Longrightarrow> notify t cs s = (cs', s') \<Longrightarrow>
   \<exists>ds. sent s' = sent s @ map (\<lambda>c. (c, Trig t)) ds \<and> subseq cs' ds \<and> subseq ds cs \<and> outcome s' = outcome s \<and>
     calls s \<le> calls s' \<and> ((\<forall>k \<ge> calls s. outcome s k) \<longrightarrow> cs' = cs)"
proof (induction cs arbitrary: s cs')
  case (Cons c cs)
  let ?s1 = "snd (psx_send c (Trig t) s)"
  have p: "psx c" "list_all psx cs" using Cons.prems(1) by simp_all
  obtain cs1 s2 where n: "notify t cs ?s1 = (cs1, s2)" by fastforce
  have e: "s2 = s'" "cs' = (if fst (psx_send c (Trig t) s) then c # cs1 else cs1)"
    using Cons.prems(2) n by (auto simp: psx_trig[OF p(1)] case_prod_beta Let_def)
  obtain ds where ds: "sent s' = sent ?s1 @ map (\<lambda>c. (c, Trig t)) ds" "subseq cs1 ds" "subseq ds cs"
    "outcome s' = outcome ?s1" "calls ?s1 \<le> calls s'" "(\<forall>k \<ge> calls ?s1. outcome ?s1 k) \<longrightarrow> cs1 = cs"
    using Cons.IH[OF p(2) n[unfolded e(1)]] by blast
  obtain as where as: "sent ?s1 = sent s @ map (\<lambda>c. (c, Trig t)) as" "as = [c] \<or> as = []"
    "fst (psx_send c (Trig t) s) \<longrightarrow> as = [c]" using psx_sent[of c "Trig t" s] by blast
  have o: "outcome ?s1 = outcome s" "calls s < calls ?s1" by (rule psx_send_law)+
  have all: "fst (psx_send c (Trig t) s)" if "\<forall>k \<ge> calls s. outcome s k"
    unfolding psx_send_law(1) using that by (intro exI[of _ 0]) simp
  have "(\<forall>k \<ge> calls s. outcome s k) \<longrightarrow> cs' = c # cs" using all ds(6) o e(2) by simp
  moreover have "subseq cs' (as @ ds)" using as(2,3) ds(2) e(2) by (cases "fst (psx_send c (Trig t) s)") auto
  moreover have "subseq (as @ ds) (c # cs)" using as(2) ds(3) by auto
  ultimately show ?case using ds(1,4,5) as(1) o by (intro exI[of _ "as @ ds"]) simp
qed auto

text \<open>
  A successful update sends the trigger of the variable to the clients registered for it, in
  the order of their registrations and to each at most once, before the reply to the writer.  Who
  stays registered was sent the trigger; when no call of the system fails, everybody was sent it and stays.
\<close>

theorem update_triggers_clients:
  assumes "server_at h pdb pusr A" "xport c = COMM_PSX_XPORT" "dcmd m = DB_UPDATE_CMD"
    and "find (is_var (dvar m) (dtype m)) (srv_vars A) = Some v" "list_all (\<lambda>c. xport c = COMM_PSX_XPORT) (av_trigs v)"
    and "slv_cmd pdb pusr c m now stk s h = Some (True, s', h')"
  shows "\<exists>A' v' ds rs. server_at h' pdb pusr A' \<and> find (is_var (dvar m) (dtype m)) (srv_vars A') = Some v' \<and>
    sent s' = sent s @ map (\<lambda>c. (c, Trig \<lparr>tmsg_type = DB_TRIGGER, tkey = 0, tvar = dvar m, ttype = dtype m\<rparr>)) ds @
      map (\<lambda>c. (c, Reply (stk\<lparr>dcmd := DB_UPDATE_REPLY, dvar := DB_BAD_VAR, dtype := DB_BOOL_TYPE,
        dvalue := set_db_bool True (dvalue stk)\<rparr>))) rs \<and> rs \<in> {[], [c]} \<and>
    subseq (av_trigs v') ds \<and> subseq ds (av_trigs v) \<and>
    ((\<forall>k \<ge> calls s. outcome s k) \<longrightarrow> ds = av_trigs v \<and> av_trigs v' = av_trigs v \<and> rs = [c])"
proof -
  let ?P = "is_var (dvar m) (dtype m)"
  let ?t = "\<lparr>tmsg_type = DB_TRIGGER, tkey = 0, tvar = dvar m, ttype = dtype m\<rparr>"
  let ?r = "stk\<lparr>dcmd := DB_UPDATE_REPLY, dvar := DB_BAD_VAR, dtype := DB_BOOL_TYPE,
        dvalue := set_db_bool True (dvalue stk)\<rparr>"
  obtain mem A1 where A1: "srv_step mem c m now stk s A = Some (True, s', A1)" "server_at h' pdb pusr A1"
    using cmd_server[OF assms(1,2,6)] by blast
  obtain cs s1 where n: "notify ?t (av_trigs v) s = (cs, s1)" by fastforce
  obtain x where x: "s' = snd (slv_bool_reply c DB_UPDATE_REPLY True stk s1)"
    "A1 = A\<lparr>srv_vars := upd_first ?P (\<lambda>v. v\<lparr>av_data := (av_data v)\<lparr>dvalue := x, dtime := now\<rparr>, av_trigs := cs\<rparr>) (srv_vars A)\<rparr>"
    using A1(1) assms(3,4) n by (auto simp: srv_step_def srv_update_def)
  have s': "s' = snd (psx_send c (Reply ?r) s1)"
    using x(1) by (simp add: slv_bool_reply_def psx_reply[OF assms(2)])
  have fu: "find ?P (upd_first ?P f vs) = map_option f (find ?P vs)" if "\<And>v. ?P v \<Longrightarrow> ?P (f v)" for f vs
    using that by (induction vs) auto
  obtain v' where v': "find ?P (srv_vars A1) = Some v'" "av_trigs v' = cs"
  proof -
    let ?f = "\<lambda>v. v\<lparr>av_data := (av_data v)\<lparr>dvalue := x, dtime := now\<rparr>, av_trigs := cs\<rparr>"
    have "find ?P (upd_first ?P ?f (srv_vars A)) = Some (?f v)"
      using assms(4) by (subst fu) (auto simp: is_var_def)
    then show ?thesis using that x(2) by simp
  qed
  obtain ds where ds: "sent s1 = sent s @ map (\<lambda>c. (c, Trig ?t)) ds" "subseq cs ds" "subseq ds (av_trigs v)"
    "outcome s1 = outcome s" "calls s \<le> calls s1" "(\<forall>k \<ge> calls s. outcome s k) \<longrightarrow> cs = av_trigs v"
    using notify_law[OF assms(5) n] by blast
  obtain rs where rs: "sent s' = sent s1 @ map (\<lambda>c. (c, Reply ?r)) rs" "rs = [c] \<or> rs = []"
    "fst (psx_send c (Reply ?r) s1) \<longrightarrow> rs = [c]" using psx_sent[of c "Reply ?r" s1] s' by blast
  have "rs = [c]" if "\<forall>k \<ge> calls s. outcome s k"
    using rs(3) that ds(4,5) unfolding psx_send_law(1) by (auto dest: spec[of _ "calls s1"] intro: exI[of _ 0])
  moreover have "ds = av_trigs v" if "cs = av_trigs v" using that ds(2,3) by (simp add: subseq_order.antisym)
  ultimately show ?thesis using A1(2) v' ds rs(1,2)
    by (intro exI[of _ A1] exI[of _ v'] exI[of _ ds] exI[of _ rs]) auto
qed

text \<open>The bad variable with one client to trigger.\<close>

lemma trigger_set:
  "map_option fst (Option.bind started (\<lambda>(r, h). slv_cmd 1 6 clt7 (req DB_TRIG_SET_CMD 0 0 (replicate 128 0)) 101
     (edata zero_entry) os0 h)) = Some True"
  by code_simp

definition triggered :: server where
  "triggered = \<lparr>srv_vars = [(new_var DB_BAD_VAR DB_BAD_TYPE MAX_DATA_SIZE 100)\<lparr>av_trigs := [clt7]\<rparr>], srv_users = []\<rparr>"

lemma triggered_server: "\<exists>h. server_at h 1 6 triggered"
proof -
  let ?m = "req DB_TRIG_SET_CMD 0 0 (replicate 128 0)"
  obtain h where h: "started = Some (Some (1, 5, 6), h)" using started_heap by blast
  have at: "server_at h 1 6 (srv_init 100)"
    by (rule server_starts[OF h[unfolded started_def]]) (simp add: heap0_def)
  obtain s' h' where c: "slv_cmd 1 6 clt7 ?m 101 (edata zero_entry) os0 h = Some (True, s', h')"
    using trigger_set unfolding h by auto
  obtain mem A' where A': "srv_step mem clt7 ?m 101 (edata zero_entry) os0 (srv_init 100) = Some (True, s', A')"
    "server_at h' 1 6 A'" using cmd_server[OF at _ c] by (auto simp: clt7_def)
  have "A' = triggered" using A'(1)
    by (auto simp: srv_step_def req_def srv_trig_set_def srv_init_def new_var_def is_var_def triggered_def split: if_splits)
  then show ?thesis using A'(2) by blast
qed

theorem update_triggers_clients_witness:
  "\<exists>h s' h' A' v'. server_at h 1 6 triggered \<and>
    slv_cmd 1 6 clt7 upd0 103 (edata zero_entry) os0 h = Some (True, s', h') \<and> server_at h' 1 6 A' \<and>
    find (is_var 0 0) (srv_vars A') = Some v' \<and> av_trigs v' = [clt7] \<and>
    map (\<lambda>(c, m). (c, m = Trig \<lparr>tmsg_type = DB_TRIGGER, tkey = 0, tvar = 0, ttype = 0\<rparr>)) (sent s') =
      [(clt7, True), (clt7, False)]"
proof -
  obtain h where h: "server_at h 1 6 triggered" using triggered_server by blast
  have c: "xport clt7 = COMM_PSX_XPORT" "dcmd upd0 = DB_UPDATE_CMD" by (simp_all add: clt7_def upd0_def req_def)
  obtain mem where m: "serves 1 6 (slv_cmd 1 6 clt7 upd0 103 (edata zero_entry) os0 h)
      (srv_step mem clt7 upd0 103 (edata zero_entry) os0 triggered)" using request_refines[OF h c(1)] by blast
  have "\<exists>s1 A1. srv_step mem clt7 upd0 103 (edata zero_entry) os0 triggered = Some (True, s1, A1)"
    by (simp add: srv_step_def upd0_def req_def srv_update_def triggered_def new_var_def is_var_def copy_value_def
        case_prod_beta Let_def)
  then obtain s' h' where 1: "slv_cmd 1 6 clt7 upd0 103 (edata zero_entry) os0 h = Some (True, s', h')"
    using m by (auto simp: serves_def)
  have f: "find (is_var (dvar upd0) (dtype upd0)) (srv_vars triggered) =
      Some ((new_var DB_BAD_VAR DB_BAD_TYPE MAX_DATA_SIZE 100)\<lparr>av_trigs := [clt7]\<rparr>)"
    by (simp add: upd0_def req_def triggered_def new_var_def is_var_def)
  have l: "list_all (\<lambda>c. xport c = COMM_PSX_XPORT) (av_trigs ((new_var DB_BAD_VAR DB_BAD_TYPE MAX_DATA_SIZE 100)\<lparr>av_trigs := [clt7]\<rparr>))"
    by (simp add: c)
  have os: "sent os0 = []" "\<forall>k \<ge> calls os0. outcome os0 k" by (simp_all add: os0_def)
  have k: "dvar upd0 = 0" "dtype upd0 = 0" by (simp_all add: upd0_def req_def)
  from update_triggers_clients[OF h c f l 1] os show ?thesis using h 1 unfolding k by fastforce
qed

end
