(* ===== verification/DbClt.thy ===== *)
theory DbClt
  imports DbServer
begin

text \<open>
  The clients of the data server: path/db/db_clt.c with the calls of db_comm.c they make, and
  db_utils.c, as they are built for Linux (the functions under \<open>__QNX__\<close> keep a list of proxies that
  Linux does not need).  Clients and server meet in the message queues: \<open>w_queue\<close> holds what waits
  in each queue.  A \<open>msg\<close> of the form \<open>Reply d\<close> is any \<open>db_data_typ\<close>, a request as well as a reply.
  A client has its own memory; the memory of the server is part of the world.  \<open>None\<close> is a
  call that does not return: a memory fault, or waiting for a message that never comes.
\<close>

record world = w_os :: "msg os"
  w_queue :: "int \<Rightarrow> msg list"
  w_srv :: "dbobj heap"

text \<open>
  What a client relies on: \<open>others\<close> is what the other processes do while the client waits for a message;
  \<open>rendezvous\<close> is the exchange of a request for a reply by the QNX kernels (\<open>MsgSend_r\<close>, \<open>Sendmx\<close>, no
  reply when it fails); \<open>locate\<close> is \<open>name_open\<close> and \<open>qnx_name_locate\<close>; \<open>ftok\<close> derives the key of a file;
  \<open>eintr\<close> says which failed system call was interrupted; \<open>dbytes\<close> are the bytes of a \<open>double\<close>.
\<close>

record cenv = others :: "world \<Rightarrow> world option"
  rendezvous :: "comm_clt \<Rightarrow> db_data \<Rightarrow> world \<Rightarrow> db_data option \<times> world"
  locate :: "nat \<Rightarrow> string \<Rightarrow> string \<Rightarrow> int"
  ftok :: "string \<Rightarrow> int"
  eintr :: "nat \<Rightarrow> bool"
  dbytes :: "int \<Rightarrow> u8 list"
  env_pid :: int
  env_uid :: int
  env_gid :: int
  env_clock :: int

abbreviation (input) DB_TIMER :: int where "DB_TIMER \<equiv> 18"

subsection \<open>Queues\<close>

fun mtype :: "msg \<Rightarrow> int" where
  "mtype (Reply d) = dcmd d" | "mtype (Trig t) = tmsg_type t" | "mtype (Pulse e) = 0"

text \<open>The first message that qualifies, and the queue without it.\<close>

fun take_first :: "('b \<Rightarrow> bool) \<Rightarrow> 'b list \<Rightarrow> ('b \<times> 'b list) option" where
  "take_first P [] = None"
| "take_first P (x # xs) = (if P x then Some (x, xs) else map_option (apsnd ((#) x)) (take_first P xs))"

text \<open>A message read into a buffer: the shorter trigger packet covers its first four words.\<close>

fun overlay :: "msg \<Rightarrow> db_data \<Rightarrow> db_data" where
  "overlay (Reply d) b = d"
| "overlay (Trig t) b = b\<lparr>dcmd := tmsg_type t, dkey := tkey t, dvar := tvar t, dtype := ttype t\<rparr>"
| "overlay (Pulse e) b = b"

definition enqueue :: "int \<Rightarrow> msg \<Rightarrow> world \<Rightarrow> world" where
  "enqueue q m w = w\<lparr>w_queue := (w_queue w)(q := w_queue w q @ [m])\<rparr>"

text \<open>The messages a process has sent reach their queues.\<close>

definition post :: "world \<Rightarrow> world" where
  "post w = w\<lparr>w_queue := (\<lambda>q. w_queue w q @ [m. (c, m) \<leftarrow> sent (w_os w), xport_info c = q]),
     w_os := (w_os w)\<lparr>sent := []\<rparr>\<rparr>"

text \<open>
  \<open>msgsnd\<close> and \<open>msgrcv\<close> with their retry loops; the result says whether the caller takes them for done.
  Receiving blocks until a message of an allowed type is there.
\<close>

definition queue_send :: "int \<Rightarrow> msg \<Rightarrow> world \<Rightarrow> bool \<times> world" where
  "queue_send q m w = (let (repeat, ok, s) = psx_retry 0 (w_os w); w = w\<lparr>w_os := s\<rparr>;
     w = (if ok then enqueue q m w else w) in (\<not> repeat \<ge> DB_MSGQ_RETRY_LIMIT, w))"

definition queue_receive :: "(msg \<Rightarrow> bool) \<Rightarrow> int \<Rightarrow> db_data \<Rightarrow> world \<Rightarrow> (bool \<times> db_data \<times> world) option" where
  "queue_receive P q buff w = (let (repeat, ok, s) = psx_retry 0 (w_os w); w = w\<lparr>w_os := s\<rparr> in
     if \<not> ok then Some (\<not> repeat \<ge> DB_MSGQ_RETRY_LIMIT, buff, w)
     else do {
       (m, ms) \<leftarrow> take_first P (w_queue w q);
       Some (\<not> repeat \<ge> DB_MSGQ_RETRY_LIMIT, overlay m buff, w\<lparr>w_queue := (w_queue w)(q := ms)\<rparr>)
     })"

text \<open>
  db_comm.c, client side.  \<open>comm_clt_cpy\<close> lays a channel over the first two words of a message
  buffer, where \<open>comm_sync_send\<close> finds the queue of the reply.
\<close>

definition comm_clt_cpy :: "comm_clt \<Rightarrow> db_data \<Rightarrow> db_data" where
  "comm_clt_cpy porig pcpy = pcpy\<lparr>dcmd := int (xport porig), dkey := xport_info porig\<rparr>"

definition comm_sync_send :: "cenv \<Rightarrow> comm_clt option \<Rightarrow> db_data \<Rightarrow> db_data \<Rightarrow> world
    \<Rightarrow> (bool \<times> db_data \<times> world) option" where
  "comm_sync_send env pclt pxmit preply w = (case pclt of None \<Rightarrow> Some (False, preply, w) | Some c \<Rightarrow>
     if xport c = COMM_QNX6_XPORT \<or> xport c = COMM_QNX_XPORT then
       (case rendezvous env c pxmit w of (None, w) \<Rightarrow> Some (False, preply, w) | (Some d, w) \<Rightarrow> Some (True, d, w))
     else if xport c = COMM_PSX_XPORT then
       let reply_qid = dkey preply; (ok, w) = queue_send (xport_info c) (Reply pxmit) w in
       if \<not> ok then Some (False, preply, w) else do {
         w \<leftarrow> others env w;
         queue_receive (\<lambda>m. mtype m \<noteq> DB_TRIGGER) reply_qid preply w
       }
     else Some (False, preply, w))"

text \<open>\<open>sprintf(filename, "%s_%d", ...)\<close>.\<close>

fun dec_digits :: "nat \<Rightarrow> string" where
  "dec_digits n = (if n < 10 then [char_of (48 + n)] else dec_digits (n div 10) @ [char_of (48 + n mod 10)])"

declare dec_digits.simps [simp del]

definition dec :: "int \<Rightarrow> string" where
  "dec i = (if i < 0 then CHR ''-'' # dec_digits (nat (- i)) else dec_digits (nat i))"

definition queue_file :: "string \<Rightarrow> int \<Rightarrow> string" where
  "queue_file pserv pid = pserv @ ''_'' @ dec pid"

definition comm_get_handle :: "cenv \<Rightarrow> nat \<Rightarrow> string \<Rightarrow> int \<Rightarrow> int" where
  "comm_get_handle env xp pservname pid =
     (if xp = COMM_PSX_XPORT then ftok env (queue_file pservname pid) else pid)"

definition comm_name_init :: "cenv \<Rightarrow> nat \<Rightarrow> string \<Rightarrow> string \<Rightarrow> msg os \<Rightarrow> dbobj heap \<Rightarrow> (ptr \<times> dbobj heap) option" where
  "comm_name_init env xp phost pserv s h =
     (if xp = COMM_QNX6_XPORT \<or> xp = COMM_QNX_XPORT then
        let handle = locate env xp phost pserv in
        if handle = ERROR then Some (NULL, h) else comm_init xp handle s h
      else if xp = COMM_TCP_XPORT then Some (NULL, h)
      else if xp = COMM_PSX_XPORT then
        let handle = comm_get_handle env xp pserv 0 in
        if handle = - 1 then Some (NULL, h) else comm_init xp handle s h
      else Some (NULL, h))"

text \<open>Removing the reply queue; the unlinked file is not modelled.\<close>

definition comm_cleanup :: "ptr \<Rightarrow> dbobj heap \<Rightarrow> world \<Rightarrow> world option" where
  "comm_cleanup pclt h w = do {
     c \<leftarrow> get_clt h pclt;
     Some (if xport c = COMM_PSX_XPORT then w\<lparr>w_queue := (w_queue w)(xport_info c := [])\<rparr> else w)
   }"

subsection \<open>Requests\<close>

text \<open>
  \<open>stk\<close> and \<open>rstk\<close> are the uninitialised request and reply buffers on the stack.  Every request
  has the channel of the reply laid over its reply buffer.
\<close>

definition call_server :: "cenv \<Rightarrow> db_clt \<Rightarrow> db_data \<Rightarrow> db_data \<Rightarrow> dbobj heap \<Rightarrow> world
    \<Rightarrow> (bool \<times> db_data \<times> world) option" where
  "call_server env d xmit_buff reply_buff h w = do {
     pread \<leftarrow> get_clt h (dc_pread d);
     let reply_buff = comm_clt_cpy pread reply_buff;
     pcomm \<leftarrow> (if dc_pcomm d = NULL then Some None else map_option Some (get_clt h (dc_pcomm d)));
     comm_sync_send env pcomm xmit_buff reply_buff w
   }"

definition clt_update :: "cenv \<Rightarrow> ptr \<Rightarrow> u32 \<Rightarrow> u32 \<Rightarrow> nat \<Rightarrow> u8 list \<Rightarrow> db_data \<Rightarrow> db_data \<Rightarrow> dbobj heap \<Rightarrow> world
    \<Rightarrow> (bool \<times> world) option" where
  "clt_update env pclt var type size1 pvalue stk rstk h w =
     (if pclt = NULL \<or> MAX_DATA_SIZE < size1 then Some (False, w) else do {
        d \<leftarrow> get_handle h pclt;
        v \<leftarrow> copy_value size1 pvalue (dvalue stk);
        (ok, reply, w) \<leftarrow> call_server env d \<lparr>dcmd = DB_UPDATE_CMD, dkey = dc_key d, dvar = var, dtype = type,
          dtime = env_clock env, dvalue = v\<rparr> rstk h w;
        Some (if ok then db_bool (dvalue reply) else False, w)
      })"

definition clt_read :: "cenv \<Rightarrow> ptr \<Rightarrow> u32 \<Rightarrow> u32 \<Rightarrow> db_data \<Rightarrow> db_data \<Rightarrow> dbobj heap \<Rightarrow> world
    \<Rightarrow> (bool \<times> db_data \<times> world) option" where
  "clt_read env pclt var type pdata stk h w = do {
     d \<leftarrow> get_handle h pclt;
     (ok, pdata, w) \<leftarrow> call_server env d
       (stk\<lparr>dcmd := DB_READ_CMD, dkey := dc_key d, dtype := type, dvar := var\<rparr>) pdata h w;
     Some (if \<not> ok then False else if dvar pdata = DB_BAD_VAR then False else True, pdata, w)
   }"

definition set_error :: "ptr \<Rightarrow> int \<Rightarrow> dbobj heap \<Rightarrow> dbobj heap option" where
  "set_error pclt err h = do { d \<leftarrow> get_handle h pclt; Some (put pclt (Obj (Handle (d\<lparr>dc_error := err\<rparr>))) h) }"

definition clt_create :: "cenv \<Rightarrow> ptr \<Rightarrow> u32 \<Rightarrow> u32 \<Rightarrow> u32 \<Rightarrow> db_data \<Rightarrow> db_data \<Rightarrow> dbobj heap \<Rightarrow> world
    \<Rightarrow> (bool \<times> dbobj heap \<times> world) option" where
  "clt_create env pclt var type size1 stk rstk h w =
     (if var \<le> MAX_DB_BUILTIN_VAR then do { h \<leftarrow> set_error pclt 1 h; Some (False, h, w) }
      else if MAX_DATA_SIZE < unat size1 then do { h \<leftarrow> set_error pclt 2 h; Some (False, h, w) }
      else do {
        d \<leftarrow> get_handle h pclt;
        (ok, reply, w) \<leftarrow> call_server env d (stk\<lparr>dcmd := DB_CREATE_CMD, dkey := dc_key d, dvar := var,
          dtype := type, dvalue := set_db_long size1 (dvalue stk)\<rparr>) rstk h w;
        Some (if ok then db_bool (dvalue reply) else False, h, w)
      })"

definition clt_destroy :: "cenv \<Rightarrow> ptr \<Rightarrow> u32 \<Rightarrow> u32 \<Rightarrow> db_data \<Rightarrow> db_data \<Rightarrow> dbobj heap \<Rightarrow> world
    \<Rightarrow> (bool \<times> world) option" where
  "clt_destroy env pclt var type stk rstk h w =
     (if pclt = NULL then Some (False, w) else do {
        d \<leftarrow> get_handle h pclt;
        (ok, reply, w) \<leftarrow> call_server env d
          (stk\<lparr>dcmd := DB_DESTROY_CMD, dkey := dc_key d, dvar := var, dtype := type\<rparr>) rstk h w;
        Some (if ok then db_bool (dvalue reply) else False, w)
      })"

definition clt_trig_set :: "cenv \<Rightarrow> ptr \<Rightarrow> u32 \<Rightarrow> u32 \<Rightarrow> db_data \<Rightarrow> db_data \<Rightarrow> dbobj heap \<Rightarrow> world
    \<Rightarrow> (bool \<times> world) option" where
  "clt_trig_set env pclt var type stk rstk h w = do {
     d \<leftarrow> get_handle h pclt;
     (ok, reply, w) \<leftarrow> call_server env d
       (stk\<lparr>dcmd := DB_TRIG_SET_CMD, dkey := dc_key d, dvar := var, dtype := type\<rparr>) rstk h w;
     Some (if \<not> ok then False else db_bool (dvalue reply), w)
   }"

definition clt_trig_unset :: "cenv \<Rightarrow> ptr \<Rightarrow> u32 \<Rightarrow> u32 \<Rightarrow> db_data \<Rightarrow> db_data \<Rightarrow> dbobj heap \<Rightarrow> world
    \<Rightarrow> (bool \<times> world) option" where
  "clt_trig_unset env pclt var type stk rstk h w = do {
     d \<leftarrow> get_handle h pclt;
     c \<leftarrow> get_clt h (dc_pcomm d);
     (ok, reply, w) \<leftarrow> call_server env d
       (stk\<lparr>dcmd := DB_TRIG_UNSET_CMD, dkey := dc_key d, dvar := var, dtype := type\<rparr>)
       (rstk\<lparr>dvalue := set_db_bool False (dvalue rstk)\<rparr>) h w;
     Some (db_bool (dvalue reply), w)
   }"

text \<open>
  Waiting for a trigger into a packet of \<open>trigsize\<close> bytes.  A message longer than that stays in the
  queue and the call fails.
\<close>

definition msize :: "msg \<Rightarrow> nat" where
  "msize m = (case m of Reply d \<Rightarrow> 148 | Trig t \<Rightarrow> 12 | Pulse e \<Rightarrow> 0)"

definition head_info :: "msg \<Rightarrow> trig_info" where
  "head_info m = (case m of Reply d \<Rightarrow> \<lparr>tmsg_type = dcmd d, tkey = dkey d, tvar = dvar d, ttype = dtype d\<rparr>
     | Trig t \<Rightarrow> t | Pulse e \<Rightarrow> \<lparr>tmsg_type = 0, tkey = 0, tvar = 0, ttype = 0\<rparr>)"

definition clt_ipc_receive :: "cenv \<Rightarrow> ptr \<Rightarrow> nat \<Rightarrow> dbobj heap \<Rightarrow> world \<Rightarrow> (int \<times> trig_info \<times> world) option" where
  "clt_ipc_receive env pclt trigsize h w = do {
     d \<leftarrow> get_handle h pclt;
     c \<leftarrow> get_clt h (dc_pcomm d);
     let none = \<lparr>tmsg_type = 0, tkey = 0, tvar = 0, ttype = 0\<rparr>;
     if xport c = COMM_PSX_XPORT then do {
       r \<leftarrow> get_clt h (dc_pread d);
       w \<leftarrow> others env w;
       let n = calls (w_os w);
       let (ok, s) = syscall (w_os w);
       let w = w\<lparr>w_os := s\<rparr>;
       if \<not> ok then Some (if eintr env n then DB_TIMER else DB_BAD_CMD, none, w)
       else (case w_queue w (xport_info r) of [] \<Rightarrow> None
         | m # ms \<Rightarrow> if trigsize < msize m then Some (DB_BAD_CMD, none, w)
             else Some (tmsg_type (head_info m), head_info m, w\<lparr>w_queue := (w_queue w)(xport_info r := ms)\<rparr>))
     } else Some (DB_BAD_CMD, none, w)
   }"

subsection \<open>Logging in and out\<close>

text \<open>A failing \<open>fopen\<close> makes \<open>FALSE\<close> the key.\<close>

definition clt_get_reply_queue_key :: "cenv \<Rightarrow> nat \<Rightarrow> string \<Rightarrow> world \<Rightarrow> int \<times> world" where
  "clt_get_reply_queue_key env xp pserv w = (let (ok, s) = syscall (w_os w); w = w\<lparr>w_os := s\<rparr> in
     if \<not> ok then (0, w) else (comm_get_handle env xp pserv (env_pid env), w))"

text \<open>The login data: uid, gid, key, time, name and the rest of the union.\<close>

definition int_bytes :: "int \<Rightarrow> u8 list" where
  "int_bytes i = le_bytes 4 (nat (i mod 2 ^ 32))"

definition login_data :: "cenv \<Rightarrow> int \<Rightarrow> string \<Rightarrow> u8 list \<Rightarrow> u8 list" where
  "login_data env key pname v = int_bytes (env_uid env) @ int_bytes (env_gid env) @ int_bytes key @
     dbytes env (env_clock env) @ map of_char (take 31 (pname @ replicate 31 (CHR 0x00))) @ [0] @ drop 52 v"

definition clt_login :: "cenv \<Rightarrow> string \<Rightarrow> string \<Rightarrow> string \<Rightarrow> nat \<Rightarrow> db_data \<Rightarrow> db_data \<Rightarrow> dbobj heap \<Rightarrow> world
    \<Rightarrow> (ptr \<times> dbobj heap \<times> world) option" where
  "clt_login env pname phost pserv xp stk rstk h w = (
     let fresh = \<lparr>dc_error = int (junk (w_os w)), dc_pcomm = junk (w_os w), dc_pread = junk (w_os w),
           dc_ptrig_head = junk (w_os w), dc_key = int (junk (w_os w)), dc_pservice = []\<rparr>;
         (pclt, h) = malloc (Obj (Handle fresh)) h in
     if pclt = NULL then Some (NULL, h, w) else do {
       (pcomm, h) \<leftarrow> comm_name_init env xp phost pserv (w_os w) h;
       if pcomm = NULL then do { h \<leftarrow> free pclt h; Some (NULL, h, w) } else
       let (ptrig_head, h) = dl_create h in
       if ptrig_head = NULL then do { h \<leftarrow> free pclt h; Some (NULL, h, w) } else
       let (key, w) = (if xp = COMM_PSX_XPORT then clt_get_reply_queue_key env xp pserv w else (0, w)) in do {
         (pread, h) \<leftarrow> comm_init xp key (w_os w) h;
         let d = fresh\<lparr>dc_pcomm := pcomm, dc_ptrig_head := ptrig_head, dc_pservice := pserv, dc_key := key, dc_pread := pread\<rparr>;
         let h = put pclt (Obj (Handle d)) h;
         (ok, reply, w) \<leftarrow> call_server env d (stk\<lparr>dcmd := DB_LOGIN_CMD, dkey := key, dvar := 1, dtype := 1,
           dvalue := login_data env key pname (dvalue stk)\<rparr>) rstk h w;
         if \<not> ok \<or> \<not> db_bool (dvalue reply) then do {
           (done, h) \<leftarrow> comm_done pcomm h;
           h \<leftarrow> free pclt h;
           h \<leftarrow> dl_free ptrig_head h;
           Some (NULL, h, w)
         } else Some (pclt, h, w)
       }
     })"

text \<open>
  The client's own list of triggers is empty on Linux; were it not, only the server's answer would end the
  loop, because nothing takes its elements off.
\<close>

partial_function (option) unset_all :: "cenv \<Rightarrow> ptr \<Rightarrow> db_data \<Rightarrow> db_data \<Rightarrow> dbobj heap \<Rightarrow> world \<Rightarrow> world option" where
  "unset_all env pclt stk rstk h w = do {
     d \<leftarrow> get_handle h pclt;
     hd \<leftarrow> get_dh h (dc_ptrig_head d);
     if dh_length hd = 0 then Some w else do {
       n \<leftarrow> get_dn h (dh_pfirst hd);
       t \<leftarrow> get_clt_trig h (dn_pitem n);
       (ok, w) \<leftarrow> clt_trig_unset env pclt (tvar (ct_info t)) (ttype (ct_info t)) stk rstk h w;
       if \<not> ok then Some w else unset_all env pclt stk rstk h w
     }
   }"

definition clt_logout :: "cenv \<Rightarrow> ptr \<Rightarrow> db_data \<Rightarrow> db_data \<Rightarrow> dbobj heap \<Rightarrow> world \<Rightarrow> (bool \<times> dbobj heap \<times> world) option" where
  "clt_logout env pclt stk rstk h w = do {
     d \<leftarrow> get_handle h pclt;
     w \<leftarrow> unset_all env pclt stk rstk h w;
     h \<leftarrow> dl_free (dc_ptrig_head d) h;
     (ok, reply, w) \<leftarrow> call_server env d (stk\<lparr>dcmd := DB_LOGOUT_CMD, dkey := dc_key d, dvar := 2, dtype := 2,
       dvalue := int_bytes (env_uid env) @ drop 4 (dvalue stk)\<rparr>) rstk h w;
     (done, h) \<leftarrow> comm_done (dc_pcomm d) h;
     w \<leftarrow> comm_cleanup (dc_pread d) h w;
     (done, h) \<leftarrow> comm_done (dc_pread d) h;
     h \<leftarrow> free pclt h;
     Some (db_bool (dvalue reply), h, w)
   }"

subsection \<open>db\_utils\<close>

fun create_all :: "cenv \<Rightarrow> ptr \<Rightarrow> (u32 \<times> u32) list \<Rightarrow> db_data \<Rightarrow> db_data \<Rightarrow> dbobj heap \<Rightarrow> world
    \<Rightarrow> (nat \<times> dbobj heap \<times> world) option" where
  "create_all env pclt [] stk rstk h w = Some (0, h, w)"
| "create_all env pclt ((var, size1) # vs) stk rstk h w = do {
     (ok, h, w) \<leftarrow> clt_create env pclt var var size1 stk rstk h w;
     (errors, h, w) \<leftarrow> create_all env pclt vs stk rstk h w;
     Some ((if ok then 0 else 1) + errors, h, w)
   }"

fun trig_set_all :: "cenv \<Rightarrow> ptr \<Rightarrow> u32 list \<Rightarrow> db_data \<Rightarrow> db_data \<Rightarrow> dbobj heap \<Rightarrow> world \<Rightarrow> (nat \<times> world) option" where
  "trig_set_all env pclt [] stk rstk h w = Some (0, w)"
| "trig_set_all env pclt (var # vs) stk rstk h w = do {
     (ok, w) \<leftarrow> clt_trig_set env pclt var var stk rstk h w;
     (errors, w) \<leftarrow> trig_set_all env pclt vs stk rstk h w;
     Some ((if ok then 0 else 1) + errors, w)
   }"

definition db_list_init :: "cenv \<Rightarrow> string \<Rightarrow> string \<Rightarrow> string \<Rightarrow> nat \<Rightarrow> (u32 \<times> u32) list \<Rightarrow> u32 list \<Rightarrow> db_data \<Rightarrow> db_data
    \<Rightarrow> dbobj heap \<Rightarrow> world \<Rightarrow> (ptr \<times> dbobj heap \<times> world) option" where
  "db_list_init env prog hostname domain xp varlist triglist stk rstk h w = do {
     (pclt, h, w) \<leftarrow> clt_login env prog hostname domain xp stk rstk h w;
     if pclt = NULL then Some (NULL, h, w) else do {
       (create_error, h, w) \<leftarrow> create_all env pclt varlist stk rstk h w;
       if create_error \<noteq> 0 then do { (ok, h, w) \<leftarrow> clt_logout env pclt stk rstk h w; Some (NULL, h, w) } else do {
         (trigger_error, w) \<leftarrow> trig_set_all env pclt triglist stk rstk h w;
         if trigger_error \<noteq> 0 then do { (ok, h, w) \<leftarrow> clt_logout env pclt stk rstk h w; Some (NULL, h, w) }
         else Some (pclt, h, w)
       }
     }
   }"

fun trig_unset_all :: "cenv \<Rightarrow> ptr \<Rightarrow> u32 list \<Rightarrow> db_data \<Rightarrow> db_data \<Rightarrow> dbobj heap \<Rightarrow> world \<Rightarrow> world option" where
  "trig_unset_all env pclt [] stk rstk h w = Some w"
| "trig_unset_all env pclt (var # vs) stk rstk h w = do {
     (ok, w) \<leftarrow> clt_trig_unset env pclt var var stk rstk h w;
     trig_unset_all env pclt vs stk rstk h w
   }"

fun clt_destroy_all :: "cenv \<Rightarrow> ptr \<Rightarrow> (u32 \<times> u32) list \<Rightarrow> db_data \<Rightarrow> db_data \<Rightarrow> dbobj heap \<Rightarrow> world \<Rightarrow> world option" where
  "clt_destroy_all env pclt [] stk rstk h w = Some w"
| "clt_destroy_all env pclt ((var, size1) # vs) stk rstk h w = do {
     (ok, w) \<leftarrow> clt_destroy env pclt var var stk rstk h w;
     clt_destroy_all env pclt vs stk rstk h w
   }"

definition db_list_done :: "cenv \<Rightarrow> ptr \<Rightarrow> (u32 \<times> u32) list \<Rightarrow> u32 list \<Rightarrow> db_data \<Rightarrow> db_data \<Rightarrow> dbobj heap \<Rightarrow> world
    \<Rightarrow> (dbobj heap \<times> world) option" where
  "db_list_done env pclt varlist triglist stk rstk h w =
     (if pclt = NULL then Some (h, w) else do {
        w \<leftarrow> trig_unset_all env pclt triglist stk rstk h w;
        w \<leftarrow> clt_destroy_all env pclt varlist stk rstk h w;
        (ok, h, w) \<leftarrow> clt_logout env pclt stk rstk h w;
        Some (h, w)
      })"

text \<open>db\_utils.h: the value is copied out of the reply even when the read failed.\<close>

definition db_clt_read :: "cenv \<Rightarrow> ptr \<Rightarrow> u32 \<Rightarrow> nat \<Rightarrow> db_data \<Rightarrow> db_data \<Rightarrow> dbobj heap \<Rightarrow> world
    \<Rightarrow> (bool \<times> u8 list \<times> world) option" where
  "db_clt_read env pclt db_num db_size stk rstk h w = do {
     (retval, db_data, w) \<leftarrow> clt_read env pclt db_num db_num rstk stk h w;
     if length (dvalue db_data) < db_size then None else Some (retval, take db_size (dvalue db_data), w)
   }"

definition db_clt_write :: "cenv \<Rightarrow> ptr \<Rightarrow> u32 \<Rightarrow> nat \<Rightarrow> u8 list \<Rightarrow> db_data \<Rightarrow> db_data \<Rightarrow> dbobj heap \<Rightarrow> world
    \<Rightarrow> (bool \<times> world) option" where
  "db_clt_write env pclt db_num db_size dbv stk rstk h w =
     clt_update env pclt db_num db_num db_size dbv stk rstk h w"

subsection \<open>The server among its clients\<close>

text \<open>
  \<open>comm_sync_recv\<close> on a message queue: the next request of any type, and as its sender the queue that
  the key in the request names.
\<close>

definition comm_sync_recv :: "comm_clt \<Rightarrow> db_data \<Rightarrow> world \<Rightarrow> (comm_clt option \<times> db_data \<times> world) option" where
  "comm_sync_recv c precv w = do {
     (ok, precv, w) \<leftarrow> queue_receive (\<lambda>m. True) (xport_info c) precv w;
     Some (if ok then Some \<lparr>xport = COMM_PSX_XPORT, xport_info = msgget (w_os w) (dkey precv)\<rparr> else None, precv, w)
   }"

text \<open>
  One turn of the server's main loop, and all turns until its queue is empty (\<open>n\<close> bounds their
  number; a server that has ended serves nobody).  \<open>stk\<close> is its reply buffer, \<open>now\<close> its clock.
\<close>

definition server_turn :: "ptr \<Rightarrow> ptr \<Rightarrow> comm_clt \<Rightarrow> int \<Rightarrow> db_data \<Rightarrow> world \<Rightarrow> world option" where
  "server_turn pdb pusr svc now stk w = do {
     (sender, recv_buff, w) \<leftarrow> comm_sync_recv svc stk w;
     case sender of None \<Rightarrow> None | Some c \<Rightarrow> do {
       (status, s, h) \<leftarrow> slv_cmd pdb pusr c recv_buff now stk (w_os w) (w_srv w);
       Some (post (w\<lparr>w_os := s, w_srv := h\<rparr>))
     }
   }"

fun server_turns :: "nat \<Rightarrow> ptr \<Rightarrow> ptr \<Rightarrow> comm_clt \<Rightarrow> int \<Rightarrow> db_data \<Rightarrow> world \<Rightarrow> world option" where
  "server_turns 0 pdb pusr svc now stk w = Some w"
| "server_turns (Suc n) pdb pusr svc now stk w = (if w_queue w (xport_info svc) = [] then Some w else do {
     w \<leftarrow> server_turn pdb pusr svc now stk w;
     server_turns n pdb pusr svc now stk w
   })"

end
