(* ===== verification/DbMeet.thy ===== *)
theory DbMeet
  imports DbClt
begin

text \<open>
  Clients and server together, when no system call fails: what one request does to the queues
  and to the server, in terms of the abstract server.  \<open>srv_pure\<close> is \<open>srv_step\<close> without the operating
  system: the status, the reply, the clients that are triggered, and the next server.
\<close>

definition bool_reply :: "db_data \<Rightarrow> int \<Rightarrow> bool \<Rightarrow> db_data" where
  "bool_reply stk cmd status = stk\<lparr>dcmd := cmd, dvar := DB_BAD_VAR, dtype := DB_BOOL_TYPE,
     dvalue := set_db_bool status (dvalue stk)\<rparr>"

definition set_value :: "u32 \<Rightarrow> u32 \<Rightarrow> u8 list \<Rightarrow> int \<Rightarrow> server \<Rightarrow> server" where
  "set_value var type x now A = A\<lparr>srv_vars := upd_first (is_var var type)
     (\<lambda>v. v\<lparr>av_data := (av_data v)\<lparr>dvalue := x, dtime := now\<rparr>\<rparr>) (srv_vars A)\<rparr>"

definition srv_pure :: "bool \<Rightarrow> comm_clt \<Rightarrow> db_data \<Rightarrow> int \<Rightarrow> db_data \<Rightarrow> server
    \<Rightarrow> (bool \<times> db_data \<times> comm_clt list \<times> server) option" where
  "srv_pure mem c m now stk A =
    (if dcmd m = DB_CREATE_CMD then
       let (st, A) = srv_create mem (dvar m) (dtype m) (unat (db_long (dvalue m))) now A in
       Some (st, bool_reply stk DB_CREATE_REPLY st, [], A)
     else if dcmd m = DB_READ_CMD then do { (st, d) \<leftarrow> srv_read (dvar m) (dtype m) A; Some (st, d, [], A) }
     else if dcmd m = DB_UPDATE_CMD then (case find (is_var (dvar m) (dtype m)) (srv_vars A) of
         None \<Rightarrow> Some (False, bool_reply stk DB_UPDATE_REPLY False, [], A)
       | Some v \<Rightarrow> do {
           x \<leftarrow> copy_value (av_size v) (dvalue m) (dvalue (av_data v));
           Some (True, bool_reply stk DB_UPDATE_REPLY True, av_trigs v, set_value (dvar m) (dtype m) x now A)
         })
     else if dcmd m = DB_DESTROY_CMD then do {
       (st, A) \<leftarrow> srv_destroy (dvar m) (dtype m) A;
       Some (st, bool_reply stk DB_DESTROY_REPLY st, [], A)
     }
     else if dcmd m = DB_LOGIN_CMD then
       let (st, A) = srv_login mem c (dvalue m) now A in Some (st, bool_reply stk DB_LOGIN_REPLY st, [], A)
     else if dcmd m = DB_LOGOUT_CMD then Some (False, bool_reply stk DB_LOGOUT_REPLY False, [], srv_logout c A)
     else if dcmd m = DB_TRIG_SET_CMD then
       let (st, A) = srv_trig_set mem c (dvar m) (dtype m) A in Some (st, bool_reply stk DB_TRIG_SET_REPLY st, [], A)
     else Some (False, bool_reply stk DB_TRIG_UNSET_REPLY False, [], srv_trig_unset c (dvar m) (dtype m) A))"

definition trigger_of :: "db_data \<Rightarrow> msg" where
  "trigger_of m = Trig \<lparr>tmsg_type = DB_TRIGGER, tkey = 0, tvar = dvar m, ttype = dtype m\<rparr>"

definition commands :: "int set" where
  "commands = {DB_CREATE_CMD, DB_READ_CMD, DB_UPDATE_CMD, DB_DESTROY_CMD, DB_LOGIN_CMD, DB_LOGOUT_CMD,
     DB_TRIG_SET_CMD, DB_TRIG_UNSET_CMD}"

abbreviation "calm s \<equiv> \<forall>k. outcome s k"

lemma retry_calm [simp]: "calm s \<Longrightarrow> psx_retry r s = (r, True, s\<lparr>calls := calls s + 1\<rparr>)"
  by (simp add: psx_retry.simps[of r s] syscall_def)

lemma send_calm [simp]: "calm s \<Longrightarrow> psx_send c m s = (True, s\<lparr>calls := calls s + 1, sent := sent s @ [(c, m)]\<rparr>)"
  by (simp add: psx_send_def deliver_def)

lemma notify_calm:
  "calm s \<Longrightarrow> list_all psx cs \<Longrightarrow> notify t cs s =
    (cs, s\<lparr>calls := calls s + length cs, sent := sent s @ map (\<lambda>c. (c, Trig t)) cs\<rparr>)"
  by (induction cs arbitrary: s) (auto simp: comm_async_trig_def Let_def)

lemma upd_first_cong: "(\<And>v. P v \<Longrightarrow> find P vs = Some v \<Longrightarrow> f v = g v) \<Longrightarrow> upd_first P f vs = upd_first P g vs"
  by (induction vs) (auto split: if_splits)

definition trigs_psx :: "server \<Rightarrow> bool" where
  "trigs_psx A \<longleftrightarrow> (\<forall>v \<in> set (srv_vars A). list_all psx (av_trigs v))"

lemma find_mem: "find P xs = Some x \<Longrightarrow> x \<in> set xs \<and> P x"
  by (auto simp: find_Some_iff)

lemma step_pure:
  assumes "calm s" "psx c" "dcmd m \<in> commands" "trigs_psx A"
  shows "srv_step mem c m now stk s A = map_option (\<lambda>(st, r, ts, A').
    (st, s\<lparr>calls := calls s + length ts + 1,
       sent := sent s @ map (\<lambda>c. (c, trigger_of m)) ts @ [(c, Reply r)]\<rparr>, A')) (srv_pure mem c m now stk A)"
proof -
  have reply: "comm_sync_reply (Some c) (Reply r) s' = (True, s'\<lparr>calls := calls s' + 1, sent := sent s' @ [(c, Reply r)]\<rparr>)"
    if "calm s'" for r s' using that assms(2) by (simp add: comm_sync_reply_def)
  have brep: "slv_bool_reply c cmd st stk s' =
      (True, s'\<lparr>calls := calls s' + 1, sent := sent s' @ [(c, Reply (bool_reply stk cmd st))]\<rparr>)" if "calm s'" for cmd st s'
    using that by (simp add: slv_bool_reply_def bool_reply_def reply)
  show ?thesis
  proof (cases "dcmd m = DB_UPDATE_CMD")
    case True
    show ?thesis
    proof (cases "find (is_var (dvar m) (dtype m)) (srv_vars A)")
      case None
      then show ?thesis using True assms(1) by (simp add: srv_step_def srv_pure_def srv_update_def brep)
    next
      case (Some v)
      then have "list_all psx (av_trigs v)" using assms(4) find_mem by (fastforce simp: trigs_psx_def)
      note n = notify_calm[OF assms(1) this]
      have u: "upd_first (is_var (dvar m) (dtype m))
           (\<lambda>v'. v'\<lparr>av_data := (av_data v')\<lparr>dvalue := x, dtime := now\<rparr>, av_trigs := av_trigs v\<rparr>) (srv_vars A) =
         upd_first (is_var (dvar m) (dtype m)) (\<lambda>v. v\<lparr>av_data := (av_data v)\<lparr>dvalue := x, dtime := now\<rparr>\<rparr>) (srv_vars A)" for x
        using Some by (intro upd_first_cong) auto
      show ?thesis using True Some assms(1)
        by (cases "copy_value (av_size v) (dvalue m) (dvalue (av_data v))")
           (simp_all add: srv_step_def srv_pure_def srv_update_def n u brep set_value_def trigger_of_def)
    qed
  next
    case False
    then show ?thesis using assms(1,3)
      by (auto simp: srv_step_def srv_pure_def commands_def brep reply Let_def case_prod_beta
          map_option_case split: option.splits Option.bind_splits)
  qed
qed

text \<open>No reply is a trigger.\<close>

lemma pure_reply_cmd:
  "srv_pure mem c m now stk A = Some (st, r, ts, A') \<Longrightarrow> dcmd r \<noteq> DB_TRIGGER"
  by (auto simp: srv_pure_def bool_reply_def srv_read_def Let_def case_prod_beta split: if_splits option.splits)

subsection \<open>Queues that hold triggers only\<close>

definition only_trigs :: "msg list \<Rightarrow> bool" where
  "only_trigs ms \<longleftrightarrow> list_all (\<lambda>m. mtype m = DB_TRIGGER) ms"

lemma take_first_reply:
  "only_trigs xs \<Longrightarrow> mtype y \<noteq> DB_TRIGGER \<Longrightarrow>
   take_first (\<lambda>m. mtype m \<noteq> DB_TRIGGER) (xs @ y # ys) = Some (y, xs @ ys)"
  by (induction xs) (auto simp: only_trigs_def)

text \<open>Clients and server at rest.\<close>

definition at_rest :: "int \<Rightarrow> world \<Rightarrow> bool" where
  "at_rest qs w \<longleftrightarrow> calm (w_os w) \<and> sent (w_os w) = [] \<and> w_queue w qs = [] \<and> (\<forall>q. only_trigs (w_queue w q))"

text \<open>A client logged in: its handle, the queue \<open>q\<close> of its replies and the queue \<open>qs\<close> of the server.\<close>

definition client_at :: "(int \<Rightarrow> int) \<Rightarrow> dbobj heap \<Rightarrow> ptr \<Rightarrow> int \<Rightarrow> int \<Rightarrow> bool" where
  "client_at getq h pclt q qs \<longleftrightarrow> (\<exists>d. pclt \<noteq> NULL \<and> get_handle h pclt = Some d \<and> dc_pcomm d \<noteq> NULL \<and>
     get_clt h (dc_pcomm d) = Some \<lparr>xport = COMM_PSX_XPORT, xport_info = qs\<rparr> \<and>
     get_clt h (dc_pread d) = Some \<lparr>xport = COMM_PSX_XPORT, xport_info = q\<rparr> \<and> getq (dc_key d) = q \<and> q \<noteq> qs)"

text \<open>No client watches the server's own queue.\<close>

definition trigs_away :: "int \<Rightarrow> server \<Rightarrow> bool" where
  "trigs_away qs A \<longleftrightarrow> (\<forall>v \<in> set (srv_vars A). list_all (\<lambda>c. psx c \<and> xport_info c \<noteq> qs) (av_trigs v))"

lemma trigs_away_psx: "trigs_away qs A \<Longrightarrow> trigs_psx A"
  by (auto simp: trigs_away_def trigs_psx_def list_all_iff)

lemma set_upd_first: "set (upd_first P f xs) \<subseteq> set xs \<union> f ` {x \<in> set xs. P x}"
  by (induction xs) auto

lemma set_rm_first: "set (rm_first P xs) \<subseteq> set xs"
  by (induction xs) auto

lemma trigs_away_upd:
  assumes "trigs_away qs A" "\<And>v. v \<in> set (srv_vars A) \<Longrightarrow> set (av_trigs (f v)) \<subseteq> insert c (set (av_trigs v))"
    and "psx c" "xport_info c \<noteq> qs"
  shows "trigs_away qs (A\<lparr>srv_vars := upd_first P f (srv_vars A)\<rparr>)"
  unfolding trigs_away_def
proof
  fix v assume v: "v \<in> set (srv_vars (A\<lparr>srv_vars := upd_first P f (srv_vars A)\<rparr>))"
  then have "v \<in> set (srv_vars A) \<or> (\<exists>u \<in> set (srv_vars A). v = f u)"
    using set_upd_first[of P f "srv_vars A"] by auto
  then show "list_all (\<lambda>c. psx c \<and> xport_info c \<noteq> qs) (av_trigs v)"
    using assms by (fastforce simp: trigs_away_def list_all_iff)
qed

lemma pure_trigs_away:
  assumes "trigs_away qs A" "psx c" "xport_info c \<noteq> qs" "srv_pure mem c m now stk A = Some (st, r, ts, A')"
  shows "trigs_away qs A' \<and> list_all (\<lambda>c. psx c \<and> xport_info c \<noteq> qs) ts"
proof -
  have ts: "list_all (\<lambda>c. psx c \<and> xport_info c \<noteq> qs) ts"
    using assms(1,4) find_mem
    by (fastforce simp: srv_pure_def trigs_away_def Let_def case_prod_beta split: if_splits option.splits)
  have "trigs_away qs (A\<lparr>srv_vars := rm_first P (srv_vars A)\<rparr>)" for P
    using assms(1) set_rm_first by (fastforce simp: trigs_away_def)
  moreover have "trigs_away qs (set_value var type x now A)" for var type x
    unfolding set_value_def by (rule trigs_away_upd[OF assms(1) _ assms(2,3)]) auto
  moreover have "trigs_away qs (srv_trig_unset c var type A)" for var type
    unfolding srv_trig_unset_def using set_rm_first
    by (intro trigs_away_upd[OF assms(1) _ assms(2,3)]) fastforce
  moreover have "trigs_away qs (A\<lparr>srv_vars := upd_first P (\<lambda>v. v\<lparr>av_trigs := av_trigs v @ [c]\<rparr>) (srv_vars A)\<rparr>)" for P
    by (rule trigs_away_upd[OF assms(1) _ assms(2,3)]) auto
  moreover have "trigs_away qs (A\<lparr>srv_users := us\<rparr>)" for us using assms(1) by (simp add: trigs_away_def)
  moreover have "trigs_away qs (A\<lparr>srv_vars := new_var var type n now # srv_vars A\<rparr>)" for var type n
    using assms(1) by (simp add: trigs_away_def new_var_def)
  ultimately show ?thesis using assms(1,4) ts
    by (auto simp: srv_pure_def srv_create_def srv_destroy_def srv_login_def srv_logout_def srv_trig_set_def
        Let_def case_prod_beta split: if_splits option.splits)
qed

subsection \<open>One request\<close>

lemma send_queue_calm [simp]:
  "calm (w_os w) \<Longrightarrow> queue_send q m w = (True, enqueue q m (w\<lparr>w_os := (w_os w)\<lparr>calls := calls (w_os w) + 1\<rparr>\<rparr>))"
  by (simp add: queue_send_def Let_def)

lemma receive_queue_calm:
  "calm (w_os w) \<Longrightarrow> queue_receive P q buff w = (case take_first P (w_queue w q) of None \<Rightarrow> None
     | Some (m, ms) \<Rightarrow> Some (True, overlay m buff, w\<lparr>w_os := (w_os w)\<lparr>calls := calls (w_os w) + 1\<rparr>,
         w_queue := (w_queue w)(q := ms)\<rparr>))"
  by (simp add: queue_receive_def Let_def split: option.splits)

text \<open>What a world looks like after a request of \<open>c\<close> that triggered \<open>ts\<close>, before the reply is read.\<close>

definition answered :: "int \<Rightarrow> world \<Rightarrow> comm_clt \<Rightarrow> db_data \<Rightarrow> db_data \<Rightarrow> comm_clt list \<Rightarrow> world \<Rightarrow> bool" where
  "answered qs w c m r ts w' \<longleftrightarrow> calm (w_os w') \<and> sent (w_os w') = [] \<and> msgget (w_os w') = msgget (w_os w) \<and>
     (\<forall>q. w_queue w' q = w_queue w q @ [trigger_of m. c \<leftarrow> ts, xport_info c = q] @ (if q = xport_info c then [Reply r] else []))"

lemma turn_law:
  assumes "server_at (w_srv w) pdb pusr A" "trigs_away qs A" "at_rest qs w" "dcmd m \<in> commands"
    and "svc = \<lparr>xport = COMM_PSX_XPORT, xport_info = qs\<rparr>"
    and "c = \<lparr>xport = COMM_PSX_XPORT, xport_info = msgget (w_os w) (dkey m)\<rparr>" "xport_info c \<noteq> qs"
  shows "\<exists>mem. case srv_pure mem c m now stk A of
      None \<Rightarrow> server_turns (Suc n) pdb pusr svc now stk (enqueue qs (Reply m) w) = None
    | Some (st, r, ts, A') \<Rightarrow> \<exists>w'. server_turns (Suc n) pdb pusr svc now stk (enqueue qs (Reply m) w) = Some w' \<and>
        server_at (w_srv w') pdb pusr A' \<and> trigs_away qs A' \<and> answered qs w c m r ts w' \<and> w_queue w' qs = []"
proof -
  have calm: "calm (w_os w)" and sent: "sent (w_os w) = []" and qs: "w_queue w qs = []"
    using assms(3) by (simp_all add: at_rest_def)
  let ?s = "(w_os w)\<lparr>calls := calls (w_os w) + 1\<rparr>"
  let ?w = "(enqueue qs (Reply m) w)\<lparr>w_os := ?s, w_queue := (w_queue (enqueue qs (Reply m) w))(qs := [])\<rparr>"
  have q: "w_queue (enqueue qs (Reply m) w) qs = [Reply m]" by (simp add: enqueue_def qs)
  have psx: "psx c" using assms(6) by simp
  have recv: "comm_sync_recv svc stk (enqueue qs (Reply m) w) = Some (Some c, m, ?w)"
    using assms(5,6) calm by (simp add: comm_sync_recv_def receive_queue_calm q enqueue_def qs)
  have srv: "w_srv ?w = w_srv w" "w_srv (enqueue qs (Reply m) w) = w_srv w" "w_queue ?w = w_queue w" by (simp_all add: enqueue_def qs fun_upd_idem)
  have rest: "server_turns n pdb pusr svc now stk w' = Some w'" if "w_queue w' qs = []" for w'
    using that assms(5) by (cases n) simp_all
  have step: "server_turns (Suc n) pdb pusr svc now stk (enqueue qs (Reply m) w) = do {
      (status, s, h) \<leftarrow> slv_cmd pdb pusr c m now stk ?s (w_srv w);
      server_turns n pdb pusr svc now stk (post (?w\<lparr>w_os := s, w_srv := h\<rparr>)) }"
    using q by (simp add: assms(5) server_turn_def recv[unfolded assms(5)] srv case_prod_unfold del: fun_upd_apply)
  obtain mem where mem: "serves pdb pusr (slv_cmd pdb pusr c m now stk ?s (w_srv w)) (srv_step mem c m now stk ?s A)"
    using request_refines[OF assms(1) psx] by blast
  have pure: "srv_step mem c m now stk ?s A = map_option (\<lambda>(st, r, ts, A').
      (st, ?s\<lparr>calls := calls ?s + length ts + 1,
         sent := sent ?s @ map (\<lambda>c. (c, trigger_of m)) ts @ [(c, Reply r)]\<rparr>, A')) (srv_pure mem c m now stk A)"
    by (rule step_pure) (use calm psx assms(4) trigs_away_psx[OF assms(2)] in simp_all)
  show ?thesis
  proof (cases "srv_pure mem c m now stk A")
    case None
    then show ?thesis using mem pure by (intro exI[of _ mem]) (simp add: serves_def step del: server_turns.simps)
  next
    case (Some x)
    obtain st r ts A' where x: "x = (st, r, ts, A')" by (cases x)
    let ?s' = "?s\<lparr>calls := calls ?s + length ts + 1,
         sent := map (\<lambda>c. (c, trigger_of m)) ts @ [(c, Reply r)]\<rparr>"
    obtain h where h: "slv_cmd pdb pusr c m now stk ?s (w_srv w) = Some (st, ?s', h)" "server_at h pdb pusr A'"
      using mem pure Some x sent by (auto simp: serves_def)
    have away: "trigs_away qs A'" "list_all (\<lambda>c. psx c \<and> xport_info c \<noteq> qs) ts"
      using pure_trigs_away[OF assms(2) psx assms(7) Some[unfolded x]] by simp_all
    let ?w' = "post (?w\<lparr>w_os := ?s', w_srv := h\<rparr>)"
    have e: "[m. (c, m) \<leftarrow> map (\<lambda>c. (c, trigger_of m)) ts, xport_info c = q] = [trigger_of m. c \<leftarrow> ts, xport_info c = q]" for q
      by (induction ts) auto
    have a: "answered qs w c m r ts ?w'" using calm srv(3) e
      by (auto simp: answered_def post_def enqueue_def)
    have "w_queue ?w' qs = []" using a away(2) assms(7) qs by (auto simp: answered_def list_all_iff concat_eq_Nil_conv)
    then show ?thesis using Some x h away(1) a rest[of ?w'] step
      by (intro exI[of _ mem]) (auto simp: post_def simp del: server_turns.simps)
  qed
qed

text \<open>The environment of a client: the server serves what is in its queue.\<close>

definition with_server :: "cenv \<Rightarrow> ptr \<Rightarrow> ptr \<Rightarrow> int \<Rightarrow> int \<Rightarrow> db_data \<Rightarrow> bool" where
  "with_server env pdb pusr qs now stk \<longleftrightarrow>
     others env = server_turns 1 pdb pusr \<lparr>xport = COMM_PSX_XPORT, xport_info = qs\<rparr> now stk"

definition triggered_by :: "world \<Rightarrow> db_data \<Rightarrow> comm_clt list \<Rightarrow> world \<Rightarrow> bool" where
  "triggered_by w m ts w' \<longleftrightarrow> msgget (w_os w') = msgget (w_os w) \<and>
     (\<forall>q. w_queue w' q = w_queue w q @ [trigger_of m. c \<leftarrow> ts, xport_info c = q])"

lemma call_law:
  assumes "server_at (w_srv w) pdb pusr A" "trigs_away qs A" "at_rest qs w" "dcmd m \<in> commands"
    and "with_server env pdb pusr qs now stk" "client_at (msgget (w_os w)) h pclt q qs"
    and "get_handle h pclt = Some d" "dkey m = dc_key d"
  shows "\<exists>mem. case srv_pure mem \<lparr>xport = COMM_PSX_XPORT, xport_info = q\<rparr> m now stk A of
      None \<Rightarrow> call_server env d m rstk h w = None
    | Some (st, r, ts, A') \<Rightarrow> \<exists>w'. call_server env d m rstk h w = Some (True, r, w') \<and>
        server_at (w_srv w') pdb pusr A' \<and> trigs_away qs A' \<and> at_rest qs w' \<and> triggered_by w m ts w'"
proof -
  have calm: "calm (w_os w)" and trigs: "\<And>q. only_trigs (w_queue w q)"
    using assms(3) by (simp_all add: at_rest_def)
  let ?c = "\<lparr>xport = COMM_PSX_XPORT, xport_info = q\<rparr>"
  let ?w = "w\<lparr>w_os := (w_os w)\<lparr>calls := Suc (calls (w_os w))\<rparr>\<rparr>"
  have cl: "dc_pcomm d \<noteq> NULL" "get_clt h (dc_pcomm d) = Some \<lparr>xport = COMM_PSX_XPORT, xport_info = qs\<rparr>"
    "get_clt h (dc_pread d) = Some ?c" "msgget (w_os w) (dc_key d) = q" "q \<noteq> qs"
    using assms(6,7) by (auto simp: client_at_def)
  define turn where "turn = server_turns 1 pdb pusr \<lparr>xport = COMM_PSX_XPORT, xport_info = qs\<rparr> now stk"
  have turn: "others env = turn" using assms(5) by (simp add: with_server_def turn_def)
  have run: "call_server env d m rstk h w = do {
      w \<leftarrow> turn (enqueue qs (Reply m) ?w);
      queue_receive (\<lambda>m. mtype m \<noteq> DB_TRIGGER) q (comm_clt_cpy ?c rstk) w }"
    using cl turn calm by (simp add: call_server_def comm_sync_send_def comm_clt_cpy_def
        Let_def del: get_kind)
  have at: "server_at (w_srv ?w) pdb pusr A" "at_rest qs ?w" using assms(1,3) by (simp_all add: at_rest_def)
  have c: "?c = \<lparr>xport = COMM_PSX_XPORT, xport_info = msgget (w_os ?w) (dkey m)\<rparr>" "xport_info ?c \<noteq> qs"
    using cl(4,5) assms(8) by simp_all
  from turn_law[OF at(1) assms(2) at(2) assms(4) refl c, where now = now and stk = stk and n = 0]
  obtain mem where mem: "case srv_pure mem ?c m now stk A of
      None \<Rightarrow> turn (enqueue qs (Reply m) ?w) = None
    | Some (st, r, ts, A') \<Rightarrow> \<exists>w'. turn (enqueue qs (Reply m) ?w) = Some w' \<and>
        server_at (w_srv w') pdb pusr A' \<and> trigs_away qs A' \<and> answered qs ?w ?c m r ts w' \<and> w_queue w' qs = []"
    unfolding turn_def One_nat_def by blast
  show ?thesis
  proof (cases "srv_pure mem ?c m now stk A")
    case None
    then show ?thesis using mem run by (intro exI[of _ mem]) simp
  next
    case (Some x)
    obtain st r ts A' where x: "x = (st, r, ts, A')" by (cases x)
    then obtain w1 where w1: "turn (enqueue qs (Reply m) ?w) = Some w1"
      "server_at (w_srv w1) pdb pusr A'" "trigs_away qs A'" "answered qs ?w ?c m r ts w1" "w_queue w1 qs = []"
      using mem Some by auto
    let ?T = "\<lambda>q. [trigger_of m. c \<leftarrow> ts, xport_info c = q]"
    have T: "only_trigs (w_queue w q' @ ?T q')" for q'
      using trigs[of q'] by (auto simp: only_trigs_def list_all_iff trigger_of_def)
    have q: "w_queue w1 q = (w_queue w q @ ?T q) @ [Reply r]" using w1(4) by (simp add: answered_def)
    let ?w' = "w1\<lparr>w_os := (w_os w1)\<lparr>calls := calls (w_os w1) + 1\<rparr>, w_queue := (w_queue w1)(q := w_queue w q @ ?T q)\<rparr>"
    have "calm (w_os w1)" using w1(4) by (simp add: answered_def)
    then have "call_server env d m rstk h w = Some (True, r, ?w')"
      using take_first_reply[OF T, of "Reply r" q "[]"] pure_reply_cmd[OF Some[unfolded x]]
      by (simp add: run w1(1) receive_queue_calm q)
    moreover have all: "w_queue ?w' q' = w_queue w q' @ ?T q'" for q' using w1(4) by (simp add: answered_def)
    moreover have "at_rest qs ?w'" using w1(4,5) T cl(5) unfolding at_rest_def all by (auto simp: answered_def)
    ultimately show ?thesis using Some x w1
      by (intro exI[of _ mem]) (auto simp: triggered_by_def answered_def simp del: fun_upd_apply)
  qed
qed

end
