(* ===== verification/DbCltProps.thy ===== *)
theory DbCltProps
  imports DbProps DbMeet
begin

text \<open>
  What the clients of the data server get (db_clt.c and db_utils.h together with db_slv.c and
  db_comm.c): calls of any number of clients in any order, each with its own memory, against the
  abstract server.
\<close>

datatype client_op = OpCreate u32 u32 u32
  | OpRead u32 u32
  | OpUpdate u32 u32 nat "u8 list"
  | OpDestroy u32 u32
  | OpTrigSet u32 u32
  | OpTrigUnset u32 u32

text \<open>The calls of db_clt.c; \<open>stk\<close> and \<open>rstk\<close> are what their buffers hold.\<close>

fun do_op :: "cenv \<Rightarrow> ptr \<Rightarrow> client_op \<Rightarrow> db_data \<Rightarrow> db_data \<Rightarrow> dbobj heap \<Rightarrow> world
    \<Rightarrow> ((bool \<times> u8 list) \<times> dbobj heap \<times> world) option" where
  "do_op env p (OpCreate var type size1) stk rstk h w = do {
     (ok, h, w) \<leftarrow> clt_create env p var type size1 stk rstk h w; Some ((ok, []), h, w) }"
| "do_op env p (OpRead var type) stk rstk h w = do {
     (ok, d, w) \<leftarrow> clt_read env p var type rstk stk h w; Some ((ok, dvalue d), h, w) }"
| "do_op env p (OpUpdate var type size1 x) stk rstk h w = do {
     (ok, w) \<leftarrow> clt_update env p var type size1 x stk rstk h w; Some ((ok, []), h, w) }"
| "do_op env p (OpDestroy var type) stk rstk h w = do {
     (ok, w) \<leftarrow> clt_destroy env p var type stk rstk h w; Some ((ok, []), h, w) }"
| "do_op env p (OpTrigSet var type) stk rstk h w = do {
     (ok, w) \<leftarrow> clt_trig_set env p var type stk rstk h w; Some ((ok, []), h, w) }"
| "do_op env p (OpTrigUnset var type) stk rstk h w = do {
     (ok, w) \<leftarrow> clt_trig_unset env p var type stk rstk h w; Some ((ok, []), h, w) }"

text \<open>The same calls of the client with queue \<open>q\<close> on the abstract server.\<close>

abbreviation "queue q \<equiv> \<lparr>xport = COMM_PSX_XPORT, xport_info = q\<rparr>"

fun abs_op :: "bool \<Rightarrow> int \<Rightarrow> client_op \<Rightarrow> int \<Rightarrow> db_data \<Rightarrow> server \<Rightarrow> ((bool \<times> u8 list) \<times> server) option" where
  "abs_op mem q (OpCreate var type size1) now stk A =
     (if var \<le> MAX_DB_BUILTIN_VAR \<or> MAX_DATA_SIZE < unat size1 then Some ((False, []), A)
      else let (st, A) = srv_create mem var type (unat size1) now A in Some ((st, []), A))"
| "abs_op mem q (OpRead var type) now stk A = do {
     (st, d) \<leftarrow> srv_read var type A; Some ((dvar d \<noteq> DB_BAD_VAR, dvalue d), A) }"
| "abs_op mem q (OpUpdate var type size1 x) now stk A =
     (if MAX_DATA_SIZE < size1 then Some ((False, []), A) else do {
        y \<leftarrow> copy_value size1 x (dvalue stk);
        case find (is_var var type) (srv_vars A) of None \<Rightarrow> Some ((False, []), A)
        | Some v \<Rightarrow> do {
            z \<leftarrow> copy_value (av_size v) y (dvalue (av_data v));
            Some ((True, []), set_value var type z now A)
          }
      })"
| "abs_op mem q (OpDestroy var type) now stk A = do {
     (st, A) \<leftarrow> srv_destroy var type A; Some ((st, []), A) }"
| "abs_op mem q (OpTrigSet var type) now stk A = (let (st, A) = srv_trig_set mem (queue q) var type A in Some ((st, []), A))"
| "abs_op mem q (OpTrigUnset var type) now stk A = Some ((False, []), srv_trig_unset (queue q) var type A)"

lemma set_error_client:
  assumes "client_at getq h p q qs"
  shows "\<exists>h'. set_error p e h = Some h' \<and> client_at getq h' p q qs"
proof -
  obtain d where d: "cells h p = Some (Obj (Handle d))" "p \<noteq> NULL" "dc_pcomm d \<noteq> NULL"
    "cells h (dc_pcomm d) = Some (Obj (Clt (queue qs)))" "cells h (dc_pread d) = Some (Obj (Clt (queue q)))"
    "getq (dc_key d) = q" "q \<noteq> qs" using assms by (auto simp: client_at_def)
  then have "dc_pcomm d \<noteq> p" "dc_pread d \<noteq> p" by auto
  then show ?thesis using d by (simp add: set_error_def client_at_def get_handle_def get_obj_def)
qed

text \<open>One call refines the abstract one, whatever the memory of the server allows.\<close>

definition op_refines :: "ptr \<Rightarrow> ptr \<Rightarrow> (int \<Rightarrow> int) \<Rightarrow> ptr \<Rightarrow> int \<Rightarrow> int \<Rightarrow>
    ((bool \<times> u8 list) \<times> dbobj heap \<times> world) option \<Rightarrow> ((bool \<times> u8 list) \<times> server) option \<Rightarrow> bool" where
  "op_refines pdb pusr getq p q qs r a \<longleftrightarrow> (case a of None \<Rightarrow> r = None
     | Some (res, A) \<Rightarrow> \<exists>h w. r = Some (res, h, w) \<and> server_at (w_srv w) pdb pusr A \<and> trigs_away qs A \<and>
         at_rest qs w \<and> client_at getq h p q qs \<and> msgget (w_os w) = getq)"

lemma op_refines_simps [simp]:
  "op_refines pdb pusr getq p q qs r None = (r = None)"
  "op_refines pdb pusr getq p q qs (Some (res', h, w)) (Some (res, A)) =
     (res' = res \<and> server_at (w_srv w) pdb pusr A \<and> trigs_away qs A \<and> at_rest qs w \<and>
      client_at getq h p q qs \<and> msgget (w_os w) = getq)"
  by (auto simp: op_refines_def)

lemma op_law:
  assumes "server_at (w_srv w) pdb pusr A" "trigs_away qs A" "at_rest qs w"
    and "with_server env pdb pusr qs now sstk" "client_at (msgget (w_os w)) h p q qs"
  shows "\<exists>mem. op_refines pdb pusr (msgget (w_os w)) p q qs (do_op env p op stk rstk h w) (abs_op mem q op now stk A)"
proof -
  obtain d where d: "get_handle h p = Some d" "p \<noteq> NULL" "get_clt h (dc_pcomm d) = Some (queue qs)"
    using assms(5) by (auto simp: client_at_def)
  note call = call_law[OF assms(1-3) _ assms(4,5) d(1)]
  note here = d srv_pure_def commands_def bool_reply_def triggered_by_def
  show ?thesis
  proof (cases op)
    case (OpCreate var type size1)
    show ?thesis
    proof (cases "var \<le> MAX_DB_BUILTIN_VAR \<or> MAX_DATA_SIZE < unat size1")
      case True
      let ?e = "if var \<le> MAX_DB_BUILTIN_VAR then 1 else 2 :: int"
      have "clt_create env p var type size1 stk rstk h w = do { h \<leftarrow> set_error p ?e h; Some (False, h, w) }"
        using True by (auto simp: clt_create_def)
      then show ?thesis using True OpCreate assms set_error_client[OF assms(5), of ?e] by auto
    next
      case False
      let ?m = "stk\<lparr>dcmd := DB_CREATE_CMD, dkey := dc_key d, dvar := var, dtype := type,
          dvalue := set_db_long size1 (dvalue stk)\<rparr>"
      have "dcmd ?m \<in> commands" "dkey ?m = dc_key d" by (simp_all add: commands_def)
      from call[OF this, of rstk] show ?thesis
        by (rule ex_forward) (use OpCreate False assms(5) in \<open>auto simp: here clt_create_def case_prod_beta Let_def simp del: get_kind\<close>)
    qed
  next
    case (OpRead var type)
    let ?m = "stk\<lparr>dcmd := DB_READ_CMD, dkey := dc_key d, dtype := type, dvar := var\<rparr>"
    show ?thesis using call[of ?m rstk] OpRead assms(5)
      by (cases "srv_read var type A") (auto simp: here clt_read_def simp del: get_kind)
  next
    case (OpUpdate var type size1 x)
    show ?thesis
    proof (cases "MAX_DATA_SIZE < size1")
      case True
      then show ?thesis using OpUpdate assms by (auto simp: clt_update_def simp del: get_kind)
    next
      case False
      show ?thesis
      proof (cases "copy_value size1 x (dvalue stk)")
        case None
        then show ?thesis using OpUpdate False d by (simp add: op_refines_def clt_update_def)
      next
        case (Some y)
        let ?m = "\<lparr>dcmd = DB_UPDATE_CMD, dkey = dc_key d, dvar = var, dtype = type, dtime = env_clock env, dvalue = y\<rparr>"
        show ?thesis
        proof (cases "find (is_var var type) (srv_vars A)")
          case None
          then show ?thesis using call[of ?m rstk] OpUpdate False Some assms(5)
            by (auto simp: here clt_update_def simp del: get_kind)
        next
          case (Some v)
          then show ?thesis using call[of ?m rstk] OpUpdate False \<open>copy_value size1 x (dvalue stk) = Some y\<close> assms(5)
            by (cases "copy_value (av_size v) y (dvalue (av_data v))") (auto simp: here clt_update_def simp del: get_kind)
        qed
      qed
    qed
  next
    case (OpDestroy var type)
    let ?m = "stk\<lparr>dcmd := DB_DESTROY_CMD, dkey := dc_key d, dvar := var, dtype := type\<rparr>"
    show ?thesis using call[of ?m rstk] OpDestroy assms(5)
      by (cases "srv_destroy var type A") (auto simp: here clt_destroy_def simp del: get_kind)
  next
    case (OpTrigSet var type)
    let ?m = "stk\<lparr>dcmd := DB_TRIG_SET_CMD, dkey := dc_key d, dvar := var, dtype := type\<rparr>"
    have "dcmd ?m \<in> commands" "dkey ?m = dc_key d" by (simp_all add: commands_def)
    from call[OF this, of rstk] show ?thesis
      by (rule ex_forward) (use OpTrigSet assms(5) in \<open>auto simp: here clt_trig_set_def case_prod_beta Let_def simp del: get_kind\<close>)
  next
    case (OpTrigUnset var type)
    let ?m = "stk\<lparr>dcmd := DB_TRIG_UNSET_CMD, dkey := dc_key d, dvar := var, dtype := type\<rparr>"
    show ?thesis using call[of ?m "rstk\<lparr>dvalue := set_db_bool False (dvalue rstk)\<rparr>"] OpTrigUnset assms(5)
      by (auto simp: here clt_trig_unset_def simp del: get_kind)
  qed
qed

subsection \<open>Any number of clients\<close>

text \<open>
  A call: who makes it, what, its environment with the server's clock and reply buffer, and the
  client's two buffers.
\<close>

type_synonym ccall = "nat \<times> client_op \<times> cenv \<times> int \<times> db_data \<times> db_data \<times> db_data"

fun run_calls :: "(nat \<Rightarrow> ptr) \<Rightarrow> ccall list \<Rightarrow> (nat \<Rightarrow> dbobj heap) \<Rightarrow> world
    \<Rightarrow> ((bool \<times> u8 list) list \<times> (nat \<Rightarrow> dbobj heap) \<times> world) option" where
  "run_calls cl [] hs w = Some ([], hs, w)"
| "run_calls cl ((i, op, env, now, sstk, stk, rstk) # cs) hs w = do {
     (r, h, w) \<leftarrow> do_op env (cl i) op stk rstk (hs i) w;
     (rs, hs, w) \<leftarrow> run_calls cl cs (hs(i := h)) w;
     Some (r # rs, hs, w)
   }"

fun abs_calls :: "(nat \<Rightarrow> int) \<Rightarrow> bool list \<Rightarrow> ccall list \<Rightarrow> server \<Rightarrow> ((bool \<times> u8 list) list \<times> server) option" where
  "abs_calls q (mem # mems) ((i, op, env, now, sstk, stk, rstk) # cs) A = do {
     (r, A) \<leftarrow> abs_op mem (q i) op now stk A;
     (rs, A) \<leftarrow> abs_calls q mems cs A;
     Some (r # rs, A)
   }"
| "abs_calls q mems cs A = Some ([], A)"

abbreviation "served pdb pusr qs c \<equiv> (case c of (i, op, env, now, sstk, stk, rstk) \<Rightarrow> with_server env pdb pusr qs now sstk)"

definition system_at :: "ptr \<Rightarrow> ptr \<Rightarrow> (nat \<Rightarrow> ptr) \<Rightarrow> (nat \<Rightarrow> int) \<Rightarrow> int \<Rightarrow> (nat \<Rightarrow> dbobj heap) \<Rightarrow> world \<Rightarrow> server \<Rightarrow> bool" where
  "system_at pdb pusr cl q qs hs w A \<longleftrightarrow> server_at (w_srv w) pdb pusr A \<and> trigs_away qs A \<and> at_rest qs w \<and>
     (\<forall>i. client_at (msgget (w_os w)) (hs i) (cl i) (q i) qs)"

lemma calls_refine:
  assumes "system_at pdb pusr cl q qs hs w A" "list_all (served pdb pusr qs) cs"
  shows "\<exists>mems. length mems = length cs \<and> (case abs_calls q mems cs A of None \<Rightarrow> run_calls cl cs hs w = None
    | Some (rs, A') \<Rightarrow> \<exists>hs' w'. run_calls cl cs hs w = Some (rs, hs', w') \<and> system_at pdb pusr cl q qs hs' w' A')"
  using assms
proof (induction cs arbitrary: hs w A)
  case (Cons c cs)
  obtain i op env now sstk stk rstk where c: "c = (i, op, env, now, sstk, stk, rstk)" by (cases c)
  have at: "server_at (w_srv w) pdb pusr A" "trigs_away qs A" "at_rest qs w"
    "client_at (msgget (w_os w)) (hs i) (cl i) (q i) qs" "with_server env pdb pusr qs now sstk"
    using Cons.prems c by (simp_all add: system_at_def)
  obtain mem where mem: "op_refines pdb pusr (msgget (w_os w)) (cl i) (q i) qs
      (do_op env (cl i) op stk rstk (hs i) w) (abs_op mem (q i) op now stk A)"
    using op_law[OF at(1-3) at(5,4)] by blast
  show ?case
  proof (cases "abs_op mem (q i) op now stk A")
    case None
    then show ?thesis using mem c
      by (intro exI[of _ "mem # replicate (length cs) True"]) (simp add: op_refines_def)
  next
    case (Some x)
    obtain r A1 where x: "x = (r, A1)" by (cases x)
    then obtain h1 w1 where 1: "do_op env (cl i) op stk rstk (hs i) w = Some (r, h1, w1)"
      "server_at (w_srv w1) pdb pusr A1" "trigs_away qs A1" "at_rest qs w1"
      "client_at (msgget (w_os w)) h1 (cl i) (q i) qs" "msgget (w_os w1) = msgget (w_os w)"
      using mem Some by (auto simp: op_refines_def)
    have "system_at pdb pusr cl q qs (hs(i := h1)) w1 A1" using 1 Cons.prems(1) by (simp add: system_at_def)
    from Cons.IH[OF this] Cons.prems(2) obtain mems where "length mems = length cs"
      "case abs_calls q mems cs A1 of None \<Rightarrow> run_calls cl cs (hs(i := h1)) w1 = None
       | Some (rs, A') \<Rightarrow> \<exists>hs' w'. run_calls cl cs (hs(i := h1)) w1 = Some (rs, hs', w') \<and>
           system_at pdb pusr cl q qs hs' w' A'" by auto
    then show ?thesis using Some x 1(1) c
      by (intro exI[of _ "mem # mems"]) (auto split: option.splits)
  qed
qed simp

text \<open>A world to start from: the server after its start and clients 0, 1, 2, ... with one handle each.\<close>

definition getq0 :: "int \<Rightarrow> int" where "getq0 k = k + 1000"

definition client0 :: "nat \<Rightarrow> dbobj heap" where
  "client0 i = \<lparr>cells = [1 \<mapsto> Obj (Handle \<lparr>dc_error = 0, dc_pcomm = 2, dc_pread = 3, dc_ptrig_head = 4,
       dc_key = int i + 1, dc_pservice = ''db''\<rparr>), 2 \<mapsto> Obj (Clt (queue 5)), 3 \<mapsto> Obj (Clt (queue (int i + 1001))),
       4 \<mapsto> DlHead \<lparr>dh_length = 0, dh_pfirst = NULL, dh_plast = NULL\<rparr>], avail = []\<rparr>"

definition world0 :: "dbobj heap \<Rightarrow> world" where
  "world0 h = \<lparr>w_os = os0\<lparr>msgget := getq0\<rparr>, w_queue = (\<lambda>q. []), w_srv = h\<rparr>"

definition stk0 :: db_data where "stk0 = edata zero_entry"

definition env0 :: cenv where
  "env0 = \<lparr>others = server_turns 1 1 6 (queue 5) 101 stk0, rendezvous = (\<lambda>c d w. (None, w)), locate = (\<lambda>x n p. 0),
     ftok = (\<lambda>f. 0), eintr = (\<lambda>n. False), dbytes = (\<lambda>t. replicate 8 0), env_pid = 1, env_uid = 0, env_gid = 0, env_clock = 100\<rparr>"

abbreviation call0 :: "nat \<Rightarrow> client_op \<Rightarrow> ccall" where
  "call0 i op \<equiv> (i, op, env0, 101, stk0, stk0, stk0)"

lemma served0: "with_server env0 (Suc 0) 6 5 101 stk0"
  by (simp add: with_server_def env0_def)

lemma stk0_value [simp]: "length (dvalue stk0) = MAX_DATA_SIZE"
  by (simp add: stk0_def zero_entry_def)

lemma system0:
  assumes "server_at h 1 6 A" "trigs_away 5 A"
  shows "system_at 1 6 (\<lambda>i. 1) (\<lambda>i. int i + 1001) 5 client0 (world0 h) A"
  using assms by (simp add: system_at_def at_rest_def world0_def os0_def only_trigs_def client_at_def client0_def getq0_def
      get_handle_def get_clt_def get_obj_def)

lemma init_away: "trigs_away qs (srv_init now)"
  by (simp add: trigs_away_def srv_init_def new_var_def)

text \<open>
  C3: calls of any number of clients, in any order, return what the same calls return on
  the abstract server (the memory of the server may run out at any call), as long as no system call
  fails; where the abstract server has a fault, the call does not return.
\<close>

theorem db_clients_refine:
  assumes "system_at pdb pusr cl q qs hs w A"
    and "list_all (\<lambda>(i, op, env, now, sstk, stk, rstk). with_server env pdb pusr qs now sstk) cs"
  shows "\<exists>mems. length mems = length cs \<and>
    (case abs_calls q mems cs A of None \<Rightarrow> run_calls cl cs hs w = None
     | Some (rs, A') \<Rightarrow> \<exists>hs' w'. run_calls cl cs hs w = Some (rs, hs', w') \<and> system_at pdb pusr cl q qs hs' w' A')"
  by (rule calls_refine[OF assms])

definition calls0 :: "ccall list" where
  "calls0 = [call0 0 (OpCreate 9 9 4), call0 1 (OpUpdate 9 9 4 [1, 2, 3, 4]), call0 2 (OpRead 9 9)]"

lemma calls0_sound: "list_all (\<lambda>(i, op, env, now, sstk, stk, rstk). with_server env 1 6 5 now sstk) calls0"
  by (simp add: calls0_def served0)

theorem db_clients_refine_witness:
  "\<exists>h. system_at 1 6 (\<lambda>i. 1) (\<lambda>i. int i + 1001) 5 client0 (world0 h) (srv_init 100) \<and>
    (\<exists>mems. length mems = length calls0 \<and> (case abs_calls (\<lambda>i. int i + 1001) mems calls0 (srv_init 100) of
       None \<Rightarrow> run_calls (\<lambda>i. 1) calls0 client0 (world0 h) = None
     | Some (rs, A') \<Rightarrow> \<exists>hs' w'. run_calls (\<lambda>i. 1) calls0 client0 (world0 h) = Some (rs, hs', w') \<and>
         system_at 1 6 (\<lambda>i. 1) (\<lambda>i. int i + 1001) 5 hs' w' A'))"
proof -
  obtain h where "server_at h 1 6 (srv_init 100)" using concrete_server by blast
  note s = system0[OF this init_away]
  show ?thesis by (rule exI[of _ h], rule conjI[OF s db_clients_refine[OF s calls0_sound]])
qed

subsection \<open>Calls return\<close>

text \<open>Values fill their union and no variable is larger; there is always a variable.\<close>

definition sound :: "server \<Rightarrow> bool" where
  "sound A \<longleftrightarrow> srv_vars A \<noteq> [] \<and> list_all (\<lambda>v. av_size v \<le> MAX_DATA_SIZE \<and> length (dvalue (av_data v)) = MAX_DATA_SIZE) (srv_vars A)"

fun op_sound :: "client_op \<Rightarrow> db_data \<Rightarrow> bool" where
  "op_sound (OpDestroy var type) stk = False"
| "op_sound (OpUpdate var type size1 x) stk = (size1 \<le> length x \<and> length (dvalue stk) = MAX_DATA_SIZE)"
| "op_sound op stk = True"

lemma upd_first_nonempty [simp]: "upd_first P f xs = [] \<longleftrightarrow> xs = []"
  by (cases xs) auto

lemma sound_upd:
  assumes "sound A" "\<And>v. av_size (f v) = av_size v"
    and "\<And>v. length (dvalue (av_data (f v))) = length (dvalue (av_data v)) \<or> length (dvalue (av_data (f v))) = MAX_DATA_SIZE"
  shows "sound (A\<lparr>srv_vars := upd_first P f (srv_vars A)\<rparr>)"
proof -
  let ?ok = "\<lambda>v. av_size v \<le> MAX_DATA_SIZE \<and> length (dvalue (av_data v)) = MAX_DATA_SIZE"
  have "?ok (f v)" if "?ok v" for v using that assms(2,3)[of v] by auto
  then have "list_all ?ok (upd_first P f vs)" if "list_all ?ok vs" for vs using that by (induction vs) auto
  then show ?thesis using assms(1) by (simp add: sound_def)
qed

lemma op_returns:
  assumes "sound A" "op_sound op stk"
  shows "\<exists>r A'. abs_op mem q op now stk A = Some (r, A') \<and> sound A'"
proof (cases op)
  case (OpCreate var type size1)
  have new: "sound (A\<lparr>srv_vars := new_var var type n now # srv_vars A\<rparr>)" if "n \<le> MAX_DATA_SIZE" for n
    using assms(1) that by (simp add: sound_def new_var_def)
  have created: "sound (snd (srv_create mem var type n now A))" if "n \<le> MAX_DATA_SIZE" for n
    unfolding srv_create_def using assms(1) new[OF that] by (simp split: if_split)
  show ?thesis
  proof (cases "var \<le> MAX_DB_BUILTIN_VAR \<or> MAX_DATA_SIZE < unat size1")
    case True
    then show ?thesis using OpCreate assms(1) by (intro exI[of _ "(False, [])"] exI[of _ A]) simp
  next
    case False
    let ?r = "srv_create mem var type (unat size1) now A"
    have "abs_op mem q op now stk A = Some ((fst ?r, []), snd ?r)" unfolding OpCreate abs_op.simps
      by (simp only: False if_False Let_def case_prod_beta)
    then show ?thesis using created[of "unat size1"] False by (intro exI conjI) (assumption, simp)
  qed
next
  case (OpRead var type)
  then show ?thesis using assms(1) by (auto simp: srv_read_def sound_def split: option.splits)
next
  case (OpUpdate var type size1 x)
  show ?thesis
  proof (cases "MAX_DATA_SIZE < size1")
    case False
    have y: "copy_value size1 x (dvalue stk) = Some (take size1 x @ drop size1 (dvalue stk))"
      "length (take size1 x @ drop size1 (dvalue stk)) = MAX_DATA_SIZE"
      using False assms(2) OpUpdate by (auto simp: copy_value_def)
    show ?thesis
    proof (cases "find (is_var var type) (srv_vars A)")
      case (Some v)
      then have "av_size v \<le> MAX_DATA_SIZE" "length (dvalue (av_data v)) = MAX_DATA_SIZE"
        using assms(1) find_mem[OF Some] by (auto simp: sound_def list_all_iff)
      then obtain z where z: "copy_value (av_size v) (take size1 x @ drop size1 (dvalue stk)) (dvalue (av_data v)) = Some z"
        "length z = MAX_DATA_SIZE" using y(2) by (fastforce simp: copy_value_def)
      have "sound (set_value var type z now A)" unfolding set_value_def by (rule sound_upd[OF assms(1)]) (simp_all add: z(2))
      then show ?thesis using OpUpdate False y(1) Some z(1) by (intro exI[of _ "(True, [])"] exI) simp
    qed (use OpUpdate False y assms(1) in \<open>simp add: ex_bool_eq\<close>)
  qed (use OpUpdate assms(1) in \<open>simp add: ex_bool_eq\<close>)
next
  case (OpTrigSet var type)
  then show ?thesis using assms(1) by (auto simp: srv_trig_set_def intro!: sound_upd split: option.splits)
next
  case (OpTrigUnset var type)
  then show ?thesis using assms(1) by (auto simp: srv_trig_unset_def intro!: sound_upd)
qed (use assms in simp)

lemma calls_return:
  assumes "length mems = length cs" "sound A" "list_all (\<lambda>(i, op, env, now, sstk, stk, rstk). op_sound op stk) cs"
  shows "\<exists>rs A'. abs_calls q mems cs A = Some (rs, A') \<and> length rs = length cs"
  using assms
proof (induction cs arbitrary: mems A)
  case (Cons c cs)
  obtain i op env now sstk stk rstk where c: "c = (i, op, env, now, sstk, stk, rstk)" by (cases c)
  obtain mem ms where m: "mems = mem # ms" "length ms = length cs" using Cons.prems(1) by (cases mems) auto
  obtain r A1 where 1: "abs_op mem (q i) op now stk A = Some (r, A1)" "sound A1"
    using op_returns[OF Cons.prems(2)] Cons.prems(3) c by fastforce
  obtain rs A' where "abs_calls q ms cs A1 = Some (rs, A')" "length rs = length cs"
    using Cons.IH[OF m(2) 1(2)] Cons.prems(3) by auto
  then show ?case using 1 m c by simp
qed simp

text \<open>
  C24: no client waits for ever.  While variables fit their 128 bytes, every creation, read, update and trigger call of
  every client returns, in any order; only \<open>clt_destroy\<close> can take the server down.
\<close>

theorem db_calls_return:
  assumes "system_at pdb pusr cl q qs hs w A" "sound A"
    and "list_all (\<lambda>(i, op, env, now, sstk, stk, rstk). with_server env pdb pusr qs now sstk \<and> op_sound op stk) cs"
  shows "\<exists>rs hs' w'. run_calls cl cs hs w = Some (rs, hs', w') \<and> length rs = length cs"
proof -
  have l: "list_all (served pdb pusr qs) cs" "list_all (\<lambda>(i, op, env, now, sstk, stk, rstk). op_sound op stk) cs"
    using assms(3) by (auto simp: list_all_iff)
  obtain mems where m: "length mems = length cs" "case abs_calls q mems cs A of None \<Rightarrow> run_calls cl cs hs w = None
      | Some (rs, A') \<Rightarrow> \<exists>hs' w'. run_calls cl cs hs w = Some (rs, hs', w') \<and> system_at pdb pusr cl q qs hs' w' A'"
    using calls_refine[OF assms(1) l(1)] by blast
  show ?thesis using calls_return[OF m(1) assms(2) l(2), of q] m(2) by auto
qed

theorem db_calls_return_witness:
  "\<exists>h rs hs' w'. run_calls (\<lambda>i. 1) calls0 client0 (world0 h) = Some (rs, hs', w') \<and> length rs = length calls0"
proof -
  obtain h where "server_at h 1 6 (srv_init 100)" using concrete_server by blast
  note s = system0[OF this init_away]
  have "sound (srv_init 100)" by (simp add: sound_def srv_init_def new_var_def)
  moreover have "list_all (\<lambda>(i, op, env, now, sstk, stk, rstk). with_server env 1 6 5 now sstk \<and> op_sound op stk) calls0"
    by (simp add: served0 calls0_def)
  ultimately show ?thesis using db_calls_return[OF s] by blast
qed

subsection \<open>What is written is read\<close>

fun op_leaves :: "u32 \<Rightarrow> u32 \<Rightarrow> client_op \<Rightarrow> bool" where
  "op_leaves var type (OpUpdate v t size1 x) = ((v, t) \<noteq> (var, type))"
| "op_leaves var type (OpDestroy v t) = ((v, t) \<noteq> (var, type))"
| "op_leaves var type op = True"

lemma value_upd_same:
  "(\<And>v. is_var v' t' v \<Longrightarrow> is_var v' t' (f v)) \<Longrightarrow> (\<And>v. av_data (f v) = av_data v) \<Longrightarrow>
   value_of var type (A\<lparr>srv_vars := upd_first (is_var v' t') f (srv_vars A)\<rparr>) = value_of var type A"
  unfolding value_of_def by simp (rule find_upd_first)

lemma op_keeps_value:
  assumes "value_of var type A = Some d" "op_leaves var type op" "abs_op mem q op now stk A = Some (r, A')"
  shows "value_of var type A' = Some d"
proof (cases op)
  case (OpCreate v t n)
  have "value_of var type (A\<lparr>srv_vars := new_var v t k now # srv_vars A\<rparr>) = Some d"
    if "find (is_var v t) (srv_vars A) = None" for k
    using assms(1) that by (auto simp: value_of_def is_var_def new_var_def)
  then show ?thesis using assms OpCreate by (auto simp: srv_create_def Let_def split: if_splits)
next
  case (OpUpdate v t n x)
  have "value_of var type (set_value v t z now A) = value_of var type A" for z
    using assms(2) OpUpdate unfolding value_of_def set_value_def by simp (rule find_upd_first, auto simp: is_var_def)
  then show ?thesis using assms OpUpdate by (auto split: if_splits option.splits)
next
  case (OpDestroy v t)
  then show ?thesis using assms find_rm_first[of v t var type]
    by (auto simp: srv_destroy_def value_of_def split: if_splits option.splits)
next
  case (OpTrigSet v t)
  then show ?thesis using assms value_upd_same[of v t "\<lambda>v. v\<lparr>av_trigs := g v\<rparr>" for g]
    by (auto simp: srv_trig_set_def is_var_def Let_def split: if_splits option.splits)
next
  case (OpTrigUnset v t)
  then show ?thesis using assms value_upd_same[of v t "\<lambda>v. v\<lparr>av_trigs := g v\<rparr>" for g]
    by (auto simp: srv_trig_unset_def is_var_def)
qed (use assms in auto)

lemma calls_keep_value:
  "value_of var type A = Some d \<Longrightarrow> list_all (\<lambda>c. op_leaves var type (fst (snd c))) cs \<Longrightarrow> length mems = length cs \<Longrightarrow>
   abs_calls q mems cs A = Some (rs, A') \<Longrightarrow> value_of var type A' = Some d"
proof (induction cs arbitrary: mems A rs)
  case (Cons c cs)
  obtain i op env now sstk stk rstk where c: "c = (i, op, env, now, sstk, stk, rstk)" by (cases c)
  obtain mem ms where m: "mems = mem # ms" "length ms = length cs" using Cons.prems(3) by (cases mems) auto
  obtain r A1 rs1 where 1: "abs_op mem (q i) op now stk A = Some (r, A1)" "abs_calls q ms cs A1 = Some (rs1, A')"
    using Cons.prems(4) c m(1) by auto
  have "value_of var type A1 = Some d" using op_keeps_value[OF Cons.prems(1) _ 1(1)] Cons.prems(2) c by simp
  then show ?case using Cons.IH[OF _ _ m(2) 1(2)] Cons.prems(2) by simp
qed simp

text \<open>One call of a system.\<close>

lemma system_op:
  assumes "system_at pdb pusr cl q qs hs w A" "with_server env pdb pusr qs now sstk"
    and "do_op env (cl i) op stk rstk (hs i) w = Some (r, h, w1)"
  shows "\<exists>mem A1. abs_op mem (q i) op now stk A = Some (r, A1) \<and> system_at pdb pusr cl q qs (hs(i := h)) w1 A1"
proof -
  have at: "server_at (w_srv w) pdb pusr A" "trigs_away qs A" "at_rest qs w"
    "client_at (msgget (w_os w)) (hs i) (cl i) (q i) qs" using assms(1) by (simp_all add: system_at_def)
  obtain mem where mem: "op_refines pdb pusr (msgget (w_os w)) (cl i) (q i) qs
      (do_op env (cl i) op stk rstk (hs i) w) (abs_op mem (q i) op now stk A)"
    using op_law[OF at(1-3) assms(2) at(4)] by blast
  then obtain A1 where A1: "abs_op mem (q i) op now stk A = Some (r, A1)"
    using assms(3) by (cases "abs_op mem (q i) op now stk A") (auto simp: op_refines_def)
  have "system_at pdb pusr cl q qs (hs(i := h)) w1 A1" using mem A1 assms(1,3) by (simp add: system_at_def)
  then show ?thesis using A1 by blast
qed

text \<open>
  C5: what one client writes with \<open>db_clt_write\<close> another reads with \<open>db_clt_read\<close>: after a
  write of a whole variable that succeeded, and whatever calls of whatever clients that neither update nor
  destroy it, a read returns TRUE and the bytes written.
\<close>

theorem db_written_is_read:
  assumes "system_at pdb pusr cl q qs hs w A" "find (is_var var var) (srv_vars A) = Some v" "var \<noteq> DB_BAD_VAR"
    and "with_server env pdb pusr qs now sstk"
    and "db_clt_write env (cl i) var (av_size v) x stk rstk (hs i) w = Some (True, w1)"
    and "list_all (\<lambda>(i, op, env, now, sstk, stk, rstk). with_server env pdb pusr qs now sstk \<and> op_leaves var var op) cs"
    and "run_calls cl cs hs w1 = Some (rs, hs2, w2)"
    and "with_server env2 pdb pusr qs now2 sstk2"
  shows "\<exists>w3. db_clt_read env2 (cl j) var (av_size v) stk2 rstk2 (hs2 j) w2 = Some (True, take (av_size v) x, w3)"
proof -
  let ?n = "av_size v" and ?op = "OpUpdate var var (av_size v) x"
  have "do_op env (cl i) ?op stk rstk (hs i) w = Some ((True, []), hs i, w1)"
    using assms(5) by (simp add: db_clt_write_def)
  from system_op[OF assms(1,4) this] obtain mem A1 where
    A1: "abs_op mem (q i) ?op now stk A = Some ((True, []), A1)" "system_at pdb pusr cl q qs hs w1 A1" by auto
  from A1(1) assms(2) obtain y z where yz: "copy_value ?n x (dvalue stk) = Some y"
    "copy_value ?n y (dvalue (av_data v)) = Some z" "A1 = set_value var var z now A"
    by (auto split: if_splits)
  have z: "take ?n z = take ?n x" "?n \<le> length z"
    using yz(1,2) by (auto simp: copy_value_def split: if_splits)
  have v: "value_of var var A1 = Some ((av_data v)\<lparr>dvalue := z, dtime := now\<rparr>)"
  proof -
    have "find (is_var var var) (upd_first (is_var var var) (\<lambda>v. v\<lparr>av_data := (av_data v)\<lparr>dvalue := z, dtime := now\<rparr>\<rparr>) vs) =
        map_option (\<lambda>v. v\<lparr>av_data := (av_data v)\<lparr>dvalue := z, dtime := now\<rparr>\<rparr>) (find (is_var var var) vs)" for vs
      by (induction vs) (auto simp: is_var_def)
    then show ?thesis using assms(2) yz(3) by (simp add: value_of_def set_value_def)
  qed
  have cs: "list_all (served pdb pusr qs) cs" "list_all (\<lambda>c. op_leaves var var (fst (snd c))) cs"
    using assms(6) by (auto simp: list_all_iff)
  obtain mems where mems: "length mems = length cs" "case abs_calls q mems cs A1 of None \<Rightarrow> run_calls cl cs hs w1 = None
      | Some (rs, A') \<Rightarrow> \<exists>hs' w'. run_calls cl cs hs w1 = Some (rs, hs', w') \<and> system_at pdb pusr cl q qs hs' w' A'"
    using calls_refine[OF A1(2) cs(1)] by blast
  then obtain A2 where A2: "abs_calls q mems cs A1 = Some (rs, A2)" "system_at pdb pusr cl q qs hs2 w2 A2"
    using assms(7) by (auto split: option.splits)
  have "value_of var var A2 = Some ((av_data v)\<lparr>dvalue := z, dtime := now\<rparr>)"
    by (rule calls_keep_value[OF v cs(2) mems(1) A2(1)])
  then obtain u where u: "find (is_var var var) (srv_vars A2) = Some u" "av_data u = (av_data v)\<lparr>dvalue := z, dtime := now\<rparr>"
    by (auto simp: value_of_def)
  then have "dvar (av_data u) = var" using find_mem[OF u(1)] by (simp add: is_var_def)
  then have rd: "abs_op mem (q j) (OpRead var var) now2 stk2 A2 = Some ((True, z), A2)" for mem
    using u assms(3) by (simp add: srv_read_def)
  have at2: "server_at (w_srv w2) pdb pusr A2" "trigs_away qs A2" "at_rest qs w2"
    "client_at (msgget (w_os w2)) (hs2 j) (cl j) (q j) qs" using A2(2) by (simp_all add: system_at_def)
  obtain mem where "op_refines pdb pusr (msgget (w_os w2)) (cl j) (q j) qs
      (do_op env2 (cl j) (OpRead var var) stk2 rstk2 (hs2 j) w2) (abs_op mem (q j) (OpRead var var) now2 stk2 A2)"
    using op_law[OF at2(1-3) assms(8) at2(4)] by blast
  then obtain d w3 where "clt_read env2 (cl j) var var rstk2 stk2 (hs2 j) w2 = Some (True, d, w3)" "dvalue d = z"
    unfolding rd by (auto simp: op_refines_def)
  then show ?thesis using z by (intro exI[of _ w3]) (simp add: db_clt_read_def)
qed

text \<open>A server with variable 9, of four bytes, that client 1 watches.\<close>

definition req9 :: "int \<Rightarrow> db_data" where "req9 cmd = req cmd 9 9 (set_db_long 4 (replicate 128 0))"

definition var9 :: "comm_clt list \<Rightarrow> server" where
  "var9 cs = \<lparr>srv_vars = [(new_var 9 9 4 101)\<lparr>av_trigs := cs\<rparr>, new_var DB_BAD_VAR DB_BAD_TYPE MAX_DATA_SIZE 100], srv_users = []\<rparr>"

definition create9 :: "dbobj heap \<Rightarrow> (bool \<times> msg os \<times> dbobj heap) option" where
  "create9 h = slv_cmd 1 6 clt7 (req9 DB_CREATE_CMD) 101 stk0 os0 h"

definition watch9 :: "dbobj heap \<Rightarrow> (bool \<times> msg os \<times> dbobj heap) option" where
  "watch9 h = slv_cmd 1 6 (queue 1002) (req9 DB_TRIG_SET_CMD) 101 stk0 os0 h"

lemma create9_run: "Option.bind started (\<lambda>(r, h). map_option fst (create9 h)) = Some True"
  by code_simp

lemma watch9_run: "Option.bind started (\<lambda>(r, h). Option.bind (create9 h) (\<lambda>(st, s, h). map_option fst (watch9 h))) = Some True"
  by code_simp

lemma var9_server: "\<exists>h. server_at h 1 6 (var9 [])" "\<exists>h. server_at h 1 6 (var9 [queue 1002])"
proof -
  obtain h where h: "started = Some (Some (1, 5, 6), h)" using started_heap by blast
  have at: "server_at h 1 6 (srv_init 100)"
    by (rule server_starts[OF h[unfolded started_def]]) (simp add: heap0_def)
  obtain s1 h1 where c: "create9 h = Some (True, s1, h1)" using create9_run unfolding h by auto
  obtain mem A1 where A1: "srv_step mem clt7 (req9 DB_CREATE_CMD) 101 stk0 os0 (srv_init 100) = Some (True, s1, A1)"
    "server_at h1 1 6 A1" using cmd_server[OF at _ c[unfolded create9_def]] by (auto simp: clt7_def)
  have n: "unat (db_long (set_db_long 4 v)) = 4" for v by simp
  have A1': "A1 = var9 []" using A1(1)
    by (auto simp: srv_step_def req9_def req_def srv_create_def srv_init_def new_var_def is_var_def var9_def Let_def split: if_splits)
  then show "\<exists>h. server_at h 1 6 (var9 [])" using A1(2) by blast
  obtain s2 h2 where c2: "watch9 h1 = Some (True, s2, h2)" using watch9_run unfolding h by (auto simp: c)
  obtain mem A2 where A2: "srv_step mem (queue 1002) (req9 DB_TRIG_SET_CMD) 101 stk0 os0 A1 = Some (True, s2, A2)"
    "server_at h2 1 6 A2" using cmd_server[OF A1(2) _ c2[unfolded watch9_def]] by auto
  have "A2 = var9 [queue 1002]" using A2(1) unfolding A1'
    by (auto simp: srv_step_def req9_def req_def srv_trig_set_def new_var_def is_var_def var9_def Let_def split: if_splits)
  then show "\<exists>h. server_at h 1 6 (var9 [queue 1002])" using A2(2) by blast
qed

lemma var9_found: "find (is_var 9 9) (srv_vars (var9 cs)) = Some ((new_var 9 9 4 101)\<lparr>av_trigs := cs\<rparr>)"
  by (simp add: var9_def new_var_def is_var_def)

lemma var9_away: "trigs_away 5 (var9 [])" "trigs_away 5 (var9 [queue 1002])"
  by (simp_all add: var9_def new_var_def trigs_away_def)

lemma write9:
  assumes "system_at 1 6 (\<lambda>i. 1) (\<lambda>i. int i + 1001) 5 client0 w (var9 cs)"
  shows "\<exists>w1. db_clt_write env0 1 9 4 [1, 2, 3, 4] stk0 stk0 (client0 0) w = Some (True, w1)"
proof -
  have at: "server_at (w_srv w) 1 6 (var9 cs)" "trigs_away 5 (var9 cs)" "at_rest 5 w"
    "client_at (msgget (w_os w)) (client0 0) 1 1001 5" using assms by (auto simp: system_at_def dest: spec[of _ 0])
  have y: "copy_value 4 [1, 2, 3, 4] (dvalue stk0) = Some ([1, 2, 3, 4] @ drop 4 (dvalue stk0))"
    "length ([1, 2, 3, 4] @ drop 4 (dvalue stk0)) = MAX_DATA_SIZE" by (simp_all add: copy_value_def)
  have "\<exists>A'. abs_op mem q (OpUpdate 9 9 4 [1, 2, 3, 4]) 101 stk0 (var9 cs) = Some ((True, []), A')" for mem q
    using y by (simp add: var9_found copy_value_def new_var_def)
  moreover obtain mem where "op_refines 1 6 (msgget (w_os w)) 1 1001 5
      (do_op env0 1 (OpUpdate 9 9 4 [1, 2, 3, 4]) stk0 stk0 (client0 0) w)
      (abs_op mem 1001 (OpUpdate 9 9 4 [1, 2, 3, 4]) 101 stk0 (var9 cs))"
    using op_law[OF at(1-3) served0[unfolded One_nat_def[symmetric]] at(4)] by blast
  ultimately obtain A' where "op_refines 1 6 (msgget (w_os w)) 1 1001 5
      (do_op env0 1 (OpUpdate 9 9 4 [1, 2, 3, 4]) stk0 stk0 (client0 0) w) (Some ((True, []), A'))" by metis
  then show ?thesis by (auto simp: op_refines_def db_clt_write_def)
qed

theorem db_written_is_read_witness:
  "\<exists>h w1 w3. server_at h 1 6 (var9 []) \<and>
    db_clt_write env0 1 9 4 [1, 2, 3, 4] stk0 stk0 (client0 0) (world0 h) = Some (True, w1) \<and>
    db_clt_read env0 1 9 4 stk0 stk0 (client0 1) w1 = Some (True, [1, 2, 3, 4], w3)"
proof -
  obtain h where h: "server_at h 1 6 (var9 [])" using var9_server by blast
  note s = system0[OF h var9_away(1)]
  obtain w1 where w1: "db_clt_write env0 1 9 4 [1, 2, 3, 4] stk0 stk0 (client0 0) (world0 h) = Some (True, w1)"
    using write9[OF s] by blast
  have "with_server env0 1 6 5 101 stk0" using served0 by simp
  note r = db_written_is_read[OF s var9_found _ this _ _ _ this, where i = 0 and cs = "[]" and j = 1]
  have "\<exists>w3. db_clt_read env0 1 9 4 stk0 stk0 (client0 1) w1 = Some (True, take 4 [1, 2, 3, 4], w3)"
    using r[of "[1, 2, 3, 4]" stk0 stk0 w1] w1 by (simp add: new_var_def)
  then show ?thesis using h w1 by auto
qed

subsection \<open>Triggers arrive\<close>

lemma trigger_first:
  "c \<in> set ts \<Longrightarrow> xport_info c = q \<Longrightarrow> \<exists>rest. [m. c \<leftarrow> ts, xport_info c = q] = m # rest"
  by (induction ts) auto

lemma update_law:
  assumes "system_at pdb pusr cl q qs hs w A" "with_server env pdb pusr qs now sstk"
    and "find (is_var var type) (srv_vars A) = Some v"
    and "clt_update env (cl i) var type size1 x stk rstk (hs i) w = Some (True, w1)"
  shows "\<exists>m. dvar m = var \<and> dtype m = type \<and> triggered_by w m (av_trigs v) w1 \<and> at_rest qs w1"
proof -
  have at: "server_at (w_srv w) pdb pusr A" "trigs_away qs A" "at_rest qs w"
    "client_at (msgget (w_os w)) (hs i) (cl i) (q i) qs" using assms(1) by (simp_all add: system_at_def)
  obtain d where d: "get_handle (hs i) (cl i) = Some d" using at(4) by (auto simp: client_at_def)
  obtain y where y: "copy_value size1 x (dvalue stk) = Some y"
    using assms(4) d by (auto simp: clt_update_def simp del: get_kind split: if_splits)
  let ?m = "\<lparr>dcmd = DB_UPDATE_CMD, dkey = dc_key d, dvar = var, dtype = type, dtime = env_clock env, dvalue = y\<rparr>"
  have m: "dcmd ?m \<in> commands" "dkey ?m = dc_key d" by (simp_all add: commands_def)
  obtain mem where c: "case srv_pure mem (queue (q i)) ?m now sstk A of
      None \<Rightarrow> call_server env d ?m rstk (hs i) w = None
    | Some (st, r, ts, A') \<Rightarrow> \<exists>w'. call_server env d ?m rstk (hs i) w = Some (True, r, w') \<and>
        server_at (w_srv w') pdb pusr A' \<and> trigs_away qs A' \<and> at_rest qs w' \<and> triggered_by w ?m ts w'"
    using call_law[OF at(1-3) m(1) assms(2) at(4) d m(2)] by blast
  obtain r w' where w': "call_server env d ?m rstk (hs i) w = Some (True, r, w')"
    "at_rest qs w'" "triggered_by w ?m (av_trigs v) w'"
  proof (cases "copy_value (av_size v) y (dvalue (av_data v))")
    case None
    then have "call_server env d ?m rstk (hs i) w = None" using c assms(3) by (simp add: srv_pure_def)
    then show ?thesis using assms(4) d y by (auto simp: clt_update_def simp del: get_kind split: if_splits)
  next
    case (Some z)
    then show ?thesis using c assms(3) that by (auto simp: srv_pure_def)
  qed
  have "w' = w1" using assms(4) d y w'(1) by (auto simp: clt_update_def simp del: get_kind split: if_splits)
  then show ?thesis using w' by (intro exI[of _ ?m]) simp
qed

text \<open>
  C22: a client that watches a variable and waits in \<open>clt_ipc_receive\<close> gets the trigger of the
  next successful update, by whichever client, with the name and type of the variable.
\<close>

theorem trigger_reaches_client:
  assumes "system_at pdb pusr cl q qs hs w A" "with_server env pdb pusr qs now sstk"
    and "find (is_var var type) (srv_vars A) = Some v" "queue (q j) \<in> set (av_trigs v)" "w_queue w (q j) = []"
    and "clt_update env (cl i) var type size1 x stk rstk (hs i) w = Some (True, w1)"
    and "with_server env2 pdb pusr qs now2 sstk2"
  shows "\<exists>w2. clt_ipc_receive env2 (cl j) 16 (hs j) w1 =
    Some (DB_TRIGGER, \<lparr>tmsg_type = DB_TRIGGER, tkey = 0, tvar = var, ttype = type\<rparr>, w2)"
proof -
  obtain m where m: "dvar m = var" "dtype m = type" "triggered_by w m (av_trigs v) w1" "at_rest qs w1"
    using update_law[OF assms(1,2,3,6)] by blast
  obtain rest where rest: "w_queue w1 (q j) = trigger_of m # rest"
    using trigger_first[OF assms(4), of "q j" "trigger_of m"] m(3) assms(5) by (auto simp: triggered_by_def)
  obtain d where d: "get_handle (hs j) (cl j) = Some d" "get_clt (hs j) (dc_pcomm d) = Some (queue qs)"
    "get_clt (hs j) (dc_pread d) = Some (queue (q j))" using assms(1) by (auto simp: system_at_def client_at_def)
  have "others env2 w1 = Some w1" using assms(7) m(4) by (simp add: with_server_def at_rest_def)
  moreover have "calm (w_os w1)" using m(4) by (simp add: at_rest_def)
  ultimately show ?thesis using rest m(1,2)
    by (simp add: clt_ipc_receive_def d syscall_def trigger_of_def msize_def head_info_def del: get_kind)
qed

theorem trigger_reaches_client_witness:
  "\<exists>h w1 w2. server_at h 1 6 (var9 [queue 1002]) \<and>
    clt_update env0 1 9 9 4 [1, 2, 3, 4] stk0 stk0 (client0 0) (world0 h) = Some (True, w1) \<and>
    clt_ipc_receive env0 1 16 (client0 1) w1 = Some (DB_TRIGGER, \<lparr>tmsg_type = DB_TRIGGER, tkey = 0, tvar = 9, ttype = 9\<rparr>, w2)"
proof -
  obtain h where h: "server_at h 1 6 (var9 [queue 1002])" using var9_server by blast
  note s = system0[OF h var9_away(2)]
  obtain w1 where w1: "clt_update env0 1 9 9 4 [1, 2, 3, 4] stk0 stk0 (client0 0) (world0 h) = Some (True, w1)"
    using write9[OF s] by (auto simp: db_clt_write_def)
  have e: "with_server env0 1 6 5 101 stk0" using served0 by simp
  have "\<exists>w2. clt_ipc_receive env0 1 16 (client0 1) w1 = Some (DB_TRIGGER, \<lparr>tmsg_type = DB_TRIGGER, tkey = 0, tvar = 9, ttype = 9\<rparr>, w2)"
    by (rule trigger_reaches_client[OF s e var9_found _ _ w1 e, where j = 1]) (simp_all add: world0_def)
  then show ?thesis using h w1 by blast
qed

end
