(* ===== verification/SysLl.thy ===== *)
theory SysLl
  imports ListStore
begin

text \<open>
  path/local/sys_list.c, the single linked list: one definition per C function, the representation
  predicate \<open>ll_rep\<close>, what each operation does to it, and the interpretation of the list contract.
\<close>

definition ll_create :: "'a heap \<Rightarrow> ptr \<times> 'a heap" where
  "ll_create h = malloc (LlHead \<lparr>lh_length = 0, lh_pfirst = NULL, lh_plast = NULL\<rparr>) h"

definition ll_inst_node :: "ptr \<Rightarrow> ptr \<Rightarrow> 'a heap \<Rightarrow> ptr \<times> 'a heap" where
  "ll_inst_node pitem pnext h = malloc (LlNode \<lparr>ln_pitem = pitem, ln_pnext = pnext\<rparr>) h"

definition ll_insert :: "ptr \<Rightarrow> ptr \<Rightarrow> 'a heap \<Rightarrow> (bool \<times> 'a heap) option" where
  "ll_insert pitem phead h = do {
     hd \<leftarrow> get_lh h phead;
     let (pnew, h) = ll_inst_node pitem (lh_pfirst hd) h;
     if pnew \<noteq> NULL then do {
       h \<leftarrow> upd_lh phead (lh_pfirst_update (\<lambda>_. pnew)) h;
       h \<leftarrow> (if lh_length hd = 0 then upd_lh phead (lh_plast_update (\<lambda>_. pnew)) h else Some h);
       h \<leftarrow> upd_lh phead (lh_length_update (\<lambda>l. l + 1)) h;
       Some (True, h)
     } else Some (False, h)
   }"

definition ll_append :: "ptr \<Rightarrow> ptr \<Rightarrow> 'a heap \<Rightarrow> (bool \<times> 'a heap) option" where
  "ll_append pitem phead h = (let (pnew, h) = ll_inst_node pitem NULL h in
     if pnew \<noteq> NULL then do {
       hd \<leftarrow> get_lh h phead;
       h \<leftarrow> (if lh_length hd = 0 then upd_lh phead (lh_pfirst_update (\<lambda>_. pnew)) h
             else upd_ln (lh_plast hd) (ln_pnext_update (\<lambda>_. pnew)) h);
       h \<leftarrow> upd_lh phead (lh_plast_update (\<lambda>_. pnew)) h;
       h \<leftarrow> upd_lh phead (lh_length_update (\<lambda>l. l + 1)) h;
       Some (True, h)
     } else Some (False, h))"

definition ll_rm_first :: "ptr \<Rightarrow> 'a heap \<Rightarrow> (ptr \<times> 'a heap) option" where
  "ll_rm_first phead h =
     (if phead = NULL then Some (NULL, h) else do {
       hd \<leftarrow> get_lh h phead;
       if lh_pfirst hd = NULL then Some (NULL, h) else do {
         let pold = lh_pfirst hd;
         old \<leftarrow> get_ln h pold;
         h \<leftarrow> upd_lh phead (lh_pfirst_update (\<lambda>_. ln_pnext old)) h;
         h \<leftarrow> upd_lh phead (lh_length_update (\<lambda>l. l - 1)) h;
         hd \<leftarrow> get_lh h phead;
         h \<leftarrow> (if lh_length hd = 0 then upd_lh phead (lh_plast_update (\<lambda>_. NULL)) h else Some h);
         h \<leftarrow> free pold h;
         Some (ln_pitem old, h)
       }
     })"

text \<open>\<open>for (i = 0; i < n; i++) ptemp = ptemp->pnext;\<close>\<close>

fun ll_skip :: "nat \<Rightarrow> ptr \<Rightarrow> 'a heap \<Rightarrow> ptr option" where
  "ll_skip 0 ptemp h = Some ptemp"
| "ll_skip (Suc n) ptemp h = do { nd \<leftarrow> get_ln h ptemp; ll_skip n (ln_pnext nd) h }"

definition ll_rm_last :: "ptr \<Rightarrow> 'a heap \<Rightarrow> (ptr \<times> 'a heap) option" where
  "ll_rm_last phead h = do {
     hd \<leftarrow> get_lh h phead;
     if lh_length hd = 0 then Some (NULL, h) else do {
       let pold = lh_plast hd;
       old \<leftarrow> get_ln h pold;
       h \<leftarrow> (if lh_length hd > 1 then do {
              ptemp \<leftarrow> ll_skip (nat (lh_length hd - 2)) (lh_pfirst hd) h;
              h \<leftarrow> upd_ln ptemp (ln_pnext_update (\<lambda>_. NULL)) h;
              upd_lh phead (lh_plast_update (\<lambda>_. ptemp)) h
            } else do {
              h \<leftarrow> upd_lh phead (lh_pfirst_update (\<lambda>_. NULL)) h;
              upd_lh phead (lh_plast_update (\<lambda>_. NULL)) h
            });
       h \<leftarrow> upd_lh phead (lh_length_update (\<lambda>l. l - 1)) h;
       h \<leftarrow> free pold h;
       Some (ln_pitem old, h)
     }
   }"

text \<open>\<open>ll_rm_node(phead, &pcurrent, pprev)\<close> returns the item and the new value of \<open>pcurrent\<close>.\<close>

definition ll_rm_node :: "ptr \<Rightarrow> ptr \<Rightarrow> ptr \<Rightarrow> 'a heap \<Rightarrow> (ptr \<times> ptr \<times> 'a heap) option" where
  "ll_rm_node phead pold pprev h =
     (if pold = NULL \<or> phead = NULL then Some (NULL, pprev, h) else do {
        hd \<leftarrow> get_lh h phead;
        if lh_pfirst hd = NULL then Some (NULL, pprev, h)
        else if pprev = NULL then do { (pitem, h) \<leftarrow> ll_rm_first phead h; Some (pitem, pprev, h) }
        else do {
          old \<leftarrow> get_ln h pold;
          if ln_pnext old = NULL then do { (pitem, h) \<leftarrow> ll_rm_last phead h; Some (pitem, pprev, h) }
          else do {
            h \<leftarrow> upd_ln pprev (ln_pnext_update (\<lambda>_. ln_pnext old)) h;
            h \<leftarrow> upd_lh phead (lh_length_update (\<lambda>l. l - 1)) h;
            h \<leftarrow> free pold h;
            Some (ln_pitem old, pprev, h)
          }
        }
      })"

partial_function (option) ll_search ::
  "('a heap \<Rightarrow> 'k \<Rightarrow> ptr \<Rightarrow> int option) \<Rightarrow> 'a heap \<Rightarrow> 'k \<Rightarrow> ptr \<Rightarrow> ptr option" where
  "ll_search pfkeycmp h pkey pnode =
     (if pnode = NULL then Some NULL else do {
        n \<leftarrow> get_ln h pnode;
        r \<leftarrow> pfkeycmp h pkey (ln_pitem n);
        if r = 0 then Some pnode else ll_search pfkeycmp h pkey (ln_pnext n)
      })"

definition ll_first :: "('a heap \<Rightarrow> 'k \<Rightarrow> ptr \<Rightarrow> int option) \<Rightarrow> ptr \<Rightarrow> 'k \<Rightarrow> 'a heap \<Rightarrow> ptr option" where
  "ll_first pfkeycmp phead pkey h =
     (if phead = NULL then Some NULL
      else do { hd \<leftarrow> get_lh h phead; ll_search pfkeycmp h pkey (lh_pfirst hd) })"

definition ll_next :: "('a heap \<Rightarrow> 'k \<Rightarrow> ptr \<Rightarrow> int option) \<Rightarrow> ptr \<Rightarrow> 'k \<Rightarrow> 'a heap \<Rightarrow> ptr option" where
  "ll_next pfkeycmp pnode pkey h =
     (if pnode = NULL then Some NULL else ll_search pfkeycmp h pkey pnode)"

definition ll_length :: "ptr \<Rightarrow> 'a heap \<Rightarrow> int option" where
  "ll_length phead h = (if phead = NULL then Some ERROR else map_option lh_length (get_lh h phead))"

definition ll_free :: "ptr \<Rightarrow> 'a heap \<Rightarrow> 'a heap option" where
  "ll_free phead h =
     (if phead = NULL then Some h else do {
        hd \<leftarrow> get_lh h phead;
        if lh_length hd = 0 then free phead h else do {
          h \<leftarrow> free_items ll_rm_last phead h;
          free phead h
        }
      })"

subsection \<open>Representation\<close>

definition ll_first_addr :: "node_items \<Rightarrow> ptr \<Rightarrow> ptr" where
  "ll_first_addr L q = (case L of [] \<Rightarrow> q | m # _ \<Rightarrow> fst m)"

definition ll_last_addr :: "node_items \<Rightarrow> ptr" where
  "ll_last_addr L = (if L = [] then NULL else fst (last L))"

fun lseg :: "(ptr \<rightharpoonup> 'a cell) \<Rightarrow> node_items \<Rightarrow> ptr \<Rightarrow> bool" where
  "lseg c [] q \<longleftrightarrow> True"
| "lseg c (m # L) q \<longleftrightarrow>
     c (fst m) = Some (LlNode \<lparr>ln_pitem = snd m, ln_pnext = ll_first_addr L q\<rparr>) \<and> lseg c L q"

definition ll_rep :: "'a heap \<Rightarrow> ptr \<Rightarrow> node_items \<Rightarrow> bool" where
  "ll_rep h ph L \<longleftrightarrow> cells h NULL = None \<and>
     cells h ph = Some (LlHead \<lparr>lh_length = int (length L), lh_pfirst = ll_first_addr L NULL,
       lh_plast = ll_last_addr L\<rparr>) \<and>
     lseg (cells h) L NULL \<and> distinct (map fst L)"

lemma ll_first_simps [simp]:
  "ll_first_addr [] q = q" "ll_first_addr (m # L) q = fst m"
  "ll_first_addr (L @ M) q = ll_first_addr L (ll_first_addr M q)"
  by (auto simp: ll_first_addr_def split: list.splits)

lemma ll_last_simps [simp]:
  "ll_last_addr [] = NULL" "ll_last_addr (L @ m # M) = ll_last_addr (m # M)"
  "ll_last_addr (m # L) = (if L = [] then fst m else ll_last_addr L)"
  by (auto simp: ll_last_addr_def)

lemma lseg_append [simp]: "lseg c (L @ M) q \<longleftrightarrow> lseg c L (ll_first_addr M q) \<and> lseg c M q"
  by (induction L) auto

lemma lseg_upd [simp]: "a \<notin> fst ` set L \<Longrightarrow> lseg (c(a := v)) L q = lseg c L q"
  by (induction L) auto

lemma lseg_cell: "lseg c L q \<Longrightarrow> a \<in> fst ` set L \<Longrightarrow> \<exists>n. c a = Some (LlNode n)"
  by (induction L) auto

lemma lseg_notin: "lseg c L q \<Longrightarrow> \<forall>n. c a \<noteq> Some (LlNode n) \<Longrightarrow> a \<notin> fst ` set L"
  using lseg_cell by blast

lemma lseg_agree: "(\<And>a. a \<in> fst ` set L \<Longrightarrow> c' a = c a) \<Longrightarrow> lseg c' L q = lseg c L q"
  by (induction L) auto

lemma ll_repE:
  assumes "ll_rep h ph L"
  shows "cells h NULL = None" "ph \<noteq> NULL"
    "cells h ph = Some (LlHead \<lparr>lh_length = int (length L), lh_pfirst = ll_first_addr L NULL,
       lh_plast = ll_last_addr L\<rparr>)"
    "lseg (cells h) L NULL" "distinct (map fst L)" "ph \<notin> nodes L" "NULL \<notin> nodes L"
proof -
  show "cells h NULL = None" "cells h ph = Some (LlHead \<lparr>lh_length = int (length L),
      lh_pfirst = ll_first_addr L NULL, lh_plast = ll_last_addr L\<rparr>)"
    "lseg (cells h) L NULL" "distinct (map fst L)"
    using assms by (auto simp: ll_rep_def)
  then show "ph \<noteq> NULL" "ph \<notin> nodes L" "NULL \<notin> nodes L"
    using lseg_notin[of "cells h" L NULL] by (cases "ph = NULL", auto)+
qed

lemmas ll_acc = get_ln_def get_lh_def upd_ln_def upd_lh_def

lemma ll_inst_node_cases:
  assumes "ll_rep h ph L" "ll_inst_node x q h = (n, h1)"
  shows "n = NULL \<and> cells h1 = cells h \<or> n \<noteq> NULL \<and> cells h n = None \<and> n \<notin> nodes L \<and> n \<noteq> ph \<and>
    cells h1 = (cells h)(n \<mapsto> LlNode \<lparr>ln_pitem = x, ln_pnext = q\<rparr>)"
proof -
  note R = ll_repE[OF assms(1)]
  have "cells h n = None \<Longrightarrow> n \<notin> nodes L \<and> n \<noteq> ph"
    using lseg_notin[OF R(4), of n] R(3) by auto
  then show ?thesis
    using malloc_cases[OF assms(2)[unfolded ll_inst_node_def]] by (elim disjE) simp_all
qed

subsection \<open>What the operations do\<close>

lemma ll_insert_spec:
  assumes rep: "ll_rep h ph L"
  shows "(\<exists>h'. ll_insert x ph h = Some (False, h') \<and> cells h' = cells h) \<or>
    (\<exists>h' n. ll_insert x ph h = Some (True, h') \<and> cells h n = None \<and>
       ll_rep h' ph ((n, x) # L) \<and> same_except ({ph, n} \<union> nodes L) h h')"
proof -
  note R = ll_repE[OF rep]
  obtain n h1 where m: "ll_inst_node x (ll_first_addr L NULL) h = (n, h1)"
    by fastforce
  from ll_inst_node_cases[OF rep m] show ?thesis
  proof (elim disjE conjE, goal_cases)
    case 1
    then show ?thesis using R by (simp add: ll_insert_def ll_acc m)
  next
    case 2
    then show ?thesis using R m
      by (cases L) (auto simp: ll_insert_def ll_acc ll_rep_def same_except_def intro!: exI[of _ n])
  qed
qed

lemma ll_append_spec:
  assumes rep: "ll_rep h ph L"
  shows "(\<exists>h'. ll_append x ph h = Some (False, h') \<and> cells h' = cells h) \<or>
    (\<exists>h' n. ll_append x ph h = Some (True, h') \<and> cells h n = None \<and>
       ll_rep h' ph (L @ [(n, x)]) \<and> same_except ({ph, n} \<union> nodes L) h h')"
proof -
  note R = ll_repE[OF rep]
  obtain n h1 where m: "ll_inst_node x NULL h = (n, h1)" by fastforce
  from ll_inst_node_cases[OF rep m] show ?thesis
  proof (elim disjE conjE, goal_cases)
    case 1
    then show ?thesis using R by (simp add: ll_append_def ll_acc m)
  next
    case 2
    then show ?thesis using R m
      by (cases L rule: rev_cases)
         (auto simp: ll_append_def ll_acc ll_rep_def same_except_def intro!: exI[of _ n])
  qed
qed

lemma ll_rm_first_empty: "ll_rep h ph [] \<Longrightarrow> ll_rm_first ph h = Some (NULL, h)"
  using ll_repE[of h ph "[]"] by (simp add: ll_rm_first_def ll_acc)

lemma ll_rm_first_spec:
  assumes rep: "ll_rep h ph ((n, x) # L)"
  shows "\<exists>h'. ll_rm_first ph h = Some (x, h') \<and> ll_rep h' ph L \<and> cells h' n = None \<and>
    same_except ({ph, n} \<union> nodes L) h h'"
  using ll_repE[OF rep]
  by (cases L) (auto simp: ll_rm_first_def ll_acc ll_rep_def same_except_def free_def)

lemma ll_rm_last_empty: "ll_rep h ph [] \<Longrightarrow> ll_rm_last ph h = Some (NULL, h)"
  using ll_repE[of h ph "[]"] by (simp add: ll_rm_last_def ll_acc)

lemma ll_skip_spec:
  "lseg (cells h) L q \<Longrightarrow> n < length L \<Longrightarrow> ll_skip n (ll_first_addr L q) h = Some (fst (L ! n))"
proof (induction n arbitrary: L)
  case 0
  then show ?case by (cases L) auto
next
  case (Suc n)
  then obtain m M where L: "L = m # M" by (cases L) auto
  then have "get_ln h (fst m) = Some \<lparr>ln_pitem = snd m, ln_pnext = ll_first_addr M q\<rparr>"
    using Suc.prems by (simp add: get_ln_def)
  then show ?case using Suc L by auto
qed

lemma ll_rm_last_spec:
  assumes rep: "ll_rep h ph (L @ [(n, x)])"
  shows "\<exists>h'. ll_rm_last ph h = Some (x, h') \<and> ll_rep h' ph L \<and> cells h' n = None \<and>
    same_except ({ph, n} \<union> nodes L) h h'"
proof (cases L rule: rev_cases)
  case Nil
  then show ?thesis using ll_repE[OF rep]
    by (auto simp: ll_rm_last_def ll_acc ll_rep_def same_except_def free_def)
next
  case (snoc K m)
  note R = ll_repE[OF rep]
  have "ll_skip (length K) (ll_first_addr (K @ [m, (n, x)]) NULL) h = Some (fst m)"
    using ll_skip_spec[of h "K @ [m, (n, x)]" NULL "length K"] R(4) snoc by simp
  then show ?thesis using R snoc
    by (auto simp: ll_rm_last_def ll_acc ll_rep_def same_except_def free_def)
qed

lemma ll_rm_node_spec:
  assumes rep: "ll_rep h ph (A @ (n, x) # B)"
  shows "\<exists>h'. ll_rm_node ph n (ll_last_addr A) h = Some (x, ll_last_addr A, h') \<and> ll_rep h' ph (A @ B) \<and>
    cells h' n = None \<and> same_except ({ph, n} \<union> nodes (A @ B)) h h'"
proof -
  note R = ll_repE[OF rep]
  have n: "n \<noteq> NULL" "ll_first_addr (A @ (n, x) # B) NULL \<noteq> NULL"
    using R(7) by (simp, cases A, auto)
  consider "A = []" | "A \<noteq> []" "B = []" | A' a b B' where "A = A' @ [a]" "B = b # B'"
    by (metis list.exhaust rev_exhaust)
  then show ?thesis
  proof cases
    case 1
    then show ?thesis
      using R n ll_rm_first_spec[of h ph n x B] rep by (auto simp: ll_rm_node_def ll_acc)
  next
    case 2
    then obtain A' a where A: "A = A' @ [a]" by (metis rev_exhaust)
    then have "fst a \<noteq> NULL" using R by auto
    then show ?thesis
      using 2 A R n ll_rm_last_spec[of h ph A n x] rep by (auto simp: ll_rm_node_def ll_acc)
  next
    case 3
    have "fst a \<noteq> NULL" "fst b \<noteq> NULL" "fst a \<noteq> n" "fst b \<noteq> n" "ph \<noteq> n" "ph \<noteq> fst a" "ph \<noteq> NULL"
      "ph \<notin> nodes A'" "ph \<notin> nodes B'" using R 3 by auto
    then show ?thesis using R n 3
      by (auto simp: ll_rm_node_def ll_acc ll_rep_def same_except_def free_def)
  qed
qed

lemma ll_search_spec:
  "lseg (cells h) L NULL \<Longrightarrow> NULL \<notin> nodes L \<Longrightarrow> (\<And>m. m \<in> set L \<Longrightarrow> cmp h k (snd m) = Some (f (snd m))) \<Longrightarrow>
   ll_search cmp h k (ll_first_addr L NULL) =
     Some (case find (\<lambda>m. f (snd m) = 0) L of None \<Rightarrow> NULL | Some m \<Rightarrow> fst m)"
proof (induction L)
  case Nil
  then show ?case by (simp add: ll_search.simps)
next
  case (Cons m L)
  then show ?case by (subst ll_search.simps) (auto simp: ll_acc)
qed

lemma ll_first_spec:
  assumes "ll_rep h ph L" "\<And>m. m \<in> set L \<Longrightarrow> cmp h k (snd m) = Some (f (snd m))"
  shows "ll_first cmp ph k h = Some (case find (\<lambda>m. f (snd m) = 0) L of None \<Rightarrow> NULL | Some m \<Rightarrow> fst m)"
  using ll_repE[OF assms(1)] ll_search_spec[of h L cmp k f] assms(2)
  by (auto simp: ll_first_def ll_acc)

text \<open>\<open>ll_next\<close> looks at the node it is given before the ones that follow it.\<close>

lemma ll_next_spec:
  assumes rep: "ll_rep h ph (A @ a # B)" and "\<And>m. m \<in> set (a # B) \<Longrightarrow> cmp h k (snd m) = Some (f (snd m))"
  shows "ll_next cmp (fst a) k h =
    Some (case find (\<lambda>m. f (snd m) = 0) (a # B) of None \<Rightarrow> NULL | Some m \<Rightarrow> fst m)"
proof -
  have "lseg (cells h) (a # B) NULL" "NULL \<notin> nodes (a # B)" "fst a \<noteq> NULL"
    using ll_repE[OF rep] by auto
  then show ?thesis using ll_search_spec[of h "a # B" cmp k f] assms(2) by (simp add: ll_next_def)
qed

lemma ll_length_spec: "ll_rep h ph L \<Longrightarrow> ll_length ph h = Some (int (length L))"
  using ll_repE[of h ph L] by (simp add: ll_length_def ll_acc)

lemma ll_rep_frame:
  assumes "ll_rep h ph L" "same_except S h h'" "S \<inter> ({NULL, ph} \<union> nodes L) = {}"
  shows "ll_rep h' ph L"
proof -
  have "\<And>a. a \<in> {NULL, ph} \<union> nodes L \<Longrightarrow> cells h' a = cells h a"
    using assms(2,3) by (auto simp: same_except_def)
  then show ?thesis
    using assms(1) lseg_agree[of L "cells h'" "cells h"] by (auto simp: ll_rep_def)
qed

lemma ll_rep_other:
  assumes rep: "ll_rep h ph L" and p: "cells h p = None \<or> cells h p = Some (Obj v)"
  shows "p \<noteq> ph \<and> p \<notin> nodes L"
proof -
  have "p \<notin> nodes L" using p lseg_notin[OF ll_repE(4)[OF rep], of p] by (elim disjE) simp_all
  moreover have "p \<noteq> ph" using p ll_repE(3)[OF rep] by auto
  ultimately show ?thesis by blast
qed

lemma ll_rep_heads: "ll_rep h ph L \<Longrightarrow> cells h NULL = None \<and> ph \<notin> nodes L"
  using ll_repE(1,6) by blast

interpretation ll: list_store ll_rep ll_insert ll_append ll_rm_first ll_rm_last
  by (unfold_locales; fact ll_insert_spec ll_append_spec ll_rm_first_empty ll_rm_first_spec
        ll_rm_last_empty ll_rm_last_spec ll_rep_frame ll_rep_heads ll_rep_other)

lemma ll_rep_create:
  assumes "cells h NULL = None" "ll_create h = (ph, h0)" "ph \<noteq> NULL" shows "ll_rep h0 ph []"
  using malloc_cases[OF assms(2)[unfolded ll_create_def]] assms(1,3) by (auto simp: ll_rep_def)

lemma ll_free_spec:
  assumes "ll_rep h ph L" "own_items h L"
  shows "\<exists>h'. ll_free ph h = Some h' \<and>
    (\<forall>a \<in> {ph} \<union> nodes L \<union> set (items L). cells h' a = None) \<and>
    same_except ({ph} \<union> nodes L \<union> set (items L)) h h'"
proof (cases "L = []")
  case True
  then show ?thesis using ll_repE[OF assms(1)]
    by (auto simp: ll_free_def ll_acc free_def same_except_def)
next
  case False
  obtain h1 where h1: "free_items ll_rm_last ph h = Some h1" "ll_rep h1 ph []"
    "\<forall>a \<in> nodes L \<union> set (items L). cells h1 a = None"
    "same_except ({ph} \<union> nodes L \<union> set (items L)) h h1"
    using ll.free_items_law[OF assms] by blast
  then show ?thesis using ll_repE[OF assms(1)] ll_repE[OF h1(2)] False
    by (auto simp: ll_free_def ll_acc free_def same_except_def)
qed

end
