(* ===== verification/SysBlocks.thy ===== *)
theory SysBlocks
  imports SysListRep
begin

text \<open>
  Double linked lists whose items own a data block (the queues of sys_fifo.c and sys_buff.c): the
  objects they keep in memory, \<open>bytecopy\<close> of sys_lib.c, and the representation predicate
  \<open>blk_rep\<close> with its lemmas, for any item structure (\<open>mk\<close> gives the item of an element).
\<close>

datatype 'i bobj = Bytes "u8 list" | Item 'i

fun bytes_of :: "'i bobj option \<Rightarrow> u8 list option" where
  "bytes_of (Some (Bytes b)) = Some b" | "bytes_of _ = None"

fun item_of :: "'i bobj option \<Rightarrow> 'i option" where
  "item_of (Some (Item b)) = Some b" | "item_of _ = None"

definition get_item :: "'i bobj heap \<Rightarrow> ptr \<Rightarrow> 'i option" where
  "get_item h p = item_of (get_obj h p)"

text \<open>\<open>bytecopy(n, block + off, ...)\<close>: the \<open>n\<close> bytes read; reading past the block is a fault.\<close>

definition bytecopy :: "nat \<Rightarrow> u8 list \<Rightarrow> u8 list option" where
  "bytecopy n src = (if length src < n then None else Some (take n src))"

definition bytecopy_from :: "nat \<Rightarrow> ptr \<times> nat \<Rightarrow> 'i bobj heap \<Rightarrow> u8 list option" where
  "bytecopy_from n src h = do { b \<leftarrow> bytes_of (get_obj h (fst src)); bytecopy n (drop (snd src) b) }"

lemma bobj_kind [simp]:
  "bytes_of ob = Some b \<longleftrightarrow> ob = Some (Bytes b)" "item_of ob = Some i \<longleftrightarrow> ob = Some (Item i)"
  by (cases ob rule: bytes_of.cases, auto, cases ob rule: item_of.cases, auto)

lemma get_item_iff [simp]: "get_item h p = Some i \<longleftrightarrow> cells h p = Some (Obj (Item i))"
  by (simp add: get_item_def get_obj_def)

lemma bytecopy_from_block:
  "cells h d = Some (Obj (Bytes (pre @ bs))) \<Longrightarrow> n \<le> length bs \<Longrightarrow>
   bytecopy_from n (d, length pre) h = Some (take n bs)"
  by (simp add: bytecopy_from_def bytecopy_def get_obj_def)

subsection \<open>Representation: the bytes still to be read\<close>

text \<open>An element: its node, item and data block, the bytes of the block already read, and the rest.\<close>

record blk_elem = be_node :: ptr
  be_item :: ptr
  be_data :: ptr
  be_read :: "u8 list"
  be_rest :: "u8 list"

abbreviation blk_nodes :: "blk_elem list \<Rightarrow> node_items" where
  "blk_nodes Q \<equiv> map (\<lambda>q. (be_node q, be_item q)) Q"

abbreviation blk_ptrs :: "blk_elem list \<Rightarrow> ptr list" where
  "blk_ptrs Q \<equiv> map be_item Q @ map be_data Q"

definition blk_bytes :: "blk_elem list \<Rightarrow> u8 list" where
  "blk_bytes Q = concat (map be_rest Q)"

definition elem_ok :: "(blk_elem \<Rightarrow> 'i) \<Rightarrow> (ptr \<rightharpoonup> 'i bobj cell) \<Rightarrow> blk_elem \<Rightarrow> bool" where
  "elem_ok mk c q \<longleftrightarrow> be_rest q \<noteq> [] \<and>
     c (be_item q) = Some (Obj (Item (mk q))) \<and>
     c (be_data q) = Some (Obj (Bytes (be_read q @ be_rest q)))"

definition blk_rep :: "(blk_elem \<Rightarrow> 'i) \<Rightarrow> 'i bobj heap \<Rightarrow> ptr \<Rightarrow> blk_elem list \<Rightarrow> bool" where
  "blk_rep mk h ph Q \<longleftrightarrow> dl_rep h ph (blk_nodes Q) \<and> (\<forall>q \<in> set Q. elem_ok mk (cells h) q) \<and>
     distinct (blk_ptrs Q)"

lemma blk_bytes_simps [simp]:
  "blk_bytes [] = []" "blk_bytes (q # Q) = be_rest q @ blk_bytes Q"
  "blk_bytes (Q @ R) = blk_bytes Q @ blk_bytes R"
  by (auto simp: blk_bytes_def)

lemma elem_ok_agree:
  "elem_ok mk c q \<Longrightarrow> c' (be_item q) = c (be_item q) \<Longrightarrow> c' (be_data q) = c (be_data q) \<Longrightarrow> elem_ok mk c' q"
  by (simp add: elem_ok_def)

lemma elem_ok_obj: "elem_ok mk c q \<Longrightarrow> a = be_item q \<or> a = be_data q \<Longrightarrow> \<exists>v. c a = Some (Obj v)"
  by (auto simp: elem_ok_def)

text \<open>Removing one element at either end and freeing its two blocks.\<close>

lemma blk_ptr_obj:
  assumes "blk_rep mk h ph Q" "a \<in> set (blk_ptrs Q)"
  shows "\<exists>v. cells h a = Some (Obj v)" "a \<noteq> NULL" "a \<noteq> ph" "a \<notin> be_node ` set Q"
proof -
  show o: "\<exists>v. cells h a = Some (Obj v)" using assms elem_ok_obj by (fastforce simp: blk_rep_def)
  then obtain v where v: "cells h a = Some (Obj v)" by blast
  have "dl_rep h ph (blk_nodes Q)" using assms(1) by (simp add: blk_rep_def)
  from dl.obj_not_node[OF this v] show "a \<noteq> NULL" "a \<noteq> ph" "a \<notin> be_node ` set Q"
    by (simp_all add: image_image)
qed

lemma blk_drop_elem:
  assumes rep: "blk_rep mk h ph (A @ q # B)"
    and h1: "dl_rep h1 ph (blk_nodes (A @ B))" "same_except ({ph, be_node q} \<union> be_node ` set (A @ B)) h h1"
  shows "\<exists>h2 h3. free (be_data q) h1 = Some h2 \<and> free (be_item q) h2 = Some h3 \<and> blk_rep mk h3 ph (A @ B) \<and>
    cells h1 (be_item q) = cells h (be_item q) \<and>
    cells h3 (be_data q) = None \<and> cells h3 (be_item q) = None \<and>
    same_except ({ph, be_node q, be_item q, be_data q} \<union> be_node ` set (A @ B)) h h3"
proof -
  have keep: "cells h1 a = cells h a" if "a \<in> set (blk_ptrs (A @ q # B))" for a
    using blk_ptr_obj[OF rep that] h1(2) by (auto simp: same_except_def)
  have ne: "be_data q \<noteq> be_item q" and other: "be_data q \<notin> set (blk_ptrs (A @ B))"
    "be_item q \<notin> set (blk_ptrs (A @ B))" and dist: "distinct (blk_ptrs (A @ B))"
    using rep by (auto simp: blk_rep_def)
  define h2 where "h2 = h1\<lparr>cells := (cells h1)(be_data q := None)\<rparr>"
  define h3 where "h3 = h2\<lparr>cells := (cells h2)(be_item q := None)\<rparr>"
  note d = blk_ptr_obj[OF rep, of "be_data q"] and i = blk_ptr_obj[OF rep, of "be_item q"]
  have f: "free (be_data q) h1 = Some h2" "free (be_item q) h2 = Some h3"
    using d(1,2) i(1,2) keep[of "be_data q"] keep[of "be_item q"] ne
    by (auto simp: free_def h2_def h3_def)
  have se: "same_except {be_data q, be_item q} h1 h3" by (simp add: same_except_def h3_def h2_def)
  have "dl_rep h3 ph (blk_nodes (A @ B))"
    by (rule dl_rep_agree[OF h1(1) se]) (use d i in \<open>auto simp: image_image\<close>)
  moreover have "elem_ok mk (cells h3) r" if r: "r \<in> set (A @ B)" for r
  proof -
    have "elem_ok mk (cells h) r" using rep r by (auto simp: blk_rep_def)
    moreover have "cells h3 a = cells h a" if "a \<in> {be_item r, be_data r}" for a
    proof -
      have "a \<in> set (blk_ptrs (A @ B))" using that r by auto
      then have "a \<noteq> be_data q" "a \<noteq> be_item q" "cells h1 a = cells h a" using other keep[of a] by auto
      then show ?thesis by (simp add: h3_def h2_def)
    qed
    ultimately show ?thesis using elem_ok_agree by blast
  qed
  ultimately have "blk_rep mk h3 ph (A @ B)" using dist by (auto simp: blk_rep_def)
  moreover have "cells h1 (be_item q) = cells h (be_item q)" using keep[of "be_item q"] by simp
  moreover have "same_except ({ph, be_node q, be_item q, be_data q} \<union> be_node ` set (A @ B)) h h3"
    by (rule same_except_trans[OF h1(2) se]) auto
  ultimately show ?thesis using f ne by (auto simp: h3_def h2_def)
qed

lemma blk_rep_agree:
  assumes "blk_rep mk h ph Q" "same_except S h h'"
    "S \<inter> ({NULL, ph} \<union> be_node ` set Q \<union> set (blk_ptrs Q)) = {}"
  shows "blk_rep mk h' ph Q"
proof -
  have "dl_rep h' ph (blk_nodes Q)"
  proof (rule dl_rep_agree[OF _ assms(2)])
    show "dl_rep h ph (blk_nodes Q)" using assms(1) by (simp add: blk_rep_def)
    show "S \<inter> ({NULL, ph} \<union> nodes (blk_nodes Q)) = {}" using assms(3) by (auto simp: image_image)
  qed
  moreover have "elem_ok mk (cells h') q" if "q \<in> set Q" for q
  proof -
    have "be_item q \<notin> S" "be_data q \<notin> S" using assms(3) that by auto
    then have "cells h' (be_item q) = cells h (be_item q)" "cells h' (be_data q) = cells h (be_data q)"
      using assms(2) by (simp_all add: same_except_def)
    moreover have "elem_ok mk (cells h) q" using assms(1) that by (simp add: blk_rep_def)
    ultimately show ?thesis using elem_ok_agree by blast
  qed
  ultimately show ?thesis using assms(1) by (simp add: blk_rep_def)
qed

lemma blk_rep_cells: "blk_rep mk h ph Q \<Longrightarrow> cells h' = cells h \<Longrightarrow> blk_rep mk h' ph Q"
  by (rule blk_rep_agree[where S = "{}"]) auto

lemma blk_rep_fresh:
  assumes "blk_rep mk h ph Q" "cells h a = None"
  shows "a \<notin> set (blk_ptrs Q)" "a \<noteq> ph" "a \<notin> be_node ` set Q"
proof -
  show "a \<notin> set (blk_ptrs Q)" using blk_ptr_obj(1)[OF assms(1), of a] assms(2) by fastforce
  have "a \<noteq> ph \<and> a \<notin> nodes (blk_nodes Q)"
    using dl_rep_other[of h ph "blk_nodes Q" a] assms by (simp add: blk_rep_def)
  then show "a \<noteq> ph" "a \<notin> be_node ` set Q" by (simp_all add: image_image)
qed


text \<open>Linking in a new element.\<close>

lemma blk_rep_extend:
  assumes rep: "blk_rep mk h ph (A @ B)" and dl: "dl_rep h' ph (blk_nodes (A @ q # B))"
    and q: "elem_ok mk (cells h') q" "be_item q \<notin> set (blk_ptrs (A @ B))"
      "be_data q \<notin> set (blk_ptrs (A @ B))" "be_item q \<noteq> be_data q"
    and keep: "\<And>a. a \<in> set (blk_ptrs (A @ B)) \<Longrightarrow> cells h' a = cells h a"
  shows "blk_rep mk h' ph (A @ q # B)"
proof -
  have "elem_ok mk (cells h') r" if "r \<in> set (A @ B)" for r
  proof (rule elem_ok_agree)
    show "elem_ok mk (cells h) r" using rep that by (simp add: blk_rep_def)
    show "cells h' (be_item r) = cells h (be_item r)" "cells h' (be_data r) = cells h (be_data r)"
      using that by (auto intro!: keep)
  qed
  then show ?thesis using rep dl q by (auto simp: blk_rep_def)
qed

lemma blk_rep_create:
  assumes "cells h NULL = None" "dl_create h = (ph, h0)" "ph \<noteq> NULL" shows "blk_rep mk h0 ph []"
  using malloc_cases[OF assms(2)[unfolded dl_create_def]] assms(1,3) by (auto simp: blk_rep_def dl_rep_def)

end
