(* ===== verification/SysFifo.thy ===== *)
theory SysFifo
  imports SysBlocks
begin

text \<open>
  path/local/sys_fifo.c: a byte queue built on the double linked list.  Each element is a
  \<open>fifo_item_typ\<close> with a data block of its own; \<open>pread\<close> points into that block and is modelled as
  the block and an offset.  A signed overflow of the byte count is a fault, as C leaves it undefined.
\<close>

record fifo_item = fi_size :: int
  fi_pread :: "ptr \<times> nat"
  fi_pdata :: ptr

abbreviation (input) INT_MAX :: int where "INT_MAX \<equiv> 2147483647"

text \<open>Fresh blocks are filled before they are read, so what \<open>MALLOC\<close> leaves in them is not modelled.\<close>

definition fifo_write :: "ptr \<Rightarrow> u8 list \<Rightarrow> int \<Rightarrow> fifo_item bobj heap \<Rightarrow> (int \<times> fifo_item bobj heap) option" where
  "fifo_write phead psrc size1 h =
     (if size1 = 0 then Some (0, h)
      else if phead = NULL \<or> size1 < 0 then Some (ERROR, h)
      else let (pitem, h) = malloc (Obj (Item \<lparr>fi_size = 0, fi_pread = (NULL, 0), fi_pdata = NULL\<rparr>)) h in
        if pitem = NULL then Some (ERROR, h)
        else let (pdata, h) = malloc (Obj (Bytes [])) h in
          if pdata = NULL then do { h \<leftarrow> free pitem h; Some (ERROR, h) }
          else do {
            b \<leftarrow> bytecopy (nat size1) psrc;
            let h = put pdata (Obj (Bytes b)) h;
            let h = put pitem (Obj (Item \<lparr>fi_size = size1, fi_pread = (pdata, 0), fi_pdata = pdata\<rparr>)) h;
            (ok, h) \<leftarrow> dl_append pitem phead h;
            if \<not> ok then do { h \<leftarrow> free pdata h; h \<leftarrow> free pitem h; Some (ERROR, h) }
            else Some (size1, h)
          })"

text \<open>The \<open>for\<close> loop of \<open>fifo_read\<close>; \<open>out\<close> is what has been copied to the destination so far.\<close>

partial_function (option) fifo_read_loop ::
  "ptr \<Rightarrow> int \<Rightarrow> int \<Rightarrow> u8 list \<Rightarrow> fifo_item bobj heap \<Rightarrow> (int \<times> u8 list \<times> fifo_item bobj heap) option" where
  "fifo_read_loop phead maximum sum1 out h =
     (if \<not> sum1 < maximum then Some (sum1, out, h) else do {
        hd \<leftarrow> get_dh h phead;
        let pnode = dh_pfirst hd;
        if pnode = NULL then Some (sum1, out, h) else do {
          n \<leftarrow> get_dn h pnode;
          let psrc = dn_pitem n;
          src \<leftarrow> get_item h psrc;
          if sum1 + fi_size src > INT_MAX then None
          else if sum1 + fi_size src \<le> maximum then do {
            b \<leftarrow> bytecopy_from (nat (fi_size src)) (fi_pread src) h;
            (p, h) \<leftarrow> dl_rm_first phead h;
            h \<leftarrow> free (fi_pdata src) h;
            h \<leftarrow> free psrc h;
            fifo_read_loop phead maximum (sum1 + fi_size src) (out @ b) h
          } else do {
            let part = maximum - sum1;
            b \<leftarrow> bytecopy_from (nat part) (fi_pread src) h;
            let h = put psrc (Obj (Item (src\<lparr>fi_size := fi_size src - part,
                       fi_pread := (fst (fi_pread src), snd (fi_pread src) + nat part)\<rparr>))) h;
            fifo_read_loop phead maximum (sum1 + part) (out @ b) h
          }
        }
      })"

definition fifo_read :: "ptr \<Rightarrow> int \<Rightarrow> fifo_item bobj heap \<Rightarrow> (int \<times> u8 list \<times> fifo_item bobj heap) option" where
  "fifo_read phead maximum h =
     (if maximum = 0 then Some (0, [], h)
      else if phead = NULL \<or> maximum < 0 then Some (ERROR, [], h)
      else fifo_read_loop phead maximum 0 [] h)"

partial_function (option) fifo_flush_loop ::
  "ptr \<Rightarrow> int \<Rightarrow> fifo_item bobj heap \<Rightarrow> (int \<times> fifo_item bobj heap) option" where
  "fifo_flush_loop phead sum1 h = do {
     (pitem, h) \<leftarrow> dl_rm_last phead h;
     if pitem = NULL then Some (sum1, h) else do {
       it \<leftarrow> get_item h pitem;
       if sum1 + fi_size it > INT_MAX then None else do {
         h \<leftarrow> free (fi_pdata it) h;
         h \<leftarrow> free pitem h;
         fifo_flush_loop phead (sum1 + fi_size it) h
       }
     }
   }"

definition fifo_flush :: "ptr \<Rightarrow> fifo_item bobj heap \<Rightarrow> (int \<times> fifo_item bobj heap) option" where
  "fifo_flush phead h = (if phead = NULL then Some (ERROR, h) else fifo_flush_loop phead 0 h)"

definition fifo_done :: "ptr \<Rightarrow> fifo_item bobj heap \<Rightarrow> fifo_item bobj heap option" where
  "fifo_done phead h = (if phead = NULL then Some h else do {
     (n, h) \<leftarrow> fifo_flush phead h;
     dl_free phead h
   })"

definition fifo_mk :: "blk_elem \<Rightarrow> fifo_item" where
  "fifo_mk q = \<lparr>fi_size = int (length (be_rest q)), fi_pread = (be_data q, length (be_read q)),
     fi_pdata = be_data q\<rparr>"

abbreviation fifo_rep :: "fifo_item bobj heap \<Rightarrow> ptr \<Rightarrow> blk_elem list \<Rightarrow> bool" where
  "fifo_rep \<equiv> blk_rep fifo_mk"

subsection \<open>What the operations do\<close>

lemma fifo_write_spec:
  assumes rep: "fifo_rep h ph Q" and size: "0 < n" "n \<le> length src"
  shows "(\<exists>h'. fifo_write ph src (int n) h = Some (ERROR, h') \<and> cells h' = cells h) \<or>
    (\<exists>h' q. fifo_write ph src (int n) h = Some (int n, h') \<and> fifo_rep h' ph (Q @ [q]) \<and> be_rest q = take n src)"
proof -
  have ph: "ph \<noteq> NULL" using rep dl_repE(2) by (auto simp: blk_rep_def)
  obtain p h1 where m1: "malloc (Obj (Item \<lparr>fi_size = 0, fi_pread = (NULL, 0), fi_pdata = NULL\<rparr>)) h = (p, h1)"
    by fastforce
  obtain d h2 where m2: "malloc (Obj (Bytes [])) h1 = (d, h2)" by fastforce
  show ?thesis
  proof (cases "p = NULL \<or> d = NULL")
    case True
    have "p \<noteq> NULL \<Longrightarrow> d = NULL \<Longrightarrow> cells (h2\<lparr>cells := (cells h2)(p := None)\<rparr>) = cells h \<and> cells h2 p \<noteq> None"
      using malloc_cases[OF m1] malloc_cases[OF m2] by auto
    then show ?thesis using True ph size malloc_cases[OF m1] m1 m2
      by (auto simp: fifo_write_def free_def)
  next
    case False
    let ?i = "\<lparr>fi_size = int n, fi_pread = (d, 0), fi_pdata = d\<rparr>"
    define h3 where "h3 = put p (Obj (Item ?i)) (put d (Obj (Bytes (take n src))) h2)"
    have new: "cells h p = None" "cells h d = None" "p \<noteq> d" "p \<noteq> NULL" "d \<noteq> NULL"
      and c3: "cells h3 = (cells h)(d \<mapsto> Obj (Bytes (take n src)), p \<mapsto> Obj (Item ?i))"
      using malloc_cases[OF m1] malloc_cases[OF m2] False by (auto simp: h3_def split: if_splits)
    note fp = blk_rep_fresh[OF rep new(1)] and fd = blk_rep_fresh[OF rep new(2)]
    have se: "same_except {p, d} h h3" by (simp add: same_except_def c3)
    have rep3: "fifo_rep h3 ph Q"
      by (rule blk_rep_agree[OF rep se]) (use fp fd new in auto)
    have w: "fifo_write ph src (int n) h = do {
        (ok, h) \<leftarrow> dl_append p ph h3;
        if \<not> ok then do { h \<leftarrow> free d h; h \<leftarrow> free p h; Some (ERROR, h) } else Some (int n, h) }"
      using m1 m2 False size ph by (simp add: fifo_write_def bytecopy_def h3_def)
    have dl3: "dl_rep h3 ph (blk_nodes Q)" using rep3 by (simp add: blk_rep_def)
    show ?thesis using dl_append_spec[OF dl3, of p]
    proof (elim disjE exE conjE)
      fix h4 assume a: "dl_append p ph h3 = Some (False, h4)" "cells h4 = cells h3"
      have "(cells h)(d := None, p := None) = cells h" using new by auto
      then show ?thesis using w a new c3 by (simp add: free_def fun_upd_twist)
    next
      fix h4 m assume a: "dl_append p ph h3 = Some (True, h4)" "cells h3 m = None"
        "dl_rep h4 ph (blk_nodes Q @ [(m, p)])" "same_except ({ph, m} \<union> nodes (blk_nodes Q)) h3 h4"
      define q where "q = \<lparr>be_node = m, be_item = p, be_data = d, be_read = [], be_rest = take n src\<rparr>"
      have keep: "cells h4 x = cells h3 x" if "x \<in> set (blk_ptrs (Q @ [q]))" for x
      proof -
        have "\<exists>v. cells h3 x = Some (Obj v)"
        proof (cases "x \<in> set (blk_ptrs Q)")
          case True
          then show ?thesis by (rule blk_ptr_obj(1)[OF rep3])
        next
          case False
          then have "x = p \<or> x = d" using that by (auto simp: q_def)
          then show ?thesis using c3 new(3) by auto
        qed
        then obtain v where v: "cells h3 x = Some (Obj v)" by blast
        then have "x \<notin> {ph, m} \<union> nodes (blk_nodes Q)"
          using dl.obj_not_node[OF dl3 v] a(2) by (intro notI) (elim UnE insertE, simp_all)
        then show ?thesis using a(4) by (simp add: same_except_def)
      qed
      have "elem_ok fifo_mk (cells h3) q" using c3 new size by (auto simp: elem_ok_def fifo_mk_def q_def)
      then have "elem_ok fifo_mk (cells h4) r" if "r \<in> set (Q @ [q])" for r
        using that rep3 keep elem_ok_agree[of fifo_mk "cells h3" r "cells h4"] by (auto simp: blk_rep_def)
      moreover have "distinct (blk_ptrs (Q @ [q]))"
        using rep fp fd new by (auto simp: blk_rep_def q_def)
      ultimately have "fifo_rep h4 ph (Q @ [q])" using a(3) by (simp add: blk_rep_def q_def)
      then show ?thesis using w a by (auto simp: q_def intro!: exI[of _ q])
    qed
  qed
qed

lemma fifo_head:
  assumes "fifo_rep h ph Q"
  shows "get_dh h ph = Some \<lparr>dh_length = int (length Q), dh_pfirst = dl_first_addr (blk_nodes Q) NULL,
      dh_plast = dl_last_addr NULL (blk_nodes Q)\<rparr>"
  using assms dl_repE(3)[of h ph "blk_nodes Q"] by (simp add: blk_rep_def get_dh_def)

lemma fifo_first_node:
  assumes "fifo_rep h ph (q # Q)"
  shows "be_node q \<noteq> NULL" "\<exists>n. get_dn h (be_node q) = Some n \<and> dn_pitem n = be_item q"
    "cells h (be_item q) = Some (Obj (Item \<lparr>fi_size = int (length (be_rest q)),
       fi_pread = (be_data q, length (be_read q)), fi_pdata = be_data q\<rparr>))"
    "cells h (be_data q) = Some (Obj (Bytes (be_read q @ be_rest q)))" "be_rest q \<noteq> []"
  using assms dl_repE(4,7)[of h ph "blk_nodes (q # Q)"]
  by (auto simp: blk_rep_def get_dn_def elem_ok_def fifo_mk_def)

text \<open>Reading part of the first element moves its read pointer.\<close>

lemma fifo_read_part:
  assumes rep: "fifo_rep h ph (q # Q)" and n: "n < length (be_rest q)"
  defines "h' \<equiv> put (be_item q) (Obj (Item \<lparr>fi_size = int (length (be_rest q)) - int n,
       fi_pread = (be_data q, length (be_read q) + n), fi_pdata = be_data q\<rparr>)) h"
  shows "fifo_rep h' ph (q\<lparr>be_read := be_read q @ take n (be_rest q), be_rest := drop n (be_rest q)\<rparr> # Q)"
proof -
  let ?q = "q\<lparr>be_read := be_read q @ take n (be_rest q), be_rest := drop n (be_rest q)\<rparr>"
  have se: "same_except {be_item q} h h'" by (simp add: h'_def same_except_def)
  note b = blk_ptr_obj[OF rep, of "be_item q"]
  have "dl_rep h' ph (blk_nodes (q # Q))"
    using rep b by (intro dl_rep_agree[OF _ se]) (auto simp: blk_rep_def image_image)
  moreover have "elem_ok fifo_mk (cells h') ?q"
    using rep n by (auto simp: elem_ok_def fifo_mk_def blk_rep_def h'_def)
  moreover have "elem_ok fifo_mk (cells h') r" if "r \<in> set Q" for r
  proof (rule elem_ok_agree[of fifo_mk "cells h"])
    show "elem_ok fifo_mk (cells h) r" using rep that by (simp add: blk_rep_def)
    have "be_item r \<in> be_item ` set Q" "be_data r \<in> be_data ` set Q" using that by simp_all
    moreover have "be_item q \<notin> be_item ` set Q" "be_item q \<notin> be_data ` set Q"
      using rep by (simp_all add: blk_rep_def)
    ultimately have "be_item r \<noteq> be_item q" "be_data r \<noteq> be_item q" by metis+
    then show "cells h' (be_item r) = cells h (be_item r)" "cells h' (be_data r) = cells h (be_data r)"
      by (simp_all add: h'_def)
  qed
  ultimately show ?thesis using rep by (auto simp: blk_rep_def)
qed

lemma fifo_read_loop_spec:
  assumes "fifo_rep h ph Q" "sum1 + int (length (blk_bytes Q)) \<le> INT_MAX" "sum1 \<le> maximum"
  shows "\<exists>h' Q'. fifo_read_loop ph maximum sum1 out h =
      Some (sum1 + int (length (take (nat (maximum - sum1)) (blk_bytes Q))),
            out @ take (nat (maximum - sum1)) (blk_bytes Q), h') \<and>
    fifo_rep h' ph Q' \<and> blk_bytes Q' = drop (nat (maximum - sum1)) (blk_bytes Q)"
  using assms
proof (induction Q arbitrary: h sum1 out)
  case Nil
  then show ?case using fifo_head[OF Nil(1)]
    by (subst fifo_read_loop.simps) (auto intro!: exI[of _ "[]"])
next
  case (Cons q Q)
  note F = fifo_first_node[OF Cons.prems(1)]
  obtain nd where nd: "get_dn h (be_node q) = Some nd" "dn_pitem nd = be_item q" using F(2) by blast
  note H = fifo_head[OF Cons.prems(1)]
  let ?k = "length (be_rest q)"
  show ?case
  proof (cases "sum1 < maximum")
    case False
    then show ?thesis using Cons.prems by (subst fifo_read_loop.simps) (auto intro!: exI[of _ "q # Q"])
  next
    case lt: True
    show ?thesis
    proof (cases "sum1 + int ?k \<le> maximum")
      case True
      have dl: "dl_rep h ph ((be_node q, be_item q) # blk_nodes Q)" using Cons.prems by (simp add: blk_rep_def)
      obtain h1 where h1: "dl_rm_first ph h = Some (be_item q, h1)" "dl_rep h1 ph (blk_nodes Q)"
        "same_except ({ph, be_node q} \<union> nodes (blk_nodes Q)) h h1"
        using dl_rm_first_spec[OF dl] by blast
      obtain h2 h3 where h3: "free (be_data q) h1 = Some h2" "free (be_item q) h2 = Some h3" "fifo_rep h3 ph Q"
        using blk_drop_elem[of fifo_mk h ph "[]" q Q h1] Cons.prems(1) h1 by (auto simp: image_image)
      have "bytecopy_from ?k (be_data q, length (be_read q)) h = Some (be_rest q)"
        using bytecopy_from_block[OF F(4)] by simp
      then have step: "fifo_read_loop ph maximum sum1 out h = fifo_read_loop ph maximum (sum1 + int ?k) (out @ be_rest q) h3"
        using lt True H F(1) nd F(3) h1 h3 Cons.prems(2)
        by (subst fifo_read_loop.simps) (simp add: Let_def get_item_def get_obj_def)
      obtain h' Q' where "fifo_read_loop ph maximum (sum1 + int ?k) (out @ be_rest q) h3 =
          Some (sum1 + int ?k + int (length (take (nat (maximum - (sum1 + int ?k))) (blk_bytes Q))),
            (out @ be_rest q) @ take (nat (maximum - (sum1 + int ?k))) (blk_bytes Q), h')"
        "fifo_rep h' ph Q'" "blk_bytes Q' = drop (nat (maximum - (sum1 + int ?k))) (blk_bytes Q)"
        using Cons.IH[OF h3(3), of "sum1 + int ?k" "out @ be_rest q"] Cons.prems(2) True by auto
      moreover have "nat (maximum - (sum1 + int ?k)) = nat (maximum - sum1) - ?k" "?k \<le> nat (maximum - sum1)"
        using True by auto
      ultimately show ?thesis using step by (auto intro!: exI[of _ h'] exI[of _ Q'])
    next
      case False
      define n where "n = nat (maximum - sum1)"
      have n: "n < ?k" "int n = maximum - sum1" using False lt by (auto simp: n_def)
      have "bytecopy_from n (be_data q, length (be_read q)) h = Some (take n (be_rest q))"
        using bytecopy_from_block[OF F(4)] n by simp
      then have "fifo_read_loop ph maximum sum1 out h = Some (maximum, out @ take n (be_rest q),
          put (be_item q) (Obj (Item \<lparr>fi_size = int (length (be_rest q)) - int n,
            fi_pread = (be_data q, length (be_read q) + n), fi_pdata = be_data q\<rparr>)) h)"
        using lt False H F(1) nd F(3) n Cons.prems(2)
        by (subst fifo_read_loop.simps, simp add: n_def Let_def get_item_def get_obj_def,
            subst fifo_read_loop.simps, simp)
      then show ?thesis using fifo_read_part[OF Cons.prems(1) n(1)] n
        by (simp add: n_def[symmetric])
           (rule exI[of _ "q\<lparr>be_read := be_read q @ take n (be_rest q), be_rest := drop n (be_rest q)\<rparr> # Q"], simp)
    qed
  qed
qed

lemma fifo_read_spec:
  assumes rep: "fifo_rep h ph Q" and "int (length (blk_bytes Q)) \<le> INT_MAX"
  shows "\<exists>h' Q'. fifo_read ph (int n) h = Some (int (length (take n (blk_bytes Q))), take n (blk_bytes Q), h') \<and>
    fifo_rep h' ph Q' \<and> blk_bytes Q' = drop n (blk_bytes Q)"
  using fifo_read_loop_spec[OF rep, of 0 "int n" "[]"] assms dl_repE(2)[of h ph "blk_nodes Q"]
  by (auto simp: fifo_read_def blk_rep_def intro: exI[of _ Q])

lemma fifo_flush_loop_spec:
  assumes "fifo_rep h ph Q" "sum1 + int (length (blk_bytes Q)) \<le> INT_MAX"
  shows "\<exists>h'. fifo_flush_loop ph sum1 h = Some (sum1 + int (length (blk_bytes Q)), h') \<and> fifo_rep h' ph [] \<and>
    (\<forall>a \<in> be_node ` set Q \<union> set (blk_ptrs Q). cells h' a = None) \<and>
    same_except ({ph} \<union> be_node ` set Q \<union> set (blk_ptrs Q)) h h'"
  using assms
proof (induction Q arbitrary: h sum1 rule: rev_induct)
  case Nil
  then show ?case by (subst fifo_flush_loop.simps) (simp add: blk_rep_def dl_rm_last_empty)
next
  case (snoc q Q)
  have dl: "dl_rep h ph (blk_nodes Q @ [(be_node q, be_item q)])" using snoc.prems by (simp add: blk_rep_def)
  obtain h1 where h1: "dl_rm_last ph h = Some (be_item q, h1)" "dl_rep h1 ph (blk_nodes Q)"
    "cells h1 (be_node q) = None" "same_except ({ph, be_node q} \<union> nodes (blk_nodes Q)) h h1"
    using dl_rm_last_spec[OF dl] by blast
  obtain h2 h3 where h3: "free (be_data q) h1 = Some h2" "free (be_item q) h2 = Some h3" "fifo_rep h3 ph Q"
    "cells h1 (be_item q) = cells h (be_item q)" "cells h3 (be_data q) = None" "cells h3 (be_item q) = None"
    "same_except ({ph, be_node q, be_item q, be_data q} \<union> be_node ` set Q) h h3"
    using blk_drop_elem[of fifo_mk h ph Q q "[]" h1] snoc.prems(1) h1 by (auto simp: image_image)
  have it: "cells h (be_item q) = Some (Obj (Item \<lparr>fi_size = int (length (be_rest q)),
       fi_pread = (be_data q, length (be_read q)), fi_pdata = be_data q\<rparr>))" "be_item q \<noteq> NULL"
    using snoc.prems(1) blk_ptr_obj(2)[OF snoc.prems(1), of "be_item q"] by (auto simp: blk_rep_def elem_ok_def fifo_mk_def)
  have step: "fifo_flush_loop ph sum1 h = fifo_flush_loop ph (sum1 + int (length (be_rest q))) h3"
    using h1(1) h3(1,2,4) it snoc.prems(2) by (subst fifo_flush_loop.simps) (simp add: get_item_def get_obj_def)
  obtain h' where h': "fifo_flush_loop ph (sum1 + int (length (be_rest q))) h3 =
      Some (sum1 + int (length (be_rest q)) + int (length (blk_bytes Q)), h')" "fifo_rep h' ph []"
    "\<forall>a \<in> be_node ` set Q \<union> set (blk_ptrs Q). cells h' a = None"
    "same_except ({ph} \<union> be_node ` set Q \<union> set (blk_ptrs Q)) h3 h'"
    using snoc.IH[OF h3(3), of "sum1 + int (length (be_rest q))"] snoc.prems(2) by auto
  have free1: "cells h2 (be_node q) = None" "cells h3 (be_node q) = None"
    using h3(1,2) h1(3) by (auto simp: free_def split: if_splits)
  have none: "cells h' a = None" if "a \<in> {be_node q, be_item q, be_data q}" "a \<noteq> ph" for a
    using h'(3,4) free1 h3(5,6) that
    by (cases "a \<in> be_node ` set Q \<union> set (blk_ptrs Q)") (auto simp: same_except_def)
  have "be_node q \<noteq> ph" "be_item q \<noteq> ph" "be_data q \<noteq> ph"
    using dl_repE(6)[OF dl] blk_ptr_obj(3)[OF snoc.prems(1)] by auto
  then have "\<forall>a \<in> be_node ` set (Q @ [q]) \<union> set (blk_ptrs (Q @ [q])). cells h' a = None"
    using none h'(3) by auto
  moreover have "same_except ({ph} \<union> be_node ` set (Q @ [q]) \<union> set (blk_ptrs (Q @ [q]))) h h'"
    by (rule same_except_trans[OF h3(7) h'(4)]) auto
  ultimately show ?case using step h'(1,2) by (auto simp: algebra_simps)
qed


subsection \<open>The queue as a byte stream\<close>

text \<open>A client's calls: what was accepted by the writes, what was delivered by the reads.\<close>

datatype fifo_call = FWrite "u8 list" int | FRead int

fun fifo_run :: "fifo_call list \<Rightarrow> ptr \<Rightarrow> fifo_item bobj heap \<Rightarrow>
    (u8 list \<times> u8 list \<times> fifo_item bobj heap) option" where
  "fifo_run [] ph h = Some ([], [], h)"
| "fifo_run (FWrite src n # cs) ph h = do {
     (r, h) \<leftarrow> fifo_write ph src n h;
     (acc, del, h) \<leftarrow> fifo_run cs ph h;
     Some ((if r = n then take (nat n) src else []) @ acc, del, h)
   }"
| "fifo_run (FRead n # cs) ph h = do {
     (r, b, h) \<leftarrow> fifo_read ph n h;
     (acc, del, h) \<leftarrow> fifo_run cs ph h;
     Some (acc, b @ del, h)
   }"

text \<open>A write must not ask for more bytes than its source holds.\<close>

fun fifo_call_ok :: "fifo_call \<Rightarrow> bool" where
  "fifo_call_ok (FWrite src n) = (n \<le> int (length src))"
| "fifo_call_ok (FRead n) = True"

fun fifo_call_bytes :: "fifo_call \<Rightarrow> nat" where
  "fifo_call_bytes (FWrite src n) = nat n"
| "fifo_call_bytes (FRead n) = 0"

lemma fifo_read_any:
  assumes rep: "fifo_rep h ph Q" and "int (length (blk_bytes Q)) \<le> INT_MAX"
  shows "\<exists>r h' Q'. fifo_read ph n h = Some (r, take (nat n) (blk_bytes Q), h') \<and>
    fifo_rep h' ph Q' \<and> blk_bytes Q' = drop (nat n) (blk_bytes Q)"
proof (cases "n < 0")
  case True
  then show ?thesis using rep by (auto simp: fifo_read_def)
next
  case False
  then show ?thesis using fifo_read_spec[OF assms, of "nat n"] by auto
qed

lemma fifo_write_any:
  assumes rep: "fifo_rep h ph Q" and n: "n \<le> int (length src)"
  shows "\<exists>r h' Q'. fifo_write ph src n h = Some (r, h') \<and> fifo_rep h' ph Q' \<and>
    blk_bytes Q' = blk_bytes Q @ (if r = n then take (nat n) src else [])"
proof (cases "0 < n")
  case False
  then show ?thesis using rep by (auto simp: fifo_write_def)
next
  case True
  then have n': "n = int (nat n)" "0 < nat n" "nat n \<le> length src" "n \<noteq> ERROR" using n by auto
  from fifo_write_spec[OF rep n'(2,3)] show ?thesis
  proof (elim disjE exE conjE)
    fix h' assume "fifo_write ph src (int (nat n)) h = Some (ERROR, h')" "cells h' = cells h"
    then show ?thesis using n' blk_rep_cells[OF rep] by (intro exI[of _ ERROR]) auto
  next
    fix h' q assume "fifo_write ph src (int (nat n)) h = Some (int (nat n), h')" "fifo_rep h' ph (Q @ [q])"
      "be_rest q = take (nat n) src"
    then show ?thesis using n' by (intro exI[of _ n] exI[of _ h'] exI[of _ "Q @ [q]"]) auto
  qed
qed

lemma fifo_run_stream:
  assumes "fifo_rep h ph Q" "list_all fifo_call_ok cs"
    "int (length (blk_bytes Q) + sum_list (map fifo_call_bytes cs)) \<le> INT_MAX"
  shows "\<exists>acc del h' Q'. fifo_run cs ph h = Some (acc, del, h') \<and> fifo_rep h' ph Q' \<and>
    del @ blk_bytes Q' = blk_bytes Q @ acc \<and> length acc \<le> sum_list (map fifo_call_bytes cs)"
  using assms
proof (induction cs arbitrary: h Q)
  case Nil
  then show ?case by auto
next
  case (Cons c cs)
  show ?case
  proof (cases c)
    case (FWrite src n)
    obtain r h1 Q1 where w: "fifo_write ph src n h = Some (r, h1)" "fifo_rep h1 ph Q1"
      "blk_bytes Q1 = blk_bytes Q @ (if r = n then take (nat n) src else [])"
      using fifo_write_any[OF Cons.prems(1), of n src] Cons.prems(2) FWrite by auto
    have len: "length (if r = n then take (nat n) src else []) \<le> nat n" by simp
    have "int (length (blk_bytes Q1) + sum_list (map fifo_call_bytes cs)) \<le> INT_MAX"
      using Cons.prems(3) len FWrite w(3) by (auto simp del: length_take split: if_splits)
    from Cons.IH[OF w(2) _ this] obtain acc del h' Q' where "fifo_run cs ph h1 = Some (acc, del, h')"
      "fifo_rep h' ph Q'" "del @ blk_bytes Q' = blk_bytes Q1 @ acc" "length acc \<le> sum_list (map fifo_call_bytes cs)"
      using Cons.prems(2) by auto
    then show ?thesis using w len FWrite by (auto intro!: exI[of _ Q'])
  next
    case (FRead n)
    have "int (length (blk_bytes Q)) \<le> INT_MAX" using Cons.prems(3) by linarith
    from fifo_read_any[OF Cons.prems(1) this, of n] obtain r h1 Q1 where
      r: "fifo_read ph n h = Some (r, take (nat n) (blk_bytes Q), h1)" "fifo_rep h1 ph Q1"
      "blk_bytes Q1 = drop (nat n) (blk_bytes Q)" by blast
    have "int (length (blk_bytes Q1) + sum_list (map fifo_call_bytes cs)) \<le> INT_MAX"
      using Cons.prems(3) r(3) FRead by simp
    from Cons.IH[OF r(2) _ this] obtain acc del h' Q' where IH: "fifo_run cs ph h1 = Some (acc, del, h')"
      "fifo_rep h' ph Q'" "del @ blk_bytes Q' = blk_bytes Q1 @ acc" "length acc \<le> sum_list (map fifo_call_bytes cs)"
      using Cons.prems(2) by auto
    have "(take (nat n) (blk_bytes Q) @ del) @ blk_bytes Q' = blk_bytes Q @ acc"
      using IH(3) r(3) by (metis append.assoc append_take_drop_id)
    then show ?thesis using r IH FRead by (auto intro!: exI[of _ Q'])
  qed
qed

lemma fifo_flush_spec:
  assumes rep: "fifo_rep h ph Q" and "int (length (blk_bytes Q)) \<le> INT_MAX"
  shows "\<exists>h'. fifo_flush ph h = Some (int (length (blk_bytes Q)), h') \<and> fifo_rep h' ph [] \<and>
    (\<forall>a \<in> be_node ` set Q \<union> set (blk_ptrs Q). cells h' a = None) \<and>
    same_except ({ph} \<union> be_node ` set Q \<union> set (blk_ptrs Q)) h h'"
  using fifo_flush_loop_spec[OF rep, of 0] assms dl_repE(2)[of h ph "blk_nodes Q"]
  by (simp add: fifo_flush_def blk_rep_def)

lemma fifo_done_spec:
  assumes rep: "fifo_rep h ph Q" and len: "int (length (blk_bytes Q)) \<le> INT_MAX"
  shows "\<exists>h'. fifo_done ph h = Some h' \<and>
    (\<forall>a \<in> {ph} \<union> be_node ` set Q \<union> set (blk_ptrs Q). cells h' a = None) \<and>
    same_except ({ph} \<union> be_node ` set Q \<union> set (blk_ptrs Q)) h h'"
proof -
  obtain h1 where h1: "fifo_flush ph h = Some (int (length (blk_bytes Q)), h1)" "fifo_rep h1 ph []"
    "\<forall>a \<in> be_node ` set Q \<union> set (blk_ptrs Q). cells h1 a = None"
    "same_except ({ph} \<union> be_node ` set Q \<union> set (blk_ptrs Q)) h h1"
    using fifo_flush_spec[OF assms] by blast
  have "dl_rep h1 ph []" "own_items h1 []" using h1(2) by (simp_all add: blk_rep_def own_items_def)
  then obtain h2 where h2: "dl_free ph h1 = Some h2" "cells h2 ph = None" "same_except {ph} h1 h2"
    using dl_free_spec by fastforce
  have "ph \<noteq> NULL" using rep dl_repE(2) by (auto simp: blk_rep_def)
  then have "fifo_done ph h = Some h2" using h1(1) h2(1) by (simp add: fifo_done_def)
  moreover have "\<forall>a \<in> {ph} \<union> be_node ` set Q \<union> set (blk_ptrs Q). cells h2 a = None"
  proof
    fix a assume "a \<in> {ph} \<union> be_node ` set Q \<union> set (blk_ptrs Q)"
    then show "cells h2 a = None" using h2(2,3) h1(3) by (cases "a = ph") (auto simp: same_except_def)
  qed
  moreover have "same_except ({ph} \<union> be_node ` set Q \<union> set (blk_ptrs Q)) h h2"
    by (rule same_except_trans[OF h1(4) h2(3)]) auto
  ultimately show ?thesis by blast
qed

end
