(* ===== verification/SysBuff.thy ===== *)
theory SysBuff
  imports SysBlocks
begin

text \<open>
  path/local/sys_buff.c: an output buffer that keeps the last \<open>max_size\<close> records added to it (all
  of them when \<open>max_size\<close> is 0) and writes them, oldest first, when it is closed.  The output
  stream is a sequence of outcomes of \<open>fwrite\<close> and the list of the records written.
\<close>

record buff_data = bd_size :: nat
  bd_pdata :: ptr

record buff = bf_phead :: ptr
  bf_max_size :: nat
  bf_pfout :: ptr

datatype buff_obj = BData buff_data | BBuf buff

type_synonym buff_heap = "buff_obj bobj heap"

record stream = wr_ok :: "nat \<Rightarrow> bool"
  wr_calls :: nat
  written :: "u8 list list"

definition fwrite :: "u8 list \<Rightarrow> stream \<Rightarrow> bool \<times> stream" where
  "fwrite b f = (let ok = wr_ok f (wr_calls f) in
     (ok, f\<lparr>wr_calls := wr_calls f + 1, written := written f @ (if ok then [b] else [])\<rparr>))"

fun bdata_of :: "buff_obj option \<Rightarrow> buff_data option" where
  "bdata_of (Some (BData b)) = Some b" | "bdata_of _ = None"

fun bbuf_of :: "buff_obj option \<Rightarrow> buff option" where
  "bbuf_of (Some (BBuf b)) = Some b" | "bbuf_of _ = None"

definition get_bdata :: "buff_heap \<Rightarrow> ptr \<Rightarrow> buff_data option" where
  "get_bdata h p = bdata_of (get_item h p)"

definition get_bbuf :: "buff_heap \<Rightarrow> ptr \<Rightarrow> buff option" where
  "get_bbuf h p = bbuf_of (get_item h p)"

lemma get_bdata_iff: "cells h p = Some (Obj (Item (BData b))) \<Longrightarrow> get_bdata h p = Some b"
  by (simp add: get_bdata_def get_item_def get_obj_def)

lemma get_bbuf_iff: "cells h p = Some (Obj (Item (BBuf b))) \<Longrightarrow> get_bbuf h p = Some b"
  by (simp add: get_bbuf_def get_item_def get_obj_def)

definition buff_init :: "ptr \<Rightarrow> nat \<Rightarrow> buff_heap \<Rightarrow> (ptr \<times> buff_heap) option" where
  "buff_init pfout max_size h =
     (if pfout = NULL then Some (NULL, h)
      else let (pbuff, h) = malloc (Obj (Item (BBuf \<lparr>bf_phead = NULL, bf_max_size = 0, bf_pfout = NULL\<rparr>))) h in
        if pbuff = NULL then Some (NULL, h)
        else let (phead, h) = dl_create h in
          if phead = NULL then do { h \<leftarrow> free pbuff h; Some (NULL, h) }
          else Some (pbuff, put pbuff
            (Obj (Item (BBuf \<lparr>bf_phead = phead, bf_max_size = max_size, bf_pfout = pfout\<rparr>))) h))"

partial_function (option) buff_flush_loop :: "ptr \<Rightarrow> nat \<Rightarrow> stream \<Rightarrow> buff_heap \<Rightarrow> (nat \<times> stream \<times> buff_heap) option" where
  "buff_flush_loop phead count1 f h = do {
     (pitem, h) \<leftarrow> dl_rm_last phead h;
     if pitem = NULL then Some (count1, f, h) else do {
       it \<leftarrow> get_bdata h pitem;
       b \<leftarrow> bytecopy_from (bd_size it) (bd_pdata it, 0) h;
       let (ok, f) = fwrite b f;
       if \<not> ok then Some (count1, f, h) else do {
         h \<leftarrow> free (bd_pdata it) h;
         h \<leftarrow> free pitem h;
         buff_flush_loop phead (count1 + 1) f h
       }
     }
   }"

definition buff_flush :: "ptr \<Rightarrow> stream \<Rightarrow> buff_heap \<Rightarrow> (nat \<times> stream \<times> buff_heap) option" where
  "buff_flush pbuff f h = do { b \<leftarrow> get_bbuf h pbuff; buff_flush_loop (bf_phead b) 0 f h }"

definition buff_done :: "ptr \<Rightarrow> stream \<Rightarrow> buff_heap \<Rightarrow> (bool \<times> stream \<times> buff_heap) option" where
  "buff_done pbuff f h =
     (if pbuff = NULL then Some (False, f, h) else do {
        b \<leftarrow> get_bbuf h pbuff;
        if bf_phead b = NULL then Some (False, f, h) else do {
          n \<leftarrow> dl_length (bf_phead b) h;
          let num_element = nat n;
          (status, f, h) \<leftarrow> (if num_element \<noteq> 0 then do {
              (k, f, h) \<leftarrow> buff_flush pbuff f h;
              Some (k = num_element, f, h)
            } else Some (True, f, h));
          h \<leftarrow> dl_free (bf_phead b) h;
          h \<leftarrow> free pbuff h;
          Some (status, f, h)
        }
      })"

definition buff_add :: "ptr \<Rightarrow> u8 list option \<Rightarrow> nat \<Rightarrow> buff_heap \<Rightarrow> (nat \<times> buff_heap) option" where
  "buff_add pbuff pdata size1 h =
     (if pdata = None \<or> pbuff = NULL \<or> size1 = 0 then Some (0, h)
      else let (pnew, h) = malloc (Obj (Bytes [])) h in
        if pnew = NULL then Some (0, h) else do {
          b \<leftarrow> bytecopy size1 (the pdata);
          let h = put pnew (Obj (Bytes b)) h;
          bf \<leftarrow> get_bbuf h pbuff;
          (ok, h) \<leftarrow> dl_add_dup (bf_phead bf) (Item (BData \<lparr>bd_size = size1, bd_pdata = pnew\<rparr>)) True h;
          if \<not> ok then do { h \<leftarrow> free pnew h; Some (0, h) } else do {
            len \<leftarrow> dl_length (bf_phead bf) h;
            if bf_max_size bf \<noteq> 0 \<and> bf_max_size bf < nat len then do {
              (pitem, h) \<leftarrow> dl_rm_last (bf_phead bf) h;
              if pitem \<noteq> NULL then do {
                it \<leftarrow> get_bdata h pitem;
                h \<leftarrow> free (bd_pdata it) h;
                h \<leftarrow> free pitem h;
                Some (size1, h)
              } else Some (size1, h)
            } else Some (size1, h)
          }
        })"

subsection \<open>Representation\<close>

definition buff_mk :: "blk_elem \<Rightarrow> buff_obj" where
  "buff_mk q = BData \<lparr>bd_size = length (be_rest q), bd_pdata = be_data q\<rparr>"

definition buff_rep :: "buff_heap \<Rightarrow> ptr \<Rightarrow> buff \<Rightarrow> blk_elem list \<Rightarrow> bool" where
  "buff_rep h pb bf Q \<longleftrightarrow> cells h pb = Some (Obj (Item (BBuf bf))) \<and> blk_rep buff_mk h (bf_phead bf) Q \<and>
     (\<forall>q \<in> set Q. be_read q = [])"

text \<open>The records held, oldest first.\<close>

definition buff_records :: "blk_elem list \<Rightarrow> u8 list list" where
  "buff_records Q = rev (map be_rest Q)"

lemma buff_init_spec:
  assumes "cells h NULL = None" "pfout \<noteq> NULL"
  shows "(\<exists>h'. buff_init pfout n h = Some (NULL, h') \<and> cells h' = cells h) \<or>
    (\<exists>pb ph h'. buff_init pfout n h = Some (pb, h') \<and> pb \<noteq> NULL \<and>
       buff_rep h' pb \<lparr>bf_phead = ph, bf_max_size = n, bf_pfout = pfout\<rparr> [] \<and> same_except {pb, ph} h h')"
proof -
  let ?o = "Obj (Item (BBuf \<lparr>bf_phead = NULL, bf_max_size = 0, bf_pfout = NULL\<rparr>))"
  obtain pb h1 where m1: "malloc ?o h = (pb, h1)" by fastforce
  obtain ph h2 where m2: "dl_create h1 = (ph, h2)" by fastforce
  show ?thesis
  proof (cases "pb = NULL \<or> ph = NULL")
    case True
    have "pb \<noteq> NULL \<Longrightarrow> ph = NULL \<Longrightarrow> cells (h2\<lparr>cells := (cells h2)(pb := None)\<rparr>) = cells h \<and> cells h2 pb \<noteq> None"
      using malloc_cases[OF m1] malloc_cases[OF m2[unfolded dl_create_def]] by auto
    then show ?thesis using True assms m1 m2 malloc_cases[OF m1]
      by (auto simp: buff_init_def free_def)
  next
    case False
    then have "pb \<noteq> ph" "cells h2 = (cells h)(pb \<mapsto> ?o, ph \<mapsto> DlHead \<lparr>dh_length = 0, dh_pfirst = NULL, dh_plast = NULL\<rparr>)"
      using malloc_cases[OF m1] malloc_cases[OF m2[unfolded dl_create_def]] by (auto split: if_splits)
    then show ?thesis using False m1 m2 assms
      by (auto simp: buff_init_def buff_rep_def blk_rep_def dl_rep_def same_except_def intro!: exI[of _ ph])
  qed
qed

lemma buff_drop_last:
  assumes rep: "buff_rep h pb bf (Q @ [q])"
  shows "\<exists>h1 h2 h3. dl_rm_last (bf_phead bf) h = Some (be_item q, h1) \<and> be_item q \<noteq> NULL \<and>
    get_bdata h1 (be_item q) = Some \<lparr>bd_size = length (be_rest q), bd_pdata = be_data q\<rparr> \<and>
    bytecopy_from (length (be_rest q)) (be_data q, 0) h1 = Some (be_rest q) \<and>
    free (be_data q) h1 = Some h2 \<and> free (be_item q) h2 = Some h3 \<and> buff_rep h3 pb bf Q \<and>
    (\<forall>a \<in> {be_node q, be_item q, be_data q}. cells h3 a = None) \<and>
    same_except ({bf_phead bf, be_node q, be_item q, be_data q} \<union> be_node ` set Q) h h3"
proof -
  let ?ph = "bf_phead bf"
  have blk: "blk_rep buff_mk h ?ph (Q @ [q])" and rd: "be_read q = []" and pb: "cells h pb = Some (Obj (Item (BBuf bf)))"
    using rep by (auto simp: buff_rep_def)
  have dl: "dl_rep h ?ph (blk_nodes Q @ [(be_node q, be_item q)])" using blk by (simp add: blk_rep_def)
  obtain h1 where h1: "dl_rm_last ?ph h = Some (be_item q, h1)" "dl_rep h1 ?ph (blk_nodes Q)"
    "cells h1 (be_node q) = None" "same_except ({?ph, be_node q} \<union> nodes (blk_nodes Q)) h h1"
    using dl_rm_last_spec[OF dl] by blast
  obtain h2 h3 where h3: "free (be_data q) h1 = Some h2" "free (be_item q) h2 = Some h3" "blk_rep buff_mk h3 ?ph Q"
    "cells h1 (be_item q) = cells h (be_item q)" "cells h3 (be_data q) = None" "cells h3 (be_item q) = None"
    "same_except ({?ph, be_node q, be_item q, be_data q} \<union> be_node ` set Q) h h3"
    using blk_drop_elem[of buff_mk h ?ph Q q "[]" h1] blk h1 by (auto simp: image_image)
  have ok: "elem_ok buff_mk (cells h) q" using blk by (simp add: blk_rep_def)
  have d: "cells h1 (be_data q) = cells h (be_data q)"
    using h1(4) blk_ptr_obj(3,4)[OF blk, of "be_data q"] by (auto simp: same_except_def image_image)
  have bd: "get_bdata h1 (be_item q) = Some \<lparr>bd_size = length (be_rest q), bd_pdata = be_data q\<rparr>"
    using ok h3(4) by (intro get_bdata_iff) (simp add: elem_ok_def buff_mk_def)
  have by1: "bytecopy_from (length (be_rest q)) (be_data q, 0) h1 = Some (be_rest q)"
    using bytecopy_from_block[of h1 "be_data q" "[]" "be_rest q"] ok d rd by (simp add: elem_ok_def)
  have "cells h3 (be_node q) = None" using h3(1,2) h1(3) by (auto simp: free_def split: if_splits)
  moreover have "pb \<notin> {?ph, be_node q, be_item q, be_data q} \<union> be_node ` set Q"
    using dl.obj_not_node[OF dl pb] ok pb by (auto simp: elem_ok_def buff_mk_def image_image)
  then have "cells h3 pb = Some (Obj (Item (BBuf bf)))" using h3(7) pb by (simp add: same_except_def)
  ultimately show ?thesis using h1(1) bd by1 h3 rep blk_ptr_obj(2)[OF blk, of "be_item q"]
    by (auto simp: buff_rep_def)
qed

subsection \<open>Adding a record\<close>

lemma buff_rep_agree:
  assumes rep: "buff_rep h pb bf Q" and S: "same_except S h h'" "\<And>a. a \<in> S \<Longrightarrow> cells h a = None" "NULL \<notin> S"
  shows "buff_rep h' pb bf Q"
proof -
  have blk: "blk_rep buff_mk h (bf_phead bf) Q" and pb: "cells h pb = Some (Obj (Item (BBuf bf)))"
    using rep by (auto simp: buff_rep_def)
  have "a \<notin> {NULL, bf_phead bf} \<union> be_node ` set Q \<union> set (blk_ptrs Q)" if "a \<in> S" for a
    using blk_rep_fresh[OF blk S(2)[OF that]] that S(3) by auto
  then have "blk_rep buff_mk h' (bf_phead bf) Q" by (intro blk_rep_agree[OF blk S(1)]) blast
  moreover have "pb \<notin> S" using S(2) pb by auto
  ultimately show ?thesis using rep S(1) by (simp add: buff_rep_def same_except_def)
qed

lemma buff_records_keep:
  "buff_records (if n \<noteq> 0 \<and> n < length (q # Q) then butlast (q # Q) else q # Q) =
   keep_last n (buff_records Q @ [be_rest q])" if "n = 0 \<or> length Q \<le> n"
proof -
  have "length Q = n \<Longrightarrow> n \<noteq> 0 \<Longrightarrow> rev (map be_rest (butlast Q)) = drop (Suc 0) (rev (map be_rest Q))"
    by (cases Q rule: rev_cases) auto
  then show ?thesis using that by (cases "length Q = n") (auto simp: buff_records_def keep_last_def)
qed

lemma buff_add_spec:
  assumes rep: "buff_rep h pb bf Q" and n: "0 < n" "n \<le> length d"
  shows "(\<exists>h'. buff_add pb (Some d) n h = Some (0, h') \<and> cells h' = cells h) \<or>
    (\<exists>h' q. buff_add pb (Some d) n h = Some (n, h') \<and> be_rest q = take n d \<and>
       buff_rep h' pb bf (if bf_max_size bf \<noteq> 0 \<and> bf_max_size bf < length (q # Q) then butlast (q # Q) else q # Q))"
proof -
  let ?ph = "bf_phead bf"
  obtain p h1 where m: "malloc (Obj (Bytes []) :: buff_obj bobj cell) h = (p, h1)" by fastforce
  have blk: "blk_rep buff_mk h ?ph Q" and pb: "cells h pb = Some (Obj (Item (BBuf bf)))"
    using rep by (auto simp: buff_rep_def)
  have pb0: "pb \<noteq> NULL" using dl.obj_not_node(3)[OF _ pb] blk by (auto simp: blk_rep_def)
  show ?thesis
  proof (cases "p = NULL")
    case True
    then show ?thesis using m malloc_cases[OF m] n pb0 by (simp add: buff_add_def)
  next
    case p0: False
    let ?x = "Item (BData \<lparr>bd_size = n, bd_pdata = p\<rparr>)"
    define h2 where "h2 = put p (Obj (Bytes (take n d))) h1"
    have p: "cells h p = None" and c2: "cells h2 = (cells h)(p \<mapsto> Obj (Bytes (take n d)))"
      using malloc_cases[OF m] p0 by (auto simp: h2_def)
    have se2: "same_except {p} h h2" using c2 by (simp add: same_except_def)
    have rep2: "buff_rep h2 pb bf Q" by (rule buff_rep_agree[OF rep se2]) (use p p0 in auto)
    then have blk2: "blk_rep buff_mk h2 ?ph Q" and dl2: "dl_rep h2 ?ph (blk_nodes Q)"
      and pb2: "cells h2 pb = Some (Obj (Item (BBuf bf)))" by (auto simp: buff_rep_def blk_rep_def)
    note bf = get_bbuf_iff[OF pb2]
    from dl_add_dup_spec[OF dl2, of ?x True] show ?thesis
    proof (elim disjE exE conjE)
      fix h3 assume a: "dl_add_dup ?ph ?x True h2 = Some (False, h3)" "cells h3 = cells h2"
      have "(cells h)(p := None) = cells h" using p by auto
      then show ?thesis using a m n p0 pb0 bf c2
        by (simp add: buff_add_def bytecopy_def h2_def[symmetric] free_def)
    next
      fix h3 m' i assume a: "dl_add_dup ?ph ?x True h2 = Some (True, h3)" "cells h2 m' = None" "cells h2 i = None"
        "i \<noteq> NULL" "cells h3 i = Some (Obj ?x)" "dl_rep h3 ?ph (if True then (m', i) # blk_nodes Q else blk_nodes Q @ [(m', i)])"
        "same_except ({?ph, m', i} \<union> nodes (blk_nodes Q)) h2 h3"
      define q where "q = \<lparr>be_node = m', be_item = i, be_data = p, be_read = [], be_rest = take n d\<rparr>"
      have keep: "cells h3 x = cells h2 x" if "cells h2 x = Some (Obj v)" for x v
      proof -
        have "x \<notin> {?ph, m', i} \<union> nodes (blk_nodes Q)"
          using dl.obj_not_node[OF dl2 that] a(2,3) that by (intro notI) (elim UnE insertE, simp_all)
        then show ?thesis using a(7) by (simp add: same_except_def)
      qed
      have p3: "cells h3 p = Some (Obj (Bytes (take n d)))" "i \<noteq> p"
        using keep[of p] c2 a(3) by auto
      have "blk_rep buff_mk h3 ?ph ([] @ q # Q)"
      proof (rule blk_rep_extend[of buff_mk h2])
        show "blk_rep buff_mk h2 ?ph ([] @ Q)" using blk2 by simp
        show "dl_rep h3 ?ph (blk_nodes ([] @ q # Q))" using a(6) by (simp add: q_def)
        show "elem_ok buff_mk (cells h3) q" using a(5) p3 n by (auto simp: elem_ok_def buff_mk_def q_def)
        show "be_item q \<notin> set (blk_ptrs ([] @ Q))" using blk_rep_fresh[OF blk2 a(3)] by (simp add: q_def)
        show "be_data q \<notin> set (blk_ptrs ([] @ Q))" using blk_rep_fresh[OF blk p] by (simp add: q_def)
        show "be_item q \<noteq> be_data q" using p3 by (simp add: q_def)
        fix x assume "x \<in> set (blk_ptrs ([] @ Q))"
        then obtain v where "cells h2 x = Some (Obj v)" using blk_ptr_obj(1)[OF blk2, of x] by auto
        then show "cells h3 x = cells h2 x" by (rule keep)
      qed
      then have rep3: "buff_rep h3 pb bf (q # Q)" using keep[OF pb2] pb2 rep by (simp add: buff_rep_def q_def)
      have len: "dl_length ?ph h3 = Some (int (length (q # Q)))"
        using dl_length_spec[of h3 ?ph "blk_nodes (q # Q)"] rep3 by (simp add: buff_rep_def blk_rep_def)
      show ?thesis
      proof (cases "bf_max_size bf \<noteq> 0 \<and> bf_max_size bf < length (q # Q)")
        case False
        have "buff_add pb (Some d) n h = Some (n, h3)" using False a(1) m n p0 pb0 bf len
          by (auto simp: buff_add_def bytecopy_def h2_def[symmetric] nat_add_distrib)
        moreover have "(if bf_max_size bf \<noteq> 0 \<and> bf_max_size bf < length (q # Q) then butlast (q # Q) else q # Q) = q # Q"
          using False by presburger
        ultimately show ?thesis using rep3 by (intro disjI2 exI[of _ h3] exI[of _ q]) (simp add: q_def)
      next
        case True
        obtain K k where K: "q # Q = K @ [k]" using nonempty_snoc[of "q # Q"] by blast
        obtain h4 h5 h6 where D: "dl_rm_last ?ph h3 = Some (be_item k, h4)" "be_item k \<noteq> NULL"
          "get_bdata h4 (be_item k) = Some \<lparr>bd_size = length (be_rest k), bd_pdata = be_data k\<rparr>"
          "free (be_data k) h4 = Some h5" "free (be_item k) h5 = Some h6" "buff_rep h6 pb bf K"
          using buff_drop_last[of h3 pb bf K k] rep3 K by auto
        have "buff_add pb (Some d) n h = Some (n, h6)" using a(1) m n p0 pb0 bf len True D
          by (simp add: buff_add_def bytecopy_def h2_def[symmetric] nat_add_distrib)
        moreover have "butlast (q # Q) = K" using K by simp
        ultimately show ?thesis using True D(6) by (intro disjI2 exI[of _ h6] exI[of _ q]) (simp add: q_def)
      qed
    qed
  qed
qed

subsection \<open>Writing the records out\<close>

lemma buff_flush_loop_spec:
  assumes "buff_rep h pb bf Q" "\<And>i. wr_calls f \<le> i \<Longrightarrow> i < wr_calls f + length Q \<Longrightarrow> wr_ok f i"
  shows "\<exists>h'. buff_flush_loop (bf_phead bf) k f h =
      Some (k + length Q, f\<lparr>wr_calls := wr_calls f + length Q, written := written f @ buff_records Q\<rparr>, h') \<and>
    buff_rep h' pb bf [] \<and> (\<forall>a \<in> be_node ` set Q \<union> set (blk_ptrs Q). cells h' a = None) \<and>
    same_except ({bf_phead bf} \<union> be_node ` set Q \<union> set (blk_ptrs Q)) h h'"
  using assms
proof (induction Q arbitrary: h f k rule: rev_induct)
  case Nil
  then show ?case
    by (subst buff_flush_loop.simps) (simp add: buff_rep_def blk_rep_def dl_rm_last_empty buff_records_def)
next
  case (snoc q Q)
  obtain h1 h2 h3 where D: "dl_rm_last (bf_phead bf) h = Some (be_item q, h1)" "be_item q \<noteq> NULL"
    "get_bdata h1 (be_item q) = Some \<lparr>bd_size = length (be_rest q), bd_pdata = be_data q\<rparr>"
    "bytecopy_from (length (be_rest q)) (be_data q, 0) h1 = Some (be_rest q)"
    "free (be_data q) h1 = Some h2" "free (be_item q) h2 = Some h3" "buff_rep h3 pb bf Q"
    "\<forall>a \<in> {be_node q, be_item q, be_data q}. cells h3 a = None"
    "same_except ({bf_phead bf, be_node q, be_item q, be_data q} \<union> be_node ` set Q) h h3"
    using buff_drop_last[OF snoc.prems(1)] by blast
  have ok: "wr_ok f (wr_calls f)" using snoc.prems(2) by simp
  let ?f = "f\<lparr>wr_calls := wr_calls f + 1, written := written f @ [be_rest q]\<rparr>"
  have "\<And>i. wr_calls ?f \<le> i \<Longrightarrow> i < wr_calls ?f + length Q \<Longrightarrow> wr_ok ?f i" using snoc.prems(2) by simp
  from snoc.IH[OF D(7) this, of "k + 1"] obtain h' where IH: "buff_flush_loop (bf_phead bf) (k + 1) ?f h3 =
      Some (k + 1 + length Q, ?f\<lparr>wr_calls := wr_calls ?f + length Q, written := written ?f @ buff_records Q\<rparr>, h')"
    "buff_rep h' pb bf []" "\<forall>a \<in> be_node ` set Q \<union> set (blk_ptrs Q). cells h' a = None"
    "same_except ({bf_phead bf} \<union> be_node ` set Q \<union> set (blk_ptrs Q)) h3 h'" by blast
  have step: "buff_flush_loop (bf_phead bf) k f h = buff_flush_loop (bf_phead bf) (k + 1) ?f h3"
    using D ok by (subst buff_flush_loop.simps) (simp add: fwrite_def)
  have blk: "blk_rep buff_mk h (bf_phead bf) (Q @ [q])" using snoc.prems(1) by (simp add: buff_rep_def)
  have ne: "bf_phead bf \<notin> {be_node q, be_item q, be_data q}"
    using blk_ptr_obj(3)[OF blk, of "be_item q"] blk_ptr_obj(3)[OF blk, of "be_data q"]
      dl_repE(6)[of h "bf_phead bf" "blk_nodes (Q @ [q])"] blk by (auto simp: blk_rep_def)
  have "cells h' a = None" if "a \<in> {be_node q, be_item q, be_data q}" for a
    using IH(3,4) D(8) that ne
    by (cases "a \<in> be_node ` set Q \<union> set (blk_ptrs Q)") (auto simp: same_except_def)
  moreover have "same_except ({bf_phead bf} \<union> be_node ` set (Q @ [q]) \<union> set (blk_ptrs (Q @ [q]))) h h'"
    by (rule same_except_trans[OF D(9) IH(4)]) auto
  ultimately show ?case using step IH(1-3) by (auto simp: buff_records_def)
qed

lemma buff_done_spec:
  assumes rep: "buff_rep h pb bf Q" and w: "\<And>i. wr_calls f \<le> i \<Longrightarrow> i < wr_calls f + length Q \<Longrightarrow> wr_ok f i"
  shows "\<exists>h'. buff_done pb f h =
      Some (True, f\<lparr>wr_calls := wr_calls f + length Q, written := written f @ buff_records Q\<rparr>, h') \<and>
    (\<forall>a \<in> {pb, bf_phead bf} \<union> be_node ` set Q \<union> set (blk_ptrs Q). cells h' a = None)"
proof -
  let ?ph = "bf_phead bf" and ?f = "f\<lparr>wr_calls := wr_calls f + length Q, written := written f @ buff_records Q\<rparr>"
  have dl: "dl_rep h ?ph (blk_nodes Q)" and pb: "cells h pb = Some (Obj (Item (BBuf bf)))"
    using rep by (auto simp: buff_rep_def blk_rep_def)
  obtain h1 where F: "buff_flush_loop ?ph 0 f h = Some (length Q, ?f, h1)" "buff_rep h1 pb bf []"
    "\<forall>a \<in> be_node ` set Q \<union> set (blk_ptrs Q). cells h1 a = None"
    using buff_flush_loop_spec[OF rep w, of 0] by auto
  have flush: "buff_flush pb f h = Some (length Q, ?f, h1)"
    using F(1) get_bbuf_iff[OF pb] by (simp add: buff_flush_def)
  have Nil: "Q = [] \<Longrightarrow> h1 = h \<and> ?f = f"
    using F(1) by (subst (asm) buff_flush_loop.simps) (use dl in \<open>simp add: dl_rm_last_empty buff_records_def\<close>)
  have dl1: "dl_rep h1 ?ph []" and pb1: "cells h1 pb = Some (Obj (Item (BBuf bf)))"
    using F(2) by (auto simp: buff_rep_def blk_rep_def)
  obtain h2 where h2: "dl_free ?ph h1 = Some h2" "cells h2 ?ph = None" "same_except {?ph} h1 h2"
    using dl_free_spec[OF dl1] by (auto simp: own_items_def)
  have pbn: "pb \<noteq> NULL" "pb \<noteq> ?ph" "?ph \<noteq> NULL"
    using dl.obj_not_node[OF dl1 pb1] dl_repE(2)[OF dl1] by auto
  have len: "dl_length ?ph h = Some (int (length Q))" using dl_length_spec[OF dl] by simp
  have pb2: "cells h2 pb \<noteq> None" using h2(3) pbn pb1 by (simp add: same_except_def)
  then have "buff_done pb f h = Some (True, ?f, h2\<lparr>cells := (cells h2)(pb := None)\<rparr>)"
    using pbn get_bbuf_iff[OF pb] len flush Nil h2(1) by (cases "Q = []") (auto simp: buff_done_def free_def)
  moreover have "cells h2 a = None" if "a \<in> be_node ` set Q \<union> set (blk_ptrs Q)" for a
    using F(3) that h2(2,3) by (cases "a = ?ph") (auto simp: same_except_def)
  ultimately show ?thesis using h2(2) by auto
qed

subsection \<open>A buffer from \<open>buff_init\<close> to \<open>buff_done\<close>\<close>

text \<open>Adding records one after the other: the records that were accepted.\<close>

fun buff_add_all :: "ptr \<Rightarrow> u8 list list \<Rightarrow> buff_heap \<Rightarrow> (u8 list list \<times> buff_heap) option" where
  "buff_add_all pb [] h = Some ([], h)"
| "buff_add_all pb (d # ds) h = do {
     (n, h) \<leftarrow> buff_add pb (Some d) (length d) h;
     (acc, h) \<leftarrow> buff_add_all pb ds h;
     Some ((if n \<noteq> 0 then [d] else []) @ acc, h)
   }"

lemma buff_add_all_spec:
  assumes "buff_rep h pb bf Q" "bf_max_size bf = 0 \<or> length Q \<le> bf_max_size bf" "[] \<notin> set ds"
  shows "\<exists>acc h' Q'. buff_add_all pb ds h = Some (acc, h') \<and> buff_rep h' pb bf Q' \<and>
    buff_records Q' = keep_last (bf_max_size bf) (buff_records Q @ acc)"
  using assms
proof (induction ds arbitrary: h Q)
  case Nil
  have "keep_last (bf_max_size bf) (buff_records Q) = buff_records Q"
    using Nil.prems(2) by (auto simp: keep_last_def buff_records_def)
  then show ?case using Nil.prems(1) by auto
next
  case (Cons d ds)
  let ?n = "bf_max_size bf"
  have d: "0 < length d" "length d \<le> length d" "[] \<notin> set ds" using Cons.prems(3) by auto
  from buff_add_spec[OF Cons.prems(1) d(1,2)] show ?case
  proof (elim disjE exE conjE)
    fix h1 assume a: "buff_add pb (Some d) (length d) h = Some (0, h1)" "cells h1 = cells h"
    have "buff_rep h1 pb bf Q" by (rule buff_rep_agree[OF Cons.prems(1), of "{}"]) (use a in auto)
    from Cons.IH[OF this Cons.prems(2) d(3)] show ?thesis using a(1) by fastforce
  next
    fix h1 q assume a: "buff_add pb (Some d) (length d) h = Some (length d, h1)" "be_rest q = take (length d) d"
      "buff_rep h1 pb bf (if ?n \<noteq> 0 \<and> ?n < length (q # Q) then butlast (q # Q) else q # Q)"
    let ?Q = "if ?n \<noteq> 0 \<and> ?n < length (q # Q) then butlast (q # Q) else q # Q"
    have "?n = 0 \<or> length ?Q \<le> ?n" using Cons.prems(2) by auto
    from Cons.IH[OF a(3) this d(3)] obtain acc h' Q' where "buff_add_all pb ds h1 = Some (acc, h')"
      "buff_rep h' pb bf Q'" "buff_records Q' = keep_last ?n (buff_records ?Q @ acc)" by blast
    moreover have "buff_records ?Q = keep_last ?n (buff_records Q @ [d])"
      using buff_records_keep[OF Cons.prems(2), of q] a(2) by simp
    ultimately show ?thesis using a(1) d(1) by auto
  qed
qed

lemma buff_lifetime:
  assumes rep: "buff_rep h pb bf []" and ds: "[] \<notin> set ds" and w: "\<And>i. wr_ok f i"
  shows "\<exists>acc h1 f' h2. buff_add_all pb ds h = Some (acc, h1) \<and> buff_done pb f h1 = Some (True, f', h2) \<and>
    written f' = written f @ keep_last (bf_max_size bf) acc \<and> cells h2 pb = None"
proof -
  obtain acc h1 Q where A: "buff_add_all pb ds h = Some (acc, h1)" "buff_rep h1 pb bf Q"
    "buff_records Q = keep_last (bf_max_size bf) acc"
    using buff_add_all_spec[OF rep _ ds] by (auto simp: buff_records_def)
  show ?thesis using buff_done_spec[OF A(2), of f] w A by auto
qed

end
