(* ===== verification/CanQueue.thy ===== *)
theory CanQueue
  imports Prelude
begin

text \<open>
  The circular buffers of path/local/sys_buff.c (\<open>init_circular_buffer\<close>, \<open>get_circular_index\<close>) and
  the message queue the CAN driver builds on them (can/drv_common/can_if.c, \<open>can_cq_*\<close>), with the
  contract of a bounded queue.  A read or write outside the data array is a fault (\<open>None\<close>).
\<close>

record 'm cbuff = data_array :: "'m list"
  data_size :: int
  data_count :: int
  data_start :: int

text \<open>\<open>malloc\<close> returns \<open>max_data\<close> uninitialised items (\<open>junk\<close>); \<open>NULL\<close> is an array without items.\<close>

definition init_circular_buffer :: "int \<Rightarrow> 'm list \<Rightarrow> 'm cbuff" where
  "init_circular_buffer max_data junk = \<lparr>data_array = (if max_data > 0 then junk else []),
     data_size = max_data, data_count = 0, data_start = 0\<rparr>"

definition get_circular_index :: "'m cbuff \<Rightarrow> int \<times> 'm cbuff" where
  "get_circular_index b =
     (if data_size b = data_count b then
        (let index = data_start b; st = data_start b + 1 in
         (index, b\<lparr>data_start := if st = data_size b then 0 else st\<rparr>))
      else
        (let index = data_start b + data_count b in
         (if index \<ge> data_size b then index - data_size b else index, b\<lparr>data_count := data_count b + 1\<rparr>)))"

definition array_get :: "'m list \<Rightarrow> int \<Rightarrow> 'm option" where
  "array_get xs i = (if 0 \<le> i \<and> i < int (length xs) then Some (xs ! nat i) else None)"

definition array_set :: "'m list \<Rightarrow> int \<Rightarrow> 'm \<Rightarrow> 'm list option" where
  "array_set xs i x = (if 0 \<le> i \<and> i < int (length xs) then Some (xs[nat i := x]) else None)"

definition can_cq_add :: "'m cbuff \<Rightarrow> 'm \<Rightarrow> 'm cbuff option" where
  "can_cq_add b new_msg = (let (index, b) = get_circular_index b in
     map_option (\<lambda>a. b\<lparr>data_array := a\<rparr>) (array_set (data_array b) index new_msg))"

definition can_cq_read_first :: "'m cbuff \<Rightarrow> 'm option" where
  "can_cq_read_first b = array_get (data_array b) (data_start b)"

text \<open>The popped message is read through the returned pointer at once by every caller.\<close>

definition can_cq_pop_first :: "'m cbuff \<Rightarrow> ('m option \<times> 'm cbuff) option" where
  "can_cq_pop_first b =
     (if data_count b > 0 then do {
        m \<leftarrow> array_get (data_array b) (data_start b);
        let st = data_start b + 1;
        Some (Some m, b\<lparr>data_count := data_count b - 1, data_start := if st = data_size b then 0 else st\<rparr>)
      } else Some (None, b))"

subsection \<open>The contract of a bounded queue\<close>

datatype 'm queue_op = QAdd 'm | QPop

fun queue_do :: "('q \<Rightarrow> 'm \<Rightarrow> 'q option) \<Rightarrow> ('q \<Rightarrow> ('m option \<times> 'q) option) \<Rightarrow> 'm queue_op list \<Rightarrow> 'q \<Rightarrow>
    ('m option list \<times> 'q) option" where
  "queue_do add pop [] q = Some ([], q)"
| "queue_do add pop (QAdd m # ops) q = do { q \<leftarrow> add q m; queue_do add pop ops q }"
| "queue_do add pop (QPop # ops) q = do {
     (r, q) \<leftarrow> pop q;
     (rs, q) \<leftarrow> queue_do add pop ops q;
     Some (r # rs, q)
   }"

text \<open>The abstract queue of capacity \<open>n\<close>: an addition to a full queue drops the oldest message.\<close>

fun queue_abs :: "nat \<Rightarrow> 'm queue_op list \<Rightarrow> 'm list \<Rightarrow> 'm option list \<times> 'm list" where
  "queue_abs n [] xs = ([], xs)"
| "queue_abs n (QAdd m # ops) xs = queue_abs n ops (keep_last n (xs @ [m]))"
| "queue_abs n (QPop # ops) xs = (case xs of
      [] \<Rightarrow> map_prod (Cons None) id (queue_abs n ops [])
    | x # xs \<Rightarrow> map_prod (Cons (Some x)) id (queue_abs n ops xs))"

text \<open>\<open>while (pop(q) != NULL) j++;\<close>\<close>

partial_function (option) queue_drain :: "('q \<Rightarrow> ('m option \<times> 'q) option) \<Rightarrow> int \<Rightarrow> 'q \<Rightarrow> (int \<times> 'q) option" where
  "queue_drain pop j q = do {
     (r, q) \<leftarrow> pop q;
     if r = None then Some (j, q) else queue_drain pop (j + 1) q
   }"

locale bounded_queue =
  fixes rep :: "'q \<Rightarrow> 'm list \<Rightarrow> bool" and cap :: nat
    and add :: "'q \<Rightarrow> 'm \<Rightarrow> 'q option" and pop :: "'q \<Rightarrow> ('m option \<times> 'q) option"
  assumes add_law: "rep q xs \<Longrightarrow> \<exists>q'. add q m = Some q' \<and> rep q' (keep_last cap (xs @ [m]))"
    and pop_empty: "rep q [] \<Longrightarrow> \<exists>q'. pop q = Some (None, q') \<and> rep q' []"
    and pop_law: "rep q (x # xs) \<Longrightarrow> \<exists>q'. pop q = Some (Some x, q') \<and> rep q' xs"
begin

lemma queue_do_refines:
  "rep q xs \<Longrightarrow> \<exists>q'. queue_do add pop ops q = Some (fst (queue_abs cap ops xs), q') \<and>
     rep q' (snd (queue_abs cap ops xs))"
proof (induction ops arbitrary: q xs)
  case Nil
  then show ?case by simp
next
  case (Cons op ops)
  show ?case
  proof (cases op)
    case (QAdd m)
    then show ?thesis using add_law[OF Cons.prems, of m] Cons.IH by fastforce
  next
    case QPop
    show ?thesis
    proof (cases xs)
      case Nil
      then obtain q' where "pop q = Some (None, q')" "rep q' []" using pop_empty Cons.prems by blast
      then show ?thesis using Cons.IH[of q' "[]"] QPop Nil by auto
    next
      case (Cons x ys)
      then obtain q' where "pop q = Some (Some x, q')" "rep q' ys" using pop_law Cons.prems by blast
      then show ?thesis using Cons.IH[of q' ys] QPop Cons by auto
    qed
  qed
qed

lemma drain_law: "rep q xs \<Longrightarrow> \<exists>q'. queue_drain pop j q = Some (j + int (length xs), q') \<and> rep q' []"
proof (induction xs arbitrary: q j)
  case Nil
  then show ?case using pop_empty[of q] by (subst queue_drain.simps) auto
next
  case (Cons x xs)
  then obtain q' where "pop q = Some (Some x, q')" "rep q' xs" using pop_law by blast
  then show ?case using Cons.IH[of q' "j + 1"] by (subst queue_drain.simps) (auto simp: algebra_simps)
qed

end

subsection \<open>The circular buffer provides it\<close>

definition cq_rep :: "nat \<Rightarrow> 'm cbuff \<Rightarrow> 'm list \<Rightarrow> bool" where
  "cq_rep n b xs \<longleftrightarrow> 0 < n \<and> data_size b = int n \<and> length (data_array b) = n \<and>
     data_count b = int (length xs) \<and> length xs \<le> n \<and> 0 \<le> data_start b \<and> data_start b < int n \<and>
     (\<forall>i < length xs. data_array b ! ((nat (data_start b) + i) mod n) = xs ! i)"

lemma cq_rep_init:
  "0 < n \<Longrightarrow> length junk = n \<Longrightarrow> cq_rep n (init_circular_buffer (int n) junk) []"
  by (simp add: cq_rep_def init_circular_buffer_def)

lemma mod_shift_inj: "(s + i) mod n = (s + j) mod n \<Longrightarrow> i < n \<Longrightarrow> j < n \<Longrightarrow> i = (j::nat)"
  by (induction s) (auto simp: mod_Suc split: if_splits)

lemma can_cq_add_spec:
  assumes rep: "cq_rep n b xs" shows "\<exists>b'. can_cq_add b m = Some b' \<and> cq_rep n b' (keep_last n (xs @ [m]))"
proof -
  obtain s where s: "data_start b = int s" "s < n" using rep nonneg_int_cases[of "data_start b"] by (auto simp: cq_rep_def)
  have R: "0 < n" "data_size b = int n" "length (data_array b) = n" "data_count b = int (length xs)" "length xs \<le> n"
    and elems: "\<And>i. i < length xs \<Longrightarrow> data_array b ! ((s + i) mod n) = xs ! i"
    using rep s by (auto simp: cq_rep_def)
  show ?thesis
  proof (cases "length xs = n")
    case True
    let ?s = "(s + 1) mod n"
    have st: "int ?s = (if int s + 1 = int n then 0 else int s + 1)" using s by (auto simp: mod_Suc)
    define b' where "b' = b\<lparr>data_start := int ?s, data_array := (data_array b)[s := m]\<rparr>"
    have add: "can_cq_add b m = Some b'"
      using R True s st by (simp add: can_cq_add_def get_circular_index_def array_set_def b'_def Let_def)
    have keep: "keep_last n (xs @ [m]) = tl xs @ [m]" using True R(1) by (cases xs) (auto simp: keep_last_def)
    have "(data_array b)[s := m] ! ((?s + i) mod n) = (tl xs @ [m]) ! i" if i: "i < n" for i
    proof -
      have idx: "(?s + i) mod n = (s + Suc i) mod n" by (simp add: mod_add_left_eq)
      show ?thesis
      proof (cases "Suc i = n")
        case eq: True
        then have "(s + Suc i) mod n = s" using s by simp
        moreover have "(tl xs @ [m]) ! i = m" using eq True by (auto simp: nth_append)
        ultimately show ?thesis using idx R s by simp
      next
        case False
        then have "(s + Suc i) mod n \<noteq> s" using mod_shift_inj[of s "Suc i" n 0] i s by auto
        moreover have "Suc i < n" "i < n - Suc 0" using False i by simp_all
        ultimately show ?thesis using idx elems[of "Suc i"] True by (simp add: nth_append nth_tl)
      qed
    qed
    then have "cq_rep n b' (tl xs @ [m])" using R True s(2) by (simp add: cq_rep_def b'_def)
    then show ?thesis using add keep by simp
  next
    case False
    then have lt: "length xs < n" using R by simp
    let ?e = "(s + length xs) mod n"
    have e: "int ?e = (if int s + int (length xs) \<ge> int n then int s + int (length xs) - int n else int s + int (length xs))"
      using s lt by (auto simp: mod_if le_mod_geq of_nat_diff)
    define b' where "b' = b\<lparr>data_count := int (length xs) + 1, data_array := (data_array b)[?e := m]\<rparr>"
    have "get_circular_index b = (int ?e, b\<lparr>data_count := int (length xs) + 1\<rparr>)"
      using R False s by (simp add: get_circular_index_def e)
    then have add: "can_cq_add b m = Some b'"
      using R(1,3) by (simp add: can_cq_add_def array_set_def b'_def)
    have keep: "keep_last n (xs @ [m]) = xs @ [m]" using lt by (simp add: keep_last_def)
    have "(data_array b)[?e := m] ! ((s + i) mod n) = (xs @ [m]) ! i" if "i < Suc (length xs)" for i
    proof (cases "i = length xs")
      case True
      then show ?thesis using R by simp
    next
      case False
      then have "(s + i) mod n \<noteq> ?e" using mod_shift_inj[of s i n "length xs"] that lt by auto
      then show ?thesis using elems[of i] False that by (simp add: nth_append)
    qed
    then have "cq_rep n b' (xs @ [m])" using R lt s by (simp add: cq_rep_def b'_def)
    then show ?thesis using add keep by simp
  qed
qed

lemma can_cq_pop_empty: "cq_rep n b [] \<Longrightarrow> \<exists>b'. can_cq_pop_first b = Some (None, b') \<and> cq_rep n b' []"
  by (simp add: can_cq_pop_first_def cq_rep_def)

lemma can_cq_pop_spec:
  assumes rep: "cq_rep n b (x # xs)" shows "\<exists>b'. can_cq_pop_first b = Some (Some x, b') \<and> cq_rep n b' xs"
proof -
  obtain s where s: "data_start b = int s" "s < n" using rep nonneg_int_cases[of "data_start b"] by (auto simp: cq_rep_def)
  have R: "0 < n" "data_size b = int n" "length (data_array b) = n" "data_count b = int (length xs) + 1" "length xs < n"
    and elems: "\<And>i. i < Suc (length xs) \<Longrightarrow> data_array b ! ((s + i) mod n) = (x # xs) ! i"
    using rep s by (auto simp: cq_rep_def)
  let ?s = "(s + 1) mod n"
  have st: "int ?s = (if int s + 1 = int n then 0 else int s + 1)" using s by (auto simp: mod_Suc)
  define b' where "b' = b\<lparr>data_count := int (length xs), data_start := int ?s\<rparr>"
  have "can_cq_pop_first b = Some (Some x, b')"
    using R s st elems[of 0] by (simp add: can_cq_pop_first_def array_get_def b'_def Let_def)
  moreover have "data_array b ! ((?s + i) mod n) = xs ! i" if "i < length xs" for i
    using elems[of "Suc i"] that by (simp add: mod_add_left_eq)
  then have "cq_rep n b' xs" using R by (simp add: cq_rep_def b'_def)
  ultimately show ?thesis by blast
qed

lemma can_cq_read_first_spec: "cq_rep n b (x # xs) \<Longrightarrow> can_cq_read_first b = Some x"
  by (auto simp: can_cq_read_first_def array_get_def cq_rep_def)

lemma cq_rep_count: "cq_rep n b xs \<Longrightarrow> data_count b = int (length xs)"
  by (simp add: cq_rep_def)

interpretation cq: bounded_queue "cq_rep n" n can_cq_add can_cq_pop_first for n
  by unfold_locales (fact can_cq_add_spec can_cq_pop_empty can_cq_pop_spec)+

end
