(* ===== verification/CanIf.thy ===== *)
theory CanIf
  imports CanQueue
begin

unbundle bit_operations_syntax

text \<open>
  The CAN driver above the chip (can/include/can_defs.h, can/drv_common): messages, the receive
  and transmit queues with their filter and flush policy, the requests of a client (\<open>io_devctl\<close>) and
  the interrupt handler that wakes it.  The chip is a state of type \<open>'c\<close>; \<open>send\<close>, the
  chip-dependent body of \<open>can_send\<close>, is an argument here and defined in Sja1000.thy and I82527.thy.
  \<open>'e\<close> is the event (\<open>struct sigevent\<close>) a client asks for.  \<open>char data[8]\<close> is a list of 8 bytes.
\<close>

record can_msg = cm_id :: u32
  cm_size :: u8
  cm_data :: "u8 list"
  cm_error :: int

definition IS_EXTENDED_FRAME :: "can_msg \<Rightarrow> bool" where
  "IS_EXTENDED_FRAME m \<longleftrightarrow> cm_id m AND 0x80000000 \<noteq> 0"

definition SET_EXTENDED_FRAME :: "can_msg \<Rightarrow> can_msg" where
  "SET_EXTENDED_FRAME m = m\<lparr>cm_id := cm_id m OR 0x80000000\<rparr>"

definition CAN_ID :: "can_msg \<Rightarrow> u32" where
  "CAN_ID m = cm_id m AND NOT 0x80000000"

record can_filter = cf_id :: u32
  cf_mask :: u32

record can_info = ci_port :: int
  ci_irq :: int
  ci_use_extended_frame :: int
  ci_bit_speed :: int
  ci_intr_id :: int
  ci_filter :: can_filter

record can_err_count = shadow_buffer_count :: u32
  intr_in_handler_count :: u32
  rx_interrupt_count :: u32
  rx_message_lost_count :: u32
  tx_interrupt_count :: u32

text \<open>
  The attribute structure of the device with the driver's global variables.  The client to notify
  is the ocb armed last; its \<open>rcvid\<close> and event are only written when it is armed, so
  \<open>notify_pocb\<close> holds them directly.
\<close>

record ('c, 'e) can_attr = ca_info :: can_info
  in_buff :: "can_msg cbuff"
  out_buff :: "can_msg cbuff"
  notify_pocb :: "(int \<times> 'e) option"
  last_time_can_sent :: int
  can_timeout_count :: int
  tx_buffer_flush :: int
  can_notify_client_err :: int
  mask_count_non_zero :: int
  err_count :: can_err_count
  chip :: 'c

abbreviation (input) EOK :: int where "EOK \<equiv> 0"
abbreviation (input) CAN_IN_BUFFER_SIZE :: nat where "CAN_IN_BUFFER_SIZE \<equiv> 150"
abbreviation (input) CAN_OUT_BUFFER_SIZE :: nat where "CAN_OUT_BUFFER_SIZE \<equiv> 150"

definition can_new_msg :: "can_msg \<Rightarrow> ('c, 'e) can_attr \<Rightarrow> ('c, 'e) can_attr option" where
  "can_new_msg pmsg a = (let id = cf_id (ci_filter (ca_info a)); mask = cf_mask (ci_filter (ca_info a)) in
     if id AND mask = cm_id pmsg AND mask then
       map_option (\<lambda>q. a\<lparr>in_buff := q\<rparr>) (can_cq_add (in_buff a) pmsg)
     else Some a)"

definition can_dev_read :: "('c, 'e) can_attr \<Rightarrow> (can_msg \<times> ('c, 'e) can_attr) option" where
  "can_dev_read a = do {
     (pmsg, q) \<leftarrow> can_cq_pop_first (in_buff a);
     let msg = (case pmsg of
        None \<Rightarrow> \<lparr>cm_id = 0, cm_size = 0, cm_data = replicate 8 0, cm_error = 1\<rparr>
      | Some m \<Rightarrow> m\<lparr>cm_error := 0\<rparr>);
     Some (msg, a\<lparr>in_buff := q\<rparr>)
   }"

text \<open>\<open>can_send\<close>: the chip-dependent transmission of the first queued message, and the time stamp.\<close>

definition can_send :: "(can_msg \<Rightarrow> 'c \<Rightarrow> 'c option) \<Rightarrow> int \<Rightarrow> ('c, 'e) can_attr \<Rightarrow> ('c, 'e) can_attr option" where
  "can_send send now a = do {
     tx \<leftarrow> can_cq_read_first (out_buff a);
     c \<leftarrow> send tx (chip a);
     Some (a\<lparr>chip := c, last_time_can_sent := now\<rparr>)
   }"

text \<open>The loop of \<open>can_dev_flush_q\<close>: pop while more than one message is left.\<close>

function flush_loop :: "int \<Rightarrow> can_msg cbuff \<Rightarrow> (int \<times> can_msg cbuff) option" where
  "flush_loop j q = (if data_count q > 1 then do {
       (dummy, q') \<leftarrow> can_cq_pop_first q;
       if data_count q' < data_count q then flush_loop (j + 1) q' else None
     } else Some (j, q))"
  by pat_completeness auto
termination by (relation "measure (\<lambda>(j, q). nat (data_count q))") auto

declare flush_loop.simps [simp del]

definition can_dev_flush_q :: "('c, 'e) can_attr \<Rightarrow> (int \<times> ('c, 'e) can_attr) option" where
  "can_dev_flush_q a = do {
     (dummy, q) \<leftarrow> can_cq_pop_first (out_buff a);
     (j, q) \<leftarrow> flush_loop 0 q;
     Some (j, a\<lparr>out_buff := q\<rparr>)
   }"

text \<open>\<open>now1\<close> and \<open>now2\<close>: what the two calls of \<open>time\<close> return.\<close>

definition can_dev_write :: "(can_msg \<Rightarrow> 'c \<Rightarrow> 'c option) \<Rightarrow> int \<Rightarrow> int \<Rightarrow> can_msg \<Rightarrow> ('c, 'e) can_attr \<Rightarrow>
    (int \<times> ('c, 'e) can_attr) option" where
  "can_dev_write send now1 now2 pmsg a = do {
     q \<leftarrow> can_cq_add (out_buff a) (pmsg\<lparr>cm_error := 0\<rparr>);
     let a = a\<lparr>out_buff := q\<rparr>;
     if data_count q = 1 then do { a \<leftarrow> can_send send now2 a; Some (EOK, a) }
     else do {
       a \<leftarrow> (if now1 - last_time_can_sent a > 1
             then can_send send now2 (a\<lparr>can_timeout_count := can_timeout_count a + 1\<rparr>) else Some a);
       if data_count (out_buff a) > 10 then do {
         (j, a) \<leftarrow> can_dev_flush_q a;
         Some (EOK, a\<lparr>tx_buffer_flush := tx_buffer_flush a + j\<rparr>)
       } else Some (EOK, a)
     }
   }"

definition can_dev_empty_q :: "('c, 'e) can_attr \<Rightarrow> (int \<times> ('c, 'e) can_attr) option" where
  "can_dev_empty_q a = do {
     (j, q) \<leftarrow> queue_drain can_cq_pop_first 0 (in_buff a);
     Some (j, a\<lparr>in_buff := q\<rparr>)
   }"

definition can_dev_arm :: "int \<Rightarrow> 'e \<Rightarrow> ('c, 'e) can_attr \<Rightarrow> int \<times> ('c, 'e) can_attr" where
  "can_dev_arm rcvid event a = (EOK, a\<lparr>notify_pocb := Some (rcvid, event)\<rparr>)"

definition can_dev_add_filter :: "can_filter \<Rightarrow> ('c, 'e) can_attr \<Rightarrow> int \<times> ('c, 'e) can_attr" where
  "can_dev_add_filter filter1 a = (EOK, a\<lparr>ca_info := (ca_info a)\<lparr>ci_filter := filter1\<rparr>\<rparr>)"

text \<open>The error counts (the chip-dependent files define these two functions alike).\<close>

definition can_dev_clear_errs :: "('c, 'e) can_attr \<Rightarrow> can_err_count \<times> ('c, 'e) can_attr" where
  "can_dev_clear_errs a = (err_count a, a\<lparr>err_count := \<lparr>shadow_buffer_count = 0, intr_in_handler_count = 0,
     rx_interrupt_count = 0, rx_message_lost_count = 0, tx_interrupt_count = 0\<rparr>\<rparr>)"

definition can_dev_get_errs :: "('c, 'e) can_attr \<Rightarrow> can_err_count" where
  "can_dev_get_errs a = err_count a"

subsection \<open>Requests\<close>

datatype 'e devctl = D_READ | D_WRITE can_msg | D_ARM 'e | D_FILTER can_filter | D_EMPTY_Q | D_CLEAR_ERRS
  | D_GET_ERRS | D_DIG_DIR int | D_DIG_IN int | D_DIG_OUT int int | D_OTHER

datatype devctl_reply = R_MSG can_msg | R_INT int | R_ERRS can_err_count | R_STATUS int | R_DIG

text \<open>
  \<open>deflt\<close> is what \<open>iofunc_devctl_default\<close> returned when it handled the request itself; the digital
  I/O requests are not supported by the SJA 1000 and do not touch the CAN state.
\<close>

definition io_devctl :: "(can_msg \<Rightarrow> 'c \<Rightarrow> 'c option) \<Rightarrow> int option \<Rightarrow> int \<Rightarrow> int \<Rightarrow> int \<Rightarrow> 'e devctl \<Rightarrow>
    ('c, 'e) can_attr \<Rightarrow> (devctl_reply \<times> ('c, 'e) can_attr) option" where
  "io_devctl send deflt rcvid now1 now2 req a = (case deflt of Some status \<Rightarrow> Some (R_STATUS status, a) | None \<Rightarrow>
     (case req of
        D_READ \<Rightarrow> map_option (map_prod R_MSG id) (can_dev_read a)
      | D_WRITE m \<Rightarrow> map_option (map_prod R_STATUS id) (can_dev_write send now1 now2 m a)
      | D_ARM ev \<Rightarrow> Some (map_prod R_STATUS id (can_dev_arm rcvid ev a))
      | D_FILTER f \<Rightarrow> Some (map_prod R_STATUS id (can_dev_add_filter f a))
      | D_EMPTY_Q \<Rightarrow> map_option (map_prod R_INT id) (can_dev_empty_q a)
      | D_CLEAR_ERRS \<Rightarrow> Some (map_prod R_ERRS id (can_dev_clear_errs a))
      | D_GET_ERRS \<Rightarrow> Some (R_ERRS (can_dev_get_errs a), a)
      | D_DIG_DIR port \<Rightarrow> Some (R_STATUS EOK, a)
      | D_DIG_IN port \<Rightarrow> Some (R_DIG, a)
      | D_DIG_OUT port bits \<Rightarrow> Some (R_DIG, a)
      | D_OTHER \<Rightarrow> Some (R_STATUS 89, a)))"

text \<open>
  \<open>can_init\<close> sets these fields before it reads the arguments and the configuration file (which only
  change the device name, the interrupt, the port, the frame type and the speed), and then the buffers.
\<close>

definition can_init_attr :: "can_info \<Rightarrow> can_msg list \<Rightarrow> can_msg list \<Rightarrow> 'c \<Rightarrow> ('c, 'e) can_attr" where
  "can_init_attr info junk_in junk_out c = \<lparr>ca_info = info\<lparr>ci_filter := \<lparr>cf_id = 0, cf_mask = 0xff\<rparr>\<rparr>,
     in_buff = init_circular_buffer (int CAN_IN_BUFFER_SIZE) junk_in,
     out_buff = init_circular_buffer (int CAN_OUT_BUFFER_SIZE) junk_out,
     notify_pocb = None, last_time_can_sent = 0, can_timeout_count = 0, tx_buffer_flush = 0,
     can_notify_client_err = 0, mask_count_non_zero = 0,
     err_count = \<lparr>shadow_buffer_count = 0, intr_in_handler_count = 0, rx_interrupt_count = 0,
       rx_message_lost_count = 0, tx_interrupt_count = 0\<rparr>, chip = c\<rparr>"

text \<open>
  \<open>can_handle_interrupt\<close>: \<open>interrupt\<close> is the chip's \<open>can_dev_interrupt\<close>, which returns the number of
  messages received; the client gets one event each.  \<open>ok\<close> says which deliveries succeed,
  \<open>mask_count\<close> is what \<open>InterruptUnmask\<close> returns.  The second result is the events delivered.
\<close>

fun notify_loop :: "nat \<Rightarrow> (nat \<Rightarrow> bool) \<Rightarrow> (int \<times> 'e) option \<Rightarrow> int \<times> (int \<times> 'e) list" where
  "notify_loop 0 ok pocb = (0, [])"
| "notify_loop (Suc n) ok pocb = (let (errs, evs) = notify_loop n ok pocb in
     case pocb of None \<Rightarrow> (errs, evs)
     | Some e \<Rightarrow> if ok n then (errs, e # evs) else (errs + 1, evs))"

definition can_handle_interrupt :: "(('c, 'e) can_attr \<Rightarrow> (int \<times> ('c, 'e) can_attr) option) \<Rightarrow> (nat \<Rightarrow> bool) \<Rightarrow> int \<Rightarrow>
    ('c, 'e) can_attr \<Rightarrow> (int \<times> (int \<times> 'e) list \<times> ('c, 'e) can_attr) option" where
  "can_handle_interrupt interrupt ok mask_count a = do {
     let pocb = notify_pocb a;
     (num_recv, a) \<leftarrow> interrupt a;
     let (errs, evs) = notify_loop (nat num_recv) ok pocb;
     let a = a\<lparr>can_notify_client_err := can_notify_client_err a + errs\<rparr>;
     Some (EOK, evs, if mask_count \<noteq> 0 then a\<lparr>mask_count_non_zero := mask_count_non_zero a + 1\<rparr> else a)
   }"

text \<open>\<open>tx_process_interrupt\<close> (and \<open>Interrupt_Request_Tx\<close>, the same code for the other chip).\<close>

definition tx_process_interrupt :: "(can_msg \<Rightarrow> 'c \<Rightarrow> 'c option) \<Rightarrow> int \<Rightarrow> ('c, 'e) can_attr \<Rightarrow> ('c, 'e) can_attr option" where
  "tx_process_interrupt send now a = do {
     (dummy, q) \<leftarrow> can_cq_pop_first (out_buff a);
     let a = a\<lparr>out_buff := q\<rparr>;
     if data_count q \<noteq> 0 then can_send send now a else Some a
   }"

end
