(* ===== verification/CanTx.thy ===== *)
theory CanTx
  imports CanIf
begin

text \<open>
  The driver's queues at work, for any chip that meets the contract \<open>can_chip\<close> (a message handed to
  \<open>send\<close> appears on the wire, as the chip's own receive routine reads it): reception through the
  filter, transmission as a state machine of client writes and transmit interrupts, and what the
  flush of an overfull transmit queue does.
\<close>

text \<open>A message the hardware can carry: at most 8 bytes, and an identifier of 29 or 11 bits.\<close>

definition can_msg_ok :: "can_msg \<Rightarrow> bool" where
  "can_msg_ok m \<longleftrightarrow> length (cm_data m) = 8 \<and> cm_size m \<le> 8 \<and>
     (if IS_EXTENDED_FRAME m then unat (CAN_ID m) < 2 ^ 29 else unat (cm_id m) < 2 ^ 11)"

definition wire :: "can_msg \<Rightarrow> u32 \<times> u8 list" where
  "wire m = (cm_id m, take (unat (cm_size m)) (cm_data m))"

lemma can_msg_ok_error [simp]: "can_msg_ok (m\<lparr>cm_error := e\<rparr>) = can_msg_ok m"
  by (simp add: can_msg_ok_def IS_EXTENDED_FRAME_def CAN_ID_def)

lemma wire_error [simp]: "wire (m\<lparr>cm_error := e\<rparr>) = wire m"
  by (simp add: wire_def)

subsection \<open>The receive side\<close>

abbreviation in_rep :: "('c, 'e) can_attr \<Rightarrow> can_msg list \<Rightarrow> bool" where
  "in_rep a \<equiv> cq_rep CAN_IN_BUFFER_SIZE (in_buff a)"

abbreviation out_rep :: "('c, 'e) can_attr \<Rightarrow> can_msg list \<Rightarrow> bool" where
  "out_rep a \<equiv> cq_rep CAN_OUT_BUFFER_SIZE (out_buff a)"

definition passes :: "('c, 'e) can_attr \<Rightarrow> can_msg \<Rightarrow> bool" where
  "passes a m \<longleftrightarrow> (let f = ci_filter (ca_info a) in cf_id f AND cf_mask f = cm_id m AND cf_mask f)"

lemma can_new_msg_spec:
  assumes "in_rep a xs"
  shows "\<exists>q. can_new_msg m a = Some (a\<lparr>in_buff := q\<rparr>) \<and>
    cq_rep CAN_IN_BUFFER_SIZE q (if passes a m then keep_last CAN_IN_BUFFER_SIZE (xs @ [m]) else xs)"
proof (cases "passes a m")
  case True
  then show ?thesis using can_cq_add_spec[OF assms, of m] by (auto simp: can_new_msg_def passes_def Let_def)
next
  case False
  then show ?thesis using assms
    by (auto simp: can_new_msg_def passes_def Let_def intro!: exI[of _ "in_buff a"])
qed

fun can_new_msgs :: "can_msg list \<Rightarrow> ('c, 'e) can_attr \<Rightarrow> ('c, 'e) can_attr option" where
  "can_new_msgs [] a = Some a"
| "can_new_msgs (m # ms) a = do { a \<leftarrow> can_new_msg m a; can_new_msgs ms a }"

lemma can_new_msgs_spec:
  "in_rep a xs \<Longrightarrow> length xs \<le> CAN_IN_BUFFER_SIZE \<Longrightarrow> \<exists>a'. can_new_msgs ms a = Some a' \<and> ca_info a' = ca_info a \<and>
     in_rep a' (keep_last CAN_IN_BUFFER_SIZE (xs @ filter (passes a) ms))"
proof (induction ms arbitrary: a xs)
  case Nil
  then show ?case by (simp add: keep_last_def)
next
  case (Cons m ms)
  let ?ys = "if passes a m then keep_last CAN_IN_BUFFER_SIZE (xs @ [m]) else xs"
  obtain q where q: "can_new_msg m a = Some (a\<lparr>in_buff := q\<rparr>)" "cq_rep CAN_IN_BUFFER_SIZE q ?ys"
    using can_new_msg_spec[OF Cons.prems(1)] by blast
  have p: "passes (a\<lparr>in_buff := q\<rparr>) = passes a" by (simp add: fun_eq_iff passes_def)
  have "length ?ys \<le> CAN_IN_BUFFER_SIZE" using Cons.prems(2) length_keep_last[of CAN_IN_BUFFER_SIZE "xs @ [m]"] by simp
  then obtain a' where "can_new_msgs ms (a\<lparr>in_buff := q\<rparr>) = Some a'" "ca_info a' = ca_info a"
    "in_rep a' (keep_last CAN_IN_BUFFER_SIZE (?ys @ filter (passes a) ms))"
    using Cons.IH[of "a\<lparr>in_buff := q\<rparr>" ?ys] q(2) unfolding p by auto
  then show ?case using q(1) by auto
qed

lemma can_dev_read_spec:
  assumes "in_rep a xs"
  shows "\<exists>q. can_dev_read a = Some (case xs of [] \<Rightarrow> \<lparr>cm_id = 0, cm_size = 0, cm_data = replicate 8 0, cm_error = 1\<rparr>
      | m # _ \<Rightarrow> m\<lparr>cm_error := 0\<rparr>, a\<lparr>in_buff := q\<rparr>) \<and> cq_rep CAN_IN_BUFFER_SIZE q (tl xs)"
proof (cases xs)
  case Nil
  then obtain q where "can_cq_pop_first (in_buff a) = Some (None, q)" "cq_rep CAN_IN_BUFFER_SIZE q []"
    using can_cq_pop_empty[of CAN_IN_BUFFER_SIZE "in_buff a"] assms by auto
  then show ?thesis using Nil by (intro exI[of _ q]) (simp add: can_dev_read_def)
next
  case (Cons m ys)
  then obtain q where "can_cq_pop_first (in_buff a) = Some (Some m, q)" "cq_rep CAN_IN_BUFFER_SIZE q ys"
    using can_cq_pop_spec[of CAN_IN_BUFFER_SIZE "in_buff a" m ys] assms by auto
  then show ?thesis using Cons by (intro exI[of _ q]) (simp add: can_dev_read_def)
qed

text \<open>A client that reads \<open>k\<close> times: the messages in order, and then errors.\<close>

fun can_reads :: "nat \<Rightarrow> ('c, 'e) can_attr \<Rightarrow> (can_msg list \<times> ('c, 'e) can_attr) option" where
  "can_reads 0 a = Some ([], a)"
| "can_reads (Suc k) a = do { (m, a) \<leftarrow> can_dev_read a; (ms, a) \<leftarrow> can_reads k a; Some (m # ms, a) }"

definition no_can_msg :: can_msg where
  "no_can_msg = \<lparr>cm_id = 0, cm_size = 0, cm_data = replicate 8 0, cm_error = 1\<rparr>"

lemma can_reads_spec:
  "in_rep a xs \<Longrightarrow> \<exists>a'. can_reads k a = Some (map (\<lambda>m. m\<lparr>cm_error := 0\<rparr>) (take k xs) @ replicate (k - length xs) no_can_msg, a') \<and>
     in_rep a' (drop k xs)"
proof (induction k arbitrary: a xs)
  case 0
  then show ?case by simp
next
  case (Suc k)
  obtain q where q: "can_dev_read a = Some (case xs of [] \<Rightarrow> no_can_msg | m # _ \<Rightarrow> m\<lparr>cm_error := 0\<rparr>, a\<lparr>in_buff := q\<rparr>)"
    "cq_rep CAN_IN_BUFFER_SIZE q (tl xs)"
    using can_dev_read_spec[OF Suc.prems] unfolding no_can_msg_def by blast
  have "in_rep (a\<lparr>in_buff := q\<rparr>) (tl xs)" using q(2) by simp
  from Suc.IH[OF this] show ?case using q(1) by (cases xs) auto
qed

lemma can_dev_empty_q_spec:
  "in_rep a xs \<Longrightarrow> \<exists>a'. can_dev_empty_q a = Some (int (length xs), a') \<and> in_rep a' []"
  using cq.drain_law[of CAN_IN_BUFFER_SIZE "in_buff a" xs 0] by (fastforce simp: can_dev_empty_q_def)

subsection \<open>The flush of the transmit queue\<close>

lemma flush_loop_spec:
  "cq_rep n q xs \<Longrightarrow> \<exists>q'. flush_loop j q = Some (j + int (length xs - 1), q') \<and> cq_rep n q' (drop (length xs - 1) xs)"
proof (induction xs arbitrary: q j)
  case Nil
  then show ?case by (subst flush_loop.simps) (auto simp: cq_rep_count)
next
  case (Cons x xs)
  show ?case
  proof (cases xs)
    case Nil
    then show ?thesis using Cons.prems cq_rep_count[OF Cons.prems] by (subst flush_loop.simps) auto
  next
    case (Cons y ys)
    obtain q' where q': "can_cq_pop_first q = Some (Some x, q')" "cq_rep n q' xs"
      using can_cq_pop_spec[OF Cons.prems] by blast
    have "flush_loop j q = flush_loop (j + 1) q'"
      using q'(1) cq_rep_count[OF q'(2)] cq_rep_count[OF Cons.prems] Cons by (subst flush_loop.simps) auto
    then show ?thesis using Cons.IH[OF q'(2), of "j + 1"] Cons by auto
  qed
qed

text \<open>A flush keeps the newest message only; it reports one message less than it drops.\<close>

lemma can_dev_flush_q_spec:
  assumes "out_rep a xs" "2 \<le> length xs"
  shows "\<exists>q. can_dev_flush_q a = Some (int (length xs - 2), a\<lparr>out_buff := q\<rparr>) \<and> cq_rep CAN_OUT_BUFFER_SIZE q [last xs]"
proof -
  obtain x ys where xs: "xs = x # ys" "ys \<noteq> []" using assms(2) by (cases xs) (auto simp: Suc_le_eq)
  then obtain q1 where q1: "can_cq_pop_first (out_buff a) = Some (Some x, q1)" "cq_rep CAN_OUT_BUFFER_SIZE q1 ys"
    using can_cq_pop_spec[of CAN_OUT_BUFFER_SIZE "out_buff a" x ys] assms(1) by auto
  have "drop (length ys - 1) ys = [last ys]"
    using xs(2) by (cases ys rule: rev_cases) auto
  then show ?thesis using flush_loop_spec[OF q1(2), of 0] q1(1) xs by (auto simp: can_dev_flush_q_def)
qed

subsection \<open>The contract of a chip, and the transmit side over it\<close>

locale can_chip =
  fixes send :: "can_msg \<Rightarrow> 'c \<Rightarrow> 'c option" and sent :: "'c \<Rightarrow> (u32 \<times> u8 list) list" and ready :: "'c \<Rightarrow> bool"
  assumes send_law: "ready c \<Longrightarrow> can_msg_ok m \<Longrightarrow>
    \<exists>c'. send m c = Some c' \<and> sent c' = sent c @ [wire m] \<and> ready c'"

text \<open>
  The states the transmit side reaches by client writes that find less than ten messages queued and
  the chip busy for at most a second, and by transmit interrupts; \<open>ws\<close> are the messages written.
\<close>

inductive tx_reach :: "(can_msg \<Rightarrow> 'c \<Rightarrow> 'c option) \<Rightarrow> ('c, 'e) can_attr \<Rightarrow> can_msg list \<Rightarrow> ('c, 'e) can_attr \<Rightarrow> bool"
  for send a0 where
  tx_start: "tx_reach send a0 [] a0"
| tx_write: "tx_reach send a0 ws a \<Longrightarrow> can_msg_ok m \<Longrightarrow> data_count (out_buff a) < 10 \<Longrightarrow>
    now1 - last_time_can_sent a \<le> 1 \<Longrightarrow> can_dev_write send now1 now2 m a = Some (r, a') \<Longrightarrow>
    tx_reach send a0 (ws @ [m]) a'"
| tx_irq: "tx_reach send a0 ws a \<Longrightarrow> tx_process_interrupt send now a = Some a' \<Longrightarrow> tx_reach send a0 ws a'"

fun tx_irqs :: "(can_msg \<Rightarrow> 'c \<Rightarrow> 'c option) \<Rightarrow> int \<Rightarrow> nat \<Rightarrow> ('c, 'e) can_attr \<Rightarrow> ('c, 'e) can_attr option" where
  "tx_irqs send now 0 a = Some a"
| "tx_irqs send now (Suc n) a = do { a \<leftarrow> tx_process_interrupt send now a; tx_irqs send now n a }"

text \<open>
  The invariant: the queue holds the messages whose transmission is not acknowledged, the first of
  them is on the chip, and what was sent is what was written, in that order.
\<close>

definition tx_inv :: "('c \<Rightarrow> bool) \<Rightarrow> ('c \<Rightarrow> (u32 \<times> u8 list) list) \<Rightarrow> (u32 \<times> u8 list) list \<Rightarrow> can_msg list \<Rightarrow> ('c, 'e) can_attr \<Rightarrow>
    can_msg list \<Rightarrow> can_msg list \<Rightarrow> bool" where
  "tx_inv ready sent before ws a done_msgs q \<longleftrightarrow> ready (chip a) \<and> out_rep a q \<and> list_all can_msg_ok q \<and>
     map wire ws = map wire (done_msgs @ q) \<and> sent (chip a) = before @ map wire (done_msgs @ take 1 q)"

context can_chip
begin

lemma can_send_spec:
  assumes "out_rep a (m # q)" "can_msg_ok m" "ready (chip a)"
  shows "\<exists>a'. can_send send now a = Some a' \<and> out_buff a' = out_buff a \<and> sent (chip a') = sent (chip a) @ [wire m] \<and>
    last_time_can_sent a' = now \<and> ready (chip a')"
  using send_law[OF assms(3,2)] can_cq_read_first_spec[OF assms(1)] by (auto simp: can_send_def)

lemma tx_write_step:
  assumes inv: "tx_inv ready sent b ws a d q" and m: "can_msg_ok m" and q: "length q < 10"
    and t: "now1 - last_time_can_sent a \<le> 1"
  shows "\<exists>a'. can_dev_write send now1 now2 m a = Some (EOK, a') \<and>
    tx_inv ready sent b (ws @ [m]) a' d (q @ [m\<lparr>cm_error := 0\<rparr>])"
proof -
  let ?m = "m\<lparr>cm_error := 0\<rparr>"
  have R: "out_rep a q" and rdy: "ready (chip a)" and ok: "list_all can_msg_ok q" and eq: "map wire ws = map wire (d @ q)"
    and snt: "sent (chip a) = b @ map wire (d @ take 1 q)" using inv by (auto simp: tx_inv_def)
  have "keep_last CAN_OUT_BUFFER_SIZE (q @ [?m]) = q @ [?m]" using q by (simp add: keep_last_def)
  then obtain q' where q': "can_cq_add (out_buff a) ?m = Some q'" "cq_rep CAN_OUT_BUFFER_SIZE q' (q @ [?m])"
    using can_cq_add_spec[OF R, of ?m] by auto
  have cnt: "data_count q' = int (length q) + 1" using cq_rep_count[OF q'(2)] by simp
  show ?thesis
  proof (cases q)
    case Nil
    obtain a' where a': "can_send send now2 (a\<lparr>out_buff := q'\<rparr>) = Some a'" "out_buff a' = q'"
      "sent (chip a') = sent (chip a) @ [wire ?m]" "ready (chip a')"
      using can_send_spec[of "a\<lparr>out_buff := q'\<rparr>" ?m "[]" now2] q'(2) m Nil rdy by auto
    have "can_dev_write send now1 now2 m a = Some (EOK, a')"
      using q'(1) cnt Nil a'(1) by (simp add: can_dev_write_def)
    then show ?thesis using a' snt eq m q'(2) Nil by (auto simp: tx_inv_def)
  next
    case (Cons x xs)
    have "can_dev_write send now1 now2 m a = Some (EOK, a\<lparr>out_buff := q'\<rparr>)"
      using q'(1) cnt Cons t q by (simp add: can_dev_write_def)
    then show ?thesis using rdy snt eq ok m q'(2) Cons by (auto simp: tx_inv_def)
  qed
qed

lemma tx_irq_step:
  assumes inv: "tx_inv ready sent b ws a d q"
  shows "\<exists>a'. tx_process_interrupt send now a = Some a' \<and> tx_inv ready sent b ws a' (d @ take 1 q) (tl q)"
proof -
  have R: "out_rep a q" and rdy: "ready (chip a)" and ok: "list_all can_msg_ok q" and eq: "map wire ws = map wire (d @ q)"
    and snt: "sent (chip a) = b @ map wire (d @ take 1 q)" using inv by (auto simp: tx_inv_def)
  show ?thesis
  proof (cases q)
    case Nil
    then obtain q' where "can_cq_pop_first (out_buff a) = Some (None, q')" "cq_rep CAN_OUT_BUFFER_SIZE q' []"
      using can_cq_pop_empty[of _ "out_buff a"] R by auto
    then show ?thesis using rdy snt eq Nil cq_rep_count[of _ q' "[]"]
      by (auto simp: tx_process_interrupt_def tx_inv_def)
  next
    case (Cons x xs)
    then obtain q' where q': "can_cq_pop_first (out_buff a) = Some (Some x, q')" "cq_rep CAN_OUT_BUFFER_SIZE q' xs"
      using can_cq_pop_spec[of CAN_OUT_BUFFER_SIZE "out_buff a" x xs] R by auto
    have cnt: "data_count q' = int (length xs)" using cq_rep_count[OF q'(2)] .
    show ?thesis
    proof (cases xs)
      case Nil
      then show ?thesis using q' cnt rdy snt eq Cons by (auto simp: tx_process_interrupt_def tx_inv_def)
    next
      case (Cons y ys)
      obtain a' where a': "can_send send now (a\<lparr>out_buff := q'\<rparr>) = Some a'" "out_buff a' = q'"
        "sent (chip a') = sent (chip a) @ [wire y]" "ready (chip a')"
        using can_send_spec[of "a\<lparr>out_buff := q'\<rparr>" y ys now] q'(2) ok rdy \<open>q = x # xs\<close> Cons by auto
      have "tx_process_interrupt send now a = Some a'"
        using q'(1) cnt Cons a'(1) by (simp add: tx_process_interrupt_def)
      then show ?thesis using a' snt eq ok q'(2) \<open>q = x # xs\<close> Cons by (auto simp: tx_inv_def)
    qed
  qed
qed

lemma tx_reach_inv:
  "tx_reach send a0 ws a \<Longrightarrow> out_rep a0 [] \<Longrightarrow> ready (chip a0) \<Longrightarrow> \<exists>d q. tx_inv ready sent (sent (chip a0)) ws a d q"
proof (induction rule: tx_reach.induct)
  case tx_start
  then show ?case by (auto simp: tx_inv_def intro!: exI[of _ "[]"])
next
  case (tx_write ws a m now1 now2 r a')
  then obtain d q where inv: "tx_inv ready sent (sent (chip a0)) ws a d q" by blast
  have "length q < 10" using tx_write(3) cq_rep_count[of _ "out_buff a" q] inv by (auto simp: tx_inv_def)
  from tx_write_step[OF inv tx_write(2) this tx_write(4), of now2] show ?case using tx_write(5) by auto
next
  case (tx_irq ws a now a')
  then obtain d q where "tx_inv ready sent (sent (chip a0)) ws a d q" by blast
  from tx_irq_step[OF this, of now] show ?case using tx_irq(2) by auto
qed

text \<open>Once the chip has acknowledged as many messages as are queued, everything written is sent.\<close>

lemma tx_irqs_drain:
  "tx_inv ready sent b ws a d q \<Longrightarrow> length q \<le> n \<Longrightarrow>
   \<exists>a'. tx_irqs send now n a = Some a' \<and> tx_inv ready sent b ws a' (d @ q) []"
proof (induction n arbitrary: a d q)
  case 0
  then show ?case by simp
next
  case (Suc n)
  obtain a' where a': "tx_process_interrupt send now a = Some a'" "tx_inv ready sent b ws a' (d @ take 1 q) (tl q)"
    using tx_irq_step[OF Suc.prems(1)] by blast
  have "length (tl q) \<le> n" using Suc.prems(2) by simp
  from Suc.IH[OF a'(2) this] show ?case using a'(1) by (cases q) auto
qed

lemma tx_reach_drain:
  assumes "tx_reach send a0 ws a" "out_rep a0 []" "ready (chip a0)"
  shows "\<exists>a'. tx_irqs send now (nat (data_count (out_buff a))) a = Some a' \<and>
    sent (chip a') = sent (chip a0) @ map wire ws"
proof -
  obtain d q where inv: "tx_inv ready sent (sent (chip a0)) ws a d q" using tx_reach_inv[OF assms] by blast
  then have "length q \<le> nat (data_count (out_buff a))" using cq_rep_count[of CAN_OUT_BUFFER_SIZE "out_buff a" q] by (simp add: tx_inv_def)
  from tx_irqs_drain[OF inv this, of now] show ?thesis by (auto simp: tx_inv_def)
qed

lemma tx_reach_order:
  assumes "tx_reach send a0 ws a" "out_rep a0 []" "ready (chip a0)"
  shows "\<exists>n. n \<le> length ws \<and> sent (chip a) = sent (chip a0) @ map wire (take n ws) \<and>
    data_count (out_buff a) - 1 \<le> int (length ws) - int n"
proof -
  obtain d q where inv: "tx_inv ready sent (sent (chip a0)) ws a d q" using tx_reach_inv[OF assms] by blast
  then have e: "map wire ws = map wire (d @ q)" and s: "sent (chip a) = sent (chip a0) @ map wire (d @ take 1 q)"
    and c: "data_count (out_buff a) = int (length q)" using cq_rep_count[of _ "out_buff a" q] by (auto simp: tx_inv_def)
  let ?n = "length d + length (take 1 q)"
  have l: "length ws = length d + length q" using arg_cong[OF e, of length] by simp
  have "map wire (take ?n ws) = take ?n (map wire (d @ q))" unfolding e[symmetric] by (simp add: take_map)
  also have "\<dots> = map wire (d @ take 1 q)" by (cases q) (simp_all add: take_map)
  finally have "sent (chip a) = sent (chip a0) @ map wire (take ?n ws)" using s by simp
  then show ?thesis using l c by (intro exI[of _ ?n]) auto
qed

text \<open>
  An eleventh message queued flushes the queue down to itself; the interrupt of the message on the
  chip then takes it off the queue although it was never sent.
\<close>

lemma flush_loses_message:
  assumes inv: "tx_inv ready sent b ws a d q" and m: "can_msg_ok m" and q: "length q = 10"
    and t: "now1 - last_time_can_sent a \<le> 1"
  shows "\<exists>a1 a2. can_dev_write send now1 now2 m a = Some (EOK, a1) \<and> out_rep a1 [m\<lparr>cm_error := 0\<rparr>] \<and>
    tx_process_interrupt send now3 a1 = Some a2 \<and> out_rep a2 [] \<and>
    sent (chip a2) = b @ map wire (d @ [hd q])"
proof -
  let ?m = "m\<lparr>cm_error := 0\<rparr>"
  have R: "out_rep a q" and snt: "sent (chip a) = b @ map wire (d @ take 1 q)" using inv by (auto simp: tx_inv_def)
  have "keep_last CAN_OUT_BUFFER_SIZE (q @ [?m]) = q @ [?m]" using q by (simp add: keep_last_def)
  then obtain q' where q': "can_cq_add (out_buff a) ?m = Some q'" "cq_rep CAN_OUT_BUFFER_SIZE q' (q @ [?m])"
    using can_cq_add_spec[OF R, of ?m] by auto
  have cnt: "data_count q' = 11" using cq_rep_count[OF q'(2)] q by simp
  obtain q1 where q1: "can_dev_flush_q (a\<lparr>out_buff := q'\<rparr>) = Some (int (length (q @ [?m]) - 2), a\<lparr>out_buff := q1\<rparr>)"
    "cq_rep CAN_OUT_BUFFER_SIZE q1 [?m]"
    using can_dev_flush_q_spec[of "a\<lparr>out_buff := q'\<rparr>" "q @ [?m]"] q'(2) q by auto
  let ?a1 = "a\<lparr>out_buff := q1, tx_buffer_flush := tx_buffer_flush a + 9\<rparr>"
  have w: "can_dev_write send now1 now2 m a = Some (EOK, ?a1)"
    using q'(1) cnt t q1(1) q by (simp add: can_dev_write_def)
  obtain q2 where q2: "can_cq_pop_first q1 = Some (Some ?m, q2)" "cq_rep CAN_OUT_BUFFER_SIZE q2 []"
    using can_cq_pop_spec[OF q1(2)] by blast
  have "tx_process_interrupt send now3 ?a1 = Some (?a1\<lparr>out_buff := q2\<rparr>)"
    using q2 cq_rep_count[OF q2(2)] by (simp add: tx_process_interrupt_def)
  moreover have "take 1 q = [hd q]" using q by (cases q) auto
  ultimately show ?thesis using w q1(2) q2(2) snt by auto
qed

end

end
