(* ===== verification/BitFields.thy ===== *)
theory BitFields
  imports Prelude
begin

unbundle bit_operations_syntax

text \<open>
  Bit-level facts shared by the CAN drivers and the J1939 layer: which bits a byte cut out of a
  32-bit word holds, the flag of an extended frame, and the identifiers of 29 and 11 bits put
  together again from the bytes they were cut into.
\<close>

lemma bit_unat_small: "unat (w :: u32) < 2 ^ k \<Longrightarrow> k \<le> n \<Longrightarrow> \<not> bit w n"
proof
  assume w: "unat w < 2 ^ k" "k \<le> n" "bit w n"
  then have "bit (unat w) n" by (simp add: bit_unsigned_iff)
  moreover have "unat w < 2 ^ n" using w(1,2) by (meson less_le_trans one_le_numeral power_increasing)
  ultimately show False by (simp add: bit_iff_odd)
qed

lemma ext_flag: "(0x80000000 :: u32) = push_bit 31 1" by (simp add: push_bit_eq_mult)

lemma bit_ext_flag: "bit (0x80000000 :: u32) n \<longleftrightarrow> n = 31"
  unfolding ext_flag by (subst bit_push_bit_iff) (auto simp: bit_1_iff)

lemma and_0xff [simp]: "(x :: u8) AND 0xff = x"
proof -
  have "(0xff :: u8) = - 1" by simp
  then show ?thesis by (metis and.right_neutral)
qed

lemma ext_flag_bit: "(w :: u32) AND 0x80000000 \<noteq> 0 \<longleftrightarrow> bit w 31"
proof -
  have "w AND 0x80000000 = 0 \<longleftrightarrow> \<not> bit w 31"
    by (subst bit_eq_iff, unfold bit_and_iff bit_ext_flag) (auto dest!: spec[of _ 31])
  then show ?thesis by simp
qed
lemma bit_byte_at: fixes id :: u32 shows
  "bit (push_bit k (ucast (ucast (drop_bit k id) :: u8)) :: u32) n \<longleftrightarrow> k \<le> n \<and> n < k + 8 \<and> bit id n \<and> n < 32"
  by (auto simp: bit_simps)

lemma ext_id_bytes:
  fixes id :: u32
  assumes "bit id 31" "\<not> bit id 29" "\<not> bit id 30"
  shows "(push_bit 21 (ucast (ucast (drop_bit 21 id) :: u8)) OR push_bit 13 (ucast (ucast (drop_bit 13 id) :: u8)) OR
    push_bit 5 (ucast (ucast (drop_bit 5 id) :: u8)) OR
    drop_bit 3 (ucast ((ucast (push_bit 3 id)) :: u8))) OR 0x80000000 = id"
proof (rule bit_word_eqI, goal_cases)
  case n: (1 n)
  have last: "bit (drop_bit 3 (ucast ((ucast (push_bit 3 id)) :: u8)) :: u32) n \<longleftrightarrow> n < 5 \<and> bit id n"
    by (auto simp: bit_simps)
  consider "n = 31" | "n = 30" | "n = 29" | "n < 29" using n by fastforce
  then show ?case
    unfolding bit_or_iff bit_byte_at last bit_ext_flag
    by cases (use assms in auto)
qed

lemma std_id_bytes:
  fixes id :: u32
  assumes "\<And>n. 11 \<le> n \<Longrightarrow> \<not> bit id n"
  shows "push_bit 3 (ucast (ucast (drop_bit 3 id) :: u8)) OR
    drop_bit 5 (ucast ((ucast (push_bit 5 id) AND 0xe0) :: u8)) = id"
proof (rule bit_word_eqI, goal_cases)
  case n: (1 n)
  have e0: "bit (0xe0 :: u8) k \<longleftrightarrow> 5 \<le> k \<and> k < 8" for k
  proof -
    have "(0xe0 :: u8) = push_bit 5 (mask 3)" by (simp add: push_bit_eq_mult mask_eq_exp_minus_1)
    then show ?thesis by (simp only: bit_push_bit_iff bit_mask_iff) auto
  qed
  have last: "bit (drop_bit 5 (ucast ((ucast (push_bit 5 id) AND 0xe0) :: u8)) :: u32) n \<longleftrightarrow> n < 3 \<and> bit id n"
    by (simp only: bit_drop_bit_eq bit_unsigned_iff bit_and_iff e0 bit_push_bit_iff comp_def) auto
  show ?case
    unfolding bit_or_iff bit_byte_at last using assms[of n] n by (cases "11 \<le> n") auto
qed
end
