(* ===== verification/Sja1000.thy ===== *)
theory Sja1000
  imports CanTx BitFields
begin

text \<open>
  can/drv_sja1000 (can_dev.c, can_dev.h, sja1000.h and the set-up functions of sja1000funcs.c): the
  driver of the SJA 1000 chip.  The chip's registers are a record; its frame window (register 16,
  \<open>frameinfo\<close>, and the twelve bytes of \<open>union frame\<close>) is the acceptance filter in reset mode and
  otherwise the transmit buffer for writes and the oldest received frame for reads.  What the bus
  does is data: \<open>s_irqs\<close> are the values the interrupt register will return, \<open>s_rxq\<close> the frames
  received, \<open>s_rx_idle\<close> what an empty window reads, \<open>s_log\<close> the frames whose transmission was requested.
\<close>

record sja = s_mode :: u8
  s_clk :: u8
  s_outc :: u8
  s_tim0 :: u8
  s_tim1 :: u8
  s_irq_enable :: u8
  s_rmc :: u8
  s_acc :: "u8 list"
  s_tx :: "u8 list"
  s_rxq :: "u8 list list"
  s_rx_idle :: "u8 list"
  s_irqs :: "u8 list"
  s_log :: "u8 list list"
  s_cmds :: "u8 list"

abbreviation (input) CAN_EFF :: u8 where "CAN_EFF \<equiv> 0x80"
abbreviation (input) CAN_SFF :: u8 where "CAN_SFF \<equiv> 0x00"
abbreviation (input) CAN_RESET_REQUEST :: u8 where "CAN_RESET_REQUEST \<equiv> 0x01"
abbreviation (input) CAN_MODE_DEF :: u8 where "CAN_MODE_DEF \<equiv> 0x08"
abbreviation (input) CAN_TRANSMISSION_REQUEST :: u8 where "CAN_TRANSMISSION_REQUEST \<equiv> 0x01"
abbreviation (input) CAN_RELEASE_RECEIVE_BUFFER :: u8 where "CAN_RELEASE_RECEIVE_BUFFER \<equiv> 0x04"
abbreviation (input) CAN_CLEAR_OVERRUN_STATUS :: u8 where "CAN_CLEAR_OVERRUN_STATUS \<equiv> 0x08"
abbreviation (input) CAN_RECEIVE_INT :: u8 where "CAN_RECEIVE_INT \<equiv> 0x01"
abbreviation (input) CAN_TRANSMIT_INT :: u8 where "CAN_TRANSMIT_INT \<equiv> 0x02"
abbreviation (input) CAN_ERROR_INT :: u8 where "CAN_ERROR_INT \<equiv> 0x04"
abbreviation (input) CAN_OVERRUN_INT :: u8 where "CAN_OVERRUN_INT \<equiv> 0x08"
abbreviation (input) CAN_BUS_STATUS_BIT :: u8 where "CAN_BUS_STATUS_BIT \<equiv> 0x80"

text \<open>Writes to the frame window, from register \<open>i\<close> on; a write past it is a fault.\<close>

fun write_win :: "nat \<Rightarrow> u8 list \<Rightarrow> sja \<Rightarrow> sja option" where
  "write_win i [] c = Some c"
| "write_win i (v # vs) c =
     (if i \<ge> 13 then None
      else write_win (i + 1) vs (if s_mode c AND CAN_RESET_REQUEST \<noteq> 0 then c\<lparr>s_acc := (s_acc c)[i := v]\<rparr>
             else c\<lparr>s_tx := (s_tx c)[i := v]\<rparr>))"

definition write_cmd :: "u8 \<Rightarrow> sja \<Rightarrow> sja" where
  "write_cmd v c = (let c = c\<lparr>s_cmds := s_cmds c @ [v]\<rparr> in
     if v = CAN_TRANSMISSION_REQUEST then c\<lparr>s_log := s_log c @ [s_tx c]\<rparr>
     else if v = CAN_RELEASE_RECEIVE_BUFFER then c\<lparr>s_rxq := tl (s_rxq c)\<rparr>
     else c)"

definition rx_window :: "sja \<Rightarrow> u8 list" where
  "rx_window c = (case s_rxq c of [] \<Rightarrow> s_rx_idle c | f # _ \<Rightarrow> f)"

text \<open>Reading the interrupt register clears it.\<close>

definition read_irq :: "sja \<Rightarrow> u8 \<times> sja" where
  "read_irq c = (case s_irqs c of [] \<Rightarrow> (0, c) | v # vs \<Rightarrow> (v, c\<lparr>s_irqs := vs\<rparr>))"

subsection \<open>Sending\<close>

text \<open>The body of \<open>can_send\<close>; it reads \<open>size\<close> bytes of \<open>data\<close> without a bound of its own.\<close>

definition sja_send :: "can_msg \<Rightarrow> sja \<Rightarrow> sja option" where
  "sja_send tx c = (let tx2reg = cm_size tx; id = cm_id tx in do {
     (c, off) \<leftarrow> (if IS_EXTENDED_FRAME tx then do {
            c \<leftarrow> write_win 0 [CAN_EFF + tx2reg, ucast (drop_bit 21 id), ucast (drop_bit 13 id),
                   ucast (drop_bit 5 id), ucast (push_bit 3 id) AND 0xff] c;
            Some (c, 5)
          } else do {
            c \<leftarrow> write_win 0 [CAN_SFF + tx2reg, ucast (drop_bit 3 id), ucast (push_bit 5 id) AND 0xe0] c;
            Some (c, 3)
          });
     if length (cm_data tx) < unat tx2reg then None else do {
       c \<leftarrow> write_win off (take (unat tx2reg) (cm_data tx)) c;
       Some (write_cmd CAN_TRANSMISSION_REQUEST c)
     }
   })"

subsection \<open>Receiving\<close>

text \<open>
  The message \<open>rx_process_interrupt\<close> builds from the window; \<open>junk\<close> is the uninitialised rest of
  its \<open>data\<close> and \<open>error\<close> on the stack.  The length code of the frame may be up to 15.
\<close>

definition sja_decode :: "u8 list \<Rightarrow> int \<Rightarrow> u8 list \<Rightarrow> can_msg" where
  "sja_decode junk jerr w = (let frm_info = w ! 0; size1 = frm_info AND 0x0f; n = min (unat size1) 8 in
     if frm_info AND CAN_EFF \<noteq> 0 then
       SET_EXTENDED_FRAME \<lparr>cm_id = push_bit 21 (ucast (w ! 1)) OR push_bit 13 (ucast (w ! 2)) OR
            push_bit 5 (ucast (w ! 3)) OR drop_bit 3 (ucast (w ! 4)),
          cm_size = size1, cm_data = take n (drop 5 w) @ drop n junk, cm_error = jerr\<rparr>
     else \<lparr>cm_id = push_bit 3 (ucast (w ! 1)) OR drop_bit 5 (ucast (w ! 2)),
          cm_size = size1, cm_data = take n (drop 3 w) @ drop n junk, cm_error = jerr\<rparr>)"

definition rx_process_interrupt :: "u8 list \<Rightarrow> int \<Rightarrow> (sja, 'e) can_attr \<Rightarrow> (sja, 'e) can_attr option" where
  "rx_process_interrupt junk jerr a = can_new_msg (sja_decode junk jerr (rx_window (chip a))) a"

subsection \<open>Set-up\<close>

text \<open>The bit timing registers: the table \<open>CanTiming\<close>, or the two bytes of a custom value.\<close>

definition CanTiming :: "int \<Rightarrow> u8 \<times> u8" where
  "CanTiming baud =
     (if baud = 10 then (49, 0x1c) else if baud = 20 then (24, 0x1c) else if baud = 50 then (9, 0x1c)
      else if baud = 100 then (4, 0x1c) else if baud = 125 then (3, 0x1c) else if baud = 250 then (1, 0x1c)
      else if baud = 500 then (0, 0x1c) else if baud = 800 then (0, 0x16) else if baud = 1000 then (0, 0x14)
      else (word_of_int (baud div 256), word_of_int baud))"

text \<open>\<open>baud_of\<close> is \<open>Baud[minor]\<close>, \<open>isopen\<close> the number of times the channel is open.\<close>

definition CAN_SetTiming :: "nat \<Rightarrow> int \<Rightarrow> int \<Rightarrow> sja \<Rightarrow> int \<times> sja" where
  "CAN_SetTiming isopen baud_of baud c =
     (if isopen > 1 \<and> baud_of \<noteq> baud then (- 1, c)
      else (0, c\<lparr>s_clk := 0xC0, s_tim0 := fst (CanTiming baud), s_tim1 := snd (CanTiming baud)\<rparr>))"

definition CAN_SetMask :: "u32 \<Rightarrow> u32 \<Rightarrow> sja \<Rightarrow> sja option" where
  "CAN_SetMask code amask c = write_win 0
     [ucast (drop_bit 24 code), ucast (drop_bit 16 code), ucast (drop_bit 8 code), ucast code,
      ucast (drop_bit 24 amask), ucast (drop_bit 16 amask), ucast (drop_bit 8 amask), ucast amask] c"

text \<open>\<open>CAN_OUTC_VAL\<close> is \<open>0xda\<close>; \<open>outc\<close> is \<open>Outc[minor]\<close>.\<close>

definition CAN_ChipReset :: "nat \<Rightarrow> u8 \<Rightarrow> int \<Rightarrow> u32 \<Rightarrow> u32 \<Rightarrow> sja \<Rightarrow> (int \<times> sja) option" where
  "CAN_ChipReset isopen outc baud acc_code acc_mask c =
     (let c = c\<lparr>s_mode := CAN_RESET_REQUEST\<rparr>;
          c = c\<lparr>s_clk := 0xC0\<rparr>;
          c = c\<lparr>s_mode := CAN_RESET_REQUEST + CAN_MODE_DEF\<rparr>;
          c = c\<lparr>s_outc := if outc = 0 then 0xda else outc\<rparr>;
          c = snd (CAN_SetTiming isopen baud baud c)
      in do { c \<leftarrow> CAN_SetMask acc_code acc_mask c; Some (0, c) })"

definition CAN_StartChip :: "sja \<Rightarrow> sja" where
  "CAN_StartChip c = (let c = snd (read_irq c);
     c = c\<lparr>s_irq_enable := s_irq_enable c OR (0x08 + 0x04 + 0x02 + 0x01)\<rparr>
     in c\<lparr>s_mode := s_mode c AND NOT CAN_RESET_REQUEST\<rparr>)"

text \<open>\<open>can_dev_init\<close>: \<open>Baud\<close> is the speed asked for, the acceptance mask lets everything in.\<close>

definition can_dev_init :: "nat \<Rightarrow> int \<Rightarrow> sja \<Rightarrow> sja option" where
  "can_dev_init isopen bit_speed c = do {
     (r, c) \<leftarrow> CAN_ChipReset isopen 0xda bit_speed 0x00000000 0xFFFFFFFF c;
     Some (if r < 0 then c else CAN_StartChip c)
   }"

subsection \<open>The interrupt handler\<close>

definition count_lost :: "(sja, 'e) can_attr \<Rightarrow> (sja, 'e) can_attr" where
  "count_lost a = a\<lparr>err_count := (err_count a)\<lparr>rx_message_lost_count := rx_message_lost_count (err_count a) + 1\<rparr>\<rparr>"

definition count_rx :: "(sja, 'e) can_attr \<Rightarrow> (sja, 'e) can_attr" where
  "count_rx a = a\<lparr>err_count := (err_count a)\<lparr>rx_interrupt_count := rx_interrupt_count (err_count a) + 1\<rparr>\<rparr>"

definition count_tx :: "(sja, 'e) can_attr \<Rightarrow> (sja, 'e) can_attr" where
  "count_tx a = a\<lparr>err_count := (err_count a)\<lparr>tx_interrupt_count := tx_interrupt_count (err_count a) + 1\<rparr>\<rparr>"

definition count_in_handler :: "(sja, 'e) can_attr \<Rightarrow> (sja, 'e) can_attr" where
  "count_in_handler a = a\<lparr>err_count := (err_count a)\<lparr>intr_in_handler_count := intr_in_handler_count (err_count a) + 1\<rparr>\<rparr>"

definition count_err :: "(sja, 'e) can_attr \<Rightarrow> (sja, 'e) can_attr" where
  "count_err a = a\<lparr>err_count := (err_count a)\<lparr>shadow_buffer_count := shadow_buffer_count (err_count a) + 1\<rparr>\<rparr>"

text \<open>
  One pass of the loop of \<open>can_dev_interrupt\<close> for the value \<open>ir_val\<close> of the interrupt register: the
  messages received, whether the handler returns 0 at once after a bus-off reset, and the state.
  \<open>status_val\<close> is only assigned in a trace build; it is the uninitialised variable, a parameter.
\<close>

definition irq_pass :: "u8 \<Rightarrow> u8 list \<Rightarrow> int \<Rightarrow> int \<Rightarrow> nat \<Rightarrow> int \<Rightarrow> u8 \<Rightarrow> (sja, 'e) can_attr \<Rightarrow>
    (int \<times> bool \<times> (sja, 'e) can_attr) option" where
  "irq_pass status_val junk jerr now isopen baud ir_val a = do {
     let a = (if ir_val AND CAN_OVERRUN_INT \<noteq> 0
              then count_lost (a\<lparr>chip := write_cmd CAN_CLEAR_OVERRUN_STATUS (chip a)\<rparr>) else a);
     (n, a) \<leftarrow> (if ir_val AND CAN_RECEIVE_INT \<noteq> 0 then do {
            a \<leftarrow> rx_process_interrupt junk jerr (count_rx a);
            Some (1, a\<lparr>chip := write_cmd CAN_RELEASE_RECEIVE_BUFFER (chip a)\<rparr>)
          } else Some (0, a));
     a \<leftarrow> (if ir_val AND CAN_TRANSMIT_INT \<noteq> 0 then tx_process_interrupt sja_send now (count_tx a) else Some a);
     if ir_val AND CAN_ERROR_INT \<noteq> 0 then do {
       let a = count_err a;
       if status_val AND CAN_BUS_STATUS_BIT \<noteq> 0 then do {
         (r, c) \<leftarrow> CAN_ChipReset isopen 0xda baud 0x00000000 0xFFFFFFFF (chip a);
         Some (n, True, a\<lparr>chip := if r < 0 then c else CAN_StartChip c\<rparr>)
       } else Some (n, False, a)
     } else Some (n, False, a)
   }"

text \<open>The loop: \<open>i\<close> passes done, \<open>rmc\<close> the receive message counter read on entry.\<close>

function irq_loop :: "u8 \<Rightarrow> u8 list \<Rightarrow> int \<Rightarrow> int \<Rightarrow> nat \<Rightarrow> int \<Rightarrow> nat \<Rightarrow> nat \<Rightarrow> int \<Rightarrow> u8 \<Rightarrow> (sja, 'e) can_attr \<Rightarrow>
    (int \<times> (sja, 'e) can_attr) option" where
  "irq_loop status_val junk jerr now isopen baud rmc i retval ir_val a =
     (if ir_val = 0 then Some (retval, a) else do {
        let a = (if i > 0 then count_in_handler a else a);
        (n, reset, a) \<leftarrow> irq_pass status_val junk jerr now isopen baud ir_val a;
        if reset then Some (0, a)
        else if i + 1 > rmc then Some (retval + n, a)
        else let (ir_val, c) = read_irq (chip a) in
          irq_loop status_val junk jerr now isopen baud rmc (i + 1) (retval + n) ir_val (a\<lparr>chip := c\<rparr>)
      })"
  by pat_completeness auto
termination by (relation "measure (\<lambda>(sv, j, je, t, o1, b, rmc, i, r, v, a). Suc rmc - i)") auto

declare irq_loop.simps [simp del]

definition can_dev_interrupt :: "u8 \<Rightarrow> u8 list \<Rightarrow> int \<Rightarrow> int \<Rightarrow> nat \<Rightarrow> int \<Rightarrow> (sja, 'e) can_attr \<Rightarrow>
    (int \<times> (sja, 'e) can_attr) option" where
  "can_dev_interrupt status_val junk jerr now isopen baud a = (let (ir_val, c) = read_irq (chip a) in
     irq_loop status_val junk jerr now isopen baud (unat (s_rmc c)) 0 0 ir_val (a\<lparr>chip := c\<rparr>))"

subsection \<open>A frame read back is the message sent\<close>

definition sja_ready :: "sja \<Rightarrow> bool" where
  "sja_ready c \<longleftrightarrow> s_mode c AND CAN_RESET_REQUEST = 0 \<and> length (s_tx c) = 13"

text \<open>What is on the wire, read with the receive routine of the same driver.\<close>

definition sja_sent :: "sja \<Rightarrow> (u32 \<times> u8 list) list" where
  "sja_sent c = map (\<lambda>w. wire (sja_decode (replicate 8 0) 0 w)) (s_log c)"

definition overwrite :: "nat \<Rightarrow> 'b list \<Rightarrow> 'b list \<Rightarrow> 'b list" where
  "overwrite i vs w = take i w @ vs @ drop (i + length vs) w"

lemma write_win_tx:
  "s_mode c AND CAN_RESET_REQUEST = 0 \<Longrightarrow> length (s_tx c) = 13 \<Longrightarrow> i + length vs \<le> 13 \<Longrightarrow>
   write_win i vs c = Some (c\<lparr>s_tx := overwrite i vs (s_tx c)\<rparr>)"
proof (induction vs arbitrary: i c)
  case Nil
  then show ?case by (simp add: overwrite_def)
next
  case (Cons v vs)
  let ?c = "c\<lparr>s_tx := (s_tx c)[i := v]\<rparr>"
  have "write_win (i + 1) vs ?c = Some (?c\<lparr>s_tx := overwrite (i + 1) vs (s_tx ?c)\<rparr>)"
    by (rule Cons.IH) (use Cons.prems in auto)
  moreover have "overwrite (i + 1) vs ((s_tx c)[i := v]) = overwrite i (v # vs) (s_tx c)"
    using Cons.prems by (simp add: overwrite_def take_Suc_conv_app_nth drop_update_cancel)
  ultimately show ?case using Cons.prems by auto
qed

lemma size_code:
  fixes s :: u8
  assumes "s \<le> 8"
  shows "(0x80 + s) AND 0x0f = s" "(0x80 + s) AND 0x80 \<noteq> 0" "s AND 0x0f = s" "s AND 0x80 = 0"
proof -
  have "unat s \<le> 8" using assms by (simp add: word_le_nat_alt)
  then have "unat s \<in> {0,1,2,3,4,5,6,7,8}" by auto
  moreover have "s = of_nat (unat s)" by simp
  ultimately have "s \<in> of_nat ` {0,1,2,3,4,5,6,7,8}" by (metis image_eqI)
  then have "s \<in> {0,1,2,3,4,5,6,7,8}" by simp
  then show "(0x80 + s) AND 0x0f = s" "(0x80 + s) AND 0x80 \<noteq> 0" "s AND 0x0f = s" "s AND 0x80 = 0" by auto
qed

lemma list13: "length w = 13 \<Longrightarrow> \<exists>a b c d e r. w = a # b # c # d # e # r \<and> length r = 8"
  by (cases w; simp; cases "tl w"; simp; cases "tl (tl w)"; simp; cases "tl (tl (tl w))"; simp;
      cases "tl (tl (tl (tl w)))") auto

text \<open>The header bytes that \<open>can_send\<close> writes.\<close>

definition sja_hdr :: "can_msg \<Rightarrow> u8 list" where
  "sja_hdr m = (if IS_EXTENDED_FRAME m
      then [0x80 + cm_size m, ucast (drop_bit 21 (cm_id m)), ucast (drop_bit 13 (cm_id m)),
            ucast (drop_bit 5 (cm_id m)), ucast (push_bit 3 (cm_id m)) AND 0xff]
      else [0x00 + cm_size m, ucast (drop_bit 3 (cm_id m)), ucast (push_bit 5 (cm_id m)) AND 0xe0])"

lemma sja_send_alt:
  "sja_send m c = do {
     c \<leftarrow> write_win 0 (sja_hdr m) c;
     if length (cm_data m) < unat (cm_size m) then None else do {
       c \<leftarrow> write_win (length (sja_hdr m)) (take (unat (cm_size m)) (cm_data m)) c;
       Some (write_cmd CAN_TRANSMISSION_REQUEST c)
     }
   }"
proof -
  have l: "length (sja_hdr m) = (if IS_EXTENDED_FRAME m then 5 else 3)" by (simp add: sja_hdr_def)
  show ?thesis unfolding l
    by (cases "IS_EXTENDED_FRAME m")
       (simp_all only: sja_send_def sja_hdr_def Let_def if_True if_False bind_assoc bind.bind_lunit prod.case simp_thms)
qed

lemma sja_frame_back:
  assumes m: "can_msg_ok m" and w: "length w = 13"
    and hdr_def: "hdr = sja_hdr m" and r_def: "r = sja_decode junk jerr (overwrite (length hdr) (take (unat (cm_size m)) (cm_data m)) (overwrite 0 hdr w))"
  shows "wire r = wire m \<and> cm_size r = cm_size m \<and> (length junk = 8 \<longrightarrow> length (cm_data r) = 8)"
proof -
  let ?n = "unat (cm_size m)"
  have d: "length (cm_data m) = 8" and s: "cm_size m \<le> 8" using m by (auto simp: can_msg_ok_def)
  have n: "?n \<le> 8" using s by (simp add: word_le_nat_alt)
  obtain a b c e f tl_w where wl: "w = a # b # c # e # f # tl_w" "length tl_w = 8" using list13[OF w] by blast
  show ?thesis
  proof (cases "IS_EXTENDED_FRAME m")
    case True
    have bits: "bit (cm_id m) 31" "\<not> bit (cm_id m) 29" "\<not> bit (cm_id m) 30"
      using True m bit_unat_small[of "CAN_ID m" 29 29] bit_unat_small[of "CAN_ID m" 29 30]
      by (auto simp: IS_EXTENDED_FRAME_def ext_flag_bit can_msg_ok_def CAN_ID_def bit_and_iff bit_not_iff bit_ext_flag)
    have W: "overwrite (length hdr) (take ?n (cm_data m)) (overwrite 0 hdr w) =
        hdr @ take ?n (cm_data m) @ drop ?n tl_w"
      using wl d n True by (simp add: overwrite_def hdr_def sja_hdr_def)
    show ?thesis unfolding r_def W using True d n size_code[OF s] ext_id_bytes[OF bits]
      by (simp add: hdr_def sja_hdr_def sja_decode_def wire_def SET_EXTENDED_FRAME_def Let_def)
  next
    case False
    have bits: "\<And>k. 11 \<le> k \<Longrightarrow> \<not> bit (cm_id m) k"
      using False m bit_unat_small[of "cm_id m" 11] by (auto simp: can_msg_ok_def)
    have W: "overwrite (length hdr) (take ?n (cm_data m)) (overwrite 0 hdr w) =
        hdr @ take ?n (cm_data m) @ drop ?n (e # f # tl_w)"
      using wl d n False by (simp add: overwrite_def hdr_def sja_hdr_def)
    show ?thesis unfolding r_def W using False d n size_code[OF s] std_id_bytes[OF bits]
      by (simp add: hdr_def sja_hdr_def sja_decode_def wire_def Let_def)
  qed
qed

lemma sja_send_law:
  assumes c: "sja_ready c" and m: "can_msg_ok m"
  shows "\<exists>c'. sja_send m c = Some c' \<and> sja_sent c' = sja_sent c @ [wire m] \<and> sja_ready c'"
proof -
  let ?n = "unat (cm_size m)"
  define hdr where "hdr = sja_hdr m"
  have d: "length (cm_data m) = 8" "?n \<le> 8" using m by (auto simp: can_msg_ok_def word_le_nat_alt)
  have R: "s_mode c AND CAN_RESET_REQUEST = 0" "length (s_tx c) = 13" using c by (auto simp: sja_ready_def)
  let ?c1 = "c\<lparr>s_tx := overwrite 0 hdr (s_tx c)\<rparr>"
  have hl: "length hdr \<le> 5" by (simp add: hdr_def sja_hdr_def)
  have w1: "write_win 0 hdr c = Some ?c1" by (rule write_win_tx) (use R hl in auto)
  have l1: "length (s_tx ?c1) = 13" using R hl by (simp add: overwrite_def)
  let ?c2 = "?c1\<lparr>s_tx := overwrite (length hdr) (take ?n (cm_data m)) (s_tx ?c1)\<rparr>"
  have w2: "write_win (length hdr) (take ?n (cm_data m)) ?c1 = Some ?c2"
    by (rule write_win_tx) (use R hl l1 d in auto)
  have l2: "length (s_tx ?c2) = 13" using l1 hl d by (simp add: overwrite_def)
  have "sja_send m c = Some (write_cmd CAN_TRANSMISSION_REQUEST ?c2)"
    using w1 w2 d by (simp add: sja_send_alt hdr_def)
  moreover have "sja_sent (write_cmd CAN_TRANSMISSION_REQUEST ?c2) = sja_sent c @ [wire m]"
    using sja_frame_back[OF m R(2) hdr_def refl] by (simp add: write_cmd_def sja_sent_def)
  moreover have "sja_ready (write_cmd CAN_TRANSMISSION_REQUEST ?c2)"
    using R l2 by (simp add: write_cmd_def sja_ready_def)
  ultimately show ?thesis by blast
qed

interpretation sja: can_chip sja_send sja_sent sja_ready
  by unfold_locales (fact sja_send_law)

subsection \<open>From one node to another\<close>

text \<open>
  A receive interrupt with a frame in the window: the message goes through the filter into the
  receive queue and the window moves on to the next frame.
\<close>

lemma irq_pass_receive:
  assumes "in_rep a xs" "s_rxq (chip a) = f # fs" "passes a (sja_decode junk jerr f)"
  shows "\<exists>a'. irq_pass st junk jerr now isopen baud CAN_RECEIVE_INT a = Some (1, False, a') \<and>
    in_rep a' (keep_last CAN_IN_BUFFER_SIZE (xs @ [sja_decode junk jerr f])) \<and> s_rxq (chip a') = fs \<and>
    rx_interrupt_count (err_count a') = rx_interrupt_count (err_count a) + 1 \<and> s_irqs (chip a') = s_irqs (chip a)"
proof -
  let ?m = "sja_decode junk jerr f"
  have p: "passes (count_rx a) ?m" "in_rep (count_rx a) xs" "rx_window (chip (count_rx a)) = f"
    using assms by (simp_all add: count_rx_def passes_def rx_window_def)
  obtain q where q: "can_new_msg ?m (count_rx a) = Some ((count_rx a)\<lparr>in_buff := q\<rparr>)"
    "cq_rep CAN_IN_BUFFER_SIZE q (keep_last CAN_IN_BUFFER_SIZE (xs @ [?m]))"
    using can_new_msg_spec[OF p(2), of ?m] p(1) by auto
  have z: "(CAN_RECEIVE_INT AND CAN_OVERRUN_INT) = 0" "(CAN_RECEIVE_INT AND CAN_RECEIVE_INT) \<noteq> 0"
    "(CAN_RECEIVE_INT AND CAN_TRANSMIT_INT) = 0" "(CAN_RECEIVE_INT AND CAN_ERROR_INT) = 0" by simp_all
  show ?thesis using q p(3) assms(2) z
    by (simp add: irq_pass_def rx_process_interrupt_def write_cmd_def count_rx_def)
qed

lemma irq_loop_idle: "irq_loop st junk jerr now isopen baud rmc i retval 0 a = Some (retval, a)"
  by (subst irq_loop.simps) simp

lemma can_dev_interrupt_receive:
  assumes "in_rep a xs" "s_rxq (chip a) = f # fs" "passes a (sja_decode junk jerr f)" "s_irqs (chip a) = [CAN_RECEIVE_INT]"
  shows "\<exists>a'. can_dev_interrupt st junk jerr now isopen baud a = Some (1, a') \<and>
    in_rep a' (keep_last CAN_IN_BUFFER_SIZE (xs @ [sja_decode junk jerr f])) \<and> s_rxq (chip a') = fs"
proof -
  let ?a = "a\<lparr>chip := (chip a)\<lparr>s_irqs := []\<rparr>\<rparr>"
  have "in_rep ?a xs" "s_rxq (chip ?a) = f # fs" "passes ?a (sja_decode junk jerr f)"
    using assms by (simp_all add: passes_def)
  from irq_pass_receive[OF this, of st now isopen baud] obtain a' where
    p: "irq_pass st junk jerr now isopen baud CAN_RECEIVE_INT ?a = Some (1, False, a')"
    "in_rep a' (keep_last CAN_IN_BUFFER_SIZE (xs @ [sja_decode junk jerr f]))" "s_rxq (chip a') = fs"
    "s_irqs (chip a') = []" by auto
  have n: "(CAN_RECEIVE_INT :: u8) \<noteq> 0" by simp
  have "can_dev_interrupt st junk jerr now isopen baud a = Some (1, a')"
    using p(1,4) n assms(4)
    by (simp add: can_dev_interrupt_def read_irq_def irq_loop.simps[of _ _ _ _ _ _ _ 0] irq_loop_idle)
  then show ?thesis using p by blast
qed

lemma sja_send_log:
  assumes c: "sja_ready c" and m: "can_msg_ok m"
  shows "\<exists>c' f. sja_send m c = Some c' \<and> s_log c' = s_log c @ [f] \<and>
    (\<forall>junk jerr. length junk = 8 \<longrightarrow> wire (sja_decode junk jerr f) = wire m \<and>
       cm_size (sja_decode junk jerr f) = cm_size m \<and> length (cm_data (sja_decode junk jerr f)) = 8)"
proof -
  let ?n = "unat (cm_size m)" and ?hdr = "sja_hdr m"
  have d: "length (cm_data m) = 8" "?n \<le> 8" using m by (auto simp: can_msg_ok_def word_le_nat_alt)
  have R: "s_mode c AND CAN_RESET_REQUEST = 0" "length (s_tx c) = 13" using c by (auto simp: sja_ready_def)
  let ?c1 = "c\<lparr>s_tx := overwrite 0 ?hdr (s_tx c)\<rparr>"
  have hl: "length ?hdr \<le> 5" by (simp add: sja_hdr_def)
  have w1: "write_win 0 ?hdr c = Some ?c1" by (rule write_win_tx) (use R hl in auto)
  have l1: "length (s_tx ?c1) = 13" using R hl by (simp add: overwrite_def)
  let ?c2 = "?c1\<lparr>s_tx := overwrite (length ?hdr) (take ?n (cm_data m)) (s_tx ?c1)\<rparr>"
  have w2: "write_win (length ?hdr) (take ?n (cm_data m)) ?c1 = Some ?c2"
    by (rule write_win_tx) (use R hl l1 d in auto)
  have "sja_send m c = Some (write_cmd CAN_TRANSMISSION_REQUEST ?c2)"
    using w1 w2 d by (simp add: sja_send_alt)
  then show ?thesis using sja_frame_back[OF m R(2) refl refl] by (auto simp: write_cmd_def)
qed

lemma write_win_acc:
  "s_mode c AND CAN_RESET_REQUEST \<noteq> 0 \<Longrightarrow> length (s_acc c) = 13 \<Longrightarrow> i + length vs \<le> 13 \<Longrightarrow>
   write_win i vs c = Some (c\<lparr>s_acc := overwrite i vs (s_acc c)\<rparr>)"
proof (induction vs arbitrary: i c)
  case Nil
  then show ?case by (simp add: overwrite_def)
next
  case (Cons v vs)
  let ?c = "c\<lparr>s_acc := (s_acc c)[i := v]\<rparr>"
  have "write_win (i + 1) vs ?c = Some (?c\<lparr>s_acc := overwrite (i + 1) vs (s_acc ?c)\<rparr>)"
    by (rule Cons.IH) (use Cons.prems in auto)
  moreover have "overwrite (i + 1) vs ((s_acc c)[i := v]) = overwrite i (v # vs) (s_acc c)"
    using Cons.prems by (simp add: overwrite_def take_Suc_conv_app_nth drop_update_cancel)
  ultimately show ?case using Cons.prems by auto
qed

lemma CAN_ChipReset_spec:
  assumes "length (s_acc c) = 13"
  shows "CAN_ChipReset isopen outc baud 0 0xFFFFFFFF c = Some (0, c\<lparr>s_mode := 0x09,
      s_outc := (if outc = 0 then 0xda else outc), s_clk := 0xC0, s_tim0 := fst (CanTiming baud), s_tim1 := snd (CanTiming baud),
      s_acc := overwrite 0 [0, 0, 0, 0, 0xff, 0xff, 0xff, 0xff] (s_acc c)\<rparr>)"
proof -
  let ?c = "c\<lparr>s_mode := 0x09, s_outc := (if outc = 0 then 0xda else outc), s_clk := 0xC0,
      s_tim0 := fst (CanTiming baud), s_tim1 := snd (CanTiming baud)\<rparr>"
  have ff: "[ucast (drop_bit 24 (0 :: u32)), ucast (drop_bit 16 (0 :: u32)), ucast (drop_bit 8 (0 :: u32)), ucast (0 :: u32),
      ucast (drop_bit 24 (0xFFFFFFFF :: u32)), ucast (drop_bit 16 (0xFFFFFFFF :: u32)), ucast (drop_bit 8 (0xFFFFFFFF :: u32)),
      ucast (0xFFFFFFFF :: u32)] = [0, 0, 0, 0, 0xff, 0xff, 0xff, 0xff :: u8]" by simp
  have "CAN_SetMask 0 0xFFFFFFFF ?c = Some (?c\<lparr>s_acc := overwrite 0 [0, 0, 0, 0, 0xff, 0xff, 0xff, 0xff] (s_acc c)\<rparr>)"
    unfolding CAN_SetMask_def ff using assms by (subst write_win_acc) simp_all
  then show ?thesis by (cases "outc = 0") (simp_all add: CAN_ChipReset_def CAN_SetTiming_def Let_def)
qed

lemma can_dev_init_spec:
  assumes "length (s_acc c) = 13" "length (s_tx c) = 13"
  shows "\<exists>c'. can_dev_init isopen baud c = Some c' \<and> sja_ready c' \<and> s_mode c' = 0x08 \<and>
    take 8 (s_acc c') = [0, 0, 0, 0, 0xff, 0xff, 0xff, 0xff] \<and> s_irq_enable c' AND 0x0f = 0x0f \<and>
    (s_tim0 c', s_tim1 c') = CanTiming baud \<and> s_irqs c' = tl (s_irqs c) \<and> s_log c' = s_log c"
proof -
  have e: "(x OR 0x0f) AND 0x0f = (0x0f :: u8)" for x :: u8
    by (rule bit_word_eqI) (auto simp: bit_simps)
  show ?thesis using assms
    by (cases "s_irqs c") (simp_all add: can_dev_init_def CAN_ChipReset_spec CAN_StartChip_def read_irq_def
        sja_ready_def overwrite_def e Let_def)
qed

end
