(* ===== verification/CanClient.thy ===== *)
theory CanClient
  imports Sja1000
begin

text \<open>
  can/client/can_client.c: what a client hands to the driver and makes of its replies.  The result
  of the \<open>devctl\<close> call (its status and the message buffer after it) is an argument of \<open>can_read\<close>;
  \<open>junk\<close> is the uninitialised part of the message built on the stack.
\<close>

definition can_write_msg :: "u8 list \<Rightarrow> int \<Rightarrow> u32 \<Rightarrow> bool \<Rightarrow> u8 list \<Rightarrow> u8 \<Rightarrow> can_msg option" where
  "can_write_msg junk jerr cid extended data size1 =
     (let msz = (if size1 > 8 then 8 else size1);
          msg = \<lparr>cm_id = cid, cm_size = msz, cm_data = junk, cm_error = jerr\<rparr>;
          msg = (if extended then SET_EXTENDED_FRAME msg else msg)
      in if length data < unat msz then None
         else Some (msg\<lparr>cm_data := take (unat msz) data @ drop (unat msz) junk\<rparr>))"

text \<open>The returned size (or -1), and what is stored through \<open>id\<close>, \<open>extended\<close> and \<open>data\<close>.\<close>

definition can_read :: "int \<Rightarrow> int \<Rightarrow> can_msg \<Rightarrow> u8 \<Rightarrow> int \<times> (u32 \<times> bool \<times> u8 list) option" where
  "can_read rcvid status msg size1 =
     (if rcvid \<noteq> 0 then (- 1, None)
      else if status \<noteq> EOK then (- 1, None)
      else if cm_error msg \<noteq> 0 then (- 1, None)
      else (int (unat (cm_size msg)), Some (CAN_ID msg, IS_EXTENDED_FRAME msg,
              take (if size1 > 8 then 8 else unat size1) (cm_data msg))))"

definition can_set_filter :: "u32 \<Rightarrow> u32 \<Rightarrow> can_filter" where
  "can_set_filter cid amask = \<lparr>cf_id = cid, cf_mask = amask\<rparr>"

text \<open>\<open>can_open\<close> for reading: clear the filter, empty the queue, arm the event of the channel.\<close>

definition can_open_read :: "(can_msg \<Rightarrow> 'c \<Rightarrow> 'c option) \<Rightarrow> int \<Rightarrow> 'e \<Rightarrow> ('c, 'e) can_attr \<Rightarrow> ('c, 'e) can_attr option" where
  "can_open_read send rcvid ev a = do {
     (r, a) \<leftarrow> io_devctl send None rcvid 0 0 (D_FILTER (can_set_filter 0 0)) a;
     (r, a) \<leftarrow> io_devctl send None rcvid 0 0 D_EMPTY_Q a;
     (r, a) \<leftarrow> io_devctl send None rcvid 0 0 (D_ARM ev) a;
     Some a
   }"

lemma can_open_read_spec:
  assumes "in_rep a xs"
  shows "\<exists>a'. can_open_read send rcvid ev a = Some a' \<and> in_rep a' [] \<and> passes a' m \<and> notify_pocb a' = Some (rcvid, ev)"
proof -
  let ?a = "a\<lparr>ca_info := (ca_info a)\<lparr>ci_filter := can_set_filter 0 0\<rparr>\<rparr>"
  obtain j q where "queue_drain can_cq_pop_first 0 (in_buff a) = Some (j, q)" "cq_rep CAN_IN_BUFFER_SIZE q []"
    using cq.drain_law[of CAN_IN_BUFFER_SIZE "in_buff a" xs 0] assms by auto
  then show ?thesis
    by (auto simp: can_open_read_def io_devctl_def can_dev_add_filter_def can_dev_empty_q_def can_dev_arm_def
        passes_def can_set_filter_def)
qed

subsection \<open>From a client to a client\<close>

text \<open>The arguments a write transmits unchanged.\<close>

definition write_ok :: "u32 \<Rightarrow> bool \<Rightarrow> u8 list \<Rightarrow> u8 \<Rightarrow> bool" where
  "write_ok cid extended data size1 \<longleftrightarrow> unat cid < (if extended then 2 ^ 29 else 2 ^ 11) \<and>
     size1 \<le> 8 \<and> length data = unat size1"

lemma can_write_msg_spec:
  assumes ok: "write_ok cid extended data n" and j: "length junk = 8"
  shows "\<exists>m. can_write_msg junk jerr cid extended data n = Some m \<and> can_msg_ok m \<and> cm_size m = n \<and>
    take (unat n) (cm_data m) = data \<and> CAN_ID m = cid \<and> IS_EXTENDED_FRAME m = extended"
proof -
  have n: "n \<le> 8" "unat n \<le> 8" "length data = unat n" using ok by (auto simp: write_ok_def word_le_nat_alt)
  have lt: "unat cid < 2 ^ 29" using ok by (auto simp: write_ok_def split: if_splits)
  have hi: "\<not> bit cid k" if "29 \<le> k" for k using bit_unat_small[OF lt that] .
  have a1: "(cid OR 0x80000000) AND NOT 0x80000000 = cid"
  proof (rule bit_word_eqI, goal_cases)
    case (1 k)
    then show ?case unfolding bit_or_iff bit_and_iff bit_not_iff bit_ext_flag using hi[of k] by auto
  qed
  have a2: "cid AND NOT 0x80000000 = cid"
  proof (rule bit_word_eqI, goal_cases)
    case (1 k)
    then show ?case unfolding bit_and_iff bit_not_iff bit_ext_flag using hi[of k] by auto
  qed
  have b: "(cid OR 0x80000000) AND 0x80000000 \<noteq> 0" "cid AND 0x80000000 = 0"
    using hi[of 31] ext_flag_bit[of cid] ext_flag_bit[of "cid OR 0x80000000"] by (auto simp: bit_or_iff bit_ext_flag)
  have data: "length (take (unat n) data @ drop (unat n) junk) = 8"
    "take (unat n) (take (unat n) data @ drop (unat n) junk) = data" "\<not> 8 < n" "\<not> length data < unat n"
    using n j by auto
  show ?thesis
  proof (cases extended)
    case True
    let ?m = "\<lparr>cm_id = cid OR 0x80000000, cm_size = n, cm_data = take (unat n) data @ drop (unat n) junk, cm_error = jerr\<rparr>"
    have "can_write_msg junk jerr cid extended data n = Some ?m"
      using True data by (simp add: can_write_msg_def Let_def SET_EXTENDED_FRAME_def)
    moreover have "IS_EXTENDED_FRAME ?m" "CAN_ID ?m = cid"
      unfolding IS_EXTENDED_FRAME_def CAN_ID_def can_msg.select_convs using a1 b by auto
    ultimately show ?thesis using True data n(1) lt by (simp add: can_msg_ok_def)
  next
    case False
    let ?m = "\<lparr>cm_id = cid, cm_size = n, cm_data = take (unat n) data @ drop (unat n) junk, cm_error = jerr\<rparr>"
    have "can_write_msg junk jerr cid extended data n = Some ?m"
      using False data by (simp add: can_write_msg_def Let_def)
    moreover have "\<not> IS_EXTENDED_FRAME ?m" "CAN_ID ?m = cid"
      unfolding IS_EXTENDED_FRAME_def CAN_ID_def can_msg.select_convs using a2 b by auto
    ultimately show ?thesis using False data n(1) ok by (simp add: can_msg_ok_def write_ok_def)
  qed
qed

lemma wire_eq_read:
  assumes "wire m = wire m'" "cm_size m \<le> 8" "cm_size m' \<le> 8" "length (cm_data m) = 8" "length (cm_data m') = 8"
  shows "cm_id m = cm_id m'" "cm_size m = cm_size m'"
    "take (unat (cm_size m)) (cm_data m) = take (unat (cm_size m)) (cm_data m')"
proof -
  have le: "unat (cm_size m) \<le> 8" "unat (cm_size m') \<le> 8"
    using assms(2,3) by (simp_all add: word_le_nat_alt)
  have tk: "take (unat (cm_size m)) (cm_data m) = take (unat (cm_size m')) (cm_data m')"
    and cid: "cm_id m = cm_id m'" using assms(1) by (simp_all add: wire_def)
  have "length (take (unat (cm_size m)) (cm_data m)) = unat (cm_size m)"
    "length (take (unat (cm_size m')) (cm_data m')) = unat (cm_size m')" using assms(4,5) le by simp_all
  then have u: "unat (cm_size m) = unat (cm_size m')" using tk by simp
  show "cm_id m = cm_id m'" by (rule cid)
  show "cm_size m = cm_size m'" using u by (simp add: word_unat_eq_iff)
  show "take (unat (cm_size m)) (cm_data m) = take (unat (cm_size m)) (cm_data m')" using tk u by simp
qed

text \<open>The transmitting half: the frame on the wire decodes to the arguments of the write.\<close>

lemma write_to_frame:
  assumes ok: "write_ok cid extended data n" and j: "length junk = 8"
    and a: "out_rep a []" "sja_ready (chip a)"
  shows "\<exists>m a1 f. can_write_msg junk jerr cid extended data n = Some m \<and>
    io_devctl sja_send None rcvid now1 now2 (D_WRITE m) a = Some (R_STATUS EOK, a1) \<and>
    s_log (chip a1) = s_log (chip a) @ [f] \<and>
    (\<forall>junk' jerr'. length junk' = 8 \<longrightarrow> (let r = sja_decode junk' jerr' f in
       CAN_ID r = cid \<and> IS_EXTENDED_FRAME r = extended \<and> cm_size r = n \<and> take (unat n) (cm_data r) = data))"
proof -
  obtain m where m: "can_write_msg junk jerr cid extended data n = Some m" "can_msg_ok m" "cm_size m = n"
    "take (unat n) (cm_data m) = data" "CAN_ID m = cid" "IS_EXTENDED_FRAME m = extended"
    using can_write_msg_spec[OF ok j] by blast
  let ?m = "m\<lparr>cm_error := 0\<rparr>"
  have "keep_last CAN_OUT_BUFFER_SIZE ([] @ [?m]) = [?m]" by (simp add: keep_last_def)
  then obtain q where q: "can_cq_add (out_buff a) ?m = Some q" "cq_rep CAN_OUT_BUFFER_SIZE q [?m]"
    using can_cq_add_spec[OF a(1), of ?m] by auto
  obtain c f where f: "sja_send ?m (chip a) = Some c" "s_log c = s_log (chip a) @ [f]"
    "\<And>junk' jerr'. length junk' = 8 \<Longrightarrow> wire (sja_decode junk' jerr' f) = wire ?m \<and>
       cm_size (sja_decode junk' jerr' f) = cm_size ?m \<and> length (cm_data (sja_decode junk' jerr' f)) = 8"
    using sja_send_log[OF a(2), of ?m] m(2) by auto
  have "io_devctl sja_send None rcvid now1 now2 (D_WRITE m) a =
      Some (R_STATUS EOK, a\<lparr>out_buff := q, chip := c, last_time_can_sent := now2\<rparr>)"
    using q(1) cq_rep_count[OF q(2)] can_cq_read_first_spec[OF q(2)] f(1)
    by (simp add: io_devctl_def can_dev_write_def can_send_def)
  moreover have "\<forall>junk' jerr'. length junk' = 8 \<longrightarrow> (let r = sja_decode junk' jerr' f in
      CAN_ID r = cid \<and> IS_EXTENDED_FRAME r = extended \<and> cm_size r = n \<and> take (unat n) (cm_data r) = data)"
  proof (intro allI impI)
    fix junk' :: "u8 list" and jerr' assume j': "length junk' = 8"
    let ?r = "sja_decode junk' jerr' f"
    have w: "wire m = wire ?r" "cm_size m \<le> 8" "cm_size ?r \<le> 8" "length (cm_data m) = 8" "length (cm_data ?r) = 8"
      using f(3)[OF j', of jerr'] m(2) by (auto simp: can_msg_ok_def)
    from wire_eq_read[OF w] m(3-6) show "let r = ?r in
      CAN_ID r = cid \<and> IS_EXTENDED_FRAME r = extended \<and> cm_size r = n \<and> take (unat n) (cm_data r) = data"
      by (simp add: CAN_ID_def IS_EXTENDED_FRAME_def Let_def)
  qed
  moreover have "s_log (chip (a\<lparr>out_buff := q, chip := c, last_time_can_sent := now2\<rparr>)) = s_log (chip a) @ [f]"
    using f(2) by simp
  ultimately show ?thesis using m(1) by blast
qed

text \<open>The receiving half: the interrupt wakes the client, which reads what the frame decodes to.\<close>

lemma frame_to_read:
  assumes b: "in_rep b []" "\<And>m. passes b m" "notify_pocb b = Some (rcvid, ev)"
    and c: "s_rxq (chip b) = f # fs" "s_irqs (chip b) = [CAN_RECEIVE_INT]"
  shows "\<exists>b1 b2. can_handle_interrupt (can_dev_interrupt st junk jerr now isopen baud) (\<lambda>_. True) 0 b =
      Some (EOK, [(rcvid, ev)], b1) \<and>
    io_devctl sja_send None rcvid2 now1 now2 D_READ b1 = Some (R_MSG ((sja_decode junk jerr f)\<lparr>cm_error := 0\<rparr>), b2)"
proof -
  let ?m = "sja_decode junk jerr f"
  have "keep_last CAN_IN_BUFFER_SIZE ([] @ [?m]) = [?m]" by (simp add: keep_last_def)
  then obtain b1 where b1: "can_dev_interrupt st junk jerr now isopen baud b = Some (1, b1)" "in_rep b1 [?m]"
    using can_dev_interrupt_receive[OF b(1) c(1) b(2) c(2), where st = st and junk = junk and jerr = jerr and now = now and isopen = isopen and baud = baud] by auto
  let ?b1 = "b1\<lparr>can_notify_client_err := can_notify_client_err b1 + 0\<rparr>"
  have h: "can_handle_interrupt (can_dev_interrupt st junk jerr now isopen baud) (\<lambda>_. True) 0 b =
      Some (EOK, [(rcvid, ev)], ?b1)"
    using b1(1) b(3) by (simp add: can_handle_interrupt_def)
  have "in_rep ?b1 [?m]" using b1(2) by simp
  from can_dev_read_spec[OF this] h show ?thesis by (auto simp: io_devctl_def)
qed

end
