(* ===== verification/I82527.thy ===== *)
theory I82527
  imports CanTx BitFields
begin

text \<open>
  can/drv_i82527/can_dev.c: the driver of the Intel 82527 chip (the i82527.h registers).  Message object 1
  (registers \<open>0x10\<close> on) transmits, object 15 (\<open>0xF0\<close> on) receives.  The registers written are a
  function from addresses; object 15 reads the oldest frame received and its new-data bit is set as
  long as there is one.  \<open>i_log\<close> collects the transmit object each time its transmission is requested.
\<close>

record i82527 = i_regs :: "nat \<Rightarrow> u8"
  i_rxq :: "u8 list list"
  i_lost :: bool
  i_log :: "u8 list list"
  i_speed :: int
  i_ext :: u8

abbreviation (input) MSG_1 :: nat where "MSG_1 \<equiv> 0x10"
abbreviation (input) MSG_15 :: nat where "MSG_15 \<equiv> 0xF0"
abbreviation (input) CTRL_0_REG :: nat where "CTRL_0_REG \<equiv> 0"
abbreviation (input) CTRL_1_REG :: nat where "CTRL_1_REG \<equiv> 1"
abbreviation (input) CONF_REG :: nat where "CONF_REG \<equiv> 6"
abbreviation (input) DATA0_REG :: nat where "DATA0_REG \<equiv> 7"

text \<open>The sixteen registers of a message object.\<close>

definition msg_object :: "nat \<Rightarrow> (nat \<Rightarrow> u8) \<Rightarrow> u8 list" where
  "msg_object base r = map (\<lambda>i. r (base + i)) [0..<16]"

text \<open>
  Writing \<open>0x66\<close> to control register 1 of object 1 requests its transmission; writing \<open>0xFD\<close> to that
  of object 15 releases the frame just read, writing \<open>0xF7\<close> clears its message-lost bit.
\<close>

definition Write_REG :: "nat \<Rightarrow> u8 \<Rightarrow> i82527 \<Rightarrow> i82527" where
  "Write_REG addr v c = (let c = c\<lparr>i_regs := (i_regs c)(addr := v)\<rparr> in
     if addr = MSG_1 + CTRL_1_REG \<and> v = 0x66 then c\<lparr>i_log := i_log c @ [msg_object MSG_1 (i_regs c)]\<rparr>
     else if addr = MSG_15 + CTRL_1_REG \<and> v = 0xFD then c\<lparr>i_rxq := tl (i_rxq c)\<rparr>
     else if addr = MSG_15 + CTRL_1_REG \<and> v = 0xF7 then c\<lparr>i_lost := False\<rparr>
     else c)"

fun Write_REGs :: "(nat \<times> u8) list \<Rightarrow> i82527 \<Rightarrow> i82527" where
  "Write_REGs [] c = c"
| "Write_REGs ((a, v) # ws) c = Write_REGs ws (Write_REG a v c)"

definition Set_Bit_Speed :: "int \<Rightarrow> i82527 \<Rightarrow> i82527" where
  "Set_Bit_Speed BS c =
     (let (btr0, btr1, speed) =
        (if BS = 1000 then (0x00, 0x14, i_speed c) else if BS = 800 then (0x00, 0x16, i_speed c)
         else if BS = 500 then (0x00, 0x1C, i_speed c) else if BS = 250 then (0x41, 0xD8, i_speed c)
         else if BS = 125 then (0xc3, 0xc9, i_speed c) else if BS = 100 then (0x04, 0x1C, i_speed c)
         else if BS = 50 then (0x09, 0x1C, i_speed c) else if BS = 25 then (0x13, 0x1C, i_speed c)
         else if BS = 20 then (0x18, 0x1C, i_speed c) else if BS = 10 then (0x31, 0x1C, i_speed c)
         else (0x18, 0x1C, 20))
      in Write_REGs [(0x3F, btr0), (0x4F, btr1)] (c\<lparr>i_speed := speed\<rparr>))"

text \<open>The registers \<open>can_dev_init\<close> writes (memory-mapped board) once the chip has left reset.\<close>

definition i_dev_init :: "int \<Rightarrow> u8 \<Rightarrow> i82527 \<Rightarrow> i82527" where
  "i_dev_init bit_speed extended c =
     (let c = c\<lparr>i_speed := bit_speed, i_ext := extended\<rparr>;
          c = Write_REGs [(0x00, 0x41), (0x02, 0), (0x1F, 0), (0x2F, 0), (0x01, 0)] c;
          c = Set_Bit_Speed bit_speed c;
          c = Write_REGs (map (\<lambda>k. (k * 16, 0x55)) [1..<16]) c;
          c = Write_REGs [(0x06, 0xFF), (0x07, 0xFF), (0x08, 0xFF), (0x09, 0xFF), (0x0A, 0xFF), (0x0B, 0xFF),
                (0x0C, 0), (0x0D, 0), (0x0E, 0), (0x0F, 0),
                (MSG_15 + CTRL_0_REG, 0x99), (MSG_15 + CTRL_1_REG, 0x55),
                (MSG_15 + 6, if extended \<noteq> 0 then 0x84 else 0x80), (MSG_1 + 6, 0x88), (0x00, 0x4A)] c
      in c)"

subsection \<open>Sending and receiving\<close>

text \<open>\<open>ID[k]\<close> after \<open>*((unsigned long * ) ID) = x\<close> on the little-endian target.\<close>

definition id_byte :: "nat \<Rightarrow> u32 \<Rightarrow> u8" where
  "id_byte k x = ucast (drop_bit (8 * k) x)"

definition i_send :: "can_msg \<Rightarrow> i82527 \<Rightarrow> i82527 option" where
  "i_send m c =
     (let c = Write_REGs [(MSG_1 + CTRL_0_REG, 0x7D), (MSG_1 + CTRL_1_REG, 0x59)] c;
          x = (if IS_EXTENDED_FRAME m then push_bit 3 (cm_id m) else push_bit 21 (cm_id m));
          c = Write_REGs [(MSG_1 + 2, id_byte 3 x), (MSG_1 + 3, id_byte 2 x), (MSG_1 + 4, id_byte 1 x),
                (MSG_1 + 5, id_byte 0 x)] c
      in if length (cm_data m) < unat (cm_size m) then None
         else let c = Write_REGs (map (\<lambda>i. (MSG_1 + DATA0_REG + i, cm_data m ! i)) [0..<unat (cm_size m)]) c in
           Some (Write_REGs [(MSG_1 + CONF_REG, push_bit 4 (cm_size m) OR 8 OR (if IS_EXTENDED_FRAME m then 4 else 0)),
             (MSG_1 + CTRL_0_REG, 0xA5), (MSG_1 + CTRL_1_REG, 0x66)] c))"

text \<open>The message \<open>Interrupt_Request_Rx\<close> reads from a message object.\<close>

definition i_decode :: "int \<Rightarrow> u8 list \<Rightarrow> can_msg" where
  "i_decode jerr w =
     (let id = push_bit 24 (ucast (w ! 2)) OR push_bit 16 (ucast (w ! 3)) OR push_bit 8 (ucast (w ! 4)) OR
                 push_bit 0 (ucast (w ! 5));
          conf = w ! 6
      in \<lparr>cm_id = (if conf AND 4 \<noteq> 0 then drop_bit 3 id OR 0x80000000 else drop_bit 21 id),
          cm_size = drop_bit 4 conf AND 0x0F, cm_data = take 8 (drop 7 w), cm_error = jerr\<rparr>)"

definition Interrupt_Request_Rx :: "int \<Rightarrow> u8 list \<Rightarrow> (i82527, 'e) can_attr \<Rightarrow> (i82527, 'e) can_attr option" where
  "Interrupt_Request_Rx jerr w a = can_new_msg (i_decode jerr w) a"

subsection \<open>The interrupt handler\<close>

definition add_counts :: "u32 \<Rightarrow> u32 \<Rightarrow> u32 \<Rightarrow> u32 \<Rightarrow> u32 \<Rightarrow> ('c, 'e) can_attr \<Rightarrow> ('c, 'e) can_attr" where
  "add_counts shadow inh rx lost tx a = (let e = err_count a in a\<lparr>err_count := \<lparr>
     shadow_buffer_count = shadow_buffer_count e + shadow, intr_in_handler_count = intr_in_handler_count e + inh,
     rx_interrupt_count = rx_interrupt_count e + rx, rx_message_lost_count = rx_message_lost_count e + lost,
     tx_interrupt_count = tx_interrupt_count e + tx\<rparr>\<rparr>)"

text \<open>\<open>while (Read_REG(MSG_15+CTRL_1_REG) & 0x02)\<close>, one pass per frame; \<open>s\<close> counts the passes.\<close>

fun rx_loop :: "int \<Rightarrow> nat \<Rightarrow> u8 list list \<Rightarrow> (i82527, 'e) can_attr \<Rightarrow> (i82527, 'e) can_attr option" where
  "rx_loop jerr s [] a = Some a"
| "rx_loop jerr s (w # ws) a = do {
     let a = add_counts (if s > 0 then 1 else 0) 0 1 0 0 a;
     a \<leftarrow> Interrupt_Request_Rx jerr w a;
     let a = a\<lparr>chip := Write_REGs [(MSG_15 + CTRL_0_REG, 0xFD), (MSG_15 + CTRL_1_REG, 0xFD)] (chip a)\<rparr>;
     rx_loop jerr (s + 1) ws a
   }"

text \<open>
  \<open>can_dev_interrupt\<close>: the list holds, per pass, what the interrupt register and the status register
  read; a 0 in the interrupt register, or the end of the list, ends the loop.
\<close>

fun int_loop :: "int \<Rightarrow> int \<Rightarrow> nat \<Rightarrow> int \<Rightarrow> (u8 \<times> u8) list \<Rightarrow> (i82527, 'e) can_attr \<Rightarrow>
    (int \<times> (i82527, 'e) can_attr) option" where
  "int_loop jerr now i retval [] a = Some (retval, a)"
| "int_loop jerr now i retval ((iv, st) # vs) a =
     (if iv = 0 then Some (retval, a) else do {
        let a = (if i > 0 then add_counts 0 1 0 0 0 a else a);
        if iv = 0x01 then
          (if st AND 0x80 \<noteq> 0 then
             Some (0, a\<lparr>chip := i_dev_init (i_speed (chip a)) (i_ext (chip a)) (chip a)\<rparr>)
           else let a = (if st AND 0x40 \<noteq> 0 then a\<lparr>chip := Write_REG 0x01 (st AND NOT 0x40) (chip a)\<rparr> else a) in
             int_loop jerr now (i + 1) retval vs a)
        else if iv = 0x02 then do {
          let retval = (if i_rxq (chip a) \<noteq> [] then 1 else retval);
          a \<leftarrow> rx_loop jerr 0 (i_rxq (chip a)) a;
          let a = (if i_lost (chip a)
                   then add_counts 0 0 0 1 0 (a\<lparr>chip := Write_REG (MSG_15 + CTRL_1_REG) 0xF7 (chip a)\<rparr>) else a);
          int_loop jerr now (i + 1) retval vs a
        } else if iv = 0x03 then do {
          let a = a\<lparr>chip := Write_REG (MSG_1 + CTRL_0_REG) 0xFD (chip a)\<rparr>;
          a \<leftarrow> tx_process_interrupt i_send now (add_counts 0 0 0 0 1 a);
          int_loop jerr now (i + 1) retval vs a
        } else if i + 1 > 20 then Some (retval, a)
        else int_loop jerr now (i + 1) retval vs a
      })"

subsection \<open>A frame read back is the message sent\<close>

definition i_sent :: "i82527 \<Rightarrow> (u32 \<times> u8 list) list" where
  "i_sent c = map (\<lambda>w. wire (i_decode 0 w)) (i_log c)"

lemma id_bytes_back:
  fixes x :: u32
  shows "push_bit 24 (ucast (id_byte 3 x)) OR push_bit 16 (ucast (id_byte 2 x)) OR push_bit 8 (ucast (id_byte 1 x)) OR
    push_bit 0 (ucast (id_byte 0 x)) = x"
proof (rule bit_word_eqI, goal_cases)
  case (1 n)
  have b: "bit (push_bit (8 * k) (ucast (id_byte k x)) :: u32) n \<longleftrightarrow> 8 * k \<le> n \<and> n < 8 * k + 8 \<and> bit x n" for k
    using bit_byte_at[of "8 * k" x n] 1 by (simp add: id_byte_def)
  show ?case using b[of 3] b[of 2] b[of 1] b[of 0] 1 by (auto simp: bit_or_iff)
qed

lemma i_conf:
  fixes s :: u8
  assumes "s \<le> 8"
  shows "drop_bit 4 (push_bit 4 s OR 8 OR (if e then 4 else 0)) AND 0x0F = s"
    "(push_bit 4 s OR 8 OR (if e then 4 else 0)) AND 4 \<noteq> 0 \<longleftrightarrow> e"
proof -
  have "unat s \<le> 8" using assms by (simp add: word_le_nat_alt)
  then have "unat s \<in> {0,1,2,3,4,5,6,7,8}" by auto
  moreover have "s = of_nat (unat s)" by simp
  ultimately have "s \<in> of_nat ` {0,1,2,3,4,5,6,7,8}" by (metis image_eqI)
  then have "s \<in> {0,1,2,3,4,5,6,7,8}" by simp
  then show "drop_bit 4 (push_bit 4 s OR 8 OR (if e then 4 else 0)) AND 0x0F = s"
    "(push_bit 4 s OR 8 OR (if e then 4 else 0)) AND 4 \<noteq> 0 \<longleftrightarrow> e" by auto
qed

text \<open>What a sequence of writes that requests nothing leaves in the registers.\<close>

fun reg_writes :: "(nat \<times> u8) list \<Rightarrow> (nat \<Rightarrow> u8) \<Rightarrow> nat \<Rightarrow> u8" where
  "reg_writes [] r = r"
| "reg_writes ((a, v) # ws) r = reg_writes ws (r(a := v))"

lemma Write_REGs_regs:
  "(\<And>a v. (a, v) \<in> set ws \<Longrightarrow> (a, v) \<noteq> (MSG_1 + CTRL_1_REG, 0x66) \<and> a < MSG_15) \<Longrightarrow>
   Write_REGs ws c = c\<lparr>i_regs := reg_writes ws (i_regs c)\<rparr>"
proof (induction ws arbitrary: c)
  case Nil
  then show ?case by simp
next
  case (Cons w ws)
  obtain a v where w: "w = (a, v)" by fastforce
  then have av: "(a, v) \<noteq> (MSG_1 + CTRL_1_REG, 0x66)" "a < MSG_15" using Cons.prems[of a v] by auto
  then have "Write_REG a v c = c\<lparr>i_regs := (i_regs c)(a := v)\<rparr>" by (auto simp: Write_REG_def Let_def)
  moreover have "Write_REGs ws c' = c'\<lparr>i_regs := reg_writes ws (i_regs c')\<rparr>" for c'
    by (rule Cons.IH) (use Cons.prems in auto)
  ultimately show ?case using w by simp
qed

lemma Write_REGs_append: "Write_REGs (us @ vs) c = Write_REGs vs (Write_REGs us c)"
  by (induction us arbitrary: c) auto

lemma reg_writes_append: "reg_writes (us @ vs) r = reg_writes vs (reg_writes us r)"
  by (induction us arbitrary: r) auto

lemma reg_writes_data:
  "reg_writes (map (\<lambda>i. (b + i, d ! i)) [0..<n]) r =
     (\<lambda>a. if b \<le> a \<and> a < b + n then d ! (a - b) else r a)"
proof (induction n)
  case 0
  then show ?case by (auto simp: fun_eq_iff)
next
  case (Suc n)
  then show ?case by (auto simp: reg_writes_append fun_eq_iff)
qed

text \<open>All the writes of \<open>can_send\<close> before the last one, and the last.\<close>

definition send_writes :: "can_msg \<Rightarrow> (nat \<times> u8) list" where
  "send_writes m = (let x = (if IS_EXTENDED_FRAME m then push_bit 3 (cm_id m) else push_bit 21 (cm_id m)) in
     [(MSG_1 + CTRL_0_REG, 0x7D), (MSG_1 + CTRL_1_REG, 0x59),
      (MSG_1 + 2, id_byte 3 x), (MSG_1 + 3, id_byte 2 x), (MSG_1 + 4, id_byte 1 x), (MSG_1 + 5, id_byte 0 x)] @
     map (\<lambda>i. (MSG_1 + DATA0_REG + i, cm_data m ! i)) [0..<unat (cm_size m)] @
     [(MSG_1 + CONF_REG, push_bit 4 (cm_size m) OR 8 OR (if IS_EXTENDED_FRAME m then 4 else 0)),
      (MSG_1 + CTRL_0_REG, 0xA5)])"

lemma i_send_alt:
  "unat (cm_size m) \<le> length (cm_data m) \<Longrightarrow>
   i_send m c = Some (Write_REG (MSG_1 + CTRL_1_REG) 0x66 (Write_REGs (send_writes m) c))"
  by (simp add: i_send_def send_writes_def Let_def Write_REGs_append)

lemma send_writes_object:
  assumes "length (cm_data m) = 8" "unat (cm_size m) \<le> 8"
  shows "\<exists>w. msg_object MSG_1 ((reg_writes (send_writes m) r)(MSG_1 + CTRL_1_REG := v)) = w \<and>
    take (unat (cm_size m)) (drop 7 w) = take (unat (cm_size m)) (cm_data m) \<and>
    w ! 6 = push_bit 4 (cm_size m) OR 8 OR (if IS_EXTENDED_FRAME m then 4 else 0) \<and>
    (\<forall>k < 4. w ! (2 + k) = id_byte (3 - k) (if IS_EXTENDED_FRAME m then push_bit 3 (cm_id m) else push_bit 21 (cm_id m))) \<and>
    length w = 16"
proof -
  let ?w = "msg_object MSG_1 ((reg_writes (send_writes m) r)(MSG_1 + CTRL_1_REG := v))"
  let ?x = "if IS_EXTENDED_FRAME m then push_bit 3 (cm_id m) else push_bit 21 (cm_id m)"
  have n: "?w ! i = ((reg_writes (send_writes m) r)(MSG_1 + CTRL_1_REG := v)) (MSG_1 + i)" if "i < 16" for i
    using that by (simp add: msg_object_def del: upt_Suc)
  have "take (unat (cm_size m)) (drop 7 ?w) = take (unat (cm_size m)) (cm_data m)"
  proof (rule nth_equalityI)
    show "length (take (unat (cm_size m)) (drop 7 ?w)) = length (take (unat (cm_size m)) (cm_data m))"
      using assms by (simp add: msg_object_def)
    fix i assume "i < length (take (unat (cm_size m)) (drop 7 ?w))"
    then have i: "i < unat (cm_size m)" "i < 8" using assms(2) by auto
    then have "?w ! (7 + i) = cm_data m ! i"
      by (subst n) (auto simp: send_writes_def Let_def reg_writes_append reg_writes_data)
    then show "take (unat (cm_size m)) (drop 7 ?w) ! i = take (unat (cm_size m)) (cm_data m) ! i"
      using i by (simp add: msg_object_def)
  qed
  moreover have "?w ! 6 = push_bit 4 (cm_size m) OR 8 OR (if IS_EXTENDED_FRAME m then 4 else 0)"
    by (subst n) (simp_all add: send_writes_def Let_def reg_writes_append)
  moreover have "?w ! (2 + k) = id_byte (3 - k) ?x" if "k < 4" for k
  proof -
    have "k = 0 \<or> k = 1 \<or> k = 2 \<or> k = 3" using that by auto
    then show ?thesis
      by (subst n) (use that in \<open>auto simp: send_writes_def Let_def reg_writes_append reg_writes_data\<close>)
  qed
  moreover have "length ?w = 16" by (simp add: msg_object_def)
  ultimately show ?thesis by blast
qed

lemma i_send_law:
  assumes m: "can_msg_ok m"
  shows "\<exists>c'. i_send m c = Some c' \<and> i_sent c' = i_sent c @ [wire m]"
proof -
  let ?n = "unat (cm_size m)" and ?x = "if IS_EXTENDED_FRAME m then push_bit 3 (cm_id m) else push_bit 21 (cm_id m)"
  have d: "length (cm_data m) = 8" "cm_size m \<le> 8" "?n \<le> 8" using m by (auto simp: can_msg_ok_def word_le_nat_alt)
  have W: "Write_REGs (send_writes m) c = c\<lparr>i_regs := reg_writes (send_writes m) (i_regs c)\<rparr>"
    by (rule Write_REGs_regs) (use d(3) in \<open>auto simp: send_writes_def Let_def\<close>)
  obtain w where w: "msg_object MSG_1 ((reg_writes (send_writes m) (i_regs c))(MSG_1 + CTRL_1_REG := 0x66)) = w"
    "take ?n (drop 7 w) = take ?n (cm_data m)"
    "w ! 6 = push_bit 4 (cm_size m) OR 8 OR (if IS_EXTENDED_FRAME m then 4 else 0)"
    "\<forall>k < 4. w ! (2 + k) = id_byte (3 - k) ?x" "length w = 16"
    using send_writes_object[OF d(1,3)] by blast
  have b: "w ! 2 = id_byte 3 ?x" "w ! 3 = id_byte 2 ?x" "w ! 4 = id_byte 1 ?x" "w ! 5 = id_byte 0 ?x"
    using w(4)[rule_format, of 0] w(4)[rule_format, of 1] w(4)[rule_format, of 2] w(4)[rule_format, of 3]
    by (simp_all add: eval_nat_numeral)
  have id: "push_bit 24 (ucast (w ! 2)) OR push_bit 16 (ucast (w ! 3)) OR push_bit 8 (ucast (w ! 4)) OR
      push_bit 0 (ucast (w ! 5)) = ?x"
    unfolding b by (rule id_bytes_back)
  have size: "drop_bit 4 (w ! 6) AND 0x0F = cm_size m" "w ! 6 AND 4 \<noteq> 0 \<longleftrightarrow> IS_EXTENDED_FRAME m"
    unfolding w(3) using i_conf[OF d(2)] by auto
  have orig: "(if IS_EXTENDED_FRAME m then drop_bit 3 ?x OR 0x80000000 else drop_bit 21 ?x) = cm_id m"
  proof (cases "IS_EXTENDED_FRAME m")
    case True
    have bits: "bit (cm_id m) 31" "\<not> bit (cm_id m) 29" "\<not> bit (cm_id m) 30"
      using True m bit_unat_small[of "CAN_ID m" 29 29] bit_unat_small[of "CAN_ID m" 29 30]
      by (auto simp: IS_EXTENDED_FRAME_def ext_flag_bit can_msg_ok_def CAN_ID_def bit_and_iff bit_not_iff bit_ext_flag)
    have "drop_bit 3 (push_bit 3 (cm_id m)) OR 0x80000000 = cm_id m"
    proof (rule bit_word_eqI, goal_cases)
      case (1 n)
      then consider "n = 31" | "n = 30" | "n = 29" | "n < 29" by fastforce
      then show ?case unfolding bit_or_iff bit_ext_flag
        by cases (use bits in \<open>auto simp: bit_drop_bit_eq bit_push_bit_iff\<close>)
    qed
    then show ?thesis using True by simp
  next
    case False
    have bits: "\<And>k. 11 \<le> k \<Longrightarrow> \<not> bit (cm_id m) k"
      using False m bit_unat_small[of "cm_id m" 11] by (auto simp: can_msg_ok_def)
    have "drop_bit 21 (push_bit 21 (cm_id m)) = cm_id m"
    proof (rule bit_word_eqI, goal_cases)
      case (1 n)
      then show ?case using bits[of n] by (cases "11 \<le> n") (auto simp: bit_drop_bit_eq bit_push_bit_iff)
    qed
    then show ?thesis using False by simp
  qed
  have "i_decode 0 w = \<lparr>cm_id = cm_id m, cm_size = cm_size m, cm_data = take 8 (drop 7 w), cm_error = 0\<rparr>"
    unfolding i_decode_def Let_def id size using orig by simp
  then have "wire (i_decode 0 w) = wire m"
    using w(2) d by (simp add: wire_def min_def)
  then show ?thesis using d W w(1)
    by (simp add: i_send_alt Write_REG_def i_sent_def Let_def)
qed

interpretation i82527: can_chip i_send i_sent "\<lambda>_. True"
  by unfold_locales (use i_send_law in blast)

end
