(* ===== verification/J1939.thy ===== *)
theory J1939
  imports CanClient
begin

unbundle bit_operations_syntax

text \<open>
  The J1939 link layer: the protocol data unit and the packing macros of can/jbus/include/j1939.h,
  sending and receiving through the CAN driver (can/jbus/src/j1939can.c) and through the B&B
  serial converter (can/jbus/src/j1939stb.c).  A serial line is the list of the bytes still to be
  read, and reading from the empty list is the failure of \<open>read\<close>.
\<close>

record j1939_pdu = pd_priority :: u32
  pd_R :: u8
  pd_DP :: u8
  pd_format :: u32
  pd_specific :: u32
  pd_src :: u32
  pd_data :: "u8 list"
  pd_numbytes :: int

subsection \<open>Macros\<close>

definition BITS87 :: "u8 \<Rightarrow> u8" where "BITS87 x = drop_bit 6 (x AND 0xc0)"
definition BITS65 :: "u8 \<Rightarrow> u8" where "BITS65 x = drop_bit 4 (x AND 0x30)"
definition BITS43 :: "u8 \<Rightarrow> u8" where "BITS43 x = drop_bit 2 (x AND 0x0c)"
definition BITS21 :: "u8 \<Rightarrow> u8" where "BITS21 x = x AND 0x03"
definition HINIBBLE :: "u8 \<Rightarrow> u8" where "HINIBBLE x = drop_bit 4 (x AND 0xf0)"
definition LONIBBLE :: "u8 \<Rightarrow> u8" where "LONIBBLE x = x AND 0x0f"
definition HIBYTE :: "u16 \<Rightarrow> u8" where "HIBYTE x = ucast (drop_bit 8 (x AND 0xff00))"
definition LOBYTE :: "u16 \<Rightarrow> u8" where "LOBYTE x = ucast (x AND 0xff)"
definition TWOBYTES :: "u8 \<Rightarrow> u8 \<Rightarrow> u16" where "TWOBYTES x y = push_bit 8 (ucast x AND 0xff) OR (ucast y AND 0xff)"

definition FOURBYTES :: "u8 \<Rightarrow> u8 \<Rightarrow> u8 \<Rightarrow> u8 \<Rightarrow> u32" where
  "FOURBYTES a3 a2 a1 a0 = push_bit 24 (ucast a3 AND 0xff) OR push_bit 16 (ucast a2 AND 0xff) OR
     push_bit 8 (ucast a1 AND 0xff) OR (ucast a0 AND 0xff)"

definition PATH_CAN_ID :: "j1939_pdu \<Rightarrow> u32" where
  "PATH_CAN_ID j = push_bit 26 (pd_priority j AND 0x7) OR push_bit 25 (ucast (pd_R j) AND 0x1) OR
     push_bit 24 (ucast (pd_DP j) AND 0x1) OR push_bit 16 (pd_format j AND 0xff) OR
     push_bit 8 (pd_specific j AND 0xff) OR (pd_src j AND 0xff)"

definition PATH_CAN_PRIORITY :: "u32 \<Rightarrow> u32" where "PATH_CAN_PRIORITY j = drop_bit 26 j AND 0x7"
definition PATH_CAN_PF :: "u32 \<Rightarrow> u32" where "PATH_CAN_PF j = drop_bit 16 j AND 0xff"
definition PATH_CAN_PS :: "u32 \<Rightarrow> u32" where "PATH_CAN_PS j = drop_bit 8 j AND 0xff"
definition PATH_CAN_SA :: "u32 \<Rightarrow> u32" where "PATH_CAN_SA j = j AND 0xff"

definition FILL_M2 :: "j1939_pdu \<Rightarrow> u8" where
  "FILL_M2 j = ucast (push_bit 5 (pd_priority j AND 0x7) OR push_bit 4 (ucast (pd_R j) AND 0x1) OR
     push_bit 3 (ucast (pd_DP j) AND 0x1) OR (drop_bit 5 (pd_format j) AND 0x7))"
definition FILL_M3 :: "j1939_pdu \<Rightarrow> u8" where
  "FILL_M3 j = ucast (push_bit 3 (pd_format j AND 0x1f) OR (drop_bit 5 (pd_specific j) AND 0x7))"
definition FILL_M4 :: "j1939_pdu \<Rightarrow> u8" where
  "FILL_M4 j = ucast (push_bit 3 (pd_specific j AND 0x1f) OR (drop_bit 5 (pd_src j) AND 0x7))"
definition FILL_M5 :: "j1939_pdu \<Rightarrow> u8" where
  "FILL_M5 j = ucast (push_bit 3 (pd_src j AND 0x1f))"

text \<open>The fields cut out of the four bytes of \<open>j1939_info\<close>.\<close>

definition EXTRACT_PRIORITY :: "u8 list \<Rightarrow> u32" where
  "EXTRACT_PRIORITY b = drop_bit 5 (ucast (b ! 0) AND 0xe0)"
definition EXTRACT_PF :: "u8 list \<Rightarrow> u32" where
  "EXTRACT_PF b = push_bit 5 (ucast (b ! 0) AND 0x7) OR drop_bit 3 (ucast (b ! 1) AND 0xf8)"
definition EXTRACT_PS :: "u8 list \<Rightarrow> u32" where
  "EXTRACT_PS b = push_bit 5 (ucast (b ! 1) AND 0x7) OR drop_bit 3 (ucast (b ! 2) AND 0xf8)"
definition EXTRACT_SRC_ADDR :: "u8 list \<Rightarrow> u32" where
  "EXTRACT_SRC_ADDR b = push_bit 5 (ucast (b ! 2) AND 0x7) OR drop_bit 3 (ucast (b ! 3) AND 0xf8)"

subsection \<open>Sending and receiving through the CAN driver\<close>

text \<open>
  \<open>send_can\<close> over the driver of this node (its state is \<open>a\<close>; \<open>pad\<close> and \<open>jerr\<close> are what the
  message structure on the stack of \<open>can_write\<close> holds).  The identifier is computed before
  the source address is changed.  The result is 1, or 0 when the write fails.
\<close>

definition send_can :: "(can_msg \<Rightarrow> 'c \<Rightarrow> 'c option) \<Rightarrow> u8 list \<Rightarrow> int \<Rightarrow> int \<Rightarrow> int \<Rightarrow> int \<Rightarrow> j1939_pdu \<Rightarrow> ('c, 'e) can_attr \<Rightarrow>
    (int \<times> j1939_pdu \<times> ('c, 'e) can_attr) option" where
  "send_can send pad jerr rcvid now1 now2 pdu a =
     (let cid = PATH_CAN_ID pdu;
          pdu = pdu\<lparr>pd_src := 0x2A AND 0xFF\<rparr>
      in do {
        m \<leftarrow> can_write_msg pad jerr cid True (pd_data pdu) (word_of_int (pd_numbytes pdu AND 0xff));
        (r, a) \<leftarrow> io_devctl send None rcvid now1 now2 (D_WRITE m) a;
        Some (if r = R_STATUS EOK then 1 else 0, pdu, a)
      })"

abbreviation (input) J1939_RECEIVE_FATAL_ERROR :: int where "J1939_RECEIVE_FATAL_ERROR \<equiv> - 1"
abbreviation (input) J1939_RECEIVE_MESSAGE_ERROR :: int where "J1939_RECEIVE_MESSAGE_ERROR \<equiv> 0"
abbreviation (input) J1939_RECEIVE_MESSAGE_VALID :: int where "J1939_RECEIVE_MESSAGE_VALID \<equiv> 1"

text \<open>\<open>status\<close> and \<open>msg\<close> are what the read request to the driver returned.  \<open>R\<close> and \<open>DP\<close> are not set.\<close>

definition receive_can :: "int \<Rightarrow> can_msg \<Rightarrow> j1939_pdu \<Rightarrow> int \<Rightarrow> int \<times> j1939_pdu \<times> int" where
  "receive_can status msg pdu extended = (case can_read 0 status msg 8 of
      (r, None) \<Rightarrow> (J1939_RECEIVE_MESSAGE_ERROR, pdu, extended)
    | (r, Some (cid, ext, d)) \<Rightarrow>
        (r, pdu\<lparr>pd_priority := PATH_CAN_PRIORITY cid, pd_format := PATH_CAN_PF cid, pd_specific := PATH_CAN_PS cid,
               pd_src := PATH_CAN_SA cid, pd_data := d, pd_numbytes := r\<rparr>, if ext then 1 else 0))"

subsection \<open>Sending through the serial converter\<close>

record stb_transmit = st_check1 :: u8
  st_check2 :: u8
  st_control1 :: u8
  st_control2 :: u8
  st_msg_info :: "u8 list"
  st_data_field :: "u8 list"

definition pdu_to_stb :: "j1939_pdu \<Rightarrow> int \<Rightarrow> stb_transmit" where
  "pdu_to_stb pdu slot = \<lparr>st_check1 = 0x81, st_check2 = 0x21,
     st_control1 = push_bit 4 1 OR word_of_int ((pd_numbytes pdu + 7) AND 0xf),
     st_control2 = word_of_int (slot AND 0xf),
     st_msg_info = [push_bit 6 1 OR push_bit 4 1 OR push_bit 2 1 OR 1, push_bit 6 1 OR push_bit 4 1 OR push_bit 2 1 OR 1,
       FILL_M2 pdu, FILL_M3 pdu, FILL_M4 pdu, FILL_M5 pdu,
       push_bit 4 (word_of_int (pd_numbytes pdu AND 0xf)) OR push_bit 2 1],
     st_data_field = take 8 (pd_data pdu)\<rparr>"

text \<open>The bytes written to the port.\<close>

definition send_bytes_stb :: "stb_transmit \<Rightarrow> u8 list" where
  "send_bytes_stb stb = [st_check1 stb, st_check2 stb, st_control1 stb, st_control2 stb] @
     take 7 (st_msg_info stb) @ take 8 (st_data_field stb)"

text \<open>\<open>7372800/(baud_rate * 16)\<close> with the division of C; a zero divisor is a fault.\<close>

definition send_stb_internal :: "u16 \<Rightarrow> int \<Rightarrow> u8 list option" where
  "send_stb_internal control_code baud_rate =
     (let stb = \<lparr>st_check1 = 0x81, st_check2 = 0x21, st_control1 = LOBYTE control_code,
            st_control2 = HIBYTE control_code, st_msg_info = replicate 7 0, st_data_field = replicate 8 0\<rparr>
      in if control_code = 0x223 then
           (if baud_rate = 0 then None
            else let d = baud_rate * 16; q = 7372800 div \<bar>d\<bar>; baud_code = word_of_int (if d < 0 then - q else q) in
              Some (send_bytes_stb (stb\<lparr>st_msg_info := [0x3, LOBYTE baud_code, HIBYTE baud_code, 0, 0, 0, 0]\<rparr>)))
         else Some (send_bytes_stb stb))"

definition send_stb_external :: "j1939_pdu \<Rightarrow> u32 \<Rightarrow> int \<Rightarrow> u8 list" where
  "send_stb_external pdu state_code slot =
     (let stb = pdu_to_stb pdu slot; mi = st_msg_info stb;
          mi = mi[0 := ucast (state_code AND 0xff)];
          mi = mi[1 := ucast (drop_bit 8 (state_code AND 0xff00) AND 0xff)];
          mi = mi[6 := mi ! 6 OR ucast (drop_bit 16 (state_code AND 0xff0000) AND 0xf)]
      in send_bytes_stb (stb\<lparr>st_msg_info := mi\<rparr>))"

abbreviation (input) STB_TXUPD :: u32 where "STB_TXUPD \<equiv> 0x0c69a5"
abbreviation (input) STB_TXNEW :: u32 where "STB_TXNEW \<equiv> 0x0c66a5"

definition send_stb :: "j1939_pdu \<Rightarrow> int \<Rightarrow> int \<times> u8 list" where
  "send_stb pdu slot = (1, send_stb_external pdu STB_TXUPD slot @ send_stb_external pdu STB_TXNEW slot @
     send_stb_external pdu STB_TXUPD slot)"

subsection \<open>Receiving from the serial converter\<close>

abbreviation (input) J1939_STB_SOM :: u8 where "J1939_STB_SOM \<equiv> 0x42"

fun sync_stb :: "u8 list \<Rightarrow> bool \<times> u8 list" where
  "sync_stb [] = (False, [])"
| "sync_stb (b # inp) = (if b = J1939_STB_SOM then (True, inp) else sync_stb inp)"

text \<open>
  The two data loops: store \<open>nextbyte\<close> at \<open>n\<close>, read the next one, go on below 8 (in an internal
  message also only until \<open>0xaa\<close>).  The first result says whether every read succeeded.
\<close>

fun stb_data :: "bool \<Rightarrow> nat \<Rightarrow> u8 \<Rightarrow> u8 list \<Rightarrow> u8 list \<Rightarrow> bool \<times> u8 list \<times> u8 list" where
  "stb_data internal n nextbyte d [] = (False, d[n := nextbyte], [])"
| "stb_data internal n nextbyte d (b # inp) = (let d = d[n := nextbyte] in
     if n + 1 < 8 \<and> \<not> (internal \<and> b = 0xaa) then stb_data internal (n + 1) b d inp else (True, d, inp))"

text \<open>The end of \<open>receive_stb\<close>: the byte behind the message must start the next one.\<close>

definition stb_end :: "bool \<Rightarrow> u8 list \<Rightarrow> int \<times> u8 list" where
  "stb_end message_bad inp = (case inp of [] \<Rightarrow> (J1939_RECEIVE_FATAL_ERROR, [])
    | b # inp \<Rightarrow> if b = J1939_STB_SOM \<and> \<not> message_bad then (J1939_RECEIVE_MESSAGE_VALID, inp)
        else let (ok, inp) = sync_stb inp in
          (if ok then J1939_RECEIVE_MESSAGE_ERROR else J1939_RECEIVE_FATAL_ERROR, inp))"

text \<open>The message behind its function byte; \<open>external\<close> is set by the caller.\<close>

definition stb_message :: "bool \<Rightarrow> j1939_pdu \<Rightarrow> u8 list \<Rightarrow> int \<times> j1939_pdu \<times> u8 list" where
  "stb_message external pdu inp =
     (if length inp < 4 then (J1939_RECEIVE_FATAL_ERROR, pdu, [])
      else let info = take 4 inp; inp = drop 4 inp;
        pdu = pdu\<lparr>pd_priority := EXTRACT_PRIORITY info, pd_format := EXTRACT_PF info,
          pd_specific := EXTRACT_PS info, pd_src := EXTRACT_SRC_ADDR info\<rparr> in
      (case inp of [] \<Rightarrow> (J1939_RECEIVE_FATAL_ERROR, pdu, [])
       | mc # inp \<Rightarrow> let pdu = pdu\<lparr>pd_numbytes := int (unat (drop_bit 4 mc))\<rparr> in
         (case inp of [] \<Rightarrow> (J1939_RECEIVE_FATAL_ERROR, pdu, [])
          | b # inp \<Rightarrow>
            if \<not> external \<and> b \<noteq> 0xaa then (let (r, inp) = stb_end True inp in (r, pdu, inp))
            else let (ok, d, inp) = stb_data (\<not> external) 0 b (pd_data pdu) inp; pdu = pdu\<lparr>pd_data := d\<rparr> in
              if \<not> ok then (J1939_RECEIVE_FATAL_ERROR, pdu, [])
              else let (r, inp) = stb_end False inp in (r, pdu, inp))))"

text \<open>Results: the return value, the PDU, \<open>*external\<close>, \<open>*slot_or_type\<close>, and what is left to read.\<close>

definition receive_stb :: "j1939_pdu \<Rightarrow> int \<Rightarrow> int \<Rightarrow> u8 list \<Rightarrow> int \<times> j1939_pdu \<times> int \<times> int \<times> u8 list" where
  "receive_stb pdu external slot inp = (case inp of [] \<Rightarrow> (J1939_RECEIVE_FATAL_ERROR, pdu, external, slot, [])
    | f # inp \<Rightarrow>
      (let slot = int (unat (f AND 0x0f)); kind = drop_bit 4 (f AND 0xf0) in
       if kind = 0 \<or> kind = 2 then
         (let external = (if kind = 0 then 1 else 0); (r, pdu, inp) = stb_message (kind = 0) pdu inp in
          (r, pdu, external, slot, inp))
       else (let (r, inp) = stb_end True inp in (r, pdu, external, slot, inp))))"


subsection \<open>Identifiers\<close>

text \<open>A PDU whose fields have the widths J1939 gives them.\<close>

definition pdu_ok :: "j1939_pdu \<Rightarrow> bool" where
  "pdu_ok p \<longleftrightarrow> unat (pd_priority p) < 2 ^ 3 \<and> unat (pd_format p) < 2 ^ 8 \<and> unat (pd_specific p) < 2 ^ 8 \<and>
     unat (pd_src p) < 2 ^ 8 \<and> length (pd_data p) = 8 \<and> 0 \<le> pd_numbytes p \<and> pd_numbytes p \<le> 8"

lemma mask_nums:
  "(0x7 :: 'a::len word) = mask 3" "(0xff :: 'a word) = mask 8" "(0x1f :: 'a word) = mask 5" "(0x1 :: 'a word) = mask 1"
  "(0xf8 :: 'a word) = push_bit 3 (mask 5)" "(0xe0 :: 'a word) = push_bit 5 (mask 3)"
  "(0xff00 :: 'a word) = push_bit 8 (mask 8)"
  by (simp_all add: mask_eq_exp_minus_1 push_bit_eq_mult)

lemma unat_small_bits: "(\<And>k. n \<le> k \<Longrightarrow> \<not> bit w k) \<Longrightarrow> unat (w :: u32) < 2 ^ n"
proof -
  assume h: "\<And>k. n \<le> k \<Longrightarrow> \<not> bit w k"
  have "take_bit n w = w"
  proof (rule bit_word_eqI)
    fix k assume "k < LENGTH(32)"
    show "bit (take_bit n w) k = bit w k" using h[of k] by (cases "k < n") (auto simp: bit_take_bit_iff)
  qed
  then have "take_bit n (unat w) = unat w" by (metis unsigned_take_bit_eq)
  then show ?thesis by (metis take_bit_nat_less_exp)
qed

text \<open>A field of \<open>l\<close> bits put at bit \<open>s\<close>, and one cut out from bit \<open>s\<close> on.\<close>

lemma bit_field_put: "s + l \<le> 32 \<Longrightarrow> bit (push_bit s (w AND mask l) :: u32) k \<longleftrightarrow> s \<le> k \<and> k < s + l \<and> bit w (k - s)"
  by (auto simp: bit_simps)

lemma bit_field_get: "bit (drop_bit s w AND mask l :: u32) k \<longleftrightarrow> k < l \<and> bit w (s + k)"
  by (auto simp: bit_simps dest: bit_imp_le_length)

lemma bit_path_can_id:
  "bit (PATH_CAN_ID p) k \<longleftrightarrow> (26 \<le> k \<and> k < 29 \<and> bit (pd_priority p) (k - 26)) \<or> (k = 25 \<and> bit (pd_R p) 0) \<or>
     (k = 24 \<and> bit (pd_DP p) 0) \<or> (16 \<le> k \<and> k < 24 \<and> bit (pd_format p) (k - 16)) \<or>
     (8 \<le> k \<and> k < 16 \<and> bit (pd_specific p) (k - 8)) \<or> (k < 8 \<and> bit (pd_src p) k)"
proof -
  have one: "bit (push_bit s (ucast (b :: u8) AND mask 1) :: u32) k \<longleftrightarrow> k = s \<and> bit b 0" if "s < 32" for s b
    using that by (subst bit_field_put) (auto simp: bit_unsigned_iff le_less_Suc_eq)
  have src: "bit (w AND mask 8 :: u32) k \<longleftrightarrow> k < 8 \<and> bit w k" for w
    by (auto simp: bit_simps)
  have p: "bit (push_bit 26 (pd_priority p AND mask 3)) k \<longleftrightarrow> 26 \<le> k \<and> k < 29 \<and> bit (pd_priority p) (k - 26)"
    "bit (push_bit 16 (pd_format p AND mask 8)) k \<longleftrightarrow> 16 \<le> k \<and> k < 24 \<and> bit (pd_format p) (k - 16)"
    "bit (push_bit 8 (pd_specific p AND mask 8)) k \<longleftrightarrow> 8 \<le> k \<and> k < 16 \<and> bit (pd_specific p) (k - 8)"
    by (subst bit_field_put; simp)+
  have o: "bit (push_bit 25 (ucast (pd_R p) AND mask 1) :: u32) k \<longleftrightarrow> k = 25 \<and> bit (pd_R p) 0"
    "bit (push_bit 24 (ucast (pd_DP p) AND mask 1) :: u32) k \<longleftrightarrow> k = 24 \<and> bit (pd_DP p) 0"
    by (rule one; simp)+
  show ?thesis unfolding PATH_CAN_ID_def mask_nums bit_or_iff p o src by blast
qed

lemma path_can_id_small: "unat (PATH_CAN_ID p) < 2 ^ 29"
  by (rule unat_small_bits) (unfold bit_path_can_id, auto)

lemma path_can_id_fields:
  assumes "pdu_ok p"
  shows "PATH_CAN_PRIORITY (PATH_CAN_ID p) = pd_priority p" "PATH_CAN_PF (PATH_CAN_ID p) = pd_format p"
    "PATH_CAN_PS (PATH_CAN_ID p) = pd_specific p" "PATH_CAN_SA (PATH_CAN_ID p) = pd_src p"
proof -
  have small: "\<And>k. 3 \<le> k \<Longrightarrow> \<not> bit (pd_priority p) k" "\<And>k. 8 \<le> k \<Longrightarrow> \<not> bit (pd_format p) k"
    "\<And>k. 8 \<le> k \<Longrightarrow> \<not> bit (pd_specific p) k" "\<And>k. 8 \<le> k \<Longrightarrow> \<not> bit (pd_src p) k"
    using assms bit_unat_small[of "pd_priority p" 3] bit_unat_small[of "pd_format p" 8]
      bit_unat_small[of "pd_specific p" 8] bit_unat_small[of "pd_src p" 8] unfolding pdu_ok_def by blast+
  show "PATH_CAN_PRIORITY (PATH_CAN_ID p) = pd_priority p"
  proof (rule bit_word_eqI, goal_cases)
    case (1 k) show ?case
      unfolding PATH_CAN_PRIORITY_def mask_nums bit_and_iff bit_mask_iff bit_drop_bit_eq comp_def bit_path_can_id
      using small(1)[of k] by (cases "k < 3") auto
  qed
  show "PATH_CAN_PF (PATH_CAN_ID p) = pd_format p"
  proof (rule bit_word_eqI, goal_cases)
    case (1 k) show ?case
      unfolding PATH_CAN_PF_def mask_nums bit_and_iff bit_mask_iff bit_drop_bit_eq comp_def bit_path_can_id
      using small(2)[of k] by (cases "k < 8") auto
  qed
  show "PATH_CAN_PS (PATH_CAN_ID p) = pd_specific p"
  proof (rule bit_word_eqI, goal_cases)
    case (1 k) show ?case
      unfolding PATH_CAN_PS_def mask_nums bit_and_iff bit_mask_iff bit_drop_bit_eq comp_def bit_path_can_id
      using small(3)[of k] by (cases "k < 8") auto
  qed
  show "PATH_CAN_SA (PATH_CAN_ID p) = pd_src p"
  proof (rule bit_word_eqI, goal_cases)
    case (1 k) show ?case
      unfolding PATH_CAN_SA_def mask_nums bit_and_iff bit_mask_iff bit_path_can_id
      using small(4)[of k] by (cases "k < 8") auto
  qed
qed

text \<open>The four identifier bytes of the converter format.\<close>

definition stb_info :: "j1939_pdu \<Rightarrow> u8 list" where
  "stb_info p = [FILL_M2 p, FILL_M3 p, FILL_M4 p, FILL_M5 p]"

text \<open>Two fields side by side in a byte.\<close>

lemma bit_two_fields: "bit (ucast (push_bit 3 (v AND mask 5) OR (drop_bit 5 w AND mask 3) :: u32) :: u8) k \<longleftrightarrow>
    (3 \<le> k \<and> k < 8 \<and> bit v (k - 3)) \<or> (k < 3 \<and> bit w (5 + k))"
  unfolding bit_unsigned_iff bit_or_iff bit_field_get by (subst bit_field_put) auto

lemma bit_fill:
  "bit (FILL_M2 p) k \<longleftrightarrow> (5 \<le> k \<and> k < 8 \<and> bit (pd_priority p) (k - 5)) \<or> (k = 4 \<and> bit (pd_R p) 0) \<or>
     (k = 3 \<and> bit (pd_DP p) 0) \<or> (k < 3 \<and> bit (pd_format p) (5 + k))"
  "bit (FILL_M3 p) k \<longleftrightarrow> (3 \<le> k \<and> k < 8 \<and> bit (pd_format p) (k - 3)) \<or> (k < 3 \<and> bit (pd_specific p) (5 + k))"
  "bit (FILL_M4 p) k \<longleftrightarrow> (3 \<le> k \<and> k < 8 \<and> bit (pd_specific p) (k - 3)) \<or> (k < 3 \<and> bit (pd_src p) (5 + k))"
  "bit (FILL_M5 p) k \<longleftrightarrow> 3 \<le> k \<and> k < 8 \<and> bit (pd_src p) (k - 3)"
proof -
  have one: "bit (push_bit s (ucast (b :: u8) AND mask 1) :: u32) k \<longleftrightarrow> k = s \<and> bit b 0" if "s < 32" for s b
    using that by (subst bit_field_put) (auto simp: bit_unsigned_iff le_less_Suc_eq)
  have o: "bit (push_bit 4 (ucast (pd_R p) AND mask 1) :: u32) k \<longleftrightarrow> k = 4 \<and> bit (pd_R p) 0"
    "bit (push_bit 3 (ucast (pd_DP p) AND mask 1) :: u32) k \<longleftrightarrow> k = 3 \<and> bit (pd_DP p) 0"
    by (rule one; simp)+
  have pr: "bit (push_bit 5 (pd_priority p AND mask 3)) k \<longleftrightarrow> 5 \<le> k \<and> k < 8 \<and> bit (pd_priority p) (k - 5)"
    "bit (push_bit 3 (pd_src p AND mask 5)) k \<longleftrightarrow> 3 \<le> k \<and> k < 8 \<and> bit (pd_src p) (k - 3)"
    by (subst bit_field_put; simp)+
  show "bit (FILL_M2 p) k \<longleftrightarrow> (5 \<le> k \<and> k < 8 \<and> bit (pd_priority p) (k - 5)) \<or> (k = 4 \<and> bit (pd_R p) 0) \<or>
     (k = 3 \<and> bit (pd_DP p) 0) \<or> (k < 3 \<and> bit (pd_format p) (5 + k))"
    unfolding FILL_M2_def mask_nums bit_unsigned_iff bit_or_iff bit_field_get o pr by auto
  show "bit (FILL_M5 p) k \<longleftrightarrow> 3 \<le> k \<and> k < 8 \<and> bit (pd_src p) (k - 3)"
    unfolding FILL_M5_def mask_nums bit_unsigned_iff pr by auto
qed (unfold FILL_M3_def FILL_M4_def mask_nums, rule bit_two_fields, rule bit_two_fields)

lemma stb_info_fields:
  assumes "pdu_ok p"
  shows "EXTRACT_PRIORITY (stb_info p) = pd_priority p" "EXTRACT_PF (stb_info p) = pd_format p"
    "EXTRACT_PS (stb_info p) = pd_specific p" "EXTRACT_SRC_ADDR (stb_info p) = pd_src p"
proof -
  have small: "\<And>k. 3 \<le> k \<Longrightarrow> \<not> bit (pd_priority p) k" "\<And>k. 8 \<le> k \<Longrightarrow> \<not> bit (pd_format p) k"
    "\<And>k. 8 \<le> k \<Longrightarrow> \<not> bit (pd_specific p) k" "\<And>k. 8 \<le> k \<Longrightarrow> \<not> bit (pd_src p) k"
    using assms bit_unat_small[of "pd_priority p" 3] bit_unat_small[of "pd_format p" 8]
      bit_unat_small[of "pd_specific p" 8] bit_unat_small[of "pd_src p" 8] unfolding pdu_ok_def by blast+
  have ix: "stb_info p ! 0 = FILL_M2 p" "stb_info p ! 1 = FILL_M3 p" "stb_info p ! 2 = FILL_M4 p" "stb_info p ! 3 = FILL_M5 p"
    by (simp_all add: stb_info_def)
  have cut: "bit (push_bit 5 (ucast (a :: u8) AND mask 3) OR drop_bit 3 (ucast (b :: u8) AND push_bit 3 (mask 5)) :: u32) k \<longleftrightarrow>
      (5 \<le> k \<and> k < 8 \<and> bit a (k - 5)) \<or> (k < 5 \<and> bit b (3 + k))" for a b k
    unfolding bit_or_iff bit_drop_bit_eq comp_def bit_and_iff bit_push_bit_iff[of 3 "mask 5"]
    by (subst bit_field_put) (auto simp: bit_unsigned_iff bit_mask_iff)
  have top: "bit (drop_bit 5 (ucast (a :: u8) AND push_bit 5 (mask 3)) :: u32) k \<longleftrightarrow> k < 3 \<and> bit a (5 + k)" for a k
    unfolding bit_drop_bit_eq comp_def bit_and_iff bit_push_bit_iff by (auto simp: bit_unsigned_iff bit_mask_iff)
  show "EXTRACT_PRIORITY (stb_info p) = pd_priority p"
  proof (rule bit_word_eqI, goal_cases)
    case (1 k) show ?case unfolding EXTRACT_PRIORITY_def ix mask_nums top bit_fill
      using small(1)[of k] by (cases "k < 3") auto
  qed
  show "EXTRACT_PF (stb_info p) = pd_format p"
  proof (rule bit_word_eqI, goal_cases)
    case (1 k) show ?case unfolding EXTRACT_PF_def ix mask_nums cut bit_fill
      using small(2)[of k] by (cases "k < 8"; cases "k < 5") auto
  qed
  show "EXTRACT_PS (stb_info p) = pd_specific p"
  proof (rule bit_word_eqI, goal_cases)
    case (1 k) show ?case unfolding EXTRACT_PS_def ix mask_nums cut bit_fill
      using small(3)[of k] by (cases "k < 8"; cases "k < 5") auto
  qed
  show "EXTRACT_SRC_ADDR (stb_info p) = pd_src p"
  proof (rule bit_word_eqI, goal_cases)
    case (1 k) show ?case unfolding EXTRACT_SRC_ADDR_def ix mask_nums cut bit_fill
      using small(4)[of k] by (cases "k < 8"; cases "k < 5") auto
  qed
qed

subsection \<open>A PDU through the CAN driver\<close>

lemma can_write_msg_take:
  "n \<le> 8 \<Longrightarrow> unat n \<le> length data \<Longrightarrow>
   can_write_msg pad jerr cid e data n = can_write_msg pad jerr cid e (take (unat n) data) n"
  by (auto simp: can_write_msg_def Let_def dest: leD)

lemma small_size:
  assumes "0 \<le> (k :: int)" "k \<le> 8"
  shows "k AND 0xff = k" "unat (word_of_int k :: u8) = nat k" "(word_of_int k :: u8) \<le> 8"
proof -
  have "k AND 0xff = take_bit 8 k" by (simp add: take_bit_eq_mask mask_eq_exp_minus_1)
  also have "\<dots> = k" using assms by (simp add: take_bit_eq_mod)
  finally show "k AND 0xff = k" .
  show u: "unat (word_of_int k :: u8) = nat k" using assms by (simp add: unsigned_of_int take_bit_eq_mod)
  then show "(word_of_int k :: u8) \<le> 8" using assms by (simp add: word_le_nat_alt)
qed

text \<open>What is sent as one frame, and what the receiver makes of it, are the same PDU.\<close>

lemma send_can_frame:
  assumes p: "pdu_ok p" and pad: "length pad = 8" and a: "out_rep a []" "sja_ready (chip a)"
  shows "\<exists>a1 f. send_can sja_send pad jerr rcvid now1 now2 p a = Some (1, p\<lparr>pd_src := 0x2A\<rparr>, a1) \<and>
    s_log (chip a1) = s_log (chip a) @ [f] \<and>
    (\<forall>pad' jerr'. length pad' = 8 \<longrightarrow> (\<exists>d. take (nat (pd_numbytes p)) d = take (nat (pd_numbytes p)) (pd_data p) \<and>
       receive_can 0 ((sja_decode pad' jerr' f)\<lparr>cm_error := 0\<rparr>) q ext =
         (pd_numbytes p, q\<lparr>pd_priority := pd_priority p, pd_format := pd_format p, pd_specific := pd_specific p,
            pd_src := pd_src p, pd_data := d, pd_numbytes := pd_numbytes p\<rparr>, 1)))"
proof -
  let ?n = "word_of_int (pd_numbytes p) :: u8" and ?c = "PATH_CAN_ID p"
  have nb: "0 \<le> pd_numbytes p" "pd_numbytes p \<le> 8" "length (pd_data p) = 8" using p by (auto simp: pdu_ok_def)
  note n = small_size[OF nb(1,2)]
  have ok: "write_ok ?c True (take (unat ?n) (pd_data p)) ?n"
    using path_can_id_small[of p] n nb by (auto simp: write_ok_def)
  obtain m a1 f where m: "can_write_msg pad jerr ?c True (take (unat ?n) (pd_data p)) ?n = Some m"
    "io_devctl sja_send None rcvid now1 now2 (D_WRITE m) a = Some (R_STATUS EOK, a1)"
    "s_log (chip a1) = s_log (chip a) @ [f]"
    and r: "\<forall>pad' jerr'. length pad' = 8 \<longrightarrow> (let r = sja_decode pad' jerr' f in
       CAN_ID r = ?c \<and> IS_EXTENDED_FRAME r = True \<and> cm_size r = ?n \<and> take (unat ?n) (cm_data r) = take (unat ?n) (pd_data p))"
    using write_to_frame[OF ok pad a] by blast
  have "can_write_msg pad jerr ?c True (pd_data p) ?n = Some m"
    using m(1) can_write_msg_take[of ?n "pd_data p"] n nb by simp
  then have "send_can sja_send pad jerr rcvid now1 now2 p a = Some (1, p\<lparr>pd_src := 0x2A\<rparr>, a1)"
    using m(2) n(1) by (simp add: send_can_def Let_def)
  moreover have "\<exists>d. take (nat (pd_numbytes p)) d = take (nat (pd_numbytes p)) (pd_data p) \<and>
       receive_can 0 ((sja_decode pad' jerr' f)\<lparr>cm_error := 0\<rparr>) q ext =
         (pd_numbytes p, q\<lparr>pd_priority := pd_priority p, pd_format := pd_format p, pd_specific := pd_specific p,
            pd_src := pd_src p, pd_data := d, pd_numbytes := pd_numbytes p\<rparr>, 1)" if "length pad' = 8" for pad' jerr'
  proof -
    define r where "r = sja_decode pad' jerr' f"
    have R: "CAN_ID r = ?c" "IS_EXTENDED_FRAME r" "cm_size r = ?n" "take (unat ?n) (cm_data r) = take (unat ?n) (pd_data p)"
      using r that by (auto simp: Let_def r_def)
    have e: "CAN_ID (r\<lparr>cm_error := 0\<rparr>) = CAN_ID r" "IS_EXTENDED_FRAME (r\<lparr>cm_error := 0\<rparr>) = IS_EXTENDED_FRAME r"
      by (simp_all add: CAN_ID_def IS_EXTENDED_FRAME_def)
    have "take (nat (pd_numbytes p)) (take 8 (cm_data r)) = take (nat (pd_numbytes p)) (pd_data p)"
      using R(4) n(2) nb by (auto simp: min_def)
    moreover have "int (unat ?n) = pd_numbytes p" using n(2) nb by simp
    ultimately show ?thesis using R path_can_id_fields[OF p] unfolding r_def[symmetric]
      by (intro exI[of _ "take 8 (cm_data r)"]) (simp add: receive_can_def can_read_def e Let_def)
  qed
  ultimately show ?thesis using m(3) by blast
qed

subsection \<open>A PDU from the serial converter\<close>

text \<open>
  The format the converter sends behind the start byte: the function byte (the slot), the four bytes
  of the identifier, the length code (\<open>lo\<close> is its unused low half), eight data bytes and a final byte.
\<close>

definition stb_frame :: "u8 \<Rightarrow> u8 \<Rightarrow> u8 \<Rightarrow> j1939_pdu \<Rightarrow> u8 list" where
  "stb_frame slot lo fin p = [slot] @ stb_info p @ [push_bit 4 (word_of_int (pd_numbytes p)) OR lo] @ pd_data p @ [fin]"

text \<open>The PDU \<open>q\<close> with what a message carries of \<open>p\<close>.\<close>

definition pdu_fields :: "j1939_pdu \<Rightarrow> j1939_pdu \<Rightarrow> j1939_pdu" where
  "pdu_fields p q = q\<lparr>pd_priority := pd_priority p, pd_format := pd_format p, pd_specific := pd_specific p,
     pd_src := pd_src p, pd_numbytes := pd_numbytes p, pd_data := pd_data p\<rparr>"

lemma list8: "length xs = 8 \<Longrightarrow> \<exists>a b c d e f g h. xs = [a, b, c, d, e, f, g, h]"
  by (auto simp: length_Suc_conv eval_nat_numeral)

lemma stb_data_eight:
  assumes "length d = 8" "length q = 8"
  shows "stb_data False 0 (d ! 0) q (tl d @ fin # inp) = (True, d, inp)"
proof -
  obtain a1 a2 a3 a4 a5 a6 a7 a8 where d: "d = [a1, a2, a3, a4, a5, a6, a7, a8]" using list8[OF assms(1)] by blast
  obtain b1 b2 b3 b4 b5 b6 b7 b8 where q: "q = [b1, b2, b3, b4, b5, b6, b7, b8]" using list8[OF assms(2)] by blast
  show ?thesis unfolding d q by (simp add: eval_nat_numeral)
qed

lemma nibble_size:
  assumes "0 \<le> (k :: int)" "k \<le> 8" "(lo :: u8) < 16"
  shows "int (unat (drop_bit 4 (push_bit 4 (word_of_int k) OR lo))) = k"
proof -
  have "unat (drop_bit 4 lo) = 0" using assms(3)
    by (simp only: unsigned_drop_bit_eq word_less_nat_alt) (simp add: drop_bit_eq_div take_bit_eq_mod)
  then have z: "drop_bit 4 lo = 0" by (simp only: unat_eq_zero)
  have "k = 0 \<or> k = 1 \<or> k = 2 \<or> k = 3 \<or> k = 4 \<or> k = 5 \<or> k = 6 \<or> k = 7 \<or> k = 8" using assms by presburger
  then have "int (unat (drop_bit 4 (push_bit 4 (word_of_int k) :: u8))) = k" by auto
  then show ?thesis using z by simp
qed

lemma receive_stb_frame:
  assumes p: "pdu_ok p" and q: "length (pd_data q) = 8" and s: "slot < 16" "lo < 16"
  shows "receive_stb q e sl (stb_frame slot lo fin p @ J1939_STB_SOM # rest) =
    (J1939_RECEIVE_MESSAGE_VALID, pdu_fields p q, 1, int (unat slot), rest)"
proof -
  have nb: "0 \<le> pd_numbytes p" "pd_numbytes p \<le> 8" "length (pd_data p) = 8" using p by (auto simp: pdu_ok_def)
  have l: "unat slot < 16" using s by (simp add: word_less_nat_alt)
  have "slot AND 0x0f = take_bit 4 slot" by (simp add: take_bit_eq_mask mask_eq_exp_minus_1)
  also have "\<dots> = slot"
  proof -
    have "unat (take_bit 4 slot) = unat slot" using l by (simp only: unsigned_take_bit_eq) (simp add: take_bit_nat_eq_self)
    then show ?thesis by (simp only: word_unat_eq_iff)
  qed
  finally have f: "slot AND 0x0f = slot" .
  have "slot AND 0xf0 = (slot AND 0x0f) AND 0xf0" using f by simp
  also have "\<dots> = 0" by (simp add: and.assoc)
  finally have k: "slot AND 0xf0 = 0" .
  have info: "stb_info p = [FILL_M2 p, FILL_M3 p, FILL_M4 p, FILL_M5 p]" by (simp add: stb_info_def)
  obtain x xs where d: "pd_data p = x # xs" using nb(3) by (cases "pd_data p") auto
  have data: "stb_data False 0 x (pd_data q) (xs @ fin # J1939_STB_SOM # rest) = (True, pd_data p, J1939_STB_SOM # rest)"
    using stb_data_eight[OF nb(3) q, of fin "J1939_STB_SOM # rest"] d by simp
  show ?thesis
    using data d stb_info_fields[OF p] nibble_size[OF nb(1,2) s(2)]
    by (simp add: receive_stb_def stb_frame_def stb_message_def stb_end_def f k info Let_def pdu_fields_def)
qed

text \<open>Whatever the bytes are, \<open>receive_stb\<close> stops right behind a start byte or at the end of the input.\<close>

lemma sync_stb_pos: "sync_stb inp = (ok, rest) \<Longrightarrow> (\<not> ok \<and> rest = []) \<or> (ok \<and> (\<exists>pre. inp = pre @ J1939_STB_SOM # rest))"
proof (induction inp)
  case (Cons b inp)
  show ?case
  proof (cases "b = J1939_STB_SOM")
    case True
    then show ?thesis using Cons.prems by (auto intro: exI[of _ "[]"])
  next
    case False
    then have "(\<not> ok \<and> rest = []) \<or> (ok \<and> (\<exists>pre. inp = pre @ J1939_STB_SOM # rest))" using Cons by simp
    then show ?thesis by (metis append_Cons)
  qed
qed simp

definition stb_stop :: "int \<Rightarrow> u8 list \<Rightarrow> u8 list \<Rightarrow> bool" where
  "stb_stop r inp rest \<longleftrightarrow> (r = J1939_RECEIVE_FATAL_ERROR \<and> rest = []) \<or>
     (r \<in> {J1939_RECEIVE_MESSAGE_ERROR, J1939_RECEIVE_MESSAGE_VALID} \<and> (\<exists>pre. inp = pre @ J1939_STB_SOM # rest))"

lemma stb_stop_prefix: "stb_stop r inp rest \<Longrightarrow> stb_stop r (pre @ inp) rest"
  unfolding stb_stop_def by (metis append.assoc)

lemma stb_end_stop: "stb_end bad inp = (r, rest) \<Longrightarrow> stb_stop r inp rest"
proof (cases inp)
  case (Cons b inp')
  assume e: "stb_end bad inp = (r, rest)"
  show ?thesis
  proof (cases "b = J1939_STB_SOM \<and> \<not> bad")
    case True
    then show ?thesis using e Cons by (auto simp: stb_end_def stb_stop_def intro: exI[of _ "[]"])
  next
    case False
    obtain ok rest' where s: "sync_stb inp' = (ok, rest')" by fastforce
    then have "r = (if ok then 0 else - 1)" "rest = rest'" using e Cons False by (auto simp: stb_end_def split: if_splits)
    then have "stb_stop r inp' rest" using sync_stb_pos[OF s] by (auto simp: stb_stop_def)
    then show ?thesis using stb_stop_prefix[of r inp' rest "[b]"] Cons by simp
  qed
qed (auto simp: stb_end_def stb_stop_def)

lemma stb_data_rest: "stb_data i n b d inp = (ok, d', rest) \<Longrightarrow> \<exists>pre. inp = pre @ rest"
proof (induction i n b d inp rule: stb_data.induct)
  case (2 i n b d c inp)
  then show ?case by (fastforce simp: Let_def split: if_splits intro: exI[of _ "[c]"] exI[of _ "c # _"])
qed simp

lemma stb_data_length: "stb_data i n b d inp = (ok, d', rest) \<Longrightarrow> length d' = length d"
  by (induction i n b d inp rule: stb_data.induct) (fastforce simp: Let_def split: if_splits)+

lemma stb_message_stop:
  assumes "stb_message ext q inp = (r, q', rest)"
  shows "stb_stop r inp rest \<and> length (pd_data q') = length (pd_data q)"
proof (cases "length inp < 5")
  case True
  then show ?thesis using assms by (auto simp: stb_message_def stb_stop_def Let_def split: list.splits if_splits)
next
  case False
  then obtain a b c d mc inp1 where i: "inp = a # b # c # d # mc # inp1"
    by (cases inp; simp; cases "tl inp"; simp; cases "tl (tl inp)"; simp; cases "tl (tl (tl inp))"; simp;
        cases "tl (tl (tl (tl inp)))") auto
  show ?thesis
  proof (cases inp1)
    case Nil
    then show ?thesis using assms i by (auto simp: stb_message_def stb_stop_def Let_def)
  next
    case (Cons x inp2)
    show ?thesis
    proof (cases "\<not> ext \<and> x \<noteq> 0xaa")
      case True
      obtain r' rest' where e: "stb_end True inp2 = (r', rest')" by fastforce
      then have "r = r'" "rest = rest'" "length (pd_data q') = length (pd_data q)"
        using assms i Cons True by (auto simp: stb_message_def Let_def)
      then show ?thesis using stb_stop_prefix[OF stb_end_stop[OF e], of "[a, b, c, d, mc, x]"] i Cons by simp
    next
      case False
      obtain ok d' inp3 where s: "stb_data (\<not> ext) 0 x (pd_data q) inp2 = (ok, d', inp3)" by (metis surj_pair)
      obtain r' rest' where e: "stb_end False inp3 = (r', rest')" by fastforce
      obtain pre where pre: "inp2 = pre @ inp3" using stb_data_rest[OF s] by blast
      have l: "length d' = length (pd_data q)" using stb_data_length[OF s] .
      show ?thesis
      proof (cases ok)
        case True
        then have "r = r'" "rest = rest'" "length (pd_data q') = length (pd_data q)"
          using assms i Cons False s e l by (auto simp: stb_message_def Let_def split: if_splits)
        then show ?thesis using stb_stop_prefix[OF stb_end_stop[OF e], of "[a, b, c, d, mc, x] @ pre"] i Cons pre by simp
      next
        case False
        then show ?thesis using assms i Cons \<open>\<not> (\<not> ext \<and> x \<noteq> 0xaa)\<close> s l
          by (auto simp: stb_message_def stb_stop_def Let_def split: if_splits)
      qed
    qed
  qed
qed

lemma receive_stb_stop:
  assumes "receive_stb q e sl inp = (r, q', e', sl', rest)"
  shows "stb_stop r inp rest \<and> length (pd_data q') = length (pd_data q)"
proof (cases inp)
  case Nil
  then show ?thesis using assms by (auto simp: receive_stb_def stb_stop_def)
next
  case (Cons f inp1)
  let ?kind = "drop_bit 4 (f AND 0xf0)"
  show ?thesis
  proof (cases "?kind = 0 \<or> ?kind = 2")
    case True
    obtain r1 q1 rest1 where m: "stb_message (?kind = 0) q inp1 = (r1, q1, rest1)" by (metis surj_pair)
    then have "r = r1" "q' = q1" "rest = rest1" using assms Cons True by (auto simp: receive_stb_def Let_def split: if_splits)
    then show ?thesis using stb_message_stop[OF m] stb_stop_prefix[of r1 inp1 rest1 "[f]"] Cons by simp
  next
    case False
    obtain r1 rest1 where m: "stb_end True inp1 = (r1, rest1)" by fastforce
    then have "r = r1" "q' = q" "rest = rest1" using assms Cons False by (auto simp: receive_stb_def Let_def split: if_splits)
    then show ?thesis using stb_stop_prefix[OF stb_end_stop[OF m], of "[f]"] Cons by simp
  qed
qed

lemma receive_stb_shorter:
  "receive_stb q e sl inp = (r, q', e', sl', rest) \<Longrightarrow> r \<noteq> J1939_RECEIVE_FATAL_ERROR \<Longrightarrow> length rest < length inp"
  using receive_stb_stop[of q e sl inp r q' e' sl' rest] by (auto simp: stb_stop_def)

text \<open>
  A program that calls \<open>receive_stb\<close> until the line fails, as the main loop of rdj1939.c does: the
  return values with the PDU after each call.
\<close>

function stb_reader :: "j1939_pdu \<Rightarrow> int \<Rightarrow> int \<Rightarrow> u8 list \<Rightarrow> (int \<times> j1939_pdu \<times> int) list" where
  "stb_reader q e sl inp = (case receive_stb q e sl inp of (r, q', e', sl', rest) \<Rightarrow>
     if r = J1939_RECEIVE_FATAL_ERROR then [] else (r, q', e') # stb_reader q' e' sl' rest)"
  by pat_completeness auto
termination
  by (relation "measure (\<lambda>(q, e, sl, inp). length inp)") (auto dest: receive_stb_shorter receive_stb_shorter[OF sym])

declare stb_reader.simps [simp del]

text \<open>The converter's stream for a list of PDUs: each message, and the start byte of the next.\<close>

definition stb_stream :: "u8 \<Rightarrow> u8 \<Rightarrow> j1939_pdu list \<Rightarrow> u8 list" where
  "stb_stream lo fin ps = concat (map (\<lambda>p. stb_frame 15 lo fin p @ [J1939_STB_SOM]) ps)"

lemma pdu_fields_idem [simp]: "pdu_fields p (pdu_fields p' q) = pdu_fields p q"
  by (simp add: pdu_fields_def)

lemma stb_reader_stream:
  "list_all pdu_ok ps \<Longrightarrow> length (pd_data q) = 8 \<Longrightarrow> lo < 16 \<Longrightarrow>
   stb_reader q e sl (stb_stream lo fin ps) = map (\<lambda>p. (J1939_RECEIVE_MESSAGE_VALID, pdu_fields p q, 1)) ps"
proof (induction ps arbitrary: q e sl)
  case Nil
  then show ?case by (subst stb_reader.simps) (simp add: stb_stream_def receive_stb_def)
next
  case (Cons p ps)
  have "receive_stb q e sl (stb_stream lo fin (p # ps)) =
      (J1939_RECEIVE_MESSAGE_VALID, pdu_fields p q, 1, int (unat (15 :: u8)), stb_stream lo fin ps)"
    using receive_stb_frame[of p q 15 lo e sl fin "stb_stream lo fin ps"] Cons.prems by (simp add: stb_stream_def)
  moreover have "length (pd_data (pdu_fields p q)) = 8" using Cons.prems by (simp add: pdu_fields_def pdu_ok_def)
  ultimately show ?case using Cons.IH[of "pdu_fields p q" 1 "int (unat (15 :: u8))"] Cons.prems
    by (subst stb_reader.simps) simp
qed

end
