(* ===== verification/Timestamp.thy ===== *)
theory Timestamp
  imports Prelude "HOL-Library.Signed_Division"
begin

text \<open>
  path/local/timestamp.c and timestamp.h: times of day in hours, minutes, seconds and milliseconds,
  their string form, arithmetic across midnight and comparison.  \<open>char\<close> and \<open>short\<close> are the
  values of 8 and 16 bit words; \<open>/\<close> and \<open>%\<close> are the truncating operations of C.  A string is a
  character list with its terminator behind it; reading past that is a fault.
\<close>

record timestamp = ts_hour :: int
  ts_min :: int
  ts_sec :: int
  ts_millisec :: int

definition to_char :: "int \<Rightarrow> int" where "to_char x = sint (word_of_int x :: 8 word)"
definition to_short :: "int \<Rightarrow> int" where "to_short x = sint (word_of_int x :: 16 word)"

definition TS_TO_MS :: "timestamp \<Rightarrow> int" where
  "TS_TO_MS ts = ((ts_hour ts * 60 * 60) + (ts_min ts * 60) + ts_sec ts) * 1000 + ts_millisec ts"

abbreviation (input) TS_MAX_MSEC :: int where "TS_MAX_MSEC \<equiv> 24 * 60 * 60 * 1000"

definition valid_timestamp :: "timestamp \<Rightarrow> bool" where
  "valid_timestamp ts \<longleftrightarrow> 0 \<le> ts_hour ts \<and> ts_hour ts < 24 \<and> 0 \<le> ts_min ts \<and> ts_min ts < 60 \<and>
     0 \<le> ts_sec ts \<and> ts_sec ts < 60 \<and> 0 \<le> ts_millisec ts \<and> ts_millisec ts < 1000"

definition zero_timestamp :: timestamp where
  "zero_timestamp = \<lparr>ts_hour = 0, ts_min = 0, ts_sec = 0, ts_millisec = 0\<rparr>"

subsection \<open>Strings\<close>

definition digit_val :: "char \<Rightarrow> int" where "digit_val c = int (of_char c) - 48"
definition isdigit :: "char \<Rightarrow> bool" where "isdigit c \<longleftrightarrow> 48 \<le> (of_char c :: nat) \<and> (of_char c :: nat) \<le> 57"

definition str_at :: "string \<Rightarrow> nat \<Rightarrow> char option" where
  "str_at s i = (if i < length s then Some (s ! i) else if i = length s then Some (CHR 0x00) else None)"

text \<open>The conjunction of \<open>isdigit\<close> tests, evaluated from the left until one fails.\<close>

fun all_digits :: "nat list \<Rightarrow> string \<Rightarrow> bool option" where
  "all_digits [] s = Some True"
| "all_digits (i # is) s = do { c \<leftarrow> str_at s i; if isdigit c then all_digits is s else Some False }"

fun atoi_digits :: "string \<Rightarrow> int \<Rightarrow> int" where
  "atoi_digits [] acc = acc"
| "atoi_digits (c # cs) acc = atoi_digits cs (10 * acc + digit_val c)"

definition str2timestamp :: "string \<Rightarrow> (int \<times> timestamp) option" where
  "str2timestamp s = do {
     ok \<leftarrow> all_digits [0, 1, 3, 4, 6, 7, 9, 10, 11] s;
     if \<not> ok then Some (0, zero_timestamp)
     else let ts = \<lparr>ts_hour = atoi_digits [s ! 0, s ! 1] 0, ts_min = atoi_digits [s ! 3, s ! 4] 0,
                 ts_sec = atoi_digits [s ! 6, s ! 7] 0, ts_millisec = atoi_digits [s ! 9, s ! 10, s ! 11] 0\<rparr> in
       if \<not> valid_timestamp ts then Some (0, zero_timestamp) else Some (1, ts)
   }"

definition digit_char :: "int \<Rightarrow> char" where "digit_char d = char_of (48 + nat d)"

text \<open>\<open>%02d\<close> and \<open>%03d\<close> of a value that has at most two or three digits.\<close>

definition dec2 :: "int \<Rightarrow> string" where "dec2 x = [digit_char (x div 10 mod 10), digit_char (x mod 10)]"
definition dec3 :: "int \<Rightarrow> string" where
  "dec3 x = [digit_char (x div 100 mod 10), digit_char (x div 10 mod 10), digit_char (x mod 10)]"

definition timestamp2str :: "timestamp \<Rightarrow> int \<times> string" where
  "timestamp2str ts = (if \<not> valid_timestamp ts then (0, ''00:00:00:000'')
     else (1, dec2 (ts_hour ts) @ '':'' @ dec2 (ts_min ts) @ '':'' @ dec2 (ts_sec ts) @ ''.'' @ dec3 (ts_millisec ts)))"

subsection \<open>Arithmetic\<close>

definition ms_to_ts :: "int \<Rightarrow> timestamp" where
  "ms_to_ts ms = (let t = ms; ms' = to_short (t smod 1000); t = t - ms'; t = t sdiv 1000;
       s' = to_char (t smod 60); t = t - s'; t = t sdiv 60;
       m' = to_char (t smod 60); t = t - m'; t = t sdiv 60
     in \<lparr>ts_hour = to_char t, ts_min = m', ts_sec = s', ts_millisec = ms'\<rparr>)"

text \<open>\<open>None\<close>: the result 0, which leaves \<open>*new_ts\<close> unchanged.\<close>

definition increment_timestamp :: "timestamp \<Rightarrow> timestamp \<Rightarrow> timestamp option" where
  "increment_timestamp ts delta_ts =
     (if \<not> valid_timestamp ts \<or> \<not> valid_timestamp delta_ts then None
      else Some (ms_to_ts ((TS_TO_MS ts + TS_TO_MS delta_ts) smod TS_MAX_MSEC)))"

definition decrement_timestamp :: "timestamp \<Rightarrow> timestamp \<Rightarrow> timestamp option" where
  "decrement_timestamp ts delta_ts =
     (if \<not> valid_timestamp ts \<or> \<not> valid_timestamp delta_ts then None
      else let ts_ms = TS_TO_MS ts; d_ms = TS_TO_MS delta_ts;
             ts_ms = (if d_ms > ts_ms then ts_ms + TS_MAX_MSEC else ts_ms)
        in Some (ms_to_ts (ts_ms - d_ms)))"

definition ts2_is_later_than_ts1 :: "timestamp \<Rightarrow> timestamp \<Rightarrow> bool" where
  "ts2_is_later_than_ts1 ts1 ts2 =
     (if \<not> valid_timestamp ts1 \<or> \<not> valid_timestamp ts2 then False
      else let diff = TS_TO_MS ts2 - TS_TO_MS ts1 in
        if diff > 0 \<and> diff \<le> TS_MAX_MSEC div 2 then True
        else let diff = - diff in diff > TS_MAX_MSEC div 2)"

definition is_timestamp_increase :: "timestamp \<Rightarrow> timestamp \<Rightarrow> timestamp \<Rightarrow> timestamp \<Rightarrow> int \<Rightarrow> bool" where
  "is_timestamp_increase prev_sys_ts cur_sys_ts prev_check_ts cur_check_ts buffertime =
     (if \<not> valid_timestamp cur_sys_ts \<or> \<not> valid_timestamp cur_check_ts \<or> \<not> valid_timestamp prev_sys_ts \<or>
         \<not> valid_timestamp prev_check_ts then False
      else if TS_TO_MS cur_sys_ts - TS_TO_MS prev_sys_ts > buffertime \<and>
         TS_TO_MS cur_check_ts - TS_TO_MS prev_check_ts > 0 then False
      else True)"

text \<open>\<open>last_ts\<close> is the static variable; the result is the return value and its new value.\<close>

definition check_timestamp :: "timestamp \<Rightarrow> timestamp \<Rightarrow> int \<times> timestamp" where
  "check_timestamp last_ts ts =
     (if ts_hour last_ts = ts_hour ts \<and> ts_min last_ts = ts_min ts \<and> ts_sec last_ts = ts_sec ts \<and>
         ts_millisec last_ts = ts_millisec ts then (0, ts) else (1, ts))"

definition time_diff :: "timestamp \<Rightarrow> timestamp \<Rightarrow> int option" where
  "time_diff ts1 ts2 = (if \<not> valid_timestamp ts1 \<or> \<not> valid_timestamp ts2 then None
     else Some (TS_TO_MS ts2 - TS_TO_MS ts1))"

text \<open>
  \<open>utc2local\<close>: \<open>timezone\<close> is the offset in minutes west of UTC that \<open>ftime\<close> reports.  When the
  decrement fails the result is the uninitialised local variable (\<open>None\<close>).
\<close>

definition utc2local :: "int \<Rightarrow> timestamp \<Rightarrow> timestamp option" where
  "utc2local timezone utc_ts = decrement_timestamp utc_ts
     \<lparr>ts_hour = to_char (to_short timezone sdiv 60), ts_min = 0, ts_sec = 0, ts_millisec = 0\<rparr>"

text \<open>\<open>adjust_tm\<close>: seconds since the epoch and nanoseconds.\<close>

definition adjust_tm :: "int \<Rightarrow> timestamp \<Rightarrow> int \<times> int" where
  "adjust_tm tm_sec utc_ts =
     (let tm_day = tm_sec sdiv (24 * 3600);
          new_sec = TS_TO_MS utc_ts sdiv 1000 + tm_day * 86400;
          sec_12hour = 12 * 3600;
          new_sec = (if tm_sec - new_sec > sec_12hour then new_sec - 24 * 3600
                     else if tm_sec - new_sec < - sec_12hour then new_sec + 24 * 3600 else new_sec)
      in (new_sec, ts_millisec utc_ts * 1000 * 1000))"

subsection \<open>Facts\<close>

lemma char_id [simp]: "0 \<le> x \<Longrightarrow> x < 128 \<Longrightarrow> to_char x = x"
  by (simp add: to_char_def signed_of_int signed_take_bit_int_eq_self)

lemma short_id [simp]: "0 \<le> x \<Longrightarrow> x < 1000 \<Longrightarrow> to_short x = x"
  by (simp add: to_short_def signed_of_int signed_take_bit_int_eq_self)

lemma sdiv_nonneg: "0 \<le> a \<Longrightarrow> 0 < b \<Longrightarrow> a sdiv b = a div (b :: int)"
  by (cases "a = 0") (auto simp: signed_divide_int_def)

lemma smod_nonneg: "0 \<le> a \<Longrightarrow> 0 < b \<Longrightarrow> a smod b = a mod (b :: int)"
  by (cases "a = 0") (auto simp: signed_modulo_int_def)

lemma TS_TO_MS_range: "valid_timestamp ts \<Longrightarrow> 0 \<le> TS_TO_MS ts \<and> TS_TO_MS ts < TS_MAX_MSEC"
  by (simp add: valid_timestamp_def TS_TO_MS_def)

lemma day_divs: "ms div 1000 div 60 = ms div (60000 :: int)" "ms div 60000 div 60 = ms div (3600000 :: int)"
  using zdiv_zmult2_eq[of 60 ms 1000] zdiv_zmult2_eq[of 60 ms 60000] by simp_all

lemma split_div: "(q * n + r) div n = q" "(q * n + r) mod n = r" if "0 \<le> r" "r < n" for q n r :: int
  using that by (simp_all add: div_pos_pos_trivial mod_pos_pos_trivial)

lemma drop_rem: "0 \<le> x \<Longrightarrow> 0 < n \<Longrightarrow> (x - x mod n) sdiv n = x div (n :: int)"
  by (subst sdiv_nonneg) (simp_all add: minus_mod_eq_div_mult pos_imp_zdiv_nonneg_iff)

lemma ms_to_ts_eq:
  assumes "0 \<le> ms" "ms < TS_MAX_MSEC"
  shows "ms_to_ts ms = \<lparr>ts_hour = ms div 3600000, ts_min = ms div 60000 mod 60, ts_sec = ms div 1000 mod 60,
    ts_millisec = ms mod 1000\<rparr>"
proof -
  have nn: "0 \<le> ms div k" if "0 < k" for k using assms that by (simp add: pos_imp_zdiv_nonneg_iff)
  have a: "to_short (ms smod 1000) = ms mod 1000"
    by (subst smod_nonneg) (use assms in \<open>auto intro: short_id\<close>)
  have c: "to_char (x smod 60) = x mod 60" if "0 \<le> x" for x
    by (subst smod_nonneg) (use that pos_mod_bound[of 60 x] in \<open>auto intro: char_id\<close>)
  have d: "(ms div 1000 - ms div 1000 mod 60) sdiv 60 = ms div 60000" "(ms div 60000 - ms div 60000 mod 60) sdiv 60 = ms div 3600000"
    using drop_rem[OF nn[of 1000], of 60] drop_rem[OF nn[of 60000], of 60] unfolding day_divs by simp_all
  have "ms div 3600000 < 24" using assms by (simp add: div_less_iff_less_mult)
  then have g: "to_char (ms div 3600000) = ms div 3600000" using nn[of 3600000] by (intro char_id) simp_all
  have k: "(0 :: int) < 1000" "(0 :: int) < 60000" by simp_all
  show ?thesis unfolding ms_to_ts_def Let_def a drop_rem[OF assms(1) k(1)] c[OF nn[OF k(1)]] d c[OF nn[OF k(2)]] g by (rule refl)
qed

lemma ms_to_ts_valid:
  assumes "0 \<le> ms" "ms < TS_MAX_MSEC" shows "valid_timestamp (ms_to_ts ms)" "TS_TO_MS (ms_to_ts ms) = ms"
proof -
  have "ms div 3600000 < 24" "0 \<le> ms div 3600000" using assms by (simp_all add: div_less_iff_less_mult pos_imp_zdiv_nonneg_iff)
  then show "valid_timestamp (ms_to_ts ms)" unfolding ms_to_ts_eq[OF assms] by (simp add: valid_timestamp_def)
  have s: "ms div 60000 div 60 * 60 + ms div 60000 mod 60 = ms div 60000"
    "ms div 1000 div 60 * 60 + ms div 1000 mod 60 = ms div 1000"
    "ms div 1000 * 1000 + ms mod 1000 = ms" by (rule div_mult_mod_eq)+
  have e: "TS_TO_MS \<lparr>ts_hour = h, ts_min = m, ts_sec = s, ts_millisec = l\<rparr> = ((h * 60 + m) * 60 + s) * 1000 + l" for h m s l
    by (simp add: TS_TO_MS_def)
  show "TS_TO_MS (ms_to_ts ms) = ms" unfolding ms_to_ts_eq[OF assms] e using s unfolding day_divs by (simp only:)
qed

lemma ms_of_ts:
  assumes v: "valid_timestamp ts" shows "ms_to_ts (TS_TO_MS ts) = ts"
proof -
  let ?h = "ts_hour ts" and ?m = "ts_min ts" and ?s = "ts_sec ts" and ?l = "ts_millisec ts" and ?x = "TS_TO_MS ts"
  have r: "0 \<le> ?m" "?m < 60" "0 \<le> ?s" "?s < 60" "0 \<le> ?l" "?l < 1000" using v by (auto simp: valid_timestamp_def)
  have e: "?x = ((?h * 60 + ?m) * 60 + ?s) * 1000 + ?l" by (simp add: TS_TO_MS_def)
  have q: "?x mod 1000 = ?l" "?x div 1000 = (?h * 60 + ?m) * 60 + ?s"
    unfolding e using split_div[OF r(5,6)] by blast+
  have q2: "?x div 1000 mod 60 = ?s" "?x div 60000 = ?h * 60 + ?m"
    unfolding day_divs[symmetric] q using split_div[OF r(3,4)] by blast+
  have q3: "?x div 60000 mod 60 = ?m" "?x div 3600000 = ?h"
    unfolding day_divs(2)[symmetric] q2 using split_div[OF r(1,2)] by blast+
  have "0 \<le> ?x" "?x < TS_MAX_MSEC" using TS_TO_MS_range[OF v] by blast+
  show ?thesis unfolding ms_to_ts_eq[OF \<open>0 \<le> ?x\<close> \<open>?x < TS_MAX_MSEC\<close>] q2(1) q3 q(1) by simp
qed

subsection \<open>Adding and subtracting times\<close>

lemma increment_ms:
  assumes "valid_timestamp ts" "valid_timestamp d"
  shows "\<exists>t. increment_timestamp ts d = Some t \<and> valid_timestamp t \<and>
    TS_TO_MS t = (TS_TO_MS ts + TS_TO_MS d) mod TS_MAX_MSEC"
  using assms TS_TO_MS_range[of ts] TS_TO_MS_range[of d]
  by (auto simp: increment_timestamp_def smod_nonneg intro!: ms_to_ts_valid)

lemma decrement_ms:
  assumes "valid_timestamp ts" "valid_timestamp d"
  shows "\<exists>t. decrement_timestamp ts d = Some t \<and> valid_timestamp t \<and>
    TS_TO_MS t = (TS_TO_MS ts - TS_TO_MS d) mod TS_MAX_MSEC"
proof -
  let ?a = "TS_TO_MS ts" and ?b = "TS_TO_MS d"
  have r: "0 \<le> ?a" "?a < TS_MAX_MSEC" "0 \<le> ?b" "?b < TS_MAX_MSEC" using TS_TO_MS_range assms by blast+
  let ?m = "(if ?b > ?a then ?a + TS_MAX_MSEC else ?a) - ?b"
  have m: "0 \<le> ?m" "?m < TS_MAX_MSEC" using r by auto
  have "?m = (?a - ?b) mod TS_MAX_MSEC"
  proof (cases "?b > ?a")
    case True
    have "(?a - ?b + TS_MAX_MSEC) mod TS_MAX_MSEC = (?a - ?b) mod TS_MAX_MSEC" by (rule mod_add_self2)
    then show ?thesis using True m by (simp add: algebra_simps)
  qed (use m in simp)
  then show ?thesis using assms ms_to_ts_valid[OF m] by (simp add: decrement_timestamp_def Let_def)
qed

lemma same_ms: "valid_timestamp a \<Longrightarrow> valid_timestamp b \<Longrightarrow> TS_TO_MS a = TS_TO_MS b \<Longrightarrow> a = b"
  by (metis ms_of_ts)

lemma decrement_increment:
  assumes "valid_timestamp ts" "valid_timestamp d"
  shows "\<exists>t. increment_timestamp ts d = Some t \<and> decrement_timestamp t d = Some ts"
proof -
  obtain t where t: "increment_timestamp ts d = Some t" "valid_timestamp t"
    "TS_TO_MS t = (TS_TO_MS ts + TS_TO_MS d) mod TS_MAX_MSEC" using increment_ms[OF assms] by blast
  obtain u where u: "decrement_timestamp t d = Some u" "valid_timestamp u"
    "TS_TO_MS u = (TS_TO_MS t - TS_TO_MS d) mod TS_MAX_MSEC" using decrement_ms[OF t(2) assms(2)] by blast
  have "TS_TO_MS u = (TS_TO_MS ts + TS_TO_MS d - TS_TO_MS d) mod TS_MAX_MSEC"
    unfolding u(3) t(3) by (rule mod_diff_left_eq)
  also have "\<dots> = TS_TO_MS ts" using TS_TO_MS_range[OF assms(1)] by simp
  finally show ?thesis using t(1) u(1) same_ms[OF u(2) assms(1)] by blast
qed

lemma later_ms:
  assumes "valid_timestamp ts1" "valid_timestamp ts2"
  shows "ts2_is_later_than_ts1 ts1 ts2 \<longleftrightarrow> (let d = (TS_TO_MS ts2 - TS_TO_MS ts1) mod TS_MAX_MSEC in
    0 < d \<and> (d < TS_MAX_MSEC div 2 \<or> d = TS_MAX_MSEC div 2 \<and> TS_TO_MS ts1 < TS_TO_MS ts2))"
proof -
  let ?a = "TS_TO_MS ts1" and ?b = "TS_TO_MS ts2"
  have r: "0 \<le> ?a" "?a < TS_MAX_MSEC" "0 \<le> ?b" "?b < TS_MAX_MSEC" using TS_TO_MS_range assms by blast+
  have "(?b - ?a) mod TS_MAX_MSEC = (if ?b < ?a then ?b - ?a + TS_MAX_MSEC else ?b - ?a)"
  proof (cases "?b < ?a")
    case True
    have "(?b - ?a) mod TS_MAX_MSEC = (?b - ?a + TS_MAX_MSEC) mod TS_MAX_MSEC" by (rule mod_add_self2[symmetric])
    also have "\<dots> = ?b - ?a + TS_MAX_MSEC" using True r by (intro mod_pos_pos_trivial) auto
    finally show ?thesis using True by simp
  qed (use r in simp)
  then show ?thesis using assms r by (auto simp: ts2_is_later_than_ts1_def Let_def)
qed

subsection \<open>Strings\<close>

lemma digit_char_simps:
  assumes "0 \<le> d" "d < 10" shows "digit_val (digit_char d) = d" "isdigit (digit_char d)"
proof -
  have "(of_char (digit_char d) :: nat) = 48 + nat d" using assms by (simp add: digit_char_def of_char_of)
  then show "digit_val (digit_char d) = d" "isdigit (digit_char d)"
    using assms by (auto simp: digit_val_def isdigit_def)
qed

lemma dec2_back:
  assumes "0 \<le> x" "x < 100" shows "\<exists>a b. dec2 x = [a, b] \<and> isdigit a \<and> isdigit b \<and> atoi_digits [a, b] 0 = x"
proof -
  have "x div 10 < 10" "0 \<le> x div 10" using assms by (simp_all add: div_less_iff_less_mult pos_imp_zdiv_nonneg_iff)
  then have "x div 10 mod 10 = x div 10" by simp
  moreover have "x mod 10 < 10" "0 \<le> x mod 10" by simp_all
  ultimately show ?thesis using digit_char_simps[of "x div 10"] digit_char_simps[of "x mod 10"] \<open>x div 10 < 10\<close> \<open>0 \<le> x div 10\<close>
    by (simp add: dec2_def)
qed

lemma horner: "a * 10 + b = c \<Longrightarrow> c * 10 + d = x \<Longrightarrow> 10 * (10 * a + b) + d = (x :: int)"
  by simp

lemma dec3_back:
  assumes "0 \<le> x" "x < 1000"
  shows "\<exists>a b c. dec3 x = [a, b, c] \<and> isdigit a \<and> isdigit b \<and> isdigit c \<and> atoi_digits [a, b, c] 0 = x"
proof -
  have d: "0 \<le> x div 100" "x div 100 < 10" using assms by (simp_all add: div_less_iff_less_mult pos_imp_zdiv_nonneg_iff)
  have m: "x div 10 mod 10 < 10" "0 \<le> x div 10 mod 10" "x mod 10 < 10" "0 \<le> x mod 10" by simp_all
  have e: "x div 10 div 10 * 10 + x div 10 mod 10 = x div 10" "x div 10 * 10 + x mod 10 = x" by (rule div_mult_mod_eq)+
  have "x div 10 div 10 = x div 100" using zdiv_zmult2_eq[of 10 x 10] by simp
  then have "10 * (10 * (x div 100) + x div 10 mod 10) + x mod 10 = x" using horner[OF e] by metis
  then show ?thesis
    using digit_char_simps[OF d] digit_char_simps[OF m(2,1)] digit_char_simps[OF m(4,3)] d by (simp add: dec3_def)
qed

lemma str2timestamp_roundtrip:
  assumes v: "valid_timestamp ts" shows "str2timestamp (snd (timestamp2str ts)) = Some (1, ts)"
proof -
  obtain a b where h: "dec2 (ts_hour ts) = [a, b]" "isdigit a" "isdigit b" "atoi_digits [a, b] 0 = ts_hour ts"
    using dec2_back[of "ts_hour ts"] v by (auto simp: valid_timestamp_def)
  obtain c d where m: "dec2 (ts_min ts) = [c, d]" "isdigit c" "isdigit d" "atoi_digits [c, d] 0 = ts_min ts"
    using dec2_back[of "ts_min ts"] v by (auto simp: valid_timestamp_def)
  obtain e f where s: "dec2 (ts_sec ts) = [e, f]" "isdigit e" "isdigit f" "atoi_digits [e, f] 0 = ts_sec ts"
    using dec2_back[of "ts_sec ts"] v by (auto simp: valid_timestamp_def)
  obtain g i j where l: "dec3 (ts_millisec ts) = [g, i, j]" "isdigit g" "isdigit i" "isdigit j"
    "atoi_digits [g, i, j] 0 = ts_millisec ts"
    using dec3_back[of "ts_millisec ts"] v by (auto simp: valid_timestamp_def)
  have str: "snd (timestamp2str ts) = [a, b, CHR '':'', c, d, CHR '':'', e, f, CHR ''.'', g, i, j]"
    using v h m s l by (simp add: timestamp2str_def)
  show ?thesis unfolding str str2timestamp_def
    using h(2,3,4) m(2,3,4) s(2,3,4) l(2,3,4,5) v by (simp add: str_at_def Let_def eval_nat_numeral valid_timestamp_def)
qed

lemma str2timestamp_valid: "str2timestamp s = Some (r, ts) \<Longrightarrow> valid_timestamp ts \<and> (r = 0 \<longrightarrow> ts = zero_timestamp)"
  unfolding str2timestamp_def
  by (cases "all_digits [0, 1, 3, 4, 6, 7, 9, 10, 11] s")
     (auto simp del: all_digits.simps simp: Let_def zero_timestamp_def valid_timestamp_def split: if_splits)

lemma all_digits_safe: "\<forall>i \<in> set is. i \<le> length s \<Longrightarrow> all_digits is s \<noteq> None"
  by (induction "is") (auto simp: str_at_def le_less)

lemma str2timestamp_safe: "11 \<le> length s \<Longrightarrow> str2timestamp s \<noteq> None"
proof -
  assume "11 \<le> length s"
  then have "all_digits [0, 1, 3, 4, 6, 7, 9, 10, 11] s \<noteq> None" by (intro all_digits_safe) auto
  then show ?thesis unfolding str2timestamp_def
    by (cases "all_digits [0, 1, 3, 4, 6, 7, 9, 10, 11] s") (simp_all del: all_digits.simps add: Let_def)
qed

end
