(* ===== verification/J1939Db.thy ===== *)
theory J1939Db
  imports J1939 Timestamp
begin

text \<open>
  Which database variable a J1939 message belongs to and how messages are written there
  (can/jbus/src/j1939db_extended.c), and the program that reads the bus
  (can/jbus/src/rdj1939.c): transport protocol announcements, packets of multipacket messages and
  the dispatch of its main loop.  The numbers of jbus_vars.h, addresses and parameter group
  numbers of j1939pdu_extended.h are abbreviations.  The database is the list of the writes made to
  it; whether each \<open>clt_update\<close> succeeds is a parameter.
\<close>

abbreviation (input) DB_J1939_ERC1_VAR :: int where "DB_J1939_ERC1_VAR \<equiv> 501"
abbreviation (input) DB_J1939_ETC2_VAR :: int where "DB_J1939_ETC2_VAR \<equiv> 506"
abbreviation (input) DB_J1939_RCFG_VAR :: int where "DB_J1939_RCFG_VAR \<equiv> 521"
abbreviation (input) DB_J1939_TSC1_VAR :: int where "DB_J1939_TSC1_VAR \<equiv> 523"
abbreviation (input) DB_J1939_ERC1_TRANS_VAR :: int where "DB_J1939_ERC1_TRANS_VAR \<equiv> 524"
abbreviation (input) DB_J1939_RCFG_TRANS_VAR :: int where "DB_J1939_RCFG_TRANS_VAR \<equiv> 525"
abbreviation (input) DB_J1939_TSC1_E_A_VAR :: int where "DB_J1939_TSC1_E_A_VAR \<equiv> 532"
abbreviation (input) DB_J1939_TSC1_E_ACC_VAR :: int where "DB_J1939_TSC1_E_ACC_VAR \<equiv> 538"
abbreviation (input) DB_J1939_TSC1_ER_ACC_VAR :: int where "DB_J1939_TSC1_ER_ACC_VAR \<equiv> 539"
abbreviation (input) DB_J1939_TSC1_E_T_VAR :: int where "DB_J1939_TSC1_E_T_VAR \<equiv> 540"
abbreviation (input) DB_J1939_TSC1_E_V_VAR :: int where "DB_J1939_TSC1_E_V_VAR \<equiv> 541"
abbreviation (input) DB_J1939_TSC1_ER_A_VAR :: int where "DB_J1939_TSC1_ER_A_VAR \<equiv> 542"
abbreviation (input) DB_J1939_TSC1_ER_T_VAR :: int where "DB_J1939_TSC1_ER_T_VAR \<equiv> 543"
abbreviation (input) DB_J1939_TSC1_ER_V_VAR :: int where "DB_J1939_TSC1_ER_V_VAR \<equiv> 544"
abbreviation (input) DB_J1939_VOLVO_XBR_VAR :: int where "DB_J1939_VOLVO_XBR_VAR \<equiv> 548"
abbreviation (input) DB_J1939_ETC2_E_VAR :: int where "DB_J1939_ETC2_E_VAR \<equiv> 549"
abbreviation (input) MIN_J1939_DBNUM :: int where "MIN_J1939_DBNUM \<equiv> 500"
abbreviation (input) MAX_J1939_DBNUM :: int where "MAX_J1939_DBNUM \<equiv> 559"
abbreviation (input) J1939_ADDR_ENGINE :: u32 where "J1939_ADDR_ENGINE \<equiv> 0"
abbreviation (input) J1939_ADDR_TRANS :: u32 where "J1939_ADDR_TRANS \<equiv> 3"
abbreviation (input) J1939_ADDR_BRAKE :: u32 where "J1939_ADDR_BRAKE \<equiv> 11"
abbreviation (input) J1939_ADDR_ENG_RTDR :: u32 where "J1939_ADDR_ENG_RTDR \<equiv> 15"
abbreviation (input) J1939_ADDR_TR_RTDR :: u32 where "J1939_ADDR_TR_RTDR \<equiv> 16"
abbreviation (input) J1939_ADDR_CC :: u32 where "J1939_ADDR_CC \<equiv> 17"
abbreviation (input) J1939_ADDR_ACC :: u32 where "J1939_ADDR_ACC \<equiv> 42"
abbreviation (input) PDU :: u16 where "PDU \<equiv> 0x00ff"
abbreviation (input) RCFG :: u16 where "RCFG \<equiv> 0xfee1"
abbreviation (input) ECFG :: u16 where "ECFG \<equiv> 0xfee3"
abbreviation (input) TPDT :: u16 where "TPDT \<equiv> 0xebff"
abbreviation (input) TPCM :: u16 where "TPCM \<equiv> 0xecff"

subsection \<open>The index tables\<close>

text \<open>Tables of 256 variable numbers; 500 stands in every entry that is not listed.\<close>

definition pdu2_239 :: "u8 \<Rightarrow> int" where
  "pdu2_239 = (\<lambda>_. 500)(11 := 548)"

definition pdu2_240 :: "u8 \<Rightarrow> int" where
  "pdu2_240 = (\<lambda>_. 500)(0 := 501, 1 := 502, 2 := 503, 3 := 505, 4 := 504, 5 := 506, 9 := 535)"

definition pdu2_253 :: "u8 \<Rightarrow> int" where
  "pdu2_253 = (\<lambda>_. 500)(196 := 537, 229 := 536)"

definition pdu2_254 :: "u8 \<Rightarrow> int" where
  "pdu2_254 = (\<lambda>_. 500)(51 := 545, 52 := 546, 129 := 530, 146 := 531, 189 := 527, 191 := 520, 193 := 519, 221 := 507,
     223 := 508, 224 := 509, 225 := 521, 227 := 522, 238 := 510, 240 := 511, 241 := 512, 242 := 513, 243 := 534,
     245 := 514, 246 := 515, 247 := 516, 248 := 517, 250 := 550, 251 := 518)"

definition pdu2_255 :: "u8 \<Rightarrow> int" where
  "pdu2_255 = (\<lambda>_. 500)(15 := 551, 16 := 547, 128 := 529)"

definition pdu1_index :: "u8 \<Rightarrow> (u8 \<Rightarrow> int) option \<times> int" where
  "pdu1_index hi = (if hi = 0 then (None, DB_J1939_TSC1_VAR) else if hi = 239 then (Some pdu2_239, 500)
     else if hi = 240 then (Some pdu2_240, 500) else if hi = 254 then (Some pdu2_254, 500)
     else if hi = 255 then (Some pdu2_255, 500) else (None, 500))"

text \<open>The parameter group of each entry of \<open>db_ref\<close>, which stands for variable \<open>500 + i\<close>.\<close>

definition db_ref_pgn :: "u16 list" where
  "db_ref_pgn = [0x00ff, 0xf000, 0xf001, 0xf002, 0xf004, 0xf003, 0xf005, 0xfedd, 0xfedf, 0xfee0, 0xfeee, 0xfef0, 0xfef1,
     0xfef2, 0xfef5, 0xfef6, 0xfef7, 0xfef8, 0xfefb, 0xfec1, 0xfebf, 0xfee1, 0xfee3, 0x0000, 0xf000, 0xfee1, 0x0000, 0xfebd,
     0x000b, 0xff80, 0xfe81, 0xfe92, 0x0000, 0x0000, 0xfef3, 0xf009, 0xfde5, 0xfdc4, 0x0000, 0x0000, 0x0000, 0x0000, 0x0000,
     0x0000, 0x0000, 0xfe33, 0xfe34, 0xff10, 0xef0b, 0xf005, 0xfefa, 0xff0f]"

subsection \<open>From a message to its variable\<close>

definition tsc1_dbv :: "j1939_pdu \<Rightarrow> int \<Rightarrow> int" where
  "tsc1_dbv pdu dbv =
     (let s = pd_specific pdu; a = pd_src pdu;
          dbv = (if s = J1939_ADDR_ENGINE \<and> a = J1939_ADDR_ACC then DB_J1939_TSC1_E_ACC_VAR
            else if s = J1939_ADDR_ENGINE \<and> a = J1939_ADDR_BRAKE then DB_J1939_TSC1_E_A_VAR
            else if s = J1939_ADDR_ENGINE \<and> a = J1939_ADDR_TRANS then DB_J1939_TSC1_E_T_VAR
            else if s = J1939_ADDR_ENGINE \<and> a = J1939_ADDR_CC then DB_J1939_TSC1_E_V_VAR else dbv)
      in (if s = J1939_ADDR_ENG_RTDR \<and> a = J1939_ADDR_ACC then DB_J1939_TSC1_ER_ACC_VAR
            else if s = J1939_ADDR_ENG_RTDR \<and> a = J1939_ADDR_TRANS then DB_J1939_TSC1_ER_T_VAR
            else if s = J1939_ADDR_ENG_RTDR \<and> a = J1939_ADDR_BRAKE then DB_J1939_TSC1_ER_A_VAR
            else if s = J1939_ADDR_ENG_RTDR \<and> a = J1939_ADDR_CC then DB_J1939_TSC1_ER_V_VAR else dbv))"

text \<open>
  \<open>get_pgn_dbv\<close>: the case of TSC1 has no \<open>break\<close> and runs on into the case of ERC1.  The second
  result is the index into \<open>db_ref\<close>, or \<open>None\<close> for the null pointer.
\<close>

definition get_pgn_dbv :: "u16 \<Rightarrow> j1939_pdu \<Rightarrow> int \<times> nat option" where
  "get_pgn_dbv pgn pdu =
     (let dbv = (case pdu1_index (HIBYTE pgn) of (None, n) \<Rightarrow> n | (Some t, n) \<Rightarrow> t (LOBYTE pgn));
          erc1 = (\<lambda>dbv. if pd_src pdu = J1939_ADDR_TR_RTDR then DB_J1939_ERC1_TRANS_VAR else dbv);
          dbv = (if dbv = DB_J1939_TSC1_VAR then erc1 (tsc1_dbv pdu dbv)
            else if dbv = DB_J1939_ERC1_VAR then erc1 dbv
            else if dbv = DB_J1939_ETC2_VAR then
              (if pd_src pdu = J1939_ADDR_TRANS then DB_J1939_ETC2_VAR else DB_J1939_ETC2_E_VAR)
            else if dbv = DB_J1939_RCFG_VAR then
              (if pd_src pdu = J1939_ADDR_TR_RTDR then DB_J1939_RCFG_TRANS_VAR else dbv)
            else dbv)
      in (dbv, if MIN_J1939_DBNUM \<le> dbv \<and> dbv \<le> MAX_J1939_DBNUM then Some (nat (dbv - MIN_J1939_DBNUM)) else None))"

text \<open>\<open>get_jdbv_info\<close>: the index, or \<open>None\<close> for the dummy without functions.\<close>

definition get_jdbv_info :: "int \<Rightarrow> nat option" where
  "get_jdbv_info db_num = (if MIN_J1939_DBNUM \<le> db_num \<and> db_num \<le> MAX_J1939_DBNUM
     then Some (nat (db_num - MIN_J1939_DBNUM)) else None)"

text \<open>The variables \<open>j1939_database_init\<close> creates.\<close>

definition init_vars :: "int list" where
  "init_vars = map int [500 ..< nat DB_J1939_VOLVO_XBR_VAR]"

subsection \<open>Multipacket messages\<close>

record multipacket = mp_pdu :: "j1939_pdu list"
  mp_numpackets :: int
  mp_in_progress :: bool
  mp_pgn :: u16
  mp_received :: "int list"
  mp_timestamp :: "timestamp list"

abbreviation (input) J1939_MAX_FRAMES :: nat where "J1939_MAX_FRAMES \<equiv> 255"

text \<open>
  The receive mask and the time stamp of a multipacket variable: \<open>n\<close> is 4 for ECFG and 3 for RCFG.
  The mask is an \<open>unsigned char\<close>.  For RCFG the time stamp it starts from is that of the uninitialised buffer.
\<close>

fun receive_status :: "nat \<Rightarrow> nat \<Rightarrow> multipacket \<Rightarrow> u8 \<Rightarrow> timestamp \<Rightarrow> u8 \<times> timestamp" where
  "receive_status i 0 mp st ts = (st, ts)"
| "receive_status i (Suc k) mp st ts = (let st = push_bit 1 st OR word_of_int (mp_received mp ! i);
     ts = (if mp_received mp ! i \<noteq> 0 \<and> ts2_is_later_than_ts1 ts (mp_timestamp mp ! i) then mp_timestamp mp ! i else ts)
     in receive_status (Suc i) k mp st ts)"

definition set_multipacket_receive_status :: "u16 \<Rightarrow> multipacket \<Rightarrow> timestamp \<Rightarrow> u8 \<times> timestamp" where
  "set_multipacket_receive_status pgn mp uninit =
     (if pgn = ECFG then receive_status 0 4 mp 0 (mp_timestamp mp ! 0)
      else receive_status 0 3 mp 0 uninit)"

text \<open>
  A write to the database: the variable, the PDUs its conversion reads (one, or the array of the
  multipacket structure), the receive mask of a multipacket variable, and whether the update succeeded.
\<close>

record db_write = dw_num :: int
  dw_pgn :: u16
  dw_pdus :: "j1939_pdu list"
  dw_status :: "u8 option"
  dw_ok :: bool

record j1939_db = jd_log :: "db_write list"
  jd_receive_count :: int
  jd_update_err :: int

text \<open>
  \<open>write_pgn_to_database\<close>: \<open>generic\<close> stores everything as variable 500; a variable without an entry in
  \<open>db_ref\<close> would call a null pointer.  \<open>upd\<close> says whether the update of a variable succeeds.  For ECFG
  and RCFG the PDU is taken to be the start of a multipacket structure (\<open>multi\<close>) and the code reads on
  behind it, which is a fault when it is a single PDU (\<open>None\<close>).
\<close>

definition write_pgn_to_database :: "bool \<Rightarrow> (int \<Rightarrow> bool) \<Rightarrow> timestamp \<Rightarrow> u16 \<Rightarrow> j1939_pdu list \<Rightarrow> multipacket option \<Rightarrow>
    j1939_db \<Rightarrow> j1939_db option" where
  "write_pgn_to_database generic upd uninit pgn pdus multi d =
     (let db_num = fst (get_pgn_dbv pgn (pdus ! 0)); info = get_jdbv_info db_num;
          info = (if generic then Some 0 else info); db_num = (if generic then 500 else db_num);
          is_multi = (\<not> generic \<and> (pgn = ECFG \<or> pgn = RCFG))
      in if is_multi \<and> multi = None then None
         else case info of None \<Rightarrow> None
         | Some i \<Rightarrow> if i < length db_ref_pgn
             then let ok = upd db_num;
                st = (if is_multi then map_option (\<lambda>m. fst (set_multipacket_receive_status pgn m uninit)) multi else None) in
               Some (d\<lparr>jd_log := jd_log d @ [\<lparr>dw_num = db_num, dw_pgn = pgn, dw_pdus = pdus, dw_status = st, dw_ok = ok\<rparr>],
                       jd_receive_count := jd_receive_count d + 1,
                       jd_update_err := if ok then jd_update_err d else jd_update_err d + 1\<rparr>)
             else None)"

subsection \<open>The reader\<close>

record reader = rd_engine :: multipacket
  rd_retarder :: multipacket
  rd_errors :: int
  rd_received :: int
  rd_db :: j1939_db

text \<open>The options: generic mode, CAN or converter, trace, and the parameter groups to keep.\<close>

record rd_opts = ro_generic :: bool
  ro_use_can :: bool
  ro_trace :: bool
  ro_keep :: "u16 list"

text \<open>\<open>single_pgn && cfg->pgn == pgn_to_keep[0] || !single_pgn\<close>.\<close>

definition keeps_multi :: "rd_opts \<Rightarrow> u16 \<Rightarrow> bool" where
  "keeps_multi o' pgn \<longleftrightarrow> (case ro_keep o' of [] \<Rightarrow> True | p # _ \<Rightarrow> pgn = p)"

definition process_bam :: "rd_opts \<Rightarrow> (int \<Rightarrow> bool) \<Rightarrow> timestamp \<Rightarrow> multipacket \<Rightarrow> j1939_pdu \<Rightarrow> j1939_db \<Rightarrow>
    (multipacket \<times> j1939_db) option" where
  "process_bam o' upd uninit cfg pdu d = do {
     d \<leftarrow> (if mp_in_progress cfg \<and> keeps_multi o' (mp_pgn cfg)
           then write_pgn_to_database (ro_generic o') upd uninit (mp_pgn cfg) (mp_pdu cfg) (Some cfg) d else Some d);
     let n = int (unat (pd_data pdu ! 3));
     let cfg = cfg\<lparr>mp_numpackets := n\<rparr>;
     if n < 1 \<or> n > int J1939_MAX_FRAMES then Some (cfg, d)
     else Some (cfg\<lparr>mp_in_progress := True,
                   mp_received := replicate (nat n) 0 @ drop (nat n) (mp_received cfg)\<rparr>, d)
   }"

definition process_multipacket :: "rd_opts \<Rightarrow> (int \<Rightarrow> bool) \<Rightarrow> timestamp \<Rightarrow> timestamp \<Rightarrow> multipacket \<Rightarrow> j1939_pdu \<Rightarrow> j1939_db \<Rightarrow>
    (multipacket \<times> j1939_db) option" where
  "process_multipacket o' upd uninit now cfg pdu d =
     (let sequence = unat (pd_data pdu ! 0) in
      if sequence < 1 \<or> sequence > J1939_MAX_FRAMES then Some (cfg, d)
      else let cfg = (if \<not> mp_in_progress cfg
              then let n = (if pd_src pdu = 0 then 4 else 3) in
                cfg\<lparr>mp_in_progress := True, mp_numpackets := int n, mp_pgn := (if pd_src pdu = 0 then ECFG else RCFG),
                    mp_received := replicate n 0 @ drop n (mp_received cfg)\<rparr>
              else cfg);
            cfg = cfg\<lparr>mp_pdu := (mp_pdu cfg)[sequence - 1 := pdu], mp_received := (mp_received cfg)[sequence - 1 := 1],
                      mp_timestamp := (mp_timestamp cfg)[sequence - 1 := now]\<rparr>
        in if int sequence = mp_numpackets cfg \<and> keeps_multi o' (mp_pgn cfg) then do {
             d \<leftarrow> write_pgn_to_database (ro_generic o') upd uninit (mp_pgn cfg) (mp_pdu cfg) (Some cfg) d;
             Some (cfg\<lparr>mp_in_progress := False, mp_numpackets := 0\<rparr>, d)
           } else Some (cfg, d))"

text \<open>
  One pass of the main loop for the result \<open>rcv\<close> of the receive function and the PDU and \<open>external\<close>
  flag it left (\<open>now\<close> is the time, \<open>uninit\<close> as above); the fatal error ends the loop.  \<open>pgn_to_keep[0]\<close> is 0 without the option.
\<close>

definition rd_step :: "rd_opts \<Rightarrow> (int \<Rightarrow> bool) \<Rightarrow> timestamp \<Rightarrow> timestamp \<Rightarrow> int \<Rightarrow> j1939_pdu \<Rightarrow> int \<Rightarrow> reader \<Rightarrow> reader option" where
  "rd_step o' upd uninit now rcv pdu external s =
     (if rcv = J1939_RECEIVE_MESSAGE_ERROR then Some (s\<lparr>rd_errors := rd_errors s + 1\<rparr>)
      else let s = s\<lparr>rd_received := rd_received s + 1\<rparr>;
             pgn = (ucast (push_bit 8 (pd_format pdu) OR pd_specific pdu) :: u16)
        in if \<not> ro_use_can o' \<and> external = 0 then Some s
           else if ro_generic o' then
             map_option (\<lambda>d. s\<lparr>rd_db := d\<rparr>) (write_pgn_to_database True upd uninit pgn [pdu] None (rd_db s))
           else if pgn = TPCM \<and> pd_data pdu ! 0 = 32 then
             (let bpgn = push_bit 16 (ucast (pd_data pdu ! 7)) OR push_bit 8 (ucast (pd_data pdu ! 6)) OR
                    (ucast (pd_data pdu ! 5) :: u32)
              in if bpgn = 0xfee3 then map_option (\<lambda>(c, d). s\<lparr>rd_engine := c, rd_db := d\<rparr>)
                   (process_bam o' upd uninit ((rd_engine s)\<lparr>mp_pgn := ECFG\<rparr>) pdu (rd_db s))
                 else if bpgn = 0xfee1 then map_option (\<lambda>(c, d). s\<lparr>rd_retarder := c, rd_db := d\<rparr>)
                   (process_bam o' upd uninit ((rd_retarder s)\<lparr>mp_pgn := RCFG\<rparr>) pdu (rd_db s))
                 else Some s)
           else if pgn = TPDT then
             (if pd_src pdu = 0 then map_option (\<lambda>(c, d). s\<lparr>rd_engine := c, rd_db := d\<rparr>)
                (process_multipacket o' upd uninit now (rd_engine s) pdu (rd_db s))
              else if pd_src pdu = 0x10 \<or> pd_src pdu = 0xf then map_option (\<lambda>(c, d). s\<lparr>rd_retarder := c, rd_db := d\<rparr>)
                (process_multipacket o' upd uninit now (rd_retarder s) pdu (rd_db s))
              else Some s)
           else let keep0 = (case ro_keep o' of [] \<Rightarrow> 0 | p # _ \<Rightarrow> p) in
             if (ro_keep o' \<noteq> [] \<and> pgn \<in> set (ro_keep o') \<or> keep0 = PDU \<or> ro_keep o' = []) \<and> \<not> ro_trace o' then
               map_option (\<lambda>d. s\<lparr>rd_db := d\<rparr>) (write_pgn_to_database False upd uninit pgn [pdu] None (rd_db s))
             else Some s)"

subsection \<open>The tables agree\<close>

lemma HIBYTE_eq: "HIBYTE pgn = ucast (drop_bit 8 pgn)"
proof (rule bit_word_eqI)
  fix n assume "n < LENGTH(8)"
  then show "bit (HIBYTE pgn) n = bit (ucast (drop_bit 8 pgn) :: u8) n"
    unfolding HIBYTE_def mask_nums bit_unsigned_iff bit_drop_bit_eq comp_def bit_and_iff bit_push_bit_iff bit_mask_iff
    by (auto dest: bit_imp_le_length)
qed

lemma LOBYTE_eq: "LOBYTE pgn = ucast pgn"
  by (rule bit_word_eqI) (auto simp: LOBYTE_def mask_nums bit_simps)

lemma TWOBYTES_bytes: "TWOBYTES (HIBYTE w) (LOBYTE w) = w"
proof (rule bit_word_eqI)
  fix n assume n: "n < LENGTH(16)"
  have u: "(ucast (b :: u8) AND 0xff :: u16) = ucast b" for b
    by (rule bit_word_eqI) (auto simp: mask_nums bit_simps dest: bit_imp_le_length)
  show "bit (TWOBYTES (HIBYTE w) (LOBYTE w)) n = bit w n"
    using n unfolding TWOBYTES_def u HIBYTE_eq LOBYTE_eq bit_or_iff bit_push_bit_iff bit_unsigned_iff bit_drop_bit_eq comp_def
    by (cases "n < 8") auto
qed

lemma pgn_is: "HIBYTE pgn = h \<Longrightarrow> LOBYTE pgn = l \<Longrightarrow> pgn = TWOBYTES h l"
  using TWOBYTES_bytes by metis

lemma table_ranges:
  "500 \<le> pdu2_239 l \<and> pdu2_239 l \<le> 551" "500 \<le> pdu2_240 l \<and> pdu2_240 l \<le> 551"
  "500 \<le> pdu2_254 l \<and> pdu2_254 l \<le> 551" "500 \<le> pdu2_255 l \<and> pdu2_255 l \<le> 551"
  by (simp_all add: pdu2_239_def pdu2_240_def pdu2_254_def pdu2_255_def)

lemma table_lookup_range:
  "500 \<le> (case pdu1_index h of (None, n) \<Rightarrow> n | (Some t, n) \<Rightarrow> t l) \<and>
   (case pdu1_index h of (None, n) \<Rightarrow> n | (Some t, n) \<Rightarrow> t l) \<le> 551"
  using table_ranges[of l] by (simp add: pdu1_index_def)

lemma get_pgn_dbv_range:
  "500 \<le> fst (get_pgn_dbv pgn pdu) \<and> fst (get_pgn_dbv pgn pdu) \<le> 551"
proof -
  define n where "n = (case pdu1_index (HIBYTE pgn) of (None, n) \<Rightarrow> n | (Some t, n) \<Rightarrow> t (LOBYTE pgn))"
  have "500 \<le> n" "n \<le> 551" unfolding n_def using table_lookup_range by blast+
  then show ?thesis unfolding get_pgn_dbv_def n_def[symmetric] by (simp add: Let_def tsc1_dbv_def)
qed

lemma get_pgn_dbv_index:
  "get_jdbv_info (fst (get_pgn_dbv pgn pdu)) = Some (nat (fst (get_pgn_dbv pgn pdu) - 500)) \<and>
   nat (fst (get_pgn_dbv pgn pdu) - 500) < length db_ref_pgn"
proof -
  have "length db_ref_pgn = 52" by (simp add: db_ref_pgn_def)
  then show ?thesis using get_pgn_dbv_range[of pgn pdu] unfolding get_jdbv_info_def by auto
qed

text \<open>The hand-entered tables: a message of the PDU 2 range that is known has the entry of its group.\<close>

definition entry_ok :: "u8 \<Rightarrow> u8 \<Rightarrow> int \<Rightarrow> bool" where
  "entry_ok h l n \<longleftrightarrow> n = 500 \<or> db_ref_pgn ! nat (n - 500) = TWOBYTES h l"

lemma entry_ok_const: "entry_ok h l ((\<lambda>_. 500) l)"
  by (simp add: entry_ok_def)

lemma entry_ok_upd:
  assumes "\<And>l. entry_ok h l (f l)" "db_ref_pgn ! nat (v - 500) = TWOBYTES h k"
  shows "entry_ok h l ((f(k := v)) l)"
  using assms by (auto simp: entry_ok_def)

lemma entry_ok_tables:
  "entry_ok 239 l (pdu2_239 l)" "entry_ok 240 l (pdu2_240 l)" "entry_ok 254 l (pdu2_254 l)" "entry_ok 255 l (pdu2_255 l)"
  unfolding pdu2_239_def pdu2_240_def pdu2_254_def pdu2_255_def
  by (intro entry_ok_upd entry_ok_const; simp add: db_ref_pgn_def TWOBYTES_def)+

lemma get_pgn_dbv_entry:
  assumes "HIBYTE pgn \<noteq> 0" "fst (get_pgn_dbv pgn pdu) \<noteq> 500"
  shows "db_ref_pgn ! nat (fst (get_pgn_dbv pgn pdu) - 500) = pgn"
proof -
  let ?h = "HIBYTE pgn" and ?l = "LOBYTE pgn"
  define n where "n = (case pdu1_index ?h of (None, n) \<Rightarrow> n | (Some t, n) \<Rightarrow> t ?l)"
  have n: "entry_ok ?h ?l n \<and> n \<noteq> DB_J1939_TSC1_VAR"
  proof -
    have not523: "pdu2_239 l \<noteq> 523" "pdu2_240 l \<noteq> 523" "pdu2_254 l \<noteq> 523" "pdu2_255 l \<noteq> 523" for l
      by (simp_all add: pdu2_239_def pdu2_240_def pdu2_254_def pdu2_255_def)
    show ?thesis unfolding n_def pdu1_index_def using assms(1) entry_ok_tables[of ?l] not523[of ?l]
      by (simp add: entry_ok_def)
  qed
  have dups: "db_ref_pgn ! 24 = db_ref_pgn ! 1" "db_ref_pgn ! 49 = db_ref_pgn ! 6" "db_ref_pgn ! 25 = db_ref_pgn ! 21"
    by (simp_all add: db_ref_pgn_def)
  have "n \<noteq> 500" using assms(2) unfolding get_pgn_dbv_def n_def[symmetric] by (auto simp: Let_def split: if_splits)
  then have "db_ref_pgn ! nat (n - 500) = pgn" using n TWOBYTES_bytes[of pgn] by (simp add: entry_ok_def)
  then show ?thesis unfolding get_pgn_dbv_def n_def[symmetric] using n dups by (auto simp: Let_def)
qed

subsection \<open>Reassembly of a multipacket message\<close>

text \<open>The packets of a message, each with the time it came in at.\<close>

fun mp_packets :: "rd_opts \<Rightarrow> (int \<Rightarrow> bool) \<Rightarrow> timestamp \<Rightarrow> (timestamp \<times> j1939_pdu) list \<Rightarrow> multipacket \<Rightarrow> j1939_db \<Rightarrow>
    (multipacket \<times> j1939_db) option" where
  "mp_packets o' upd uninit [] cfg d = Some (cfg, d)"
| "mp_packets o' upd uninit ((now, p) # ps) cfg d = do {
     (cfg, d) \<leftarrow> process_multipacket o' upd uninit now cfg p d;
     mp_packets o' upd uninit ps cfg d
   }"

lemma mp_packets_app:
  "mp_packets o' upd uninit (xs @ ys) c d = do {
     (c, d) \<leftarrow> mp_packets o' upd uninit xs c d; mp_packets o' upd uninit ys c d }"
  by (induction xs arbitrary: c d) (auto split: prod.splits option.splits simp: Option.bind_eq_None_conv intro!: Option.bind_cong)

definition mp_ok :: "multipacket \<Rightarrow> bool" where
  "mp_ok cfg \<longleftrightarrow> length (mp_pdu cfg) = J1939_MAX_FRAMES \<and> length (mp_received cfg) = J1939_MAX_FRAMES \<and>
     length (mp_timestamp cfg) = J1939_MAX_FRAMES"

text \<open>The packets number themselves from \<open>k\<close> on.\<close>

definition numbered :: "nat \<Rightarrow> (timestamp \<times> j1939_pdu) list \<Rightarrow> bool" where
  "numbered k ps \<longleftrightarrow> (\<forall>i < length ps. unat (pd_data (snd (ps ! i)) ! 0) = k + i)"

lemma numbered_app: "numbered k (xs @ ys) \<Longrightarrow> numbered k xs"
  unfolding numbered_def by (metis (no_types, lifting) length_append nth_append trans_less_add1)

definition put_at :: "nat \<Rightarrow> 'x list \<Rightarrow> 'x list \<Rightarrow> 'x list" where
  "put_at k xs ys = take k ys @ xs @ drop (k + length xs) ys"

lemma put_at_Nil [simp]: "put_at k [] ys = ys"
  by (simp add: put_at_def)

lemma put_at_Cons: "k + length xs < length ys \<Longrightarrow> put_at (Suc k) xs (ys[k := x]) = put_at k (x # xs) ys"
  by (simp add: put_at_def take_Suc_conv_app_nth drop_update_cancel)

lemma mp_packets_prefix:
  "numbered (Suc k) ps \<Longrightarrow> mp_in_progress cfg \<Longrightarrow> int (k + length ps) < mp_numpackets cfg \<Longrightarrow>
   mp_numpackets cfg \<le> int J1939_MAX_FRAMES \<Longrightarrow> mp_ok cfg \<Longrightarrow>
   mp_packets o' upd uninit ps cfg d = Some (cfg\<lparr>mp_pdu := put_at k (map snd ps) (mp_pdu cfg),
     mp_received := put_at k (map (\<lambda>_. 1) ps) (mp_received cfg),
     mp_timestamp := put_at k (map fst ps) (mp_timestamp cfg)\<rparr>, d)"
proof (induction ps arbitrary: k cfg)
  case Nil
  then show ?case by simp
next
  case (Cons tp ps)
  obtain now p where tp: "tp = (now, p)" by fastforce
  have s: "unat (pd_data p ! 0) = Suc k" using Cons.prems(1) tp by (auto simp: numbered_def)
  have num: "numbered (Suc (Suc k)) ps" using Cons.prems(1) unfolding numbered_def
    by (metis Suc_less_eq length_Cons nth_Cons_Suc add_Suc_shift)
  define cfg' where "cfg' = cfg\<lparr>mp_pdu := (mp_pdu cfg)[k := p], mp_received := (mp_received cfg)[k := 1],
      mp_timestamp := (mp_timestamp cfg)[k := now]\<rparr>"
  have step: "process_multipacket o' upd uninit now cfg p d = Some (cfg', d)"
    using s Cons.prems(2,3,4) by (simp add: process_multipacket_def Let_def cfg'_def)
  have "mp_packets o' upd uninit ps cfg' d = Some (cfg'\<lparr>mp_pdu := put_at (Suc k) (map snd ps) (mp_pdu cfg'),
     mp_received := put_at (Suc k) (map (\<lambda>_. 1) ps) (mp_received cfg'),
     mp_timestamp := put_at (Suc k) (map fst ps) (mp_timestamp cfg')\<rparr>, d)"
    by (rule Cons.IH[OF num]) (use Cons.prems(2-5) in \<open>simp_all add: cfg'_def mp_ok_def\<close>)
  moreover have "k + length ps < J1939_MAX_FRAMES" using Cons.prems(3,4) by simp
  ultimately show ?case using step tp Cons.prems(5) by (simp add: cfg'_def mp_ok_def put_at_Cons)
qed

lemma write_multi:
  assumes "pgn = ECFG \<or> pgn = RCFG" "\<not> g"
  shows "\<exists>e. write_pgn_to_database g upd uninit pgn ps (Some cfg) d = Some (d\<lparr>jd_log := jd_log d @ [e],
      jd_receive_count := jd_receive_count d + 1, jd_update_err := jd_update_err d + (if dw_ok e then 0 else 1)\<rparr>) \<and>
    dw_pgn e = pgn \<and> dw_pdus e = ps \<and> dw_num e = fst (get_pgn_dbv pgn (ps ! 0)) \<and>
    dw_status e = Some (fst (set_multipacket_receive_status pgn cfg uninit))"
proof -
  let ?n = "fst (get_pgn_dbv pgn (ps ! 0))"
  let ?e = "\<lparr>dw_num = ?n, dw_pgn = pgn, dw_pdus = ps,
     dw_status = Some (fst (set_multipacket_receive_status pgn cfg uninit)), dw_ok = upd ?n\<rparr>"
  show ?thesis
    by (rule exI[of _ ?e]) (use assms get_pgn_dbv_index[of pgn "ps ! 0"] in \<open>simp add: write_pgn_to_database_def Let_def\<close>)
qed

text \<open>
  A message of \<open>n\<close> packets, announced and then received in order: nothing is written before its last
  packet, and then exactly the packets received.
\<close>

lemma mp_message:
  assumes num: "numbered 1 ps" and n: "ps \<noteq> []" "length ps \<le> J1939_MAX_FRAMES"
    and cfg: "mp_ok cfg" "mp_in_progress cfg" "mp_numpackets cfg = int (length ps)" "keeps_multi o' (mp_pgn cfg)"
    and pgn: "mp_pgn cfg = ECFG \<or> mp_pgn cfg = RCFG" "\<not> ro_generic o'"
  shows "\<exists>cfg' e. mp_packets o' upd uninit ps cfg d = Some (cfg', d\<lparr>jd_log := jd_log d @ [e],
      jd_receive_count := jd_receive_count d + 1, jd_update_err := jd_update_err d + (if dw_ok e then 0 else 1)\<rparr>) \<and>
    dw_pgn e = mp_pgn cfg \<and> take (length ps) (dw_pdus e) = map snd ps \<and>
    dw_status e = Some (fst (set_multipacket_receive_status (mp_pgn cfg) cfg' uninit)) \<and>
    take (length ps) (mp_received cfg') = map (\<lambda>_. 1) ps \<and> \<not> mp_in_progress cfg' \<and> mp_ok cfg'"
proof -
  obtain qs now p where ps: "ps = qs @ [(now, p)]" using n(1) by (metis rev_exhaust surj_pair)
  have numq: "numbered (Suc 0) qs" using num ps numbered_app[of 1 qs "[(now, p)]"] by simp
  have s: "unat (pd_data p ! 0) = Suc (length qs)"
    using num by (auto simp: numbered_def ps nth_append dest!: spec[of _ "length qs"])
  let ?k = "length qs"
  have k: "?k < J1939_MAX_FRAMES" using n(2) ps by simp
  define c1 where "c1 = cfg\<lparr>mp_pdu := put_at 0 (map snd qs) (mp_pdu cfg), mp_received := put_at 0 (map (\<lambda>_. 1) qs) (mp_received cfg),
      mp_timestamp := put_at 0 (map fst qs) (mp_timestamp cfg)\<rparr>"
  have pre: "mp_packets o' upd uninit qs cfg d = Some (c1, d)"
    unfolding c1_def by (rule mp_packets_prefix[OF numq]) (use cfg n ps in auto)
  define c2 where "c2 = c1\<lparr>mp_pdu := (mp_pdu c1)[?k := p], mp_received := (mp_received c1)[?k := 1],
      mp_timestamp := (mp_timestamp c1)[?k := now]\<rparr>"
  have c1: "mp_in_progress c1" "mp_numpackets c1 = int (Suc ?k)" "mp_pgn c1 = mp_pgn cfg" using cfg ps by (simp_all add: c1_def)
  obtain e where e: "write_pgn_to_database (ro_generic o') upd uninit (mp_pgn cfg) (mp_pdu c2) (Some c2) d =
      Some (d\<lparr>jd_log := jd_log d @ [e], jd_receive_count := jd_receive_count d + 1,
        jd_update_err := jd_update_err d + (if dw_ok e then 0 else 1)\<rparr>)"
    "dw_pgn e = mp_pgn cfg" "dw_pdus e = mp_pdu c2"
    "dw_status e = Some (fst (set_multipacket_receive_status (mp_pgn cfg) c2 uninit))"
    using write_multi[OF pgn, of upd uninit "mp_pdu c2" c2 d] by blast
  let ?c3 = "c2\<lparr>mp_in_progress := False, mp_numpackets := 0\<rparr>"
  have last: "process_multipacket o' upd uninit now c1 p d = Some (?c3, d\<lparr>jd_log := jd_log d @ [e],
      jd_receive_count := jd_receive_count d + 1, jd_update_err := jd_update_err d + (if dw_ok e then 0 else 1)\<rparr>)"
    using s k c1 cfg(4) e(1) by (simp add: process_multipacket_def Let_def c2_def[symmetric]) (simp add: c2_def)
  have "set_multipacket_receive_status g ?c3 uninit = set_multipacket_receive_status g c2 uninit" for g
  proof -
    have "receive_status i j (c2\<lparr>mp_in_progress := False, mp_numpackets := 0\<rparr>) st ts = receive_status i j c2 st ts" for i j st ts
      by (induction j arbitrary: i st ts) (simp_all add: Let_def)
    then show ?thesis by (simp add: set_multipacket_receive_status_def)
  qed
  moreover have "take (length ps) (mp_pdu c2) = map snd ps" "take (length ps) (mp_received c2) = map (\<lambda>_. 1) ps"
    using cfg(1) k ps by (simp_all add: c2_def c1_def put_at_def mp_ok_def take_Suc_conv_app_nth)
  moreover have "mp_ok ?c3" using cfg(1) k by (simp add: c2_def c1_def put_at_def mp_ok_def)
  ultimately show ?thesis using pre last e(2-4) ps by (intro exI[of _ ?c3] exI[of _ e]) (simp add: mp_packets_app)
qed

text \<open>
  Packets may be lost on the way: whatever packets came before the last one, in any order, the message
  is written when the last one comes, and the mask of the variable tells which ones came.
\<close>

abbreviation (input) seq_no :: "timestamp \<times> j1939_pdu \<Rightarrow> nat" where
  "seq_no tp \<equiv> unat (pd_data (snd tp) ! 0)"

lemma mp_packets_lossy:
  assumes "mp_ok cfg" "mp_in_progress cfg" "mp_numpackets cfg \<le> int J1939_MAX_FRAMES"
    "\<forall>tp \<in> set ps. 1 \<le> seq_no tp \<and> seq_no tp < nat (mp_numpackets cfg)"
  shows "\<exists>cfg'. mp_packets o' upd uninit ps cfg d = Some (cfg', d) \<and> mp_ok cfg' \<and> mp_in_progress cfg' \<and>
    mp_numpackets cfg' = mp_numpackets cfg \<and> mp_pgn cfg' = mp_pgn cfg \<and>
    (\<forall>i < J1939_MAX_FRAMES. mp_received cfg' ! i =
       (if Suc i \<in> seq_no ` set ps then 1 else mp_received cfg ! i))"
  using assms
proof (induction ps arbitrary: cfg)
  case (Cons tp ps)
  obtain now p where tp: "tp = (now, p)" by fastforce
  let ?k = "seq_no tp - 1"
  define cfg1 where "cfg1 = cfg\<lparr>mp_pdu := (mp_pdu cfg)[?k := p], mp_received := (mp_received cfg)[?k := 1],
      mp_timestamp := (mp_timestamp cfg)[?k := now]\<rparr>"
  have k: "1 \<le> seq_no tp" "seq_no tp \<le> J1939_MAX_FRAMES" "int (seq_no tp) \<noteq> mp_numpackets cfg"
  proof -
    have s: "1 \<le> seq_no tp \<and> seq_no tp < nat (mp_numpackets cfg)" using Cons.prems(4) by simp
    have "nat (mp_numpackets cfg) \<le> J1939_MAX_FRAMES" using Cons.prems(3) by simp
    with s show "1 \<le> seq_no tp" "seq_no tp \<le> J1939_MAX_FRAMES" by (blast, meson le_trans less_imp_le)
    show "int (seq_no tp) \<noteq> mp_numpackets cfg"
    proof
      assume "int (seq_no tp) = mp_numpackets cfg"
      then have "seq_no tp = nat (mp_numpackets cfg)" by (metis nat_int)
      then show False using s by simp
    qed
  qed
  have step: "process_multipacket o' upd uninit now cfg p d = Some (cfg1, d)"
    using k Cons.prems(2) tp by (simp add: process_multipacket_def Let_def cfg1_def)
  have c1: "mp_ok cfg1" "mp_in_progress cfg1" "mp_numpackets cfg1 = mp_numpackets cfg" "mp_pgn cfg1 = mp_pgn cfg"
    using Cons.prems(1,2) by (simp_all add: cfg1_def mp_ok_def)
  obtain cfg' where c: "mp_packets o' upd uninit ps cfg1 d = Some (cfg', d)" "mp_ok cfg'" "mp_in_progress cfg'"
    "mp_numpackets cfg' = mp_numpackets cfg" "mp_pgn cfg' = mp_pgn cfg"
    "\<forall>i < J1939_MAX_FRAMES. mp_received cfg' ! i = (if Suc i \<in> seq_no ` set ps then 1 else mp_received cfg1 ! i)"
    using Cons.IH[OF c1(1,2)] Cons.prems(3,4) c1 by auto
  have "mp_received cfg1 ! i = (if Suc i = seq_no tp then 1 else mp_received cfg ! i)" if "i < J1939_MAX_FRAMES" for i
    using that k(1) Cons.prems(1) by (auto simp: cfg1_def mp_ok_def nth_list_update)
  then show ?case using step c tp by (intro exI[of _ cfg']) auto
qed simp

lemma receive_mask:
  assumes "\<forall>i < n. mp_received cfg ! i \<in> {0, 1}" "n = 3 \<or> n = 4" "i < n"
  shows "bit (fst (receive_status 0 n cfg 0 ts)) (n - 1 - i) \<longleftrightarrow> mp_received cfg ! i = 1"
proof -
  from assms(2) show ?thesis
  proof
    assume n: "n = 3"
    then have "mp_received cfg ! 0 \<in> {0, 1}" "mp_received cfg ! 1 \<in> {0, 1}" "mp_received cfg ! 2 \<in> {0, 1}"
      using assms(1) by simp_all
    moreover have "i = 0 \<or> i = 1 \<or> i = 2" using assms(3) n by auto
    ultimately show ?thesis using n by (auto simp: eval_nat_numeral)
  next
    assume n: "n = 4"
    then have "mp_received cfg ! 0 \<in> {0, 1}" "mp_received cfg ! 1 \<in> {0, 1}" "mp_received cfg ! 2 \<in> {0, 1}" "mp_received cfg ! 3 \<in> {0, 1}"
      using assms(1) by simp_all
    moreover have "i = 0 \<or> i = 1 \<or> i = 2 \<or> i = 3" using assms(3) n by auto
    ultimately show ?thesis using n by (auto simp: eval_nat_numeral)
  qed
qed

lemma mp_lossy_message:
  assumes bam: "process_bam o' upd uninit cfg bam d = Some (cfg0, d)" "mp_ok cfg" "pd_data bam ! 3 = word_of_int n"
    and pgn: "mp_pgn cfg = ECFG \<and> n = 4 \<or> mp_pgn cfg = RCFG \<and> n = 3" "keeps_multi o' (mp_pgn cfg)" "\<not> ro_generic o'"
    and ps: "\<forall>tp \<in> set ps. 1 \<le> seq_no tp \<and> seq_no tp < nat n" "seq_no lst = nat n"
  shows "\<exists>cfg' e st. mp_packets o' upd uninit (ps @ [lst]) cfg0 d = Some (cfg', d\<lparr>jd_log := jd_log d @ [e],
      jd_receive_count := jd_receive_count d + 1, jd_update_err := jd_update_err d + (if dw_ok e then 0 else 1)\<rparr>) \<and>
    dw_pgn e = mp_pgn cfg \<and> dw_status e = Some st \<and> \<not> mp_in_progress cfg' \<and>
    (\<forall>i < nat n. bit st (nat n - 1 - i) \<longleftrightarrow> Suc i \<in> seq_no ` set (ps @ [lst]))"
proof -
  have n: "n = 3 \<or> n = 4" "int (unat (pd_data bam ! 3)) = n" using pgn(1) bam(3) by auto
  have c0: "cfg0 = cfg\<lparr>mp_numpackets := n, mp_in_progress := True,
      mp_received := replicate (nat n) 0 @ drop (nat n) (mp_received cfg)\<rparr>"
    using bam(1) n unfolding process_bam_def
    by (cases "mp_in_progress cfg \<and> keeps_multi o' (mp_pgn cfg)") (auto simp: Let_def Option.bind_eq_Some_conv split: if_splits)
  have "mp_ok cfg0" "mp_in_progress cfg0" "mp_numpackets cfg0 = n" "mp_pgn cfg0 = mp_pgn cfg"
    using bam(2) n c0 by (auto simp: mp_ok_def)
  then obtain c1 where c1: "mp_packets o' upd uninit ps cfg0 d = Some (c1, d)" "mp_ok c1" "mp_in_progress c1"
    "mp_numpackets c1 = n" "mp_pgn c1 = mp_pgn cfg"
    "\<forall>i < J1939_MAX_FRAMES. mp_received c1 ! i = (if Suc i \<in> seq_no ` set ps then 1 else mp_received cfg0 ! i)"
    using mp_packets_lossy[of cfg0 ps o' upd uninit d] ps(1) n(1) by auto
  obtain now p where l: "lst = (now, p)" by fastforce
  let ?k = "seq_no lst - 1"
  define c2 where "c2 = c1\<lparr>mp_pdu := (mp_pdu c1)[?k := p], mp_received := (mp_received c1)[?k := 1],
      mp_timestamp := (mp_timestamp c1)[?k := now]\<rparr>"
  obtain e where e: "write_pgn_to_database (ro_generic o') upd uninit (mp_pgn cfg) (mp_pdu c2) (Some c2) d =
      Some (d\<lparr>jd_log := jd_log d @ [e], jd_receive_count := jd_receive_count d + 1,
        jd_update_err := jd_update_err d + (if dw_ok e then 0 else 1)\<rparr>)"
    "dw_pgn e = mp_pgn cfg" "dw_status e = Some (fst (set_multipacket_receive_status (mp_pgn cfg) c2 uninit))"
    using write_multi[of "mp_pgn cfg" "ro_generic o'" upd uninit "mp_pdu c2" c2 d] pgn(1,3) by blast
  let ?c3 = "c2\<lparr>mp_in_progress := False, mp_numpackets := 0\<rparr>"
  have last: "process_multipacket o' upd uninit now c1 p d = Some (?c3, d\<lparr>jd_log := jd_log d @ [e],
      jd_receive_count := jd_receive_count d + 1, jd_update_err := jd_update_err d + (if dw_ok e then 0 else 1)\<rparr>)"
  proof -
    have s: "unat (pd_data p ! 0) = nat n" "1 \<le> nat n" "nat n \<le> 255" "int (nat n) = n" using ps(2) l n(1) by auto
    have k: "?k = nat n - 1" using ps(2) by simp
    show ?thesis using s c1(3-5) pgn(2) e(1) unfolding process_multipacket_def Let_def c2_def k by simp
  qed
  define S where "S = seq_no ` set (ps @ [lst])"
  have rec: "mp_received c2 ! i = (if Suc i \<in> S then 1 else 0)" if "i < nat n" for i
  proof -
    have "mp_received cfg0 ! i = 0" using that c0 n(1) by (auto simp: nth_append)
    moreover have "mp_received c1 ! i = (if Suc i \<in> seq_no ` set ps then 1 else mp_received cfg0 ! i)"
      by (rule c1(6)[rule_format]) (use that n(1) in auto)
    moreover have "mp_received c2 ! i = (if Suc i = seq_no lst then 1 else mp_received c1 ! i)"
      using that n(1) c1(2) ps(2) by (auto simp: c2_def mp_ok_def nth_list_update)
    moreover have "Suc i \<in> S \<longleftrightarrow> Suc i \<in> seq_no ` set ps \<or> Suc i = seq_no lst"
      unfolding S_def set_append image_Un list.set image_insert image_empty by blast
    ultimately show ?thesis by metis
  qed
  then have z: "\<forall>i < nat n. mp_received c2 ! i \<in> {0, 1}" by simp
  have "bit (fst (receive_status 0 (nat n) c2 0 ts)) (nat n - 1 - i) \<longleftrightarrow> Suc i \<in> S" if "i < nat n" for i ts
    using receive_mask[OF z _ that, of ts] rec[OF that] n(1) by (auto split: if_splits)
  then have "\<forall>i < nat n. bit (fst (set_multipacket_receive_status (mp_pgn cfg) c2 uninit)) (nat n - 1 - i) \<longleftrightarrow> Suc i \<in> S"
    using pgn(1) by (auto simp: set_multipacket_receive_status_def)
  then show ?thesis using c1(1) last l e(2,3)
    by (intro exI[of _ ?c3] exI[of _ e] exI[of _ "fst (set_multipacket_receive_status (mp_pgn cfg) c2 uninit)"])
       (simp add: mp_packets_app S_def)
qed

end
