(* ===== verification/J1939Scale.thy ===== *)
theory J1939Scale
  imports Complex_Main J1939 Timestamp
begin

text \<open>
  The conversion of bus values to units (can/jbus/src/j1939scale.c).  A \<open>float\<close> is the exact
  rational value of the expression: the rounding of the last place is not modelled.  The two
  coders and the decoders they belong to (\<open>code_engine_speed\<close> and \<open>speed_in_rpm_2byte\<close>,
  \<open>code_percent_m125_to_p125\<close> and \<open>percent_m125_to_p125\<close>) compute without rounding in C as well: the
  values are multiples of 1/8 and of 1 and far below 2 to the 24th.
\<close>

type_synonym cfloat = rat

abbreviation (input) num :: "'a::len word \<Rightarrow> cfloat" where "num w \<equiv> of_nat (unat w)"

definition BYTE3 :: "u32 \<Rightarrow> u32" where "BYTE3 x = drop_bit 24 (x AND 0xff000000)"

subsection \<open>Values of one byte\<close>

definition percent_0_to_100 :: "u8 \<Rightarrow> cfloat" where
  "percent_0_to_100 data = (if data \<le> 250 then num data * (4 / 1000) * 100 else 0 - num data)"
definition percent_0_to_250 :: "u8 \<Rightarrow> cfloat" where
  "percent_0_to_250 data = (if data \<le> 250 then num data * 1 else 0 - num data)"

text \<open>\<open>data/5\<close> is an integer division.\<close>

definition percent_m25_to_p25 :: "u8 \<Rightarrow> cfloat" where
  "percent_m25_to_p25 data = (if data \<le> 250 then of_nat (unat data div 5) - 25 else 0 - num data)"
definition percent_m125_to_p125 :: "u8 \<Rightarrow> cfloat" where
  "percent_m125_to_p125 data = (if data \<le> 250 then num data - 125 else 0 - num data)"

definition code_percent_m125_to_p125 :: "cfloat \<Rightarrow> u8" where
  "code_percent_m125_to_p125 percent =
     (if percent > 125 \<or> percent < - 125 then 255 else word_of_int (\<lceil>percent - 1 / 2\<rceil> + 125))"

definition gear_m125_to_p125 :: "u8 \<Rightarrow> int" where
  "gear_m125_to_p125 data = (let v = int (unat data) in if v \<le> 250 then v - 125 else if v = 251 then 251 else 0 - v)"

definition pressure_0_to_4000kpa :: "u8 \<Rightarrow> cfloat" where
  "pressure_0_to_4000kpa data = (if data \<le> 250 then num data * 16 else 0 - num data)"
definition pressure_0_to_1000kpa :: "u8 \<Rightarrow> cfloat" where
  "pressure_0_to_1000kpa data = (if data \<le> 250 then num data * 4 else 0 - num data)"
definition pressure_0_to_500kpa :: "u8 \<Rightarrow> cfloat" where
  "pressure_0_to_500kpa data = (if data \<le> 250 then num data * 2 else 0 - num data)"
definition pressure_0_to_125kpa :: "u8 \<Rightarrow> cfloat" where
  "pressure_0_to_125kpa data = (if data \<le> 250 then num data * (1 / 2) else 0 - num data)"
definition pressure_0_to_12kpa :: "u8 \<Rightarrow> cfloat" where
  "pressure_0_to_12kpa data = (if data \<le> 250 then num data * (5 / 100) else 0 - num data)"
definition speed_in_rpm_1byte :: "u8 \<Rightarrow> cfloat" where
  "speed_in_rpm_1byte data = (if data \<le> 250 then num data * 10 else 0 - num data)"
definition wheel_based_mps_relative :: "u8 \<Rightarrow> cfloat" where
  "wheel_based_mps_relative data =
     (if data \<le> 250 then (num data * (625 / 10000) - 78125 / 10000) * (1000 / 3600) else 0 - num data)"
definition cruise_control_set_meters_per_sec :: "u8 \<Rightarrow> cfloat" where
  "cruise_control_set_meters_per_sec data = (if data \<le> 250 then num data * (1000 / 3600) else 0 - num data)"
definition time_0_to_25sec :: "u8 \<Rightarrow> cfloat" where
  "time_0_to_25sec data = (if data \<le> 250 then num data * (1 / 10) else 0 - num data)"
definition temp_m40_to_p210 :: "u8 \<Rightarrow> cfloat" where
  "temp_m40_to_p210 data = (if data \<le> 250 then num data - 40 else 0 - num data)"
definition current_m125_to_p125amp :: "u8 \<Rightarrow> cfloat" where
  "current_m125_to_p125amp data = (if data \<le> 250 then num data - 125 else 0 - num data)"
definition current_0_to_250amp :: "u8 \<Rightarrow> cfloat" where
  "current_0_to_250amp data = (if data \<le> 250 then num data - 0 else 0 - num data)"
definition brake_demand :: "u8 \<Rightarrow> cfloat" where
  "brake_demand data = (if data \<le> 250 then num data * (4 / 100) - 10 else num data)"
definition mass_0_to_100t :: "u8 \<Rightarrow> cfloat" where
  "mass_0_to_100t data = (if data \<le> 250 then num data * (4 / 10) else 0 - num data)"

subsection \<open>Values of two and four bytes\<close>

definition gear_ratio :: "u16 \<Rightarrow> cfloat" where
  "gear_ratio data = (if HIBYTE data \<le> 250 then num data * (1 / 1000) else 0 - num (HIBYTE data))"

text \<open>Here \<open>data/128\<close> is an integer division, and the error value is the whole word.\<close>

definition pressure_m250_to_p252kpa :: "u16 \<Rightarrow> cfloat" where
  "pressure_m250_to_p252kpa data = (if HIBYTE data \<le> 250 then of_nat (unat data div 128) - 250 else 0 - num data)"
definition rotor_speed_in_rpm :: "u16 \<Rightarrow> cfloat" where
  "rotor_speed_in_rpm data = (if HIBYTE data \<le> 250 then num data * 4 else 0 - num (HIBYTE data))"
definition speed_in_rpm_2byte :: "u16 \<Rightarrow> cfloat" where
  "speed_in_rpm_2byte data = (if HIBYTE data \<le> 250 then num data * (125 / 1000) else 0 - num (HIBYTE data))"

definition code_engine_speed :: "cfloat \<Rightarrow> u16" where
  "code_engine_speed speed = (if speed > 8031875 / 1000 \<or> speed < 0 then push_bit 8 255 else word_of_int \<lceil>speed * 8 - 1 / 2\<rceil>)"

definition wheel_based_mps :: "u16 \<Rightarrow> cfloat" where
  "wheel_based_mps data = (if HIBYTE data \<le> 250 then (num (HIBYTE data) + num (LOBYTE data) / 256) * (1000 / 3600)
     else 0 - num (HIBYTE data))"
definition fuel_rate_cm3_per_sec :: "u16 \<Rightarrow> cfloat" where
  "fuel_rate_cm3_per_sec data = (if HIBYTE data \<le> 250 then num data * (5 / 100) * 1000 / 3600 else 0 - num (HIBYTE data))"
definition fuel_economy_meters_per_cm3 :: "u16 \<Rightarrow> cfloat" where
  "fuel_economy_meters_per_cm3 data = (if HIBYTE data \<le> 250 then num data * (1 / 512) else 0 - num (HIBYTE data))"
definition torque_in_nm :: "u16 \<Rightarrow> cfloat" where
  "torque_in_nm data = (if HIBYTE data \<le> 250 then num data * 1 else 0 - num (HIBYTE data))"
definition gain_in_kp :: "u16 \<Rightarrow> cfloat" where
  "gain_in_kp data = (if HIBYTE data \<le> 250 then num data * (1 / 1280) else 0 - num (HIBYTE data))"
definition temp_m273_to_p1735 :: "u16 \<Rightarrow> cfloat" where
  "temp_m273_to_p1735 data = (if HIBYTE data \<le> 250 then num data * (3125 / 100000) - 273 else 0 - 10 * num (HIBYTE data))"
definition voltage :: "u16 \<Rightarrow> cfloat" where
  "voltage data = (if HIBYTE data \<le> 250 then num data * (5 / 100) else 0 - num (HIBYTE data))"
definition mass_flow :: "u16 \<Rightarrow> cfloat" where
  "mass_flow data = (if HIBYTE data \<le> 250 then num data * (5 / 100) else 0 - num (HIBYTE data))"
definition power_in_kw :: "u16 \<Rightarrow> cfloat" where
  "power_in_kw data = (if HIBYTE data \<le> 250 then num data * (5 / 10) else 0 - num (HIBYTE data))"

definition distance_in_km :: "u32 \<Rightarrow> cfloat" where
  "distance_in_km data = (if BYTE3 data \<le> 250 then num data * (125 / 1000) else 0 - num (BYTE3 data))"
definition hr_distance_in_km :: "u32 \<Rightarrow> cfloat" where
  "hr_distance_in_km data = (if BYTE3 data \<le> 250 then num data * (5 / 1000) else 0 - num (BYTE3 data))"

subsection \<open>Decelerations of the EXAC message\<close>

text \<open>The conversion of a \<open>float\<close> to \<open>short\<close> truncates, and is undefined outside the range of \<open>short\<close>.\<close>

definition c_trunc :: "cfloat \<Rightarrow> int" where "c_trunc x = (if 0 \<le> x then \<lfloor>x\<rfloor> else \<lceil>x\<rceil>)"

definition deceleration_to_short :: "cfloat \<Rightarrow> int option" where
  "deceleration_to_short decel = (let d = c_trunc (decel * - 2500) in
     if - 32768 \<le> d \<and> d \<le> 32767 then Some (to_short (25000 - d)) else None)"

definition short_to_deceleration :: "int \<Rightarrow> cfloat" where
  "short_to_deceleration data = (if data > 25000 then 0xffff else of_int (data - 25000) * (4 / 10000))"

subsection \<open>Coding a value and decoding it\<close>

lemma hibyte_value: "unat (HIBYTE w) = unat w div 256"
proof -
  have "HIBYTE w = ucast (drop_bit 8 w)"
    by (rule bit_word_eqI)
       (auto simp: HIBYTE_def mask_nums bit_simps dest: bit_imp_le_length)
  moreover have "unat w div 256 < 256" using unsigned_less[of w, where 'a = nat] by (simp add: div_less_iff_less_mult)
  ultimately show ?thesis
    by (simp only: unsigned_ucast_eq unsigned_drop_bit_eq) (simp add: drop_bit_eq_div take_bit_eq_mod)
qed

lemma lobyte_value: "unat (LOBYTE w) = unat w mod 256"
proof -
  have "LOBYTE w = ucast w" by (rule bit_word_eqI) (auto simp: LOBYTE_def mask_nums bit_simps)
  then show ?thesis by (simp add: unsigned_ucast_eq take_bit_eq_mod)
qed

lemma hibyte_valid: "HIBYTE w \<le> 250 \<longleftrightarrow> unat w \<le> 64255"
proof -
  have "HIBYTE w \<le> 250 \<longleftrightarrow> unat w div 256 < 251" unfolding word_le_nat_alt hibyte_value using less_Suc_eq_le[of "unat w div 256" 250] by simp
  also have "\<dots> \<longleftrightarrow> unat w \<le> 64255" using div_less_iff_less_mult[of 256 "unat w" 251] less_Suc_eq_le[of "unat w" 64255] by simp
  finally show ?thesis .
qed

lemma ceiling_near: "x \<le> of_int \<lceil>x - 1 / 2\<rceil> + 1 / 2 \<and> of_int \<lceil>x - 1 / 2\<rceil> < x + (1 / 2 :: rat)"
  by linarith

text \<open>Coding a speed rounds it to the next eighth of a revolution; a speed out of range becomes the code not available.\<close>

lemma code_engine_speed_value:
  assumes "0 \<le> s" "s \<le> 8031875 / 1000"
  shows "int (unat (code_engine_speed s)) = \<lceil>s * 8 - 1 / 2\<rceil>" "unat (code_engine_speed s) \<le> 64255"
proof -
  let ?c = "\<lceil>s * 8 - 1 / 2\<rceil>"
  have c: "0 \<le> ?c" "?c \<le> 64255" using assms by linarith+
  have "code_engine_speed s = word_of_int ?c" using assms by (simp add: code_engine_speed_def)
  then show u: "int (unat (code_engine_speed s)) = ?c" using c
    by (simp add: unsigned_of_int take_bit_eq_mod)
  then show "unat (code_engine_speed s) \<le> 64255" using c(2) by linarith
qed

lemma speed_roundtrip:
  assumes "0 \<le> s" "s \<le> 8031875 / 1000"
  shows "\<bar>speed_in_rpm_2byte (code_engine_speed s) - s\<bar> \<le> 1 / 16"
proof -
  note c = code_engine_speed_value[OF assms]
  have "(of_nat (unat (code_engine_speed s)) :: rat) = of_int \<lceil>s * 8 - 1 / 2\<rceil>"
    using c(1) by (metis of_int_of_nat_eq)
  then have "speed_in_rpm_2byte (code_engine_speed s) = of_int \<lceil>s * 8 - 1 / 2\<rceil> * (125 / 1000)"
    using c(2) by (simp add: speed_in_rpm_2byte_def hibyte_valid)
  then show ?thesis using ceiling_near[of "s * 8"] by (simp add: abs_if)
qed

lemma speed_out_of_range: "s < 0 \<or> 8031875 / 1000 < s \<Longrightarrow> speed_in_rpm_2byte (code_engine_speed s) = - 255"
  by (auto simp: code_engine_speed_def speed_in_rpm_2byte_def hibyte_valid hibyte_value)

lemma speed_code_back: "unat w \<le> 64255 \<Longrightarrow> code_engine_speed (speed_in_rpm_2byte w) = w"
proof -
  assume w: "unat w \<le> 64255"
  let ?s = "(of_nat (unat w) :: rat) * (125 / 1000)"
  have s: "speed_in_rpm_2byte w = ?s" using w by (simp add: speed_in_rpm_2byte_def hibyte_valid)
  have "(of_nat (unat w) :: rat) \<le> 64255" using w by (metis of_nat_le_iff of_nat_numeral)
  moreover have "0 \<le> (of_nat (unat w) :: rat)" by (rule of_nat_0_le_iff)
  ultimately have r: "0 \<le> ?s" "?s \<le> 8031875 / 1000" by linarith+
  have "\<lceil>?s * 8 - 1 / 2\<rceil> = int (unat w)" by (simp add: ceiling_unique)
  then have "int (unat (code_engine_speed ?s)) = int (unat w)" using code_engine_speed_value(1)[OF r] by metis
  then show ?thesis unfolding s by (simp only: of_nat_eq_iff word_unat_eq_iff)
qed

lemma unat_numeral_250: "unat (250 :: u8) = 250"
  by simp

lemma code_percent_value:
  assumes "- 125 \<le> p" "p \<le> 125"
  shows "int (unat (code_percent_m125_to_p125 p)) = \<lceil>p - 1 / 2\<rceil> + 125" "code_percent_m125_to_p125 p \<le> 250"
proof -
  let ?c = "\<lceil>p - 1 / 2\<rceil> + 125"
  have c: "0 \<le> ?c" "?c \<le> 250" using assms by linarith+
  have e: "code_percent_m125_to_p125 p = word_of_int ?c" using assms by (simp add: code_percent_m125_to_p125_def)
  have "unat (word_of_int k :: u8) = nat k" if "0 \<le> k" "k \<le> 250" for k
    using that by (simp add: unsigned_of_int take_bit_eq_mod)
  from this[OF c] have u: "unat (word_of_int ?c :: u8) = nat ?c" .
  show "int (unat (code_percent_m125_to_p125 p)) = ?c" unfolding e u using c by simp
  show "code_percent_m125_to_p125 p \<le> 250" unfolding e word_le_nat_alt u unat_numeral_250 using c by linarith
qed

lemma percent_roundtrip:
  assumes "- 125 \<le> p" "p \<le> 125"
  shows "\<bar>percent_m125_to_p125 (code_percent_m125_to_p125 p) - p\<bar> \<le> 1 / 2"
proof -
  note c = code_percent_value[OF assms]
  have "(of_nat (unat (code_percent_m125_to_p125 p)) :: rat) = of_int (\<lceil>p - 1 / 2\<rceil> + 125)"
    using c(1) by (metis of_int_of_nat_eq)
  then have "percent_m125_to_p125 (code_percent_m125_to_p125 p) = of_int \<lceil>p - 1 / 2\<rceil>"
    using c(2) by (simp add: percent_m125_to_p125_def)
  then show ?thesis using ceiling_near[of p] by (simp add: abs_if)
qed

lemma percent_out_of_range: "p < - 125 \<or> 125 < p \<Longrightarrow> percent_m125_to_p125 (code_percent_m125_to_p125 p) = - 255"
  by (auto simp: code_percent_m125_to_p125_def percent_m125_to_p125_def)

lemma percent_code_back: "w \<le> 250 \<Longrightarrow> code_percent_m125_to_p125 (percent_m125_to_p125 w) = w"
proof -
  assume w: "w \<le> 250"
  let ?p = "(of_nat (unat w) :: rat) - 125"
  have p: "percent_m125_to_p125 w = ?p" using w by (simp add: percent_m125_to_p125_def)
  have "unat w \<le> 250" using w by (simp add: word_le_nat_alt)
  then have "(of_nat (unat w) :: rat) \<le> 250" by (metis of_nat_le_iff of_nat_numeral)
  moreover have "0 \<le> (of_nat (unat w) :: rat)" by (rule of_nat_0_le_iff)
  ultimately have r: "- 125 \<le> ?p" "?p \<le> 125" by linarith+
  have "\<lceil>?p - 1 / 2\<rceil> + 125 = int (unat w)"
  proof -
    have "\<lceil>?p - 1 / 2\<rceil> = int (unat w) - 125" by (rule ceiling_unique) simp_all
    then show ?thesis by simp
  qed
  then have "int (unat (code_percent_m125_to_p125 ?p)) = int (unat w)" using code_percent_value(1)[OF r] by metis
  then show ?thesis unfolding p by (simp only: of_nat_eq_iff word_unat_eq_iff)
qed

subsection \<open>Ranges\<close>

text \<open>
  The valid codes reach from \<open>lo\<close> (code 0) to \<open>hi\<close> (the last valid code), and no error code is
  converted to a value in between, so a reader can tell an error from a value.
\<close>

definition scale8_ok :: "(u8 \<Rightarrow> cfloat) \<Rightarrow> cfloat \<Rightarrow> cfloat \<Rightarrow> bool" where
  "scale8_ok f lo hi \<longleftrightarrow> f 0 = lo \<and> f 250 = hi \<and> (\<forall>d. d \<le> 250 \<longrightarrow> lo \<le> f d \<and> f d \<le> hi) \<and>
     (\<forall>d. 250 < d \<longrightarrow> f d < lo \<or> hi < f d)"

definition scale16_ok :: "(u16 \<Rightarrow> cfloat) \<Rightarrow> cfloat \<Rightarrow> cfloat \<Rightarrow> bool" where
  "scale16_ok f lo hi \<longleftrightarrow> f 0 = lo \<and> f 64255 = hi \<and> (\<forall>d. HIBYTE d \<le> 250 \<longrightarrow> lo \<le> f d \<and> f d \<le> hi) \<and>
     (\<forall>d. 250 < HIBYTE d \<longrightarrow> f d < lo \<or> hi < f d)"

lemma num_le: "d \<le> 250 \<Longrightarrow> num (d :: u8) \<le> 250" "\<not> d \<le> 250 \<Longrightarrow> 251 \<le> num d" "0 \<le> num w"
proof -
  show "num d \<le> 250" if "d \<le> 250"
  proof -
    have "unat d \<le> 250" using that by (simp add: word_le_nat_alt)
    then show ?thesis by (metis of_nat_le_iff of_nat_numeral)
  qed
  show "251 \<le> num d" if "\<not> d \<le> 250"
  proof -
    have "251 \<le> unat d" using that by (simp add: word_le_nat_alt)
    then show ?thesis by (metis of_nat_le_iff of_nat_numeral)
  qed
  show "0 \<le> num w" by (rule of_nat_0_le_iff)
qed

lemma num16_le: "HIBYTE d \<le> 250 \<Longrightarrow> num (d :: u16) \<le> 64255" "\<not> HIBYTE d \<le> 250 \<Longrightarrow> 64256 \<le> num d"
proof -
  show "num d \<le> 64255" if "HIBYTE d \<le> 250"
    using that unfolding hibyte_valid by (metis of_nat_le_iff of_nat_numeral)
  show "64256 \<le> num d" if "\<not> HIBYTE d \<le> 250"
  proof -
    have "64256 \<le> unat d" using that unfolding hibyte_valid by simp
    then show ?thesis by (metis of_nat_le_iff of_nat_numeral)
  qed
qed

text \<open>A conversion that is linear on the valid codes.\<close>

lemma scale8_linear:
  assumes "\<And>d. d \<le> 250 \<Longrightarrow> f d = num d * k + c" "\<And>d. \<not> d \<le> 250 \<Longrightarrow> f d \<le> - 251" "0 < k" "- 251 < c"
  shows "scale8_ok f c (250 * k + c)"
proof -
  have "f d < c" if "250 < d" for d using assms(2)[of d] assms(4) that by (simp add: not_le)
  moreover have "c \<le> f d \<and> f d \<le> 250 * k + c" if "d \<le> 250" for d
  proof -
    have "0 \<le> num d * k" "num d * k \<le> 250 * k"
      using assms(3) num_le(1)[OF that] num_le(3)[of d] by (simp_all add: mult_right_mono)
    then show ?thesis using assms(1)[OF that] by simp
  qed
  ultimately show ?thesis using assms(1)[of 0] assms(1)[of 250] by (simp add: scale8_ok_def)
qed

lemma scale16_linear:
  assumes "\<And>d. HIBYTE d \<le> 250 \<Longrightarrow> f d = num d * k + c" "\<And>d. \<not> HIBYTE d \<le> 250 \<Longrightarrow> f d < c" "0 < k"
  shows "scale16_ok f c (64255 * k + c)"
proof -
  have "f d < c" if "250 < HIBYTE d" for d using assms(2)[of d] that by (simp add: not_le)
  moreover have "c \<le> f d \<and> f d \<le> 64255 * k + c" if "HIBYTE d \<le> 250" for d
  proof -
    have "0 \<le> num d * k" "num d * k \<le> 64255 * k"
      using assms(3) num16_le(1)[OF that] num_le(3)[of d] by (simp_all add: mult_right_mono)
    then show ?thesis using assms(1)[OF that] by simp
  qed
  moreover have "f 0 = num (0 :: u16) * k + c" "f 64255 = num (64255 :: u16) * k + c"
    by (rule assms(1); simp add: hibyte_valid)+
  ultimately show ?thesis by (simp add: scale16_ok_def)
qed

lemma error_low: "\<not> d \<le> 250 \<Longrightarrow> 0 - num (d :: u8) \<le> - 251"
  using num_le(2)[of d] by linarith

lemma scale8_form:
  assumes "\<And>d. f d = (if d \<le> 250 then num d * k + c else 0 - num d)" "0 < k" "- 251 < c" "hi = 250 * k + c"
  shows "scale8_ok f c hi"
  unfolding assms(4) by (rule scale8_linear) (use assms(1-3) error_low in auto)

lemma scale8_ranges:
  "scale8_ok percent_0_to_100 (0) (100)"
  "scale8_ok percent_0_to_250 (0) (250)"
  "scale8_ok percent_m125_to_p125 (- 125) (125)"
  "scale8_ok pressure_0_to_4000kpa (0) (4000)"
  "scale8_ok pressure_0_to_1000kpa (0) (1000)"
  "scale8_ok pressure_0_to_500kpa (0) (500)"
  "scale8_ok pressure_0_to_125kpa (0) (125)"
  "scale8_ok pressure_0_to_12kpa (0) (25 / 2)"
  "scale8_ok speed_in_rpm_1byte (0) (2500)"
  "scale8_ok wheel_based_mps_relative (- (78125 / 36000)) (78125 / 36000)"
  "scale8_ok cruise_control_set_meters_per_sec (0) (250000 / 3600)"
  "scale8_ok time_0_to_25sec (0) (25)"
  "scale8_ok temp_m40_to_p210 (- 40) (210)"
  "scale8_ok current_m125_to_p125amp (- 125) (125)"
  "scale8_ok current_0_to_250amp (0) (250)"
  "scale8_ok mass_0_to_100t (0) (100)"
proof -
  show "scale8_ok percent_0_to_100 (0) (100)" by (rule scale8_form[where k = "4/10"]) (simp_all add: percent_0_to_100_def field_simps)
  show "scale8_ok percent_0_to_250 (0) (250)" by (rule scale8_form[where k = "1"]) (simp_all add: percent_0_to_250_def field_simps)
  show "scale8_ok percent_m125_to_p125 (- 125) (125)" by (rule scale8_form[where k = "1"]) (simp_all add: percent_m125_to_p125_def field_simps)
  show "scale8_ok pressure_0_to_4000kpa (0) (4000)" by (rule scale8_form[where k = "16"]) (simp_all add: pressure_0_to_4000kpa_def field_simps)
  show "scale8_ok pressure_0_to_1000kpa (0) (1000)" by (rule scale8_form[where k = "4"]) (simp_all add: pressure_0_to_1000kpa_def field_simps)
  show "scale8_ok pressure_0_to_500kpa (0) (500)" by (rule scale8_form[where k = "2"]) (simp_all add: pressure_0_to_500kpa_def field_simps)
  show "scale8_ok pressure_0_to_125kpa (0) (125)" by (rule scale8_form[where k = "1/2"]) (simp_all add: pressure_0_to_125kpa_def field_simps)
  show "scale8_ok pressure_0_to_12kpa (0) (25 / 2)" by (rule scale8_form[where k = "5/100"]) (simp_all add: pressure_0_to_12kpa_def field_simps)
  show "scale8_ok speed_in_rpm_1byte (0) (2500)" by (rule scale8_form[where k = "10"]) (simp_all add: speed_in_rpm_1byte_def field_simps)
  show "scale8_ok wheel_based_mps_relative (- (78125 / 36000)) (78125 / 36000)" by (rule scale8_form[where k = "625/36000"]) (simp_all add: wheel_based_mps_relative_def field_simps)
  show "scale8_ok cruise_control_set_meters_per_sec (0) (250000 / 3600)" by (rule scale8_form[where k = "1000/3600"]) (simp_all add: cruise_control_set_meters_per_sec_def field_simps)
  show "scale8_ok time_0_to_25sec (0) (25)" by (rule scale8_form[where k = "1/10"]) (simp_all add: time_0_to_25sec_def field_simps)
  show "scale8_ok temp_m40_to_p210 (- 40) (210)" by (rule scale8_form[where k = "1"]) (simp_all add: temp_m40_to_p210_def field_simps)
  show "scale8_ok current_m125_to_p125amp (- 125) (125)" by (rule scale8_form[where k = "1"]) (simp_all add: current_m125_to_p125amp_def field_simps)
  show "scale8_ok current_0_to_250amp (0) (250)" by (rule scale8_form[where k = "1"]) (simp_all add: current_0_to_250amp_def field_simps)
  show "scale8_ok mass_0_to_100t (0) (100)" by (rule scale8_form[where k = "4/10"]) (simp_all add: mass_0_to_100t_def field_simps)
qed

lemma scale8_special:
  "scale8_ok percent_m25_to_p25 (- 25) 25" "scale8_ok brake_demand (- 10) 0"
proof -
  have "of_nat (unat d div 5) \<le> (50 :: rat)" if "d \<le> 250" for d :: u8
  proof -
    have "unat d div 5 \<le> 50" using that by (simp add: word_le_nat_alt div_le_mono[of _ 250 5, simplified])
    then show ?thesis by (metis of_nat_le_iff of_nat_numeral)
  qed
  then show "scale8_ok percent_m25_to_p25 (- 25) 25"
    using error_low by (fastforce simp: scale8_ok_def percent_m25_to_p25_def not_le)
  have "num d * (4 / 100) \<le> 10 \<and> 0 \<le> num d * (4 / 100)" if "d \<le> 250" for d :: u8
    using num_le(1)[OF that] num_le(3)[of d] by simp
  moreover have "0 < num d" if "\<not> d \<le> 250" for d :: u8
    using num_le(2)[OF that] by linarith
  ultimately show "scale8_ok brake_demand (- 10) 0"
    by (auto simp: scale8_ok_def brake_demand_def not_le)
qed

lemma error16_low: "0 - num (b :: u8) \<le> 0" "\<not> b \<le> 250 \<Longrightarrow> 0 - num b < (0 :: rat)"
proof -
  show "0 - num b \<le> 0" using num_le(3)[of b] by linarith
  show "0 - num b < (0 :: rat)" if "\<not> b \<le> 250" using num_le(2)[OF that] by linarith
qed

lemma scale16_form:
  assumes "\<And>d. f d = (if HIBYTE d \<le> 250 then num d * k else 0 - num (HIBYTE d))" "0 < k" "hi = 64255 * k"
  shows "scale16_ok f 0 hi"
proof -
  have "scale16_ok f 0 (64255 * k + 0)" by (rule scale16_linear) (use assms(1,2) error16_low in auto)
  then show ?thesis using assms(3) by simp
qed

lemma scale16_ranges:
  "scale16_ok gear_ratio 0 (64255 / 1000)"
  "scale16_ok rotor_speed_in_rpm 0 (257020)"
  "scale16_ok speed_in_rpm_2byte 0 (8031875 / 1000)"
  "scale16_ok wheel_based_mps 0 (64255 / 256 * (1000 / 3600))"
  "scale16_ok fuel_rate_cm3_per_sec 0 (3212750 / 3600)"
  "scale16_ok fuel_economy_meters_per_cm3 0 (64255 / 512)"
  "scale16_ok torque_in_nm 0 (64255)"
  "scale16_ok gain_in_kp 0 (64255 / 1280)"
  "scale16_ok voltage 0 (321275 / 100)"
  "scale16_ok mass_flow 0 (321275 / 100)"
  "scale16_ok power_in_kw 0 (321275 / 10)"
proof -
  have w: "num (HIBYTE d) + num (LOBYTE d) / 256 = num d / 256" for d
  proof -
    have "unat d = 256 * unat (HIBYTE d) + unat (LOBYTE d)" unfolding hibyte_value lobyte_value by simp
    then have "num d = 256 * num (HIBYTE d) + num (LOBYTE d)" by (metis of_nat_add of_nat_mult of_nat_numeral)
    then show ?thesis by simp
  qed
  show "scale16_ok gear_ratio 0 (64255 / 1000)" by (rule scale16_form[where k = "1/1000"]) (simp_all add: gear_ratio_def field_simps)
  show "scale16_ok rotor_speed_in_rpm 0 (257020)" by (rule scale16_form[where k = "4"]) (simp_all add: rotor_speed_in_rpm_def field_simps)
  show "scale16_ok speed_in_rpm_2byte 0 (8031875 / 1000)" by (rule scale16_form[where k = "1/8"]) (simp_all add: speed_in_rpm_2byte_def field_simps)
  show "scale16_ok wheel_based_mps 0 (64255 / 256 * (1000 / 3600))" by (rule scale16_form[where k = "1000/(256*3600)"]) (simp_all add: wheel_based_mps_def w del: of_nat_unat)
  show "scale16_ok fuel_rate_cm3_per_sec 0 (3212750 / 3600)" by (rule scale16_form[where k = "50/3600"]) (simp_all add: fuel_rate_cm3_per_sec_def field_simps)
  show "scale16_ok fuel_economy_meters_per_cm3 0 (64255 / 512)" by (rule scale16_form[where k = "1/512"]) (simp_all add: fuel_economy_meters_per_cm3_def field_simps)
  show "scale16_ok torque_in_nm 0 (64255)" by (rule scale16_form[where k = "1"]) (simp_all add: torque_in_nm_def field_simps)
  show "scale16_ok gain_in_kp 0 (64255 / 1280)" by (rule scale16_form[where k = "1/1280"]) (simp_all add: gain_in_kp_def field_simps)
  show "scale16_ok voltage 0 (321275 / 100)" by (rule scale16_form[where k = "5/100"]) (simp_all add: voltage_def field_simps)
  show "scale16_ok mass_flow 0 (321275 / 100)" by (rule scale16_form[where k = "5/100"]) (simp_all add: mass_flow_def field_simps)
  show "scale16_ok power_in_kw 0 (321275 / 10)" by (rule scale16_form[where k = "1/2"]) (simp_all add: power_in_kw_def field_simps)
qed

lemma scale16_special:
  "scale16_ok temp_m273_to_p1735 (- 273) (1734 + 31 / 32)" "scale16_ok pressure_m250_to_p252kpa (- 250) 251"
proof -
  have "scale16_ok temp_m273_to_p1735 (- 273) (64255 * (1 / 32) + - 273)"
  proof (rule scale16_linear)
    fix d assume "\<not> HIBYTE d \<le> 250"
    then show "temp_m273_to_p1735 d < - 273" using num_le(2)[of "HIBYTE d"] by (simp add: temp_m273_to_p1735_def)
  qed (simp_all add: temp_m273_to_p1735_def)
  then show "scale16_ok temp_m273_to_p1735 (- 273) (1734 + 31 / 32)" by simp
  have "of_nat (unat d div 128) \<le> (501 :: rat)" if "HIBYTE d \<le> 250" for d
  proof -
    have "unat d div 128 \<le> 501" using that[unfolded hibyte_valid] div_le_mono[of "unat d" 64255 128] by simp
    then show ?thesis by (metis of_nat_le_iff of_nat_numeral)
  qed
  moreover have "0 - num d < - 250" if "\<not> HIBYTE d \<le> 250" for d
    using num16_le(2)[OF that] by linarith
  moreover have "HIBYTE 0 \<le> 250" "HIBYTE 64255 \<le> 250" by (simp_all add: hibyte_valid)
  ultimately show "scale16_ok pressure_m250_to_p252kpa (- 250) 251"
    by (auto simp: scale16_ok_def pressure_m250_to_p252kpa_def not_le hibyte_value simp del: of_nat_unat)
qed

end
