(* ===== verification/J1939Msgs.thy ===== *)
theory J1939Msgs
  imports J1939Scale
begin

text \<open>
  The variables of the data base for J1939 messages (can/jbus/include/jbus_extended.h) and the conversions
  of messages to them (can/jbus/src/j1939pdu_extended.c): engine, retarder, transmission and brake messages.
  A conversion changes the fields it assigns of the variable in its buffer.  A \<open>char\<close> field is the value of
  a signed byte; the printing functions are not modelled.  In \<open>vd\<close> the trip distance takes byte 2 twice.
\<close>

record j1939_pdu_typ = pdb_timestamp :: timestamp
  pdb_priority :: u8
  pdb_pdu_format :: u8
  pdb_pdu_specific :: u8
  pdb_src_address :: u8
  pdb_data_field :: "u8 list"
  pdb_numbytes :: u8

definition pdu_to_pdu :: "j1939_pdu \<Rightarrow> j1939_pdu_typ \<Rightarrow> j1939_pdu_typ" where
  "pdu_to_pdu pdu pdb0 = pdb0\<lparr>
     pdb_priority := ucast (pd_priority pdu),
     pdb_pdu_format := ucast (pd_format pdu),
     pdb_pdu_specific := ucast (pd_specific pdu),
     pdb_src_address := ucast (pd_src pdu),
     pdb_numbytes := word_of_int (pd_numbytes pdu),
     pdb_data_field := map (\<lambda>i. pd_data pdu ! i) [0 ..< 8]\<rparr>"

record j1939_erc1_typ = erc1_timestamp :: timestamp
  ERC1ERRetarderEnableShiftAssistSw :: u8
  ERC1ERRtdrEnablBrakeAssistSwitch :: u8
  ERC1ERRetarderTorqueMode :: u8
  ERC1ERActualEngineRetPercentTrq :: cfloat
  ERC1ERIntendedRtdrPercentTorque :: cfloat
  ERC1ERRetarderRqingBrakeLight :: u8
  ERC1ERSrcAddrOfCtrlDvcFrRtdrCtrl :: u8
  ERC1ERDrvrsDmandRtdrPerctTorque :: int
  ERC1ERRetarderSelectionNonEng :: int
  ERC1ERActlMxAvlbRtdrtPerctTorque :: int

definition pdu_to_erc1 :: "j1939_pdu \<Rightarrow> j1939_erc1_typ \<Rightarrow> j1939_erc1_typ" where
  "pdu_to_erc1 pdu erc10 = (let d = pd_data pdu in erc10\<lparr>
     ERC1ERRetarderEnableShiftAssistSw := BITS87 (d ! 0),
     ERC1ERRtdrEnablBrakeAssistSwitch := BITS65 (d ! 0),
     ERC1ERRetarderTorqueMode := LONIBBLE (d ! 0),
     ERC1ERActualEngineRetPercentTrq := percent_m125_to_p125 (d ! 1),
     ERC1ERIntendedRtdrPercentTorque := percent_m125_to_p125 (d ! 2),
     ERC1ERRetarderRqingBrakeLight := BITS43 (d ! 3),
     ERC1ERSrcAddrOfCtrlDvcFrRtdrCtrl := d ! 4,
     ERC1ERDrvrsDmandRtdrPerctTorque := int (unat (d ! 5)),
     ERC1ERRetarderSelectionNonEng := int (unat (d ! 6)),
     ERC1ERActlMxAvlbRtdrtPerctTorque := int (unat (d ! 7))\<rparr>)"

record j1939_ebc1_typ = ebc1_timestamp :: timestamp
  EBSBrakeSwitch :: u8
  EBC1_AntiLockBrakingActive :: u8
  EBC1_ASRBrakeControlActive :: u8
  EBC1_ASREngineControlActive :: u8
  EBC1_BrakePedalPosition :: cfloat
  traction_control_override_switch_status :: u8
  asr_hill_holder_switch_status :: u8
  EBC1_ASROffroadSwitch :: u8
  EBC1_RemoteAccelEnableSwitch :: u8
  auxiliary_engine_shutdown_switch_status :: u8
  engine_derate_switch_status :: u8
  accelerator_interlock_switch_status :: u8
  percent_engine_retarder_torque_selected :: cfloat
  EBC1_EngRetarderSelection :: cfloat
  ABSEBSAmberWarningSignal :: u8
  EBC1_ABSFullyOperational :: u8
  EBC1_EBSRedWarningSignal :: u8
  EBC1_SrcAddrssOfCtrllngDvcFrBrkCntrl :: u8
  total_brake_demand :: cfloat

definition pdu_to_ebc1 :: "j1939_pdu \<Rightarrow> j1939_ebc1_typ \<Rightarrow> j1939_ebc1_typ" where
  "pdu_to_ebc1 pdu ebc10 = (let d = pd_data pdu in ebc10\<lparr>
     EBSBrakeSwitch := BITS87 (d ! 0),
     EBC1_AntiLockBrakingActive := BITS65 (d ! 0),
     EBC1_ASRBrakeControlActive := BITS43 (d ! 0),
     EBC1_ASREngineControlActive := BITS21 (d ! 0),
     EBC1_BrakePedalPosition := percent_0_to_100 (d ! 1),
     traction_control_override_switch_status := BITS87 (d ! 2),
     asr_hill_holder_switch_status := BITS65 (d ! 2),
     EBC1_RemoteAccelEnableSwitch := BITS87 (d ! 3),
     auxiliary_engine_shutdown_switch_status := BITS65 (d ! 3),
     engine_derate_switch_status := BITS43 (d ! 3),
     accelerator_interlock_switch_status := BITS21 (d ! 3),
     EBC1_EngRetarderSelection := percent_0_to_100 (d ! 4),
     ABSEBSAmberWarningSignal := BITS65 (d ! 5),
     EBC1_EBSRedWarningSignal := BITS43 (d ! 5),
     EBC1_ABSFullyOperational := BITS21 (d ! 5),
     EBC1_SrcAddrssOfCtrllngDvcFrBrkCntrl := d ! 6,
     total_brake_demand := brake_demand (d ! 7)\<rparr>)"

record j1939_volvo_brk_t = vbrk_timestamp :: timestamp
  VBRK_BrkAppPressure :: cfloat
  VBRK_BrkPrimaryPressure :: cfloat
  VBRK_BrkSecondaryPressure :: cfloat
  VBRK_BrkStatParkBrkActuator :: u8
  VBRK_ParkBrkRedWarningSignal :: u8
  VBRK_ParkBrkReleaseInhibitStat :: u8

definition pdu_to_volvo_brk :: "j1939_pdu \<Rightarrow> j1939_volvo_brk_t \<Rightarrow> j1939_volvo_brk_t" where
  "pdu_to_volvo_brk pdu vbrk0 = (let d = pd_data pdu in vbrk0\<lparr>
     VBRK_BrkAppPressure := num (d ! 0) * (145038 / 1000000) * 4,
     VBRK_BrkPrimaryPressure := num (d ! 1) * (145038 / 1000000) * 4,
     VBRK_BrkSecondaryPressure := num (d ! 2) * (145038 / 1000000) * 4,
     VBRK_BrkStatParkBrkActuator := BITS21 (d ! 3),
     VBRK_ParkBrkRedWarningSignal := BITS43 (d ! 3),
     VBRK_ParkBrkReleaseInhibitStat := BITS65 (d ! 3)\<rparr>)"

record j1939_volvo_vp15_t = vp15_timestamp :: timestamp
  VP15_EcoRollStatus :: u8
  VP15_AutomaticHSARequest :: u8
  VP15_EngineShutdownRequest :: u8
  VP15_RoadInclinationVP15 :: cfloat
  VP15_PermittedHillHolderP :: cfloat
  VP15_RecommendedGearshift :: u8
  VP15_EcoRollActiveStatus :: u8
  VP15_ClutchOverloadStatus :: u8
  VP15_PowerDownAcknowledge :: u8
  VP15_DirectionGearAllowed :: u8
  VP15_VehicleWeightVP15 :: cfloat

definition pdu_to_volvo_vp15 :: "j1939_pdu \<Rightarrow> j1939_volvo_vp15_t \<Rightarrow> j1939_volvo_vp15_t" where
  "pdu_to_volvo_vp15 pdu vp150 = (let d = pd_data pdu in vp150\<lparr>
     VP15_PowerDownAcknowledge := drop_bit 2 (d ! 0) AND 0x03,
     VP15_DirectionGearAllowed := drop_bit 4 (d ! 0) AND 0x07,
     VP15_ClutchOverloadStatus := d ! 1 AND 0x03,
     VP15_EcoRollStatus := drop_bit 2 (d ! 1) AND 0x03,
     VP15_RecommendedGearshift := drop_bit 4 (d ! 1) AND 0x07,
     VP15_EcoRollActiveStatus := d ! 2 AND 0x03,
     VP15_AutomaticHSARequest := drop_bit 2 (d ! 2) AND 0x03,
     VP15_EngineShutdownRequest := drop_bit 4 (d ! 2) AND 0x03,
     VP15_PermittedHillHolderP := num (d ! 3) * (4 / 10),
     VP15_RoadInclinationVP15 := num (d ! 4) * (2 / 10) - 25,
     VP15_VehicleWeightVP15 := num (d ! 5) * 1000\<rparr>)"

record j1939_etc1_typ = etc1_timestamp :: timestamp
  ETC1_TransmissionDrivelineEngaged :: u8
  ETC1_TorqueConverterLockupEngaged :: u8
  ETC1_TransmissionShiftInProcess :: u8
  ETC1_TransmissionOutputShaftSpeed :: cfloat
  ETC1_PercentClutchSlip :: cfloat
  ETC1_MomentaryEngineOverspeedEnable :: u8
  ETC1_ProgressiveShiftDisable :: u8
  ETC1_TransInputShaftSpeed :: cfloat
  ETC1_SrcAddrssOfCtrllngDvcFrTrnsCtrl :: u8

definition pdu_to_etc1 :: "j1939_pdu \<Rightarrow> j1939_etc1_typ \<Rightarrow> j1939_etc1_typ" where
  "pdu_to_etc1 pdu etc10 = (let d = pd_data pdu in etc10\<lparr>
     ETC1_TransmissionShiftInProcess := BITS65 (d ! 0),
     ETC1_TorqueConverterLockupEngaged := BITS43 (d ! 0),
     ETC1_TransmissionDrivelineEngaged := BITS21 (d ! 0),
     ETC1_TransmissionOutputShaftSpeed := speed_in_rpm_2byte (TWOBYTES (d ! 2) (d ! 1)),
     ETC1_PercentClutchSlip := percent_0_to_100 (d ! 3),
     ETC1_ProgressiveShiftDisable := BITS43 (d ! 4),
     ETC1_MomentaryEngineOverspeedEnable := BITS21 (d ! 4),
     ETC1_TransInputShaftSpeed := speed_in_rpm_2byte (TWOBYTES (d ! 6) (d ! 5)),
     ETC1_SrcAddrssOfCtrllngDvcFrTrnsCtrl := d ! 7\<rparr>)"

record j1939_eec1_typ = eec1_timestamp :: timestamp
  EEC1_EngineTorqueMode :: int
  EEC1_DrvrDemandEngPercentTorque :: cfloat
  EEC1_ActualEnginePercentTorque :: cfloat
  EEC1_EngDemandPercentTorque :: cfloat
  EEC1_EngineSpeed :: cfloat
  source_address :: u8

definition pdu_to_eec1 :: "j1939_pdu \<Rightarrow> j1939_eec1_typ \<Rightarrow> j1939_eec1_typ" where
  "pdu_to_eec1 pdu eec10 = (let d = pd_data pdu in eec10\<lparr>
     EEC1_EngineTorqueMode := to_char (int (unat (LONIBBLE (d ! 0)))),
     EEC1_DrvrDemandEngPercentTorque := percent_m125_to_p125 (d ! 1),
     EEC1_ActualEnginePercentTorque := percent_m125_to_p125 (d ! 2),
     EEC1_EngDemandPercentTorque := percent_m125_to_p125 (d ! 7),
     EEC1_EngineSpeed := speed_in_rpm_2byte (TWOBYTES (d ! 4) (d ! 3)),
     source_address := d ! 5\<rparr>)"

record j1939_eec2_typ = eec2_timestamp :: timestamp
  EEC2_RoadSpeedLimitStatus :: u8
  EEC2_AccelPedalKickdownSwitch :: u8
  EEC2_AccelPedal2LowIdleSwitch :: u8
  EEC2_AccelPedal1LowIdleSwitch :: u8
  EEC2_AccelPedalPos1 :: cfloat
  EEC2_AccelPedalPos2 :: cfloat
  EEC2_ActMaxAvailEngPercentTorque :: cfloat
  EEC2_EnginePercentLoadAtCurrentSpd :: cfloat

definition pdu_to_eec2 :: "j1939_pdu \<Rightarrow> j1939_eec2_typ \<Rightarrow> j1939_eec2_typ" where
  "pdu_to_eec2 pdu eec20 = (let d = pd_data pdu in eec20\<lparr>
     EEC2_AccelPedal2LowIdleSwitch := BITS87 (d ! 0),
     EEC2_RoadSpeedLimitStatus := BITS65 (d ! 0),
     EEC2_AccelPedalKickdownSwitch := BITS43 (d ! 0),
     EEC2_AccelPedal1LowIdleSwitch := BITS21 (d ! 0),
     EEC2_AccelPedalPos1 := percent_0_to_100 (d ! 1),
     EEC2_AccelPedalPos2 := percent_0_to_100 (d ! 4),
     EEC2_ActMaxAvailEngPercentTorque := percent_0_to_100 (d ! 6),
     EEC2_EnginePercentLoadAtCurrentSpd := percent_0_to_250 (d ! 2)\<rparr>)"

record j1939_etc2_typ = etc2_timestamp :: timestamp
  ETC2_TransmissionSelectedGear :: int
  ETC2_TransmissionActualGearRatio :: cfloat
  ETC2_TransmissionCurrentGear :: int
  ETC2_TransmissionRangeSelected :: int
  ETC2_TransmissionRangeAttained :: int

definition pdu_to_etc2 :: "j1939_pdu \<Rightarrow> j1939_etc2_typ \<Rightarrow> j1939_etc2_typ" where
  "pdu_to_etc2 pdu etc20 = (let d = pd_data pdu in etc20\<lparr>
     ETC2_TransmissionSelectedGear := to_char (gear_m125_to_p125 (d ! 0)),
     ETC2_TransmissionActualGearRatio := gear_ratio (TWOBYTES (d ! 2) (d ! 1)),
     ETC2_TransmissionCurrentGear := to_char (gear_m125_to_p125 (d ! 3)),
     ETC2_TransmissionRangeSelected := int (unat (TWOBYTES (d ! 5) (d ! 4))),
     ETC2_TransmissionRangeAttained := int (unat (TWOBYTES (d ! 7) (d ! 6)))\<rparr>)"

record j1939_etc2_e_typ = etc2_e_timestamp :: timestamp
  ETC2_E_TransmissionSelectedGear :: int
  ETC2_E_TransmissionActualGearRatio :: cfloat
  ETC2_E_TransmissionCurrentGear :: int
  ETC2_E_TransmissionRangeSelected :: int
  ETC2_E_TransmissionRangeAttained :: int

definition pdu_to_etc2_e :: "j1939_pdu \<Rightarrow> j1939_etc2_e_typ \<Rightarrow> j1939_etc2_e_typ" where
  "pdu_to_etc2_e pdu etc2_e0 = (let d = pd_data pdu in etc2_e0\<lparr>
     ETC2_E_TransmissionSelectedGear := to_char (gear_m125_to_p125 (d ! 0)),
     ETC2_E_TransmissionActualGearRatio := gear_ratio (TWOBYTES (d ! 2) (d ! 1)),
     ETC2_E_TransmissionCurrentGear := to_char (gear_m125_to_p125 (d ! 3)),
     ETC2_E_TransmissionRangeSelected := int (unat (TWOBYTES (d ! 5) (d ! 4))),
     ETC2_E_TransmissionRangeAttained := int (unat (TWOBYTES (d ! 7) (d ! 6)))\<rparr>)"

record j1939_turbo_typ = turbo_timestamp :: timestamp
  turbocharger_lube_oil_pressure :: cfloat
  turbocharger_speed :: cfloat

definition pdu_to_turbo :: "j1939_pdu \<Rightarrow> j1939_turbo_typ \<Rightarrow> j1939_turbo_typ" where
  "pdu_to_turbo pdu turbo0 = (let d = pd_data pdu in turbo0\<lparr>
     turbocharger_lube_oil_pressure := pressure_0_to_1000kpa (d ! 0),
     turbocharger_speed := rotor_speed_in_rpm (TWOBYTES (d ! 2) (d ! 1))\<rparr>)"

record j1939_eec3_typ = eec3_timestamp :: timestamp
  EEC3_NominalFrictionPercentTorque :: cfloat
  EEC3_EstEngPrsticLossesPercentTorque :: cfloat
  EEC3_EngsDesiredOperatingSpeed :: cfloat
  operating_speed_asymmetry_adjust :: int

definition pdu_to_eec3 :: "j1939_pdu \<Rightarrow> j1939_eec3_typ \<Rightarrow> j1939_eec3_typ" where
  "pdu_to_eec3 pdu eec30 = (let d = pd_data pdu in eec30\<lparr>
     EEC3_NominalFrictionPercentTorque := percent_m125_to_p125 (d ! 0),
     EEC3_EngsDesiredOperatingSpeed := (125 / 1000) * num (TWOBYTES (d ! 2) (d ! 1)),
     EEC3_EstEngPrsticLossesPercentTorque := percent_m125_to_p125 (d ! 4)\<rparr>)"

record j1939_vd_typ = vd_timestamp :: timestamp
  vd_trip_distance :: cfloat
  total_vehicle_distance :: cfloat

definition pdu_to_vd :: "j1939_pdu \<Rightarrow> j1939_vd_typ \<Rightarrow> j1939_vd_typ" where
  "pdu_to_vd pdu vd0 = (let d = pd_data pdu in vd0\<lparr>
     vd_trip_distance := distance_in_km (FOURBYTES (d ! 3) (d ! 2) (d ! 2) (d ! 0)),
     total_vehicle_distance := distance_in_km (FOURBYTES (d ! 7) (d ! 6) (d ! 5) (d ! 4))\<rparr>)"

record j1939_ebc2_typ = ebc2_timestamp :: timestamp
  EBC2_FrontAxleSpeed :: cfloat
  EBC2_RelativeSpeedFrontAxleLeftWheel :: cfloat
  EBC2_RlativeSpeedFrontAxleRightWheel :: cfloat
  EBC2_RelativeSpeedRearAxle1LeftWheel :: cfloat
  EBC2_RlativeSpeedRearAxle1RightWheel :: cfloat
  EBC2_RelativeSpeedRearAxle2LeftWheel :: cfloat
  EBC2_RlativeSpeedRearAxle2RightWheel :: cfloat

definition pdu_to_ebc2 :: "j1939_pdu \<Rightarrow> j1939_ebc2_typ \<Rightarrow> j1939_ebc2_typ" where
  "pdu_to_ebc2 pdu ebc20 = (let d = pd_data pdu in ebc20\<lparr>
     EBC2_FrontAxleSpeed := wheel_based_mps (TWOBYTES (d ! 1) (d ! 0)),
     EBC2_RelativeSpeedFrontAxleLeftWheel := wheel_based_mps_relative (d ! 2),
     EBC2_RlativeSpeedFrontAxleRightWheel := wheel_based_mps_relative (d ! 3),
     EBC2_RelativeSpeedRearAxle1LeftWheel := wheel_based_mps_relative (d ! 4),
     EBC2_RlativeSpeedRearAxle1RightWheel := wheel_based_mps_relative (d ! 5),
     EBC2_RelativeSpeedRearAxle2LeftWheel := wheel_based_mps_relative (d ! 6),
     EBC2_RlativeSpeedRearAxle2RightWheel := wheel_based_mps_relative (d ! 7)\<rparr>)"

record j1939_ebc5_typ = ebc5_timestamp :: timestamp
  EBC5_FoundationBrakeUse :: u8
  EBC5_HaltBrakeMode :: u8
  EBC5_XBRAccelerationLimit :: cfloat
  EBC5_XBRActiveControlMode :: u8

definition pdu_to_ebc5 :: "j1939_pdu \<Rightarrow> j1939_ebc5_typ \<Rightarrow> j1939_ebc5_typ" where
  "pdu_to_ebc5 pdu ebc50 = (let d = pd_data pdu in ebc50\<lparr>
     EBC5_HaltBrakeMode := drop_bit 2 (d ! 0) AND drop_bit 5 0xff,
     EBC5_FoundationBrakeUse := BITS21 (d ! 1),
     EBC5_XBRActiveControlMode := HINIBBLE (d ! 1),
     EBC5_XBRAccelerationLimit := (1 / 10) * percent_m125_to_p125 (d ! 2)\<rparr>)"

record j1939_rcfg_typ = rcfg_timestamp :: timestamp
  retarder_location :: u8
  retarder_type :: u8
  retarder_control_steps :: u8
  rcfg_receive_status :: u8
  retarder_speed :: "cfloat list"
  rcfg_percent_torque :: "cfloat list"
  reference_retarder_torque :: cfloat

text \<open>The bytes of the packets of a multipacket message, without the sequence numbers.\<close>

definition packet_bytes :: "nat \<Rightarrow> j1939_pdu list \<Rightarrow> u8 list" where
  "packet_bytes n pdus = concat (map (\<lambda>i. map (\<lambda>j. pd_data (pdus ! i) ! (j + 1)) [0 ..< 7]) [0 ..< n])"

definition pdu_to_rcfg :: "j1939_pdu list \<Rightarrow> j1939_rcfg_typ \<Rightarrow> j1939_rcfg_typ" where
  "pdu_to_rcfg pdus rcfg0 = (let d = packet_bytes 3 pdus in rcfg0\<lparr>
     retarder_location := HINIBBLE (d ! 0),
     retarder_type := LONIBBLE (d ! 0),
     retarder_control_steps := d ! 1,
     retarder_speed := map (\<lambda>i. speed_in_rpm_2byte (TWOBYTES (d ! (3 * i + 3)) (d ! (3 * i + 2)))) [0 ..< 4] @
       [speed_in_rpm_2byte (TWOBYTES (d ! 15) (d ! 14))],
     reference_retarder_torque := torque_in_nm (TWOBYTES (d ! 17) (d ! 16)),
     rcfg_percent_torque := map (\<lambda>i. percent_m125_to_p125 (d ! (3 * i + 1))) [0 ..< 4] @ [percent_m125_to_p125 (d ! 18)]\<rparr>)"

record j1939_ecfg_typ = ecfg_timestamp :: timestamp
  engine_speed :: "cfloat list"
  ecfg_percent_torque :: "cfloat list"
  gain_endspeed_governor :: cfloat
  reference_engine_torque :: cfloat
  max_momentary_overide_time :: cfloat
  speed_control_lower_limit :: cfloat
  speed_control_upper_limit :: cfloat
  torque_control_lower_limit :: cfloat
  torque_control_upper_limit :: cfloat
  ecfg_receive_status :: u8

definition pdu_to_ecfg :: "j1939_pdu list \<Rightarrow> j1939_ecfg_typ \<Rightarrow> j1939_ecfg_typ" where
  "pdu_to_ecfg pdus ecfg0 = (let d = packet_bytes 4 pdus in ecfg0\<lparr>
     engine_speed := map (\<lambda>i. speed_in_rpm_2byte (TWOBYTES (d ! (3 * i + 1)) (d ! (3 * i)))) [0 ..< 5] @
       [speed_in_rpm_2byte (TWOBYTES (d ! 16) (d ! 15)), speed_in_rpm_2byte (TWOBYTES (d ! 22) (d ! 21))],
     ecfg_percent_torque := map (\<lambda>i. percent_m125_to_p125 (d ! (3 * i + 2))) [0 ..< 5],
     gain_endspeed_governor := gain_in_kp (TWOBYTES (d ! 18) (d ! 17)),
     reference_engine_torque := torque_in_nm (TWOBYTES (d ! 20) (d ! 19)),
     max_momentary_overide_time := time_0_to_25sec (d ! 23),
     speed_control_lower_limit := speed_in_rpm_1byte (d ! 24),
     speed_control_upper_limit := speed_in_rpm_1byte (d ! 25),
     torque_control_lower_limit := percent_m125_to_p125 (d ! 26),
     torque_control_upper_limit := percent_m125_to_p125 (d ! 27)\<rparr>)"

record j1939_fd_typ = fd_timestamp :: timestamp
  estimated_percent_fan_speed :: cfloat
  fan_drive_state :: int

definition pdu_to_fd :: "j1939_pdu \<Rightarrow> j1939_fd_typ \<Rightarrow> j1939_fd_typ" where
  "pdu_to_fd pdu fd0 = (let d = pd_data pdu in fd0\<lparr>
     estimated_percent_fan_speed := percent_0_to_100 (d ! 0),
     fan_drive_state := int (unat (LONIBBLE (d ! 1)))\<rparr>)"

record j1939_exac_typ = exac_timestamp :: timestamp
  ebs_override_control_mode_priority :: u8
  external_deceleration_control_mode :: u8
  requested_deceleration_to_ebs :: cfloat
  edc_override_control_mode_priority :: u8
  override_control_modes :: u8
  requested_torque_to_edc :: cfloat
  alive_signal :: u8
  acc_internal_status :: u8
  exac_undefined :: u8
  exac_checksum :: u8
  exac_src_address :: u8

definition pdu_to_exac :: "j1939_pdu \<Rightarrow> j1939_exac_typ \<Rightarrow> j1939_exac_typ" where
  "pdu_to_exac pdu exac0 = (let d = pd_data pdu in exac0\<lparr>
     ebs_override_control_mode_priority := BITS43 (d ! 0),
     external_deceleration_control_mode := BITS21 (d ! 0),
     requested_deceleration_to_ebs := short_to_deceleration (to_short (int (unat (TWOBYTES (d ! 2) (d ! 1))))),
     edc_override_control_mode_priority := BITS43 (d ! 3),
     override_control_modes := BITS21 (d ! 3),
     requested_torque_to_edc := percent_m125_to_p125 (d ! 4),
     alive_signal := HINIBBLE (d ! 5),
     acc_internal_status := LONIBBLE (d ! 5),
     exac_undefined := d ! 6,
     exac_checksum := d ! 7\<rparr>)"

record j1939_volvo_xbr_warn_typ = xbrw_timestamp :: timestamp
  xbrw_src_address :: u8
  xbrw_destination_address :: u8
  xbrw_pdu_format :: u8
  xbrw_byte1 :: u8
  xbrw_byte2 :: u8
  xbrw_byte3 :: u8
  xbrw_byte4 :: u8
  xbrw_byte5 :: u8
  xbrw_byte6 :: u8
  xbrw_byte7 :: u8
  xbrw_byte8 :: u8

definition pdu_to_volvo_xbr_warn :: "j1939_pdu \<Rightarrow> j1939_volvo_xbr_warn_typ \<Rightarrow> j1939_volvo_xbr_warn_typ" where
  "pdu_to_volvo_xbr_warn pdu xbrw0 = (let d = pd_data pdu in xbrw0\<lparr>
     xbrw_byte1 := d ! 0,
     xbrw_byte2 := d ! 1,
     xbrw_byte3 := d ! 2,
     xbrw_byte4 := d ! 3,
     xbrw_byte5 := d ! 4,
     xbrw_byte6 := d ! 5,
     xbrw_byte7 := d ! 6,
     xbrw_byte8 := d ! 7\<rparr>)"

record j1939_tsc1_typ = tsc1_timestamp :: timestamp
  EnOvrdCtrlMPr :: u8
  EnRSpdCtrlC :: u8
  EnOvrdCtrlM :: u8
  EnRSpdSpdLm :: cfloat
  EnRTrqTrqLm :: cfloat
  tsc1_destination_address :: int
  tsc1_src_address :: int

definition pdu_to_tsc1 :: "j1939_pdu \<Rightarrow> j1939_tsc1_typ \<Rightarrow> j1939_tsc1_typ" where
  "pdu_to_tsc1 pdu tsc10 = (let d = pd_data pdu in tsc10\<lparr>
     tsc1_src_address := int (unat (pd_src pdu)),
     EnOvrdCtrlM := BITS21 (d ! 0),
     EnRSpdCtrlC := BITS43 (d ! 0),
     EnOvrdCtrlMPr := BITS65 (d ! 0),
     EnRSpdSpdLm := speed_in_rpm_2byte (TWOBYTES (d ! 2) (d ! 1)),
     EnRTrqTrqLm := percent_m125_to_p125 (d ! 3),
     tsc1_destination_address := int (unat (pd_specific pdu))\<rparr>)"

record j1939_volvo_xbr_typ = xbr_timestamp :: timestamp
  ExternalAccelerationDemand :: cfloat
  xbr_src_address :: u8
  xbr_destination_address :: u8
  xbr_pdu_format :: u8
  XBREBIMode :: u8
  XBRPriority :: u8
  XBRControlMode :: u8
  XBRUrgency :: u8
  spare1 :: u8
  spare2 :: u8
  spare3 :: u8
  XBRMessageCounter :: u8
  XBRMessageChecksum :: u8

definition pdu_to_volvo_xbr :: "j1939_pdu \<Rightarrow> j1939_volvo_xbr_typ \<Rightarrow> j1939_volvo_xbr_typ" where
  "pdu_to_volvo_xbr pdu xbr0 = (let d = pd_data pdu in xbr0\<lparr>
     ExternalAccelerationDemand := num (TWOBYTES (d ! 1) (d ! 0)) * (488281 / 10 ^ 9) - 15687 / 1000,
     XBREBIMode := BITS21 (d ! 2),
     XBRPriority := BITS43 (d ! 2),
     XBRControlMode := BITS65 (d ! 2),
     XBRUrgency := d ! 3,
     spare1 := d ! 4,
     spare2 := d ! 5,
     spare3 := d ! 6,
     XBRMessageCounter := LONIBBLE (d ! 7),
     XBRMessageChecksum := drop_bit 4 (HINIBBLE (d ! 7))\<rparr>)"

end
