(* ===== verification/J1939Cmd.thy ===== *)
theory J1939Cmd
  imports J1939Msgs
begin

text \<open>
  The commands this truck sends (can/jbus/src/j1939pdu_extended.c): torque and speed control
  (TSC1), external brake request (XBR) and the forward collision warning.  The conversion of a \<open>float\<close>
  to \<open>unsigned short\<close> in the XBR message is undefined outside its range (\<open>None\<close>).  The messages
  printed on the way are left out.
\<close>

subsection \<open>Torque and speed control\<close>

definition tsc1_to_pdu :: "j1939_pdu \<Rightarrow> j1939_tsc1_typ \<Rightarrow> j1939_pdu" where
  "tsc1_to_pdu pdu tsc1 =
     (let pdu = pdu\<lparr>pd_priority := 3, pd_R := 0, pd_DP := 0, pd_format := 0,
            pd_specific := word_of_int (tsc1_destination_address tsc1), pd_src := word_of_int (tsc1_src_address tsc1),
            pd_numbytes := 8\<rparr>;
          d = pd_data pdu;
          d = d[0 := BITS21 (EnOvrdCtrlM tsc1) OR push_bit 2 (BITS21 (EnRSpdCtrlC tsc1)) OR push_bit 4 (BITS21 (EnOvrdCtrlMPr tsc1))];
          requested_speed = code_engine_speed (EnRSpdSpdLm tsc1);
          d = d[1 := LOBYTE requested_speed];
          d = d[2 := HIBYTE requested_speed];
          d = d[3 := code_percent_m125_to_p125 (EnRTrqTrqLm tsc1)];
          d = d[4 := 0xff, 5 := 0xff, 6 := 0xff, 7 := 0xff]
      in pdu\<lparr>pd_data := d\<rparr>)"

subsection \<open>External brake request\<close>

definition xbr_id_sum :: u32 where "xbr_id_sum = 0x0C + 0xEF + 0x0B + 0x2A"
definition customer_key :: u32 where "customer_key = 5"

text \<open>The checksum computed over the seven bytes and the counter, folded to four bits.\<close>

definition xbr_checksum :: "u8 list \<Rightarrow> u8 \<Rightarrow> u32" where
  "xbr_checksum d counter =
     (let checksum = ucast (d ! 0) + ucast (d ! 1) + ucast (d ! 2) + ucast (d ! 3) + ucast (d ! 4) + ucast (d ! 5) +
            ucast (d ! 6) + ucast counter + xbr_id_sum + customer_key;
          checksum = checksum AND 0xFF
      in (drop_bit 4 (checksum AND 0xF0) + (checksum AND 0x0F)) AND 0x0F)"

text \<open>The last byte: the checksum in the high half, the counter in the low half.\<close>

definition xbr_close :: "u8 list \<Rightarrow> u8 \<Rightarrow> u8 list" where
  "xbr_close d counter = (let checksum = xbr_checksum d counter in d[7 := ucast (push_bit 4 checksum AND 0xF0) + counter])"

text \<open>
  \<open>counter\<close> is the static variable of the function, 0 at first.  The result: its new value, the message,
  and the variable, whose demand is overwritten when the control mode is 0.
\<close>

definition volvo_xbr_to_pdu :: "u8 \<Rightarrow> j1939_pdu \<Rightarrow> j1939_volvo_xbr_typ \<Rightarrow> (u8 \<times> j1939_pdu \<times> j1939_volvo_xbr_typ) option" where
  "volvo_xbr_to_pdu counter pdu xbr =
     (let pdu = pdu\<lparr>pd_priority := 3, pd_R := 0, pd_DP := 0, pd_format := 0xef, pd_specific := 11\<rparr>;
          counter = counter + 1; counter = (if counter \<ge> 16 then 0 else counter);
          pdu = pdu\<lparr>pd_src := 0x2A, pd_numbytes := 8\<rparr>;
          d = pd_data pdu;
          d = d[2 := 0xc0 OR BITS21 (XBREBIMode xbr) OR push_bit 2 (BITS21 (XBRPriority xbr)) OR push_bit 4 (BITS21 (XBRControlMode xbr))];
          xbr = (if XBRControlMode xbr = 0 then xbr\<lparr>ExternalAccelerationDemand := 10\<rparr> else xbr);
          requested = c_trunc ((ExternalAccelerationDemand xbr + 15687 / 1000) / (4882812 / 10 ^ 10))
      in if requested < 0 \<or> requested > 65535 then None
         else let requested_deceleration = (word_of_int requested :: u16) AND 0xFFFF;
                d = d[0 := LOBYTE requested_deceleration];
                d = d[1 := HIBYTE requested_deceleration];
                d = d[3 := XBRUrgency xbr];
                d = d[3 := 100];
                d = d[4 := spare1 xbr];
                d = d[5 := spare2 xbr];
                d = d[6 := spare3 xbr];
                d = xbr_close d counter
           in Some (counter, pdu\<lparr>pd_data := d\<rparr>, xbr))"

subsection \<open>Forward collision warning\<close>

definition volvo_xbr_warn_to_pdu :: "j1939_pdu \<Rightarrow> j1939_pdu" where
  "volvo_xbr_warn_to_pdu pdu = pdu\<lparr>pd_priority := 6, pd_R := 0, pd_DP := 0, pd_format := 0xff, pd_specific := 0x10,
     pd_src := 0x2A AND 0xFF, pd_numbytes := 8,
     pd_data := (pd_data pdu)[0 := 0xFF, 1 := 0xFF, 2 := 0xFF, 3 := 0xFF, 4 := 0xFF, 5 := 0xFF, 6 := 0x31, 7 := 0xFF]\<rparr>"

subsection \<open>What is sent is what is decoded\<close>

lemma mask_nums3: "(0x03 :: u8) = mask 2" "(0x0c :: u8) = push_bit 2 (mask 2)" "(0x30 :: u8) = push_bit 4 (mask 2)"
    "(0xc0 :: u8) = push_bit 6 (mask 2)"
  by (simp_all add: mask_eq_exp_minus_1 push_bit_eq_mult)

lemma bit_fields2:
  "bit (BITS21 x) n \<longleftrightarrow> n < 2 \<and> bit x n" "bit (BITS43 x) n \<longleftrightarrow> n < 2 \<and> bit x (2 + n)"
  "bit (BITS65 x) n \<longleftrightarrow> n < 2 \<and> bit x (4 + n)"
  unfolding BITS21_def BITS43_def BITS65_def mask_nums3 by (auto simp: bit_simps dest: bit_imp_le_length)

text \<open>Three two-bit fields in a byte.\<close>

lemma bits_fields:
  fixes a b c :: u8
  defines "w \<equiv> BITS21 a OR push_bit 2 (BITS21 b) OR push_bit 4 (BITS21 c)"
  shows "BITS21 w = BITS21 a" "BITS43 w = BITS21 b" "BITS65 w = BITS21 c"
    "BITS21 (0xc0 OR w) = BITS21 a" "BITS43 (0xc0 OR w) = BITS21 b" "BITS65 (0xc0 OR w) = BITS21 c"
proof -
  have w: "bit w n \<longleftrightarrow> (n < 2 \<and> bit a n) \<or> (2 \<le> n \<and> n < 4 \<and> bit b (n - 2)) \<or> (4 \<le> n \<and> n < 6 \<and> bit c (n - 4))" for n
    unfolding w_def bit_or_iff bit_push_bit_iff bit_fields2 by auto
  have w': "bit (0xc0 OR w) n \<longleftrightarrow> bit w n \<or> n = 6 \<or> n = 7" for n
    unfolding bit_or_iff mask_nums3 by (auto simp: bit_simps)
  show "BITS21 w = BITS21 a" "BITS43 w = BITS21 b" "BITS65 w = BITS21 c"
    "BITS21 (0xc0 OR w) = BITS21 a" "BITS43 (0xc0 OR w) = BITS21 b" "BITS65 (0xc0 OR w) = BITS21 c"
    by (rule bit_word_eqI, unfold bit_fields2 w' w, auto)+
qed

lemma BITS21_small: "x < 4 \<Longrightarrow> BITS21 x = x"
proof -
  assume "x < 4"
  then have "unat x < 2 ^ 2" by (simp add: word_less_nat_alt)
  then have "unat (take_bit 2 x) = unat x" by (simp only: unsigned_take_bit_eq take_bit_nat_eq_self)
  then have "take_bit 2 x = x" by (simp only: word_unat_eq_iff)
  then show ?thesis by (simp add: BITS21_def take_bit_eq_mask mask_eq_exp_minus_1)
qed

lemma bytes_of_word: "TWOBYTES (HIBYTE w) (LOBYTE w) = w"
proof -
  have u: "(ucast (b :: u8) AND 0xff :: u16) = ucast b" for b
    by (rule bit_word_eqI) (auto simp: mask_nums bit_simps dest: bit_imp_le_length)
  have "HIBYTE w = ucast (drop_bit 8 w)" "LOBYTE w = ucast w"
    by (rule bit_word_eqI, auto simp: HIBYTE_def LOBYTE_def mask_nums bit_simps dest: bit_imp_le_length)+
  then show ?thesis unfolding TWOBYTES_def u by (intro bit_word_eqI) (auto simp: bit_simps)
qed

lemma word_of_bytes: "HIBYTE (TWOBYTES a b) = a" "LOBYTE (TWOBYTES a b) = b"
proof -
  have u: "(ucast (b :: u8) AND 0xff :: u16) = ucast b" for b
    by (rule bit_word_eqI) (auto simp: mask_nums bit_simps dest: bit_imp_le_length)
  show "HIBYTE (TWOBYTES a b) = a" "LOBYTE (TWOBYTES a b) = b"
    unfolding HIBYTE_def LOBYTE_def TWOBYTES_def u
    by (rule bit_word_eqI, auto simp: mask_nums bit_simps dest: bit_imp_le_length)+
qed

text \<open>The fields of a TSC1 message: what \<open>pdu_to_tsc1\<close> makes of what \<open>tsc1_to_pdu\<close> built.\<close>

definition tsc1_fields_ok :: "j1939_tsc1_typ \<Rightarrow> bool" where
  "tsc1_fields_ok t \<longleftrightarrow> EnOvrdCtrlM t < 4 \<and> EnRSpdCtrlC t < 4 \<and> EnOvrdCtrlMPr t < 4 \<and>
     0 \<le> tsc1_destination_address t \<and> tsc1_destination_address t < 256 \<and> 0 \<le> tsc1_src_address t \<and> tsc1_src_address t < 256"

lemma tsc1_decoded:
  assumes "tsc1_fields_ok t" "length (pd_data p) = 8"
  shows "pdu_to_tsc1 (tsc1_to_pdu p t) t0 = t0\<lparr>tsc1_src_address := tsc1_src_address t,
    EnOvrdCtrlM := EnOvrdCtrlM t, EnRSpdCtrlC := EnRSpdCtrlC t, EnOvrdCtrlMPr := EnOvrdCtrlMPr t, EnRSpdSpdLm := speed_in_rpm_2byte (code_engine_speed (EnRSpdSpdLm t)),
    EnRTrqTrqLm := percent_m125_to_p125 (code_percent_m125_to_p125 (EnRTrqTrqLm t)),
    tsc1_destination_address := tsc1_destination_address t\<rparr>"
proof -
  have a: "int (unat (word_of_int k :: u32)) = k" if "0 \<le> k" "k < 256" for k
    using that by (simp add: unsigned_of_int take_bit_int_eq_self)
  show ?thesis
    using assms a unfolding pdu_to_tsc1_def tsc1_to_pdu_def Let_def tsc1_fields_ok_def
    by (simp add: bits_fields bytes_of_word) (simp add: BITS21_small)
qed

lemma tsc1_recoded:
  assumes "unat (TWOBYTES (pd_data p ! 2) (pd_data p ! 1)) \<le> 64255" "pd_data p ! 3 \<le> 250" "length (pd_data q) = 8"
  shows "take 4 (pd_data (tsc1_to_pdu q (pdu_to_tsc1 p t0))) =
      [BITS21 (pd_data p ! 0) OR push_bit 2 (BITS43 (pd_data p ! 0)) OR push_bit 4 (BITS65 (pd_data p ! 0)),
       pd_data p ! 1, pd_data p ! 2, pd_data p ! 3] \<and>
    pd_specific (tsc1_to_pdu q (pdu_to_tsc1 p t0)) = pd_specific p \<and> pd_src (tsc1_to_pdu q (pdu_to_tsc1 p t0)) = pd_src p"
proof -
  have m: "BITS21 (BITS21 x) = BITS21 x" "BITS21 (BITS43 x) = BITS43 x" "BITS21 (BITS65 x) = BITS65 x" for x
    by (rule bit_word_eqI, unfold bit_fields2, auto)+
  obtain a b c d e f g h where q: "pd_data q = [a, b, c, d, e, f, g, h]" using list8[OF assms(3)] by blast
  show ?thesis
    using speed_code_back[OF assms(1)] percent_code_back[OF assms(2)]
    by (simp add: pdu_to_tsc1_def tsc1_to_pdu_def Let_def q m word_of_bytes)
qed

subsection \<open>The checksum of the brake request\<close>

lemma mask_nums4: "(0xf0 :: u8) = push_bit 4 (mask 4)"
  by (simp add: mask_eq_exp_minus_1 push_bit_eq_mult)

text \<open>What a receiver of an XBR message checks.\<close>

definition xbr_valid :: "u8 list \<Rightarrow> bool" where
  "xbr_valid d \<longleftrightarrow> unat (HINIBBLE (d ! 7)) = unat (xbr_checksum d (LONIBBLE (d ! 7)))"

lemma nibbles_value: "unat (HINIBBLE x) = unat x div 16" "unat (LONIBBLE x) = unat x mod 16"
proof -
  have "HINIBBLE x = drop_bit 4 x"
    by (rule bit_word_eqI) (auto simp: HINIBBLE_def bit_simps mask_nums4 dest: bit_imp_le_length)
  then show "unat (HINIBBLE x) = unat x div 16" by (simp only: unsigned_drop_bit_eq) (simp add: drop_bit_eq_div take_bit_nat_eq_self unsigned_less[where 'a = nat, of x, simplified])
  have "LONIBBLE x = take_bit 4 x" by (simp add: LONIBBLE_def take_bit_eq_mask mask_eq_exp_minus_1)
  then show "unat (LONIBBLE x) = unat x mod 16" by (simp only: unsigned_take_bit_eq) (simp add: take_bit_eq_mod)
qed

lemma shift_16: "0 < c \<Longrightarrow> c < 16 \<Longrightarrow> (s + c) mod 16 \<noteq> s mod (16 :: nat)"
  using mod_eq_dvd_iff_nat[of s "s + c" 16] by (auto dest: dvd_imp_le)

definition fold_nat :: "nat \<Rightarrow> nat" where "fold_nat x = (x mod 256 div 16 + x mod 16) mod 16"

lemma fold_nat_halves: "l < 16 \<Longrightarrow> fold_nat (16 * h + l) = (h + l) mod 16"
proof -
  assume l: "l < 16"
  have "(16 * h + l) mod 256 div 16 = (16 * h + l) div 16 mod 16" using mod_mult2_eq[of "16 * h + l" 16 16] by simp
  also have "(16 * h + l) div 16 = h" using l by simp
  finally show ?thesis using l by (simp add: fold_nat_def mod_add_left_eq)
qed

lemma fold_nat_changes:
  assumes "k < 8" shows "fold_nat (x + 2 ^ k) \<noteq> fold_nat x"
proof -
  define h l where "h = x div 16" and "l = x mod 16"
  have x: "x = 16 * h + l" "l < 16" by (simp_all add: h_def l_def)
  have fx: "fold_nat x = (h + l) mod 16" unfolding x(1) by (rule fold_nat_halves[OF x(2)])
  show ?thesis
  proof (cases "k < 4")
    case True
    then have "k = 0 \<or> k = 1 \<or> k = 2 \<or> k = 3" by auto
    then have c: "0 < (2 :: nat) ^ k" "(2 :: nat) ^ k < 15" by auto
    show ?thesis
    proof (cases "l + 2 ^ k < 16")
      case True
      have "fold_nat (x + 2 ^ k) = (h + l + 2 ^ k) mod 16"
        using fold_nat_halves[OF True, of h] unfolding x(1) by (simp add: add.assoc)
      then show ?thesis using shift_16[of "2 ^ k" "h + l"] c fx by simp
    next
      case False
      then have e: "x + 2 ^ k = 16 * (h + 1) + (l + 2 ^ k - 16)" "l + 2 ^ k - 16 < 16" using x(2) c(2) unfolding x(1) by auto
      have "fold_nat (x + 2 ^ k) = (h + 1 + (l + 2 ^ k - 16)) mod 16" unfolding e(1) by (rule fold_nat_halves[OF e(2)])
      also have "\<dots> = (h + 1 + (l + 2 ^ k - 16) + 16) mod 16" by (rule mod_add_self2[symmetric])
      also have "h + 1 + (l + 2 ^ k - 16) + 16 = h + l + (2 ^ k + 1)" using False by simp
      finally show ?thesis using shift_16[of "2 ^ k + 1" "h + l"] c fx by simp
    qed
  next
    case False
    then have "k = 4 \<or> k = 5 \<or> k = 6 \<or> k = 7" using assms by auto
    then obtain c where c: "(2 :: nat) ^ k = 16 * c" "0 < c" "c < 16" by auto
    have "x + 2 ^ k = 16 * (h + c) + l" unfolding x(1) c(1) by simp
    then have "fold_nat (x + 2 ^ k) = (h + c + l) mod 16" using fold_nat_halves[OF x(2), of "h + c"] by simp
    then show ?thesis using shift_16[OF c(2,3), of "h + l"] fx by (simp add: algebra_simps)
  qed
qed

definition xbr_total :: "u8 list \<Rightarrow> u8 \<Rightarrow> nat" where
  "xbr_total d counter = sum_list (map unat (take 7 d)) + unat counter + 309"

lemma unat_and_nums:
  fixes x :: u32
  shows "unat (x AND 0xFF) = unat x mod 256" "unat (x AND 0x0F) = unat x mod 16"
    "unat x < 256 \<Longrightarrow> unat (drop_bit 4 (x AND 0xF0)) = unat x div 16"
proof -
  have m: "x AND 0xFF = take_bit 8 x" "x AND 0x0F = take_bit 4 x" by (simp_all add: take_bit_eq_mask mask_eq_exp_minus_1)
  show "unat (x AND 0xFF) = unat x mod 256" "unat (x AND 0x0F) = unat x mod 16"
    unfolding m unsigned_take_bit_eq by (simp_all add: take_bit_eq_mod)
  assume s: "unat x < 256"
  have n: "(0xF0 :: u32) = push_bit 4 (mask 4)" by (simp add: mask_eq_exp_minus_1 push_bit_eq_mult)
  have b: "\<not> bit x k" if "8 \<le> k" for k using bit_unat_small[of x 8 k] s that by simp
  have "drop_bit 4 (x AND 0xF0) = drop_bit 4 x"
  proof (rule bit_word_eqI, goal_cases)
    case (1 k) show ?case
      unfolding n bit_drop_bit_eq comp_def bit_and_iff bit_push_bit_iff bit_mask_iff using b[of "4 + k"] by (cases "k < 4") auto
  qed
  then show "unat (drop_bit 4 (x AND 0xF0)) = unat x div 16" by (simp only: unsigned_drop_bit_eq)
    (simp add: drop_bit_eq_div take_bit_nat_eq_self unsigned_less[where 'a = nat, of x, simplified])
qed

lemma xbr_checksum_value:
  assumes "length d = 8" shows "unat (xbr_checksum d c) = fold_nat (xbr_total d c)"
proof -
  obtain d0 d1 d2 d3 d4 d5 d6 d7 where d: "d = [d0, d1, d2, d3, d4, d5, d6, d7]" using list8[OF assms] by blast
  define S where "S = ucast (d ! 0) + ucast (d ! 1) + ucast (d ! 2) + ucast (d ! 3) + ucast (d ! 4) + ucast (d ! 5) +
            ucast (d ! 6) + ucast c + xbr_id_sum + customer_key"
  have b: "unat x < 256" for x :: u8 using unsigned_less[where 'a = nat, of x] by simp
  have t: "xbr_total d c = unat d0 + unat d1 + unat d2 + unat d3 + unat d4 + unat d5 + unat d6 + unat c + 309"
    by (simp add: xbr_total_def d)
  also have "\<dots> < 2 ^ 32" using b[of d0] b[of d1] b[of d2] b[of d3] b[of d4] b[of d5] b[of d6] b[of c] by simp
  finally have lt: "xbr_total d c < 2 ^ 32" .
  have "S = word_of_nat (unat d0 + unat d1 + unat d2 + unat d3 + unat d4 + unat d5 + unat d6 + unat c + 309)"
    unfolding S_def d by (simp add: xbr_id_sum_def customer_key_def)
  then have "S = word_of_nat (xbr_total d c)" unfolding t .
  then have S: "unat S = xbr_total d c" using lt by (simp only: unat_of_nat) (simp add: take_bit_nat_eq_self)
  let ?y = "S AND 0xFF"
  have y: "unat ?y = xbr_total d c mod 256" unfolding unat_and_nums S by simp
  then have y': "unat ?y < 256" by simp
  have h: "unat (drop_bit 4 (?y AND 0xF0)) = xbr_total d c mod 256 div 16" using unat_and_nums(3)[OF y'] y by simp
  have l: "unat (?y AND 0x0F) = xbr_total d c mod 16" unfolding unat_and_nums(2) y by (simp add: mod_mod_cancel)
  have "unat (drop_bit 4 (?y AND 0xF0) + (?y AND 0x0F)) = xbr_total d c mod 256 div 16 + xbr_total d c mod 16"
  proof -
    have "xbr_total d c mod 256 div 16 + xbr_total d c mod 16 < 2 ^ 32"
    proof -
      have "xbr_total d c mod 256 div 16 < 16" by (simp add: div_less_iff_less_mult)
      moreover have "xbr_total d c mod 16 < 16" by simp
      ultimately have "xbr_total d c mod 256 div 16 + xbr_total d c mod 16 < 32" by linarith
      then show ?thesis by (rule less_trans) simp
    qed
    then show ?thesis using unat_add_lem[of "drop_bit 4 (?y AND 0xF0)" "?y AND 0x0F"] h l by simp
  qed
  then show ?thesis unfolding xbr_checksum_def Let_def S_def[symmetric] unat_and_nums(2) fold_nat_def by simp
qed

lemma fold_nat_small: "fold_nat x < 16"
  by (simp add: fold_nat_def)

text \<open>One bit of a byte flipped changes its value by a power of two.\<close>

lemma flip_set: "k < 8 \<Longrightarrow> \<not> bit (b :: u8) k \<Longrightarrow> unat (flip_bit k b) = unat b + 2 ^ k"
proof -
  assume k: "k < 8" "\<not> bit b k"
  have "flip_bit k b = b OR push_bit k 1"
    by (rule bit_word_eqI) (use k in \<open>auto simp: bit_simps\<close>)
  then have "unat (flip_bit k b) = unat b OR unat (push_bit k 1 :: u8)" by (simp only: unsigned_or_eq)
  also have "unat (push_bit k 1 :: u8) = 2 ^ k"
    using k(1) by (simp only: unsigned_push_bit_eq) (simp add: take_bit_nat_eq_self)
  also have "unat b OR 2 ^ k = unat b + 2 ^ k"
  proof (rule disjunctive_add_eq_or[symmetric])
    show "unat b AND 2 ^ k = 0" by (rule bit_eqI) (use k in \<open>auto simp: bit_and_iff bit_exp_iff bit_unsigned_iff\<close>)
  qed
  finally show ?thesis .
qed

lemma flip_value:
  assumes "k < 8"
  shows "unat (flip_bit k (b :: u8)) = unat b + 2 ^ k \<or> unat b = unat (flip_bit k b) + 2 ^ k"
proof (cases "bit b k")
  case True
  then have "\<not> bit (flip_bit k b) k" using assms by (simp add: bit_simps)
  moreover have "flip_bit k (flip_bit k b) = b" by (rule bit_word_eqI) (auto simp: bit_simps)
  ultimately show ?thesis using flip_set[OF assms, of "flip_bit k b"] by simp
qed (use flip_set[OF assms] in simp)

lemma flip_nibbles:
  "k < 4 \<Longrightarrow> HINIBBLE (flip_bit k x) = HINIBBLE x" "k < 4 \<Longrightarrow> LONIBBLE (flip_bit k x) = flip_bit k (LONIBBLE x)"
  "4 \<le> k \<Longrightarrow> k < 8 \<Longrightarrow> HINIBBLE (flip_bit k x) \<noteq> HINIBBLE x" "4 \<le> k \<Longrightarrow> LONIBBLE (flip_bit k x) = LONIBBLE x"
proof -
  have m: "(0x0f :: u8) = mask 4" by (simp add: mask_eq_exp_minus_1)
  have h: "bit (HINIBBLE y) n \<longleftrightarrow> n < 4 \<and> bit y (4 + n)" for y n
    unfolding HINIBBLE_def mask_nums4 by (auto simp: bit_simps dest: bit_imp_le_length)
  have l: "bit (LONIBBLE y) n \<longleftrightarrow> n < 4 \<and> bit y n" for y n
    unfolding LONIBBLE_def m by (auto simp: bit_simps)
  have f: "bit (flip_bit k y) n \<longleftrightarrow> (if n = k \<and> k < 8 then \<not> bit y n else bit y n)" for y :: u8 and n
    by (auto simp: bit_flip_bit_iff dest: bit_imp_le_length)
  show "k < 4 \<Longrightarrow> HINIBBLE (flip_bit k x) = HINIBBLE x" "4 \<le> k \<Longrightarrow> LONIBBLE (flip_bit k x) = LONIBBLE x"
    "k < 4 \<Longrightarrow> LONIBBLE (flip_bit k x) = flip_bit k (LONIBBLE x)"
    by (rule bit_word_eqI, simp add: h l f; fail)+
  assume k: "4 \<le> k" "k < 8"
  have "bit (HINIBBLE (flip_bit k x)) (k - 4) \<noteq> bit (HINIBBLE x) (k - 4)" unfolding h f using k less_diff_conv2[OF k(1), of 4] by simp
  then show "HINIBBLE (flip_bit k x) \<noteq> HINIBBLE x" by metis
qed

lemma fold_nat_flip: "y = x + 2 ^ k \<or> x = y + 2 ^ k \<Longrightarrow> k < 8 \<Longrightarrow> fold_nat y \<noteq> fold_nat x"
  using fold_nat_changes[of k x] fold_nat_changes[of k y] by auto

lemma xbr_total_update:
  assumes "length d = 8" "i < 7"
  shows "xbr_total (d[i := b]) c + unat (d ! i) = xbr_total d c + unat b"
proof -
  have "take 7 (d[i := b]) = (take 7 d)[i := b]" by (simp add: take_update_swap)
  moreover have "sum_list ((map unat (take 7 d))[i := unat b]) + unat (d ! i) = sum_list (map unat (take 7 d)) + unat b"
  proof -
    have "sum_list (xs[i := y]) + xs ! i = sum_list xs + y" if "i < length xs" for xs and y :: nat
      using that by (induction xs arbitrary: i) (auto simp: nth_Cons' split: nat.splits)
    from this[of "map unat (take 7 d)"] show ?thesis using assms by simp
  qed
  ultimately show ?thesis by (simp add: xbr_total_def map_update)
qed

text \<open>A message whose checksum is right no longer has a right one when any single bit of it is changed.\<close>

lemma xbr_bit_error:
  assumes d: "length d = 8" "xbr_valid d" and i: "i < 8" "k < 8"
  shows "\<not> xbr_valid (d[i := flip_bit k (d ! i)])"
proof -
  let ?b = "flip_bit k (d ! i)" and ?d = "d[i := flip_bit k (d ! i)]"
  note v = flip_value[OF i(2), of "d ! i"]
  have val: "unat (HINIBBLE (d ! 7)) = fold_nat (xbr_total d (LONIBBLE (d ! 7)))"
    using d xbr_checksum_value[OF d(1)] by (simp add: xbr_valid_def)
  have val': "xbr_valid ?d \<longleftrightarrow> unat (HINIBBLE (?d ! 7)) = fold_nat (xbr_total ?d (LONIBBLE (?d ! 7)))"
    using xbr_checksum_value[of ?d] d(1) by (simp add: xbr_valid_def)
  show ?thesis
  proof (cases "i = 7")
    case False
    then have i7: "i < 7" "?d ! 7 = d ! 7" using i by simp_all
    have "xbr_total ?d c = xbr_total d c + 2 ^ k \<or> xbr_total d c = xbr_total ?d c + 2 ^ k" for c
      using xbr_total_update[OF d(1) i7(1), of ?b c] v by linarith
    then have "fold_nat (xbr_total ?d c) \<noteq> fold_nat (xbr_total d c)" for c using fold_nat_flip i(2) by blast
    then show ?thesis unfolding val' i7(2) val by metis
  next
    case True
    have tot: "xbr_total ?d c = sum_list (map unat (take 7 d)) + unat c + 309" for c using True by (simp add: xbr_total_def)
    have b: "?d ! 7 = flip_bit k (d ! 7)" using True d(1) by simp
    show ?thesis
    proof (cases "k < 4")
      case True
      have n: "HINIBBLE (?d ! 7) = HINIBBLE (d ! 7)" "LONIBBLE (?d ! 7) = flip_bit k (LONIBBLE (d ! 7))"
        unfolding b using flip_nibbles(1,2)[OF True] by blast+
      have "unat (LONIBBLE (?d ! 7)) = unat (LONIBBLE (d ! 7)) + 2 ^ k \<or> unat (LONIBBLE (d ! 7)) = unat (LONIBBLE (?d ! 7)) + 2 ^ k"
        unfolding n by (rule flip_value[OF i(2)])
      then have "xbr_total ?d (LONIBBLE (?d ! 7)) = xbr_total d (LONIBBLE (d ! 7)) + 2 ^ k \<or>
          xbr_total d (LONIBBLE (d ! 7)) = xbr_total ?d (LONIBBLE (?d ! 7)) + 2 ^ k"
        unfolding tot xbr_total_def[of d] by linarith
      then show ?thesis unfolding val' n(1) val using fold_nat_flip[OF _ i(2)] by metis
    next
      case False
      then have n: "HINIBBLE (?d ! 7) \<noteq> HINIBBLE (d ! 7)" "LONIBBLE (?d ! 7) = LONIBBLE (d ! 7)"
        unfolding b using flip_nibbles(3,4)[of k "d ! 7"] i(2) by simp_all
      have "xbr_total ?d c = xbr_total d c" for c unfolding tot xbr_total_def[of d] ..
      then show ?thesis unfolding val' n(2) val[symmetric] using n(1) val by (metis word_unat_eq_iff)
    qed
  qed
qed

subsection \<open>Brake requests sent\<close>

lemma last_byte:
  assumes "unat (cs :: u32) < 16" "unat (c :: u8) < 16"
  shows "unat (ucast (push_bit 4 cs AND 0xF0) + c :: u8) = 16 * unat cs + unat c"
proof -
  have n: "(0xF0 :: u32) = push_bit 4 (mask 4)" by (simp add: mask_eq_exp_minus_1 push_bit_eq_mult)
  have b: "\<not> bit cs k" if "4 \<le> k" for k using bit_unat_small[of cs 4 k] assms(1) that by simp
  have "push_bit 4 cs AND 0xF0 = push_bit 4 cs"
  proof (rule bit_word_eqI, goal_cases)
    case (1 k) show ?case
      unfolding n bit_and_iff bit_push_bit_iff bit_mask_iff using b[of "k - 4"] by (cases "k - 4 < 4") (auto simp: not_less)
  qed
  moreover have "unat (push_bit 4 cs) = 16 * unat cs"
    using assms(1) by (simp only: unsigned_push_bit_eq) (simp add: push_bit_eq_mult take_bit_nat_eq_self)
  ultimately have "unat (ucast (push_bit 4 cs AND 0xF0) :: u8) = 16 * unat cs"
    using assms(1) by (simp add: unsigned_ucast_eq take_bit_nat_eq_self)
  then show ?thesis using unat_add_lem[of "ucast (push_bit 4 cs AND 0xF0) :: u8" c] assms by simp
qed

lemma close_same: "length d = 8 \<Longrightarrow> \<exists>e. length e = 8 \<and> xbr_close d c = xbr_close e c"
  by blast

lemma xbr_sent:
  assumes "volvo_xbr_to_pdu c p x = Some (c', p', x')" "unat c < 16" "length (pd_data p) = 8"
  shows "unat c' = (unat c + 1) mod 16" "LONIBBLE (pd_data p' ! 7) = c'" "xbr_valid (pd_data p')" "length (pd_data p') = 8"
proof -
  define c1 where "c1 = (if c + 1 \<ge> 16 then 0 else c + 1)"
  have u: "unat (c + 1) = unat c + 1" using assms(2) unat_add_lem[of c 1] by simp
  then have c1: "unat c1 = (unat c + 1) mod 16" using assms(2) by (cases "unat c = 15") (auto simp: c1_def word_le_nat_alt)
  have eq: "c' = c1 \<and> (\<exists>d. length d = 8 \<and> pd_data p' = xbr_close d c1)"
    using assms(1,3) unfolding volvo_xbr_to_pdu_def Let_def c1_def[symmetric]
    by (auto split: if_splits intro!: close_same)
  then obtain d where d: "length d = 8" "pd_data p' = d[7 := ucast (push_bit 4 (xbr_checksum d c1) AND 0xF0) + c1]"
    by (auto simp: xbr_close_def Let_def)
  have cs: "unat (xbr_checksum d c1) < 16" unfolding xbr_checksum_value[OF d(1)] by (rule fold_nat_small)
  have l: "unat (pd_data p' ! 7) = 16 * unat (xbr_checksum d c1) + unat c1"
    using last_byte[OF cs, of c1] c1 d by simp
  then have n: "unat (HINIBBLE (pd_data p' ! 7)) = unat (xbr_checksum d c1)" "unat (LONIBBLE (pd_data p' ! 7)) = unat c1"
    unfolding nibbles_value using c1 by simp_all
  show "unat c' = (unat c + 1) mod 16" using eq c1 by simp
  show lo: "LONIBBLE (pd_data p' ! 7) = c'" using eq n(2) by (simp only: word_unat_eq_iff)
  show "length (pd_data p') = 8" using d by simp
  have "xbr_checksum (pd_data p') c1 = xbr_checksum d c1" unfolding d(2) by (simp add: xbr_checksum_def)
  then show "xbr_valid (pd_data p')" using n(1) lo eq by (simp add: xbr_valid_def)
qed

text \<open>
  The demand: its code is at most one step below it, and the message carries the code.  The factor
  of the decoder is not quite the one of the coder.
\<close>

lemma c_trunc_pos: "0 \<le> z \<Longrightarrow> of_int (c_trunc z) \<le> z \<and> z < of_int (c_trunc z) + 1"
  unfolding c_trunc_def by (simp, linarith)

lemma mask_nums16: "(0xFFFF :: u16) = mask 16"
  by (simp add: mask_eq_exp_minus_1)

lemma xbr_demand:
  assumes "volvo_xbr_to_pdu c p x = Some (c', p', x')" "length (pd_data p) = 8"
    and q_def: "q = ExternalAccelerationDemand (pdu_to_volvo_xbr p' x0)"
  shows "ExternalAccelerationDemand x' = (if XBRControlMode x = 0 then 10 else ExternalAccelerationDemand x)"
    "- 15687 / 1000 \<le> ExternalAccelerationDemand x' \<Longrightarrow>
      q \<le> ExternalAccelerationDemand x' \<and> ExternalAccelerationDemand x' - q < 6 / 10 ^ 4"
    "XBREBIMode (pdu_to_volvo_xbr p' x0) = BITS21 (XBREBIMode x)" "XBRPriority (pdu_to_volvo_xbr p' x0) = BITS21 (XBRPriority x)"
    "XBRControlMode (pdu_to_volvo_xbr p' x0) = BITS21 (XBRControlMode x)"
proof -
  let ?a = "if XBRControlMode x = 0 then 10 else ExternalAccelerationDemand x"
  let ?r = "c_trunc ((?a + 15687 / 1000) / (4882812 / 10 ^ 10))"
  obtain a0 a1 a2 a3 a4 a5 a6 a7 where p: "pd_data p = [a0, a1, a2, a3, a4, a5, a6, a7]" using list8[OF assms(2)] by blast
  have f: "ExternalAccelerationDemand (if XBRControlMode x = 0 then x\<lparr>ExternalAccelerationDemand := 10\<rparr> else x) = ?a" by simp
  have r: "0 \<le> ?r" "?r \<le> 65535" and x': "x' = (if XBRControlMode x = 0 then x\<lparr>ExternalAccelerationDemand := 10\<rparr> else x)"
    using assms(1) unfolding volvo_xbr_to_pdu_def Let_def f by (auto split: if_splits)
  show xa: "ExternalAccelerationDemand x' = ?a" unfolding x' by simp
  have w: "(word_of_int ?r :: u16) AND 0xFFFF = word_of_int ?r"
    by (rule bit_word_eqI) (auto simp: bit_simps mask_eq_exp_minus_1[symmetric] mask_nums16)
  have d: "pd_data p' ! 0 = LOBYTE (word_of_int ?r)" "pd_data p' ! 1 = HIBYTE (word_of_int ?r)"
    "pd_data p' ! 2 = 0xc0 OR BITS21 (XBREBIMode x) OR push_bit 2 (BITS21 (XBRPriority x)) OR push_bit 4 (BITS21 (XBRControlMode x))"
    using assms(1) unfolding volvo_xbr_to_pdu_def xbr_close_def Let_def f w by (auto simp: p split: if_splits)
  show "XBREBIMode (pdu_to_volvo_xbr p' x0) = BITS21 (XBREBIMode x)" "XBRPriority (pdu_to_volvo_xbr p' x0) = BITS21 (XBRPriority x)"
    "XBRControlMode (pdu_to_volvo_xbr p' x0) = BITS21 (XBRControlMode x)"
    unfolding pdu_to_volvo_xbr_def Let_def d(3) or.assoc using bits_fields by simp_all
  assume lo: "- 15687 / 1000 \<le> ExternalAccelerationDemand x'"
  let ?y = "(?a + 15687 / 1000) / (4882812 / 10 ^ 10)"
  have y: "of_int ?r \<le> ?y" "?y < of_int ?r + 1"
  proof -
    have "0 \<le> ?y" using lo unfolding xa by simp
    from c_trunc_pos[OF this] show "of_int ?r \<le> ?y" "?y < of_int ?r + 1" by blast+
  qed
  have "int (unat (word_of_int ?r :: u16)) = ?r" using r by (simp add: unsigned_of_int take_bit_int_eq_self)
  then have u: "(of_nat (unat (word_of_int ?r :: u16)) :: rat) = of_int ?r" by (metis of_int_of_nat_eq)
  have q: "q = of_int ?r * (488281 / 10 ^ 9) - 15687 / 1000"
    unfolding q_def pdu_to_volvo_xbr_def Let_def d(1,2) bytes_of_word u by simp
  have rr: "0 \<le> (of_int ?r :: rat)" "(of_int ?r :: rat) \<le> 65535" using r by (metis of_int_0_le_iff, metis of_int_le_iff of_int_numeral)
  show "q \<le> ExternalAccelerationDemand x' \<and> ExternalAccelerationDemand x' - q < 6 / 10 ^ 4"
    unfolding xa q using y rr by (simp add: field_simps)
qed

end
