(* ===== verification/J1939Msgs2.thy ===== *)
theory J1939Msgs2
  imports J1939Msgs
begin

text \<open>
  Vehicle, environment and Volvo messages; see J1939Msgs.
\<close>

record j1939_etemp_typ = etemp_timestamp :: timestamp
  engine_coolant_temperature :: cfloat
  fuel_temperature :: cfloat
  engine_oil_temperature :: cfloat
  turbo_oil_temperature :: cfloat
  engine_intercooler_temperature :: cfloat
  engine_intercooler_thermostat_opening :: cfloat

definition pdu_to_etemp :: "j1939_pdu \<Rightarrow> j1939_etemp_typ \<Rightarrow> j1939_etemp_typ" where
  "pdu_to_etemp pdu etemp0 = (let d = pd_data pdu in etemp0\<lparr>
     engine_coolant_temperature := temp_m40_to_p210 (d ! 0),
     fuel_temperature := temp_m40_to_p210 (d ! 1),
     engine_oil_temperature := temp_m273_to_p1735 (TWOBYTES (d ! 3) (d ! 2)),
     turbo_oil_temperature := temp_m273_to_p1735 (TWOBYTES (d ! 5) (d ! 4)),
     engine_intercooler_temperature := temp_m40_to_p210 (d ! 6),
     engine_intercooler_thermostat_opening := percent_0_to_100 (d ! 7)\<rparr>)"

record j1939_pto_typ = pto_timestamp :: timestamp
  pto_oil_temperature :: cfloat
  pto_speed :: cfloat
  pto_set_speed :: cfloat
  remote_pto_variable_speed_status :: u8
  remote_pto_preprogrammed_status :: u8
  pto_enable_switch_status :: u8
  pto_accelerate_switch_status :: u8
  pto_resume_switch_status :: u8
  pto_coast_accelerate_switch_status :: u8
  pto_set_switch_status :: u8

definition pdu_to_pto :: "j1939_pdu \<Rightarrow> j1939_pto_typ \<Rightarrow> j1939_pto_typ" where
  "pdu_to_pto pdu pto0 = (let d = pd_data pdu in pto0\<lparr>
     pto_oil_temperature := temp_m40_to_p210 (d ! 0),
     pto_speed := speed_in_rpm_2byte (TWOBYTES (d ! 2) (d ! 1)),
     pto_set_speed := speed_in_rpm_2byte (TWOBYTES (d ! 4) (d ! 3)),
     remote_pto_variable_speed_status := BITS65 (d ! 5),
     remote_pto_preprogrammed_status := BITS43 (d ! 5),
     pto_enable_switch_status := BITS21 (d ! 5),
     pto_accelerate_switch_status := BITS87 (d ! 6),
     pto_resume_switch_status := BITS65 (d ! 6),
     pto_coast_accelerate_switch_status := BITS43 (d ! 6),
     pto_set_switch_status := BITS21 (d ! 6)\<rparr>)"

record j1939_ccvs_typ = ccvs_timestamp :: timestamp
  CCVS_ParkingBrakeSwitch :: u8
  CCVS_TwoSpeedAxleSwitch :: u8
  CCVS_VehicleSpeed :: cfloat
  CCVS_ParkBrakeReleaseInhibitRq :: u8
  CCVS_ClutchSwitch :: u8
  CCVS_BrakeSwitch :: u8
  CCVS_CruiseCtrlPauseSwitch :: u8
  CCVS_CruiseControlEnableSwitch :: u8
  CCVS_CruiseControlActive :: u8
  CCVS_CruiseControlAccelerateSwitch :: u8
  CCVS_CruiseControlResumeSwitch :: u8
  CCVS_CruiseControlCoastSwitch :: u8
  CCVS_CruiseControlSetSwitch :: u8
  CCVS_CruiseControlSetSpeed :: cfloat
  CCVS_CruiseControlState :: u8
  CCVS_PtoState :: u8
  CCVS_EngShutdownOverrideSwitch :: u8
  CCVS_EngTestModeSwitch :: u8
  CCVS_EngIdleDecrementSwitch :: u8
  CCVS_EngIdleIncrementSwitch :: u8

definition pdu_to_ccvs :: "j1939_pdu \<Rightarrow> j1939_ccvs_typ \<Rightarrow> j1939_ccvs_typ" where
  "pdu_to_ccvs pdu ccvs0 = (let d = pd_data pdu in ccvs0\<lparr>
     CCVS_ParkBrakeReleaseInhibitRq := BITS87 (d ! 0),
     CCVS_CruiseCtrlPauseSwitch := BITS65 (d ! 0),
     CCVS_ParkingBrakeSwitch := BITS43 (d ! 0),
     CCVS_TwoSpeedAxleSwitch := BITS21 (d ! 0),
     CCVS_VehicleSpeed := wheel_based_mps (TWOBYTES (d ! 2) (d ! 1)),
     CCVS_ClutchSwitch := BITS87 (d ! 3),
     CCVS_BrakeSwitch := BITS65 (d ! 3),
     CCVS_CruiseControlEnableSwitch := BITS43 (d ! 3),
     CCVS_CruiseControlActive := BITS21 (d ! 3),
     CCVS_CruiseControlAccelerateSwitch := BITS87 (d ! 4),
     CCVS_CruiseControlResumeSwitch := BITS65 (d ! 4),
     CCVS_CruiseControlCoastSwitch := BITS43 (d ! 4),
     CCVS_CruiseControlSetSwitch := BITS21 (d ! 4),
     CCVS_CruiseControlSetSpeed := cruise_control_set_meters_per_sec (d ! 5),
     CCVS_CruiseControlState := drop_bit 1 (HINIBBLE (d ! 6)),
     CCVS_PtoState := d ! 6 AND 0x1f,
     CCVS_EngShutdownOverrideSwitch := BITS87 (d ! 7),
     CCVS_EngTestModeSwitch := BITS65 (d ! 7),
     CCVS_EngIdleDecrementSwitch := BITS43 (d ! 7),
     CCVS_EngIdleIncrementSwitch := BITS21 (d ! 7)\<rparr>)"

record j1939_lfe_typ = lfe_timestamp :: timestamp
  LFE_EngineFuelRate :: cfloat
  LFE_EngineInstantaneousFuelEconomy :: cfloat
  LFE_EngineAverageFuelEconomy :: cfloat
  LFE_EngineThrottleValve1Position :: cfloat

definition pdu_to_lfe :: "j1939_pdu \<Rightarrow> j1939_lfe_typ \<Rightarrow> j1939_lfe_typ" where
  "pdu_to_lfe pdu lfe0 = (let d = pd_data pdu in lfe0\<lparr>
     LFE_EngineFuelRate := fuel_rate_cm3_per_sec (TWOBYTES (d ! 1) (d ! 0)),
     LFE_EngineInstantaneousFuelEconomy := fuel_economy_meters_per_cm3 (TWOBYTES (d ! 3) (d ! 2)),
     LFE_EngineAverageFuelEconomy := fuel_economy_meters_per_cm3 (TWOBYTES (d ! 5) (d ! 4)),
     LFE_EngineThrottleValve1Position := percent_0_to_100 (d ! 6)\<rparr>)"

record j1939_ambc_typ = ambc_timestamp :: timestamp
  barometric_pressure :: cfloat
  cab_interior_temperature :: cfloat
  ambient_air_temperature :: cfloat
  air_inlet_temperature :: cfloat
  road_surface_temperature :: cfloat

definition pdu_to_ambc :: "j1939_pdu \<Rightarrow> j1939_ambc_typ \<Rightarrow> j1939_ambc_typ" where
  "pdu_to_ambc pdu ambc0 = (let d = pd_data pdu in ambc0\<lparr>
     barometric_pressure := pressure_0_to_125kpa (d ! 0),
     cab_interior_temperature := temp_m273_to_p1735 (TWOBYTES (d ! 2) (d ! 1)),
     ambient_air_temperature := temp_m273_to_p1735 (TWOBYTES (d ! 4) (d ! 3)),
     air_inlet_temperature := temp_m40_to_p210 (d ! 5),
     road_surface_temperature := temp_m273_to_p1735 (TWOBYTES (d ! 7) (d ! 6))\<rparr>)"

record j1939_iec_typ = iec_timestamp :: timestamp
  particulate_trap_inlet_pressure :: cfloat
  boost_pressure :: cfloat
  intake_manifold_temperature :: cfloat
  air_inlet_pressure :: cfloat
  air_filter_differential_pressure :: cfloat
  exhaust_gas_temperature :: cfloat
  coolant_filter_differential_pressure :: cfloat

definition pdu_to_iec :: "j1939_pdu \<Rightarrow> j1939_iec_typ \<Rightarrow> j1939_iec_typ" where
  "pdu_to_iec pdu iec0 = (let d = pd_data pdu in iec0\<lparr>
     particulate_trap_inlet_pressure := pressure_0_to_125kpa (d ! 0),
     boost_pressure := pressure_0_to_500kpa (d ! 1),
     intake_manifold_temperature := temp_m40_to_p210 (d ! 2),
     air_inlet_pressure := pressure_0_to_500kpa (d ! 3),
     air_filter_differential_pressure := pressure_0_to_12kpa (d ! 4),
     exhaust_gas_temperature := temp_m273_to_p1735 (TWOBYTES (d ! 6) (d ! 5)),
     coolant_filter_differential_pressure := pressure_0_to_125kpa (d ! 7)\<rparr>)"

record j1939_vep_typ = vep_timestamp :: timestamp
  net_battery_current :: cfloat
  alternator_current :: cfloat
  alternator_potential :: cfloat
  electrical_potential :: cfloat
  battery_potential_switched :: cfloat

definition pdu_to_vep :: "j1939_pdu \<Rightarrow> j1939_vep_typ \<Rightarrow> j1939_vep_typ" where
  "pdu_to_vep pdu vep0 = (let d = pd_data pdu in vep0\<lparr>
     net_battery_current := current_m125_to_p125amp (d ! 0),
     alternator_current := current_0_to_250amp (d ! 1),
     alternator_potential := voltage (TWOBYTES (d ! 3) (d ! 2)),
     electrical_potential := voltage (TWOBYTES (d ! 5) (d ! 4)),
     battery_potential_switched := voltage (TWOBYTES (d ! 7) (d ! 6))\<rparr>)"

record j1939_tf_typ = tf_timestamp :: timestamp
  clutch_pressure :: cfloat
  transmission_oil_level :: cfloat
  transmission_filter_differential_pressure :: cfloat
  transmission_oil_pressure :: cfloat
  transmission_oil_temperature :: cfloat

definition pdu_to_tf :: "j1939_pdu \<Rightarrow> j1939_tf_typ \<Rightarrow> j1939_tf_typ" where
  "pdu_to_tf pdu tf0 = (let d = pd_data pdu in tf0\<lparr>
     clutch_pressure := pressure_0_to_4000kpa (d ! 0),
     transmission_oil_level := percent_0_to_100 (d ! 1),
     transmission_filter_differential_pressure := pressure_0_to_500kpa (d ! 2),
     transmission_oil_pressure := pressure_0_to_4000kpa (d ! 3),
     transmission_oil_temperature := temp_m273_to_p1735 (TWOBYTES (d ! 5) (d ! 4))\<rparr>)"

record j1939_rf_typ = rf_timestamp :: timestamp
  hydraulic_retarder_pressure :: cfloat
  hydraulic_retarder_oil_temperature :: cfloat

definition pdu_to_rf :: "j1939_pdu \<Rightarrow> j1939_rf_typ \<Rightarrow> j1939_rf_typ" where
  "pdu_to_rf pdu rf0 = (let d = pd_data pdu in rf0\<lparr>
     hydraulic_retarder_pressure := pressure_0_to_4000kpa (d ! 0),
     hydraulic_retarder_oil_temperature := temp_m40_to_p210 (d ! 1)\<rparr>)"

record j1939_hrvd_typ = hrvd_timestamp :: timestamp
  vehicle_distance :: cfloat
  hrvd_trip_distance :: cfloat

definition pdu_to_hrvd :: "j1939_pdu \<Rightarrow> j1939_hrvd_typ \<Rightarrow> j1939_hrvd_typ" where
  "pdu_to_hrvd pdu hrvd0 = (let d = pd_data pdu in hrvd0\<lparr>
     vehicle_distance := hr_distance_in_km (FOURBYTES (d ! 3) (d ! 2) (d ! 2) (d ! 0)),
     hrvd_trip_distance := hr_distance_in_km (FOURBYTES (d ! 7) (d ! 6) (d ! 5) (d ! 4))\<rparr>)"

record j1939_vdc2_typ = vdc2_timestamp :: timestamp
  VDC2_SteeringWheelAngle :: cfloat
  VDC2_YawRate :: cfloat
  VDC2_LateralAcceleration :: cfloat
  VDC2_LongitudinalAcceleration :: cfloat
  VDC2_SteeringWheelTurnCounter :: int

definition pdu_to_vdc2 :: "j1939_pdu \<Rightarrow> j1939_vdc2_typ \<Rightarrow> j1939_vdc2_typ" where
  "pdu_to_vdc2 pdu vdc20 = (let d = pd_data pdu in vdc20\<lparr>
     VDC2_SteeringWheelAngle := num (TWOBYTES (d ! 1) (d ! 0)) * (976563 / 10 ^ 9) - 31374 / 1000,
     VDC2_SteeringWheelTurnCounter := to_char (int (unat (d ! 2 AND 0x3F)) - 32),
     VDC2_YawRate := num (TWOBYTES (d ! 4) (d ! 3)) * (122 / 10 ^ 6) - 392 / 100,
     VDC2_LateralAcceleration := num (TWOBYTES (d ! 6) (d ! 5)) * (488281 / 10 ^ 9) - 125 / 10,
     VDC2_LongitudinalAcceleration := num (d ! 7) * (1 / 10) - 125 / 10\<rparr>)"

record j1939_vp_x_typ = vp_x_timestamp :: timestamp
  VP_X_TGW_Latitude_BB1_X_TGW :: cfloat
  VP_X_TGW_Longitude_BB1_X_TGW :: cfloat

text \<open>The four bytes as a signed \<open>int\<close>, the least significant first.\<close>

definition int_of_bytes :: "u8 \<Rightarrow> u8 \<Rightarrow> u8 \<Rightarrow> u8 \<Rightarrow> int" where
  "int_of_bytes b0 b1 b2 b3 = sint (ucast b0 + push_bit 8 (ucast b1) + push_bit 16 (ucast b2) + push_bit 24 (ucast b3) :: u32)"

definition pdu_to_vp_x :: "j1939_pdu \<Rightarrow> j1939_vp_x_typ \<Rightarrow> j1939_vp_x_typ" where
  "pdu_to_vp_x pdu vp_x0 = (let d = pd_data pdu in vp_x0\<lparr>
     VP_X_TGW_Latitude_BB1_X_TGW := of_int (int_of_bytes (d ! 0) (d ! 1) (d ! 2) (d ! 3)) / 1000000,
     VP_X_TGW_Longitude_BB1_X_TGW := of_int (int_of_bytes (d ! 4) (d ! 5) (d ! 6) (d ! 7)) / 1000000\<rparr>)"

record j1939_can1_typ = can1_timestamp :: timestamp
  CAN1_ExtData :: u8
  CAN1_StdData :: u8
  CAN1_BusLoad :: u8

definition pdu_to_can1 :: "j1939_pdu \<Rightarrow> j1939_can1_typ \<Rightarrow> j1939_can1_typ" where
  "pdu_to_can1 pdu can10 = (let d = pd_data pdu in can10\<lparr>
     CAN1_StdData := d ! 0,
     CAN1_ExtData := d ! 1,
     CAN1_BusLoad := d ! 2\<rparr>)"

record j1939_can2_typ = can2_timestamp :: timestamp
  CAN2_BusLoad :: u8

definition pdu_to_can2 :: "j1939_pdu \<Rightarrow> j1939_can2_typ \<Rightarrow> j1939_can2_typ" where
  "pdu_to_can2 pdu can20 = (let d = pd_data pdu in can20\<lparr>
     CAN2_BusLoad := d ! 2\<rparr>)"

record j1939_mvs_x_e_typ = mvs_x_e_timestamp :: timestamp
  MVS_X_E_AppliedVehicleSpeedLimit_BB1_X_E :: cfloat

definition pdu_to_mvs_x_e :: "j1939_pdu \<Rightarrow> j1939_mvs_x_e_typ \<Rightarrow> j1939_mvs_x_e_typ" where
  "pdu_to_mvs_x_e pdu mvs_x_e0 = (let d = pd_data pdu in mvs_x_e0\<lparr>
     MVS_X_E_AppliedVehicleSpeedLimit_BB1_X_E := num (d ! 7)\<rparr>)"

record j1939_volvo_target_typ = vtgt_timestamp :: timestamp
  TargetDist :: cfloat
  TargetVel :: cfloat
  TargetAcc :: cfloat
  TargetAvailable :: u8

definition pdu_to_volvo_target :: "j1939_pdu \<Rightarrow> j1939_volvo_target_typ \<Rightarrow> j1939_volvo_target_typ" where
  "pdu_to_volvo_target pdu vtgt0 = (let d = pd_data pdu in vtgt0\<lparr>
     TargetDist := num (TWOBYTES (d ! 1) (d ! 0)) * (1 / 100),
     TargetVel := num (TWOBYTES (d ! 3) (d ! 2)) * (1 / 100),
     TargetAcc := num (TWOBYTES (d ! 5) (d ! 4)) * (1 / 100) - 32768 / 100,
     TargetAvailable := d ! 6 AND 1\<rparr>)"

record j1939_volvo_ego_typ = vego_timestamp :: timestamp
  EgoVel :: cfloat
  EgoAcc :: cfloat
  EgoRoadGrade :: cfloat

definition pdu_to_volvo_ego :: "j1939_pdu \<Rightarrow> j1939_volvo_ego_typ \<Rightarrow> j1939_volvo_ego_typ" where
  "pdu_to_volvo_ego pdu vego0 = (let d = pd_data pdu in vego0\<lparr>
     EgoVel := num (TWOBYTES (d ! 1) (d ! 0)) * (1 / 100),
     EgoAcc := num (TWOBYTES (d ! 3) (d ! 2)) * (1 / 100) - 32768 / 100,
     EgoRoadGrade := num (d ! 4) * (2 / 10) - 25\<rparr>)"

record j1939_ebc_acc_typ = ebc_acc_timestamp :: timestamp
  ebc_acc_vehicle_mass :: cfloat
  road_slope :: cfloat

definition pdu_to_ebc_acc :: "j1939_pdu \<Rightarrow> j1939_ebc_acc_typ \<Rightarrow> j1939_ebc_acc_typ" where
  "pdu_to_ebc_acc pdu ebc_acc0 = (let d = pd_data pdu in ebc_acc0\<lparr>
     ebc_acc_vehicle_mass := mass_0_to_100t (d ! 0),
     road_slope := percent_m25_to_p25 (d ! 1)\<rparr>)"

record j1939_gfi2_typ = gfi2_timestamp :: timestamp
  fuel_flow_rate1 :: cfloat
  fuel_flow_rate2 :: cfloat
  fuel_valve1_position :: cfloat
  fuel_valve2_position :: cfloat

definition pdu_to_gfi2 :: "j1939_pdu \<Rightarrow> j1939_gfi2_typ \<Rightarrow> j1939_gfi2_typ" where
  "pdu_to_gfi2 pdu gfi20 = (let d = pd_data pdu in gfi20\<lparr>
     fuel_valve1_position := num (d ! 2)\<rparr>)"

record j1939_ei_typ = ei_timestamp :: timestamp
  pre_filter_oil_pressure :: cfloat
  exhaust_gas_pressure :: cfloat
  rack_position :: cfloat
  natural_gas_mass_flow :: cfloat
  instantaneous_estimated_brake_power :: cfloat

definition pdu_to_ei :: "j1939_pdu \<Rightarrow> j1939_ei_typ \<Rightarrow> j1939_ei_typ" where
  "pdu_to_ei pdu ei0 = (let d = pd_data pdu in ei0\<lparr>
     pre_filter_oil_pressure := pressure_0_to_1000kpa (d ! 0),
     exhaust_gas_pressure := pressure_m250_to_p252kpa (TWOBYTES (d ! 2) (d ! 1)),
     rack_position := percent_0_to_100 (d ! 3),
     natural_gas_mass_flow := mass_flow (TWOBYTES (d ! 5) (d ! 4)),
     instantaneous_estimated_brake_power := power_in_kw (TWOBYTES (d ! 7) (d ! 6))\<rparr>)"

subsection \<open>What some conversions lose\<close>

text \<open>The second byte of the trip distance is never read: the third one stands for it.\<close>

lemma vd_ignores_byte1: "pdu_to_vd (p\<lparr>pd_data := (pd_data p)[1 := x]\<rparr>) v = pdu_to_vd p v"
  by (simp add: pdu_to_vd_def Let_def)

lemma hrvd_ignores_byte1: "pdu_to_hrvd (p\<lparr>pd_data := (pd_data p)[1 := x]\<rparr>) v = pdu_to_hrvd p v"
  by (simp add: pdu_to_hrvd_def Let_def)

text \<open>
  The gears are stored in a \<open>char\<close>: the code for park and the error codes, which
  \<open>gear_m125_to_p125\<close> keeps apart from the gears, become gears -5 and 4 to 1.
\<close>

lemma etc2_gear_confused:
  "pd_data p ! 0 = 251 \<Longrightarrow> ETC2_TransmissionSelectedGear (pdu_to_etc2 p v) = - 5"
  "pd_data p ! 0 = 254 \<Longrightarrow> ETC2_TransmissionSelectedGear (pdu_to_etc2 p v) = 2"
  "pd_data p ! 0 = 255 \<Longrightarrow> ETC2_TransmissionSelectedGear (pdu_to_etc2 p v) = 1"
  by (simp_all add: pdu_to_etc2_def Let_def gear_m125_to_p125_def to_char_def)

text \<open>The checksum decoded from a brake request is always 0.\<close>

lemma xbr_checksum_decoded: "XBRMessageChecksum (pdu_to_volvo_xbr p v) = 0"
proof -
  have "drop_bit 4 (HINIBBLE x) = 0" for x :: u8
    by (rule bit_word_eqI) (auto simp: HINIBBLE_def bit_simps dest: bit_imp_le_length)
  then show ?thesis by (simp add: pdu_to_volvo_xbr_def Let_def)
qed

text \<open>The integer division loses four of five steps of the road slope.\<close>

lemma road_slope_steps: "k < 50 \<Longrightarrow> i < 5 \<Longrightarrow>
  percent_m25_to_p25 (word_of_nat (5 * k + i)) = percent_m25_to_p25 (word_of_nat (5 * k))"
proof -
  assume "k < 50" "i < 5"
  have "unat (word_of_nat n :: u8) = n" if "n < 256" for n
    using that by (simp add: unsigned_of_nat take_bit_nat_eq_self)
  from this[of "5 * k + i"] this[of "5 * k"] \<open>k < 50\<close> \<open>i < 5\<close>
  have "unat (word_of_nat (5 * k + i) :: u8) = 5 * k + i" "unat (word_of_nat (5 * k) :: u8) = 5 * k" by linarith+
  moreover from this have "(word_of_nat (5 * k + i) :: u8) \<le> 250" "(word_of_nat (5 * k) :: u8) \<le> 250"
    using \<open>k < 50\<close> \<open>i < 5\<close> unfolding word_le_nat_alt by simp_all
  moreover have "(5 * k + i) div 5 = (5 * k) div 5" using \<open>i < 5\<close> by simp
  ultimately show ?thesis unfolding percent_m25_to_p25_def by simp
qed

end
