(* ===== verification/J1939Props.thy ===== *)
theory J1939Props
  imports J1939Db J1939Cmd J1939Msgs2
begin

text \<open>
  The properties of the J1939 components: the serial converter, multipacket messages, the tables of
  database variables, the time stamps of the messages, the conversion of values and the commands sent.
\<close>

definition sample_pdu :: "u8 list \<Rightarrow> j1939_pdu" where
  "sample_pdu d = \<lparr>pd_priority = 6, pd_R = 0, pd_DP = 0, pd_format = 0xeb, pd_specific = 0xff, pd_src = 0,
     pd_data = d, pd_numbytes = 8\<rparr>"

definition sample_time :: timestamp where
  "sample_time = \<lparr>ts_hour = 23, ts_min = 59, ts_sec = 30, ts_millisec = 250\<rparr>"

lemma sample_valid: "valid_timestamp sample_time"
  by (simp add: valid_timestamp_def sample_time_def)

section \<open>The serial converter\<close>

text \<open>
  C14: the reader of the serial line gets every message.  From the converter's bytes for a list of
  PDUs of J1939 widths, the loop that calls \<open>receive_stb\<close> until the line ends reports exactly those
  PDUs, all valid and external, in order, whatever the data bytes are (they may equal the start byte).
\<close>

theorem stb_reader_gets_all:
  "list_all pdu_ok ps \<Longrightarrow> length (pd_data q) = 8 \<Longrightarrow> lo < 16 \<Longrightarrow>
   stb_reader q e sl (stb_stream lo fin ps) = map (\<lambda>p. (J1939_RECEIVE_MESSAGE_VALID, pdu_fields p q, 1)) ps"
  by (rule stb_reader_stream)

theorem stb_reader_gets_all_witness:
  "stb_reader (sample_pdu (replicate 8 0)) 0 0 (stb_stream 4 0 [sample_pdu [0x42, 0x42, 3, 4, 5, 6, 7, 8]]) =
    map (\<lambda>p. (J1939_RECEIVE_MESSAGE_VALID, pdu_fields p (sample_pdu (replicate 8 0)), 1)) [sample_pdu [0x42, 0x42, 3, 4, 5, 6, 7, 8]]"
  by (rule stb_reader_gets_all) (simp_all add: pdu_ok_def sample_pdu_def)



section \<open>Multipacket messages\<close>

definition sample_multi :: "u16 \<Rightarrow> int \<Rightarrow> bool \<Rightarrow> multipacket" where
  "sample_multi pgn n busy = \<lparr>mp_pdu = replicate 255 (sample_pdu (replicate 8 0)), mp_numpackets = n, mp_in_progress = busy,
     mp_pgn = pgn, mp_received = replicate 255 0, mp_timestamp = replicate 255 sample_time\<rparr>"

definition sample_opts :: rd_opts where
  "sample_opts = \<lparr>ro_generic = False, ro_use_can = True, ro_trace = False, ro_keep = []\<rparr>"

definition sample_db :: j1939_db where
  "sample_db = \<lparr>jd_log = [], jd_receive_count = 0, jd_update_err = 0\<rparr>"

text \<open>
  C15: reassembly.  When the packets of an announced message arrive in order, nothing is
  written before the last one; with the last one the message is written once, with exactly the
  packets received and the full receive mask, and the structure is free for the next message.
\<close>

theorem multipacket_reassembly:
  assumes "numbered 1 ps" "ps \<noteq> []" "length ps \<le> J1939_MAX_FRAMES"
    and "mp_ok cfg" "mp_in_progress cfg" "mp_numpackets cfg = int (length ps)" "keeps_multi o' (mp_pgn cfg)"
    and "mp_pgn cfg = ECFG \<or> mp_pgn cfg = RCFG" "\<not> ro_generic o'"
  shows "\<exists>cfg' e. mp_packets o' upd uninit ps cfg d = Some (cfg', d\<lparr>jd_log := jd_log d @ [e],
      jd_receive_count := jd_receive_count d + 1, jd_update_err := jd_update_err d + (if dw_ok e then 0 else 1)\<rparr>) \<and>
    dw_pgn e = mp_pgn cfg \<and> take (length ps) (dw_pdus e) = map snd ps \<and>
    dw_status e = Some (fst (set_multipacket_receive_status (mp_pgn cfg) cfg' uninit)) \<and>
    take (length ps) (mp_received cfg') = map (\<lambda>_. 1) ps \<and> \<not> mp_in_progress cfg' \<and> mp_ok cfg'"
  by (rule mp_message[OF assms])

theorem multipacket_reassembly_witness:
  "\<exists>cfg' e. mp_packets sample_opts (\<lambda>_. True) sample_time [(sample_time, sample_pdu [1, 0, 0, 0, 0, 0, 0, 0]),
        (sample_time, sample_pdu [2, 0, 0, 0, 0, 0, 0, 0])] (sample_multi ECFG 2 True) sample_db =
      Some (cfg', sample_db\<lparr>jd_log := jd_log sample_db @ [e],
      jd_receive_count := jd_receive_count sample_db + 1, jd_update_err := jd_update_err sample_db + (if dw_ok e then 0 else 1)\<rparr>) \<and>
    dw_pgn e = ECFG"
proof -
  let ?ps = "[(sample_time, sample_pdu [1, 0, 0, 0, 0, 0, 0, 0]), (sample_time, sample_pdu [2, 0, 0, 0, 0, 0, 0, 0])]"
  have "numbered 1 ?ps" by (auto simp: numbered_def sample_pdu_def less_Suc_eq)
  moreover have "?ps \<noteq> []" "length ?ps \<le> J1939_MAX_FRAMES" "mp_ok (sample_multi ECFG 2 True)"
    "mp_in_progress (sample_multi ECFG 2 True)" "mp_numpackets (sample_multi ECFG 2 True) = int (length ?ps)"
    "keeps_multi sample_opts (mp_pgn (sample_multi ECFG 2 True))" "\<not> ro_generic sample_opts" "mp_pgn (sample_multi ECFG 2 True) = ECFG"
    by (simp_all add: mp_ok_def sample_multi_def keeps_multi_def sample_opts_def)
  ultimately show ?thesis
    using multipacket_reassembly[of ?ps "sample_multi ECFG 2 True" sample_opts "\<lambda>_. True" sample_time sample_db] by metis
qed



section \<open>Database variables\<close>

text \<open>
  Every message, known or not, has a variable between 500 and 551, and the entry of \<open>db_ref\<close>
  that the code then reads is one the table has.
\<close>

theorem message_has_entry:
  "500 \<le> fst (get_pgn_dbv pgn pdu) \<and> fst (get_pgn_dbv pgn pdu) \<le> 551 \<and>
   get_jdbv_info (fst (get_pgn_dbv pgn pdu)) = Some (nat (fst (get_pgn_dbv pgn pdu) - 500)) \<and>
   nat (fst (get_pgn_dbv pgn pdu) - 500) < length db_ref_pgn"
  using get_pgn_dbv_range get_pgn_dbv_index by blast

text \<open>
  The index tables and \<open>db_ref\<close> agree.  A message of a group other than TSC1 that does not go to
  the variable for unknown messages goes to one whose entry is for the message's own group,
  so it is converted with the conversion of that group.
\<close>

theorem entry_is_for_group:
  assumes "HIBYTE pgn \<noteq> 0" "fst (get_pgn_dbv pgn pdu) \<noteq> 500"
  shows "db_ref_pgn ! nat (fst (get_pgn_dbv pgn pdu) - 500) = pgn"
  by (rule get_pgn_dbv_entry[OF assms])

theorem entry_is_for_group_witness: "db_ref_pgn ! nat (fst (get_pgn_dbv 0xf004 (sample_pdu (replicate 8 0))) - 500) = 0xf004"
proof (rule entry_is_for_group)
  show "HIBYTE 0xf004 \<noteq> 0" by (simp add: HIBYTE_def)
  show "fst (get_pgn_dbv 0xf004 (sample_pdu (replicate 8 0))) \<noteq> 500"
    by (simp add: get_pgn_dbv_def HIBYTE_def LOBYTE_def pdu1_index_def pdu2_240_def Let_def)
qed

text \<open>
  Two groups that have a variable, a conversion and a table entry are never stored there:
  brake controller message EBC5 (0xfdc4, variable 537) and the vehicle status message 0xfde5 (536) go to
  the variable for unknown messages, because \<open>pdu1_index\<close> does not name the table of their page.
\<close>

theorem page_253_unreachable:
  "fst (get_pgn_dbv 0xfdc4 pdu) = 500 \<and> fst (get_pgn_dbv 0xfde5 pdu) = 500 \<and>
   pdu2_253 0xc4 = 537 \<and> db_ref_pgn ! nat (pdu2_253 0xc4 - 500) = 0xfdc4 \<and>
   pdu2_253 0xe5 = 536 \<and> db_ref_pgn ! nat (pdu2_253 0xe5 - 500) = 0xfde5"
  by (simp add: get_pgn_dbv_def HIBYTE_def LOBYTE_def pdu1_index_def pdu2_253_def db_ref_pgn_def Let_def)

section \<open>Time stamps\<close>

text \<open>A valid time survives being printed by \<open>timestamp2str\<close> and parsed by \<open>str2timestamp\<close>.\<close>

theorem timestamp_roundtrip:
  "valid_timestamp ts \<Longrightarrow> str2timestamp (snd (timestamp2str ts)) = Some (1, ts)"
  by (rule str2timestamp_roundtrip)

theorem timestamp_roundtrip_witness: "str2timestamp (snd (timestamp2str sample_time)) = Some (1, sample_time)"
  by (rule timestamp_roundtrip) (rule sample_valid)

text \<open>
  The parser never produces an invalid time: on any string of at least 11 characters it returns
  without reading past the terminator, and then either accepts a valid time or rejects and stores zero.
\<close>

theorem str2timestamp_total_and_valid:
  assumes "11 \<le> length s"
  shows "\<exists>r ts. str2timestamp s = Some (r, ts) \<and> valid_timestamp ts \<and> (r = 0 \<longrightarrow> ts = zero_timestamp)"
  using str2timestamp_safe[OF assms] str2timestamp_valid[of s] by fast

theorem str2timestamp_total_and_valid_witness:
  "\<exists>r ts. str2timestamp ''25:00:00.000'' = Some (r, ts) \<and> valid_timestamp ts \<and> (r = 0 \<longrightarrow> ts = zero_timestamp)"
  by (rule str2timestamp_total_and_valid) simp

text \<open>
  Time arithmetic is arithmetic modulo a day: \<open>increment_timestamp\<close> and \<open>decrement_timestamp\<close>
  of valid times give the valid time of the sum and the difference modulo 24 hours, and taking
  away what was added gives the time back.
\<close>

theorem timestamp_arithmetic:
  assumes "valid_timestamp ts" "valid_timestamp d"
  shows "\<exists>t u. increment_timestamp ts d = Some t \<and> valid_timestamp t \<and>
      TS_TO_MS t = (TS_TO_MS ts + TS_TO_MS d) mod TS_MAX_MSEC \<and>
    decrement_timestamp ts d = Some u \<and> valid_timestamp u \<and>
      TS_TO_MS u = (TS_TO_MS ts - TS_TO_MS d) mod TS_MAX_MSEC \<and> decrement_timestamp t d = Some ts"
  using increment_ms[OF assms] decrement_ms[OF assms] decrement_increment[OF assms] by fastforce

theorem timestamp_arithmetic_witness:
  "\<exists>t u. increment_timestamp sample_time sample_time = Some t \<and> valid_timestamp t \<and>
      TS_TO_MS t = (TS_TO_MS sample_time + TS_TO_MS sample_time) mod TS_MAX_MSEC \<and>
    decrement_timestamp sample_time sample_time = Some u \<and> valid_timestamp u \<and>
      TS_TO_MS u = (TS_TO_MS sample_time - TS_TO_MS sample_time) mod TS_MAX_MSEC \<and>
      decrement_timestamp t sample_time = Some sample_time"
  by (rule timestamp_arithmetic; rule sample_valid)

text \<open>
  The comparison across midnight: \<open>ts2_is_later_than_ts1\<close> says later when the way forward from the
  first time to the second is shorter than half a day; exactly half a day apart, the larger clock reading is the later.
\<close>

theorem later_is_within_half_a_day:
  assumes "valid_timestamp ts1" "valid_timestamp ts2"
  shows "ts2_is_later_than_ts1 ts1 ts2 \<longleftrightarrow> (let d = (TS_TO_MS ts2 - TS_TO_MS ts1) mod TS_MAX_MSEC in
    0 < d \<and> (d < TS_MAX_MSEC div 2 \<or> d = TS_MAX_MSEC div 2 \<and> TS_TO_MS ts1 < TS_TO_MS ts2))"
  by (rule later_ms[OF assms])

theorem later_is_within_half_a_day_witness:
  "ts2_is_later_than_ts1 sample_time zero_timestamp \<longleftrightarrow> (let d = (TS_TO_MS zero_timestamp - TS_TO_MS sample_time) mod TS_MAX_MSEC in
    0 < d \<and> (d < TS_MAX_MSEC div 2 \<or> d = TS_MAX_MSEC div 2 \<and> TS_TO_MS sample_time < TS_TO_MS zero_timestamp))"
  by (rule later_is_within_half_a_day[OF sample_valid]) (simp add: valid_timestamp_def zero_timestamp_def)

section \<open>Values and commands\<close>

text \<open>
  The ranges of the conversions of bus values.  Every one maps the valid codes onto the interval
  from its value at 0 to its value at the last valid code, and every error code outside of it, so an
  error is never taken for a measurement (\<open>scale8_ok\<close>, \<open>scale16_ok\<close> say this with the two ends).
\<close>

theorem scale_ranges:
  "list_all (\<lambda>(f, lo, hi). scale8_ok f lo hi)
     [(percent_0_to_100, 0, 100), (percent_0_to_250, 0, 250), (percent_m25_to_p25, - 25, 25), (percent_m125_to_p125, - 125, 125),
      (pressure_0_to_4000kpa, 0, 4000), (pressure_0_to_1000kpa, 0, 1000), (pressure_0_to_500kpa, 0, 500),
      (pressure_0_to_125kpa, 0, 125), (pressure_0_to_12kpa, 0, 25 / 2), (speed_in_rpm_1byte, 0, 2500),
      (wheel_based_mps_relative, - (78125 / 36000), 78125 / 36000), (cruise_control_set_meters_per_sec, 0, 250000 / 3600),
      (time_0_to_25sec, 0, 25), (temp_m40_to_p210, - 40, 210), (current_m125_to_p125amp, - 125, 125),
      (current_0_to_250amp, 0, 250), (mass_0_to_100t, 0, 100), (brake_demand, - 10, 0)] \<and>
   list_all (\<lambda>(f, lo, hi). scale16_ok f lo hi)
     [(gear_ratio, 0, 64255 / 1000), (rotor_speed_in_rpm, 0, 257020), (speed_in_rpm_2byte, 0, 8031875 / 1000),
      (wheel_based_mps, 0, 64255 / 256 * (1000 / 3600)), (fuel_rate_cm3_per_sec, 0, 3212750 / 3600),
      (fuel_economy_meters_per_cm3, 0, 64255 / 512), (torque_in_nm, 0, 64255), (gain_in_kp, 0, 64255 / 1280),
      (voltage, 0, 321275 / 100), (mass_flow, 0, 321275 / 100), (power_in_kw, 0, 321275 / 10),
      (temp_m273_to_p1735, - 273, 1734 + 31 / 32), (pressure_m250_to_p252kpa, - 250, 251)]"
  unfolding list.pred_inject prod.case
  by (intro conjI scale8_ranges scale8_special scale16_ranges scale16_special) simp_all

text \<open>
  C21: a torque and speed command survives the bus.  Decoding what \<open>tsc1_to_pdu\<close> built gives
  the modes and addresses back exactly, the speed within 1/16 rpm and the torque within
  half a percent; a speed or torque out of range arrives as the value for not available.
\<close>

theorem tsc1_roundtrip:
  assumes "tsc1_fields_ok t" "length (pd_data p) = 8"
  shows "\<exists>u. pdu_to_tsc1 (tsc1_to_pdu p t) t0 = u \<and> EnOvrdCtrlM u = EnOvrdCtrlM t \<and> EnRSpdCtrlC u = EnRSpdCtrlC t \<and>
    EnOvrdCtrlMPr u = EnOvrdCtrlMPr t \<and> tsc1_destination_address u = tsc1_destination_address t \<and>
    tsc1_src_address u = tsc1_src_address t \<and> tsc1_timestamp u = tsc1_timestamp t0 \<and>
    (if 0 \<le> EnRSpdSpdLm t \<and> EnRSpdSpdLm t \<le> 8031875 / 1000 then \<bar>EnRSpdSpdLm u - EnRSpdSpdLm t\<bar> \<le> 1 / 16
     else EnRSpdSpdLm u = - 255) \<and>
    (if - 125 \<le> EnRTrqTrqLm t \<and> EnRTrqTrqLm t \<le> 125 then \<bar>EnRTrqTrqLm u - EnRTrqTrqLm t\<bar> \<le> 1 / 2
     else EnRTrqTrqLm u = - 255)"
  using speed_roundtrip[of "EnRSpdSpdLm t"] speed_out_of_range[of "EnRSpdSpdLm t"] percent_roundtrip[of "EnRTrqTrqLm t"]
    percent_out_of_range[of "EnRTrqTrqLm t"]
  by (simp add: tsc1_decoded[OF assms] not_le)

definition sample_tsc1 :: j1939_tsc1_typ where
  "sample_tsc1 = \<lparr>tsc1_timestamp = sample_time, EnOvrdCtrlMPr = 1, EnRSpdCtrlC = 2, EnOvrdCtrlM = 3, EnRSpdSpdLm = 1500 + 1 / 3,
     EnRTrqTrqLm = 130, tsc1_destination_address = 0, tsc1_src_address = 42\<rparr>"

theorem tsc1_roundtrip_witness:
  "\<exists>u. pdu_to_tsc1 (tsc1_to_pdu (sample_pdu (replicate 8 0)) sample_tsc1) sample_tsc1 = u \<and> EnOvrdCtrlM u = 3 \<and>
    \<bar>EnRSpdSpdLm u - (1500 + 1 / 3)\<bar> \<le> 1 / 16 \<and> EnRTrqTrqLm u = - 255"
proof -
  have "tsc1_fields_ok sample_tsc1" "length (pd_data (sample_pdu (replicate 8 0))) = 8"
    by (simp_all add: tsc1_fields_ok_def sample_tsc1_def sample_pdu_def)
  from tsc1_roundtrip[OF this, of sample_tsc1] show ?thesis by (simp add: sample_tsc1_def)
qed

text \<open>
  A logged command can be sent again.  Coding the command decoded from a TSC1 message with valid
  codes gives the same addresses, the same speed and torque bytes, and the first byte with its unused bits 0.
\<close>

theorem tsc1_resend:
  assumes "unat (TWOBYTES (pd_data p ! 2) (pd_data p ! 1)) \<le> 64255" "pd_data p ! 3 \<le> 250" "length (pd_data q) = 8"
  shows "take 4 (pd_data (tsc1_to_pdu q (pdu_to_tsc1 p t0))) =
      [BITS21 (pd_data p ! 0) OR push_bit 2 (BITS43 (pd_data p ! 0)) OR push_bit 4 (BITS65 (pd_data p ! 0)),
       pd_data p ! 1, pd_data p ! 2, pd_data p ! 3] \<and>
    pd_specific (tsc1_to_pdu q (pdu_to_tsc1 p t0)) = pd_specific p \<and> pd_src (tsc1_to_pdu q (pdu_to_tsc1 p t0)) = pd_src p"
  by (rule tsc1_recoded[OF assms])

theorem tsc1_resend_witness:
  "take 4 (pd_data (tsc1_to_pdu (sample_pdu (replicate 8 0)) (pdu_to_tsc1 (sample_pdu [0x1b, 0x10, 0x27, 200, 0, 0, 0, 0]) sample_tsc1))) =
    [0x1b, 0x10, 0x27, 200]"
proof -
  let ?p = "sample_pdu [0x1b, 0x10, 0x27, 200, 0, 0, 0, 0]"
  have "unat (TWOBYTES (pd_data ?p ! 2) (pd_data ?p ! 1)) \<le> 64255" "pd_data ?p ! 3 \<le> 250" "length (pd_data (sample_pdu (replicate 8 0))) = 8"
    by (simp_all add: sample_pdu_def TWOBYTES_def)
  from tsc1_resend[OF this, of sample_tsc1] show ?thesis
    by (simp add: sample_pdu_def BITS21_def BITS43_def BITS65_def)
qed

text \<open>
  C20: brake requests are numbered and protected.  Every XBR message carries the number after the last
  one modulo 16 and a right checksum, and no change of a single bit of it has a right checksum.
\<close>

theorem xbr_counted_and_protected:
  assumes "volvo_xbr_to_pdu c p x = Some (c', p', x')" "unat c < 16" "length (pd_data p) = 8"
  shows "unat c' = (unat c + 1) mod 16 \<and> XBRMessageCounter (pdu_to_volvo_xbr p' x0) = c' \<and> xbr_valid (pd_data p') \<and>
    (\<forall>i < 8. \<forall>k < 8. \<not> xbr_valid ((pd_data p')[i := flip_bit k (pd_data p' ! i)]))"
  using xbr_sent[OF assms] xbr_bit_error by (simp add: pdu_to_volvo_xbr_def Let_def)

definition sample_xbr :: "u8 \<Rightarrow> cfloat \<Rightarrow> j1939_volvo_xbr_typ" where
  "sample_xbr mode a = \<lparr>xbr_timestamp = sample_time, ExternalAccelerationDemand = a, xbr_src_address = 0, xbr_destination_address = 0,
     xbr_pdu_format = 0, XBREBIMode = 0, XBRPriority = 1, XBRControlMode = mode, XBRUrgency = 0, spare1 = 0xff, spare2 = 0xff,
     spare3 = 0xff, XBRMessageCounter = 0, XBRMessageChecksum = 0\<rparr>"

lemma sample_xbr_sent:
  "\<exists>p' x'. volvo_xbr_to_pdu 15 (sample_pdu (replicate 8 0)) (sample_xbr 2 (- 5)) = Some (0, p', x')"
  by (simp add: volvo_xbr_to_pdu_def Let_def sample_xbr_def sample_pdu_def c_trunc_def)

theorem xbr_counted_and_protected_witness:
  "\<exists>p' x'. volvo_xbr_to_pdu 15 (sample_pdu (replicate 8 0)) (sample_xbr 2 (- 5)) = Some (0, p', x') \<and> xbr_valid (pd_data p') \<and>
    \<not> xbr_valid ((pd_data p')[3 := flip_bit 7 (pd_data p' ! 3)])"
proof -
  obtain p' x' where s: "volvo_xbr_to_pdu 15 (sample_pdu (replicate 8 0)) (sample_xbr 2 (- 5)) = Some (0, p', x')"
    using sample_xbr_sent by blast
  have "unat (15 :: u8) < 16" "length (pd_data (sample_pdu (replicate 8 0))) = 8" by (simp_all add: sample_pdu_def)
  from xbr_counted_and_protected[OF s this, of "sample_xbr 0 0"] show ?thesis using s by auto
qed

text \<open>
  C28: the demand that arrives.  The acceleration that the receiver decodes is the demand (10 when the control
  mode is 0, which the code also stores in the variable) rounded down, less than 0.0006
  below it; the mode fields arrive with their low two bits.
\<close>

theorem xbr_demand_arrives:
  assumes "volvo_xbr_to_pdu c p x = Some (c', p', x')" "length (pd_data p) = 8"
    "- 15687 / 1000 \<le> ExternalAccelerationDemand x"
  shows "\<exists>q. pdu_to_volvo_xbr p' x0 = q \<and>
    ExternalAccelerationDemand x' = (if XBRControlMode x = 0 then 10 else ExternalAccelerationDemand x) \<and>
    ExternalAccelerationDemand q \<le> ExternalAccelerationDemand x' \<and>
    ExternalAccelerationDemand x' - ExternalAccelerationDemand q < 6 / 10 ^ 4 \<and>
    XBREBIMode q = BITS21 (XBREBIMode x) \<and> XBRPriority q = BITS21 (XBRPriority x) \<and> XBRControlMode q = BITS21 (XBRControlMode x)"
proof -
  let ?q = "ExternalAccelerationDemand (pdu_to_volvo_xbr p' x0)"
  have q: "?q = ExternalAccelerationDemand (pdu_to_volvo_xbr p' x0)" by (rule refl)
  note d = xbr_demand[OF assms(1,2) q]
  have "- 15687 / 1000 \<le> ExternalAccelerationDemand x'" unfolding d(1) using assms(3) by simp
  from d(2)[OF this] show ?thesis using d(1,3-5) by simp
qed

theorem xbr_demand_arrives_witness:
  "\<exists>p' x' q. volvo_xbr_to_pdu 15 (sample_pdu (replicate 8 0)) (sample_xbr 2 (- 5)) = Some (0, p', x') \<and>
    pdu_to_volvo_xbr p' (sample_xbr 0 0) = q \<and> ExternalAccelerationDemand q \<le> - 5 \<and> - 5 - ExternalAccelerationDemand q < 6 / 10 ^ 4"
proof -
  obtain p' x' where s: "volvo_xbr_to_pdu 15 (sample_pdu (replicate 8 0)) (sample_xbr 2 (- 5)) = Some (0, p', x')"
    using sample_xbr_sent by blast
  have "length (pd_data (sample_pdu (replicate 8 0))) = 8" "- 15687 / 1000 \<le> ExternalAccelerationDemand (sample_xbr 2 (- 5))"
    by (simp_all add: sample_pdu_def sample_xbr_def)
  from xbr_demand_arrives[OF s this, of "sample_xbr 0 0"] show ?thesis using s by (auto simp: sample_xbr_def)
qed

end
