(* ===== verification/JbusSend.thy ===== *)
theory JbusSend
  imports J1939Cmd
begin

text \<open>
  truckcontrol/long_ctl/src/avcs/jbussend.c: the program that sends the commands of the longitudinal
  controller to engine, engine retarder and brake.  Every five milliseconds it reads the control
  variable (\<open>long_output_typ\<close> of veh_trk.h) from the data server and goes through its four
  kinds of messages; each has its own slot in a cycle of twenty iterations.  The static variables of the
  C functions, the clock (\<open>ftime\<close>, one reading per call) and what was sent are a state; the data server's answers
  are the input of an iteration.  The members of the union \<open>cmd\<close> are kept apart, as every slot
  uses one of them.  Output for debugging goes to a variable of the data server or the
  terminal; the first is kept as a list of records.
\<close>

subsection \<open>Data\<close>

record long_output = lo_engine_speed :: cfloat
  lo_engine_torque :: cfloat
  lo_engine_retarder_torque :: cfloat
  lo_engine_command_mode :: u8
  lo_engine_retarder_command_mode :: u8
  lo_engine_priority :: u8
  lo_engine_retarder_priority :: u8
  lo_brake_priority :: u8
  lo_acc_pedal_control :: cfloat
  lo_ebs_deceleration :: cfloat
  lo_brake_command_mode :: u8
  lo_trans_retarder_value :: cfloat
  lo_trans_retarder_command_mode :: u8
  lo_fb_control :: cfloat
  lo_rb_control :: cfloat
  lo_fan_override :: int
  lo_fan_control :: int
  lo_selected_gap_level :: u8

text \<open>\<open>struct timeb\<close> with a 32-bit \<open>time_t\<close>; the difference in milliseconds wraps.\<close>

record timeb = tb_time :: u32
  tb_millitm :: u16

definition TIMEB_SUBTRACT :: "timeb \<Rightarrow> timeb \<Rightarrow> int" where
  "TIMEB_SUBTRACT t1 t2 = sint ((tb_time t2 * 1000 + ucast (tb_millitm t2)) - (tb_time t1 * 1000 + ucast (tb_millitm t1)))"

record info_check = percent_engine_torque :: cfloat
  accelerator_pedal_position :: cfloat

record jbus_cmd = jc_dbv :: int
  jc_tsc1 :: j1939_tsc1_typ
  jc_xbr :: j1939_volvo_xbr_typ
  jc_xbr_warn :: j1939_volvo_xbr_warn_typ
  jc_last_time :: timeb
  jc_interval :: int
  jc_heartbeat :: int
  jc_override_limit :: int

text \<open>The three function pointers of a \<open>send_jbus_type\<close> are always set together: \<open>sender\<close> names them.\<close>

datatype sender = SendEngine | SendRetarder | SendXbr | SendXbrWarn

record send_jbus = sj_active :: bool
  sj_total_sent :: int
  sj_slot_number :: int
  sj_fd :: int
  sj_cmd :: jbus_cmd
  sj_sender :: sender

record can_debug = cd_pdu :: u16
  cd_EnOvrdCtrlM :: u8
  cd_EnRSpdCtrlC :: u8
  cd_EnOvrdCtrlMPr :: u8
  cd_new_mode :: u8
  cd_engine_torque :: u8
  cd_last_engine_torque :: u8
  cd_EnRTrqTrqLm :: u8
  cd_state_change_counter :: u8
  cd_ret :: bool

abbreviation (input) JBUS_SEND_ENGINE_SRC_ACC :: nat where "JBUS_SEND_ENGINE_SRC_ACC \<equiv> 0"
abbreviation (input) JBUS_SEND_ENGINE_RETARDER_SRC_ACC :: nat where "JBUS_SEND_ENGINE_RETARDER_SRC_ACC \<equiv> 1"
abbreviation (input) JBUS_SEND_XBR :: nat where "JBUS_SEND_XBR \<equiv> 2"
abbreviation (input) JBUS_SEND_XBR_WARN :: nat where "JBUS_SEND_XBR_WARN \<equiv> 3"
abbreviation (input) NUM_JBUS_SEND :: nat where "NUM_JBUS_SEND \<equiv> 4"
abbreviation (input) MAX_LOOP_NUMBER :: nat where "MAX_LOOP_NUMBER \<equiv> 20"
abbreviation (input) TSC_OVERRIDE_DISABLED :: u8 where "TSC_OVERRIDE_DISABLED \<equiv> 0"
abbreviation (input) TSC_SPEED_CONTROL :: u8 where "TSC_SPEED_CONTROL \<equiv> 1"
abbreviation (input) XBR_NOT_ACTIVE :: u8 where "XBR_NOT_ACTIVE \<equiv> 0"

text \<open>
  The statics of one \<open>ready_to_send_...\<close> function (\<open>state_change_counter\<close> is a \<open>char\<close> between 0
  and 4), of \<open>update_engine_tsc\<close> and of \<open>volvo_xbr_to_pdu\<close>, and the program's other state.
  \<open>stack_time\<close> is the uninitialised \<open>current\<close> of \<open>update_engine_tsc\<close>.
\<close>

record shift = old_mode :: u8
  last_torque :: cfloat
  state_change_counter :: int

record jstate = js_clock :: "nat \<Rightarrow> timeb"
  js_ticks :: nat
  js_engine :: shift
  js_retarder :: shift
  js_speed_mode :: bool
  js_last_mode_change :: timeb
  stack_time :: timeb
  js_counter :: u8
  js_msg :: "send_jbus list"
  js_pdu :: j1939_pdu
  js_connected :: bool
  js_info :: info_check
  js_invalid_read :: int
  js_loop_number :: nat
  js_sent :: "(int \<times> j1939_pdu \<times> int) list"
  js_debug :: "can_debug list"

definition ftime :: "jstate \<Rightarrow> timeb \<times> jstate" where
  "ftime s = (js_clock s (js_ticks s), s\<lparr>js_ticks := js_ticks s + 1\<rparr>)"

subsection \<open>When to send\<close>

definition active_loop :: "nat \<Rightarrow> nat \<Rightarrow> bool" where
  "active_loop i loop_number =
    (if i = JBUS_SEND_ENGINE_SRC_ACC then loop_number = 1 \<or> loop_number = 5 \<or> loop_number = 9 \<or> loop_number = 13 \<or> loop_number = 17
     else if i = JBUS_SEND_ENGINE_RETARDER_SRC_ACC then
       loop_number = 2 \<or> loop_number = 6 \<or> loop_number = 10 \<or> loop_number = 14 \<or> loop_number = 18
     else if i = JBUS_SEND_XBR then loop_number = 3 \<or> loop_number = 7 \<or> loop_number = 11 \<or> loop_number = 15 \<or> loop_number = 19
     else if i = JBUS_SEND_XBR_WARN then loop_number mod 20 = 0
     else False)"

definition ready_to_send_engine_src_acc :: "long_output \<Rightarrow> jbus_cmd \<Rightarrow> jstate \<Rightarrow> bool \<times> jbus_cmd \<times> jstate" where
  "ready_to_send_engine_src_acc ctrl cmd s =
    (let new_mode = lo_engine_command_mode ctrl;
         sh = js_engine s;
         counter = (if new_mode = TSC_OVERRIDE_DISABLED \<and> old_mode sh \<noteq> TSC_OVERRIDE_DISABLED then 4 else state_change_counter sh);
         torque = lo_engine_torque ctrl;
         tsc1 = jc_tsc1 cmd;
         (tsc1, mode, counter) = (if counter > 0
           then (tsc1\<lparr>EnOvrdCtrlM := 0, EnRTrqTrqLm := 255\<rparr>, TSC_OVERRIDE_DISABLED, counter - 1)
           else (tsc1, new_mode, 0));
         (current, s) = ftime s;
         ret = (TIMEB_SUBTRACT (jc_last_time cmd) current \<ge> jc_heartbeat cmd \<and> jc_heartbeat cmd \<noteq> 0 \<and>
                 mode \<noteq> TSC_OVERRIDE_DISABLED \<and> torque \<ge> 0) \<or> counter > 0;
         debug = \<lparr>cd_pdu = 0x0016, cd_EnOvrdCtrlM = BITS21 (EnOvrdCtrlM tsc1), cd_EnRSpdCtrlC = BITS21 (EnRSpdCtrlC tsc1),
           cd_EnOvrdCtrlMPr = BITS21 (EnOvrdCtrlMPr tsc1), cd_new_mode = BITS21 mode,
           cd_engine_torque = code_percent_m125_to_p125 torque, cd_last_engine_torque = code_percent_m125_to_p125 torque,
           cd_EnRTrqTrqLm = code_percent_m125_to_p125 (EnRTrqTrqLm tsc1),
           cd_state_change_counter = BITS21 (word_of_int counter), cd_ret = ret\<rparr>
     in (ret, cmd\<lparr>jc_tsc1 := tsc1\<rparr>, s\<lparr>js_engine := \<lparr>old_mode = new_mode, last_torque = torque, state_change_counter = counter\<rparr>,
           js_debug := js_debug s @ [debug]\<rparr>))"

definition ready_to_send_engine_retarder_src_acc :: "long_output \<Rightarrow> jbus_cmd \<Rightarrow> jstate \<Rightarrow> bool \<times> jbus_cmd \<times> jstate" where
  "ready_to_send_engine_retarder_src_acc ctrl cmd s =
    (let new_mode = lo_engine_retarder_command_mode ctrl;
         sh = js_retarder s;
         counter = (if new_mode = TSC_OVERRIDE_DISABLED \<and> old_mode sh \<noteq> TSC_OVERRIDE_DISABLED then 4 else state_change_counter sh);
         torque = lo_engine_retarder_torque ctrl;
         tsc1 = jc_tsc1 cmd;
         (tsc1, mode, counter) = (if counter > 0
           then (tsc1\<lparr>EnOvrdCtrlM := 0, EnRTrqTrqLm := 255\<rparr>, TSC_OVERRIDE_DISABLED, counter - 1)
           else (tsc1, new_mode, 0));
         (current, s) = ftime s;
         ret = (TIMEB_SUBTRACT (jc_last_time cmd) current \<ge> jc_interval cmd \<and> jc_interval cmd \<noteq> 0 \<and>
                 mode \<noteq> TSC_OVERRIDE_DISABLED \<and> torque \<le> 0) \<or> counter > 0;
         debug = \<lparr>cd_pdu = 0x0017, cd_EnOvrdCtrlM = BITS21 (EnOvrdCtrlM tsc1), cd_EnRSpdCtrlC = BITS21 (EnRSpdCtrlC tsc1),
           cd_EnOvrdCtrlMPr = BITS21 (EnOvrdCtrlMPr tsc1), cd_new_mode = BITS21 mode,
           cd_engine_torque = code_percent_m125_to_p125 torque, cd_last_engine_torque = code_percent_m125_to_p125 torque,
           cd_EnRTrqTrqLm = code_percent_m125_to_p125 (EnRTrqTrqLm tsc1),
           cd_state_change_counter = BITS21 (word_of_int counter), cd_ret = ret\<rparr>
     in (ret, cmd\<lparr>jc_tsc1 := tsc1\<rparr>, s\<lparr>js_retarder := \<lparr>old_mode = new_mode, last_torque = torque, state_change_counter = counter\<rparr>,
           js_debug := js_debug s @ [debug]\<rparr>))"

definition ready_to_send_xbr :: "long_output \<Rightarrow> jbus_cmd \<Rightarrow> jstate \<Rightarrow> bool \<times> jbus_cmd \<times> jstate" where
  "ready_to_send_xbr ctrl cmd s = (let (current, s) = ftime s in
     (TIMEB_SUBTRACT (jc_last_time cmd) current \<ge> jc_interval cmd, cmd, s))"

definition ready_to_send_xbr_warn :: "long_output \<Rightarrow> jbus_cmd \<Rightarrow> jstate \<Rightarrow> bool \<times> jbus_cmd \<times> jstate" where
  "ready_to_send_xbr_warn ctrl cmd s = (let (current, s) = ftime s in
     (TIMEB_SUBTRACT (jc_last_time cmd) current \<ge> jc_interval cmd, cmd, s))"

definition is_ready_to_send :: "sender \<Rightarrow> long_output \<Rightarrow> jbus_cmd \<Rightarrow> jstate \<Rightarrow> bool \<times> jbus_cmd \<times> jstate" where
  "is_ready_to_send k = (case k of SendEngine \<Rightarrow> ready_to_send_engine_src_acc
     | SendRetarder \<Rightarrow> ready_to_send_engine_retarder_src_acc
     | SendXbr \<Rightarrow> ready_to_send_xbr | SendXbrWarn \<Rightarrow> ready_to_send_xbr_warn)"

subsection \<open>What to send\<close>

abbreviation valid_priority :: "u8 \<Rightarrow> bool" where
  "valid_priority p \<equiv> p = 0 \<or> p = 1 \<or> p = 2 \<or> p = 3"

definition sent_now :: "jbus_cmd \<Rightarrow> bool \<Rightarrow> jstate \<Rightarrow> jbus_cmd \<times> jstate" where
  "sent_now cmd dosend s = (if dosend then let (current, s) = ftime s in (cmd\<lparr>jc_last_time := current\<rparr>, s) else (cmd, s))"

definition update_engine_tsc :: "long_output \<Rightarrow> jbus_cmd \<Rightarrow> bool \<Rightarrow> jstate \<Rightarrow> jbus_cmd \<times> jstate" where
  "update_engine_tsc ctrl cmd dosend s =
    (let tsc1 = jc_tsc1 cmd;
         (speed_mode, tsc1) = (if lo_engine_command_mode ctrl = TSC_SPEED_CONTROL then
             (if js_speed_mode s \<and> TIMEB_SUBTRACT (js_last_mode_change s) (stack_time s) > jc_override_limit cmd
              then (False, tsc1\<lparr>EnOvrdCtrlM := TSC_OVERRIDE_DISABLED\<rparr>)
              else (True, tsc1\<lparr>EnOvrdCtrlM := TSC_SPEED_CONTROL\<rparr>))
           else (False, tsc1\<lparr>EnOvrdCtrlM := lo_engine_command_mode ctrl\<rparr>));
         tsc1 = tsc1\<lparr>EnRSpdSpdLm := lo_engine_speed ctrl\<rparr>;
         tsc1 = (if valid_priority (lo_engine_priority ctrl) then tsc1\<lparr>EnOvrdCtrlMPr := lo_engine_priority ctrl\<rparr> else tsc1);
         tsc1 = tsc1\<lparr>EnRTrqTrqLm := lo_engine_torque ctrl\<rparr>;
         s = s\<lparr>js_speed_mode := speed_mode\<rparr>;
         (cmd, s) = sent_now (cmd\<lparr>jc_tsc1 := tsc1\<rparr>) dosend s
     in (cmd, if dosend \<and> \<not> speed_mode then s\<lparr>js_last_mode_change := jc_last_time cmd\<rparr> else s))"

definition update_engine_retarder_tsc :: "long_output \<Rightarrow> jbus_cmd \<Rightarrow> bool \<Rightarrow> jstate \<Rightarrow> jbus_cmd \<times> jstate" where
  "update_engine_retarder_tsc ctrl cmd dosend s =
    (let tsc1 = jc_tsc1 cmd;
         tsc1 = tsc1\<lparr>EnOvrdCtrlM := lo_engine_retarder_command_mode ctrl\<rparr>;
         tsc1 = tsc1\<lparr>EnRTrqTrqLm := lo_engine_retarder_torque ctrl\<rparr>;
         tsc1 = (if valid_priority (lo_engine_retarder_priority ctrl)
           then tsc1\<lparr>EnOvrdCtrlMPr := lo_engine_retarder_priority ctrl\<rparr> else tsc1)
     in sent_now (cmd\<lparr>jc_tsc1 := tsc1\<rparr>) dosend s)"

definition update_brake_volvo_xbr :: "long_output \<Rightarrow> jbus_cmd \<Rightarrow> bool \<Rightarrow> jstate \<Rightarrow> jbus_cmd \<times> jstate" where
  "update_brake_volvo_xbr ctrl cmd dosend s =
    (let xbr = jc_xbr cmd;
         xbr = xbr\<lparr>XBRControlMode := lo_brake_command_mode ctrl\<rparr>;
         xbr = xbr\<lparr>ExternalAccelerationDemand := lo_ebs_deceleration ctrl\<rparr>;
         xbr = (if valid_priority (lo_brake_priority ctrl) then xbr\<lparr>XBRPriority := lo_brake_priority ctrl\<rparr> else xbr)
     in sent_now (cmd\<lparr>jc_xbr := xbr\<rparr>) dosend s)"

definition update_brake_volvo_xbr_warn :: "long_output \<Rightarrow> jbus_cmd \<Rightarrow> bool \<Rightarrow> jstate \<Rightarrow> jbus_cmd \<times> jstate" where
  "update_brake_volvo_xbr_warn ctrl cmd dosend s =
    (let warn = jc_xbr_warn cmd; warn = warn\<lparr>xbrw_src_address := 0x2A\<rparr>
     in sent_now (cmd\<lparr>jc_xbr_warn := warn\<rparr>) dosend s)"

definition update_command :: "sender \<Rightarrow> long_output \<Rightarrow> jbus_cmd \<Rightarrow> bool \<Rightarrow> jstate \<Rightarrow> jbus_cmd \<times> jstate" where
  "update_command k = (case k of SendEngine \<Rightarrow> update_engine_tsc | SendRetarder \<Rightarrow> update_engine_retarder_tsc
     | SendXbr \<Rightarrow> update_brake_volvo_xbr | SendXbrWarn \<Rightarrow> update_brake_volvo_xbr_warn)"

text \<open>The conversion of the message; \<open>None\<close> where the conversion of the deceleration is undefined.\<close>

definition cmd_to_pdu :: "sender \<Rightarrow> jbus_cmd \<Rightarrow> jstate \<Rightarrow> (jbus_cmd \<times> jstate) option" where
  "cmd_to_pdu k cmd s = (case k of
      SendXbr \<Rightarrow> map_option (\<lambda>(counter, pdu, xbr). (cmd\<lparr>jc_xbr := xbr\<rparr>, s\<lparr>js_counter := counter, js_pdu := pdu\<rparr>))
        (volvo_xbr_to_pdu (js_counter s) (js_pdu s) (jc_xbr cmd))
    | SendXbrWarn \<Rightarrow> Some (cmd, s\<lparr>js_pdu := volvo_xbr_warn_to_pdu (js_pdu s)\<rparr>)
    | _ \<Rightarrow> Some (cmd, s\<lparr>js_pdu := tsc1_to_pdu (js_pdu s) (jc_tsc1 cmd)\<rparr>))"

subsection \<open>Starting and stopping\<close>

definition init_engine :: "jbus_cmd \<Rightarrow> jbus_cmd" where
  "init_engine cmd = cmd\<lparr>jc_dbv := 538, jc_interval := 20, jc_heartbeat := 20, jc_override_limit := 5000,
     jc_tsc1 := (jc_tsc1 cmd)\<lparr>EnOvrdCtrlMPr := 1, EnRSpdCtrlC := 1, EnOvrdCtrlM := TSC_OVERRIDE_DISABLED, EnRSpdSpdLm := 0,
       EnRTrqTrqLm := 0, tsc1_destination_address := 0, tsc1_src_address := 42\<rparr>\<rparr>"

definition init_retarder :: "jbus_cmd \<Rightarrow> jbus_cmd" where
  "init_retarder cmd = cmd\<lparr>jc_dbv := 539, jc_interval := 20, jc_heartbeat := 20, jc_override_limit := 0,
     jc_tsc1 := (jc_tsc1 cmd)\<lparr>EnOvrdCtrlMPr := 1, EnRSpdCtrlC := 1, EnOvrdCtrlM := TSC_OVERRIDE_DISABLED, EnRSpdSpdLm := 0,
       EnRTrqTrqLm := 0, tsc1_destination_address := 0x0F, tsc1_src_address := 42\<rparr>\<rparr>"

definition init_xbr :: "jbus_cmd \<Rightarrow> jbus_cmd" where
  "init_xbr cmd = cmd\<lparr>jc_dbv := 548, jc_interval := 20, jc_heartbeat := 20, jc_override_limit := 0,
     jc_xbr := (jc_xbr cmd)\<lparr>ExternalAccelerationDemand := 0, XBREBIMode := 2, XBRPriority := 3, XBRControlMode := 0,
       XBRUrgency := 0, spare1 := 0xFF, spare2 := 0xFF, spare3 := 0xFF, XBRMessageCounter := 0, XBRMessageChecksum := 0,
       xbr_pdu_format := 0xEF, xbr_destination_address := 11, xbr_src_address := 42\<rparr>\<rparr>"

definition init_xbr_warn :: "jbus_cmd \<Rightarrow> jbus_cmd" where
  "init_xbr_warn cmd = cmd\<lparr>jc_dbv := 547, jc_interval := 100, jc_heartbeat := 100, jc_override_limit := 0,
     jc_xbr_warn := (jc_xbr_warn cmd)\<lparr>xbrw_byte1 := 0xFF, xbrw_byte2 := 0x31, xbrw_byte3 := 0xFF, xbrw_byte4 := 0xFF,
       xbrw_byte5 := 0xFF, xbrw_byte6 := 0xFF, xbrw_byte7 := 0xFF, xbrw_byte8 := 0xFF, xbrw_pdu_format := 0xFF,
       xbrw_destination_address := 0x10, xbrw_src_address := 42\<rparr>\<rparr>"

definition init_slot :: "int \<Rightarrow> timeb \<Rightarrow> nat \<Rightarrow> send_jbus \<Rightarrow> send_jbus" where
  "init_slot active_mask current i pm =
    (let pm = pm\<lparr>sj_total_sent := 0\<rparr> in
     if \<not> bit active_mask i then pm\<lparr>sj_active := False\<rparr>
     else let pm = pm\<lparr>sj_active := True\<rparr>; cmd = (sj_cmd pm)\<lparr>jc_last_time := current\<rparr> in
       if i = JBUS_SEND_ENGINE_SRC_ACC then pm\<lparr>sj_slot_number := 11, sj_sender := SendEngine, sj_cmd := init_engine cmd\<rparr>
       else if i = JBUS_SEND_ENGINE_RETARDER_SRC_ACC then pm\<lparr>sj_slot_number := 12, sj_sender := SendRetarder, sj_cmd := init_retarder cmd\<rparr>
       else if i = JBUS_SEND_XBR then pm\<lparr>sj_slot_number := 13, sj_sender := SendXbr, sj_cmd := init_xbr cmd\<rparr>
       else if i = JBUS_SEND_XBR_WARN then pm\<lparr>sj_slot_number := 14, sj_sender := SendXbrWarn, sj_cmd := init_xbr_warn cmd\<rparr>
       else pm\<lparr>sj_cmd := cmd\<rparr>)"

definition set_fd :: "int \<Rightarrow> nat \<Rightarrow> send_jbus list \<Rightarrow> send_jbus list" where
  "set_fd fd i msg = msg[i := (msg ! i)\<lparr>sj_fd := fd\<rparr>]"

text \<open>
  File names are strings or NULL; \<open>opened\<close> is the result of the \<open>init\<close> function of the bus.  Comparing
  with a NULL engine file is a fault.
\<close>

definition send_jbus_init :: "(string \<Rightarrow> int) \<Rightarrow> int \<Rightarrow> string option \<Rightarrow> string option \<Rightarrow> timeb \<Rightarrow> send_jbus list
    \<Rightarrow> (int \<times> send_jbus list) option" where
  "send_jbus_init opened active_mask engine_file brake_file current msg =
    (let msg = map (\<lambda>i. init_slot active_mask current i (msg ! i)) [0..<NUM_JBUS_SEND];
         active_message_types = int (length (filter (bit active_mask) [0..<NUM_JBUS_SEND])) in
     if active_message_types = 0 then Some (0, msg) else
     let brake_file = (if brake_file = None \<and> engine_file \<noteq> None then engine_file else brake_file);
         need = sj_active (msg ! JBUS_SEND_ENGINE_SRC_ACC) \<or> sj_active (msg ! JBUS_SEND_ENGINE_RETARDER_SRC_ACC);
         engine_fd = (case engine_file of None \<Rightarrow> - 1 | Some f \<Rightarrow> if need then opened f else - 1) in
     if need \<and> engine_fd < 0 then Some (0, msg) else
     let msg = (if need then set_fd engine_fd JBUS_SEND_ENGINE_RETARDER_SRC_ACC (set_fd engine_fd JBUS_SEND_ENGINE_SRC_ACC msg) else msg) in
     if \<not> sj_active (msg ! JBUS_SEND_XBR) then Some (active_message_types, msg)
     else case brake_file of None \<Rightarrow> Some (active_message_types, msg) | Some bf \<Rightarrow>
       do {
         ef \<leftarrow> engine_file;
         let brake_fd = (if bf = ef \<and> engine_fd \<ge> 0 then engine_fd else opened bf);
         if brake_fd < 0 then Some (0, msg)
         else Some (active_message_types, set_fd brake_fd JBUS_SEND_XBR_WARN (set_fd brake_fd JBUS_SEND_XBR msg))
       })"

text \<open>The messages before an exit, from slot \<open>i\<close> on.\<close>

definition exit_cmd :: "nat \<Rightarrow> jbus_cmd \<Rightarrow> jbus_cmd" where
  "exit_cmd i cmd = (if i = JBUS_SEND_XBR then cmd\<lparr>jc_xbr := (jc_xbr cmd)\<lparr>XBRControlMode := XBR_NOT_ACTIVE\<rparr>\<rparr>
     else if i = JBUS_SEND_XBR_WARN then cmd
     else cmd\<lparr>jc_tsc1 := (jc_tsc1 cmd)\<lparr>EnOvrdCtrlM := TSC_OVERRIDE_DISABLED\<rparr>\<rparr>)"

definition exit_kind :: "nat \<Rightarrow> sender" where
  "exit_kind i = (if i = JBUS_SEND_XBR then SendXbr else if i = JBUS_SEND_XBR_WARN then SendXbrWarn else SendEngine)"

fun send_jbus_exit :: "nat \<Rightarrow> send_jbus list \<Rightarrow> jstate \<Rightarrow> jstate option" where
  "send_jbus_exit i [] s = Some s"
| "send_jbus_exit i (pm # msg) s =
    (if sj_active pm then do {
       (cmd, s) \<leftarrow> cmd_to_pdu (exit_kind i) (exit_cmd i (sj_cmd pm)) s;
       send_jbus_exit (i + 1) msg (s\<lparr>js_sent := js_sent s @ [(sj_fd pm, js_pdu s, sj_slot_number pm)]\<rparr>)
     } else send_jbus_exit (i + 1) msg s)"

subsection \<open>The control variable\<close>

text \<open>
  The initialiser of \<open>inactive_ctrl\<close> leaves out the three priorities, so its values land in other
  fields than its comments say; the fields without a value are zero.
\<close>

definition inactive_ctrl :: long_output where
  "inactive_ctrl = \<lparr>lo_engine_speed = 600, lo_engine_torque = 400, lo_engine_retarder_torque = 0,
     lo_engine_command_mode = TSC_OVERRIDE_DISABLED, lo_engine_retarder_command_mode = TSC_OVERRIDE_DISABLED,
     lo_engine_priority = 0, lo_engine_retarder_priority = 0, lo_brake_priority = XBR_NOT_ACTIVE,
     lo_acc_pedal_control = 0, lo_ebs_deceleration = 0, lo_brake_command_mode = 0, lo_trans_retarder_value = 0,
     lo_trans_retarder_command_mode = 0, lo_fb_control = 0, lo_rb_control = 0, lo_fan_override = 0, lo_fan_control = 0,
     lo_selected_gap_level = 0\<rparr>"

text \<open>The data server's answers in one iteration.\<close>

record jinput = in_login :: bool
  in_ctrl :: "long_output option"
  in_eec1 :: "cfloat option"
  in_eec2 :: "cfloat option"

definition get_ctrl_var :: "jinput \<Rightarrow> jstate \<Rightarrow> long_output \<times> jstate" where
  "get_ctrl_var inp s =
    (if \<not> js_connected s \<and> \<not> in_login inp then (inactive_ctrl, s\<lparr>js_connected := False\<rparr>)
     else case in_ctrl inp of
       Some ctrl \<Rightarrow> (ctrl, s\<lparr>js_connected := True\<rparr>)
     | None \<Rightarrow> (inactive_ctrl, s\<lparr>js_connected := False\<rparr>))"

definition update_info_for_check :: "jinput \<Rightarrow> jstate \<Rightarrow> jstate" where
  "update_info_for_check inp s =
    (if \<not> js_connected s then s
     else if \<not> (js_loop_number s = 0 \<or> js_loop_number s = 20) then s
     else let s = (case in_eec1 inp of Some x \<Rightarrow> s\<lparr>js_info := (js_info s)\<lparr>percent_engine_torque := x\<rparr>\<rparr>
             | None \<Rightarrow> s\<lparr>js_invalid_read := js_invalid_read s + 1\<rparr>)
       in (case in_eec2 inp of Some x \<Rightarrow> s\<lparr>js_info := (js_info s)\<lparr>accelerator_pedal_position := x\<rparr>\<rparr>
             | None \<Rightarrow> s\<lparr>js_invalid_read := js_invalid_read s + 1\<rparr>))"

subsection \<open>The main loop\<close>

text \<open>
  Slot \<open>i\<close> of one iteration.  A TSC1 message is converted twice by the code, into the same bytes;
  once is modelled.
\<close>

definition jbus_slot :: "long_output \<Rightarrow> nat \<Rightarrow> jstate \<Rightarrow> jstate option" where
  "jbus_slot ctrl i s = (let pm = js_msg s ! i in
     if \<not> sj_active pm then Some s else
     let cmd = sj_cmd pm;
         (can_send, cmd, s) = (if active_loop i (js_loop_number s) then is_ready_to_send (sj_sender pm) ctrl cmd s else (False, cmd, s));
         (cmd, s) = update_command (sj_sender pm) ctrl cmd can_send s in
     if can_send then do {
       (cmd, s) \<leftarrow> cmd_to_pdu (sj_sender pm) cmd s;
       Some (s\<lparr>js_sent := js_sent s @ [(sj_fd pm, js_pdu s, sj_slot_number pm)],
         js_msg := (js_msg s)[i := pm\<lparr>sj_cmd := cmd, sj_total_sent := sj_total_sent pm + 1\<rparr>]\<rparr>)
     } else Some (s\<lparr>js_msg := (js_msg s)[i := pm\<lparr>sj_cmd := cmd\<rparr>]\<rparr>))"

fun jbus_slots :: "long_output \<Rightarrow> nat list \<Rightarrow> jstate \<Rightarrow> jstate option" where
  "jbus_slots ctrl [] s = Some s"
| "jbus_slots ctrl (i # is) s = Option.bind (jbus_slot ctrl i s) (jbus_slots ctrl is)"

definition jbus_iteration :: "jinput \<Rightarrow> jstate \<Rightarrow> jstate option" where
  "jbus_iteration inp s = (let (ctrl, s) = get_ctrl_var inp s in do {
     s \<leftarrow> jbus_slots ctrl [0..<NUM_JBUS_SEND] s;
     let loop_number = js_loop_number s + 1;
     let s = s\<lparr>js_loop_number := (if loop_number = MAX_LOOP_NUMBER then 0 else loop_number)\<rparr>;
     Some (update_info_for_check inp s)
   })"

fun jbus_loop :: "jinput list \<Rightarrow> jstate \<Rightarrow> jstate option" where
  "jbus_loop [] s = Some s"
| "jbus_loop (inp # inps) s = Option.bind (jbus_iteration inp s) (jbus_loop inps)"

subsection \<open>What a slot does\<close>

definition quiet :: "jstate \<Rightarrow> jstate \<Rightarrow> bool" where
  "quiet s s' \<longleftrightarrow> js_msg s' = js_msg s \<and> js_pdu s' = js_pdu s \<and> js_sent s' = js_sent s \<and>
     js_loop_number s' = js_loop_number s \<and> js_connected s' = js_connected s \<and> js_counter s' = js_counter s"

lemma quiet_trans: "quiet s s1 \<Longrightarrow> quiet s1 s2 \<Longrightarrow> quiet s s2"
  by (simp add: quiet_def)

lemma ready_quiet: "is_ready_to_send k ctrl cmd s = (r, cmd', s') \<Longrightarrow> quiet s s'"
  by (cases k) (auto simp: is_ready_to_send_def ready_to_send_engine_src_acc_def ready_to_send_engine_retarder_src_acc_def
      ready_to_send_xbr_def ready_to_send_xbr_warn_def ftime_def quiet_def Let_def split: if_splits)

lemma update_quiet: "update_command k ctrl cmd r s = (cmd', s') \<Longrightarrow>
   quiet s s' \<and> js_engine s' = js_engine s \<and> js_retarder s' = js_retarder s"
  by (cases k) (auto simp: update_command_def update_engine_tsc_def update_engine_retarder_tsc_def
      update_brake_volvo_xbr_def update_brake_volvo_xbr_warn_def sent_now_def ftime_def quiet_def Let_def split: if_splits)

text \<open>The mode bits of what is sent are those of the command.\<close>

definition mode_of :: "sender \<Rightarrow> jbus_cmd \<Rightarrow> u8" where
  "mode_of k cmd = (case k of SendXbr \<Rightarrow> XBRControlMode (jc_xbr cmd) | SendXbrWarn \<Rightarrow> 0 | _ \<Rightarrow> EnOvrdCtrlM (jc_tsc1 cmd))"

definition sent_mode :: "sender \<Rightarrow> j1939_pdu \<Rightarrow> u8" where
  "sent_mode k pdu = (case k of SendXbr \<Rightarrow> BITS65 (pd_data pdu ! 2) | SendXbrWarn \<Rightarrow> 0 | _ \<Rightarrow> BITS21 (pd_data pdu ! 0))"

lemma BITS21_zero [simp]: "BITS21 0 = 0"
  by (simp add: BITS21_def)

lemma no_mode: "BITS65 (192 OR BITS21 a OR push_bit 2 (BITS21 b)) = 0"
  using bits_fields(6)[of a b 0] by simp

lemma pdu_law:
  assumes "cmd_to_pdu k cmd s = Some (cmd', s')" "length (pd_data (js_pdu s)) = 8"
  shows "length (pd_data (js_pdu s')) = 8 \<and> sent_mode k (js_pdu s') = BITS21 (mode_of k cmd) \<and>
    js_msg s' = js_msg s \<and> js_sent s' = js_sent s \<and> js_loop_number s' = js_loop_number s \<and>
    js_connected s' = js_connected s \<and> js_engine s' = js_engine s \<and> js_retarder s' = js_retarder s"
proof (cases k)
  case SendXbr
  have "length d = 8 \<Longrightarrow> length (xbr_close d c) = 8 \<and> xbr_close d c ! 2 = d ! 2" for d c
    by (simp add: xbr_close_def Let_def)
  then show ?thesis using assms SendXbr
    by (auto simp: cmd_to_pdu_def volvo_xbr_to_pdu_def Let_def sent_mode_def mode_of_def bits_fields no_mode split: if_splits)
qed (use assms in \<open>auto simp: cmd_to_pdu_def tsc1_to_pdu_def volvo_xbr_warn_to_pdu_def Let_def sent_mode_def mode_of_def bits_fields\<close>)

text \<open>The mode that a control variable asks of a slot.\<close>

definition wanted :: "sender \<Rightarrow> long_output \<Rightarrow> u8" where
  "wanted k ctrl = (case k of SendEngine \<Rightarrow> lo_engine_command_mode ctrl | SendRetarder \<Rightarrow> lo_engine_retarder_command_mode ctrl
     | SendXbr \<Rightarrow> lo_brake_command_mode ctrl | SendXbrWarn \<Rightarrow> 0)"

lemma update_mode:
  assumes "update_command k ctrl cmd r s = (cmd', s')"
  shows "mode_of k cmd' = wanted k ctrl \<or> mode_of k cmd' = 0"
proof (cases k)
  case SendEngine
  then show ?thesis using assms
    by (cases "valid_priority (lo_engine_priority ctrl)")
       (auto simp: update_command_def update_engine_tsc_def sent_now_def ftime_def mode_of_def wanted_def Let_def split: if_splits)
next
  case SendRetarder
  then show ?thesis using assms
    by (cases "valid_priority (lo_engine_retarder_priority ctrl)")
       (auto simp: update_command_def update_engine_retarder_tsc_def sent_now_def ftime_def mode_of_def wanted_def Let_def split: if_splits)
next
  case SendXbr
  then show ?thesis using assms
    by (cases "valid_priority (lo_brake_priority ctrl)")
       (auto simp: update_command_def update_brake_volvo_xbr_def sent_now_def ftime_def mode_of_def wanted_def Let_def split: if_splits)
qed (simp add: mode_of_def)

text \<open>The slots as \<open>send_jbus_init\<close> sets them up.\<close>

definition kind :: "nat \<Rightarrow> sender" where
  "kind i = [SendEngine, SendRetarder, SendXbr, SendXbrWarn] ! i"

definition jbus_ok :: "jstate \<Rightarrow> bool" where
  "jbus_ok s \<longleftrightarrow> length (js_msg s) = NUM_JBUS_SEND \<and> length (pd_data (js_pdu s)) = 8 \<and>
     (\<forall>i < NUM_JBUS_SEND. sj_active (js_msg s ! i) \<longrightarrow>
        sj_sender (js_msg s ! i) = kind i \<and> sj_slot_number (js_msg s ! i) = 11 + int i)"

text \<open>A message of slot \<open>i\<close> that asks for no more than the control variable does.\<close>

definition follows :: "long_output \<Rightarrow> nat \<Rightarrow> int \<times> j1939_pdu \<times> int \<Rightarrow> bool" where
  "follows ctrl i m \<longleftrightarrow> (case m of (fd, pdu, slot) \<Rightarrow> slot = 11 + int i \<and>
     (sent_mode (kind i) pdu = BITS21 (wanted (kind i) ctrl) \<or> sent_mode (kind i) pdu = 0))"

definition sole :: "long_output \<Rightarrow> nat \<Rightarrow> (int \<times> j1939_pdu \<times> int) list \<Rightarrow> bool" where
  "sole ctrl i ms \<longleftrightarrow> length ms = 1 \<and> list_all (follows ctrl i) ms"

definition slot_result :: "long_output \<Rightarrow> nat \<Rightarrow> jstate \<Rightarrow> jstate \<Rightarrow> bool" where
  "slot_result ctrl i s s' \<longleftrightarrow> jbus_ok s' \<and> js_loop_number s' = js_loop_number s \<and> js_connected s' = js_connected s \<and>
     map sj_active (js_msg s') = map sj_active (js_msg s) \<and>
     (\<exists>ms. js_sent s' = js_sent s @ ms \<and> (ms = [] \<or> active_loop i (js_loop_number s) \<and> sole ctrl i ms))"

lemma slot_law:
  assumes "jbus_ok s" "i < NUM_JBUS_SEND" "jbus_slot ctrl i s = Some s'"
  shows "slot_result ctrl i s s'"
proof (cases "sj_active (js_msg s ! i)")
  case False
  then show ?thesis using assms by (simp add: jbus_slot_def slot_result_def)
next
  case True
  let ?pm = "js_msg s ! i"
  have len: "length (js_msg s) = NUM_JBUS_SEND" "length (pd_data (js_pdu s)) = 8" using assms(1) by (simp_all add: jbus_ok_def)
  have k: "sj_sender ?pm = kind i" "sj_slot_number ?pm = 11 + int i" using assms(1,2) True by (simp_all add: jbus_ok_def)
  obtain r cmd1 s1 where r: "(if active_loop i (js_loop_number s) then is_ready_to_send (kind i) ctrl (sj_cmd ?pm) s
      else (False, sj_cmd ?pm, s)) = (r, cmd1, s1)" by (metis surj_pair)
  have q1: "quiet s s1" using r ready_quiet by (auto simp: quiet_def split: if_splits)
  have act: "r \<Longrightarrow> active_loop i (js_loop_number s)" using r by (auto split: if_splits)
  obtain cmd2 s2 where u: "update_command (kind i) ctrl cmd1 r s1 = (cmd2, s2)" by fastforce
  have q2: "quiet s s2" using q1 update_quiet[OF u] quiet_trans by blast
  have act': "map sj_active ((js_msg s)[i := ?pm\<lparr>sj_cmd := c\<rparr>]) = map sj_active (js_msg s)"
    "map sj_active ((js_msg s)[i := ?pm\<lparr>sj_cmd := c, sj_total_sent := n\<rparr>]) = map sj_active (js_msg s)" for c n
    using assms(2) len(1) by (simp_all add: map_update list_update_same_conv)
  show ?thesis
  proof (cases r)
    case False
    then have "s' = s2\<lparr>js_msg := (js_msg s2)[i := ?pm\<lparr>sj_cmd := cmd2\<rparr>]\<rparr>"
      using assms(3)[unfolded jbus_slot_def Let_def k(1)] True r u by simp
    then show ?thesis using q2 assms(1,2) True k act' by (auto simp: slot_result_def quiet_def jbus_ok_def nth_list_update)
  next
    case True2: True
    obtain cmd3 s3 where p: "cmd_to_pdu (kind i) cmd2 s2 = Some (cmd3, s3)" and
      s': "s' = s3\<lparr>js_sent := js_sent s3 @ [(sj_fd ?pm, js_pdu s3, sj_slot_number ?pm)],
        js_msg := (js_msg s3)[i := ?pm\<lparr>sj_cmd := cmd3, sj_total_sent := sj_total_sent ?pm + 1\<rparr>]\<rparr>"
      using assms(3)[unfolded jbus_slot_def Let_def k(1)] True True2 r u by auto
    have L: "length (pd_data (js_pdu s3)) = 8" "sent_mode (kind i) (js_pdu s3) = BITS21 (mode_of (kind i) cmd2)"
      "js_msg s3 = js_msg s" "js_sent s3 = js_sent s" "js_loop_number s3 = js_loop_number s" "js_connected s3 = js_connected s"
      using pdu_law[OF p] q2 len(2) by (simp_all add: quiet_def)
    have "follows ctrl i (sj_fd ?pm, js_pdu s3, sj_slot_number ?pm)"
      using update_mode[OF u] k(2) by (auto simp: follows_def L(2))
    then show ?thesis using L assms(1,2) True k act[OF True2] act' unfolding s'
      by (auto simp: slot_result_def sole_def jbus_ok_def nth_list_update)
  qed
qed

end
