(* ===== verification/JbusProps.thy ===== *)
theory JbusProps
  imports JbusSend
begin

text \<open>
  What jbussend.c puts on the bus: its schedule, that it never asks for more than the control
  variable does, what it sends when the control variable cannot be read, how a mode is released, and the
  messages before an exit.
\<close>

subsection \<open>One iteration\<close>

lemma active_once: "active_loop i n \<Longrightarrow> active_loop j n \<Longrightarrow> i = j"
  by (auto simp: active_loop_def split: if_splits)

definition slots_result :: "long_output \<Rightarrow> nat set \<Rightarrow> jstate \<Rightarrow> jstate \<Rightarrow> bool" where
  "slots_result ctrl I s s' \<longleftrightarrow> jbus_ok s' \<and> js_loop_number s' = js_loop_number s \<and> js_connected s' = js_connected s \<and>
     map sj_active (js_msg s') = map sj_active (js_msg s) \<and>
     (\<exists>ms. js_sent s' = js_sent s @ ms \<and>
        (ms = [] \<or> (\<exists>i \<in> I. active_loop i (js_loop_number s) \<and> sole ctrl i ms)))"

lemma slots_law:
  "jbus_ok s \<Longrightarrow> set is \<subseteq> {..<NUM_JBUS_SEND} \<Longrightarrow> distinct is \<Longrightarrow> jbus_slots ctrl is s = Some s' \<Longrightarrow>
   slots_result ctrl (set is) s s'"
proof (induction "is" arbitrary: s)
  case (Cons i "is")
  obtain s1 where 1: "jbus_slot ctrl i s = Some s1" "jbus_slots ctrl is s1 = Some s'" using Cons.prems(4) by auto
  have "slot_result ctrl i s s1" using slot_law[OF Cons.prems(1) _ 1(1)] Cons.prems(2) by simp
  then obtain ms where a: "jbus_ok s1" "js_loop_number s1 = js_loop_number s" "js_connected s1 = js_connected s"
    "map sj_active (js_msg s1) = map sj_active (js_msg s)" "js_sent s1 = js_sent s @ ms"
    "ms = [] \<or> active_loop i (js_loop_number s) \<and> sole ctrl i ms"
    by (auto simp: slot_result_def)
  have "slots_result ctrl (set is) s1 s'" using Cons.IH[OF a(1) _ _ 1(2)] Cons.prems(2,3) by simp
  then obtain ns where b: "jbus_ok s'" "js_loop_number s' = js_loop_number s" "js_connected s' = js_connected s"
    "map sj_active (js_msg s') = map sj_active (js_msg s)" "js_sent s' = js_sent s1 @ ns"
    "ns = [] \<or> (\<exists>i \<in> set is. active_loop i (js_loop_number s) \<and> sole ctrl i ns)"
    using a by (auto simp: slots_result_def)
  have "ms = [] \<or> ns = []" using a(6) b(6) active_once Cons.prems(3) by fastforce
  then show ?case using b(1-4) a(5,6) b(5,6) unfolding slots_result_def
    by (intro conjI exI[of _ "ms @ ns"]) auto
qed (simp add: slots_result_def)

text \<open>The control variable an iteration works with.\<close>

definition control :: "jinput \<Rightarrow> jstate \<Rightarrow> long_output" where
  "control inp s = fst (get_ctrl_var inp s)"

definition next_loop :: "nat \<Rightarrow> nat" where
  "next_loop n = (if n + 1 = MAX_LOOP_NUMBER then 0 else n + 1)"

lemma info_quiet:
  "js_msg (update_info_for_check inp s) = js_msg s" "js_pdu (update_info_for_check inp s) = js_pdu s"
  "js_sent (update_info_for_check inp s) = js_sent s" "js_loop_number (update_info_for_check inp s) = js_loop_number s"
  "js_connected (update_info_for_check inp s) = js_connected s" "js_engine (update_info_for_check inp s) = js_engine s"
  "jbus_ok (update_info_for_check inp s) = jbus_ok s"
  by (auto simp: update_info_for_check_def jbus_ok_def Let_def split: option.splits)

lemma ctrl_quiet:
  "js_msg (snd (get_ctrl_var inp s)) = js_msg s" "js_pdu (snd (get_ctrl_var inp s)) = js_pdu s"
  "js_sent (snd (get_ctrl_var inp s)) = js_sent s" "js_loop_number (snd (get_ctrl_var inp s)) = js_loop_number s"
  "js_engine (snd (get_ctrl_var inp s)) = js_engine s" "jbus_ok (snd (get_ctrl_var inp s)) = jbus_ok s"
  by (auto simp: get_ctrl_var_def jbus_ok_def split: option.splits)

lemma iteration_split:
  "jbus_iteration inp s = map_option (\<lambda>s1. update_info_for_check inp (s1\<lparr>js_loop_number := next_loop (js_loop_number s1)\<rparr>))
     (jbus_slots (control inp s) [0..<NUM_JBUS_SEND] (snd (get_ctrl_var inp s)))"
  by (cases "jbus_slots (control inp s) [0..<NUM_JBUS_SEND] (snd (get_ctrl_var inp s))")
     (simp_all add: jbus_iteration_def control_def case_prod_beta next_loop_def Let_def)

lemma iteration_law:
  assumes "jbus_ok s" "jbus_iteration inp s = Some s'"
  shows "jbus_ok s' \<and> js_loop_number s' = next_loop (js_loop_number s) \<and>
    map sj_active (js_msg s') = map sj_active (js_msg s) \<and>
    (\<exists>ms. js_sent s' = js_sent s @ ms \<and> (ms = [] \<or>
       (\<exists>i < NUM_JBUS_SEND. active_loop i (js_loop_number s) \<and> sole (control inp s) i ms)))"
proof -
  let ?s = "snd (get_ctrl_var inp s)"
  obtain s1 where s1: "jbus_slots (control inp s) [0..<NUM_JBUS_SEND] ?s = Some s1"
    "s' = update_info_for_check inp (s1\<lparr>js_loop_number := next_loop (js_loop_number s1)\<rparr>)"
    using assms(2) by (auto simp: iteration_split)
  have "slots_result (control inp s) (set [0..<NUM_JBUS_SEND]) ?s s1"
    by (rule slots_law[OF _ _ _ s1(1)]) (use assms(1) in \<open>auto simp: ctrl_quiet\<close>)
  moreover have "jbus_ok (s1\<lparr>js_loop_number := n\<rparr>) = jbus_ok s1" for n by (simp add: jbus_ok_def)
  ultimately show ?thesis unfolding s1(2) by (auto simp: slots_result_def info_quiet ctrl_quiet)
qed

text \<open>
  C17: an iteration of five milliseconds sends at most one message, of the slot whose turn it is, and the control mode in
  it is the one the control variable asks for, or none.
\<close>

theorem jbus_follows_control:
  assumes "jbus_ok s" "jbus_iteration inp s = Some s'"
  shows "jbus_ok s' \<and> (js_sent s' = js_sent s \<or>
    (\<exists>i fd pdu. active_loop i (js_loop_number s) \<and> js_sent s' = js_sent s @ [(fd, pdu, 11 + int i)] \<and>
       (sent_mode (kind i) pdu = BITS21 (wanted (kind i) (fst (get_ctrl_var inp s))) \<or> sent_mode (kind i) pdu = 0)))"
  using iteration_law[OF assms] by (auto simp: sole_def follows_def control_def length_Suc_conv)

subsection \<open>Without a control variable\<close>

definition unreadable :: "jinput \<Rightarrow> bool" where "unreadable inp \<longleftrightarrow> in_ctrl inp = None"

definition released :: "int \<times> j1939_pdu \<times> int \<Rightarrow> bool" where
  "released m \<longleftrightarrow> (case m of (fd, pdu, slot) \<Rightarrow> 11 \<le> slot \<and> slot \<le> 14 \<and> sent_mode (kind (nat (slot - 11))) pdu = 0)"

lemma unreadable_control: "unreadable inp \<Longrightarrow> control inp s = inactive_ctrl"
  by (simp add: unreadable_def control_def get_ctrl_var_def)

lemma inactive_wanted [simp]: "wanted k inactive_ctrl = 0"
  by (cases k) (simp_all add: wanted_def inactive_ctrl_def)

lemma xbr_demand_ten: "c_trunc ((10 + 15687 / 1000) / (4882812 / 10 ^ 10) :: cfloat) = 52606"
  by (simp add: c_trunc_def floor_eq_iff)

lemma pdu_exists: "k \<noteq> SendXbr \<or> XBRControlMode (jc_xbr cmd) = 0 \<Longrightarrow> cmd_to_pdu k cmd s \<noteq> None"
  by (cases k) (auto simp: cmd_to_pdu_def volvo_xbr_to_pdu_def Let_def xbr_demand_ten[simplified])

lemma slot_exists:
  assumes "lo_brake_command_mode ctrl = 0" "jbus_ok s" "i < NUM_JBUS_SEND"
  shows "jbus_slot ctrl i s \<noteq> None"
proof -
  have "cmd_to_pdu k cmd' s' \<noteq> None" if "update_command k ctrl cmd r s0 = (cmd', s')" for k cmd r s0 cmd' s'
    by (rule pdu_exists) (use that assms(1) in \<open>cases k; auto simp: update_command_def update_brake_volvo_xbr_def
        sent_now_def ftime_def Let_def split: if_splits\<close>)
  then show ?thesis by (auto simp: jbus_slot_def Let_def case_prod_beta split: if_splits)
qed

lemma slots_exist:
  "lo_brake_command_mode ctrl = 0 \<Longrightarrow> jbus_ok s \<Longrightarrow> set is \<subseteq> {..<NUM_JBUS_SEND} \<Longrightarrow> jbus_slots ctrl is s \<noteq> None"
proof (induction "is" arbitrary: s)
  case (Cons i "is")
  then obtain s1 where 1: "jbus_slot ctrl i s = Some s1" using slot_exists[of ctrl s i] by auto
  have "jbus_ok s1" using slot_law[OF Cons.prems(2) _ 1] Cons.prems(3) by (simp add: slot_result_def)
  then show ?case using Cons.IH[of s1] Cons.prems 1 by simp
qed simp

lemma iteration_exists:
  "jbus_ok s \<Longrightarrow> lo_brake_command_mode (control inp s) = 0 \<Longrightarrow> \<exists>s'. jbus_iteration inp s = Some s'"
  using slots_exist[of "control inp s" "snd (get_ctrl_var inp s)" "[0..<NUM_JBUS_SEND]"]
  by (auto simp: iteration_split ctrl_quiet lessThan_atLeast0)

lemma unreadable_loop:
  assumes "jbus_ok s" "list_all (\<lambda>inp. in_ctrl inp = None) inps"
  shows "\<exists>s' ms. jbus_loop inps s = Some s' \<and> js_sent s' = js_sent s @ ms \<and> list_all released ms"
  using assms
proof (induction inps arbitrary: s)
  case (Cons inp inps)
  have c: "control inp s = inactive_ctrl" using Cons.prems(2) by (simp add: unreadable_control unreadable_def)
  obtain s1 where 1: "jbus_iteration inp s = Some s1"
    using iteration_exists[OF Cons.prems(1), of inp] c by (auto simp: inactive_ctrl_def)
  have "released m" if "follows inactive_ctrl i m" "i < NUM_JBUS_SEND" for i m
    using that by (cases m) (auto simp: follows_def released_def)
  then obtain ms where a: "jbus_ok s1" "js_sent s1 = js_sent s @ ms" "list_all released ms"
    using iteration_law[OF Cons.prems(1) 1] c by (fastforce simp: sole_def list_all_iff)
  obtain s' ns where "jbus_loop inps s1 = Some s'" "js_sent s' = js_sent s1 @ ns" "list_all released ns"
    using Cons.IH[OF a(1)] Cons.prems(2) by auto
  then show ?case using 1 a by (intro exI[of _ s'] exI[of _ "ms @ ns"]) simp
qed simp

text \<open>
  C16: while the control variable cannot be read (the data server is down, or has no such variable), the
  program keeps running and every message it sends, if any, has the control mode that releases
  the engine, the retarder or the brake.
\<close>

theorem jbus_fail_safe:
  assumes "jbus_ok s" "list_all (\<lambda>inp. in_ctrl inp = None) inps"
  shows "\<exists>s' ms. jbus_loop inps s = Some s' \<and> js_sent s' = js_sent s @ ms \<and> list_all released ms"
  by (rule unreadable_loop[OF assms])

subsection \<open>Three messages release the engine\<close>

text \<open>How many releases are still due.\<close>

definition due :: "shift \<Rightarrow> nat" where
  "due sh = (if old_mode sh \<noteq> TSC_OVERRIDE_DISABLED then 3 else nat (state_change_counter sh - 1))"

abbreviation engine_slot :: "int \<times> j1939_pdu \<times> int \<Rightarrow> bool" where "engine_slot m \<equiv> snd (snd m) = 11"

lemma other_slot_engine:
  assumes "jbus_ok s" "0 < i" "i < NUM_JBUS_SEND" "jbus_slot ctrl i s = Some s'"
  shows "js_engine s' = js_engine s"
proof -
  have k: "sj_active (js_msg s ! i) \<Longrightarrow> sj_sender (js_msg s ! i) \<noteq> SendEngine"
  proof -
    have "i = 1 \<or> i = 2 \<or> i = 3" using assms(2,3) by linarith
    then have "kind i \<noteq> SendEngine" by (auto simp: kind_def)
    then show "sj_active (js_msg s ! i) \<Longrightarrow> sj_sender (js_msg s ! i) \<noteq> SendEngine" using assms(1,3) by (simp add: jbus_ok_def)
  qed
  have r: "k \<noteq> SendEngine \<Longrightarrow> is_ready_to_send k ctrl cmd s = (r, cmd', s') \<Longrightarrow> js_engine s' = js_engine s" for k cmd r cmd' s'
    by (cases k) (auto simp: is_ready_to_send_def ready_to_send_engine_retarder_src_acc_def
        ready_to_send_xbr_def ready_to_send_xbr_warn_def ftime_def Let_def split: if_splits)
  have p: "cmd_to_pdu k cmd s1 = Some (cmd', s2) \<Longrightarrow> js_engine s2 = js_engine s1" for k cmd s1 cmd' s2
    by (cases k) (auto simp: cmd_to_pdu_def)
  show ?thesis
  proof (cases "sj_active (js_msg s ! i)")
    case True
    let ?k = "sj_sender (js_msg s ! i)"
    obtain r cmd1 s1 where r1: "(if active_loop i (js_loop_number s) then is_ready_to_send ?k ctrl (sj_cmd (js_msg s ! i)) s
      else (False, sj_cmd (js_msg s ! i), s)) = (r, cmd1, s1)" by (metis surj_pair)
    have 1: "js_engine s1 = js_engine s" using r1 r[OF k[OF True]] by (auto split: if_splits)
    obtain cmd2 s2 where u: "update_command ?k ctrl cmd1 r s1 = (cmd2, s2)" by fastforce
    have 2: "js_engine s2 = js_engine s" using 1 update_quiet[OF u] by simp
    show ?thesis using assms(4)[unfolded jbus_slot_def Let_def] True r1 u 2 p by (cases r) auto
  qed (use assms(4) in \<open>simp add: jbus_slot_def\<close>)
qed

lemma other_slots_engine:
  "jbus_ok s \<Longrightarrow> set is \<subseteq> {1..<NUM_JBUS_SEND} \<Longrightarrow> jbus_slots ctrl is s = Some s' \<Longrightarrow> js_engine s' = js_engine s"
proof (induction "is" arbitrary: s)
  case (Cons i "is")
  obtain s1 where 1: "jbus_slot ctrl i s = Some s1" "jbus_slots ctrl is s1 = Some s'" using Cons.prems(3) by auto
  have "jbus_ok s1" using slot_law[OF Cons.prems(1) _ 1(1)] Cons.prems(2) by (simp add: slot_result_def)
  then show ?case using Cons.IH[OF _ _ 1(2)] Cons.prems other_slot_engine[OF Cons.prems(1) _ _ 1(1)] by simp
qed simp

text \<open>The engine's slot when the control variable disables the engine control.\<close>

lemma engine_slot_law:
  assumes "jbus_ok s" "sj_active (js_msg s ! 0)" "lo_engine_command_mode ctrl = TSC_OVERRIDE_DISABLED"
    and "0 \<le> state_change_counter (js_engine s)" "jbus_slot ctrl 0 s = Some s'"
  shows "if active_loop 0 (js_loop_number s)
    then due (js_engine s') = due (js_engine s) - 1 \<and> 0 \<le> state_change_counter (js_engine s') \<and>
      (js_sent s' = js_sent s \<longleftrightarrow> due (js_engine s) = 0)
    else js_engine s' = js_engine s \<and> js_sent s' = js_sent s"
proof -
  let ?pm = "js_msg s ! 0"
  have k: "sj_sender ?pm = SendEngine" using assms(1,2) by (simp add: jbus_ok_def kind_def)
  obtain r cmd1 s1 where r: "(if active_loop 0 (js_loop_number s) then ready_to_send_engine_src_acc ctrl (sj_cmd ?pm) s
      else (False, sj_cmd ?pm, s)) = (r, cmd1, s1)" by (metis surj_pair)
  obtain cmd2 s2 where u: "update_command SendEngine ctrl cmd1 r s1 = (cmd2, s2)" by fastforce
  have q: "js_engine s2 = js_engine s1" "js_sent s2 = js_sent s1" using update_quiet[OF u] by (simp_all add: quiet_def)
  have q1: "js_sent s1 = js_sent s" "\<not> active_loop 0 (js_loop_number s) \<Longrightarrow> \<not> r \<and> s1 = s"
    using r ready_quiet[of SendEngine ctrl "sj_cmd ?pm" s] by (auto simp: is_ready_to_send_def quiet_def split: if_splits)
  have s': "js_engine s' = js_engine s1 \<and> (js_sent s' = js_sent s \<longleftrightarrow> \<not> r)"
    using assms(5)[unfolded jbus_slot_def Let_def k is_ready_to_send_def sender.case] assms(2) r u q q1(1)
    by (cases r) (auto simp: cmd_to_pdu_def)
  have "r = (due (js_engine s) \<noteq> 0) \<and> due (js_engine s1) = due (js_engine s) - 1 \<and> 0 \<le> state_change_counter (js_engine s1)"
    if "active_loop 0 (js_loop_number s)"
    using r that assms(3,4)
    by (auto simp: ready_to_send_engine_src_acc_def ftime_def due_def Let_def split: if_splits)
  then show ?thesis using s' q1(2) by auto
qed

lemma iteration_engine:
  assumes "jbus_ok s" "sj_active (js_msg s ! 0)" "lo_engine_command_mode (control inp s) = TSC_OVERRIDE_DISABLED"
    and "0 \<le> state_change_counter (js_engine s)" "jbus_iteration inp s = Some s'"
  shows "\<exists>ms. js_sent s' = js_sent s @ ms \<and> 0 \<le> state_change_counter (js_engine s') \<and>
    list_all released (filter engine_slot ms) \<and>
    (if active_loop 0 (js_loop_number s)
     then due (js_engine s') = due (js_engine s) - 1 \<and> length (filter engine_slot ms) = (if due (js_engine s) = 0 then 0 else 1)
     else js_engine s' = js_engine s \<and> filter engine_slot ms = [])"
proof -
  let ?s = "snd (get_ctrl_var inp s)" and ?c = "control inp s"
  have upt: "[0..<NUM_JBUS_SEND] = 0 # [1..<NUM_JBUS_SEND]" by (simp add: upt_rec)
  obtain s1 s2 where s12: "jbus_slot ?c 0 ?s = Some s1" "jbus_slots ?c [1..<NUM_JBUS_SEND] s1 = Some s2"
    "s' = update_info_for_check inp (s2\<lparr>js_loop_number := next_loop (js_loop_number s2)\<rparr>)"
    using assms(5) unfolding iteration_split upt by auto
  have ok: "jbus_ok ?s" "sj_active (js_msg ?s ! 0)" "0 \<le> state_change_counter (js_engine ?s)"
    using assms(1,2,4) by (simp_all add: ctrl_quiet)
  note e = engine_slot_law[OF ok(1,2) assms(3) ok(3) s12(1)]
  obtain ms where ms: "jbus_ok s1" "js_loop_number s1 = js_loop_number s" "js_sent s1 = js_sent s @ ms"
    "ms = [] \<or> active_loop 0 (js_loop_number s) \<and> sole ?c 0 ms"
    using slot_law[OF ok(1) _ s12(1)] by (auto simp: slot_result_def ctrl_quiet)
  obtain ns where ns: "js_sent s2 = js_sent s1 @ ns" "ns = [] \<or> (\<exists>i \<in> {1..<NUM_JBUS_SEND}. sole ?c i ns)"
  proof -
    have "set [1..<NUM_JBUS_SEND] \<subseteq> {..<NUM_JBUS_SEND}" by auto
    from slots_law[OF ms(1) this _ s12(2)] show ?thesis using that by (auto simp: slots_result_def)
  qed
  have n: "filter engine_slot ns = []"
    using ns(2) by (auto simp: sole_def follows_def length_Suc_conv)
  have m: "filter engine_slot ms = ms" "list_all released ms" "length ms \<le> 1"
    using ms(4) assms(3) by (auto simp: sole_def follows_def length_Suc_conv released_def kind_def wanted_def)
  have s': "js_engine s' = js_engine s1" "js_sent s' = js_sent s @ ms @ ns"
    using other_slots_engine[OF ms(1) _ s12(2)] ns(1) ms(3) by (simp_all add: s12(3) info_quiet)
  have "(js_sent s1 = js_sent ?s) = (ms = [])" using ms(3) by (simp add: ctrl_quiet)
  moreover have "ms \<noteq> [] \<Longrightarrow> length ms = 1" using m(3) by (cases ms) auto
  ultimately show ?thesis using e ms(2) m n s' ok(3) by (intro exI[of _ "ms @ ns"]) (auto simp: ctrl_quiet split: if_splits)
qed

fun engine_turns :: "nat \<Rightarrow> nat \<Rightarrow> nat" where
  "engine_turns 0 k = 0"
| "engine_turns (Suc n) k = (if active_loop 0 k then 1 else 0) + engine_turns n (next_loop k)"

lemma releases:
  "jbus_ok s \<Longrightarrow> sj_active (js_msg s ! 0) \<Longrightarrow> 0 \<le> state_change_counter (js_engine s) \<Longrightarrow>
   list_all (\<lambda>inp. \<forall>c. in_ctrl inp = Some c \<longrightarrow> lo_engine_command_mode c = TSC_OVERRIDE_DISABLED) inps \<Longrightarrow>
   jbus_loop inps s = Some s' \<Longrightarrow>
   \<exists>ms. js_sent s' = js_sent s @ ms \<and> list_all released (filter engine_slot ms) \<and>
     length (filter engine_slot ms) = min (due (js_engine s)) (engine_turns (length inps) (js_loop_number s))"
proof (induction inps arbitrary: s)
  case (Cons inp inps)
  obtain s1 where 1: "jbus_iteration inp s = Some s1" "jbus_loop inps s1 = Some s'" using Cons.prems(5) by auto
  have c: "lo_engine_command_mode (control inp s) = TSC_OVERRIDE_DISABLED"
    using Cons.prems(4) by (auto simp: control_def get_ctrl_var_def inactive_ctrl_def split: option.splits)
  obtain ms where ms: "js_sent s1 = js_sent s @ ms" "0 \<le> state_change_counter (js_engine s1)" "list_all released (filter engine_slot ms)"
    "if active_loop 0 (js_loop_number s)
     then due (js_engine s1) = due (js_engine s) - 1 \<and> length (filter engine_slot ms) = (if due (js_engine s) = 0 then 0 else 1)
     else js_engine s1 = js_engine s \<and> filter engine_slot ms = []"
    using iteration_engine[OF Cons.prems(1,2) c Cons.prems(3) 1(1)] by blast
  have ok: "jbus_ok s1" "js_loop_number s1 = next_loop (js_loop_number s)" "map sj_active (js_msg s1) = map sj_active (js_msg s)"
    using iteration_law[OF Cons.prems(1) 1(1)] by blast+
  have "sj_active (js_msg s1 ! 0)" using ok Cons.prems(1,2)
    by (metis jbus_ok_def nth_map zero_less_numeral)
  then obtain ns where "js_sent s' = js_sent s1 @ ns" "list_all released (filter engine_slot ns)"
    "length (filter engine_slot ns) = min (due (js_engine s1)) (engine_turns (length inps) (next_loop (js_loop_number s)))"
    using Cons.IH[OF ok(1) _ ms(2) _ 1(2)] Cons.prems(4) ok(2) by auto
  then show ?case using ms by (intro exI[of _ "ms @ ns"]) (auto split: if_splits)
qed simp

text \<open>
  When the control variable disables the engine control (or is lost) after having commanded the engine, the program
  sends exactly three messages that release the engine, in the next three turns of the engine's slot,
  and none after that for as long as it stays disabled.
\<close>

theorem jbus_three_releases:
  assumes "jbus_ok s" "sj_active (js_msg s ! 0)" "0 \<le> state_change_counter (js_engine s)"
    and "old_mode (js_engine s) \<noteq> TSC_OVERRIDE_DISABLED"
    and "list_all (\<lambda>inp. \<forall>c. in_ctrl inp = Some c \<longrightarrow> lo_engine_command_mode c = TSC_OVERRIDE_DISABLED) inps"
    and "jbus_loop inps s = Some s'"
  shows "\<exists>ms. js_sent s' = js_sent s @ ms \<and> list_all released (filter engine_slot ms) \<and>
    length (filter engine_slot ms) = min 3 (engine_turns (length inps) (js_loop_number s))"
  using releases[OF assms(1-3,5,6)] assms(4) by (simp add: due_def)

subsection \<open>Before an exit\<close>

lemma exit_law:
  "i + length msg = NUM_JBUS_SEND \<Longrightarrow> length (pd_data (js_pdu s)) = 8 \<Longrightarrow>
   (\<forall>j < length msg. sj_active (msg ! j) \<longrightarrow> sj_slot_number (msg ! j) = 11 + int (i + j)) \<Longrightarrow>
   \<exists>s' ms. send_jbus_exit i msg s = Some s' \<and> js_sent s' = js_sent s @ ms \<and> list_all released ms \<and>
     map (\<lambda>m. snd (snd m)) ms = map sj_slot_number (filter sj_active msg)"
proof (induction msg arbitrary: i s)
  case (Cons pm msg)
  have i: "i < NUM_JBUS_SEND" using Cons.prems(1) by simp
  have rest: "\<forall>j < length msg. sj_active (msg ! j) \<longrightarrow> sj_slot_number (msg ! j) = 11 + int (i + 1 + j)"
  proof (intro allI impI)
    fix j assume "j < length msg" "sj_active (msg ! j)"
    then show "sj_slot_number (msg ! j) = 11 + int (i + 1 + j)" using Cons.prems(3)[rule_format, of "Suc j"] by simp
  qed
  show ?case
  proof (cases "sj_active pm")
    case False
    then show ?thesis using Cons.IH[of "i + 1" s] Cons.prems rest by auto
  next
    case True
    have mode: "exit_kind i \<noteq> SendXbr \<or> XBRControlMode (jc_xbr (exit_cmd i (sj_cmd pm))) = 0"
      "mode_of (exit_kind i) (exit_cmd i (sj_cmd pm)) = 0" "\<And>pdu. sent_mode (kind i) pdu = sent_mode (exit_kind i) pdu"
    proof -
      have "i = 0 \<or> i = 1 \<or> i = 2 \<or> i = 3" using i by linarith
      then show "exit_kind i \<noteq> SendXbr \<or> XBRControlMode (jc_xbr (exit_cmd i (sj_cmd pm))) = 0"
        "mode_of (exit_kind i) (exit_cmd i (sj_cmd pm)) = 0" "\<And>pdu. sent_mode (kind i) pdu = sent_mode (exit_kind i) pdu"
        by (auto simp: exit_kind_def exit_cmd_def mode_of_def sent_mode_def kind_def)
    qed
    obtain cmd1 s1 where 1: "cmd_to_pdu (exit_kind i) (exit_cmd i (sj_cmd pm)) s = Some (cmd1, s1)"
      using pdu_exists[OF mode(1)] by fastforce
    note L = pdu_law[OF 1 Cons.prems(2)]
    let ?m = "(sj_fd pm, js_pdu s1, sj_slot_number pm)"
    have slot: "sj_slot_number pm = 11 + int i" using Cons.prems(3) True by fastforce
    have r: "released ?m" using L mode(2,3) slot i by (simp add: released_def)
    obtain s' ms where "send_jbus_exit (i + 1) msg (s1\<lparr>js_sent := js_sent s1 @ [?m]\<rparr>) = Some s'"
      "js_sent s' = (js_sent s1 @ [?m]) @ ms" "list_all released ms"
      "map (\<lambda>m. snd (snd m)) ms = map sj_slot_number (filter sj_active msg)"
      using Cons.IH[of "i + 1" "s1\<lparr>js_sent := js_sent s1 @ [?m]\<rparr>"] Cons.prems(1) L rest by auto
    then show ?thesis using True 1 r L by (intro exI[of _ s'] exI[of _ "?m # ms"]) simp
  qed
qed simp

text \<open>
  Before it exits, the program sends for every kind of message it is in charge of one message that
  releases the control, in the order of the slots.
\<close>

theorem jbus_exit_releases:
  assumes "jbus_ok s"
  shows "\<exists>s' ms. send_jbus_exit 0 (js_msg s) s = Some s' \<and> js_sent s' = js_sent s @ ms \<and> list_all released ms \<and>
    map (\<lambda>m. snd (snd m)) ms = map sj_slot_number (filter sj_active (js_msg s))"
  using exit_law[of 0 "js_msg s" s] assms by (simp add: jbus_ok_def)

subsection \<open>From the start\<close>

lemma init_slots:
  assumes "send_jbus_init opened active_mask ef bf t msg = Some (n, msg')"
  shows "length msg' = NUM_JBUS_SEND \<and> (\<forall>i < NUM_JBUS_SEND. sj_active (msg' ! i) = bit active_mask i \<and>
    (sj_active (msg' ! i) \<longrightarrow> sj_sender (msg' ! i) = kind i \<and> sj_slot_number (msg' ! i) = 11 + int i))"
proof -
  define ok where "ok = (\<lambda>msg' :: send_jbus list. length msg' = NUM_JBUS_SEND \<and> (\<forall>i < NUM_JBUS_SEND. sj_active (msg' ! i) = bit active_mask i \<and>
    (sj_active (msg' ! i) \<longrightarrow> sj_sender (msg' ! i) = kind i \<and> sj_slot_number (msg' ! i) = 11 + int i)))"
  let ?m = "map (\<lambda>i. init_slot active_mask t i (msg ! i)) [0..<NUM_JBUS_SEND]"
  have "sj_active (init_slot active_mask t i pm) = bit active_mask i \<and>
    (bit active_mask i \<longrightarrow> sj_sender (init_slot active_mask t i pm) = kind i \<and> sj_slot_number (init_slot active_mask t i pm) = 11 + int i)"
    if "i < NUM_JBUS_SEND" for i pm
  proof -
    have "i = 0 \<or> i = 1 \<or> i = 2 \<or> i = 3" using that by linarith
    then show ?thesis by (auto simp: init_slot_def kind_def Let_def)
  qed
  then have m: "ok ?m" by (simp add: ok_def)
  have fd: "ok (set_fd fd j m)" if "ok m" "j < NUM_JBUS_SEND" for fd j m
    using that by (auto simp: ok_def set_fd_def nth_list_update)
  have "ok msg'" using assms m by (auto simp: send_jbus_init_def Let_def fd split: if_splits option.splits)
  then show ?thesis by (simp add: ok_def)
qed

text \<open>A program started with all four kinds of messages on one bus, its first shift still to come.\<close>

definition junk_slot :: send_jbus where
  "junk_slot = \<lparr>sj_active = False, sj_total_sent = 7, sj_slot_number = 7, sj_fd = 7,
     sj_cmd = \<lparr>jc_dbv = 7, jc_tsc1 = \<lparr>tsc1_timestamp = \<lparr>ts_hour = 0, ts_min = 0, ts_sec = 0, ts_millisec = 0\<rparr>, EnOvrdCtrlMPr = 7,
         EnRSpdCtrlC = 7, EnOvrdCtrlM = 7, EnRSpdSpdLm = 7, EnRTrqTrqLm = 7, tsc1_destination_address = 7, tsc1_src_address = 7\<rparr>,
       jc_xbr = \<lparr>xbr_timestamp = \<lparr>ts_hour = 0, ts_min = 0, ts_sec = 0, ts_millisec = 0\<rparr>, ExternalAccelerationDemand = 7,
         xbr_src_address = 7, xbr_destination_address = 7, xbr_pdu_format = 7, XBREBIMode = 7, XBRPriority = 7, XBRControlMode = 7,
         XBRUrgency = 7, spare1 = 7, spare2 = 7, spare3 = 7, XBRMessageCounter = 7, XBRMessageChecksum = 7\<rparr>,
       jc_xbr_warn = \<lparr>xbrw_timestamp = \<lparr>ts_hour = 0, ts_min = 0, ts_sec = 0, ts_millisec = 0\<rparr>, xbrw_src_address = 7,
         xbrw_destination_address = 7, xbrw_pdu_format = 7, xbrw_byte1 = 7, xbrw_byte2 = 7, xbrw_byte3 = 7, xbrw_byte4 = 7,
         xbrw_byte5 = 7, xbrw_byte6 = 7, xbrw_byte7 = 7, xbrw_byte8 = 7\<rparr>,
       jc_last_time = \<lparr>tb_time = 0, tb_millitm = 0\<rparr>, jc_interval = 7, jc_heartbeat = 7, jc_override_limit = 7\<rparr>,
     sj_sender = SendEngine\<rparr>"

definition start0 :: "(int \<times> send_jbus list) option" where
  "start0 = send_jbus_init (\<lambda>f. 3) 15 (Some ''can1'') None \<lparr>tb_time = 0, tb_millitm = 0\<rparr> (replicate 4 junk_slot)"

definition state0 :: "u8 \<Rightarrow> jstate" where
  "state0 mode = \<lparr>js_clock = (\<lambda>n. \<lparr>tb_time = of_nat n, tb_millitm = 0\<rparr>), js_ticks = 0,
     js_engine = \<lparr>old_mode = mode, last_torque = 1, state_change_counter = 0\<rparr>,
     js_retarder = \<lparr>old_mode = 0, last_torque = 1, state_change_counter = 0\<rparr>, js_speed_mode = False,
     js_last_mode_change = \<lparr>tb_time = 0, tb_millitm = 0\<rparr>, stack_time = \<lparr>tb_time = 0, tb_millitm = 0\<rparr>, js_counter = 0,
     js_msg = snd (the start0), js_pdu = \<lparr>pd_priority = 0, pd_R = 0, pd_DP = 0, pd_format = 0, pd_specific = 0, pd_src = 0,
       pd_data = replicate 8 0, pd_numbytes = 0\<rparr>, js_connected = True,
     js_info = \<lparr>percent_engine_torque = 0, accelerator_pedal_position = 0\<rparr>, js_invalid_read = 0, js_loop_number = 1,
     js_sent = [], js_debug = []\<rparr>"

definition lost :: jinput where "lost = \<lparr>in_login = False, in_ctrl = None, in_eec1 = None, in_eec2 = None\<rparr>"

lemma start0_some: "\<exists>msg. start0 = Some (4, msg)"
  by (simp add: start0_def send_jbus_init_def init_slot_def upt_rec Let_def set_fd_def)

lemma state0_ok: "jbus_ok (state0 mode)" "\<forall>i < NUM_JBUS_SEND. sj_active (js_msg (state0 mode) ! i)"
proof -
  obtain msg where "start0 = Some (4, msg)" using start0_some by blast
  note i = init_slots[OF this[unfolded start0_def]] and m = this
  have msg: "js_msg (state0 mode) = msg" by (simp add: state0_def m)
  have pdu: "length (pd_data (js_pdu (state0 mode))) = 8" by (simp add: state0_def)
  have "bit (15 :: int) i" if "i < NUM_JBUS_SEND" for i
  proof -
    have "i = 0 \<or> i = 1 \<or> i = 2 \<or> i = 3" using that by linarith
    then show ?thesis by (elim disjE) simp_all
  qed
  then show "jbus_ok (state0 mode)" "\<forall>i < NUM_JBUS_SEND. sj_active (js_msg (state0 mode) ! i)"
    using i by (simp_all add: jbus_ok_def msg pdu)
qed

theorem jbus_follows_control_witness:
  "\<exists>s'. jbus_iteration lost (state0 0) = Some s' \<and> jbus_ok s' \<and> (js_sent s' = [] \<or>
    (\<exists>i fd pdu. active_loop i 1 \<and> js_sent s' = [(fd, pdu, 11 + int i)] \<and> sent_mode (kind i) pdu = 0))"
proof -
  have "unreadable lost" by (simp add: unreadable_def lost_def)
  note c = unreadable_control[OF this, of "state0 0"]
  obtain s' where 1: "jbus_iteration lost (state0 0) = Some s'"
    using iteration_exists[OF state0_ok(1), of lost 0] c by (auto simp: inactive_ctrl_def)
  have e: "js_sent (state0 0) = []" "js_loop_number (state0 0) = 1" by (simp_all add: state0_def)
  have w: "fst (get_ctrl_var lost (state0 0)) = inactive_ctrl" using c by (simp add: control_def)
  show ?thesis using jbus_follows_control[OF state0_ok(1) 1] 1 unfolding e w by (intro exI[of _ s']) auto
qed

theorem jbus_fail_safe_witness:
  "\<exists>s' ms. jbus_loop (replicate 40 lost) (state0 2) = Some s' \<and> js_sent s' = js_sent (state0 2) @ ms \<and> list_all released ms"
  by (rule jbus_fail_safe[OF state0_ok(1)]) (simp add: list_all_iff lost_def)

lemma turns20: "engine_turns 20 (Suc 0) = 5"
  by code_simp

theorem jbus_three_releases_witness:
  "\<exists>s' ms. jbus_loop (replicate 20 lost) (state0 2) = Some s' \<and> js_sent s' = ms \<and> length (filter engine_slot ms) = 3"
proof -
  have l: "list_all (\<lambda>inp. in_ctrl inp = None) (replicate 20 lost)"
    "list_all (\<lambda>inp. \<forall>c. in_ctrl inp = Some c \<longrightarrow> lo_engine_command_mode c = 0) (replicate 20 lost)"
    by (simp_all add: list_all_iff lost_def)
  obtain s' where s': "jbus_loop (replicate 20 lost) (state0 2) = Some s'"
    using unreadable_loop[OF state0_ok(1) l(1)] by blast
  have a: "sj_active (js_msg (state0 2) ! 0)" "0 \<le> state_change_counter (js_engine (state0 2))"
    "old_mode (js_engine (state0 2)) \<noteq> 0" "js_loop_number (state0 2) = 1" "js_sent (state0 2) = []"
    using state0_ok(2)[of 2] by (simp_all add: state0_def)
  show ?thesis using jbus_three_releases[OF state0_ok(1) a(1-3) l(2) s'] s' by (auto simp: a(4,5) turns20)
qed

theorem jbus_exit_releases_witness:
  "\<exists>s' ms. send_jbus_exit 0 (js_msg (state0 2)) (state0 2) = Some s' \<and> js_sent s' = js_sent (state0 2) @ ms \<and>
    list_all released ms \<and> map (\<lambda>m. snd (snd m)) ms = map sj_slot_number (filter sj_active (js_msg (state0 2)))"
  by (rule jbus_exit_releases[OF state0_ok(1)])

end
