(* ===== verification/LongTypes.thy ===== *)
theory LongTypes
  imports JbusProps
begin

text \<open>
  The data of the longitudinal control program (truckcontrol/long_ctl/src): the state of the vehicle as it is read
  from the data server (common/long_ctl.h), the packets between the trucks (vehcomm/long_comm.h) and the structures
  of the controller (xyl/veh_long.h, xyl/coording.h).  Of the bigger structures the fields are here that the program
  in the repository uses; fields that only the controller library (a binary) uses belong to the state of the library.
  One-bit fields are words of one bit: an assignment keeps the lowest bit of the value.
\<close>

type_synonym u1 = "1 word"

text \<open>The switches of C.\<close>

abbreviation (input) OFF :: int where "OFF \<equiv> 0"
abbreviation (input) ON :: int where "ON \<equiv> 1"
abbreviation (input) TSC_HIGHEST :: u8 where "TSC_HIGHEST \<equiv> 0"
abbreviation (input) TSC_HIGH :: u8 where "TSC_HIGH \<equiv> 1"
abbreviation (input) TSC_MEDIUM :: u8 where "TSC_MEDIUM \<equiv> 2"
abbreviation (input) TSC_LOW :: u8 where "TSC_LOW \<equiv> 3"
abbreviation (input) TSC_TORQUE_CONTROL :: u8 where "TSC_TORQUE_CONTROL \<equiv> 2"
abbreviation (input) XBR_ACTIVE :: u8 where "XBR_ACTIVE \<equiv> 2"

subsection \<open>Packets between the trucks\<close>

text \<open>The eight identifiers are bytes (some are named \<open>ushort\<close>); \<open>sequence_no\<close> is the value of a signed byte.\<close>

record veh_comm_packet = pk_node :: int
  pk_rcv_ts :: timestamp
  pk_ts :: timestamp
  pk_global_time :: cfloat
  pk_user_float :: cfloat
  pk_user_float1 :: cfloat
  pk_user_ushort_1 :: u8
  pk_user_ushort_2 :: u8
  pk_my_pip :: u8
  pk_maneuver_id :: u8
  pk_fault_mode :: u8
  pk_maneuver_des_1 :: u8
  pk_maneuver_des_2 :: u8
  pk_pltn_size :: u8
  pk_sequence_no :: int
  pk_user_bit_1 :: u1
  pk_user_bit_2 :: u1
  pk_user_bit_3 :: u1
  pk_user_bit_4 :: u1
  pk_acc_traj :: cfloat
  pk_vel_traj :: cfloat
  pk_velocity :: cfloat
  pk_accel :: cfloat
  pk_range :: cfloat
  pk_rate :: cfloat
  pk_longitude :: cfloat
  pk_latitude :: cfloat
  pk_heading :: cfloat
  pk_object_id :: "u8 list"

subsection \<open>The state of the vehicle\<close>

text \<open>\<open>long_vehicle_state\<close>; the two gears are values of signed bytes.\<close>

record vehicle_state = vs_acc_pedal_voltage :: cfloat
  vs_EEC1_EngineSpeed :: cfloat
  vs_EEC1_DrvrDemandEngPercentTorque :: cfloat
  vs_EEC1_ActualEnginePercentTorque :: cfloat
  vs_EEC1_EngDemandPercentTorque :: cfloat
  vs_EEC1_EngineTorqueMode :: int
  vs_accelerator_pedal_position :: cfloat
  vs_EEC2_AccelPedalPos1 :: cfloat
  vs_EEC2_AccelPedalPos2 :: cfloat
  vs_EEC2_ActMaxAvailEngPercentTorque :: int
  vs_EEC2_EnginePercentLoadAtCurrentSpd :: cfloat
  vs_EEC2_RoadSpeedLimitStatus :: int
  vs_EEC3_NominalFrictionPercentTorque :: cfloat
  vs_EEC3_EngsDesiredOperatingSpeed :: cfloat
  vs_EBC1_BrakePedalPosition :: cfloat
  vs_EBSBrakeSwitch :: int
  vs_ABSEBSAmberWarningSignal :: int
  vs_EBC1_ABSFullyOperational :: int
  vs_EBC1_AntiLockBrakingActive :: int
  vs_EBC1_ASRBrakeControlActive :: int
  vs_EBC1_ASREngineControlActive :: int
  vs_EBC1_EBSRedWarningSignal :: int
  vs_EBC1_EngRetarderSelection :: cfloat
  vs_EBC2_FrontAxleSpeed :: cfloat
  vs_EBC2_RelativeSpeedFrontAxleLeftWheel :: cfloat
  vs_EBC2_RlativeSpeedFrontAxleRightWheel :: cfloat
  vs_EBC2_RelativeSpeedRearAxle1LeftWheel :: cfloat
  vs_EBC2_RlativeSpeedRearAxle1RightWheel :: cfloat
  vs_EBC2_RlativeSpeedRearAxle2RightWheel :: cfloat
  vs_EBC5_FoundationBrakeUse :: u8
  vs_EBC5_HaltBrakeMode :: u8
  vs_EBC5_XBRAccelerationLimit :: u8
  vs_EBC5_XBRActiveControlMode :: u8
  vs_VBRK_BrkAppPressure :: cfloat
  vs_VBRK_BrkPrimaryPressure :: cfloat
  vs_VBRK_BrkSecondaryPressure :: cfloat
  vs_VBRK_BrkStatParkBrkActuator :: u8
  vs_VBRK_ParkBrkRedWarningSignal :: u8
  vs_VBRK_ParkBrkReleaseInhibitStat :: u8
  vs_CCVS_ParkingBrakeSwitch :: u8
  vs_CCVS_TwoSpeedAxleSwitch :: u8
  vs_CCVS_VehicleSpeed :: cfloat
  vs_CCVS_ParkBrakeReleaseInhibitRq :: u8
  vs_CCVS_ClutchSwitch :: u8
  vs_CCVS_BrakeSwitch :: u8
  vs_CCVS_CruiseCtrlPauseSwitch :: u8
  vs_CCVS_CruiseControlEnableSwitch :: u8
  vs_CCVS_CruiseControlActive :: u8
  vs_CCVS_CruiseControlAccelerateSwitch :: u8
  vs_CCVS_CruiseControlResumeSwitch :: u8
  vs_CCVS_CruiseControlCoastSwitch :: u8
  vs_CCVS_CruiseControlSetSwitch :: u8
  vs_CCVS_CruiseControlSetSpeed :: cfloat
  vs_CCVS_CruiseControlState :: u8
  vs_CCVS_PtoState :: u8
  vs_CCVS_EngShutdownOverrideSwitch :: u8
  vs_CCVS_EngTestModeSwitch :: u8
  vs_CCVS_EngIdleDecrementSwitch :: u8
  vs_CCVS_EngIdleIncrementSwitch :: u8
  vs_ETC1_TransmissionDrivelineEngaged :: u8
  vs_ETC1_TorqueConverterLockupEngaged :: u8
  vs_ETC1_TransmissionShiftInProcess :: u8
  vs_ETC1_TransmissionOutputShaftSpeed :: cfloat
  vs_ETC1_PercentClutchSlip :: cfloat
  vs_ETC1_MomentaryEngineOverspeedEnable :: u8
  vs_ETC1_ProgressiveShiftDisable :: u8
  vs_ETC1_TransInputShaftSpeed :: cfloat
  vs_ETC2_TransmissionSelectedGear :: int
  vs_ETC2_TransmissionActualGearRatio :: cfloat
  vs_ETC2_TransmissionCurrentGear :: int
  vs_ETC2_TransmissionRangeSelected :: int
  vs_ETC2_TransmissionRangeAttained :: int
  vs_LFE_EngineFuelRate :: cfloat
  vs_LFE_EngineInstantaneousFuelEconomy :: cfloat
  vs_LFE_EngineAverageFuelEconomy :: cfloat
  vs_LFE_EngineThrottleValve1Position :: cfloat
  vs_ERC1ERRetarderEnableShiftAssistSw :: u8
  vs_ERC1ERRtdrEnablBrakeAssistSwitch :: u8
  vs_ERC1ERRetarderTorqueMode :: u8
  vs_ERC1ERActualEngineRetPercentTrq :: cfloat
  vs_ERC1ERIntendedRtdrPercentTorque :: cfloat
  vs_ERC1ERRetarderRqingBrakeLight :: u8
  vs_ERC1ERDrvrsDmandRtdrPerctTorque :: int
  vs_ERC1ERRetarderSelectionNonEng :: int
  vs_ERC1ERActlMxAvlbRtdrtPerctTorque :: int
  vs_VDC2_SteeringWheelAngle :: cfloat
  vs_VDC2_YawRate :: cfloat
  vs_VDC2_LongitudinalAcceleration :: cfloat
  vs_VDC2_LateralAcceleration :: cfloat
  vs_VP_X_TGW_Latitude_BB1_X_TGW :: cfloat
  vs_VP_X_TGW_Longitude_BB1_X_TGW :: cfloat
  vs_VP15_RoadInclinationVP15 :: cfloat
  vs_VP15_VehicleWeightVP15 :: cfloat
  vs_Volvo_TargetDist :: cfloat
  vs_Volvo_TargetVel :: cfloat
  vs_Volvo_TargetAcc :: cfloat
  vs_Volvo_TargetAvailable :: cfloat
  vs_Volvo_EgoVel :: cfloat
  vs_Volvo_EgoAcc :: cfloat
  vs_boost_pressure :: cfloat
  vs_acc_cacc_request :: u8
  vs_gap_request :: u8
  vs_lead_trk :: veh_comm_packet
  vs_second_trk :: veh_comm_packet
  vs_third_trk :: veh_comm_packet

subsection \<open>The structures of the controller\<close>

record switches = sw_brake_sw :: u1
  sw_park_brk_sw :: u1
  sw_two_spd_axle_sw :: u1
  sw_park_brk_release :: u1
  sw_clutch_sw :: u1
  sw_brk_sw :: u1
  sw_CC_pause_sw :: u1
  sw_CC_enable_sw :: u1
  sw_CC_active :: u1
  sw_CC_acel_sw :: u1
  sw_CC_resume_sw :: u1
  sw_CC_coast_sw :: u1
  sw_CC_set_sw :: u1
  sw_CC_state :: u1
  sw_Pto_state :: u1
  sw_eng_shutdwn_override_sw :: u1
  sw_eng_test_mode_sw :: u1
  sw_eng_idle_decre_sw :: u1
  sw_end_idle_incre_sw :: u1
  sw_driveline_enaged :: u1
  sw_lockup :: u1
  sw_gshift_sw :: u1
  sw_eng_overspeed_enbale :: u1
  sw_progressive_shift_disable :: u1
  sw_jk_enable_shift_assist_sw :: u1
  sw_jk_enable_brake_assist_sw :: u1
  sw_jk_mode :: u1
  sw_jk_require_brk_light :: u1
  sw_foundation_brk_use :: u1
  sw_halt_brk_mode :: u1
  sw_XBR_accel_limit :: u1
  sw_XBR_active_contr_mode :: u1

record jbus_read = jb_we :: cfloat
  jb_w_p :: cfloat
  jb_w_t :: cfloat
  jb_eng_mode :: int
  jb_driver_dmd_percent_tq :: cfloat
  jb_actual_eng_tq :: cfloat
  jb_eng_tq :: cfloat
  jb_eng_dmd_percent_tq :: cfloat
  jb_eng_tq_mode :: int
  jb_bp :: cfloat
  jb_brk_pedal_pos :: cfloat
  jb_brk_demand :: cfloat
  jb_ebs_brake_switch :: int
  jb_accel_pedal_volt :: cfloat
  jb_accel_pedal_pos :: cfloat
  jb_accel_pedal_pos1 :: cfloat
  jb_accel_pedal_pos2 :: cfloat
  jb_actual_max_eng_percent_tq :: int
  jb_percent_load_at_current_spd :: cfloat
  jb_road_v_limit_status :: int
  jb_nominal_fric_percent_tq :: cfloat
  jb_eng_des_Op_v :: cfloat
  jb_EBS_sw :: int
  jb_ABS_amber_warning :: int
  jb_ABS_Operation :: int
  jb_anti_lock_active :: int
  jb_ASR_brk_contr_active :: int
  jb_ASR_eng_contr_active :: int
  jb_EBS_red_warning :: int
  jb_jk_selection :: cfloat
  jb_front_axle_spd :: cfloat
  jb_v :: cfloat
  jb_fl_axle_diff :: cfloat
  jb_fr_axle_diff :: cfloat
  jb_rl_axle_diff :: cfloat
  jb_rr_axle_diff :: cfloat
  jb_rl_axle2_diff :: cfloat
  jb_rr_axle2_diff :: cfloat
  jb_CC_set_v :: cfloat
  jb_trans_out_we :: cfloat
  jb_trans_in_we :: cfloat
  jb_percent_clutch_slip :: cfloat
  jb_selected_gear :: int
  jb_actual_gear_ratio :: cfloat
  jb_gear :: cfloat
  jb_trans_range_selected :: int
  jb_trans_range_attained :: int
  jb_gear_flt :: cfloat
  jb_fuel_m :: cfloat
  jb_instant_fuel_economy :: cfloat
  jb_mean_fuel_economy :: cfloat
  jb_throttle_valve_pos :: cfloat
  jb_jk_des_percent_tq :: cfloat
  jb_jk_actual_percent_tq :: cfloat
  jb_jk_driver_dmd_percent_tq :: int
  jb_jk_selection_Non_Eng :: int
  jb_jk_max_percent_tq :: cfloat
  jb_pm :: cfloat
  jb_lat_accel :: cfloat
  jb_long_accel :: cfloat
  jb_steer_angle :: cfloat
  jb_yaw_rt :: cfloat
  jb_VP_lat :: cfloat
  jb_VP_long :: cfloat
  jb_brk_pres :: cfloat
  jb_brk_prm_pres :: cfloat
  jb_brk_2nd_pres :: cfloat
  jb_park_brk_status :: int
  jb_park_brk_red_signal :: int
  jb_park_brk_release_status :: int
  jb_grade :: cfloat

record sens_read = se_ego_a :: cfloat
  se_ego_v :: cfloat
  se_target_avail :: int
  se_target_a :: cfloat
  se_target_v :: cfloat
  se_target_d :: cfloat
  se_target_d_raw :: cfloat

record fault_index = fi_comm_coord :: u1
  fi_comm :: u1
  fi_J_bus_1 :: u1
  fi_J_bus_2 :: u1
  fi_radar :: u1
  fi_lidar :: u1
  fi_mdl :: u1
  fi_mag_meter :: u1
  fi_gps :: u1
  fi_torq :: u1
  fi_brk :: u1
  fi_jake :: u1
  fi_trans_rtdr :: u1
  fi_spd :: u1
  fi_wh_spd_1 :: u1
  fi_wh_spd_2 :: u1
  fi_wh_spd_3 :: u1
  fi_wh_spd_4 :: u1
  fi_we :: u1
  fi_we1 :: u1
  fi_pm :: u1
  fi_fuel :: u1
  fi_pitch :: u1
  fi_acc :: u1
  fi_yaw :: u1
  fi_HMI :: u1
  fi_sw :: u1

record control_config = cc_max_spd :: cfloat
  cc_max_dcc :: cfloat
  cc_pltn_size :: int
  cc_MyPltnPos :: int
  cc_static_run :: int
  cc_truck_platoon :: int
  cc_truck_CACC :: int
  cc_truck_ACC :: int
  cc_ACC_tGap :: cfloat
  cc_CACC_tGap :: cfloat
  cc_use_comm :: int
  cc_handle_faults :: int

record control_state = cs_comm_coord :: u16
  cs_des_f_dist :: cfloat
  cs_max_spd :: cfloat
  cs_spd :: cfloat
  cs_acc :: cfloat
  cs_fuel_rt :: cfloat
  cs_auto_acc :: cfloat
  cs_auto_speed :: cfloat
  cs_auto_throt :: cfloat
  cs_auto_spd_cmd :: cfloat
  cs_auto_tq_cmd :: cfloat
  cs_auto_brk :: cfloat
  cs_auto_rtd :: cfloat
  cs_auto_jake2 :: cfloat
  cs_auto_jake4 :: cfloat
  cs_auto_jake6 :: cfloat
  cs_lead_v :: cfloat
  cs_lead_a :: cfloat
  cs_pre_v :: cfloat
  cs_pre_a :: cfloat
  cs_ref_v :: cfloat
  cs_pltn_vel :: cfloat
  cs_pltn_acc :: cfloat
  cs_pltn_dcc :: cfloat
  cs_tg :: cfloat
  cs_ACC_tGap :: cfloat
  cs_CACC_tGap :: cfloat
  cs_max_tq_we :: cfloat
  cs_max_jk_we :: cfloat
  cs_wt_factor :: cfloat

record con_output = co_y1 :: cfloat
  co_y12 :: cfloat
  co_con_sw_1 :: int
  co_con_sw_3 :: int
  co_con_sw_5 :: int

record vehicle_info = vi_comm_p :: "int list"
  vi_ready :: int
  vi_fault_mode :: int
  vi_veh_id :: int
  vi_cut_in :: int
  vi_cut_out :: int
  vi_cut_in_t :: cfloat
  vi_run_dist :: cfloat
  vi_weight :: cfloat

record pltn_info = pi_pltn_size :: int
  pi_handshake :: int

record manager_cmd = mc_auto_contr :: int
  mc_man_des :: int
  mc_f_manage_index :: int
  mc_drive_mode :: int
  mc_trans_mode :: int
  mc_control_mode :: int
  mc_set_v :: cfloat

subsection \<open>Cleared structures\<close>

text \<open>As \<open>memset\<close> leaves them, and static variables at the start.\<close>

definition zero_packet :: veh_comm_packet where
  "zero_packet = \<lparr>
     pk_node = 0, pk_rcv_ts = zero_timestamp, pk_ts = zero_timestamp, pk_global_time = 0, pk_user_float = 0,
     pk_user_float1 = 0, pk_user_ushort_1 = 0, pk_user_ushort_2 = 0, pk_my_pip = 0, pk_maneuver_id = 0,
     pk_fault_mode = 0, pk_maneuver_des_1 = 0, pk_maneuver_des_2 = 0, pk_pltn_size = 0, pk_sequence_no = 0,
     pk_user_bit_1 = 0, pk_user_bit_2 = 0, pk_user_bit_3 = 0, pk_user_bit_4 = 0, pk_acc_traj = 0, pk_vel_traj = 0,
     pk_velocity = 0, pk_accel = 0, pk_range = 0, pk_rate = 0, pk_longitude = 0, pk_latitude = 0, pk_heading = 0,
     pk_object_id = replicate 7 0\<rparr>"

definition zero_vehicle_state :: vehicle_state where
  "zero_vehicle_state = \<lparr>
     vs_acc_pedal_voltage = 0, vs_EEC1_EngineSpeed = 0, vs_EEC1_DrvrDemandEngPercentTorque = 0,
     vs_EEC1_ActualEnginePercentTorque = 0, vs_EEC1_EngDemandPercentTorque = 0, vs_EEC1_EngineTorqueMode = 0,
     vs_accelerator_pedal_position = 0, vs_EEC2_AccelPedalPos1 = 0, vs_EEC2_AccelPedalPos2 = 0,
     vs_EEC2_ActMaxAvailEngPercentTorque = 0, vs_EEC2_EnginePercentLoadAtCurrentSpd = 0,
     vs_EEC2_RoadSpeedLimitStatus = 0, vs_EEC3_NominalFrictionPercentTorque = 0,
     vs_EEC3_EngsDesiredOperatingSpeed = 0, vs_EBC1_BrakePedalPosition = 0, vs_EBSBrakeSwitch = 0,
     vs_ABSEBSAmberWarningSignal = 0, vs_EBC1_ABSFullyOperational = 0, vs_EBC1_AntiLockBrakingActive = 0,
     vs_EBC1_ASRBrakeControlActive = 0, vs_EBC1_ASREngineControlActive = 0, vs_EBC1_EBSRedWarningSignal = 0,
     vs_EBC1_EngRetarderSelection = 0, vs_EBC2_FrontAxleSpeed = 0, vs_EBC2_RelativeSpeedFrontAxleLeftWheel = 0,
     vs_EBC2_RlativeSpeedFrontAxleRightWheel = 0, vs_EBC2_RelativeSpeedRearAxle1LeftWheel = 0,
     vs_EBC2_RlativeSpeedRearAxle1RightWheel = 0, vs_EBC2_RlativeSpeedRearAxle2RightWheel = 0,
     vs_EBC5_FoundationBrakeUse = 0, vs_EBC5_HaltBrakeMode = 0, vs_EBC5_XBRAccelerationLimit = 0,
     vs_EBC5_XBRActiveControlMode = 0, vs_VBRK_BrkAppPressure = 0, vs_VBRK_BrkPrimaryPressure = 0,
     vs_VBRK_BrkSecondaryPressure = 0, vs_VBRK_BrkStatParkBrkActuator = 0, vs_VBRK_ParkBrkRedWarningSignal = 0,
     vs_VBRK_ParkBrkReleaseInhibitStat = 0, vs_CCVS_ParkingBrakeSwitch = 0, vs_CCVS_TwoSpeedAxleSwitch = 0,
     vs_CCVS_VehicleSpeed = 0, vs_CCVS_ParkBrakeReleaseInhibitRq = 0, vs_CCVS_ClutchSwitch = 0,
     vs_CCVS_BrakeSwitch = 0, vs_CCVS_CruiseCtrlPauseSwitch = 0, vs_CCVS_CruiseControlEnableSwitch = 0,
     vs_CCVS_CruiseControlActive = 0, vs_CCVS_CruiseControlAccelerateSwitch = 0,
     vs_CCVS_CruiseControlResumeSwitch = 0, vs_CCVS_CruiseControlCoastSwitch = 0, vs_CCVS_CruiseControlSetSwitch = 0,
     vs_CCVS_CruiseControlSetSpeed = 0, vs_CCVS_CruiseControlState = 0, vs_CCVS_PtoState = 0,
     vs_CCVS_EngShutdownOverrideSwitch = 0, vs_CCVS_EngTestModeSwitch = 0, vs_CCVS_EngIdleDecrementSwitch = 0,
     vs_CCVS_EngIdleIncrementSwitch = 0, vs_ETC1_TransmissionDrivelineEngaged = 0,
     vs_ETC1_TorqueConverterLockupEngaged = 0, vs_ETC1_TransmissionShiftInProcess = 0,
     vs_ETC1_TransmissionOutputShaftSpeed = 0, vs_ETC1_PercentClutchSlip = 0,
     vs_ETC1_MomentaryEngineOverspeedEnable = 0, vs_ETC1_ProgressiveShiftDisable = 0,
     vs_ETC1_TransInputShaftSpeed = 0, vs_ETC2_TransmissionSelectedGear = 0, vs_ETC2_TransmissionActualGearRatio = 0,
     vs_ETC2_TransmissionCurrentGear = 0, vs_ETC2_TransmissionRangeSelected = 0,
     vs_ETC2_TransmissionRangeAttained = 0, vs_LFE_EngineFuelRate = 0, vs_LFE_EngineInstantaneousFuelEconomy = 0,
     vs_LFE_EngineAverageFuelEconomy = 0, vs_LFE_EngineThrottleValve1Position = 0,
     vs_ERC1ERRetarderEnableShiftAssistSw = 0, vs_ERC1ERRtdrEnablBrakeAssistSwitch = 0,
     vs_ERC1ERRetarderTorqueMode = 0, vs_ERC1ERActualEngineRetPercentTrq = 0, vs_ERC1ERIntendedRtdrPercentTorque = 0,
     vs_ERC1ERRetarderRqingBrakeLight = 0, vs_ERC1ERDrvrsDmandRtdrPerctTorque = 0,
     vs_ERC1ERRetarderSelectionNonEng = 0, vs_ERC1ERActlMxAvlbRtdrtPerctTorque = 0, vs_VDC2_SteeringWheelAngle = 0,
     vs_VDC2_YawRate = 0, vs_VDC2_LongitudinalAcceleration = 0, vs_VDC2_LateralAcceleration = 0,
     vs_VP_X_TGW_Latitude_BB1_X_TGW = 0, vs_VP_X_TGW_Longitude_BB1_X_TGW = 0, vs_VP15_RoadInclinationVP15 = 0,
     vs_VP15_VehicleWeightVP15 = 0, vs_Volvo_TargetDist = 0, vs_Volvo_TargetVel = 0, vs_Volvo_TargetAcc = 0,
     vs_Volvo_TargetAvailable = 0, vs_Volvo_EgoVel = 0, vs_Volvo_EgoAcc = 0, vs_boost_pressure = 0,
     vs_acc_cacc_request = 0, vs_gap_request = 0, vs_lead_trk = zero_packet, vs_second_trk = zero_packet,
     vs_third_trk = zero_packet\<rparr>"

definition zero_switches :: switches where
  "zero_switches = \<lparr>
     sw_brake_sw = 0, sw_park_brk_sw = 0, sw_two_spd_axle_sw = 0, sw_park_brk_release = 0, sw_clutch_sw = 0,
     sw_brk_sw = 0, sw_CC_pause_sw = 0, sw_CC_enable_sw = 0, sw_CC_active = 0, sw_CC_acel_sw = 0,
     sw_CC_resume_sw = 0, sw_CC_coast_sw = 0, sw_CC_set_sw = 0, sw_CC_state = 0, sw_Pto_state = 0,
     sw_eng_shutdwn_override_sw = 0, sw_eng_test_mode_sw = 0, sw_eng_idle_decre_sw = 0, sw_end_idle_incre_sw = 0,
     sw_driveline_enaged = 0, sw_lockup = 0, sw_gshift_sw = 0, sw_eng_overspeed_enbale = 0,
     sw_progressive_shift_disable = 0, sw_jk_enable_shift_assist_sw = 0, sw_jk_enable_brake_assist_sw = 0,
     sw_jk_mode = 0, sw_jk_require_brk_light = 0, sw_foundation_brk_use = 0, sw_halt_brk_mode = 0,
     sw_XBR_accel_limit = 0, sw_XBR_active_contr_mode = 0\<rparr>"

definition zero_jbus_read :: jbus_read where
  "zero_jbus_read = \<lparr>
     jb_we = 0, jb_w_p = 0, jb_w_t = 0, jb_eng_mode = 0, jb_driver_dmd_percent_tq = 0, jb_actual_eng_tq = 0,
     jb_eng_tq = 0, jb_eng_dmd_percent_tq = 0, jb_eng_tq_mode = 0, jb_bp = 0, jb_brk_pedal_pos = 0,
     jb_brk_demand = 0, jb_ebs_brake_switch = 0, jb_accel_pedal_volt = 0, jb_accel_pedal_pos = 0,
     jb_accel_pedal_pos1 = 0, jb_accel_pedal_pos2 = 0, jb_actual_max_eng_percent_tq = 0,
     jb_percent_load_at_current_spd = 0, jb_road_v_limit_status = 0, jb_nominal_fric_percent_tq = 0,
     jb_eng_des_Op_v = 0, jb_EBS_sw = 0, jb_ABS_amber_warning = 0, jb_ABS_Operation = 0, jb_anti_lock_active = 0,
     jb_ASR_brk_contr_active = 0, jb_ASR_eng_contr_active = 0, jb_EBS_red_warning = 0, jb_jk_selection = 0,
     jb_front_axle_spd = 0, jb_v = 0, jb_fl_axle_diff = 0, jb_fr_axle_diff = 0, jb_rl_axle_diff = 0,
     jb_rr_axle_diff = 0, jb_rl_axle2_diff = 0, jb_rr_axle2_diff = 0, jb_CC_set_v = 0, jb_trans_out_we = 0,
     jb_trans_in_we = 0, jb_percent_clutch_slip = 0, jb_selected_gear = 0, jb_actual_gear_ratio = 0, jb_gear = 0,
     jb_trans_range_selected = 0, jb_trans_range_attained = 0, jb_gear_flt = 0, jb_fuel_m = 0,
     jb_instant_fuel_economy = 0, jb_mean_fuel_economy = 0, jb_throttle_valve_pos = 0, jb_jk_des_percent_tq = 0,
     jb_jk_actual_percent_tq = 0, jb_jk_driver_dmd_percent_tq = 0, jb_jk_selection_Non_Eng = 0,
     jb_jk_max_percent_tq = 0, jb_pm = 0, jb_lat_accel = 0, jb_long_accel = 0, jb_steer_angle = 0, jb_yaw_rt = 0,
     jb_VP_lat = 0, jb_VP_long = 0, jb_brk_pres = 0, jb_brk_prm_pres = 0, jb_brk_2nd_pres = 0,
     jb_park_brk_status = 0, jb_park_brk_red_signal = 0, jb_park_brk_release_status = 0, jb_grade = 0\<rparr>"

definition zero_sens_read :: sens_read where
  "zero_sens_read = \<lparr>
     se_ego_a = 0, se_ego_v = 0, se_target_avail = 0, se_target_a = 0, se_target_v = 0, se_target_d = 0,
     se_target_d_raw = 0\<rparr>"

definition zero_fault_index :: fault_index where
  "zero_fault_index = \<lparr>
     fi_comm_coord = 0, fi_comm = 0, fi_J_bus_1 = 0, fi_J_bus_2 = 0, fi_radar = 0, fi_lidar = 0, fi_mdl = 0,
     fi_mag_meter = 0, fi_gps = 0, fi_torq = 0, fi_brk = 0, fi_jake = 0, fi_trans_rtdr = 0, fi_spd = 0,
     fi_wh_spd_1 = 0, fi_wh_spd_2 = 0, fi_wh_spd_3 = 0, fi_wh_spd_4 = 0, fi_we = 0, fi_we1 = 0, fi_pm = 0,
     fi_fuel = 0, fi_pitch = 0, fi_acc = 0, fi_yaw = 0, fi_HMI = 0, fi_sw = 0\<rparr>"

definition zero_control_state :: control_state where
  "zero_control_state = \<lparr>
     cs_comm_coord = 0, cs_des_f_dist = 0, cs_max_spd = 0, cs_spd = 0, cs_acc = 0, cs_fuel_rt = 0, cs_auto_acc = 0,
     cs_auto_speed = 0, cs_auto_throt = 0, cs_auto_spd_cmd = 0, cs_auto_tq_cmd = 0, cs_auto_brk = 0, cs_auto_rtd = 0,
     cs_auto_jake2 = 0, cs_auto_jake4 = 0, cs_auto_jake6 = 0, cs_lead_v = 0, cs_lead_a = 0, cs_pre_v = 0,
     cs_pre_a = 0, cs_ref_v = 0, cs_pltn_vel = 0, cs_pltn_acc = 0, cs_pltn_dcc = 0, cs_tg = 0, cs_ACC_tGap = 0,
     cs_CACC_tGap = 0, cs_max_tq_we = 0, cs_max_jk_we = 0, cs_wt_factor = 0\<rparr>"

definition zero_con_output :: con_output where
  "zero_con_output = \<lparr>
     co_y1 = 0, co_y12 = 0, co_con_sw_1 = 0, co_con_sw_3 = 0, co_con_sw_5 = 0\<rparr>"

definition zero_vehicle_info :: vehicle_info where
  "zero_vehicle_info = \<lparr>
     vi_comm_p = [0, 0, 0], vi_ready = 0, vi_fault_mode = 0, vi_veh_id = 0, vi_cut_in = 0, vi_cut_out = 0,
     vi_cut_in_t = 0, vi_run_dist = 0, vi_weight = 0\<rparr>"

definition zero_pltn_info :: pltn_info where
  "zero_pltn_info = \<lparr>
     pi_pltn_size = 0, pi_handshake = 0\<rparr>"

definition zero_manager_cmd :: manager_cmd where
  "zero_manager_cmd = \<lparr>
     mc_auto_contr = 0, mc_man_des = 0, mc_f_manage_index = 0, mc_drive_mode = 0, mc_trans_mode = 0,
     mc_control_mode = 0, mc_set_v = 0\<rparr>"

end
