(* ===== verification/CaccComm.thy ===== *)
theory CaccComm
  imports LongTypes
begin

text \<open>
  \<open>cacc_comm\<close> of truckcontrol/long_ctl/src/xyl/long_trk_func.c: once in a control cycle it looks at the last packet of
  every truck of the platoon, decides which links work, takes the time of the platoon from the leader and the speeds of
  the truck ahead and of the leader.  Arrays are functions of the index; an index outside of an array (\<open>comm_p\<close>
  has three entries, \<open>comm_receive_pt\<close> 1028) is a fault of the program, \<open>None\<close>.  The counters of
  \<open>int\<close> are taken as unbounded: at 50 cycles a second they reach \<open>2 ^ 31\<close> after sixteen months.
  \<open>FOR_PLATOONING\<close> is not defined by the build.
\<close>

subsection \<open>State\<close>

text \<open>The static variables; \<open>N_veh_comm\<close> and \<open>first_time\<close> are not used.\<close>

record cacc_static = ks_comm_counter :: "int \<Rightarrow> int"
  ks_comm_f_counter :: "int \<Rightarrow> int"
  ks_comm_time_old :: "int \<Rightarrow> cfloat"
  ks_handshake_start_arr :: "int \<Rightarrow> int"
  ks_g_t_init_count :: int
  ks_synchrn_sw :: int
  ks_global_t_sw :: int

definition cacc_static0 :: cacc_static where
  "cacc_static0 = \<lparr>ks_comm_counter = (\<lambda>_. 0), ks_comm_f_counter = (\<lambda>_. 0), ks_comm_time_old = (\<lambda>_. 0),
     ks_handshake_start_arr = (\<lambda>_. 0), ks_g_t_init_count = 0, ks_synchrn_sw = 1, ks_global_t_sw = OFF\<rparr>"

text \<open>What the function works on; \<open>comm_reply\<close> is the only field of \<open>comm_info_typ\<close> in use.\<close>

record cacc = kc_static :: cacc_static
  kc_global_time :: cfloat
  kc_con :: control_state
  kc_veh :: vehicle_info
  kc_comm_reply :: u16
  kc_fault :: fault_index
  kc_pltn :: pltn_info

abbreviation (input) COMM_ERR_BOUND :: int where "COMM_ERR_BOUND \<equiv> 20"
abbreviation (input) MAX_TRUCK :: int where "MAX_TRUCK \<equiv> 1028"

type_synonym packets = "int \<Rightarrow> veh_comm_packet"

definition set_comm_p :: "int \<Rightarrow> int \<Rightarrow> vehicle_info \<Rightarrow> vehicle_info option" where
  "set_comm_p i x v = (if 0 \<le> i \<and> i < int (length (vi_comm_p v)) then Some (v\<lparr>vi_comm_p := (vi_comm_p v)[nat i := x]\<rparr>) else None)"

definition received :: "packets \<Rightarrow> int \<Rightarrow> veh_comm_packet option" where
  "received comm_receive i = (if 0 \<le> i \<and> i < MAX_TRUCK then Some (comm_receive i) else None)"

subsection \<open>One truck of the platoon\<close>

text \<open>The body of the loop for the position \<open>pip\<close>; the first component is \<open>error\<close>.\<close>

definition cacc_link :: "packets \<Rightarrow> int \<Rightarrow> u32 \<times> cacc \<Rightarrow> (u32 \<times> cacc) option" where
  "cacc_link comm_receive pip = (\<lambda>(error, s). let st = kc_static s; v = kc_veh s in
     if pip \<noteq> vi_veh_id v then do {
       p \<leftarrow> received comm_receive pip;
       (error, st, v) \<leftarrow>
         (if pk_global_time p \<noteq> ks_comm_time_old st pip then do {
            let c = ks_comm_counter st pip + 1;
            v \<leftarrow> set_comm_p (pip - 1) 0 v;
            Some (error, st\<lparr>ks_comm_counter := (ks_comm_counter st)(pip := if c > 100 then 0 else c),
              ks_comm_f_counter := (ks_comm_f_counter st)(pip := 0)\<rparr>, v)
          } else do {
            let f = ks_comm_f_counter st pip + 1;
            let st = st\<lparr>ks_comm_f_counter := (ks_comm_f_counter st)(pip := f)\<rparr>;
            if f > COMM_ERR_BOUND then do {
              v \<leftarrow> set_comm_p (pip - 1) 1 v;
              Some (error OR push_bit (nat pip) 1,
                st\<lparr>ks_handshake_start_arr := (ks_handshake_start_arr st)(pip := OFF)\<rparr>, v)
            } else Some (error, st, v)
          });
       let st = st\<lparr>ks_comm_time_old := (ks_comm_time_old st)(pip := pk_global_time p)\<rparr>;
       Some (error, s\<lparr>kc_static := st, kc_veh := v,
         kc_fault := (kc_fault s)\<lparr>fi_comm := (if vi_comm_p v ! 0 = 1 then 1 else 0)\<rparr>\<rparr>)
     } else do {
       v \<leftarrow> set_comm_p (pip - 1) 0 v;
       Some (error, s\<lparr>kc_static := st\<lparr>ks_comm_f_counter := (ks_comm_f_counter st)(pip := 0)\<rparr>, kc_veh := v\<rparr>)
     })"

fun cacc_links :: "packets \<Rightarrow> int list \<Rightarrow> u32 \<times> cacc \<Rightarrow> (u32 \<times> cacc) option" where
  "cacc_links comm_receive [] es = Some es"
| "cacc_links comm_receive (pip # pips) es = Option.bind (cacc_link comm_receive pip es) (cacc_links comm_receive pips)"

text \<open>The platoon's links; the last component is \<open>handshake_start\<close>.\<close>

definition cacc_handshake :: "packets \<Rightarrow> cacc \<Rightarrow> (u32 \<times> cacc \<times> int) option" where
  "cacc_handshake comm_receive s =
    (if pi_pltn_size (kc_pltn s) = 1 then do {
       v \<leftarrow> set_comm_p 0 0 (kc_veh s);
       Some (0, s\<lparr>kc_veh := v, kc_comm_reply := 1, kc_fault := (kc_fault s)\<lparr>fi_comm := 0\<rparr>\<rparr>, ON)
     } else do {
       (error, s) \<leftarrow> cacc_links comm_receive [1 .. pi_pltn_size (kc_pltn s)] (0, s);
       let v = kc_veh s;
       let (handshake, s) = (if vi_comm_p v ! 0 = 0 then (1, s\<lparr>kc_comm_reply := 1\<rparr>) else (OFF, s));
       Some (error, s, if vi_veh_id v = 1 then 1 else handshake)
     })"

subsection \<open>The time of the platoon and the speeds ahead\<close>

definition cacc_time :: "cfloat \<Rightarrow> cfloat \<Rightarrow> packets \<Rightarrow> int \<Rightarrow> cacc \<Rightarrow> cacc" where
  "cacc_time local_t delta_t comm_receive handshake s =
    (if vi_veh_id (kc_veh s) = 1 then s\<lparr>kc_global_time := local_t\<rparr>
     else let
       st = kc_static s;
       (st, t) = (if ks_synchrn_sw st = 1 \<and> handshake = ON then
           let n = ks_g_t_init_count st + 1; st = st\<lparr>ks_g_t_init_count := n\<rparr>; t = pk_global_time (comm_receive 1)
           in (if n \<ge> 3 then st\<lparr>ks_synchrn_sw := 0, ks_global_t_sw := ON\<rparr> else st, t)
         else (st, kc_global_time s))
     in s\<lparr>kc_static := st, kc_global_time := (if ks_global_t_sw st = ON then t + delta_t else t)\<rparr>)"

definition cacc_speeds :: "cfloat \<Rightarrow> packets \<Rightarrow> control_config \<Rightarrow> cacc \<Rightarrow> cacc option" where
  "cacc_speeds local_t comm_receive cfg s =
    (if fi_comm (kc_fault s) = 0 \<and> vi_veh_id (kc_veh s) > 1 then
       (if local_t \<le> 2 / 10 then
          Some (s\<lparr>kc_con := (kc_con s)\<lparr>cs_pre_v := 0, cs_pre_a := 0, cs_lead_v := 0, cs_lead_a := 0\<rparr>\<rparr>)
        else do {
          p \<leftarrow> received comm_receive (cc_MyPltnPos cfg - 1);
          let l = comm_receive 1;
          Some (s\<lparr>kc_con := (kc_con s)\<lparr>cs_pre_v := pk_vel_traj p, cs_pre_a := pk_acc_traj p,
            cs_lead_v := pk_vel_traj l, cs_lead_a := pk_acc_traj l\<rparr>\<rparr>)
        })
     else Some s)"

definition cacc_comm :: "cfloat \<Rightarrow> cfloat \<Rightarrow> packets \<Rightarrow> control_config \<Rightarrow> cacc \<Rightarrow> (u32 \<times> cacc) option" where
  "cacc_comm local_t delta_t comm_receive cfg s = do {
     let s = s\<lparr>kc_con := (kc_con s)\<lparr>cs_comm_coord := 0\<rparr>\<rparr>;
     (error, s, handshake) \<leftarrow> cacc_handshake comm_receive s;
     let s = cacc_time local_t delta_t comm_receive handshake s;
     s \<leftarrow> cacc_speeds local_t comm_receive cfg s;
     Some (error, s\<lparr>kc_con := (kc_con s)\<lparr>cs_pltn_vel := 0, cs_pltn_acc := 0, cs_pltn_dcc := 0\<rparr>,
       kc_pltn := (kc_pltn s)\<lparr>pi_handshake := handshake\<rparr>\<rparr>)
   }"

end
