(* ===== verification/CaccCommLaws.thy ===== *)
theory CaccCommLaws
  imports CaccComm
begin

text \<open>
  What \<open>cacc_comm\<close> keeps track of: for every other truck a watchdog, restarted by a packet with a new time and
  expired after more than twenty cycles without one.
\<close>

subsection \<open>The watchdog\<close>

text \<open>For how many cycles the newest time has been the same, from the times seen in the cycles so far.\<close>

fun age :: "cfloat \<Rightarrow> nat \<Rightarrow> cfloat list \<Rightarrow> nat" where
  "age old n [] = n"
| "age old n (t # ts) = age t (if t \<noteq> old then 0 else n + 1) ts"

definition expired :: "nat \<Rightarrow> bool" where "expired n \<longleftrightarrow> 20 < n"

abbreviation vid :: "cacc \<Rightarrow> int" where "vid s \<equiv> vi_veh_id (kc_veh s)"

definition link_flag :: "cacc \<Rightarrow> int \<Rightarrow> int" where "link_flag s pip = vi_comm_p (kc_veh s) ! nat (pip - 1)"

definition link_age :: "cacc \<Rightarrow> int \<Rightarrow> int" where "link_age s pip = ks_comm_f_counter (kc_static s) pip"

definition link_time :: "cacc \<Rightarrow> int \<Rightarrow> cfloat" where "link_time s pip = ks_comm_time_old (kc_static s) pip"

definition next_age :: "packets \<Rightarrow> cacc \<Rightarrow> int \<Rightarrow> int" where
  "next_age cr s pip = (if pk_global_time (cr pip) \<noteq> link_time s pip then 0 else link_age s pip + 1)"

text \<open>The flag of a link says whether its watchdog has expired.\<close>

definition links_ok :: "int \<Rightarrow> cacc \<Rightarrow> bool" where
  "links_ok n s \<longleftrightarrow> length (vi_comm_p (kc_veh s)) = 3 \<and> n \<le> 3 \<and>
     (\<forall>pip. 1 \<le> pip \<and> pip \<le> n \<longrightarrow> 0 \<le> link_age s pip \<and> (pip \<noteq> vid s \<longrightarrow> link_flag s pip = (if link_age s pip > 20 then 1 else 0)))"

text \<open>The effect of the loop on the positions \<open>P\<close>.\<close>

definition links_done :: "packets \<Rightarrow> int set \<Rightarrow> u32 \<times> cacc \<Rightarrow> u32 \<times> cacc \<Rightarrow> bool" where
  "links_done cr P = (\<lambda>(e, s) (e', s'). vid s' = vid s \<and> kc_pltn s' = kc_pltn s \<and> kc_con s' = kc_con s \<and>
     kc_global_time s' = kc_global_time s \<and> kc_comm_reply s' = kc_comm_reply s \<and>
     ks_g_t_init_count (kc_static s') = ks_g_t_init_count (kc_static s) \<and>
     ks_synchrn_sw (kc_static s') = ks_synchrn_sw (kc_static s) \<and>
     ks_global_t_sw (kc_static s') = ks_global_t_sw (kc_static s) \<and>
     (\<forall>pip \<in> P. pip \<noteq> vid s \<longrightarrow> link_age s' pip = next_age cr s pip \<and> link_time s' pip = pk_global_time (cr pip)) \<and>
     (\<forall>pip. pip \<notin> P \<longrightarrow> link_age s' pip = link_age s pip \<and> link_time s' pip = link_time s pip) \<and>
     (\<forall>pip. pip \<notin> P \<and> 1 \<le> pip \<longrightarrow> link_flag s' pip = link_flag s pip) \<and>
     (vid s \<in> P \<longrightarrow> link_flag s' (vid s) = 0) \<and>
     (\<forall>k. bit e' k \<longleftrightarrow> bit e k \<or> int k \<in> P \<and> int k \<noteq> vid s \<and> next_age cr s (int k) > 20) \<and>
     (fi_comm (kc_fault s') = (if link_flag s' 1 = 1 then 1 else 0) \<or> P \<subseteq> {vid s} \<and> kc_fault s' = kc_fault s))"

lemma set_comm_p_Some [simp]:
  "length (vi_comm_p v) = 3 \<Longrightarrow> 1 \<le> pip \<Longrightarrow> pip \<le> 3 \<Longrightarrow>
   set_comm_p (pip - 1) x v = Some (v\<lparr>vi_comm_p := (vi_comm_p v)[nat (pip - 1) := x]\<rparr>)"
  by (simp add: set_comm_p_def)

lemma received_Some [simp]: "1 \<le> pip \<Longrightarrow> pip \<le> 3 \<Longrightarrow> received cr pip = Some (cr pip)"
  by (simp add: received_def)

lemma bit_one_shift: "pip \<le> 3 \<Longrightarrow> 1 \<le> pip \<Longrightarrow> bit (push_bit (nat pip) (1 :: u32)) k \<longleftrightarrow> int k = pip"
  by (auto simp: bit_simps)

text \<open>The four ways through the body of the loop.\<close>

definition link_self :: "int \<Rightarrow> cacc \<Rightarrow> cacc" where
  "link_self pip s = s\<lparr>kc_static := (kc_static s)\<lparr>ks_comm_f_counter := (ks_comm_f_counter (kc_static s))(pip := 0)\<rparr>,
     kc_veh := (kc_veh s)\<lparr>vi_comm_p := (vi_comm_p (kc_veh s))[nat (pip - 1) := 0]\<rparr>\<rparr>"

definition link_other :: "packets \<Rightarrow> int \<Rightarrow> int \<Rightarrow> int \<Rightarrow> int \<Rightarrow> int list \<Rightarrow> cacc \<Rightarrow> cacc" where
  "link_other cr pip c f h ps s = s\<lparr>kc_static := (kc_static s)\<lparr>ks_comm_counter := (ks_comm_counter (kc_static s))(pip := c),
       ks_comm_f_counter := (ks_comm_f_counter (kc_static s))(pip := f),
       ks_handshake_start_arr := (ks_handshake_start_arr (kc_static s))(pip := h),
       ks_comm_time_old := (ks_comm_time_old (kc_static s))(pip := pk_global_time (cr pip))\<rparr>,
     kc_veh := (kc_veh s)\<lparr>vi_comm_p := ps\<rparr>, kc_fault := (kc_fault s)\<lparr>fi_comm := (if ps ! 0 = 1 then 1 else 0)\<rparr>\<rparr>"

lemma link_cases:
  assumes "length (vi_comm_p (kc_veh s)) = 3" "1 \<le> pip" "pip \<le> 3"
  shows "pip = vid s \<Longrightarrow> cacc_link cr pip (e, s) = Some (e, link_self pip s)"
    and "pip \<noteq> vid s \<Longrightarrow> \<exists>c h. cacc_link cr pip (e, s) =
      Some (if next_age cr s pip > 20 then e OR push_bit (nat pip) 1 else e,
        link_other cr pip c (next_age cr s pip) h ((if next_age cr s pip = 0 \<and> pk_global_time (cr pip) \<noteq> link_time s pip
            then (vi_comm_p (kc_veh s))[nat (pip - 1) := 0]
          else if next_age cr s pip > 20 then (vi_comm_p (kc_veh s))[nat (pip - 1) := 1] else vi_comm_p (kc_veh s))) s)"
proof -
  show "pip = vid s \<Longrightarrow> cacc_link cr pip (e, s) = Some (e, link_self pip s)"
    using assms by (simp add: cacc_link_def link_self_def Let_def)
  assume o: "pip \<noteq> vid s"
  show "\<exists>c h. cacc_link cr pip (e, s) =
      Some (if next_age cr s pip > 20 then e OR push_bit (nat pip) 1 else e,
        link_other cr pip c (next_age cr s pip) h ((if next_age cr s pip = 0 \<and> pk_global_time (cr pip) \<noteq> link_time s pip
            then (vi_comm_p (kc_veh s))[nat (pip - 1) := 0]
          else if next_age cr s pip > 20 then (vi_comm_p (kc_veh s))[nat (pip - 1) := 1] else vi_comm_p (kc_veh s))) s)"
  proof (cases "pk_global_time (cr pip) \<noteq> link_time s pip")
    case True
    show ?thesis
      by (rule exI[of _ "if ks_comm_counter (kc_static s) pip + 1 > 100 then 0 else ks_comm_counter (kc_static s) pip + 1"],
          rule exI[of _ "ks_handshake_start_arr (kc_static s) pip"])
        (use assms o True in \<open>simp add: cacc_link_def link_other_def next_age_def link_time_def Let_def\<close>)
  next
    case False
    show ?thesis
      by (rule exI[of _ "ks_comm_counter (kc_static s) pip"],
          rule exI[of _ "if next_age cr s pip > 20 then 0 else ks_handshake_start_arr (kc_static s) pip"])
        (use assms o False in \<open>simp add: cacc_link_def link_other_def next_age_def link_time_def link_age_def Let_def\<close>)
  qed
qed

lemma nat_pred_eq: "1 \<le> i \<Longrightarrow> 1 \<le> j \<Longrightarrow> nat (i - 1) = nat (j - 1) \<longleftrightarrow> i = (j :: int)"
  by auto

lemma flag_self: "length (vi_comm_p (kc_veh s)) = 3 \<Longrightarrow> 1 \<le> pip \<Longrightarrow> pip \<le> 3 \<Longrightarrow> 1 \<le> i \<Longrightarrow>
   link_flag (link_self pip s) i = (if i = pip then 0 else link_flag s i)"
  by (simp add: link_flag_def link_self_def nth_list_update nat_pred_eq)

lemma self_law:
  assumes "links_ok n s" "1 \<le> vid s" "vid s \<le> n"
  shows "links_ok n (link_self (vid s) s) \<and> links_done cr {vid s} (e, s) (e, link_self (vid s) s)"
proof -
  have l: "length (vi_comm_p (kc_veh s)) = 3" "vid s \<le> 3" "n \<le> 3" using assms by (auto simp: links_ok_def)
  let ?s = "link_self (vid s) s"
  have v: "vid ?s = vid s" "length (vi_comm_p (kc_veh ?s)) = 3"
    "link_age ?s i = (if i = vid s then 0 else link_age s i)" "link_time ?s i = link_time s i" for i
    using l by (simp_all add: link_self_def link_age_def link_time_def)
  note f = flag_self[OF l(1) assms(2) l(2)]
  have "links_ok n ?s" using assms l by (simp add: links_ok_def v f)
  moreover have "links_done cr {vid s} (e, s) (e, ?s)"
    unfolding links_done_def prod.case v using f assms(2) by (auto simp: link_self_def)
  ultimately show ?thesis by simp
qed

lemma other_law:
  assumes "links_ok n s" "1 \<le> pip" "pip \<le> n" "pip \<noteq> vid s"
  shows "\<exists>e' s'. cacc_link cr pip (e, s) = Some (e', s') \<and> links_ok n s' \<and> links_done cr {pip} (e, s) (e', s')"
proof -
  have l: "length (vi_comm_p (kc_veh s)) = 3" "pip \<le> 3" "n \<le> 3" and
    a: "0 \<le> link_age s pip" "link_flag s pip = (if link_age s pip > 20 then 1 else 0)"
    using assms by (auto simp: links_ok_def)
  let ?f = "next_age cr s pip" and ?p = "vi_comm_p (kc_veh s)"
  define ps where "ps = (if ?f = 0 \<and> pk_global_time (cr pip) \<noteq> link_time s pip then ?p[nat (pip - 1) := 0]
    else if ?f > 20 then ?p[nat (pip - 1) := 1] else ?p)"
  define e' where "e' = (if ?f > 20 then e OR push_bit (nat pip) 1 else e)"
  obtain c h where 1: "cacc_link cr pip (e, s) = Some (e', link_other cr pip c ?f h ps s)"
    using link_cases(2)[OF l(1) assms(2) l(2) assms(4), of cr e] unfolding ps_def e'_def by blast
  let ?s = "link_other cr pip c ?f h ps s"
  have v: "vid ?s = vid s" "vi_comm_p (kc_veh ?s) = ps" "fi_comm (kc_fault ?s) = (if ps ! 0 = 1 then 1 else 0)"
    "link_age ?s i = (if i = pip then ?f else link_age s i)"
    "link_time ?s i = (if i = pip then pk_global_time (cr pip) else link_time s i)" for i
    by (simp_all add: link_other_def link_age_def link_time_def)
  have ps: "length ps = 3" using l by (simp add: ps_def)
  have f0: "0 \<le> ?f" using a by (simp add: next_age_def)
  have fl: "link_flag ?s i = (if i = pip then if ?f > 20 then 1 else 0 else link_flag s i)" if "1 \<le> i" for i
  proof -
    have "link_flag ?s i = ps ! nat (i - 1)" by (simp add: link_flag_def v(2))
    also have "... = (if i = pip then if ?f > 20 then 1 else 0 else link_flag s i)"
      using a l assms(2) that by (auto simp: ps_def link_flag_def next_age_def nth_list_update nat_pred_eq)
    finally show ?thesis .
  qed
  have f1: "link_flag ?s 1 = ps ! 0" by (simp add: link_flag_def v(2))
  have "links_ok n ?s" using assms l f0 ps fl by (auto simp: links_ok_def v)
  moreover have "links_done cr {pip} (e, s) (e', ?s)"
  proof -
    have b: "bit e' k \<longleftrightarrow> bit e k \<or> int k \<in> {pip} \<and> int k \<noteq> vid s \<and> next_age cr s (int k) > 20" for k
      using assms l bit_one_shift[of pip k] by (auto simp: e'_def bit_or_iff)
    show ?thesis unfolding links_done_def prod.case v(1,3) f1
      using fl b assms(4) by (auto simp: v(4,5)) (simp_all add: link_other_def)
  qed
  ultimately show ?thesis using 1 by blast
qed

lemma link_law:
  assumes "links_ok n s" "1 \<le> pip" "pip \<le> n"
  shows "\<exists>e' s'. cacc_link cr pip (e, s) = Some (e', s') \<and> links_ok n s' \<and> links_done cr {pip} (e, s) (e', s')"
proof (cases "pip = vid s")
  case True
  have l: "length (vi_comm_p (kc_veh s)) = 3" "pip \<le> 3" using assms by (auto simp: links_ok_def)
  show ?thesis using link_cases(1)[OF l(1) assms(2) l(2) True] self_law[of n s] assms True by blast
qed (rule other_law[OF assms])

lemma links_doneD:
  assumes "links_done cr P (e, s) (e', s')"
  shows "vid s' = vid s" "kc_pltn s' = kc_pltn s" "kc_con s' = kc_con s" "kc_global_time s' = kc_global_time s"
    "kc_comm_reply s' = kc_comm_reply s" "ks_g_t_init_count (kc_static s') = ks_g_t_init_count (kc_static s)"
    "ks_synchrn_sw (kc_static s') = ks_synchrn_sw (kc_static s)"
    "ks_global_t_sw (kc_static s') = ks_global_t_sw (kc_static s)"
    and "\<And>i. i \<in> P \<Longrightarrow> i \<noteq> vid s \<Longrightarrow> link_age s' i = next_age cr s i"
    and "\<And>i. i \<in> P \<Longrightarrow> i \<noteq> vid s \<Longrightarrow> link_time s' i = pk_global_time (cr i)"
    and "\<And>i. i \<notin> P \<Longrightarrow> link_age s' i = link_age s i"
    and "\<And>i. i \<notin> P \<Longrightarrow> link_time s' i = link_time s i"
    and "\<And>i. i \<notin> P \<Longrightarrow> 1 \<le> i \<Longrightarrow> link_flag s' i = link_flag s i"
    and "vid s \<in> P \<Longrightarrow> link_flag s' (vid s) = 0"
    and "\<And>k. bit e' k \<longleftrightarrow> bit e k \<or> int k \<in> P \<and> int k \<noteq> vid s \<and> next_age cr s (int k) > 20"
    and "P \<subseteq> {vid s} \<Longrightarrow> fi_comm (kc_fault s') = (if link_flag s' 1 = 1 then 1 else 0) \<or> kc_fault s' = kc_fault s"
    and "\<not> P \<subseteq> {vid s} \<Longrightarrow> fi_comm (kc_fault s') = (if link_flag s' 1 = 1 then 1 else 0)"
  using assms[unfolded links_done_def prod.case] by blast+

lemma links_done_step:
  assumes "links_done cr {pip} (ea, sa) (eb, sb)" "links_done cr P (eb, sb) (ec, sc)" "pip \<notin> P" "\<forall>i \<in> P. 1 < i" "1 \<le> pip"
  shows "links_done cr (insert pip P) (ea, sa) (ec, sc)"
proof -
  note A = links_doneD[OF assms(1)] and B = links_doneD[OF assms(2)]
  have v: "vid sb = vid sa" "vid sc = vid sa" by (simp_all add: A(1) B(1))
  have n: "next_age cr sb i = next_age cr sa i" if "i \<in> P" for i
  proof -
    have "i \<notin> {pip}" using that assms(3) by auto
    then show ?thesis by (simp add: next_age_def A(11,12))
  qed
  have f1: "link_flag sc 1 = link_flag sb 1" by (rule B(13)) (use assms(4) in auto)
  have k: "fi_comm (kc_fault sc) = (if link_flag sc 1 = 1 then 1 else 0) \<or> insert pip P \<subseteq> {vid sa} \<and> kc_fault sc = kc_fault sa"
  proof (cases "P \<subseteq> {vid sa}")
    case False
    then show ?thesis using B(17) v by simp
  next
    case True
    then have "fi_comm (kc_fault sc) = (if link_flag sc 1 = 1 then 1 else 0) \<or> kc_fault sc = kc_fault sb" using B(16) v by simp
    moreover have "pip = vid sa \<Longrightarrow> fi_comm (kc_fault sb) = (if link_flag sb 1 = 1 then 1 else 0) \<or> kc_fault sb = kc_fault sa"
      using A(16) by simp
    moreover have "pip \<noteq> vid sa \<Longrightarrow> fi_comm (kc_fault sb) = (if link_flag sb 1 = 1 then 1 else 0)" using A(17) by simp
    ultimately show ?thesis using True f1 by (cases "pip = vid sa") auto
  qed
  have flag: "link_flag sc i = link_flag sa i" if "i \<notin> insert pip P" "1 \<le> i" for i
    using A(13)[of i] B(13)[of i] that by simp
  have zero: "link_flag sc (vid sa) = 0" if "vid sa \<in> insert pip P"
  proof (cases "vid sa \<in> P")
    case False
    then have "vid sa = pip" using that by simp
    then show ?thesis using A(14) B(13)[of "vid sa"] False assms(5) by simp
  qed (use B(14) v in simp)
  have upd: "link_age sc i = next_age cr sa i \<and> link_time sc i = pk_global_time (cr i)" if "i \<in> insert pip P" "i \<noteq> vid sa" for i
  proof (cases "i \<in> P")
    case True
    then show ?thesis using B(9,10)[of i] n[of i] v that(2) by simp
  next
    case False
    then have "i = pip" using that(1) by simp
    then show ?thesis using A(9,10)[of i] B(11,12)[of i] False that(2) by simp
  qed
  have keep: "link_age sc i = link_age sa i \<and> link_time sc i = link_time sa i" if "i \<notin> insert pip P" for i
    using A(11,12)[of i] B(11,12)[of i] that by simp
  have err: "bit ec j \<longleftrightarrow> bit ea j \<or> int j \<in> insert pip P \<and> int j \<noteq> vid sa \<and> next_age cr sa (int j) > 20" for j
    using A(15)[of j] B(15)[of j] n[of "int j"] v assms(3) by auto
  show ?thesis unfolding links_done_def prod.case
    using upd keep err k flag zero v(2) A(2-8) B(2-8) by auto
qed

lemma links_law:
  assumes "links_ok n s" "distinct pips" "sorted pips" "set pips \<subseteq> {1..n}"
  shows "\<exists>e' s'. cacc_links cr pips (e, s) = Some (e', s') \<and> links_ok n s' \<and> links_done cr (set pips) (e, s) (e', s')"
  using assms
proof (induction pips arbitrary: e s)
  case Nil
  then show ?case by (auto simp: links_done_def)
next
  case (Cons pip pips)
  obtain e1 s1 where 1: "cacc_link cr pip (e, s) = Some (e1, s1)" "links_ok n s1" "links_done cr {pip} (e, s) (e1, s1)"
    using link_law[OF Cons.prems(1), of pip cr e] Cons.prems(4) by auto
  obtain e' s' where 2: "cacc_links cr pips (e1, s1) = Some (e', s')" "links_ok n s'" "links_done cr (set pips) (e1, s1) (e', s')"
    using Cons.IH[OF 1(2), of e1] Cons.prems by auto
  have g: "1 < i" if "i \<in> set pips" for i
  proof -
    have "pip \<le> i" "pip \<noteq> i" "1 \<le> pip" using Cons.prems that by auto
    then show ?thesis by simp
  qed
  have "links_done cr (insert pip (set pips)) (e, s) (e', s')"
    by (rule links_done_step[OF 1(3) 2(3)]) (use Cons.prems g in auto)
  then show ?case using 1(1) 2 by simp
qed

subsection \<open>One control cycle\<close>

text \<open>The part of the state the watchdogs use.\<close>

definition same_links :: "cacc \<Rightarrow> cacc \<Rightarrow> bool" where
  "same_links s s' \<longleftrightarrow> kc_veh s' = kc_veh s \<and> kc_fault s' = kc_fault s \<and> pi_pltn_size (kc_pltn s') = pi_pltn_size (kc_pltn s) \<and>
     ks_comm_f_counter (kc_static s') = ks_comm_f_counter (kc_static s) \<and> ks_comm_time_old (kc_static s') = ks_comm_time_old (kc_static s)"

lemma same_linksD:
  "same_links s s' \<Longrightarrow> links_ok n s' = links_ok n s \<and> link_age s' = link_age s \<and> link_time s' = link_time s \<and>
   link_flag s' = link_flag s \<and> vid s' = vid s \<and> kc_fault s' = kc_fault s \<and> pi_pltn_size (kc_pltn s') = pi_pltn_size (kc_pltn s)"
  by (auto simp: same_links_def links_ok_def link_age_def link_time_def link_flag_def fun_eq_iff)

lemma same_links_trans: "same_links s s1 \<Longrightarrow> same_links s1 s2 \<Longrightarrow> same_links s s2"
  by (simp add: same_links_def)

lemma time_links: "same_links s (cacc_time t dt cr h s)"
  by (simp add: same_links_def cacc_time_def Let_def split: prod.splits)

lemma speeds_links:
  "1 \<le> cc_MyPltnPos cfg \<Longrightarrow> cc_MyPltnPos cfg \<le> MAX_TRUCK \<Longrightarrow> \<exists>s'. cacc_speeds t cr cfg s = Some s' \<and> same_links s s'"
  by (auto simp: same_links_def cacc_speeds_def received_def Let_def)

definition cycle_done :: "packets \<Rightarrow> int \<Rightarrow> cacc \<Rightarrow> u32 \<Rightarrow> cacc \<Rightarrow> bool" where
  "cycle_done cr n s e s' \<longleftrightarrow> links_ok n s' \<and> vid s' = vid s \<and> pi_pltn_size (kc_pltn s') = n \<and>
     (\<forall>i \<in> {1..n} - {vid s}. link_age s' i = next_age cr s i \<and> link_time s' i = pk_global_time (cr i)) \<and>
     fi_comm (kc_fault s') = (if vid s \<noteq> 1 \<and> link_age s' 1 > 20 then 1 else 0) \<and>
     (\<forall>k. bit e k \<longleftrightarrow> int k \<in> {1..n} - {vid s} \<and> link_age s' (int k) > 20)"

lemma cycle_done_same: "same_links s1 s2 \<Longrightarrow> cycle_done cr n s e s1 \<Longrightarrow> cycle_done cr n s e s2"
  using same_linksD[of s1 s2 n] by (simp add: cycle_done_def)

lemma handshake_law:
  assumes "links_ok n s" "pi_pltn_size (kc_pltn s) = n" "2 \<le> n"
  shows "\<exists>e s' h. cacc_handshake cr s = Some (e, s', h) \<and> cycle_done cr n s e s'"
proof -
  obtain e1 s1 where 1: "cacc_links cr [1..n] (0, s) = Some (e1, s1)" "links_ok n s1" "links_done cr {1..n} (0, s) (e1, s1)"
    using links_law[OF assms(1), of "[1..n]" cr 0] by auto
  note D = links_doneD[OF 1(3)]
  define r where "r = (if vi_comm_p (kc_veh s1) ! 0 = 0 then (1, s1\<lparr>kc_comm_reply := 1\<rparr>) else (OFF, s1))"
  have r: "same_links s1 (snd r)" by (simp add: r_def same_links_def)
  have h: "cacc_handshake cr s = Some (e1, snd r, if vi_veh_id (kc_veh s1) = 1 then 1 else fst r)"
    using assms 1(1) by (simp add: cacc_handshake_def r_def Let_def)
  have "\<not> {1..n} \<subseteq> {vid s}"
  proof
    assume sub: "{1..n} \<subseteq> {vid s}"
    have "(1 :: int) \<in> {vid s}" by (rule subsetD[OF sub]) (use assms(3) in simp)
    moreover have "(2 :: int) \<in> {vid s}" by (rule subsetD[OF sub]) (use assms(3) in simp)
    ultimately have "vid s = 1" "vid s = 2" by simp_all
    then show False by simp
  qed
  then have f: "fi_comm (kc_fault s1) = (if link_flag s1 1 = 1 then 1 else 0)" by (rule D(17))
  have g: "link_flag s1 1 = (if vid s \<noteq> 1 \<and> link_age s1 1 > 20 then 1 else 0)"
  proof (cases "vid s = 1")
    case True
    then show ?thesis using D(14) assms(3) by simp
  next
    case False
    then show ?thesis using 1(2) D(1) assms(3) by (simp add: links_ok_def)
  qed
  have "cycle_done cr n s e1 s1"
    unfolding cycle_done_def using 1(2) D(1,2,9,10,15) f g assms(2) by auto
  then have "cycle_done cr n s e1 (snd r)" using same_linksD[OF r] by (simp add: cycle_done_def)
  then show ?thesis using h by blast
qed

lemma cycle_law:
  assumes "links_ok n s" "pi_pltn_size (kc_pltn s) = n" "2 \<le> n" "1 \<le> cc_MyPltnPos cfg" "cc_MyPltnPos cfg \<le> MAX_TRUCK"
  shows "\<exists>e s'. cacc_comm t dt cr cfg s = Some (e, s') \<and> cycle_done cr n s e s'"
proof -
  let ?s = "s\<lparr>kc_con := (kc_con s)\<lparr>cs_comm_coord := 0\<rparr>\<rparr>"
  have q: "same_links s ?s" by (simp add: same_links_def)
  obtain e s1 h where 1: "cacc_handshake cr ?s = Some (e, s1, h)" "cycle_done cr n ?s e s1"
    using handshake_law[of n ?s cr] assms same_linksD[OF q] by auto
  obtain s2 where 2: "cacc_speeds t cr cfg (cacc_time t dt cr h s1) = Some s2" "same_links (cacc_time t dt cr h s1) s2"
    using speeds_links[OF assms(4,5)] by blast
  let ?s2 = "s2\<lparr>kc_con := (kc_con s2)\<lparr>cs_pltn_vel := 0, cs_pltn_acc := 0, cs_pltn_dcc := 0\<rparr>,
       kc_pltn := (kc_pltn s2)\<lparr>pi_handshake := h\<rparr>\<rparr>"
  have "same_links s2 ?s2" by (simp add: same_links_def)
  then have "same_links s1 ?s2" using same_links_trans time_links 2(2) by blast
  then have "cycle_done cr n ?s e ?s2" using cycle_done_same 1(2) by blast
  moreover have "next_age cr ?s = next_age cr s" "vid ?s = vid s" using same_linksD[OF q] by (auto simp: next_age_def fun_eq_iff)
  ultimately have "cycle_done cr n s e ?s2" by (simp add: cycle_done_def)
  then show ?thesis using 1(1) 2(1) by (simp add: cacc_comm_def)
qed

subsection \<open>A sequence of cycles\<close>

fun cacc_run :: "cfloat \<Rightarrow> control_config \<Rightarrow> (cfloat \<times> packets) list \<Rightarrow> cacc \<Rightarrow> (u32 list \<times> cacc) option" where
  "cacc_run dt cfg [] s = Some ([], s)"
| "cacc_run dt cfg ((t, cr) # cycles) s = do {
     (e, s) \<leftarrow> cacc_comm t dt cr cfg s;
     (es, s) \<leftarrow> cacc_run dt cfg cycles s;
     Some (e # es, s)
   }"

definition link_times :: "int \<Rightarrow> (cfloat \<times> packets) list \<Rightarrow> cfloat list" where
  "link_times i cycles = map (\<lambda>(t, cr). pk_global_time (cr i)) cycles"

definition links_expired :: "int \<Rightarrow> int \<Rightarrow> (int \<Rightarrow> nat) \<Rightarrow> u32 \<Rightarrow> cacc \<Rightarrow> bool" where
  "links_expired n v a e s \<longleftrightarrow> (\<forall>i \<in> {1..n} - {v}. link_flag s i = (if expired (a i) then 1 else 0)) \<and>
     (fi_comm (kc_fault s) = 1 \<longleftrightarrow> v \<noteq> 1 \<and> expired (a 1)) \<and>
     (\<forall>k. bit e k \<longleftrightarrow> int k \<in> {1..n} - {v} \<and> expired (a (int k)))"

lemma run_law:
  assumes "links_ok n s" "pi_pltn_size (kc_pltn s) = n" "2 \<le> n" "1 \<le> cc_MyPltnPos cfg" "cc_MyPltnPos cfg \<le> MAX_TRUCK"
    and "cycles \<noteq> []"
  shows "\<exists>es s'. cacc_run dt cfg cycles s = Some (es, s') \<and> es \<noteq> [] \<and> vid s' = vid s \<and>
    links_expired n (vid s) (\<lambda>i. age (link_time s i) (nat (link_age s i)) (link_times i cycles)) (last es) s'"
  using assms(1,2,6)
proof (induction cycles arbitrary: s)
  case (Cons c cycles)
  obtain t cr where c: "c = (t, cr)" by fastforce
  obtain e s1 where 1: "cacc_comm t dt cr cfg s = Some (e, s1)" "cycle_done cr n s e s1"
    using cycle_law[OF Cons.prems(1,2) assms(3-5)] by blast
  have d: "links_ok n s1" "vid s1 = vid s" "pi_pltn_size (kc_pltn s1) = n" using 1(2) by (simp_all add: cycle_done_def)
  have up: "link_age s1 i = next_age cr s i \<and> link_time s1 i = pk_global_time (cr i)" if "i \<in> {1..n} - {vid s}" for i
    using 1(2) that by (simp add: cycle_done_def)
  have nn: "0 \<le> link_age s i" if "i \<in> {1..n}" for i using Cons.prems(1) that by (simp add: links_ok_def)
  have a: "age (link_time s i) (nat (link_age s i)) (link_times i (c # cycles)) =
     age (link_time s1 i) (nat (link_age s1 i)) (link_times i cycles)" if "i \<in> {1..n} - {vid s}" for i
    using up[OF that] nn[of i] that by (auto simp: c link_times_def next_age_def nat_add_distrib)
  show ?case
  proof (cases "cycles = []")
    case True
    have x: "expired (age (link_time s1 i) (nat (link_age s1 i)) (link_times i cycles)) \<longleftrightarrow> link_age s1 i > 20" for i
      by (auto simp: True link_times_def expired_def)
    have n1: "(1 :: int) \<in> {1..n}" using assms(3) by simp
    have "links_expired n (vid s) (\<lambda>i. age (link_time s i) (nat (link_age s i)) (link_times i (c # cycles))) e s1"
    proof -
      have fl: "link_flag s1 i = (if link_age s1 i > 20 then 1 else 0)" if "i \<in> {1..n} - {vid s}" for i
        using d(1,2) that by (simp add: links_ok_def)
      have f: "fi_comm (kc_fault s1) = 1 \<longleftrightarrow> vid s \<noteq> 1 \<and> link_age s1 1 > 20" using 1(2) by (simp add: cycle_done_def)
      have b: "bit e k \<longleftrightarrow> int k \<in> {1..n} - {vid s} \<and> link_age s1 (int k) > 20" for k using 1(2) by (simp add: cycle_done_def)
      have y: "expired (age (link_time s i) (nat (link_age s i)) (link_times i (c # cycles))) \<longleftrightarrow> link_age s1 i > 20"
        if "i \<in> {1..n} - {vid s}" for i using a[OF that] x[of i] by simp
      show ?thesis unfolding links_expired_def f using fl b y n1 by auto
    qed
    then show ?thesis using 1(1) d(2) by (simp add: c True)
  next
    case False
    obtain es s' where 2: "cacc_run dt cfg cycles s1 = Some (es, s')" "es \<noteq> []" "vid s' = vid s1"
      "links_expired n (vid s1) (\<lambda>i. age (link_time s1 i) (nat (link_age s1 i)) (link_times i cycles)) (last es) s'"
      using Cons.IH[OF d(1,3) False] by blast
    have n1: "(1 :: int) \<in> {1..n}" using assms(3) by simp
    have "links_expired n (vid s) (\<lambda>i. age (link_time s i) (nat (link_age s i)) (link_times i (c # cycles))) (last es) s'"
      using 2(4) a n1 unfolding links_expired_def d(2) by auto
    then show ?thesis using 1(1) 2 d(2) by (simp add: c)
  qed
qed simp

end
