(* ===== verification/LongSense.thy ===== *)
theory LongSense
  imports LongTypes
begin

text \<open>
  Reading the vehicle, from truckcontrol/long_ctl/src/xyl/long_trk_func.c: \<open>read_sw\<close> copies the switches of the
  J1939 messages, \<open>read_jbus\<close> their measurements, follows the target of the radar and filters the speed of the
  engine.  The static variables of \<open>read_jbus\<close> are the record \<open>jbus_static\<close>.
\<close>

subsection \<open>Switches\<close>

text \<open>Fields of one bit: a J1939 switch has two, and "not available" is 3.\<close>

definition read_sw :: "vehicle_state \<Rightarrow> switches \<Rightarrow> switches" where
  "read_sw pv sw = sw\<lparr>
     sw_park_brk_sw := ucast (vs_CCVS_ParkingBrakeSwitch pv),
     sw_two_spd_axle_sw := ucast (vs_CCVS_TwoSpeedAxleSwitch pv),
     sw_park_brk_release := ucast (vs_CCVS_ParkBrakeReleaseInhibitRq pv),
     sw_clutch_sw := ucast (vs_CCVS_ClutchSwitch pv),
     sw_brk_sw := ucast (vs_CCVS_BrakeSwitch pv),
     sw_CC_pause_sw := ucast (vs_CCVS_CruiseCtrlPauseSwitch pv),
     sw_CC_enable_sw := ucast (vs_CCVS_CruiseControlEnableSwitch pv),
     sw_CC_active := ucast (vs_CCVS_CruiseControlActive pv),
     sw_CC_acel_sw := ucast (vs_CCVS_CruiseControlAccelerateSwitch pv),
     sw_CC_resume_sw := ucast (vs_CCVS_CruiseControlResumeSwitch pv),
     sw_CC_coast_sw := ucast (vs_CCVS_CruiseControlCoastSwitch pv),
     sw_CC_set_sw := ucast (vs_CCVS_CruiseControlSetSwitch pv),
     sw_CC_state := ucast (vs_CCVS_CruiseControlState pv),
     sw_Pto_state := ucast (vs_CCVS_PtoState pv),
     sw_eng_shutdwn_override_sw := ucast (vs_CCVS_EngShutdownOverrideSwitch pv),
     sw_eng_test_mode_sw := ucast (vs_CCVS_EngTestModeSwitch pv),
     sw_eng_idle_decre_sw := ucast (vs_CCVS_EngIdleDecrementSwitch pv),
     sw_end_idle_incre_sw := ucast (vs_CCVS_EngIdleIncrementSwitch pv),
     sw_driveline_enaged := ucast (vs_ETC1_TransmissionDrivelineEngaged pv),
     sw_lockup := ucast (vs_ETC1_TorqueConverterLockupEngaged pv),
     sw_gshift_sw := ucast (vs_ETC1_TransmissionShiftInProcess pv),
     sw_eng_overspeed_enbale := ucast (vs_ETC1_MomentaryEngineOverspeedEnable pv),
     sw_progressive_shift_disable := ucast (vs_ETC1_ProgressiveShiftDisable pv),
     sw_jk_enable_shift_assist_sw := ucast (vs_ERC1ERRetarderEnableShiftAssistSw pv),
     sw_jk_enable_brake_assist_sw := ucast (vs_ERC1ERRtdrEnablBrakeAssistSwitch pv),
     sw_jk_mode := ucast (vs_ERC1ERRetarderTorqueMode pv),
     sw_jk_require_brk_light := ucast (vs_ERC1ERRetarderRqingBrakeLight pv),
     sw_foundation_brk_use := ucast (vs_EBC5_FoundationBrakeUse pv),
     sw_halt_brk_mode := ucast (vs_EBC5_HaltBrakeMode pv),
     sw_XBR_accel_limit := ucast (vs_EBC5_XBRAccelerationLimit pv),
     sw_XBR_active_contr_mode := ucast (vs_EBC5_XBRActiveControlMode pv)\<rparr>"

subsection \<open>Measurements\<close>

definition read_engine :: "vehicle_state \<Rightarrow> jbus_read \<Rightarrow> jbus_read" where
  "read_engine pv jb = jb\<lparr>
     jb_we := vs_EEC1_EngineSpeed pv,
     jb_w_p := vs_ETC1_TransInputShaftSpeed pv,
     jb_w_t := vs_ETC1_TransmissionOutputShaftSpeed pv,
     jb_eng_mode := 0,
     jb_driver_dmd_percent_tq := vs_EEC1_DrvrDemandEngPercentTorque pv,
     jb_actual_eng_tq := vs_EEC1_ActualEnginePercentTorque pv,
     jb_eng_tq := 1200,
     jb_eng_dmd_percent_tq := vs_EEC1_EngDemandPercentTorque pv,
     jb_eng_tq_mode := vs_EEC1_EngineTorqueMode pv,
     jb_brk_pedal_pos := vs_EBC1_BrakePedalPosition pv,
     jb_brk_demand := vs_EBC1_BrakePedalPosition pv,
     jb_ebs_brake_switch := vs_EBSBrakeSwitch pv,
     jb_accel_pedal_volt := vs_acc_pedal_voltage pv,
     jb_accel_pedal_pos := vs_accelerator_pedal_position pv,
     jb_accel_pedal_pos1 := vs_EEC2_AccelPedalPos1 pv,
     jb_accel_pedal_pos2 := vs_EEC2_AccelPedalPos2 pv,
     jb_actual_max_eng_percent_tq := vs_EEC2_ActMaxAvailEngPercentTorque pv,
     jb_percent_load_at_current_spd := vs_EEC2_EnginePercentLoadAtCurrentSpd pv,
     jb_road_v_limit_status := vs_EEC2_RoadSpeedLimitStatus pv,
     jb_nominal_fric_percent_tq := vs_EEC3_NominalFrictionPercentTorque pv,
     jb_eng_des_Op_v := vs_EEC3_EngsDesiredOperatingSpeed pv\<rparr>"

definition read_brakes :: "vehicle_state \<Rightarrow> jbus_read \<Rightarrow> jbus_read" where
  "read_brakes pv jb = jb\<lparr>
     jb_brk_pedal_pos := vs_EBC1_BrakePedalPosition pv,
     jb_EBS_sw := vs_EBSBrakeSwitch pv,
     jb_ABS_amber_warning := vs_ABSEBSAmberWarningSignal pv,
     jb_ABS_Operation := vs_EBC1_ABSFullyOperational pv,
     jb_anti_lock_active := vs_EBC1_AntiLockBrakingActive pv,
     jb_ASR_brk_contr_active := vs_EBC1_ASRBrakeControlActive pv,
     jb_ASR_eng_contr_active := vs_EBC1_ASREngineControlActive pv,
     jb_EBS_red_warning := vs_EBC1_EBSRedWarningSignal pv,
     jb_jk_selection := vs_EBC1_EngRetarderSelection pv,
     jb_front_axle_spd := vs_EBC2_FrontAxleSpeed pv,
     jb_v := vs_CCVS_VehicleSpeed pv,
     jb_fl_axle_diff := vs_EBC2_RelativeSpeedFrontAxleLeftWheel pv,
     jb_fr_axle_diff := vs_EBC2_RlativeSpeedFrontAxleRightWheel pv,
     jb_rl_axle_diff := vs_EBC2_RelativeSpeedRearAxle1LeftWheel pv,
     jb_rr_axle_diff := vs_EBC2_RlativeSpeedRearAxle1RightWheel pv,
     jb_rl_axle2_diff := vs_EBC2_RlativeSpeedRearAxle2RightWheel pv,
     jb_rr_axle2_diff := vs_EBC2_RlativeSpeedRearAxle2RightWheel pv,
     jb_CC_set_v := (if vs_CCVS_CruiseControlSetSpeed pv < 0 then 0 else vs_CCVS_CruiseControlSetSpeed pv)\<rparr>"

definition read_transmission :: "vehicle_state \<Rightarrow> jbus_read \<Rightarrow> jbus_read" where
  "read_transmission pv jb = jb\<lparr>
     jb_trans_out_we := vs_ETC1_TransmissionOutputShaftSpeed pv,
     jb_trans_in_we := vs_ETC1_TransInputShaftSpeed pv,
     jb_percent_clutch_slip := vs_ETC1_PercentClutchSlip pv,
     jb_selected_gear := vs_ETC2_TransmissionSelectedGear pv,
     jb_actual_gear_ratio := vs_ETC2_TransmissionActualGearRatio pv,
     jb_gear := of_int (vs_ETC2_TransmissionCurrentGear pv),
     jb_trans_range_selected := vs_ETC2_TransmissionRangeSelected pv,
     jb_trans_range_attained := vs_ETC2_TransmissionRangeAttained pv,
     jb_gear_flt := of_int (vs_ETC2_TransmissionCurrentGear pv),
     jb_fuel_m := vs_LFE_EngineFuelRate pv,
     jb_instant_fuel_economy := vs_LFE_EngineInstantaneousFuelEconomy pv,
     jb_mean_fuel_economy := vs_LFE_EngineAverageFuelEconomy pv,
     jb_throttle_valve_pos := vs_LFE_EngineThrottleValve1Position pv,
     jb_jk_des_percent_tq := vs_ERC1ERIntendedRtdrPercentTorque pv,
     jb_jk_actual_percent_tq := vs_ERC1ERActualEngineRetPercentTrq pv,
     jb_jk_driver_dmd_percent_tq := vs_ERC1ERDrvrsDmandRtdrPerctTorque pv,
     jb_jk_selection_Non_Eng := vs_ERC1ERRetarderSelectionNonEng pv,
     jb_jk_max_percent_tq := of_int (vs_ERC1ERActlMxAvlbRtdrtPerctTorque pv),
     jb_pm := vs_boost_pressure pv,
     jb_lat_accel := vs_VDC2_LateralAcceleration pv,
     jb_long_accel := vs_VDC2_LongitudinalAcceleration pv,
     jb_steer_angle := vs_VDC2_SteeringWheelAngle pv,
     jb_yaw_rt := vs_VDC2_YawRate pv,
     jb_VP_lat := vs_VP_X_TGW_Latitude_BB1_X_TGW pv,
     jb_VP_long := vs_VP_X_TGW_Longitude_BB1_X_TGW pv,
     jb_brk_pres := vs_VBRK_BrkAppPressure pv,
     jb_brk_prm_pres := vs_VBRK_BrkPrimaryPressure pv,
     jb_brk_2nd_pres := vs_VBRK_BrkSecondaryPressure pv,
     jb_park_brk_status := int (unat (vs_VBRK_BrkStatParkBrkActuator pv)),
     jb_park_brk_red_signal := int (unat (vs_VBRK_ParkBrkRedWarningSignal pv)),
     jb_park_brk_release_status := int (unat (vs_VBRK_ParkBrkReleaseInhibitStat pv))\<rparr>"

definition read_grade :: "vehicle_state \<Rightarrow> jbus_read \<Rightarrow> jbus_read" where
  "read_grade pv jb =
    (let grd_offset = (if vs_VP15_VehicleWeightVP15 pv / 8000 < 15 / 10 then 355 / 100 else 2) in
     jb\<lparr>jb_grade := (if vs_VP15_RoadInclinationVP15 pv - grd_offset < - 1
       then vs_VP15_RoadInclinationVP15 pv - (grd_offset + 1) else vs_VP15_RoadInclinationVP15 pv - grd_offset)\<rparr>)"

definition read_sensors :: "vehicle_state \<Rightarrow> sens_read \<Rightarrow> sens_read" where
  "read_sensors pv se = se\<lparr>
     se_ego_a := vs_Volvo_EgoAcc pv,
     se_ego_v := vs_Volvo_EgoVel pv * (2778 / 10000),
     se_target_a := vs_Volvo_TargetAcc pv,
     se_target_v := vs_Volvo_TargetVel pv,
     se_target_d_raw := vs_Volvo_TargetDist pv\<rparr>"

subsection \<open>The target\<close>

record jbus_static = rj_we_old :: cfloat
  rj_target_d_buff :: cfloat
  rj_tgt_avail_t :: cfloat
  rj_Trgt_Avail_buff :: int

definition jbus_static0 :: jbus_static where
  "jbus_static0 = \<lparr>rj_we_old = 0, rj_target_d_buff = 0, rj_tgt_avail_t = 0, rj_Trgt_Avail_buff = 0\<rparr>"

text \<open>
  The distance follows the radar with a limited rate.  Both branches on \<open>veh_id\<close> are the same; the second condition
  on \<open>cut_out\<close> is kept, though it is tested only when a target is there.
\<close>

definition limit_distance :: "cfloat \<Rightarrow> cfloat \<Rightarrow> cfloat" where
  "limit_distance buff d = (if d > buff + 15 / 100 then buff + 15 / 100 else if d < buff - 5 / 10 then buff - 5 / 10 else d)"

definition read_target :: "cfloat \<Rightarrow> vehicle_state \<Rightarrow> jbus_static \<times> sens_read \<times> vehicle_info \<Rightarrow> jbus_static \<times> sens_read \<times> vehicle_info" where
  "read_target delta_t pv = (\<lambda>(st, se, v).
    (let avail = c_trunc (vs_Volvo_TargetAvailable pv);
         d = vs_Volvo_TargetDist pv;
         (st, se, v) = (if avail = 1 then
           let (st, se) = (if rj_tgt_avail_t st < 5 / 10
                 then (st\<lparr>rj_tgt_avail_t := rj_tgt_avail_t st + delta_t, rj_target_d_buff := d\<rparr>, se\<lparr>se_target_d := d\<rparr>)
                 else (st, se));
               v = (if d > rj_target_d_buff st + 20 * delta_t \<or> avail = 0 then v\<lparr>vi_cut_out := ON, vi_cut_in := OFF\<rparr> else v);
               v = (if d < rj_target_d_buff st - 20 * delta_t then v\<lparr>vi_cut_in := ON, vi_cut_out := OFF\<rparr> else v);
               st = st\<lparr>rj_Trgt_Avail_buff := avail\<rparr>;
               se = se\<lparr>se_target_d := limit_distance (rj_target_d_buff st) d\<rparr>
           in (st\<lparr>rj_target_d_buff := se_target_d se\<rparr>, se, v)
         else (st\<lparr>rj_tgt_avail_t := 0\<rparr>, se\<lparr>se_target_d := 200\<rparr>, v));
         v = (if vi_cut_in v = ON then v\<lparr>vi_cut_in_t := vi_cut_in_t v + delta_t\<rparr> else v\<lparr>vi_cut_in_t := 0\<rparr>)
     in (st, se\<lparr>se_target_avail := avail\<rparr>, v)))"

subsection \<open>The speed of the engine\<close>

text \<open>The local variable \<open>we\<close> is zero at the start of every call, and is not set from the bus before it is used.\<close>

definition filter_we :: "cfloat \<Rightarrow> u1 \<Rightarrow> cfloat \<Rightarrow> cfloat \<Rightarrow> cfloat \<times> cfloat" where
  "filter_we t_filter gshift_sw we_old jbus_we =
    (if t_filter < 7 / 100 then (jbus_we, jbus_we)
     else let we = 0;
       we = (if gshift_sw = 0 then if we - we_old > 5 then we_old + 5 else if we - we_old < - 5 then we_old - 5 else we
             else if we - we_old > 20 then we_old + 20 else if we - we_old < - 20 then we_old - 20 else we)
     in (we, we * (2 / 10) + jbus_we * (8 / 10)))"

definition read_jbus :: "cfloat \<Rightarrow> cfloat \<Rightarrow> vehicle_state \<Rightarrow> switches \<Rightarrow>
    jbus_static \<times> jbus_read \<times> sens_read \<times> vehicle_info \<Rightarrow> jbus_static \<times> jbus_read \<times> sens_read \<times> vehicle_info" where
  "read_jbus delta_t t_filter pv sw = (\<lambda>(st, jb, se, v).
    (let jb = read_grade pv (read_transmission pv (read_brakes pv (read_engine pv jb)));
         (st, se, v) = read_target delta_t pv (st, read_sensors pv se, v\<lparr>vi_weight := vs_VP15_VehicleWeightVP15 pv\<rparr>);
         (we_old, we) = filter_we t_filter (sw_gshift_sw sw) (rj_we_old st) (jb_we jb)
     in (st\<lparr>rj_we_old := we_old\<rparr>, jb\<lparr>jb_we := we\<rparr>, se, v)))"

end
