(* ===== verification/Actuate.thy ===== *)
theory Actuate
  imports LongTypes
begin

text \<open>
  \<open>actuate\<close> of truckcontrol/long_ctl/src/xyl/long_trk_func.c: from the torque and retarder demands of the controller
  to the control variable that jbussend.c sends to the bus.  \<open>tq_we\<close> (result and torque) and \<open>max_f\<close> belong to
  the controller library; \<open>idle\<close> is the variable \<open>inactive_ctrl\<close> of the caller.  What goes to the terminal is left out.
\<close>

subsection \<open>State\<close>

record actuate_static = at_eng_tq_tmp :: cfloat
  at_eng_tq_buff :: cfloat
  at_eng_torq_buff :: cfloat
  at_eng_retard_buff :: cfloat
  at_eng_tq_ini :: int
  at_eng_retard_ini :: int
  at_trans_t :: cfloat
  at_tq_f_t :: cfloat
  at_jk_f_t :: cfloat
  at_we_buff :: cfloat
  at_JK_cut_in_t :: cfloat
  at_cmd_count :: int

definition actuate_static0 :: actuate_static where
  "actuate_static0 = \<lparr>at_eng_tq_tmp = 0, at_eng_tq_buff = 0, at_eng_torq_buff = 0, at_eng_retard_buff = 0, at_eng_tq_ini = 1,
     at_eng_retard_ini = 1, at_trans_t = 0, at_tq_f_t = 0, at_jk_f_t = 0, at_we_buff = 600, at_JK_cut_in_t = 0, at_cmd_count = 0\<rparr>"

text \<open>What the function changes, and what it only reads.\<close>

record act = ac_static :: actuate_static
  ac_pcmd :: long_output
  ac_con :: control_state
  ac_fault :: fault_index

record act_in = ai_out :: con_output
  ai_mng :: manager_cmd
  ai_sw :: switches
  ai_jbus :: jbus_read
  ai_veh :: vehicle_info
  ai_sens :: sens_read

definition dither :: "int \<Rightarrow> cfloat \<Rightarrow> cfloat \<Rightarrow> cfloat" where
  "dither cmd_count a x = (if cmd_count = 10 then x + a else if cmd_count = 20 then x - a else x)"

subsection \<open>Engine torque\<close>

definition torque_demand :: "act_in \<Rightarrow> control_state \<Rightarrow> cfloat" where
  "torque_demand i con = (let eng_tq_tmp = co_y1 (ai_out i) / 2589 in
     if vi_veh_id (ai_veh i) = 1 then
       (if cs_max_spd con < 26 * (44694 / 100000) then
          let tmp_rate = (cs_ref_v con - cs_spd con) / 3;
              tmp_rate = (if tmp_rate > 3 / 10 then 3 / 10 else tmp_rate);
              tmp_rate = (if tmp_rate < - 3 / 10 then - 3 / 10 else tmp_rate)
          in (1 + tmp_rate) * eng_tq_tmp * 108
        else eng_tq_tmp * 100)
     else eng_tq_tmp * 100)"

definition torque_transition :: "cfloat \<Rightarrow> act_in \<Rightarrow> act \<Rightarrow> act" where
  "torque_transition delta_t i a =
    (let st = (ac_static a)\<lparr>at_eng_tq_tmp := torque_demand i (ac_con a)\<rparr>;
         st = (if mc_trans_mode (ai_mng i) = 0
           then st\<lparr>at_eng_tq_buff := lo_engine_torque (ac_pcmd a), at_trans_t := 0\<rparr> else st);
         (st, torque) = (if mc_trans_mode (ai_mng i) > 12 then
             let st = st\<lparr>at_trans_t := at_trans_t st + delta_t\<rparr>
             in (st, at_eng_tq_buff st * (1 - at_trans_t st / 2) + (at_trans_t st / 2) * at_eng_tq_tmp st)
           else (st, at_eng_tq_tmp st))
     in a\<lparr>ac_static := st, ac_pcmd := (ac_pcmd a)\<lparr>lo_engine_torque := torque\<rparr>\<rparr>)"

text \<open>The rate of a rising torque is limited from 40 per cent on.\<close>

definition limit_rise :: "cfloat \<Rightarrow> cfloat \<Rightarrow> cfloat \<Rightarrow> cfloat" where
  "limit_rise delta_t buff x =
    (let x = (if x > 40 \<and> x > buff + 10 * delta_t then buff + 10 * delta_t else x);
         x = (if x > 60 \<and> x > buff + 9 * delta_t then buff + 9 * delta_t else x)
     in if x > 80 \<and> x > buff + 8 * delta_t then buff + 8 * delta_t else x)"

definition torque_limit :: "cfloat \<Rightarrow> act_in \<Rightarrow> act \<Rightarrow> act" where
  "torque_limit delta_t i a =
    (let st = ac_static a; x = lo_engine_torque (ac_pcmd a);
         st = (if at_eng_tq_ini st = 1 \<and> mc_drive_mode (ai_mng i) > 1 then st\<lparr>at_eng_torq_buff := x, at_eng_tq_ini := 0\<rparr> else st);
         st = (if mc_drive_mode (ai_mng i) \<le> 1 then st\<lparr>at_eng_tq_ini := 1\<rparr> else st);
         x = limit_rise delta_t (at_eng_torq_buff st) x;
         st = st\<lparr>at_eng_torq_buff := x\<rparr>;
         x = (if x > 985 / 10 then 985 / 10 else x)
     in a\<lparr>ac_static := st, ac_pcmd := (ac_pcmd a)\<lparr>lo_engine_torque := dither (at_cmd_count st) 1 x\<rparr>\<rparr>)"

definition torque_fault :: "cfloat \<Rightarrow> act_in \<Rightarrow> act \<Rightarrow> act" where
  "torque_fault delta_t i a =
    (let st = ac_static a; we = jb_we (ai_jbus i);
         st = (if lo_engine_torque (ac_pcmd a) > 80 \<and> we - at_we_buff st < 2
           then st\<lparr>at_tq_f_t := at_tq_f_t st + delta_t\<rparr> else st\<lparr>at_tq_f_t := 0\<rparr>);
         st = st\<lparr>at_we_buff := we\<rparr>
     in a\<lparr>ac_static := st\<lparr>at_eng_retard_ini := 1\<rparr>,
          ac_fault := (ac_fault a)\<lparr>fi_torq := (if at_tq_f_t st > 5 / 10 then 1 else 0)\<rparr>\<rparr>)"

definition short_cut_in :: "act_in \<Rightarrow> act \<Rightarrow> act" where
  "short_cut_in i a = (if mc_control_mode (ai_mng i) = 1 \<or> mc_control_mode (ai_mng i) = 2 then
     a\<lparr>ac_pcmd := (ac_pcmd a)\<lparr>lo_engine_torque := 0, lo_engine_command_mode := XBR_NOT_ACTIVE,
       lo_engine_retarder_command_mode := TSC_TORQUE_CONTROL, lo_engine_retarder_priority := TSC_HIGH,
       lo_engine_retarder_torque := - (dither (at_cmd_count (ac_static a)) 1 10)\<rparr>\<rparr>
   else a)"

definition act_engine :: "cfloat \<Rightarrow> act_in \<Rightarrow> act \<Rightarrow> act" where
  "act_engine delta_t i a = (if co_con_sw_1 (ai_out i) = 1 then
     let a = a\<lparr>ac_pcmd := (ac_pcmd a)\<lparr>lo_engine_command_mode := TSC_TORQUE_CONTROL,
           lo_engine_retarder_command_mode := TSC_OVERRIDE_DISABLED, lo_engine_retarder_torque := 0,
           lo_brake_command_mode := TSC_OVERRIDE_DISABLED, lo_ebs_deceleration := 0, lo_engine_priority := TSC_MEDIUM\<rparr>\<rparr>
     in short_cut_in i (torque_fault delta_t i (torque_limit delta_t i (torque_transition delta_t i a)))
   else a\<lparr>ac_pcmd := (ac_pcmd a)\<lparr>lo_engine_command_mode := XBR_NOT_ACTIVE, lo_engine_torque := 0\<rparr>\<rparr>)"

definition act_takeover :: "act_in \<Rightarrow> act \<Rightarrow> act" where
  "act_takeover i a = (if jb_accel_pedal_pos1 (ai_jbus i) > 2 \<or> sw_brk_sw (ai_sw i) = 1
     then a\<lparr>ac_pcmd := (ac_pcmd a)\<lparr>lo_engine_command_mode := TSC_OVERRIDE_DISABLED\<rparr>\<rparr> else a)"

subsection \<open>Engine retarder\<close>

definition limit_fall :: "cfloat \<Rightarrow> cfloat \<Rightarrow> cfloat \<Rightarrow> cfloat" where
  "limit_fall delta_t buff x =
    (let x = (if x < - 60 \<and> x < buff - 15 * delta_t then buff - 15 * delta_t else x);
         x = (if x < - 75 \<and> x < buff - 125 / 10 * delta_t then buff - 125 / 10 * delta_t else x)
     in if x < - 90 \<and> x < buff - 10 * delta_t then buff - 10 * delta_t else x)"

text \<open>The share of the demand that is asked for; of the chain of conditions the first is the weakest.\<close>

definition retarder_share :: "int \<Rightarrow> cfloat \<Rightarrow> cfloat" where
  "retarder_share veh_id x =
    (if veh_id = 1 then
       if x < - 5 then 25 / 100 * x else if x < - 6 then 3 / 10 * x else if x < - 8 then 5 / 10 * x
       else if x < - 10 then 8 / 10 * x else x
     else if x < - 5 then 5 / 10 * x else if x < - 6 then 65 / 100 * x else if x < - 8 then 8 / 10 * x else x)"

definition retarder_torque :: "(cfloat \<Rightarrow> cfloat \<Rightarrow> cfloat) \<Rightarrow> cfloat \<Rightarrow> act_in \<Rightarrow> act \<Rightarrow> act" where
  "retarder_torque max_f delta_t i a =
    (let st = ac_static a;
         x = 100 * co_y12 (ai_out i) / max_f 100 (cs_max_jk_we (ac_con a));
         x = (if x > 0 then 0 else x);
         st = (if at_eng_retard_ini st = 1 \<and> mc_drive_mode (ai_mng i) > 1
           then st\<lparr>at_eng_retard_buff := x, at_eng_retard_ini := 0\<rparr> else st);
         st = (if mc_drive_mode (ai_mng i) \<le> 1 then st\<lparr>at_eng_retard_ini := 1\<rparr> else st);
         x = limit_fall delta_t (at_eng_retard_buff st) x;
         st = st\<lparr>at_eng_retard_buff := x\<rparr>;
         x = retarder_share (vi_veh_id (ai_veh i)) x;
         x = (if x < - 985 / 10 then - 985 / 10 else x)
     in a\<lparr>ac_static := st, ac_pcmd := (ac_pcmd a)\<lparr>lo_engine_command_mode := XBR_NOT_ACTIVE, lo_engine_torque := 0,
          lo_engine_retarder_command_mode := XBR_ACTIVE, lo_engine_retarder_priority := TSC_HIGHEST,
          lo_engine_retarder_torque := dither (at_cmd_count st) (- 1) x\<rparr>\<rparr>)"

definition retarder_fault :: "cfloat \<Rightarrow> act_in \<Rightarrow> act \<Rightarrow> act" where
  "retarder_fault delta_t i a =
    (let st = ac_static a;
         st = (if lo_engine_retarder_torque (ac_pcmd a) \<le> - 90 \<and> jb_long_accel (ai_jbus i) > - 1 / 10
           then st\<lparr>at_jk_f_t := at_jk_f_t st + delta_t\<rparr> else st\<lparr>at_jk_f_t := 0\<rparr>);
         f = (ac_fault a)\<lparr>fi_jake := (if at_jk_f_t st > 5 / 10 then 1 else 0)\<rparr>;
         p = (if fi_jake f = 1 then (ac_pcmd a)\<lparr>lo_engine_retarder_priority := TSC_HIGHEST\<rparr> else ac_pcmd a)
     in a\<lparr>ac_static := st\<lparr>at_eng_tq_ini := 1\<rparr>, ac_pcmd := p, ac_fault := f\<rparr>)"

definition act_retarder :: "(cfloat \<Rightarrow> cfloat \<Rightarrow> cfloat) \<Rightarrow> cfloat \<Rightarrow> act_in \<Rightarrow> act \<Rightarrow> act" where
  "act_retarder max_f delta_t i a = (if co_con_sw_3 (ai_out i) = 1
     then retarder_fault delta_t i (retarder_torque max_f delta_t i a)
     else a\<lparr>ac_pcmd := (ac_pcmd a)\<lparr>lo_engine_retarder_command_mode := TSC_OVERRIDE_DISABLED, lo_engine_retarder_torque := 0\<rparr>\<rparr>)"

text \<open>A vehicle closer than ten metres.\<close>

definition act_cut_in :: "cfloat \<Rightarrow> act_in \<Rightarrow> act \<Rightarrow> act" where
  "act_cut_in delta_t i a = (let st = ac_static a in
     if at_JK_cut_in_t st < 3 \<and> se_target_d_raw (ai_sens i) < 10 then
       a\<lparr>ac_static := st\<lparr>at_JK_cut_in_t := at_JK_cut_in_t st + delta_t\<rparr>,
         ac_pcmd := (ac_pcmd a)\<lparr>lo_engine_command_mode := XBR_NOT_ACTIVE, lo_engine_torque := 0,
           lo_engine_retarder_command_mode := XBR_ACTIVE, lo_engine_retarder_priority := TSC_HIGHEST,
           lo_engine_retarder_torque := - 20 * cs_wt_factor (ac_con a)\<rparr>\<rparr>
     else a\<lparr>ac_static := st\<lparr>at_JK_cut_in_t := 0\<rparr>\<rparr>)"

subsection \<open>Service brake\<close>

text \<open>The assignments of a deceleration are commented out in the branch that activates the brake.\<close>

definition act_brake :: "act_in \<Rightarrow> act \<Rightarrow> act" where
  "act_brake i a =
    (let a = (if co_con_sw_5 (ai_out i) = 1 then
           a\<lparr>ac_static := (ac_static a)\<lparr>at_eng_tq_ini := 1\<rparr>,
             ac_pcmd := (ac_pcmd a)\<lparr>lo_brake_command_mode := XBR_ACTIVE, lo_brake_priority := TSC_HIGHEST,
               lo_engine_command_mode := TSC_OVERRIDE_DISABLED, lo_engine_torque := 0\<rparr>\<rparr>
         else a\<lparr>ac_pcmd := (ac_pcmd a)\<lparr>lo_brake_command_mode := XBR_NOT_ACTIVE, lo_ebs_deceleration := 0\<rparr>\<rparr>)
     in a\<lparr>ac_fault := (ac_fault a)\<lparr>fi_brk := (if lo_ebs_deceleration (ac_pcmd a) \<le> - 12 / 10 \<and> jb_long_accel (ai_jbus i) \<ge> 0
          then 1 else 0)\<rparr>\<rparr>)"

subsection \<open>All\<close>

definition inactive :: "act_in \<Rightarrow> bool" where
  "inactive i \<longleftrightarrow> mc_drive_mode (ai_mng i) = 0 \<or> mc_drive_mode (ai_mng i) = 1 \<or> mc_f_manage_index (ai_mng i) = 3 \<or> sw_brake_sw (ai_sw i) = 1"

definition actuate :: "(cfloat \<Rightarrow> int \<times> cfloat) \<Rightarrow> (cfloat \<Rightarrow> cfloat \<Rightarrow> cfloat) \<Rightarrow> long_output \<Rightarrow> cfloat \<Rightarrow> act_in \<Rightarrow> act \<Rightarrow> act" where
  "actuate tq_we max_f idle delta_t i a =
    (let c = at_cmd_count (ac_static a) + 1;
         a = a\<lparr>ac_static := (ac_static a)\<lparr>at_cmd_count := (if c > 20 then 0 else c)\<rparr>,
           ac_con := (ac_con a)\<lparr>cs_max_tq_we := snd (tq_we (jb_we (ai_jbus i)))\<rparr>\<rparr>;
         a = act_engine delta_t i a;
         a = act_takeover i a;
         a = act_retarder max_f delta_t i a;
         a = act_cut_in delta_t i a;
         a = act_brake i a
     in if inactive i then a\<lparr>ac_pcmd := idle\<rparr> else a)"

subsection \<open>Never two at a time\<close>

text \<open>At most one of engine, and retarder or brake, is under control.\<close>

definition exclusive :: "long_output \<Rightarrow> bool" where
  "exclusive p \<longleftrightarrow> lo_engine_command_mode p = TSC_OVERRIDE_DISABLED \<or>
     lo_engine_retarder_command_mode p = TSC_OVERRIDE_DISABLED \<and> lo_brake_command_mode p = XBR_NOT_ACTIVE"

lemma takeover_law:
  "ac_static (act_takeover i a) = ac_static a" "ac_con (act_takeover i a) = ac_con a" "ac_fault (act_takeover i a) = ac_fault a"
  "jb_accel_pedal_pos1 (ai_jbus i) > 2 \<or> sw_brk_sw (ai_sw i) = 1 \<Longrightarrow> lo_engine_command_mode (ac_pcmd (act_takeover i a)) = TSC_OVERRIDE_DISABLED"
  by (auto simp: act_takeover_def)

lemma retarder_modes:
  "lo_engine_command_mode (ac_pcmd (act_retarder mx dt i a)) =
     (if co_con_sw_3 (ai_out i) = 1 then TSC_OVERRIDE_DISABLED else lo_engine_command_mode (ac_pcmd a))"
  "lo_engine_retarder_command_mode (ac_pcmd (act_retarder mx dt i a)) =
     (if co_con_sw_3 (ai_out i) = 1 then XBR_ACTIVE else TSC_OVERRIDE_DISABLED)"
  by (simp_all add: act_retarder_def retarder_fault_def retarder_torque_def Let_def split: prod.split)

lemma cut_in_modes:
  "lo_engine_command_mode (ac_pcmd (act_cut_in dt i a)) = TSC_OVERRIDE_DISABLED \<and>
     lo_engine_retarder_command_mode (ac_pcmd (act_cut_in dt i a)) = XBR_ACTIVE \<or> ac_pcmd (act_cut_in dt i a) = ac_pcmd a"
  by (simp add: act_cut_in_def Let_def)

lemma brake_modes:
  "lo_engine_command_mode (ac_pcmd (act_brake i a)) =
     (if co_con_sw_5 (ai_out i) = 1 then TSC_OVERRIDE_DISABLED else lo_engine_command_mode (ac_pcmd a))"
  "lo_brake_command_mode (ac_pcmd (act_brake i a)) = (if co_con_sw_5 (ai_out i) = 1 then XBR_ACTIVE else XBR_NOT_ACTIVE)"
  "lo_engine_retarder_command_mode (ac_pcmd (act_brake i a)) = lo_engine_retarder_command_mode (ac_pcmd a)"
  by (simp_all add: act_brake_def Let_def)

lemma actuate_exclusive: "exclusive idle \<Longrightarrow> exclusive (ac_pcmd (actuate tw mx idle dt i a))"
proof -
  have "exclusive (ac_pcmd (act_brake i (act_cut_in dt i (act_retarder mx dt i b))))" for b
    using cut_in_modes[of dt i "act_retarder mx dt i b"] by (auto simp: exclusive_def brake_modes retarder_modes)
  then show "exclusive idle \<Longrightarrow> ?thesis" by (simp add: actuate_def Let_def)
qed

end
