(* ===== verification/LongTrk.thy ===== *)
theory LongTrk
  imports CaccCommLaws LongSense Actuate
begin

text \<open>
  The longitudinal controller of the trucks, truckcontrol/long_ctl/src/xyl/long_trk.c: its start (\<open>init_tasks\<close>), one
  control cycle (\<open>run_tasks\<close>), part by part in the order of the code, and its end.  The reference trajectories and the
  control law are in a library that is not in the repository in source (libtrack.a.compiled; the older sources in
  long_lib have other parameters), so its functions are a parameter: each gets the structures it has pointers to, and a
  state of its own.  The build has \<open>DVI\<close> defined, and \<open>COMM_DATA\<close>, \<open>TASK_CONTROL\<close>,
  \<open>TEST_BRK\<close> and \<open>Veh_ID_ReConfig\<close> not.  The positions of the trucks by GPS and the log file are left out:
  nothing else uses them.
\<close>

subsection \<open>The library\<close>

text \<open>
  \<open>tl_modf n\<close> is what \<open>modf((double) n, &tmp_int)\<close> leaves in \<open>tmp_int\<close>, an \<open>int\<close> where
  a \<open>double\<close> is expected.
\<close>

record 'l track_lib =
  tl_coording :: "cfloat \<Rightarrow> cfloat \<Rightarrow> 'l \<times> control_state \<times> sens_read \<times> jbus_read \<times> control_config \<times> switches \<times> vehicle_info \<times>
    pltn_info \<times> manager_cmd \<Rightarrow> 'l \<times> control_state \<times> sens_read \<times> jbus_read \<times> control_config \<times> switches \<times> vehicle_info \<times>
    pltn_info \<times> manager_cmd"
  tl_maneuver :: "cfloat \<Rightarrow> cfloat \<Rightarrow> cfloat \<Rightarrow> 'l \<times> control_config \<times> control_state \<times> sens_read \<times> switches \<times> vehicle_info \<times>
    fault_index \<times> (int \<times> int) \<times> manager_cmd \<times> pltn_info \<Rightarrow> 'l \<times> control_config \<times> control_state \<times> sens_read \<times> switches \<times>
    vehicle_info \<times> fault_index \<times> (int \<times> int) \<times> manager_cmd \<times> pltn_info"
  tl_ref_dist :: "cfloat \<Rightarrow> 'l \<times> (int \<times> int) \<times> sens_read \<times> vehicle_info \<times> manager_cmd \<times> fault_index \<times> control_state \<times>
    control_config \<times> pltn_info \<Rightarrow> 'l \<times> (int \<times> int) \<times> sens_read \<times> vehicle_info \<times> manager_cmd \<times> fault_index \<times> control_state \<times>
    control_config \<times> pltn_info"
  tl_cacc :: "cfloat \<Rightarrow> 'l \<times> (int \<times> int) \<times> jbus_read \<times> manager_cmd \<times> control_config \<times> control_state \<times> switches \<times>
    vehicle_info \<times> con_output \<Rightarrow> 'l \<times> (int \<times> int) \<times> jbus_read \<times> manager_cmd \<times> control_config \<times> control_state \<times> switches \<times>
    vehicle_info \<times> con_output"
  tl_est_dist :: "cfloat \<Rightarrow> 'l \<times> sens_read \<times> control_state \<times> (int \<times> int) \<times> (int \<times> int) \<times> fault_index \<times> manager_cmd \<Rightarrow>
    'l \<times> sens_read \<times> control_state \<times> (int \<times> int) \<times> (int \<times> int) \<times> fault_index \<times> manager_cmd"
  tl_v_flt :: "cfloat \<Rightarrow> cfloat \<Rightarrow> 'l \<times> cfloat \<times> fault_index \<Rightarrow> 'l \<times> cfloat \<times> fault_index"
  tl_tq_we :: "cfloat \<Rightarrow> int \<times> cfloat"
  tl_max_f :: "cfloat \<Rightarrow> cfloat \<Rightarrow> cfloat"
  tl_min_f :: "cfloat \<Rightarrow> cfloat \<Rightarrow> cfloat"
  tl_max_i :: "int \<Rightarrow> int \<Rightarrow> int"
  tl_modf :: "int \<Rightarrow> int"

subsection \<open>State\<close>

text \<open>\<open>long_dig_out_typ\<close> without its time.\<close>

record dig_out = do_outchar :: u8
  do_amber_flash :: u8
  do_xy_alive :: u8

text \<open>The last faults seen, \<open>f_..._buff\<close>.\<close>

record fault_buff = fb_torq :: u1
  fb_radar :: u1
  fb_lidar :: u1
  fb_jake :: u1
  fb_brk :: u1
  fb_comm :: u1

text \<open>The static variables of the files, and what the program wrote to the data server.\<close>

record 'l trk = tk_lib :: 'l
  tk_config :: control_config
  tk_con :: control_state
  tk_out :: con_output
  tk_sw :: switches
  tk_jbus :: jbus_read
  tk_sens :: sens_read
  tk_pltn :: pltn_info
  tk_veh :: vehicle_info
  tk_mng :: manager_cmd
  tk_fault :: fault_index
  tk_reply :: u16
  tk_receive :: packets
  tk_send :: veh_comm_packet
  tk_global_time :: cfloat
  tk_local_time :: cfloat
  tk_tg :: cfloat
  tk_max_spd_ini :: bool
  tk_maneuver_id :: "int \<times> int"
  tk_pre_maneuver_id :: "int \<times> int"
  tk_run_dist :: cfloat
  tk_v :: cfloat
  tk_buff :: fault_buff
  tk_cacc :: cacc_static
  tk_read :: jbus_static
  tk_act :: actuate_static
  tk_dig_out :: dig_out
  tk_led :: "dig_out list"
  tk_tx :: "veh_comm_packet list"

text \<open>The initialiser of \<open>inactive_ctrl\<close> has no values for the priorities, as the one in jbussend.c.\<close>

definition trk_inactive_ctrl :: long_output where
  "trk_inactive_ctrl = \<lparr>lo_engine_speed = 600, lo_engine_torque = 320 / 2589, lo_engine_retarder_torque = 0,
     lo_engine_command_mode = TSC_OVERRIDE_DISABLED, lo_engine_retarder_command_mode = TSC_OVERRIDE_DISABLED,
     lo_engine_priority = 0, lo_engine_retarder_priority = 0, lo_brake_priority = XBR_NOT_ACTIVE,
     lo_acc_pedal_control = 0, lo_ebs_deceleration = 0, lo_brake_command_mode = 0, lo_trans_retarder_value = 0,
     lo_trans_retarder_command_mode = 0, lo_fb_control = 0, lo_rb_control = 0, lo_fan_override = 0, lo_fan_control = 0,
     lo_selected_gap_level = 0\<rparr>"

text \<open>\<open>long_setled\<close> of common/long_utils.c, by the number of the fault code.\<close>

definition set_led :: "int \<Rightarrow> dig_out \<Rightarrow> dig_out" where
  "set_led faultcode d =
    (if faultcode = 1 then d\<lparr>do_outchar := 0x80, do_amber_flash := 0\<rparr>
     else if faultcode = 2 then d\<lparr>do_outchar := 0x20 OR 0x40, do_amber_flash := 1\<rparr>
     else if faultcode = 3 then d\<lparr>do_outchar := 0x20 OR 0x40, do_amber_flash := 0\<rparr>
     else if faultcode = 4 then d\<lparr>do_outchar := 0x20, do_amber_flash := 0\<rparr>
     else if faultcode = 5 then d\<lparr>do_outchar := 0x20 OR 0x10, do_amber_flash := 0\<rparr>
     else if faultcode = 6 then d\<lparr>do_outchar := 0x40, do_amber_flash := 0\<rparr>
     else if faultcode = 7 then d\<lparr>do_outchar := 0, do_amber_flash := 0\<rparr>
     else if faultcode = 8 then d\<lparr>do_xy_alive := do_xy_alive d + 1\<rparr>
     else d)"

definition long_setled :: "int \<Rightarrow> 'l trk \<Rightarrow> 'l trk" where
  "long_setled faultcode k = (let d = set_led faultcode (tk_dig_out k) in k\<lparr>tk_dig_out := d, tk_led := tk_led k @ [d]\<rparr>)"

abbreviation (input) FLT_HI :: int where "FLT_HI \<equiv> 1"
abbreviation (input) FLT_MED :: int where "FLT_MED \<equiv> 2"
abbreviation (input) FLT_LOW :: int where "FLT_LOW \<equiv> 3"
abbreviation (input) LONG_CTL_ACTIVE :: int where "LONG_CTL_ACTIVE \<equiv> 6"
abbreviation (input) LONG_CTL_INACTIVE :: int where "LONG_CTL_INACTIVE \<equiv> 7"
abbreviation (input) TOGGLE_WATCHDOG :: int where "TOGGLE_WATCHDOG \<equiv> 8"

abbreviation (input) mph2mps :: cfloat where "mph2mps \<equiv> 44694 / 100000"
abbreviation (input) DES_FOLLOW_DIST :: cfloat where "DES_FOLLOW_DIST \<equiv> 10"

subsection \<open>The start of a cycle\<close>

definition rt_packets :: "vehicle_state \<Rightarrow> 'l trk \<Rightarrow> 'l trk" where
  "rt_packets pv k =
    (let n = cc_pltn_size (tk_config k);
         k = k\<lparr>tk_pltn := (tk_pltn k)\<lparr>pi_pltn_size := n\<rparr>\<rparr>;
         k = (if n = 1 then k\<lparr>tk_veh := (tk_veh k)\<lparr>vi_ready := 1\<rparr>\<rparr> else k)
     in if cc_use_comm (tk_config k) = 1 then
          (if n = 2 then k\<lparr>tk_receive := (tk_receive k)(1 := vs_lead_trk pv, 2 := vs_second_trk pv)\<rparr>
           else if n = 3 then k\<lparr>tk_receive := (tk_receive k)(1 := vs_lead_trk pv, 2 := vs_second_trk pv, 3 := vs_third_trk pv)\<rparr>
           else k)
        else k)"

definition rt_max_speed :: "'l trk \<Rightarrow> 'l trk" where
  "rt_max_speed k = k\<lparr>tk_config := (tk_config k)\<lparr>cc_max_spd := 55 * mph2mps\<rparr>, tk_mng := (tk_mng k)\<lparr>mc_set_v := 55 * mph2mps\<rparr>,
     tk_con := (tk_con k)\<lparr>cs_max_spd := 55 * mph2mps\<rparr>\<rparr>"

text \<open>The time gap, from the driver's display.\<close>

definition leader_gap :: "u8 \<Rightarrow> cfloat" where
  "leader_gap gap_request = (if gap_request = 1 then 11 / 10 else if gap_request = 2 then 13 / 10 else if gap_request = 3 then 15 / 10
     else if gap_request = 4 then 17 / 10 else if gap_request = 5 then 19 / 10 else 16 / 10)"

definition follower_gap :: "u8 \<Rightarrow> int \<Rightarrow> cfloat" where
  "follower_gap gap_request cut_in =
    (let unless_cut_in = (\<lambda>g. if cut_in \<noteq> 1 then g else 14 / 10) in
     if gap_request = 1 then unless_cut_in (6 / 10) else if gap_request = 2 then unless_cut_in (9 / 10)
     else if gap_request = 3 then unless_cut_in (12 / 10)
     else if gap_request = 4 then 15 / 10 else if gap_request = 5 then 18 / 10 else unless_cut_in (12 / 10))"

definition follow_dist :: "control_config \<Rightarrow> control_state \<Rightarrow> control_state" where
  "follow_dist cfg con =
    (let con = (if cc_truck_ACC cfg = 1 then con\<lparr>cs_des_f_dist := cs_spd con * cc_ACC_tGap cfg\<rparr> else con);
         con = (if cc_truck_CACC cfg = 1 then con\<lparr>cs_des_f_dist := cs_spd con * cc_CACC_tGap cfg\<rparr> else con)
     in if cs_des_f_dist con < DES_FOLLOW_DIST then con\<lparr>cs_des_f_dist := DES_FOLLOW_DIST\<rparr> else con)"

definition rt_gaps :: "vehicle_state \<Rightarrow> 'l trk \<Rightarrow> 'l trk" where
  "rt_gaps pv k =
    (let cfg = tk_config k;
         cfg = (if vi_veh_id (tk_veh k) = 1 then
             cfg\<lparr>cc_truck_ACC := 1, cc_truck_CACC := 0, cc_ACC_tGap := 16 / 10, cc_CACC_tGap := leader_gap (vs_gap_request pv)\<rparr>
           else (if vs_acc_cacc_request pv = 1 then cfg\<lparr>cc_truck_CACC := 0, cc_truck_ACC := 1\<rparr>
                 else cfg\<lparr>cc_truck_CACC := 1, cc_truck_ACC := 0\<rparr>)
             \<lparr>cc_CACC_tGap := follower_gap (vs_gap_request pv) (vi_cut_in (tk_veh k))\<rparr>);
         con = tk_con k;
         con = (if tk_max_spd_ini k then (follow_dist cfg con)\<lparr>cs_ACC_tGap := cc_ACC_tGap cfg, cs_CACC_tGap := cc_CACC_tGap cfg\<rparr> else con)
     in k\<lparr>tk_config := cfg, tk_con := con, tk_max_spd_ini := False\<rparr>)"

subsection \<open>Communication and sensors\<close>

abbreviation (input) dt :: cfloat where "dt \<equiv> 2 / 100"

definition rt_comm :: "'l trk \<Rightarrow> 'l trk option" where
  "rt_comm k = (if cc_use_comm (tk_config k) = 1 then do {
     (error, c) \<leftarrow> cacc_comm (tk_local_time k) dt (tk_receive k) (tk_config k)
       \<lparr>kc_static = tk_cacc k, kc_global_time = tk_global_time k, kc_con = tk_con k, kc_veh = tk_veh k, kc_comm_reply = tk_reply k,
        kc_fault = tk_fault k, kc_pltn = tk_pltn k\<rparr>;
     Some (k\<lparr>tk_cacc := kc_static c, tk_global_time := kc_global_time c, tk_con := kc_con c, tk_veh := kc_veh c,
       tk_reply := kc_comm_reply c, tk_fault := kc_fault c, tk_pltn := kc_pltn c\<rparr>)
   } else Some k)"

definition rt_read :: "vehicle_state \<Rightarrow> 'l trk \<Rightarrow> 'l trk" where
  "rt_read pv k = (let (st, jb, se, v) = read_jbus dt (tk_local_time k) pv (tk_sw k) (tk_read k, tk_jbus k, tk_sens k, tk_veh k)
     in k\<lparr>tk_read := st, tk_jbus := jb, tk_sens := se, tk_veh := v, tk_sw := read_sw pv (tk_sw k)\<rparr>)"

definition rt_control_state :: "'l track_lib \<Rightarrow> 'l trk \<Rightarrow> 'l trk" where
  "rt_control_state lib k =
    (let jb = tk_jbus k;
         con = (tk_con k)\<lparr>cs_spd := jb_v jb, cs_acc := jb_long_accel jb, cs_fuel_rt := jb_fuel_m jb,
           cs_auto_acc := jb_long_accel jb, cs_auto_speed := jb_v jb, cs_auto_throt := jb_fuel_m jb, cs_auto_spd_cmd := 0,
           cs_auto_tq_cmd := jb_actual_eng_tq jb, cs_auto_brk := jb_bp jb, cs_auto_rtd := 0, cs_auto_jake2 := 0,
           cs_auto_jake4 := 0, cs_auto_jake6 := 0\<rparr>;
         (l, v, f) = tl_v_flt lib dt (tk_local_time k) (tk_lib k, cs_spd con, tk_fault k);
         con = (if cs_pre_v con \<le> 0 then con\<lparr>cs_pre_v := 0\<rparr> else con);
         tg = (if sw_gshift_sw (tk_sw k) = 0 then 0 else tk_tg k + dt);
         con = con\<lparr>cs_tg := tg\<rparr>;
         run_dist = tk_run_dist k + (if cc_static_run (tk_config k) = 1 then cs_lead_v con * dt else cs_spd con * dt)
     in k\<lparr>tk_lib := l, tk_v := v, tk_fault := f, tk_con := con, tk_tg := tg, tk_run_dist := run_dist,
          tk_mng := (tk_mng k)\<lparr>mc_set_v := 25\<rparr>, tk_veh := (tk_veh k)\<lparr>vi_run_dist := run_dist\<rparr>\<rparr>)"

definition rt_estimate :: "'l track_lib \<Rightarrow> 'l trk \<Rightarrow> 'l trk" where
  "rt_estimate lib k =
    (let cfg = tk_config k; veh_id = vi_veh_id (tk_veh k) in
     if veh_id \<noteq> 0 \<and> cc_truck_platoon cfg = 0 \<or> veh_id \<noteq> 0 \<and> cc_truck_platoon cfg = 1 \<and> veh_id \<noteq> 1 then
       let (l, se, con, m, pm, f, mng) =
         tl_est_dist lib dt (tk_lib k, tk_sens k, tk_con k, tk_maneuver_id k, tk_pre_maneuver_id k, tk_fault k, tk_mng k)
       in k\<lparr>tk_lib := l, tk_sens := se, tk_con := con, tk_maneuver_id := m, tk_pre_maneuver_id := pm, tk_fault := f, tk_mng := mng\<rparr>
     else k)"

subsection \<open>Faults\<close>

text \<open>
  A fault multiplies \<open>fault_mode\<close> by its prime; its end divides.  The division is one of integers, so the
  fraction is always zero.
\<close>

definition fault_code :: "'l track_lib \<Rightarrow> int \<Rightarrow> u1 \<Rightarrow> u1 \<Rightarrow> int \<Rightarrow> int" where
  "fault_code lib p now buff fault_mode =
    (let fault_mode = (if now = 1 \<and> buff = 0 then fault_mode * p else fault_mode) in
     if now = 0 \<and> buff = 1 \<and> fault_mode \<ge> p then tl_max_i lib (tl_modf lib (fault_mode div p)) 1 else fault_mode)"

definition rt_faults :: "'l track_lib \<Rightarrow> 'l trk \<Rightarrow> 'l trk" where
  "rt_faults lib k = (if cc_handle_faults (tk_config k) = 1 \<and> mc_drive_mode (tk_mng k) > 1 then
     let f = tk_fault k; b = tk_buff k; m = vi_fault_mode (tk_veh k);
         m = fault_code lib 3 (fi_torq f) (fb_torq b) m;
         m = fault_code lib 7 (fi_radar f) (fb_radar b) m;
         m = fault_code lib 11 (fi_lidar f) (fb_lidar b) m;
         m = fault_code lib 13 (fi_jake f) (fb_jake b) m;
         m = fault_code lib 17 (fi_brk f) (fb_brk b) m;
         m = (if vi_veh_id (tk_veh k) = 1 then fault_code lib 5 (fi_comm f) (fb_comm b) m else m);
         b = \<lparr>fb_torq = fi_torq f, fb_radar = fi_radar f, fb_lidar = fi_lidar f, fb_jake = fi_jake f, fb_brk = fi_brk f,
           fb_comm = (if vi_veh_id (tk_veh k) = 1 then fi_comm f else fb_comm b)\<rparr>;
         k = k\<lparr>tk_veh := (tk_veh k)\<lparr>vi_fault_mode := m\<rparr>, tk_buff := b, tk_mng := (tk_mng k)\<lparr>mc_f_manage_index := 0\<rparr>\<rparr>;
         k = (if mc_f_manage_index (tk_mng k) = 1 then long_setled FLT_LOW k else k);
         k = (if mc_f_manage_index (tk_mng k) = 2 then long_setled FLT_MED k else k)
     in if mc_f_manage_index (tk_mng k) = 3 then long_setled FLT_HI k else k
   else k)"

subsection \<open>Maneuver and control\<close>

definition rt_coordinate :: "'l track_lib \<Rightarrow> 'l trk \<Rightarrow> 'l trk" where
  "rt_coordinate lib k = (if tk_local_time k > 1 / 1000 then
     let con = follow_dist (tk_config k) (tk_con k);
         (l, con, se, jb, cfg, sw, v, pltn, mng) =
           tl_coording lib dt 900000 (tk_lib k, con, tk_sens k, tk_jbus k, tk_config k, tk_sw k, tk_veh k, tk_pltn k, tk_mng k);
         (l, cfg, con, se, sw, v, f, m, mng, pltn) =
           tl_maneuver lib dt (tk_local_time k) (tk_local_time k) (l, cfg, con, se, sw, v, tk_fault k, tk_maneuver_id k, mng, pltn)
     in k\<lparr>tk_lib := l, tk_con := con, tk_sens := se, tk_jbus := jb, tk_config := cfg, tk_sw := sw, tk_veh := v, tk_pltn := pltn,
          tk_mng := mng, tk_fault := f, tk_maneuver_id := m\<rparr>
   else k)"

definition rt_distance :: "'l track_lib \<Rightarrow> 'l trk \<Rightarrow> 'l trk" where
  "rt_distance lib k = (if tk_local_time k > 0 then
     let (l, m, se, v, mng, f, con, cfg, pltn) = tl_ref_dist lib dt (tk_lib k, tk_maneuver_id k, tk_sens k, tk_veh k, tk_mng k,
         tk_fault k, tk_con k, tk_config k, tk_pltn k)
     in k\<lparr>tk_lib := l, tk_maneuver_id := m, tk_sens := se, tk_veh := v, tk_mng := mng, tk_fault := f, tk_con := con,
          tk_config := cfg, tk_pltn := pltn\<rparr>
   else k)"

definition maneuver_of :: "veh_comm_packet \<Rightarrow> int \<times> int" where
  "maneuver_of p = (int (unat (pk_maneuver_des_1 p)), int (unat (pk_maneuver_des_2 p)))"

definition rt_preceding :: "'l trk \<Rightarrow> 'l trk option" where
  "rt_preceding k = (let veh_id = vi_veh_id (tk_veh k) in
     if veh_id = 1 then do {
       p \<leftarrow> received (tk_receive k) (pi_pltn_size (tk_pltn k));
       Some (k\<lparr>tk_pre_maneuver_id := maneuver_of p\<rparr>)
     } else if veh_id > 1 then do {
       p \<leftarrow> received (tk_receive k) (veh_id - 1);
       Some (k\<lparr>tk_pre_maneuver_id := maneuver_of p\<rparr>)
     } else Some k)"

definition rt_cacc :: "'l track_lib \<Rightarrow> 'l trk \<Rightarrow> 'l trk" where
  "rt_cacc lib k = (let (l, m, jb, mng, cfg, con, sw, v, out) =
       tl_cacc lib dt (tk_lib k, tk_maneuver_id k, tk_jbus k, tk_mng k, tk_config k, tk_con k, tk_sw k, tk_veh k, tk_out k)
     in k\<lparr>tk_lib := l, tk_maneuver_id := m, tk_jbus := jb, tk_mng := mng, tk_config := cfg, tk_con := con, tk_sw := sw, tk_veh := v,
          tk_out := out\<rparr>)"

definition rt_actuate :: "'l track_lib \<Rightarrow> 'l trk \<Rightarrow> long_output \<Rightarrow> 'l trk \<times> long_output" where
  "rt_actuate lib k pcmd =
    (let a = actuate (tl_tq_we lib) (tl_max_f lib) trk_inactive_ctrl dt
           \<lparr>ai_out = tk_out k, ai_mng = tk_mng k, ai_sw = tk_sw k, ai_jbus = tk_jbus k, ai_veh = tk_veh k, ai_sens = tk_sens k\<rparr>
           \<lparr>ac_static = tk_act k, ac_pcmd = pcmd, ac_con = tk_con k, ac_fault = tk_fault k\<rparr>;
         p = ac_pcmd a
     in (k\<lparr>tk_act := ac_static a, tk_con := ac_con a, tk_fault := ac_fault a\<rparr>,
         if jb_accel_pedal_pos1 (tk_jbus k) > 5 then p\<lparr>lo_engine_command_mode := TSC_OVERRIDE_DISABLED\<rparr> else p))"

subsection \<open>Emergency braking\<close>

text \<open>The driver of a truck ahead is braking: its brake switch is on or there is pressure on its brakes.\<close>

definition driver_brakes :: "veh_comm_packet \<Rightarrow> bool" where
  "driver_brakes p \<longleftrightarrow> pk_user_bit_3 p = 1 \<or> pk_user_float p > 1 / 10"

definition brake_cmd :: "cfloat \<Rightarrow> long_output \<Rightarrow> long_output" where
  "brake_cmd decel p = p\<lparr>lo_engine_command_mode := XBR_NOT_ACTIVE, lo_engine_torque := 0,
     lo_engine_retarder_command_mode := XBR_NOT_ACTIVE, lo_engine_retarder_torque := 0,
     lo_brake_command_mode := XBR_ACTIVE, lo_brake_priority := TSC_HIGHEST, lo_ebs_deceleration := decel\<rparr>"

definition rt_emergency :: "(cfloat \<Rightarrow> cfloat \<Rightarrow> cfloat) \<Rightarrow> vehicle_state \<Rightarrow> 'l trk \<Rightarrow> long_output \<Rightarrow> long_output" where
  "rt_emergency min_f pv k p =
    (let r = tk_receive k; veh_id = vi_veh_id (tk_veh k);
         p = (if mc_auto_contr (tk_mng k) = ON then
             let p = (if veh_id = 2 \<and> driver_brakes (r 1)
                   then brake_cmd (min_f (- 12 / 10) (105 / 100 * pk_accel (r 1))) p else p)
             in if veh_id = 3 \<and> (driver_brakes (r 1) \<or> driver_brakes (r 2))
                then brake_cmd (min_f (min_f (- 12 / 10) (105 / 100 * pk_accel (r 1))) (105 / 100 * pk_accel (r 2))) p else p
           else p\<lparr>lo_engine_retarder_command_mode := XBR_NOT_ACTIVE, lo_brake_command_mode := XBR_NOT_ACTIVE\<rparr>)
     in p\<lparr>lo_selected_gap_level := vs_gap_request pv\<rparr>)"

subsection \<open>The packet for the other trucks\<close>

text \<open>The numbers are cut to bytes, the switches to one bit.\<close>

definition rt_send :: "long_output \<Rightarrow> 'l trk \<Rightarrow> 'l trk" where
  "rt_send p k = (if cc_use_comm (tk_config k) = 1 then
     let q = tk_send k; con = tk_con k; v = tk_veh k;
         q = q\<lparr>pk_global_time := tk_local_time k, pk_vel_traj := se_ego_v (tk_sens k), pk_acc_traj := se_ego_a (tk_sens k),
           pk_velocity := se_ego_v (tk_sens k), pk_accel := se_ego_a (tk_sens k)\<rparr>;
         q = (if cc_truck_ACC (tk_config k) = 1 then q\<lparr>pk_range := cs_ACC_tGap con * cs_spd con\<rparr> else q);
         q = (if cc_truck_CACC (tk_config k) = 1 then q\<lparr>pk_range := cs_CACC_tGap con * cs_spd con\<rparr> else q);
         q = q\<lparr>pk_rate := lo_ebs_deceleration p, pk_user_bit_1 := sw_CC_enable_sw (tk_sw k), pk_user_bit_2 := sw_CC_resume_sw (tk_sw k),
           pk_user_bit_3 := sw_brk_sw (tk_sw k), pk_user_bit_4 := 0, pk_my_pip := word_of_int (cc_MyPltnPos (tk_config k)),
           pk_maneuver_id := word_of_int (mc_man_des (tk_mng k)), pk_fault_mode := word_of_int (vi_fault_mode v),
           pk_maneuver_des_1 := word_of_int (fst (tk_maneuver_id k)),
           pk_maneuver_des_2 := (if vi_cut_in v = 1 then 1 else if vi_cut_out v = 1 then 2 else 0),
           pk_user_ushort_1 := word_of_int (vi_veh_id v), pk_user_ushort_2 := word_of_int (mc_drive_mode (tk_mng k)),
           pk_user_float := jb_brk_pres (tk_jbus k), pk_user_float1 := lo_engine_retarder_torque p,
           pk_pltn_size := word_of_int (pi_pltn_size (tk_pltn k))\<rparr>
     in k\<lparr>tk_send := q, tk_tx := tk_tx k @ [q]\<rparr>
   else k)"

subsection \<open>One cycle\<close>

text \<open>Up to the control variable of \<open>actuate\<close>, and the whole cycle.\<close>

definition rt_plan :: "'l track_lib \<Rightarrow> vehicle_state \<Rightarrow> 'l trk \<Rightarrow> 'l trk option" where
  "rt_plan lib pv k = do {
     let k = rt_gaps pv (rt_max_speed (rt_packets pv k));
     let k = k\<lparr>tk_local_time := tk_local_time k + dt\<rparr>;
     k \<leftarrow> rt_comm k;
     let k = rt_faults lib (rt_estimate lib (rt_control_state lib (rt_read pv k)));
     k \<leftarrow> rt_preceding (rt_distance lib (rt_coordinate lib k));
     Some (rt_cacc lib k)
   }"

definition run_tasks :: "'l track_lib \<Rightarrow> vehicle_state \<Rightarrow> 'l trk \<Rightarrow> long_output \<Rightarrow> ('l trk \<times> long_output) option" where
  "run_tasks lib pv k pcmd = do {
     k \<leftarrow> rt_plan lib pv k;
     let (k, p) = rt_actuate lib k pcmd;
     let p = rt_emergency (tl_min_f lib) pv k p;
     Some (long_setled TOGGLE_WATCHDOG (rt_send p k), p)
   }"

text \<open>
  The main loop of common/long_ctl.c, for the vehicle states the data server gives: the control variables written, in
  order.  \<open>exit_tasks\<close> and the main program write the inactive one at the end.
\<close>

fun long_ctl_loop :: "'l track_lib \<Rightarrow> vehicle_state list \<Rightarrow> 'l trk \<Rightarrow> long_output \<Rightarrow> ('l trk \<times> long_output list) option" where
  "long_ctl_loop lib [] k pcmd = Some (k, [])"
| "long_ctl_loop lib (pv # pvs) k pcmd = do {
     (k, p) \<leftarrow> run_tasks lib pv k pcmd;
     (k, ps) \<leftarrow> long_ctl_loop lib pvs k p;
     Some (k, p # ps)
   }"

definition exit_tasks :: "'l trk \<Rightarrow> 'l trk \<times> long_output list" where
  "exit_tasks k = (long_setled LONG_CTL_INACTIVE k, [trk_inactive_ctrl, trk_inactive_ctrl])"

text \<open>
  \<open>init_tasks\<close>: the structures are cleared, the configuration \<open>cfg\<close> is what the file realtime.ini has, and
  the control variable (uninitialised, otherwise) gets three modes.
\<close>

definition init_tasks :: "control_config \<Rightarrow> 'l trk \<Rightarrow> long_output \<Rightarrow> 'l trk \<times> long_output" where
  "init_tasks cfg k p =
    (let k = k\<lparr>tk_config := cfg\<lparr>cc_truck_platoon := 0, cc_max_dcc := 8 / 10\<rparr>, tk_send := zero_packet, tk_fault := zero_fault_index,
           tk_con := zero_control_state\<lparr>cs_des_f_dist := DES_FOLLOW_DIST\<rparr>, tk_out := zero_con_output, tk_jbus := zero_jbus_read,
           tk_sw := (tk_sw k)\<lparr>sw_gshift_sw := 0, sw_lockup := 0\<rparr>, tk_sens := zero_sens_read,
           tk_veh := zero_vehicle_info\<lparr>vi_fault_mode := 1, vi_veh_id := cc_MyPltnPos cfg\<rparr>, tk_pltn := zero_pltn_info,
           tk_reply := 0, tk_mng := zero_manager_cmd\<lparr>mc_set_v := 25 * mph2mps\<rparr>\<rparr>
     in (long_setled LONG_CTL_ACTIVE k, p\<lparr>lo_engine_command_mode := TSC_OVERRIDE_DISABLED, lo_brake_command_mode := XBR_NOT_ACTIVE,
       lo_engine_retarder_command_mode := TSC_OVERRIDE_DISABLED\<rparr>))"

text \<open>The static variables of a program that starts, with the library in state \<open>l\<close>.\<close>

definition trk_start :: "control_config \<Rightarrow> 'l \<Rightarrow> 'l trk" where
  "trk_start cfg l = \<lparr>tk_lib = l, tk_config = cfg, tk_con = zero_control_state, tk_out = zero_con_output, tk_sw = zero_switches,
     tk_jbus = zero_jbus_read, tk_sens = zero_sens_read, tk_pltn = zero_pltn_info, tk_veh = zero_vehicle_info,
     tk_mng = zero_manager_cmd, tk_fault = zero_fault_index, tk_reply = 0, tk_receive = (\<lambda>_. zero_packet), tk_send = zero_packet,
     tk_global_time = 0, tk_local_time = 0, tk_tg = 0, tk_max_spd_ini = True, tk_maneuver_id = (0, 0), tk_pre_maneuver_id = (0, 0),
     tk_run_dist = 0, tk_v = 0, tk_buff = \<lparr>fb_torq = 0, fb_radar = 0, fb_lidar = 0, fb_jake = 0, fb_brk = 0, fb_comm = 0\<rparr>,
     tk_cacc = cacc_static0, tk_read = jbus_static0, tk_act = actuate_static0,
     tk_dig_out = \<lparr>do_outchar = 0, do_amber_flash = 0, do_xy_alive = 0\<rparr>, tk_led = [], tk_tx = []\<rparr>"

end
