(* ===== verification/LongSafe.thy ===== *)
theory LongSafe
  imports LongTrk
begin

text \<open>
  What the longitudinal controller can ask of the truck, whatever its library does: the control variable of one cycle and
  of a whole run, and the emergency braking of a follower.
\<close>

subsection \<open>Every control variable\<close>

lemma exclusive_inactive: "exclusive trk_inactive_ctrl"
  by (simp add: exclusive_def trk_inactive_ctrl_def)

text \<open>What a control variable with manual controls must look like.\<close>

definition released_by :: "bool \<Rightarrow> bool \<Rightarrow> long_output \<Rightarrow> bool" where
  "released_by driver off p \<longleftrightarrow> (driver \<longrightarrow> lo_engine_command_mode p = TSC_OVERRIDE_DISABLED) \<and>
     (off \<longrightarrow> lo_engine_retarder_command_mode p = TSC_OVERRIDE_DISABLED \<and> lo_brake_command_mode p = XBR_NOT_ACTIVE)"

text \<open>The driver uses the pedals; manual control.\<close>

definition driver_acts :: "'l trk \<Rightarrow> bool" where
  "driver_acts k \<longleftrightarrow> jb_accel_pedal_pos1 (tk_jbus k) > 2 \<or> sw_brk_sw (tk_sw k) = 1"

definition manual :: "'l trk \<Rightarrow> bool" where
  "manual k \<longleftrightarrow> mc_drive_mode (tk_mng k) = 0 \<or> mc_drive_mode (tk_mng k) = 1"

lemma actuate_engine_released:
  assumes "jb_accel_pedal_pos1 (ai_jbus i) > 2 \<or> sw_brk_sw (ai_sw i) = 1" "lo_engine_command_mode idle = TSC_OVERRIDE_DISABLED"
  shows "lo_engine_command_mode (ac_pcmd (actuate tw mx idle t i a)) = TSC_OVERRIDE_DISABLED"
proof -
  have "lo_engine_command_mode (ac_pcmd (act_brake i (act_cut_in t i (act_retarder mx t i (act_takeover i b))))) = TSC_OVERRIDE_DISABLED" for b
    using cut_in_modes[of t i "act_retarder mx t i (act_takeover i b)"] takeover_law(4)[OF assms(1)]
    by (auto simp: brake_modes retarder_modes)
  then show ?thesis using assms(2) by (simp add: actuate_def Let_def)
qed

lemma actuate_inactive: "inactive i \<Longrightarrow> ac_pcmd (actuate tw mx idle t i a) = idle"
  by (simp add: actuate_def Let_def)

lemma rt_actuate_law:
  assumes "rt_actuate lib k pcmd = (k', p)"
  shows "exclusive p" "driver_acts k \<Longrightarrow> lo_engine_command_mode p = TSC_OVERRIDE_DISABLED"
    "manual k \<Longrightarrow> p = trk_inactive_ctrl"
    "tk_jbus k' = tk_jbus k" "tk_sw k' = tk_sw k" "tk_mng k' = tk_mng k" "tk_veh k' = tk_veh k" "tk_receive k' = tk_receive k"
    "tk_config k' = tk_config k"
proof -
  let ?i = "\<lparr>ai_out = tk_out k, ai_mng = tk_mng k, ai_sw = tk_sw k, ai_jbus = tk_jbus k, ai_veh = tk_veh k, ai_sens = tk_sens k\<rparr>"
  let ?a = "\<lparr>ac_static = tk_act k, ac_pcmd = pcmd, ac_con = tk_con k, ac_fault = tk_fault k\<rparr>"
  let ?p = "ac_pcmd (actuate (tl_tq_we lib) (tl_max_f lib) trk_inactive_ctrl dt ?i ?a)"
  have p: "p = (if jb_accel_pedal_pos1 (tk_jbus k) > 5 then ?p\<lparr>lo_engine_command_mode := TSC_OVERRIDE_DISABLED\<rparr> else ?p)"
    and k': "k' = k\<lparr>tk_act := tk_act k', tk_con := tk_con k', tk_fault := tk_fault k'\<rparr>"
    using assms by (auto simp: rt_actuate_def Let_def)
  show "exclusive p" using actuate_exclusive[OF exclusive_inactive] by (auto simp: p exclusive_def)
  show "driver_acts k \<Longrightarrow> lo_engine_command_mode p = TSC_OVERRIDE_DISABLED"
    using actuate_engine_released[of ?i trk_inactive_ctrl] by (auto simp: p driver_acts_def trk_inactive_ctrl_def)
  show "manual k \<Longrightarrow> p = trk_inactive_ctrl"
    using actuate_inactive[of ?i] by (auto simp: p manual_def inactive_def trk_inactive_ctrl_def)
  show "tk_jbus k' = tk_jbus k" "tk_sw k' = tk_sw k" "tk_mng k' = tk_mng k" "tk_veh k' = tk_veh k" "tk_receive k' = tk_receive k"
    "tk_config k' = tk_config k"
    by (subst k', simp)+
qed

text \<open>The end of a cycle, after \<open>rt_plan\<close>.\<close>

lemma run_tasks_split:
  assumes "run_tasks lib pv k pcmd = Some (k', p')"
  shows "\<exists>k1 k2 p. rt_plan lib pv k = Some k1 \<and> rt_actuate lib k1 pcmd = (k2, p) \<and> p' = rt_emergency (tl_min_f lib) pv k2 p \<and>
    tk_jbus k' = tk_jbus k1 \<and> tk_sw k' = tk_sw k1 \<and> tk_mng k' = tk_mng k1 \<and> tk_veh k' = tk_veh k1 \<and> tk_receive k' = tk_receive k1"
proof -
  obtain k1 where 1: "rt_plan lib pv k = Some k1"
    "(case rt_actuate lib k1 pcmd of (k, p) \<Rightarrow> let p = rt_emergency (tl_min_f lib) pv k p in
       Some (long_setled TOGGLE_WATCHDOG (rt_send p k), p)) = Some (k', p')"
    using assms by (auto simp: run_tasks_def)
  obtain k2 p where 2: "rt_actuate lib k1 pcmd = (k2, p)" by fastforce
  have "p' = rt_emergency (tl_min_f lib) pv k2 p" "k' = long_setled TOGGLE_WATCHDOG (rt_send p' k2)"
    using 1(2) 2 by (auto simp: Let_def)
  moreover have "tk_jbus (long_setled c (rt_send q k2)) = tk_jbus k2 \<and> tk_sw (long_setled c (rt_send q k2)) = tk_sw k2 \<and>
    tk_mng (long_setled c (rt_send q k2)) = tk_mng k2 \<and> tk_veh (long_setled c (rt_send q k2)) = tk_veh k2 \<and>
    tk_receive (long_setled c (rt_send q k2)) = tk_receive k2" for c q
    by (simp add: long_setled_def rt_send_def Let_def)
  ultimately show ?thesis using 1(1) 2 rt_actuate_law(4-8)[OF 2] by auto
qed

lemma emergency_modes:
  "exclusive p \<Longrightarrow> exclusive (rt_emergency mn pv k p)"
  "lo_engine_command_mode p = TSC_OVERRIDE_DISABLED \<Longrightarrow> lo_engine_command_mode (rt_emergency mn pv k p) = TSC_OVERRIDE_DISABLED"
  "mc_auto_contr (tk_mng k) \<noteq> ON \<Longrightarrow> lo_engine_retarder_command_mode (rt_emergency mn pv k p) = TSC_OVERRIDE_DISABLED \<and>
     lo_brake_command_mode (rt_emergency mn pv k p) = XBR_NOT_ACTIVE"
  by (auto simp: rt_emergency_def exclusive_def brake_cmd_def Let_def)

end
