(* ===== verification/LongRun.thy ===== *)
theory LongRun
  imports LongSafe
begin

text \<open>
  The controller does not leave its arrays: from its start on every cycle returns, when the platoon has at most three
  trucks and the library leaves the numbers of the platoon alone.
\<close>

subsection \<open>What the library must leave alone\<close>

definition same_place :: "vehicle_info \<Rightarrow> vehicle_info \<Rightarrow> bool" where
  "same_place v v' \<longleftrightarrow> vi_veh_id v' = vi_veh_id v \<and> length (vi_comm_p v') = length (vi_comm_p v)"

definition same_sizes :: "control_config \<Rightarrow> control_config \<Rightarrow> bool" where
  "same_sizes c c' \<longleftrightarrow> cc_pltn_size c' = cc_pltn_size c \<and> cc_MyPltnPos c' = cc_MyPltnPos c"

definition coording_keeps :: "'l track_lib \<Rightarrow> bool" where
  "coording_keeps lib \<longleftrightarrow> (\<forall>t n l con se jb cfg sw v pltn mng l' con' se' jb' cfg' sw' v' pltn' mng'.
     tl_coording lib t n (l, con, se, jb, cfg, sw, v, pltn, mng) = (l', con', se', jb', cfg', sw', v', pltn', mng') \<longrightarrow>
     same_place v v' \<and> same_sizes cfg cfg' \<and> pi_pltn_size pltn' = pi_pltn_size pltn)"

definition maneuver_keeps :: "'l track_lib \<Rightarrow> bool" where
  "maneuver_keeps lib \<longleftrightarrow> (\<forall>t g lt l cfg con se sw v f m mng pltn l' cfg' con' se' sw' v' f' m' mng' pltn'.
     tl_maneuver lib t g lt (l, cfg, con, se, sw, v, f, m, mng, pltn) = (l', cfg', con', se', sw', v', f', m', mng', pltn') \<longrightarrow>
     same_place v v' \<and> same_sizes cfg cfg' \<and> pi_pltn_size pltn' = pi_pltn_size pltn)"

definition ref_dist_keeps :: "'l track_lib \<Rightarrow> bool" where
  "ref_dist_keeps lib \<longleftrightarrow> (\<forall>t l m se v mng f con cfg pltn l' m' se' v' mng' f' con' cfg' pltn'.
     tl_ref_dist lib t (l, m, se, v, mng, f, con, cfg, pltn) = (l', m', se', v', mng', f', con', cfg', pltn') \<longrightarrow>
     same_place v v' \<and> same_sizes cfg cfg' \<and> pi_pltn_size pltn' = pi_pltn_size pltn)"

definition cacc_keeps :: "'l track_lib \<Rightarrow> bool" where
  "cacc_keeps lib \<longleftrightarrow> (\<forall>t l m jb mng cfg con sw v out l' m' jb' mng' cfg' con' sw' v' out'.
     tl_cacc lib t (l, m, jb, mng, cfg, con, sw, v, out) = (l', m', jb', mng', cfg', con', sw', v', out') \<longrightarrow>
     same_place v v' \<and> same_sizes cfg cfg')"

definition keeps_platoon :: "'l track_lib \<Rightarrow> bool" where
  "keeps_platoon lib \<longleftrightarrow> coording_keeps lib \<and> maneuver_keeps lib \<and> ref_dist_keeps lib \<and> cacc_keeps lib"

text \<open>The place of a truck in its platoon.\<close>

definition same :: "'l trk \<Rightarrow> 'l trk \<Rightarrow> bool" where
  "same k k' \<longleftrightarrow> same_place (tk_veh k) (tk_veh k') \<and> same_sizes (tk_config k) (tk_config k') \<and>
     pi_pltn_size (tk_pltn k') = pi_pltn_size (tk_pltn k)"

definition placed :: "'l trk \<Rightarrow> bool" where
  "placed k \<longleftrightarrow> length (vi_comm_p (tk_veh k)) = 3 \<and> 0 \<le> vi_veh_id (tk_veh k) \<and> vi_veh_id (tk_veh k) \<le> 3 \<and>
     1 \<le> cc_pltn_size (tk_config k) \<and> cc_pltn_size (tk_config k) \<le> 3 \<and>
     1 \<le> cc_MyPltnPos (tk_config k) \<and> cc_MyPltnPos (tk_config k) \<le> 3"

lemma same_placed: "same k k' \<Longrightarrow> placed k \<Longrightarrow> placed k'"
  by (simp add: same_def same_place_def same_sizes_def placed_def)

lemma same_trans [trans]: "same k1 k2 \<Longrightarrow> same k2 k3 \<Longrightarrow> same k1 k3"
  by (simp add: same_def same_place_def same_sizes_def)

lemma same_refl [simp]: "same k k" "same_place v v" "same_sizes c c"
  by (simp_all add: same_def same_place_def same_sizes_def)

text \<open>Tuples of nine and ten.\<close>

lemma prod_cases9: obtains a b c d e f g h i where "x = (a, b, c, d, e, f, g, h, i)"
  by (metis surj_pair)

lemma prod_cases10: obtains a b c d e f g h i j where "x = (a, b, c, d, e, f, g, h, i, j)"
  by (metis surj_pair)

subsection \<open>The links\<close>

lemma link_returns:
  assumes "length (vi_comm_p (kc_veh s)) = 3" "1 \<le> pip" "pip \<le> 3"
  shows "\<exists>e' s'. cacc_link cr pip (e, s) = Some (e', s') \<and> same_place (kc_veh s) (kc_veh s') \<and> kc_pltn s' = kc_pltn s"
proof (cases "pip = vid s")
  case True
  show ?thesis using link_cases(1)[OF assms True] by (auto simp: link_self_def same_place_def)
next
  case False
  show ?thesis using link_cases(2)[OF assms False, of cr e] by (auto simp: link_other_def same_place_def)
qed

lemma links_return:
  "length (vi_comm_p (kc_veh s)) = 3 \<Longrightarrow> set pips \<subseteq> {1..3} \<Longrightarrow>
   \<exists>e' s'. cacc_links cr pips (e, s) = Some (e', s') \<and> same_place (kc_veh s) (kc_veh s') \<and> kc_pltn s' = kc_pltn s"
proof (induction pips arbitrary: e s)
  case (Cons pip pips)
  obtain e1 s1 where 1: "cacc_link cr pip (e, s) = Some (e1, s1)" "same_place (kc_veh s) (kc_veh s1)" "kc_pltn s1 = kc_pltn s"
    using link_returns[OF Cons.prems(1), of pip cr e] Cons.prems(2) by auto
  obtain e2 s2 where 2: "cacc_links cr pips (e1, s1) = Some (e2, s2)" "same_place (kc_veh s1) (kc_veh s2)" "kc_pltn s2 = kc_pltn s1"
    using Cons.IH[of s1 e1] Cons.prems 1(2) by (auto simp: same_place_def)
  show ?case using 1 2 by (auto simp: same_place_def)
qed simp

lemma handshake_returns:
  assumes "length (vi_comm_p (kc_veh s)) = 3" "1 \<le> pi_pltn_size (kc_pltn s)" "pi_pltn_size (kc_pltn s) \<le> 3"
  shows "\<exists>e s' h. cacc_handshake cr s = Some (e, s', h) \<and> same_place (kc_veh s) (kc_veh s') \<and> kc_pltn s' = kc_pltn s"
proof (cases "pi_pltn_size (kc_pltn s) = 1")
  case True
  then show ?thesis using assms by (auto simp: cacc_handshake_def set_comm_p_def same_place_def)
next
  case False
  obtain e1 s1 where 1: "cacc_links cr [1 .. pi_pltn_size (kc_pltn s)] (0, s) = Some (e1, s1)" "same_place (kc_veh s) (kc_veh s1)"
    "kc_pltn s1 = kc_pltn s"
    using links_return[OF assms(1), of "[1 .. pi_pltn_size (kc_pltn s)]" cr 0] assms(3) by auto
  then show ?thesis using False by (simp add: cacc_handshake_def Let_def same_place_def)
qed

lemma comm_returns:
  assumes "length (vi_comm_p (kc_veh s)) = 3" "1 \<le> pi_pltn_size (kc_pltn s)" "pi_pltn_size (kc_pltn s) \<le> 3"
    and "1 \<le> cc_MyPltnPos cfg" "cc_MyPltnPos cfg \<le> 3"
  shows "\<exists>e s'. cacc_comm t d cr cfg s = Some (e, s') \<and> same_place (kc_veh s) (kc_veh s') \<and>
    pi_pltn_size (kc_pltn s') = pi_pltn_size (kc_pltn s)"
proof -
  let ?s = "s\<lparr>kc_con := (kc_con s)\<lparr>cs_comm_coord := 0\<rparr>\<rparr>"
  obtain e s1 h where 1: "cacc_handshake cr ?s = Some (e, s1, h)" "same_place (kc_veh s) (kc_veh s1)" "kc_pltn s1 = kc_pltn s"
    using handshake_returns[of ?s cr] assms(1-3) by auto
  obtain s2 where 2: "cacc_speeds t cr cfg (cacc_time t d cr h s1) = Some s2" "same_links (cacc_time t d cr h s1) s2"
    using speeds_links[of cfg t cr "cacc_time t d cr h s1"] assms(4,5) by auto
  have "same_links s1 s2" using same_links_trans time_links 2(2) by blast
  then show ?thesis using 1 2(1) by (auto simp: cacc_comm_def same_links_def)
qed

subsection \<open>A cycle\<close>

lemma packets_same: "same_place (tk_veh k) (tk_veh (rt_packets pv k)) \<and> same_sizes (tk_config k) (tk_config (rt_packets pv k)) \<and>
   pi_pltn_size (tk_pltn (rt_packets pv k)) = cc_pltn_size (tk_config k)"
  by (simp add: rt_packets_def same_place_def Let_def)

lemma max_speed_same: "same k (rt_max_speed k)"
  by (simp add: rt_max_speed_def same_def same_sizes_def)

lemma gaps_same: "same k (rt_gaps pv k)"
  by (simp add: rt_gaps_def same_def same_sizes_def Let_def)

lemma comm_same:
  assumes "placed k" "pi_pltn_size (tk_pltn k) = cc_pltn_size (tk_config k)"
  shows "\<exists>k'. rt_comm k = Some k' \<and> same k k'"
proof (cases "cc_use_comm (tk_config k) = 1")
  case True
  let ?c = "\<lparr>kc_static = tk_cacc k, kc_global_time = tk_global_time k, kc_con = tk_con k, kc_veh = tk_veh k, kc_comm_reply = tk_reply k,
        kc_fault = tk_fault k, kc_pltn = tk_pltn k\<rparr>"
  obtain e c where "cacc_comm (tk_local_time k) dt (tk_receive k) (tk_config k) ?c = Some (e, c)"
    "same_place (tk_veh k) (kc_veh c)" "pi_pltn_size (kc_pltn c) = pi_pltn_size (tk_pltn k)"
    using comm_returns[of ?c "tk_config k" "tk_local_time k" dt "tk_receive k"] assms by (auto simp: placed_def)
  then show ?thesis using True by (simp add: rt_comm_def same_def)
qed (simp add: rt_comm_def)

lemma target_place: "read_target d pv (st, se, v) = (st', se', v') \<Longrightarrow> same_place v v'"
  by (auto simp: read_target_def same_place_def Let_def split: prod.splits if_splits)

lemma read_place: "read_jbus d t pv sw (st, jb, se, v) = (st', jb', se', v') \<Longrightarrow> same_place v v'"
  using target_place[of d pv st "read_sensors pv se" "v\<lparr>vi_weight := vs_VP15_VehicleWeightVP15 pv\<rparr>"]
  by (auto simp: read_jbus_def Let_def same_place_def split: prod.splits)

lemma read_same: "same k (rt_read pv k)"
  by (auto simp: rt_read_def same_def dest: read_place split: prod.split)

lemma control_state_same: "same k (rt_control_state lib k)"
  by (simp add: rt_control_state_def same_def same_place_def Let_def case_prod_beta)

lemma estimate_same: "same k (rt_estimate lib k)"
  by (simp add: rt_estimate_def same_def Let_def case_prod_beta)

lemma setled_same: "same k (long_setled c k)"
  by (simp add: long_setled_def same_def Let_def)

lemma faults_same: "same k (rt_faults lib k)"
  by (simp add: rt_faults_def same_def same_place_def long_setled_def Let_def)

lemma coordinate_same:
  assumes "coording_keeps lib" "maneuver_keeps lib"
  shows "same k (rt_coordinate lib k)"
proof (cases "tk_local_time k > 1 / 1000")
  case True
  obtain l con se jb cfg sw v pltn mng where 1: "tl_coording lib dt 900000 (tk_lib k, follow_dist (tk_config k) (tk_con k),
    tk_sens k, tk_jbus k, tk_config k, tk_sw k, tk_veh k, tk_pltn k, tk_mng k) = (l, con, se, jb, cfg, sw, v, pltn, mng)"
    by (rule prod_cases9)
  obtain l' cfg' con' se' sw' v' f' m' mng' pltn' where 2: "tl_maneuver lib dt (tk_local_time k) (tk_local_time k)
    (l, cfg, con, se, sw, v, tk_fault k, tk_maneuver_id k, mng, pltn) = (l', cfg', con', se', sw', v', f', m', mng', pltn')"
    by (rule prod_cases10)
  have "same_place (tk_veh k) v \<and> same_sizes (tk_config k) cfg \<and> pi_pltn_size pltn = pi_pltn_size (tk_pltn k)"
    by (rule assms(1)[unfolded coording_keeps_def, rule_format, OF 1])
  moreover have "same_place v v' \<and> same_sizes cfg cfg' \<and> pi_pltn_size pltn' = pi_pltn_size pltn"
    by (rule assms(2)[unfolded maneuver_keeps_def, rule_format, OF 2])
  ultimately show ?thesis using True 1 2 by (simp add: rt_coordinate_def Let_def same_def same_place_def same_sizes_def)
qed (simp add: rt_coordinate_def)

lemma distance_same:
  assumes "ref_dist_keeps lib"
  shows "same k (rt_distance lib k)"
proof (cases "tk_local_time k > 0")
  case True
  obtain l m se v mng f con cfg pltn where 1: "tl_ref_dist lib dt (tk_lib k, tk_maneuver_id k, tk_sens k, tk_veh k, tk_mng k,
         tk_fault k, tk_con k, tk_config k, tk_pltn k) = (l, m, se, v, mng, f, con, cfg, pltn)"
    by (rule prod_cases9)
  have "same_place (tk_veh k) v \<and> same_sizes (tk_config k) cfg \<and> pi_pltn_size pltn = pi_pltn_size (tk_pltn k)"
    by (rule assms[unfolded ref_dist_keeps_def, rule_format, OF 1])
  then show ?thesis using True 1 by (simp add: rt_distance_def Let_def same_def)
qed (simp add: rt_distance_def)

lemma cacc_same:
  assumes "cacc_keeps lib"
  shows "same k (rt_cacc lib k)"
proof -
  obtain l m jb mng cfg con sw v out where 1: "tl_cacc lib dt (tk_lib k, tk_maneuver_id k, tk_jbus k, tk_mng k, tk_config k,
    tk_con k, tk_sw k, tk_veh k, tk_out k) = (l, m, jb, mng, cfg, con, sw, v, out)"
    by (rule prod_cases9)
  have "same_place (tk_veh k) v \<and> same_sizes (tk_config k) cfg" by (rule assms[unfolded cacc_keeps_def, rule_format, OF 1])
  then show ?thesis using 1 by (simp add: rt_cacc_def same_def)
qed

lemma preceding_same:
  assumes "placed k" "pi_pltn_size (tk_pltn k) = cc_pltn_size (tk_config k)"
  shows "\<exists>k'. rt_preceding k = Some k' \<and> same k k'"
  using assms by (simp add: rt_preceding_def received_def placed_def same_def Let_def)

lemma plan_same:
  assumes "keeps_platoon lib" "placed k"
  shows "\<exists>k'. rt_plan lib pv k = Some k' \<and> placed k' \<and> same_place (tk_veh k) (tk_veh k')"
proof -
  note keeps = assms(1)[unfolded keeps_platoon_def]
  let ?k1 = "rt_packets pv k" and ?k2 = "rt_gaps pv (rt_max_speed (rt_packets pv k))"
  let ?k3 = "?k2\<lparr>tk_local_time := tk_local_time ?k2 + dt\<rparr>"
  have 1: "placed ?k1" "pi_pltn_size (tk_pltn ?k1) = cc_pltn_size (tk_config ?k1)"
    using packets_same[of k pv] assms(2) by (auto simp: placed_def same_place_def same_sizes_def)
  have "same ?k1 ?k2" using same_trans[OF max_speed_same gaps_same] .
  then have 3: "same ?k1 ?k3" by (simp add: same_def)
  have p3: "placed ?k3" using 1(1) 3 by (rule same_placed[rotated])
  have s3: "pi_pltn_size (tk_pltn ?k3) = cc_pltn_size (tk_config ?k3)" using 1(2) 3 by (simp add: same_def same_sizes_def)
  obtain k4 where 4: "rt_comm ?k3 = Some k4" "same ?k3 k4" using comm_same[OF p3 s3] by blast
  let ?k5 = "rt_faults lib (rt_estimate lib (rt_control_state lib (rt_read pv k4)))"
  let ?k6 = "rt_distance lib (rt_coordinate lib ?k5)"
  have "same k4 ?k5" by (rule same_trans[OF same_trans[OF same_trans[OF read_same control_state_same] estimate_same] faults_same])
  moreover have "same ?k5 ?k6"
    by (rule same_trans[OF coordinate_same distance_same]) (use keeps in simp_all)
  ultimately have 6: "same ?k3 ?k6" using same_trans[OF same_trans[OF 4(2)]] by simp
  have p6: "placed ?k6" by (rule same_placed[OF 6 p3])
  have s6: "pi_pltn_size (tk_pltn ?k6) = cc_pltn_size (tk_config ?k6)" using s3 6 by (simp add: same_def same_sizes_def)
  obtain k7 where 7: "rt_preceding ?k6 = Some k7" "same ?k6 k7" using preceding_same[OF p6 s6] by blast
  have 8: "same ?k6 (rt_cacc lib k7)" by (rule same_trans[OF 7(2) cacc_same]) (use keeps in simp)
  have "placed (rt_cacc lib k7)" by (rule same_placed[OF 8 p6])
  moreover have "same_place (tk_veh k) (tk_veh (rt_cacc lib k7))"
    using packets_same[of k pv] 3 6 8 by (simp add: same_def same_place_def)
  ultimately show ?thesis using 4(1) 7(1) by (simp add: rt_plan_def)
qed

lemma actuate_same: "rt_actuate lib k pcmd = (k', p) \<Longrightarrow> same k k'"
  by (auto simp: rt_actuate_def same_def Let_def)

lemma send_same: "same k (rt_send p k)"
  by (simp add: rt_send_def same_def Let_def)

lemma cycle_returns:
  assumes "keeps_platoon lib" "placed k"
  shows "\<exists>k' p. run_tasks lib pv k pcmd = Some (k', p) \<and> placed k' \<and> same_place (tk_veh k) (tk_veh k')"
proof -
  obtain k1 where 1: "rt_plan lib pv k = Some k1" "placed k1" "same_place (tk_veh k) (tk_veh k1)" using plan_same[OF assms] by blast
  obtain k2 p where 2: "rt_actuate lib k1 pcmd = (k2, p)" by fastforce
  have s: "same k1 (long_setled c (rt_send q k2))" for c q
    by (rule same_trans[OF same_trans[OF actuate_same[OF 2] send_same] setled_same])
  have "placed (long_setled c (rt_send q k2)) \<and> same_place (tk_veh k) (tk_veh (long_setled c (rt_send q k2)))" for c q
    using same_placed[OF s 1(2), of c q] s[of c q] 1(3) by (simp add: same_def same_place_def)
  then show ?thesis using 1(1) 2 by (simp add: run_tasks_def Let_def)
qed

lemma cycle_exclusive: "run_tasks lib pv k pcmd = Some (k', p) \<Longrightarrow> exclusive p"
  using run_tasks_split rt_actuate_law(1) emergency_modes(1) by metis

lemma loop_returns:
  assumes "keeps_platoon lib"
  shows "placed k \<Longrightarrow> \<exists>k' ps. long_ctl_loop lib pvs k pcmd = Some (k', ps) \<and> placed k' \<and> length ps = length pvs \<and> list_all exclusive ps"
proof (induction pvs arbitrary: k pcmd)
  case (Cons pv pvs)
  obtain k1 p where 1: "run_tasks lib pv k pcmd = Some (k1, p)" "placed k1" using cycle_returns[OF assms Cons.prems] by blast
  obtain k2 ps where "long_ctl_loop lib pvs k1 p = Some (k2, ps)" "placed k2" "length ps = length pvs" "list_all exclusive ps"
    using Cons.IH[OF 1(2)] by blast
  then show ?case using 1(1) cycle_exclusive[OF 1(1)] by simp
qed simp

text \<open>A configuration for a platoon of at most three.\<close>

definition config_ok :: "control_config \<Rightarrow> bool" where
  "config_ok cfg \<longleftrightarrow> 1 \<le> cc_MyPltnPos cfg \<and> cc_MyPltnPos cfg \<le> cc_pltn_size cfg \<and> cc_pltn_size cfg \<le> 3"

lemma init_placed: "config_ok cfg \<Longrightarrow> placed (fst (init_tasks cfg k p))"
  by (simp add: init_tasks_def long_setled_def placed_def config_ok_def zero_vehicle_info_def Let_def)

end
