(* ===== verification/LongBus.thy ===== *)
theory LongBus
  imports LongRun
begin

text \<open>
  Controller and command sender together: a brake request of the control variable in its turn on the bus, and the
  control variable of a follower when a driver ahead brakes.
\<close>

subsection \<open>The command sender\<close>

text \<open>A slot whose turn it is not changes nothing but its own command and the mode of the engine.\<close>

definition untouched :: "jstate \<Rightarrow> jstate \<Rightarrow> bool" where
  "untouched s s' \<longleftrightarrow> js_clock s' = js_clock s \<and> js_ticks s' = js_ticks s \<and> js_counter s' = js_counter s \<and> js_pdu s' = js_pdu s \<and>
     js_sent s' = js_sent s \<and> js_loop_number s' = js_loop_number s"

lemma update_untouched: "update_command k ctrl cmd False s = (cmd', s') \<Longrightarrow> untouched s s' \<and> js_msg s' = js_msg s"
  by (cases k) (auto simp: update_command_def update_engine_tsc_def update_engine_retarder_tsc_def
      update_brake_volvo_xbr_def update_brake_volvo_xbr_warn_def sent_now_def untouched_def Let_def split: if_splits)

lemma idle_slot:
  assumes "\<not> active_loop i (js_loop_number s)"
  shows "\<exists>s'. jbus_slot ctrl i s = Some s' \<and> untouched s s' \<and> (\<forall>j. j \<noteq> i \<longrightarrow> js_msg s' ! j = js_msg s ! j) \<and>
    length (js_msg s') = length (js_msg s)"
proof (cases "sj_active (js_msg s ! i)")
  case False
  then show ?thesis by (simp add: jbus_slot_def untouched_def)
next
  case True
  let ?pm = "js_msg s ! i"
  obtain cmd s1 where u: "update_command (sj_sender ?pm) ctrl (sj_cmd ?pm) False s = (cmd, s1)" by fastforce
  show ?thesis using True assms u update_untouched[OF u] by (simp add: jbus_slot_def Let_def untouched_def)
qed

lemma idle_slots:
  "\<forall>i \<in> set is. \<not> active_loop i (js_loop_number s) \<Longrightarrow>
   \<exists>s'. jbus_slots ctrl is s = Some s' \<and> untouched s s' \<and> (\<forall>j. j \<notin> set is \<longrightarrow> js_msg s' ! j = js_msg s ! j) \<and>
     length (js_msg s') = length (js_msg s)"
proof (induction "is" arbitrary: s)
  case (Cons i "is")
  obtain s1 where 1: "jbus_slot ctrl i s = Some s1" "untouched s s1" "\<forall>j. j \<noteq> i \<longrightarrow> js_msg s1 ! j = js_msg s ! j"
    "length (js_msg s1) = length (js_msg s)"
    using idle_slot[of i s ctrl] Cons.prems by auto
  obtain s2 where "jbus_slots ctrl is s1 = Some s2" "untouched s1 s2" "\<forall>j. j \<notin> set is \<longrightarrow> js_msg s2 ! j = js_msg s1 ! j"
    "length (js_msg s2) = length (js_msg s1)"
    using Cons.IH[of s1] Cons.prems 1(2) by (auto simp: untouched_def)
  then show ?case using 1 by (auto simp: untouched_def)
qed (simp add: untouched_def)

text \<open>The next message of the brake is due.\<close>

definition xbr_due :: "jstate \<Rightarrow> bool" where
  "xbr_due s \<longleftrightarrow> sj_active (js_msg s ! 2) \<and> active_loop JBUS_SEND_XBR (js_loop_number s) \<and>
     TIMEB_SUBTRACT (jc_last_time (sj_cmd (js_msg s ! 2))) (js_clock s (js_ticks s)) \<ge> jc_interval (sj_cmd (js_msg s ! 2))"

text \<open>A control variable that asks for a deceleration that fits into the message.\<close>

definition asks_brake :: "long_output \<Rightarrow> bool" where
  "asks_brake c \<longleftrightarrow> lo_brake_command_mode c = XBR_ACTIVE \<and> lo_brake_priority c = TSC_HIGHEST \<and>
     - 15687 / 1000 \<le> lo_ebs_deceleration c \<and> lo_ebs_deceleration c \<le> 0"

lemma demand_fits:
  assumes "- 15687 / 1000 \<le> d" "d \<le> (0 :: cfloat)"
  shows "0 \<le> c_trunc ((d + 15687 / 1000) / (4882812 / 10 ^ 10))" "c_trunc ((d + 15687 / 1000) / (4882812 / 10 ^ 10)) \<le> 65535"
proof -
  let ?y = "(d + 15687 / 1000) / (4882812 / 10 ^ 10)"
  have y: "0 \<le> ?y" "?y < 65535" using assms by (simp_all add: field_simps)
  show "0 \<le> c_trunc ?y" using y(1) by (simp add: c_trunc_def)
  have "of_int (c_trunc ?y) < (65535 :: cfloat)" using c_trunc_pos[OF y(1)] y(2) by linarith
  then show "c_trunc ?y \<le> 65535" by linarith
qed

lemma brake_pdu:
  assumes "XBRControlMode x = 2" "- 15687 / 1000 \<le> ExternalAccelerationDemand x" "ExternalAccelerationDemand x \<le> 0"
  shows "\<exists>c' p'. volvo_xbr_to_pdu c p x = Some (c', p', x)"
  using assms demand_fits[OF assms(2,3)] by (simp add: volvo_xbr_to_pdu_def Let_def)

text \<open>What the receiver reads from the message.\<close>

definition brake_request :: "j1939_pdu \<Rightarrow> cfloat \<Rightarrow> bool" where
  "brake_request pdu d \<longleftrightarrow> (\<forall>x0. XBRControlMode (pdu_to_volvo_xbr pdu x0) = XBR_ACTIVE \<and>
     XBRPriority (pdu_to_volvo_xbr pdu x0) = TSC_HIGHEST \<and> ExternalAccelerationDemand (pdu_to_volvo_xbr pdu x0) \<le> d \<and>
     d - ExternalAccelerationDemand (pdu_to_volvo_xbr pdu x0) < 6 / 10 ^ 4)"

lemma brake_slot:
  assumes "jbus_ok s" "xbr_due s" "asks_brake ctrl"
  shows "\<exists>s' fd pdu. jbus_slot ctrl 2 s = Some s' \<and> js_sent s' = js_sent s @ [(fd, pdu, 13)] \<and>
    brake_request pdu (lo_ebs_deceleration ctrl) \<and> js_loop_number s' = js_loop_number s"
proof -
  let ?pm = "js_msg s ! 2" and ?d = "lo_ebs_deceleration ctrl"
  have k: "sj_sender ?pm = SendXbr" "sj_slot_number ?pm = 13" "length (pd_data (js_pdu s)) = 8"
    using assms(1,2) by (auto simp: jbus_ok_def xbr_due_def kind_def)
  let ?x = "(jc_xbr (sj_cmd ?pm))\<lparr>XBRControlMode := 2, ExternalAccelerationDemand := ?d, XBRPriority := 0\<rparr>"
  let ?s1 = "s\<lparr>js_ticks := js_ticks s + 2\<rparr>"
  let ?cmd = "(sj_cmd ?pm)\<lparr>jc_xbr := ?x, jc_last_time := js_clock s (js_ticks s + 1)\<rparr>"
  have r: "is_ready_to_send SendXbr ctrl (sj_cmd ?pm) s = (True, sj_cmd ?pm, s\<lparr>js_ticks := js_ticks s + 1\<rparr>)"
    using assms(2) by (simp add: is_ready_to_send_def ready_to_send_xbr_def ftime_def xbr_due_def)
  have u: "update_command SendXbr ctrl (sj_cmd ?pm) True (s\<lparr>js_ticks := js_ticks s + 1\<rparr>) = (?cmd, ?s1)"
    using assms(3) by (simp add: update_command_def update_brake_volvo_xbr_def sent_now_def ftime_def asks_brake_def)
  obtain c p where v: "volvo_xbr_to_pdu (js_counter s) (js_pdu s) ?x = Some (c, p, ?x)"
    using brake_pdu[of ?x "js_counter s" "js_pdu s"] assms(3) by (auto simp: asks_brake_def)
  have b: "brake_request p ?d"
    using xbr_demand[OF v k(3) refl] assms(3) by (simp add: brake_request_def asks_brake_def BITS21_def)
  have a: "sj_active ?pm" "active_loop 2 (js_loop_number s)" using assms(2) by (simp_all add: xbr_due_def)
  show ?thesis using a r u v b k(2) unfolding jbus_slot_def Let_def k(1) by (simp add: cmd_to_pdu_def)
qed

lemma brake_iteration:
  assumes "jbus_ok s" "xbr_due s" "asks_brake c" "in_ctrl inp = Some c" "js_connected s \<or> in_login inp"
  shows "\<exists>s' fd pdu. jbus_iteration inp s = Some s' \<and> js_sent s' = js_sent s @ [(fd, pdu, 13)] \<and>
    brake_request pdu (lo_ebs_deceleration c)"
proof -
  let ?s = "snd (get_ctrl_var inp s)"
  have c: "control inp s = c" "js_clock ?s = js_clock s" "js_ticks ?s = js_ticks s" using assms(4,5) by (auto simp: control_def get_ctrl_var_def)
  have a: "active_loop 2 (js_loop_number s)" using assms(2) by (simp add: xbr_due_def)
  then have i: "\<not> active_loop 0 (js_loop_number s)" "\<not> active_loop 1 (js_loop_number s)" "\<not> active_loop 3 (js_loop_number s)"
    using active_once by fastforce+
  have ok: "jbus_ok ?s" using assms(1) by (simp add: ctrl_quiet)
  have upt: "[0..<NUM_JBUS_SEND] = [0, 1] @ [2] @ [3]" by (simp add: upt_rec)
  have app: "jbus_slots ctrl (is @ js) s = Option.bind (jbus_slots ctrl is s) (jbus_slots ctrl js)" for ctrl "is" js s
    by (induction "is" arbitrary: s) (auto split: bind_split)
  obtain s1 where 1: "jbus_slots c [0, 1] ?s = Some s1" "untouched ?s s1" "\<forall>j. j \<notin> {0, 1} \<longrightarrow> js_msg s1 ! j = js_msg ?s ! j"
    using idle_slots[of "[0, 1]" ?s c] i by (auto simp: ctrl_quiet)
  have ok1: "jbus_ok s1" using slots_law[OF ok _ _ 1(1)] by (simp add: slots_result_def)
  have d1: "xbr_due s1" using assms(2) 1(2,3) c by (simp add: xbr_due_def untouched_def ctrl_quiet)
  obtain s2 fd pdu where 2: "jbus_slot c 2 s1 = Some s2" "js_sent s2 = js_sent s1 @ [(fd, pdu, 13)]"
    "brake_request pdu (lo_ebs_deceleration c)" "js_loop_number s2 = js_loop_number s1"
    using brake_slot[OF ok1 d1 assms(3)] by blast
  obtain s3 where 3: "jbus_slots c [3] s2 = Some s3" "untouched s2 s3"
    using idle_slots[of "[3]" s2 c] i(3) 2(4) 1(2) by (auto simp: untouched_def ctrl_quiet)
  have "jbus_slots c [0..<NUM_JBUS_SEND] ?s = Some s3" unfolding upt app using 1(1) 2(1) 3(1) by auto
  moreover have "js_sent s3 = js_sent s @ [(fd, pdu, 13)]" using 1(2) 2(2) 3(2) by (simp add: untouched_def ctrl_quiet)
  ultimately show ?thesis using 2(3) by (simp add: iteration_split c info_quiet)
qed

subsection \<open>The packets of a cycle\<close>

lemma receive_kept:
  "tk_receive (rt_max_speed k) = tk_receive k" "tk_receive (rt_gaps pv k) = tk_receive k" "tk_receive (rt_read pv k) = tk_receive k"
  "tk_receive (rt_control_state lib k) = tk_receive k" "tk_receive (rt_estimate lib k) = tk_receive k"
  "tk_receive (rt_faults lib k) = tk_receive k" "tk_receive (rt_coordinate lib k) = tk_receive k"
  "tk_receive (rt_distance lib k) = tk_receive k" "tk_receive (rt_cacc lib k) = tk_receive k"
  by (simp_all add: rt_max_speed_def rt_gaps_def rt_read_def rt_control_state_def rt_estimate_def rt_faults_def long_setled_def
      rt_coordinate_def rt_distance_def rt_cacc_def Let_def case_prod_beta)

lemma comm_receive: "rt_comm k = Some k' \<Longrightarrow> tk_receive k' = tk_receive k"
  by (auto simp: rt_comm_def split: if_splits)

lemma preceding_receive: "rt_preceding k = Some k' \<Longrightarrow> tk_receive k' = tk_receive k"
  by (auto simp: rt_preceding_def Let_def split: if_splits)

lemma plan_receive: "rt_plan lib pv k = Some k' \<Longrightarrow> tk_receive k' = tk_receive (rt_packets pv k)"
  by (auto simp: rt_plan_def receive_kept Let_def dest!: comm_receive preceding_receive)

subsection \<open>A driver ahead brakes\<close>

text \<open>In a platoon of \<open>n\<close> trucks, for the truck at \<open>v\<close>: the decelerations it follows.\<close>

definition ahead :: "int \<Rightarrow> int \<Rightarrow> vehicle_state \<Rightarrow> veh_comm_packet list" where
  "ahead n v pv = (if v = 2 \<and> (n = 2 \<or> n = 3) then [vs_lead_trk pv]
     else if v = 3 \<and> n = 3 then [vs_lead_trk pv, vs_second_trk pv] else [])"

definition driver_ahead_brakes :: "int \<Rightarrow> int \<Rightarrow> vehicle_state \<Rightarrow> bool" where
  "driver_ahead_brakes n v pv \<longleftrightarrow> list_ex driver_brakes (ahead n v pv)"

text \<open>The hardest of 1.2 and 105 per cent of what the trucks ahead do.\<close>

definition wanted_decel :: "int \<Rightarrow> int \<Rightarrow> vehicle_state \<Rightarrow> cfloat" where
  "wanted_decel n v pv = foldl min (- 12 / 10) (map (\<lambda>p. 105 / 100 * pk_accel p) (ahead n v pv))"

lemma emergency_cmd:
  assumes "run_tasks lib pv k pcmd = Some (k', p)" "tl_min_f lib = min" "cc_use_comm (tk_config k) = 1"
    and "driver_ahead_brakes (cc_pltn_size (tk_config k)) (vi_veh_id (tk_veh k')) pv" "mc_auto_contr (tk_mng k') = ON"
  shows "lo_brake_command_mode p = XBR_ACTIVE" "lo_brake_priority p = TSC_HIGHEST"
    "lo_engine_command_mode p = TSC_OVERRIDE_DISABLED" "lo_engine_retarder_command_mode p = TSC_OVERRIDE_DISABLED"
    "lo_ebs_deceleration p = wanted_decel (cc_pltn_size (tk_config k)) (vi_veh_id (tk_veh k')) pv"
proof -
  let ?n = "cc_pltn_size (tk_config k)" and ?v = "vi_veh_id (tk_veh k')"
  obtain k1 k2 q where 1: "rt_plan lib pv k = Some k1" "rt_actuate lib k1 pcmd = (k2, q)"
    "p = rt_emergency (tl_min_f lib) pv k2 q" "tk_mng k' = tk_mng k1" "tk_veh k' = tk_veh k1"
    using run_tasks_split[OF assms(1)] by blast
  have k2: "tk_mng k2 = tk_mng k'" "tk_veh k2 = tk_veh k'" "tk_receive k2 = tk_receive (rt_packets pv k)"
    using rt_actuate_law[OF 1(2)] 1(4,5) plan_receive[OF 1(1)] by simp_all
  have e: "p = rt_emergency min pv k2 q" using 1(3) assms(2) by simp
  have m: "mc_auto_contr (tk_mng k2) = ON" "vi_veh_id (tk_veh k2) = ?v" using k2 assms(5) by simp_all
  have c: "?v = 2 \<and> (?n = 2 \<or> ?n = 3) \<and> driver_brakes (vs_lead_trk pv) \<or>
    ?v = 3 \<and> ?n = 3 \<and> (driver_brakes (vs_lead_trk pv) \<or> driver_brakes (vs_second_trk pv))"
    using assms(4) by (auto simp: driver_ahead_brakes_def ahead_def split: if_splits)
  have r: "tk_receive k2 1 = vs_lead_trk pv" "?n = 2 \<or> ?n = 3 \<Longrightarrow> tk_receive k2 2 = vs_second_trk pv"
    using c assms(3) by (auto simp: k2(3) rt_packets_def Let_def)
  have "lo_brake_command_mode p = XBR_ACTIVE \<and> lo_brake_priority p = TSC_HIGHEST \<and>
    lo_engine_command_mode p = TSC_OVERRIDE_DISABLED \<and> lo_engine_retarder_command_mode p = TSC_OVERRIDE_DISABLED \<and>
    lo_ebs_deceleration p = wanted_decel ?n ?v pv"
    using c
  proof
    assume "?v = 2 \<and> (?n = 2 \<or> ?n = 3) \<and> driver_brakes (vs_lead_trk pv)"
    then show ?thesis using m r(1) by (simp add: e rt_emergency_def brake_cmd_def wanted_decel_def ahead_def Let_def)
  next
    assume "?v = 3 \<and> ?n = 3 \<and> (driver_brakes (vs_lead_trk pv) \<or> driver_brakes (vs_second_trk pv))"
    then show ?thesis using m r by (simp add: e rt_emergency_def brake_cmd_def wanted_decel_def ahead_def Let_def)
  qed
  then show "lo_brake_command_mode p = XBR_ACTIVE" "lo_brake_priority p = TSC_HIGHEST"
    "lo_engine_command_mode p = TSC_OVERRIDE_DISABLED" "lo_engine_retarder_command_mode p = TSC_OVERRIDE_DISABLED"
    "lo_ebs_deceleration p = wanted_decel ?n ?v pv" by simp_all
qed

lemma wanted_range:
  assumes "\<forall>q \<in> set (ahead n v pv). - 149 / 10 \<le> pk_accel q"
  shows "- 15687 / 1000 \<le> wanted_decel n v pv" "wanted_decel n v pv \<le> - 12 / 10"
    "\<forall>q \<in> set (ahead n v pv). wanted_decel n v pv \<le> 105 / 100 * pk_accel q"
  using assms by (auto simp: wanted_decel_def ahead_def split: if_splits)

end
