(* ===== verification/LongLaws.thy ===== *)
theory LongLaws
  imports LongBus
begin

text \<open>
  Laws of the parts of the longitudinal controller: the distance to the target, the limits of torque and retarder, the
  number of the faults and the filter of the engine speed.
\<close>

subsection \<open>The distance to the target\<close>

text \<open>A target that is tracked: the radar has one, and has had it for half a second.\<close>

definition sees :: "cfloat \<Rightarrow> vehicle_state \<Rightarrow> bool" where
  "sees d pv \<longleftrightarrow> c_trunc (vs_Volvo_TargetAvailable pv) = 1 \<and> vs_Volvo_TargetDist pv = d"

definition tracked :: "jbus_static \<Rightarrow> bool" where "tracked st \<longleftrightarrow> 5 / 10 \<le> rj_tgt_avail_t st"

fun target_run :: "cfloat \<Rightarrow> vehicle_state list \<Rightarrow> jbus_static \<times> sens_read \<times> vehicle_info \<Rightarrow> jbus_static \<times> sens_read \<times> vehicle_info" where
  "target_run delta_t [] x = x"
| "target_run delta_t (pv # pvs) x = target_run delta_t pvs (read_target delta_t pv x)"

text \<open>From \<open>b\<close> towards \<open>d\<close>, at most \<open>up\<close> or \<open>down\<close> at a time.\<close>

definition approach :: "nat \<Rightarrow> cfloat \<Rightarrow> cfloat \<Rightarrow> cfloat" where
  "approach n b d = (if b \<le> d then min d (b + 15 / 100 * of_nat n) else max d (b - 5 / 10 * of_nat n))"

lemma limit_approach: "limit_distance b d = approach 1 b d"
  by (simp add: limit_distance_def approach_def min_def max_def)

lemma approach_zero: "approach 0 b d = b"
  by (simp add: approach_def)

lemma approach_add: "approach n (approach m b d) d = approach (m + n) b d"
proof (cases "b \<le> d")
  case True
  have "(0 :: cfloat) \<le> 15 / 100 * of_nat n" by simp
  then show ?thesis using True by (auto simp: approach_def min_def add_divide_distrib algebra_simps)
next
  case False
  have "(0 :: cfloat) \<le> 5 / 10 * of_nat n" by simp
  then show ?thesis using False by (auto simp: approach_def max_def add_divide_distrib algebra_simps)
qed

lemma target_step:
  assumes "sees d pv" "tracked st" "0 \<le> delta_t" "read_target delta_t pv (st, se, v) = (st', se', v')"
  shows "tracked st' \<and> rj_target_d_buff st' = limit_distance (rj_target_d_buff st) d \<and> se_target_d se' = rj_target_d_buff st'"
  using assms by (auto simp: read_target_def sees_def tracked_def Let_def)

lemma target_law:
  assumes "list_all (sees d) pvs" "tracked st" "0 \<le> delta_t" "pvs \<noteq> []" "target_run delta_t pvs (st, se, v) = (st', se', v')"
  shows "se_target_d se' = approach (length pvs) (rj_target_d_buff st) d"
  using assms
proof (induction pvs arbitrary: st se v)
  case (Cons pv pvs)
  obtain st1 se1 v1 where 1: "read_target delta_t pv (st, se, v) = (st1, se1, v1)" by (metis surj_pair)
  have s: "tracked st1" "rj_target_d_buff st1 = approach 1 (rj_target_d_buff st) d" "se_target_d se1 = rj_target_d_buff st1"
    using target_step[OF _ Cons.prems(2,3) 1, of d] Cons.prems(1) by (auto simp: limit_approach)
  show ?case
  proof (cases "pvs = []")
    case True
    then show ?thesis using Cons.prems(5) 1 s by simp
  next
    case False
    then have "se_target_d se' = approach (length pvs) (rj_target_d_buff st1) d"
      using Cons.IH[OF _ s(1) Cons.prems(3)] Cons.prems(1,5) 1 by simp
    then show ?thesis using s(2) by (simp add: approach_add)
  qed
qed simp

text \<open>A vehicle cuts in, or leaves: never both.\<close>

lemma cut_flags:
  assumes "read_target delta_t pv (st, se, v) = (st', se', v')" "\<not> (vi_cut_in v = ON \<and> vi_cut_out v = ON)"
  shows "\<not> (vi_cut_in v' = ON \<and> vi_cut_out v' = ON)"
  using assms by (auto simp: read_target_def Let_def split: prod.splits if_splits)

subsection \<open>The number of the faults\<close>

lemma u1_cases: "(x :: u1) = 0 \<or> x = 1"
proof -
  have "unat x < 2" using unsigned_less[of x, where 'a = nat] by simp
  then have "unat x = 0 \<or> unat x = 1" by linarith
  then show ?thesis by (auto simp: word_unat_eq_iff)
qed

definition prime_if :: "int \<Rightarrow> u1 \<Rightarrow> int" where "prime_if p x = (if x = 1 then p else 1)"

text \<open>The functions of the C library, with a fraction of zero.\<close>

definition c_modf :: "'l track_lib \<Rightarrow> bool" where
  "c_modf lib \<longleftrightarrow> (\<forall>n. tl_modf lib n = n) \<and> tl_max_i lib = max"

lemma fault_code_step:
  assumes "c_modf lib \<or> (buff = 1 \<longrightarrow> now = 1)" "1 < p" "0 < m"
  shows "fault_code lib p now buff (prime_if p buff * m) = prime_if p now * m"
proof -
  have "p \<le> p * m" using assms(2,3) by simp
  then show ?thesis using assms u1_cases[of now] u1_cases[of buff]
    by (auto simp: fault_code_def c_modf_def prime_if_def)
qed

text \<open>The product of the primes of the faults that were seen last.\<close>

definition fault_number :: "fault_buff \<Rightarrow> int" where
  "fault_number b = prime_if 3 (fb_torq b) * prime_if 7 (fb_radar b) * prime_if 11 (fb_lidar b) * prime_if 13 (fb_jake b) *
     prime_if 17 (fb_brk b) * prime_if 5 (fb_comm b)"

lemma prime_if_pos [simp]: "1 < p \<Longrightarrow> 0 < prime_if p x"
  by (simp add: prime_if_def)

lemma fault_code_any:
  assumes "c_modf lib \<or> (buff = 1 \<longrightarrow> now = 1)" "1 < p" "0 < a" "0 < b"
  shows "fault_code lib p now buff (a * prime_if p buff * b) = a * prime_if p now * b"
  using fault_code_step[OF assms(1,2), of "a * b"] assms(3,4) by (simp add: algebra_simps)

text \<open>No fault has ended since the last cycle.\<close>

definition none_ended :: "'l trk \<Rightarrow> bool" where
  "none_ended k \<longleftrightarrow> (\<forall>(was, is) \<in> {(fb_torq (tk_buff k), fi_torq (tk_fault k)), (fb_radar (tk_buff k), fi_radar (tk_fault k)),
     (fb_lidar (tk_buff k), fi_lidar (tk_fault k)), (fb_jake (tk_buff k), fi_jake (tk_fault k)),
     (fb_brk (tk_buff k), fi_brk (tk_fault k)), (fb_comm (tk_buff k), fi_comm (tk_fault k))}. was = 1 \<longrightarrow> is = 1)"

lemma faults_law:
  assumes "c_modf lib \<or> none_ended k" "cc_handle_faults (tk_config k) = 1" "mc_drive_mode (tk_mng k) > 1"
    and "vi_fault_mode (tk_veh k) = fault_number (tk_buff k)"
  shows "vi_fault_mode (tk_veh (rt_faults lib k)) = fault_number (tk_buff (rt_faults lib k))"
    "tk_buff (rt_faults lib k) = \<lparr>fb_torq = fi_torq (tk_fault k), fb_radar = fi_radar (tk_fault k), fb_lidar = fi_lidar (tk_fault k),
       fb_jake = fi_jake (tk_fault k), fb_brk = fi_brk (tk_fault k),
       fb_comm = (if vi_veh_id (tk_veh k) = 1 then fi_comm (tk_fault k) else fb_comm (tk_buff k))\<rparr>"
proof -
  let ?f = "tk_fault k" and ?b = "tk_buff k" and ?v = "vi_veh_id (tk_veh k)"
  have c: "c_modf lib \<or> (fb_torq ?b = 1 \<longrightarrow> fi_torq ?f = 1)" "c_modf lib \<or> (fb_radar ?b = 1 \<longrightarrow> fi_radar ?f = 1)"
    "c_modf lib \<or> (fb_lidar ?b = 1 \<longrightarrow> fi_lidar ?f = 1)" "c_modf lib \<or> (fb_jake ?b = 1 \<longrightarrow> fi_jake ?f = 1)"
    "c_modf lib \<or> (fb_brk ?b = 1 \<longrightarrow> fi_brk ?f = 1)" "c_modf lib \<or> (fb_comm ?b = 1 \<longrightarrow> fi_comm ?f = 1)"
    using assms(1) by (auto simp: none_ended_def)
  let ?m1 = "fault_code lib 3 (fi_torq ?f) (fb_torq ?b) (fault_number ?b)"
  let ?m2 = "fault_code lib 7 (fi_radar ?f) (fb_radar ?b) ?m1"
  let ?m3 = "fault_code lib 11 (fi_lidar ?f) (fb_lidar ?b) ?m2"
  let ?m4 = "fault_code lib 13 (fi_jake ?f) (fb_jake ?b) ?m3"
  let ?m5 = "fault_code lib 17 (fi_brk ?f) (fb_brk ?b) ?m4"
  let ?m6 = "if ?v = 1 then fault_code lib 5 (fi_comm ?f) (fb_comm ?b) ?m5 else ?m5"
  let ?b' = "\<lparr>fb_torq = fi_torq ?f, fb_radar = fi_radar ?f, fb_lidar = fi_lidar ?f, fb_jake = fi_jake ?f, fb_brk = fi_brk ?f,
     fb_comm = (if ?v = 1 then fi_comm ?f else fb_comm ?b)\<rparr>"
  show b: "tk_buff (rt_faults lib k) = ?b'"
    using assms(2,3) by (simp add: rt_faults_def Let_def long_setled_def)
  have m: "vi_fault_mode (tk_veh (rt_faults lib k)) = ?m6"
    using assms(2-4) by (simp add: rt_faults_def Let_def long_setled_def)
  have 1: "?m1 = prime_if 3 (fi_torq ?f) * (prime_if 7 (fb_radar ?b) * prime_if 11 (fb_lidar ?b) * prime_if 13 (fb_jake ?b) *
     prime_if 17 (fb_brk ?b) * prime_if 5 (fb_comm ?b))"
    using fault_code_any[OF c(1), of 3 1 "prime_if 7 (fb_radar ?b) * prime_if 11 (fb_lidar ?b) * prime_if 13 (fb_jake ?b) *
      prime_if 17 (fb_brk ?b) * prime_if 5 (fb_comm ?b)"] by (simp add: fault_number_def mult.assoc)
  have 2: "?m2 = prime_if 3 (fi_torq ?f) * prime_if 7 (fi_radar ?f) * (prime_if 11 (fb_lidar ?b) * prime_if 13 (fb_jake ?b) *
     prime_if 17 (fb_brk ?b) * prime_if 5 (fb_comm ?b))"
    using fault_code_any[OF c(2), of 7 "prime_if 3 (fi_torq ?f)" "prime_if 11 (fb_lidar ?b) * prime_if 13 (fb_jake ?b) *
      prime_if 17 (fb_brk ?b) * prime_if 5 (fb_comm ?b)"] unfolding 1 by (simp add: mult.assoc)
  have 3: "?m3 = prime_if 3 (fi_torq ?f) * prime_if 7 (fi_radar ?f) * prime_if 11 (fi_lidar ?f) * (prime_if 13 (fb_jake ?b) *
     prime_if 17 (fb_brk ?b) * prime_if 5 (fb_comm ?b))"
    using fault_code_any[OF c(3), of 11 "prime_if 3 (fi_torq ?f) * prime_if 7 (fi_radar ?f)" "prime_if 13 (fb_jake ?b) *
      prime_if 17 (fb_brk ?b) * prime_if 5 (fb_comm ?b)"] unfolding 2 by (simp add: mult.assoc)
  have 4: "?m4 = prime_if 3 (fi_torq ?f) * prime_if 7 (fi_radar ?f) * prime_if 11 (fi_lidar ?f) * prime_if 13 (fi_jake ?f) *
     (prime_if 17 (fb_brk ?b) * prime_if 5 (fb_comm ?b))"
    using fault_code_any[OF c(4), of 13 "prime_if 3 (fi_torq ?f) * prime_if 7 (fi_radar ?f) * prime_if 11 (fi_lidar ?f)"
      "prime_if 17 (fb_brk ?b) * prime_if 5 (fb_comm ?b)"] unfolding 3 by (simp add: mult.assoc)
  have 5: "?m5 = prime_if 3 (fi_torq ?f) * prime_if 7 (fi_radar ?f) * prime_if 11 (fi_lidar ?f) * prime_if 13 (fi_jake ?f) *
     prime_if 17 (fi_brk ?f) * prime_if 5 (fb_comm ?b)"
    using fault_code_any[OF c(5), of 17 "prime_if 3 (fi_torq ?f) * prime_if 7 (fi_radar ?f) * prime_if 11 (fi_lidar ?f) * prime_if 13 (fi_jake ?f)"
      "prime_if 5 (fb_comm ?b)"] unfolding 4 by (simp add: mult.assoc)
  have 6: "?m6 = fault_number ?b'"
    using fault_code_any[OF c(6), of 5 "prime_if 3 (fi_torq ?f) * prime_if 7 (fi_radar ?f) * prime_if 11 (fi_lidar ?f) * prime_if 13 (fi_jake ?f) *
      prime_if 17 (fi_brk ?f)" 1] unfolding 5 by (simp add: fault_number_def)
  show "vi_fault_mode (tk_veh (rt_faults lib k)) = fault_number (tk_buff (rt_faults lib k))" unfolding m b 6 ..
qed

text \<open>
  With a \<open>modf\<close> that writes a \<open>double\<close> where the program has an \<open>int\<close>, the low word of a small
  integer, zero, is what is left: the end of one fault forgets the others.
\<close>

lemma fault_end_forgets:
  assumes "tl_modf lib (m div p) = 0" "tl_max_i lib = max" "p \<le> m"
  shows "fault_code lib p 0 1 m = 1"
  using assms by (simp add: fault_code_def)

subsection \<open>The speed of the engine\<close>

text \<open>The filtered speeds for a list of measured ones, after the first 0.07 seconds.\<close>

fun we_run :: "u1 \<Rightarrow> cfloat list \<Rightarrow> cfloat \<Rightarrow> cfloat list" where
  "we_run sw [] old = []"
| "we_run sw (w # ws) old = (let (old, we) = filter_we 1 sw old w in we # we_run sw ws old)"

lemma filter_we_zero: "filter_we 1 sw 0 w = (0, w * (8 / 10))"
  by (simp add: filter_we_def)

lemma we_run_zero: "we_run sw ws 0 = map (\<lambda>w. w * (8 / 10)) ws"
  by (induction ws) (simp_all add: filter_we_zero)

text \<open>The missing assignment makes the filter forget: what is left is 80 per cent of the measured speed.\<close>

lemma engine_speed_scaled:
  "0 \<le> old \<Longrightarrow> old \<le> 5 * of_nat (length ws) \<Longrightarrow> drop (length ws) (we_run sw (ws @ ws') old) = map (\<lambda>w. w * (8 / 10)) ws'"
proof (induction ws arbitrary: old)
  case Nil
  then show ?case by (simp add: we_run_zero)
next
  case (Cons w ws)
  obtain o' we where f: "filter_we 1 sw old w = (o', we)" by fastforce
  have "0 \<le> o' \<and> o' \<le> 5 * of_nat (length ws)" using f Cons.prems by (auto simp: filter_we_def Let_def split: if_splits)
  then show ?case using Cons.IH[of o'] f by simp
qed

subsection \<open>Limits of torque and retarder\<close>

lemma limit_rise_le: "0 \<le> t \<Longrightarrow> limit_rise t b x \<le> max 40 (b + 10 * t)"
  by (auto simp: limit_rise_def Let_def max_def)

lemma limit_fall_range: "0 \<le> t \<Longrightarrow> b \<le> 0 \<Longrightarrow> x \<le> 0 \<Longrightarrow> limit_fall t b x \<le> 0"
  by (auto simp: limit_fall_def Let_def)

lemma share_range: "x \<le> 0 \<Longrightarrow> retarder_share v x \<le> 0"
  by (auto simp: retarder_share_def)

text \<open>The engine's part of the control variable, and what is left of it at the end.\<close>

definition engine_ok :: "cfloat \<Rightarrow> act \<Rightarrow> long_output \<Rightarrow> bool" where
  "engine_ok t a p \<longleftrightarrow> lo_engine_priority p = TSC_MEDIUM \<and> lo_engine_torque p \<le> 995 / 10 \<and>
     (at_eng_tq_ini (ac_static a) \<noteq> 1 \<longrightarrow> lo_engine_torque p \<le> max 40 (at_eng_torq_buff (ac_static a) + 10 * t) + 1)"

definition counted :: "actuate_static \<Rightarrow> actuate_static" where
  "counted st = st\<lparr>at_cmd_count := (if at_cmd_count st + 1 > 20 then 0 else at_cmd_count st + 1)\<rparr>"

lemma dither_le: "x \<le> y \<Longrightarrow> dither c 1 x \<le> y + 1"
  by (simp add: dither_def)

lemma clip_le: "x \<le> y \<Longrightarrow> (if x > c then c else x) \<le> (y :: cfloat)"
  by auto

lemma torque_limit_law:
  assumes "0 \<le> t"
  shows "lo_engine_torque (ac_pcmd (torque_limit t i a)) \<le> 995 / 10"
    "at_eng_tq_ini (ac_static a) \<noteq> 1 \<Longrightarrow>
     lo_engine_torque (ac_pcmd (torque_limit t i a)) \<le> max 40 (at_eng_torq_buff (ac_static a) + 10 * t) + 1"
    "lo_engine_priority (ac_pcmd (torque_limit t i a)) = lo_engine_priority (ac_pcmd a)"
proof -
  let ?x = "lo_engine_torque (ac_pcmd a)" and ?st = "ac_static a"
  define b where "b = (if at_eng_tq_ini ?st = 1 \<and> mc_drive_mode (ai_mng i) > 1 then ?x else at_eng_torq_buff ?st)"
  have x: "lo_engine_torque (ac_pcmd (torque_limit t i a)) =
    dither (at_cmd_count ?st) 1 (if limit_rise t b ?x > 985 / 10 then 985 / 10 else limit_rise t b ?x)"
    by (simp add: torque_limit_def Let_def b_def)
  show "lo_engine_torque (ac_pcmd (torque_limit t i a)) \<le> 995 / 10" unfolding x by (auto simp: dither_def)
  assume "at_eng_tq_ini ?st \<noteq> 1"
  then have "limit_rise t b ?x \<le> max 40 (at_eng_torq_buff ?st + 10 * t)" using limit_rise_le[OF assms, of b ?x] by (simp add: b_def)
  then have y: "(if limit_rise t b ?x > 985 / 10 then 985 / 10 else limit_rise t b ?x) \<le> max 40 (at_eng_torq_buff ?st + 10 * t)"
    by (rule clip_le)
  show "lo_engine_torque (ac_pcmd (torque_limit t i a)) \<le> max 40 (at_eng_torq_buff ?st + 10 * t) + 1"
    unfolding x by (rule dither_le[OF y])
qed (simp add: torque_limit_def Let_def)

lemma transition_keeps:
  "at_eng_tq_ini (ac_static (torque_transition t i a)) = at_eng_tq_ini (ac_static a)"
  "at_eng_torq_buff (ac_static (torque_transition t i a)) = at_eng_torq_buff (ac_static a)"
  "lo_engine_priority (ac_pcmd (torque_transition t i a)) = lo_engine_priority (ac_pcmd a)"
  by (simp_all add: torque_transition_def Let_def)

lemma engine_law:
  assumes "0 \<le> t" "lo_engine_command_mode (ac_pcmd (act_engine t i a)) \<noteq> TSC_OVERRIDE_DISABLED"
  shows "engine_ok t a (ac_pcmd (act_engine t i a))"
proof -
  define a1 where "a1 = a\<lparr>ac_pcmd := (ac_pcmd a)\<lparr>lo_engine_command_mode := TSC_TORQUE_CONTROL,
           lo_engine_retarder_command_mode := TSC_OVERRIDE_DISABLED, lo_engine_retarder_torque := 0,
           lo_brake_command_mode := TSC_OVERRIDE_DISABLED, lo_ebs_deceleration := 0, lo_engine_priority := TSC_MEDIUM\<rparr>\<rparr>"
  let ?b = "torque_limit t i (torque_transition t i a1)"
  have e: "act_engine t i a = short_cut_in i (torque_fault t i ?b)" "\<not> (mc_control_mode (ai_mng i) = 1 \<or> mc_control_mode (ai_mng i) = 2)"
    using assms(2) by (auto simp: act_engine_def a1_def Let_def short_cut_in_def split: if_splits)
  have p: "ac_pcmd (act_engine t i a) = ac_pcmd ?b" using e by (simp add: short_cut_in_def torque_fault_def Let_def)
  show ?thesis using torque_limit_law[OF assms(1), where i = i and a = "torque_transition t i a1"]
    unfolding engine_ok_def p by (simp add: transition_keeps) (simp add: a1_def)
qed

text \<open>The engine's part is kept, or the engine is not under control.\<close>

definition engine_kept :: "long_output \<Rightarrow> long_output \<Rightarrow> bool" where
  "engine_kept p q \<longleftrightarrow> lo_engine_command_mode q = TSC_OVERRIDE_DISABLED \<or> lo_engine_command_mode q = lo_engine_command_mode p \<and>
     lo_engine_torque q = lo_engine_torque p \<and> lo_engine_priority q = lo_engine_priority p"

lemma engine_kept_trans: "engine_kept p q \<Longrightarrow> engine_kept q r \<Longrightarrow> engine_kept p r"
  by (auto simp: engine_kept_def)

lemma kept_takeover: "engine_kept (ac_pcmd a) (ac_pcmd (act_takeover i a))"
  by (simp add: engine_kept_def act_takeover_def)

lemma kept_retarder: "engine_kept (ac_pcmd a) (ac_pcmd (act_retarder mx t i a))"
  by (simp add: engine_kept_def act_retarder_def retarder_fault_def retarder_torque_def Let_def)

lemma kept_cut_in: "engine_kept (ac_pcmd a) (ac_pcmd (act_cut_in t i a))"
  by (simp add: engine_kept_def act_cut_in_def Let_def)

lemma kept_brake: "engine_kept (ac_pcmd a) (ac_pcmd (act_brake i a))"
  by (simp add: engine_kept_def act_brake_def Let_def)

lemma kept_all: "engine_kept (ac_pcmd b) (ac_pcmd (act_brake i (act_cut_in t i (act_retarder mx t i (act_takeover i b)))))"
  using engine_kept_trans kept_takeover kept_retarder kept_cut_in kept_brake by metis

lemma kept_ok: "engine_kept p q \<Longrightarrow> lo_engine_command_mode q \<noteq> TSC_OVERRIDE_DISABLED \<Longrightarrow>
   lo_engine_command_mode p \<noteq> TSC_OVERRIDE_DISABLED \<and> engine_ok t a q = engine_ok t a p"
  by (auto simp: engine_kept_def engine_ok_def)

text \<open>The retarder's.\<close>

definition retarder_ok :: "long_output \<Rightarrow> bool" where
  "retarder_ok p \<longleftrightarrow> - 995 / 10 \<le> lo_engine_retarder_torque p \<and> lo_engine_retarder_torque p \<le> 1"

lemma dither_range: "- 985 / 10 \<le> x \<Longrightarrow> x \<le> 0 \<Longrightarrow> - 995 / 10 \<le> dither c (- 1) x \<and> dither c (- 1) x \<le> 1"
  by (simp add: dither_def)

lemma retarder_law:
  assumes "0 \<le> t" "at_eng_retard_buff (ac_static a) \<le> 0"
  shows "at_eng_retard_buff (ac_static (act_retarder mx t i a)) \<le> 0 \<and> ac_con (act_retarder mx t i a) = ac_con a \<and>
    (lo_engine_retarder_command_mode (ac_pcmd (act_retarder mx t i a)) \<noteq> TSC_OVERRIDE_DISABLED \<longrightarrow>
       retarder_ok (ac_pcmd (act_retarder mx t i a)))"
proof (cases "co_con_sw_3 (ai_out i) = 1")
  case True
  let ?st = "ac_static a"
  define x where "x = (if 100 * co_y12 (ai_out i) / mx 100 (cs_max_jk_we (ac_con a)) > 0 then 0
    else 100 * co_y12 (ai_out i) / mx 100 (cs_max_jk_we (ac_con a)))"
  define b where "b = (if at_eng_retard_ini ?st = 1 \<and> mc_drive_mode (ai_mng i) > 1 then x else at_eng_retard_buff ?st)"
  have x: "x \<le> 0" by (simp add: x_def)
  have y: "limit_fall t b x \<le> 0" by (rule limit_fall_range[OF assms(1) _ x]) (use assms(2) x in \<open>simp add: b_def\<close>)
  let ?z = "retarder_share (vi_veh_id (ai_veh i)) (limit_fall t b x)"
  have z: "?z \<le> 0" using share_range[OF y] .
  have q: "lo_engine_retarder_torque (ac_pcmd (act_retarder mx t i a)) =
      dither (at_cmd_count ?st) (- 1) (if ?z < - 985 / 10 then - 985 / 10 else ?z)"
    and s: "at_eng_retard_buff (ac_static (act_retarder mx t i a)) = limit_fall t b x" "ac_con (act_retarder mx t i a) = ac_con a"
    using True unfolding act_retarder_def retarder_fault_def retarder_torque_def Let_def x_def[symmetric]
    by (simp_all add: b_def)
  have "- 985 / 10 \<le> (if ?z < - 985 / 10 then - 985 / 10 else ?z) \<and> (if ?z < - 985 / 10 then - 985 / 10 else ?z) \<le> 0"
    using z by auto
  then have "retarder_ok (ac_pcmd (act_retarder mx t i a))" unfolding retarder_ok_def q by (intro dither_range) auto
  then show ?thesis using y s by simp
qed (use assms in \<open>simp add: act_retarder_def\<close>)

lemma engine_retard_buff:
  "at_eng_retard_buff (ac_static (act_engine t i a)) = at_eng_retard_buff (ac_static a)"
  "cs_wt_factor (ac_con (act_engine t i a)) = cs_wt_factor (ac_con a)"
  by (simp_all add: act_engine_def short_cut_in_def torque_fault_def torque_limit_def torque_transition_def Let_def case_prod_beta)

lemma later_retarder:
  "at_eng_retard_buff (ac_static (act_brake i a)) = at_eng_retard_buff (ac_static a)"
  "lo_engine_retarder_torque (ac_pcmd (act_brake i a)) = lo_engine_retarder_torque (ac_pcmd a)"
  "at_eng_retard_buff (ac_static (act_cut_in t i a)) = at_eng_retard_buff (ac_static a)"
  "lo_engine_retarder_torque (ac_pcmd (act_cut_in t i a)) = - 20 * cs_wt_factor (ac_con a) \<or> ac_pcmd (act_cut_in t i a) = ac_pcmd a"
  by (simp_all add: act_brake_def act_cut_in_def Let_def)

lemma actuate_law:
  assumes "0 \<le> t" "at_eng_retard_buff (ac_static a) \<le> 0" "0 \<le> cs_wt_factor (ac_con a)" "cs_wt_factor (ac_con a) \<le> 49 / 10"
    and "lo_engine_command_mode idle = TSC_OVERRIDE_DISABLED" "lo_engine_retarder_command_mode idle = TSC_OVERRIDE_DISABLED"
    and a': "a' = actuate tw mx idle t i a"
  shows "at_eng_retard_buff (ac_static a') \<le> 0"
    "lo_engine_command_mode (ac_pcmd a') \<noteq> TSC_OVERRIDE_DISABLED \<Longrightarrow> engine_ok t a (ac_pcmd a')"
    "lo_engine_retarder_command_mode (ac_pcmd a') \<noteq> TSC_OVERRIDE_DISABLED \<Longrightarrow> retarder_ok (ac_pcmd a')"
proof -
  define a1 where "a1 = a\<lparr>ac_static := counted (ac_static a), ac_con := (ac_con a)\<lparr>cs_max_tq_we := snd (tw (jb_we (ai_jbus i)))\<rparr>\<rparr>"
  define b where "b = act_engine t i a1"
  define c where "c = act_takeover i b"
  define d where "d = act_retarder mx t i c"
  define e where "e = act_brake i (act_cut_in t i d)"
  have a'': "a' = (if inactive i then e\<lparr>ac_pcmd := idle\<rparr> else e)"
    unfolding a' actuate_def Let_def e_def d_def c_def b_def a1_def counted_def ..
  have ok: "engine_ok t a1 p = engine_ok t a p" for p by (simp add: engine_ok_def a1_def counted_def)
  have b1: "at_eng_retard_buff (ac_static c) \<le> 0" "cs_wt_factor (ac_con c) = cs_wt_factor (ac_con a)"
    using assms(2) by (simp_all add: c_def takeover_law b_def engine_retard_buff a1_def counted_def)
  note r = retarder_law[OF assms(1) b1(1), of mx i, folded d_def]
  show "at_eng_retard_buff (ac_static a') \<le> 0" using r by (simp add: a'' e_def later_retarder)
  show "engine_ok t a (ac_pcmd a')" if "lo_engine_command_mode (ac_pcmd a') \<noteq> TSC_OVERRIDE_DISABLED"
  proof -
    have e: "ac_pcmd a' = ac_pcmd e" using that assms(5) by (auto simp: a'' split: if_splits)
    have k: "engine_kept (ac_pcmd b) (ac_pcmd e)" unfolding e_def d_def c_def by (rule kept_all)
    show ?thesis using kept_ok[OF k, of t a1] engine_law[OF assms(1), of i a1, folded b_def] that ok unfolding e by simp
  qed
  show "retarder_ok (ac_pcmd a')" if "lo_engine_retarder_command_mode (ac_pcmd a') \<noteq> TSC_OVERRIDE_DISABLED"
  proof -
    have e: "ac_pcmd a' = ac_pcmd e" using that assms(6) by (auto simp: a'' split: if_splits)
    have m: "lo_engine_retarder_command_mode (ac_pcmd (act_cut_in t i d)) \<noteq> TSC_OVERRIDE_DISABLED"
      using that by (simp add: e e_def brake_modes)
    have "retarder_ok (ac_pcmd (act_cut_in t i d))" using later_retarder(4)[of t i d]
    proof
      assume "lo_engine_retarder_torque (ac_pcmd (act_cut_in t i d)) = - 20 * cs_wt_factor (ac_con d)"
      moreover have "cs_wt_factor (ac_con d) = cs_wt_factor (ac_con a)" using r b1(2) by simp
      ultimately show ?thesis using assms(3,4) by (simp add: retarder_ok_def)
    next
      assume "ac_pcmd (act_cut_in t i d) = ac_pcmd d"
      then show ?thesis using r m by simp
    qed
    then show ?thesis by (simp add: e e_def retarder_ok_def later_retarder)
  qed
qed

end
