(* ===== verification/LongProps.thy ===== *)
theory LongProps
  imports LongLaws
begin

text \<open>Libraries and inputs for examples.\<close>

definition idle_lib :: "unit track_lib" where
  "idle_lib = \<lparr>tl_coording = (\<lambda>_ _ x. x), tl_maneuver = (\<lambda>_ _ _ x. x), tl_ref_dist = (\<lambda>_ x. x), tl_cacc = (\<lambda>_ x. x),
     tl_est_dist = (\<lambda>_ x. x), tl_v_flt = (\<lambda>_ _ x. x), tl_tq_we = (\<lambda>_. (0, 1000)), tl_max_f = max, tl_min_f = min,
     tl_max_i = max, tl_modf = (\<lambda>n. n)\<rparr>"

text \<open>A library that switches to automatic control.\<close>

definition auto_lib :: "unit track_lib" where
  "auto_lib = idle_lib\<lparr>tl_cacc := (\<lambda>_ (l, m, jb, mng, cfg, con, sw, v, out). (l, m, jb, mng\<lparr>mc_auto_contr := 1, mc_drive_mode := 3\<rparr>,
     cfg, con, sw, v, out\<lparr>co_y1 := 1000, co_con_sw_1 := 1\<rparr>))\<rparr>"

definition config2 :: control_config where
  "config2 = \<lparr>cc_max_spd = 25, cc_max_dcc = 1, cc_pltn_size = 2, cc_MyPltnPos = 2, cc_static_run = 0, cc_truck_platoon = 0,
     cc_truck_CACC = 1, cc_truck_ACC = 0, cc_ACC_tGap = 1, cc_CACC_tGap = 1, cc_use_comm = 1, cc_handle_faults = 1\<rparr>"

definition trk2 :: "unit trk" where "trk2 = fst (init_tasks config2 (trk_start config2 ()) trk_inactive_ctrl)"

lemma libs_keep: "keeps_platoon idle_lib" "keeps_platoon auto_lib"
  by (auto simp: keeps_platoon_def coording_keeps_def maneuver_keeps_def ref_dist_keeps_def cacc_keeps_def idle_lib_def auto_lib_def)

lemma trk2_placed: "placed trk2"
  by (simp add: trk2_def init_placed config_ok_def config2_def)

lemmas zero_defs = zero_packet_def zero_vehicle_state_def zero_switches_def zero_jbus_read_def zero_sens_read_def zero_fault_index_def
  zero_control_state_def zero_con_output_def zero_vehicle_info_def zero_pltn_info_def zero_manager_cmd_def

lemma plan_auto:
  assumes "rt_plan auto_lib pv k = Some k'"
  shows "mc_auto_contr (tk_mng k') = 1"
  using assms by (auto simp: rt_plan_def rt_cacc_def auto_lib_def idle_lib_def Let_def case_prod_beta)

text \<open>
  C2: a driver ahead brakes, the truck behind brakes.  In a platoon of two or three trucks under automatic control, when the
  packet of a truck ahead says that its driver brakes (the switch, or pressure on the brakes), the cycle of the
  controller that sees the packet asks for the brake, and the command sender, in the next turn of the
  brake, puts exactly one message on the bus.  It requests a deceleration with the highest priority, of at least 1.2 metres per second
  squared and at least 105 per cent of that of each truck ahead, up to the resolution of the message.
  Whatever the controller library does is overridden.
\<close>

theorem emergency_brake_reaches_bus:
  assumes "run_tasks lib pv k pcmd = Some (k', p)" "tl_min_f lib = min" "cc_use_comm (tk_config k) = 1"
    and "mc_auto_contr (tk_mng k') = ON" "driver_ahead_brakes n v pv" "n = cc_pltn_size (tk_config k)" "v = vi_veh_id (tk_veh k')"
    and "\<forall>q \<in> set (ahead n v pv). - 149 / 10 \<le> pk_accel q"
    and "jbus_ok s" "xbr_due s" "in_ctrl inp = Some p" "js_connected s \<or> in_login inp"
  shows "\<exists>s' fd pdu d. jbus_iteration inp s = Some s' \<and> js_sent s' = js_sent s @ [(fd, pdu, 13)] \<and> brake_request pdu d \<and>
    d \<le> - 12 / 10 \<and> (\<forall>q \<in> set (ahead n v pv). d \<le> 105 / 100 * pk_accel q)"
proof -
  note e = emergency_cmd[OF assms(1-3) assms(5)[unfolded assms(6,7)] assms(4), folded assms(6,7)]
  note w = wanted_range[OF assms(8)]
  have "asks_brake p" using e(1,2,5) w by (simp add: asks_brake_def)
  from brake_iteration[OF assms(9,10) this assms(11,12)] show ?thesis using w(2,3) unfolding e(5) by blast
qed

text \<open>The driver of the leader has hit the brake, and the leader slows down by three metres per second squared.\<close>

definition braking :: vehicle_state where
  "braking = zero_vehicle_state\<lparr>vs_lead_trk := zero_packet\<lparr>pk_user_bit_3 := 1, pk_accel := - 3\<rparr>\<rparr>"

definition bus2 :: jstate where "bus2 = (state0 2)\<lparr>js_loop_number := 3, js_ticks := 1\<rparr>"

lemma bus2_facts: "jbus_ok bus2" "xbr_due bus2" "js_connected bus2" "js_sent bus2 = []"
proof -
  obtain msg where m: "start0 = Some (4, msg)" using start0_some by blast
  have a: "sj_active (msg ! 2)" "jc_last_time (sj_cmd (msg ! 2)) = \<lparr>tb_time = 0, tb_millitm = 0\<rparr>" "jc_interval (sj_cmd (msg ! 2)) = 20"
    using m by (auto simp: start0_def send_jbus_init_def init_slot_def init_xbr_def upt_rec set_fd_def Let_def)
  show "xbr_due bus2"
    using a by (simp add: bus2_def xbr_due_def state0_def m active_loop_def TIMEB_SUBTRACT_def)
  show "jbus_ok bus2" using state0_ok(1)[of 2] by (simp add: bus2_def jbus_ok_def)
qed (simp_all add: bus2_def state0_def)

theorem emergency_brake_reaches_bus_witness:
  "\<exists>k' p s' fd pdu d. run_tasks auto_lib braking trk2 trk_inactive_ctrl = Some (k', p) \<and>
    jbus_iteration \<lparr>in_login = True, in_ctrl = Some p, in_eec1 = None, in_eec2 = None\<rparr> bus2 = Some s' \<and> js_sent s' = [(fd, pdu, 13)] \<and>
    brake_request pdu d \<and> d \<le> - 315 / 100"
proof -
  obtain k' p where 1: "run_tasks auto_lib braking trk2 trk_inactive_ctrl = Some (k', p)" "same_place (tk_veh trk2) (tk_veh k')"
    using cycle_returns[OF libs_keep(2) trk2_placed] by blast
  have c: "cc_pltn_size (tk_config trk2) = 2" "vi_veh_id (tk_veh trk2) = 2" "cc_use_comm (tk_config trk2) = 1"
    by (simp_all add: trk2_def init_tasks_def config2_def trk_start_def long_setled_def Let_def)
  have v: "vi_veh_id (tk_veh k') = 2" using 1(2) c(2) by (simp add: same_place_def)
  have m: "mc_auto_contr (tk_mng k') = 1" using run_tasks_split[OF 1(1)] plan_auto by metis
  have a: "ahead 2 2 braking = [zero_packet\<lparr>pk_user_bit_3 := 1, pk_accel := - 3\<rparr>]" by (simp add: ahead_def braking_def)
  let ?inp = "\<lparr>in_login = True, in_ctrl = Some p, in_eec1 = None, in_eec2 = None\<rparr>"
  have "\<exists>s' fd pdu d. jbus_iteration ?inp bus2 = Some s' \<and> js_sent s' = js_sent bus2 @ [(fd, pdu, 13)] \<and> brake_request pdu d \<and>
    d \<le> - 12 / 10 \<and> (\<forall>q \<in> set (ahead 2 2 braking). d \<le> 105 / 100 * pk_accel q)"
    by (rule emergency_brake_reaches_bus[OF 1(1)])
       (simp_all add: c v m a bus2_facts driver_ahead_brakes_def driver_brakes_def auto_lib_def idle_lib_def)
  then show ?thesis using 1(1) by (auto simp: a bus2_facts)
qed

text \<open>
  C7: for any controller library that leaves the numbers of the platoon alone and any sequence of vehicle states, the
  program goes on: no cycle leaves an array, each writes one control variable, and none of them
  commands the engine together with the retarder or the brake.
\<close>

theorem controller_runs:
  assumes "keeps_platoon lib" "config_ok cfg" "init_tasks cfg (trk_start cfg l) p0 = (k, p)"
  shows "\<exists>k' ps. long_ctl_loop lib pvs k p = Some (k', ps) \<and> length ps = length pvs \<and> list_all exclusive ps"
proof -
  have "placed k" using init_placed[OF assms(2), of "trk_start cfg l" p0] assms(3) by simp
  from loop_returns[OF assms(1) this, of pvs p] show ?thesis by blast
qed

theorem controller_runs_witness:
  "\<exists>k' ps. long_ctl_loop auto_lib (replicate 3 braking) trk2 (snd (init_tasks config2 (trk_start config2 ()) trk_inactive_ctrl)) =
     Some (k', ps) \<and> length ps = 3 \<and> list_all exclusive ps"
proof -
  have i: "init_tasks config2 (trk_start config2 ()) trk_inactive_ctrl =
    (trk2, snd (init_tasks config2 (trk_start config2 ()) trk_inactive_ctrl))" by (simp add: trk2_def)
  have c: "config_ok config2" by (simp add: config_ok_def config2_def)
  show ?thesis using controller_runs[OF libs_keep(2) c i, of "replicate 3 braking"] by simp
qed


lemma jbus_kept:
  "tk_jbus (rt_control_state lib k) = tk_jbus k" "tk_jbus (rt_estimate lib k) = tk_jbus k" "tk_jbus (rt_faults lib k) = tk_jbus k"
  "tk_jbus (rt_distance lib k) = tk_jbus k" "tk_jbus (rt_coordinate auto_lib k) = tk_jbus k" "tk_jbus (rt_cacc auto_lib k) = tk_jbus k"
  by (simp_all add: rt_control_state_def rt_estimate_def rt_faults_def rt_distance_def rt_coordinate_def rt_cacc_def long_setled_def
      auto_lib_def idle_lib_def Let_def case_prod_beta)

lemma preceding_jbus: "rt_preceding k = Some k' \<Longrightarrow> tk_jbus k' = tk_jbus k"
  by (auto simp: rt_preceding_def Let_def split: if_splits)

lemma read_pedal: "jb_accel_pedal_pos1 (tk_jbus (rt_read pv k)) = vs_EEC2_AccelPedalPos1 pv"
  by (simp add: rt_read_def read_jbus_def read_grade_def read_transmission_def read_brakes_def read_engine_def Let_def case_prod_beta)

lemma pedal_kept: "rt_plan auto_lib pv k = Some k' \<Longrightarrow> jb_accel_pedal_pos1 (tk_jbus k') = vs_EEC2_AccelPedalPos1 pv"
  by (auto simp: rt_plan_def jbus_kept read_pedal Let_def dest!: preceding_jbus)


subsection \<open>Links\<close>

text \<open>The static variables and flags at the start of the program.\<close>

definition links_fresh :: "int \<Rightarrow> cacc \<Rightarrow> bool" where
  "links_fresh n s \<longleftrightarrow> kc_static s = cacc_static0 \<and> vi_comm_p (kc_veh s) = [0, 0, 0] \<and> pi_pltn_size (kc_pltn s) = n"

text \<open>
  C10: over any run of \<open>cacc_comm\<close> from the start of the program, the links of a platoon of two or three trucks are
  what a watchdog for every other truck says: the flag of a link is set, and its bit in the result,
  exactly if more than twenty cycles have gone by without a packet with a new time; the communication fault is
  that of the link to the leader, and the leader never has it.
\<close>

theorem links_are_watched:
  assumes "links_fresh n s" "2 \<le> n" "n \<le> 3" "1 \<le> cc_MyPltnPos cfg" "cc_MyPltnPos cfg \<le> MAX_TRUCK" "cycles \<noteq> []"
  shows "\<exists>es s'. cacc_run t cfg cycles s = Some (es, s') \<and> es \<noteq> [] \<and>
    links_expired n (vid s) (\<lambda>i. age 0 0 (link_times i cycles)) (last es) s'"
proof -
  have a: "link_age s i = 0" "link_time s i = 0" for i
    using assms(1) by (simp_all add: links_fresh_def link_age_def link_time_def cacc_static0_def)
  have f: "link_flag s i = 0" if "1 \<le> i" "i \<le> n" for i
  proof -
    have "i = 1 \<or> i = 2 \<or> i = 3" using that assms(3) by linarith
    then show ?thesis using assms(1) by (auto simp: links_fresh_def link_flag_def)
  qed
  have "links_ok n s" using assms(1,3) a f by (simp add: links_ok_def links_fresh_def)
  then show ?thesis using run_law[of n s cfg cycles t] assms a by (auto simp: links_fresh_def)
qed

definition silent :: "(cfloat \<times> packets) list" where
  "silent = replicate 21 (1, \<lambda>_. zero_packet)"

definition cacc2 :: cacc where
  "cacc2 = \<lparr>kc_static = cacc_static0, kc_global_time = 0, kc_con = zero_control_state,
     kc_veh = zero_vehicle_info\<lparr>vi_veh_id := 2\<rparr>, kc_comm_reply = 0, kc_fault = zero_fault_index,
     kc_pltn = zero_pltn_info\<lparr>pi_pltn_size := 2\<rparr>\<rparr>"

text \<open>After 21 cycles without a packet the follower has lost its leader.\<close>

theorem links_are_watched_witness:
  "\<exists>es s'. cacc_run (2 / 100) config2 silent cacc2 = Some (es, s') \<and> fi_comm (kc_fault s') = 1 \<and> bit (last es) 1"
proof -
  have f: "links_fresh 2 cacc2" by (simp add: links_fresh_def cacc2_def zero_vehicle_info_def)
  have v: "vid cacc2 = 2" by (simp add: cacc2_def)
  have "age 0 0 (link_times 1 silent) = 21"
    by (simp add: silent_def link_times_def zero_packet_def eval_nat_numeral)
  then have e: "expired (age 0 0 (link_times 1 silent))" by (simp add: expired_def)
  obtain es s' where 1: "cacc_run (2 / 100) config2 silent cacc2 = Some (es, s')"
    "links_expired 2 2 (\<lambda>i. age 0 0 (link_times i silent)) (last es) s'"
    using links_are_watched[OF f, of config2 silent "2 / 100"] v by (auto simp: config2_def silent_def)
  show ?thesis using 1 e by (auto simp: links_expired_def)
qed

subsection \<open>Faults\<close>

text \<open>
  A cycle keeps \<open>fault_mode\<close> the product of the primes of the faults there are, so that a receiver can tell each of
  them by division: when no fault has ended since the last cycle, or \<open>modf\<close> gives the program the integer part it asks for.
\<close>

theorem fault_mode_names_faults:
  assumes "c_modf lib \<or> none_ended k" "cc_handle_faults (tk_config k) = 1" "mc_drive_mode (tk_mng k) > 1"
    and "vi_fault_mode (tk_veh k) = fault_number (tk_buff k)" "k' = rt_faults lib k"
  shows "vi_fault_mode (tk_veh k') = fault_number (tk_buff k') \<and>
    (7 dvd vi_fault_mode (tk_veh k') \<longleftrightarrow> fi_radar (tk_fault k) = 1) \<and> (11 dvd vi_fault_mode (tk_veh k') \<longleftrightarrow> fi_lidar (tk_fault k) = 1) \<and>
    (3 dvd vi_fault_mode (tk_veh k') \<longleftrightarrow> fi_torq (tk_fault k) = 1) \<and> (13 dvd vi_fault_mode (tk_veh k') \<longleftrightarrow> fi_jake (tk_fault k) = 1) \<and>
    (17 dvd vi_fault_mode (tk_veh k') \<longleftrightarrow> fi_brk (tk_fault k) = 1)"
proof -
  note L = faults_law[OF assms(1-4), folded assms(5)]
  have d: "(3 dvd fault_number b \<longleftrightarrow> fb_torq b = 1) \<and> (7 dvd fault_number b \<longleftrightarrow> fb_radar b = 1) \<and> (11 dvd fault_number b \<longleftrightarrow> fb_lidar b = 1) \<and>
    (13 dvd fault_number b \<longleftrightarrow> fb_jake b = 1) \<and> (17 dvd fault_number b \<longleftrightarrow> fb_brk b = 1)" for b
    by (cases "fb_torq b = 1"; cases "fb_radar b = 1"; cases "fb_lidar b = 1"; cases "fb_jake b = 1"; cases "fb_brk b = 1"; cases "fb_comm b = 1")
       (simp_all add: fault_number_def prime_if_def)
  show ?thesis using L d[of "tk_buff k'"] by simp
qed

theorem fault_mode_names_faults_witness:
  "7 dvd vi_fault_mode (tk_veh (rt_faults idle_lib (trk2\<lparr>tk_mng := zero_manager_cmd\<lparr>mc_drive_mode := 3\<rparr>, tk_fault := zero_fault_index\<lparr>fi_radar := 1\<rparr>\<rparr>)))"
proof -
  let ?k = "trk2\<lparr>tk_mng := zero_manager_cmd\<lparr>mc_drive_mode := 3\<rparr>, tk_fault := zero_fault_index\<lparr>fi_radar := 1\<rparr>\<rparr>"
  have c: "c_modf idle_lib \<or> none_ended ?k"
    by (simp add: none_ended_def trk2_def init_tasks_def trk_start_def long_setled_def Let_def)
  have k: "cc_handle_faults (tk_config ?k) = 1" "mc_drive_mode (tk_mng ?k) > 1" "vi_fault_mode (tk_veh ?k) = fault_number (tk_buff ?k)"
    by (simp_all add: trk2_def init_tasks_def trk_start_def long_setled_def config2_def fault_number_def prime_if_def Let_def)
  have "7 dvd vi_fault_mode (tk_veh (rt_faults idle_lib ?k)) \<longleftrightarrow> fi_radar (tk_fault ?k) = 1"
    using fault_mode_names_faults[OF c k refl] by blast
  moreover have "fi_radar (tk_fault ?k) = 1" by simp
  ultimately show ?thesis by blast
qed

subsection \<open>The target\<close>

text \<open>
  While the radar tracks a target at some distance, the distance the controller works with moves towards
  it, by 0.15 metres a cycle when it grows and 0.5 when it shrinks, and then is exactly it.
\<close>

theorem target_distance_follows:
  assumes "list_all (sees d) pvs" "tracked st" "0 \<le> delta_t" "pvs \<noteq> []" "target_run delta_t pvs (st, se, v) = (st', se', v')"
  shows "se_target_d se' = (if rj_target_d_buff st \<le> d then min d (rj_target_d_buff st + 15 / 100 * of_nat (length pvs))
    else max d (rj_target_d_buff st - 5 / 10 * of_nat (length pvs)))"
  using target_law[OF assms] by (simp only: approach_def)

theorem target_distance_follows_witness:
  "\<exists>st' se' v'. target_run (2 / 100) (replicate 20 (zero_vehicle_state\<lparr>vs_Volvo_TargetAvailable := 1, vs_Volvo_TargetDist := 30\<rparr>))
     (jbus_static0\<lparr>rj_tgt_avail_t := 1, rj_target_d_buff := 38\<rparr>, zero_sens_read, zero_vehicle_info) = (st', se', v') \<and> se_target_d se' = 30"
proof -
  let ?pv = "zero_vehicle_state\<lparr>vs_Volvo_TargetAvailable := 1, vs_Volvo_TargetDist := 30\<rparr>"
    and ?st = "jbus_static0\<lparr>rj_tgt_avail_t := 1, rj_target_d_buff := 38\<rparr>"
  obtain st' se' v' where 1: "target_run (2 / 100) (replicate 20 ?pv) (?st, zero_sens_read, zero_vehicle_info) = (st', se', v')"
    by (metis surj_pair)
  have s: "list_all (sees 30) (replicate 20 ?pv)" "tracked ?st" by (simp_all add: list_all_iff sees_def c_trunc_def tracked_def)
  show ?thesis using target_distance_follows[OF s _ _ 1] 1 by simp
qed

subsection \<open>Limits\<close>


definition full_torque :: act_in where
  "full_torque = \<lparr>ai_out = zero_con_output\<lparr>co_y1 := 5000, co_con_sw_1 := 1\<rparr>, ai_mng = zero_manager_cmd\<lparr>mc_drive_mode := 3\<rparr>,
     ai_sw = zero_switches, ai_jbus = zero_jbus_read, ai_veh = zero_vehicle_info\<lparr>vi_veh_id := 2\<rparr>,
     ai_sens = zero_sens_read\<lparr>se_target_d_raw := 50\<rparr>\<rparr>"

definition act0 :: act where
  "act0 = \<lparr>ac_static = actuate_static0\<lparr>at_eng_tq_ini := 0, at_eng_torq_buff := 50\<rparr>, ac_pcmd = trk_inactive_ctrl,
     ac_con = zero_control_state, ac_fault = zero_fault_index\<rparr>"


end
