(* ===== verification/LongState.thy ===== *)
theory LongState
  imports LongProps J1939Msgs2
begin

text \<open>
  The state of the vehicle, read from the data server (truckcontrol/long_ctl/src/common/long_utils.c): which fields of
  the state each message fills, the lists of variables, the read of all of them at the start of a control cycle, and
  the switches on the digital inputs.
\<close>

subsection \<open>Variables\<close>

text \<open>
  The contents of a variable, tagged with the variable: the case of the \<open>switch\<close> over its number.  \<open>Var_other\<close> stands for
  the variables whose fields the program does not use (the commands of others on the bus, radar, lidars, position).
\<close>

datatype dbv = Var_VOLVO_TARGET j1939_volvo_target_typ
  | Var_VOLVO_EGO j1939_volvo_ego_typ
  | Var_EEC1 j1939_eec1_typ
  | Var_EEC2 j1939_eec2_typ
  | Var_EEC3 j1939_eec3_typ
  | Var_ERC1 j1939_erc1_typ
  | Var_EBC1 j1939_ebc1_typ
  | Var_EBC2 j1939_ebc2_typ
  | Var_VOLVO_BRK j1939_volvo_brk_t
  | Var_VOLVO_VP15 j1939_volvo_vp15_t
  | Var_EBC5 j1939_ebc5_typ
  | Var_CCVS j1939_ccvs_typ
  | Var_ETC1 j1939_etc1_typ
  | Var_ETC2 j1939_etc2_typ
  | Var_VP_X j1939_vp_x_typ
  | Var_VDC2 j1939_vdc2_typ
  | Var_LFE j1939_lfe_typ
  | Var_IEC j1939_iec_typ
  | Var_ERC1_TRANS j1939_erc1_typ
  | Var_LONG_INPUT cfloat
  | Var_DVI_OUT u8 u8
  | Var_COMM_LEAD_TRK veh_comm_packet
  | Var_COMM_SECOND_TRK veh_comm_packet
  | Var_COMM_THIRD_TRK veh_comm_packet
  | Var_other int

text \<open>The numbers, of jbus_vars.h, clt_vars.h, long_comm.h and dvi.h.\<close>

definition dbv_num :: "dbv \<Rightarrow> int" where
  "dbv_num d = (case d of
     Var_VOLVO_TARGET _ \<Rightarrow> 545
   | Var_VOLVO_EGO _ \<Rightarrow> 546
   | Var_EEC1 _ \<Rightarrow> 504
   | Var_EEC2 _ \<Rightarrow> 505
   | Var_EEC3 _ \<Rightarrow> 508
   | Var_ERC1 _ \<Rightarrow> 501
   | Var_EBC1 _ \<Rightarrow> 502
   | Var_EBC2 _ \<Rightarrow> 520
   | Var_VOLVO_BRK _ \<Rightarrow> 550
   | Var_VOLVO_VP15 _ \<Rightarrow> 551
   | Var_EBC5 _ \<Rightarrow> 537
   | Var_CCVS _ \<Rightarrow> 512
   | Var_ETC1 _ \<Rightarrow> 503
   | Var_ETC2 _ \<Rightarrow> 506
   | Var_VP_X _ \<Rightarrow> 534
   | Var_VDC2 _ \<Rightarrow> 535
   | Var_LFE _ \<Rightarrow> 513
   | Var_IEC _ \<Rightarrow> 515
   | Var_ERC1_TRANS _ \<Rightarrow> 524
   | Var_LONG_INPUT _ \<Rightarrow> 200
   | Var_DVI_OUT _ _ \<Rightarrow> 6544
   | Var_COMM_LEAD_TRK _ \<Rightarrow> 496
   | Var_COMM_SECOND_TRK _ \<Rightarrow> 497
   | Var_COMM_THIRD_TRK _ \<Rightarrow> 498
   | Var_other n \<Rightarrow> n)"

subsection \<open>One variable\<close>

text \<open>
  The cases of \<open>long_update_fields_from_dbv\<close>, one definition for each message; \<open>ref\<close> is the reference torque of the retarder.
  An assignment to a byte or an \<open>int\<close> cuts a fraction off.
\<close>

definition upd_volvo_target :: "j1939_volvo_target_typ \<Rightarrow> vehicle_state \<Rightarrow> vehicle_state" where
  "upd_volvo_target x ps = ps\<lparr>
     vs_Volvo_TargetDist := TargetDist x,
     vs_Volvo_TargetVel := TargetVel x,
     vs_Volvo_TargetAcc := TargetAcc x,
     vs_Volvo_TargetAvailable := of_nat (unat (TargetAvailable x))\<rparr>"

definition upd_volvo_ego :: "j1939_volvo_ego_typ \<Rightarrow> vehicle_state \<Rightarrow> vehicle_state" where
  "upd_volvo_ego x ps = ps\<lparr>
     vs_Volvo_EgoVel := EgoVel x,
     vs_Volvo_EgoAcc := EgoAcc x\<rparr>"

definition upd_eec1 :: "j1939_eec1_typ \<Rightarrow> vehicle_state \<Rightarrow> vehicle_state" where
  "upd_eec1 x ps = ps\<lparr>
     vs_EEC1_EngineSpeed := EEC1_EngineSpeed x,
     vs_EEC1_ActualEnginePercentTorque := EEC1_ActualEnginePercentTorque x,
     vs_EEC1_EngineTorqueMode := EEC1_EngineTorqueMode x,
     vs_EEC1_DrvrDemandEngPercentTorque := EEC1_DrvrDemandEngPercentTorque x,
     vs_EEC1_EngDemandPercentTorque := EEC1_EngDemandPercentTorque x\<rparr>"

definition upd_eec2 :: "j1939_eec2_typ \<Rightarrow> vehicle_state \<Rightarrow> vehicle_state" where
  "upd_eec2 x ps = ps\<lparr>
     vs_EEC2_AccelPedalPos1 := EEC2_AccelPedalPos1 x,
     vs_EEC2_AccelPedalPos2 := EEC2_AccelPedalPos2 x,
     vs_EEC2_ActMaxAvailEngPercentTorque := c_trunc (EEC2_ActMaxAvailEngPercentTorque x),
     vs_EEC2_EnginePercentLoadAtCurrentSpd := EEC2_EnginePercentLoadAtCurrentSpd x,
     vs_EEC2_RoadSpeedLimitStatus := int (unat (EEC2_RoadSpeedLimitStatus x))\<rparr>"

definition upd_eec3 :: "j1939_eec3_typ \<Rightarrow> vehicle_state \<Rightarrow> vehicle_state" where
  "upd_eec3 x ps = ps\<lparr>
     vs_EEC3_NominalFrictionPercentTorque := EEC3_NominalFrictionPercentTorque x,
     vs_EEC3_EngsDesiredOperatingSpeed := EEC3_EngsDesiredOperatingSpeed x\<rparr>"

definition upd_erc1 :: "cfloat \<Rightarrow> j1939_erc1_typ \<Rightarrow> vehicle_state \<Rightarrow> vehicle_state" where
  "upd_erc1 ref x ps = ps\<lparr>
     vs_ERC1ERActlMxAvlbRtdrtPerctTorque := ERC1ERActlMxAvlbRtdrtPerctTorque x,
     vs_ERC1ERActualEngineRetPercentTrq := ERC1ERActualEngineRetPercentTrq x * ref / 100,
     vs_ERC1ERDrvrsDmandRtdrPerctTorque := ERC1ERDrvrsDmandRtdrPerctTorque x,
     vs_ERC1ERIntendedRtdrPercentTorque := ERC1ERIntendedRtdrPercentTorque x,
     vs_ERC1ERRetarderEnableShiftAssistSw := ERC1ERRetarderEnableShiftAssistSw x,
     vs_ERC1ERRetarderRqingBrakeLight := ERC1ERRetarderRqingBrakeLight x,
     vs_ERC1ERRetarderSelectionNonEng := ERC1ERRetarderSelectionNonEng x,
     vs_ERC1ERRetarderTorqueMode := ERC1ERRetarderTorqueMode x,
     vs_ERC1ERRtdrEnablBrakeAssistSwitch := ERC1ERRtdrEnablBrakeAssistSwitch x\<rparr>"

definition upd_ebc1 :: "j1939_ebc1_typ \<Rightarrow> vehicle_state \<Rightarrow> vehicle_state" where
  "upd_ebc1 x ps = ps\<lparr>
     vs_EBC1_BrakePedalPosition := EBC1_BrakePedalPosition x,
     vs_EBSBrakeSwitch := int (unat (EBSBrakeSwitch x)),
     vs_ABSEBSAmberWarningSignal := int (unat (ABSEBSAmberWarningSignal x)),
     vs_EBC1_ABSFullyOperational := int (unat (EBC1_ABSFullyOperational x)),
     vs_EBC1_AntiLockBrakingActive := int (unat (EBC1_AntiLockBrakingActive x)),
     vs_EBC1_ASRBrakeControlActive := int (unat (EBC1_ASRBrakeControlActive x)),
     vs_EBC1_ASREngineControlActive := int (unat (EBC1_ASREngineControlActive x)),
     vs_EBC1_EBSRedWarningSignal := int (unat (EBC1_EBSRedWarningSignal x)),
     vs_EBC1_EngRetarderSelection := EBC1_EngRetarderSelection x\<rparr>"

definition upd_ebc2 :: "j1939_ebc2_typ \<Rightarrow> vehicle_state \<Rightarrow> vehicle_state" where
  "upd_ebc2 x ps = ps\<lparr>
     vs_EBC2_FrontAxleSpeed := EBC2_FrontAxleSpeed x,
     vs_EBC2_RelativeSpeedFrontAxleLeftWheel := EBC2_RelativeSpeedFrontAxleLeftWheel x,
     vs_EBC2_RlativeSpeedFrontAxleRightWheel := EBC2_RlativeSpeedFrontAxleRightWheel x,
     vs_EBC2_RelativeSpeedRearAxle1LeftWheel := EBC2_RelativeSpeedRearAxle1LeftWheel x,
     vs_EBC2_RlativeSpeedRearAxle1RightWheel := EBC2_RlativeSpeedRearAxle1RightWheel x,
     vs_EBC2_RlativeSpeedRearAxle2RightWheel := EBC2_RlativeSpeedRearAxle2RightWheel x\<rparr>"

definition upd_volvo_brk :: "j1939_volvo_brk_t \<Rightarrow> vehicle_state \<Rightarrow> vehicle_state" where
  "upd_volvo_brk x ps = ps\<lparr>
     vs_VBRK_BrkAppPressure := VBRK_BrkAppPressure x,
     vs_VBRK_BrkPrimaryPressure := VBRK_BrkPrimaryPressure x,
     vs_VBRK_BrkSecondaryPressure := VBRK_BrkSecondaryPressure x,
     vs_VBRK_BrkStatParkBrkActuator := VBRK_BrkStatParkBrkActuator x,
     vs_VBRK_ParkBrkRedWarningSignal := VBRK_ParkBrkRedWarningSignal x,
     vs_VBRK_ParkBrkReleaseInhibitStat := VBRK_ParkBrkReleaseInhibitStat x\<rparr>"

definition upd_volvo_vp15 :: "j1939_volvo_vp15_t \<Rightarrow> vehicle_state \<Rightarrow> vehicle_state" where
  "upd_volvo_vp15 x ps = ps\<lparr>
     vs_VP15_RoadInclinationVP15 := VP15_RoadInclinationVP15 x,
     vs_VP15_VehicleWeightVP15 := VP15_VehicleWeightVP15 x\<rparr>"

definition upd_ebc5 :: "j1939_ebc5_typ \<Rightarrow> vehicle_state \<Rightarrow> vehicle_state" where
  "upd_ebc5 x ps = ps\<lparr>
     vs_EBC5_FoundationBrakeUse := EBC5_FoundationBrakeUse x,
     vs_EBC5_HaltBrakeMode := EBC5_HaltBrakeMode x,
     vs_EBC5_XBRAccelerationLimit := word_of_int (c_trunc (EBC5_XBRAccelerationLimit x)),
     vs_EBC5_XBRActiveControlMode := EBC5_XBRActiveControlMode x\<rparr>"

definition upd_ccvs :: "j1939_ccvs_typ \<Rightarrow> vehicle_state \<Rightarrow> vehicle_state" where
  "upd_ccvs x ps = ps\<lparr>
     vs_CCVS_ParkingBrakeSwitch := CCVS_ParkingBrakeSwitch x,
     vs_CCVS_TwoSpeedAxleSwitch := CCVS_TwoSpeedAxleSwitch x,
     vs_CCVS_VehicleSpeed := CCVS_VehicleSpeed x,
     vs_CCVS_ParkBrakeReleaseInhibitRq := CCVS_ParkBrakeReleaseInhibitRq x,
     vs_CCVS_ClutchSwitch := CCVS_ClutchSwitch x,
     vs_CCVS_BrakeSwitch := CCVS_BrakeSwitch x,
     vs_CCVS_CruiseCtrlPauseSwitch := CCVS_CruiseCtrlPauseSwitch x,
     vs_CCVS_CruiseControlEnableSwitch := CCVS_CruiseControlEnableSwitch x,
     vs_CCVS_CruiseControlActive := CCVS_CruiseControlActive x,
     vs_CCVS_CruiseControlAccelerateSwitch := CCVS_CruiseControlAccelerateSwitch x,
     vs_CCVS_CruiseControlResumeSwitch := CCVS_CruiseControlResumeSwitch x,
     vs_CCVS_CruiseControlCoastSwitch := CCVS_CruiseControlCoastSwitch x,
     vs_CCVS_CruiseControlSetSwitch := CCVS_CruiseControlSetSwitch x,
     vs_CCVS_CruiseControlState := CCVS_CruiseControlState x,
     vs_CCVS_PtoState := CCVS_PtoState x,
     vs_CCVS_EngShutdownOverrideSwitch := CCVS_EngShutdownOverrideSwitch x,
     vs_CCVS_EngTestModeSwitch := CCVS_EngTestModeSwitch x,
     vs_CCVS_EngIdleDecrementSwitch := CCVS_EngIdleDecrementSwitch x,
     vs_CCVS_EngIdleIncrementSwitch := CCVS_EngIdleIncrementSwitch x,
     vs_CCVS_CruiseControlSetSpeed := CCVS_CruiseControlSetSpeed x\<rparr>"

definition upd_etc1 :: "j1939_etc1_typ \<Rightarrow> vehicle_state \<Rightarrow> vehicle_state" where
  "upd_etc1 x ps = ps\<lparr>
     vs_ETC1_TransmissionDrivelineEngaged := ETC1_TransmissionDrivelineEngaged x,
     vs_ETC1_TorqueConverterLockupEngaged := ETC1_TorqueConverterLockupEngaged x,
     vs_ETC1_TransmissionShiftInProcess := ETC1_TransmissionShiftInProcess x,
     vs_ETC1_TransmissionOutputShaftSpeed := ETC1_TransmissionOutputShaftSpeed x,
     vs_ETC1_PercentClutchSlip := ETC1_PercentClutchSlip x,
     vs_ETC1_MomentaryEngineOverspeedEnable := ETC1_MomentaryEngineOverspeedEnable x,
     vs_ETC1_ProgressiveShiftDisable := ETC1_ProgressiveShiftDisable x,
     vs_ETC1_TransInputShaftSpeed := ETC1_TransInputShaftSpeed x\<rparr>"

definition upd_etc2 :: "j1939_etc2_typ \<Rightarrow> vehicle_state \<Rightarrow> vehicle_state" where
  "upd_etc2 x ps = ps\<lparr>
     vs_ETC2_TransmissionSelectedGear := ETC2_TransmissionSelectedGear x,
     vs_ETC2_TransmissionActualGearRatio := ETC2_TransmissionActualGearRatio x,
     vs_ETC2_TransmissionCurrentGear := ETC2_TransmissionCurrentGear x,
     vs_ETC2_TransmissionRangeSelected := ETC2_TransmissionRangeSelected x,
     vs_ETC2_TransmissionRangeAttained := ETC2_TransmissionRangeAttained x\<rparr>"

definition upd_vp_x :: "j1939_vp_x_typ \<Rightarrow> vehicle_state \<Rightarrow> vehicle_state" where
  "upd_vp_x x ps = ps\<lparr>
     vs_VP_X_TGW_Longitude_BB1_X_TGW := VP_X_TGW_Longitude_BB1_X_TGW x,
     vs_VP_X_TGW_Latitude_BB1_X_TGW := VP_X_TGW_Latitude_BB1_X_TGW x\<rparr>"

definition upd_vdc2 :: "j1939_vdc2_typ \<Rightarrow> vehicle_state \<Rightarrow> vehicle_state" where
  "upd_vdc2 x ps = ps\<lparr>
     vs_VDC2_SteeringWheelAngle := VDC2_SteeringWheelAngle x,
     vs_VDC2_YawRate := VDC2_YawRate x,
     vs_VDC2_LateralAcceleration := VDC2_LateralAcceleration x,
     vs_VDC2_LongitudinalAcceleration := VDC2_LongitudinalAcceleration x\<rparr>"

definition upd_lfe :: "j1939_lfe_typ \<Rightarrow> vehicle_state \<Rightarrow> vehicle_state" where
  "upd_lfe x ps = ps\<lparr>
     vs_LFE_EngineFuelRate := LFE_EngineFuelRate x,
     vs_LFE_EngineInstantaneousFuelEconomy := LFE_EngineInstantaneousFuelEconomy x,
     vs_LFE_EngineAverageFuelEconomy := LFE_EngineAverageFuelEconomy x,
     vs_LFE_EngineThrottleValve1Position := LFE_EngineThrottleValve1Position x\<rparr>"

definition upd_iec :: "j1939_iec_typ \<Rightarrow> vehicle_state \<Rightarrow> vehicle_state" where
  "upd_iec x ps = ps\<lparr>
     vs_boost_pressure := boost_pressure x\<rparr>"

definition upd_erc1_trans :: "j1939_erc1_typ \<Rightarrow> vehicle_state \<Rightarrow> vehicle_state" where
  "upd_erc1_trans x ps = ps\<lparr>
     vs_ERC1ERRetarderEnableShiftAssistSw := ERC1ERRetarderEnableShiftAssistSw x,
     vs_ERC1ERRtdrEnablBrakeAssistSwitch := ERC1ERRtdrEnablBrakeAssistSwitch x,
     vs_ERC1ERRetarderTorqueMode := ERC1ERRetarderTorqueMode x,
     vs_ERC1ERActualEngineRetPercentTrq := ERC1ERActualEngineRetPercentTrq x,
     vs_ERC1ERIntendedRtdrPercentTorque := ERC1ERIntendedRtdrPercentTorque x,
     vs_ERC1ERRetarderRqingBrakeLight := ERC1ERRetarderRqingBrakeLight x,
     vs_ERC1ERDrvrsDmandRtdrPerctTorque := ERC1ERDrvrsDmandRtdrPerctTorque x,
     vs_ERC1ERRetarderSelectionNonEng := ERC1ERRetarderSelectionNonEng x,
     vs_ERC1ERActlMxAvlbRtdrtPerctTorque := ERC1ERActlMxAvlbRtdrtPerctTorque x\<rparr>"

definition long_update_fields_from_dbv :: "cfloat \<Rightarrow> dbv \<Rightarrow> vehicle_state \<Rightarrow> vehicle_state" where
  "long_update_fields_from_dbv ref d ps = (case d of
     Var_VOLVO_TARGET x \<Rightarrow> upd_volvo_target x ps
   | Var_VOLVO_EGO x \<Rightarrow> upd_volvo_ego x ps
   | Var_EEC1 x \<Rightarrow> upd_eec1 x ps
   | Var_EEC2 x \<Rightarrow> upd_eec2 x ps
   | Var_EEC3 x \<Rightarrow> upd_eec3 x ps
   | Var_ERC1 x \<Rightarrow> upd_erc1 ref x ps
   | Var_EBC1 x \<Rightarrow> upd_ebc1 x ps
   | Var_EBC2 x \<Rightarrow> upd_ebc2 x ps
   | Var_VOLVO_BRK x \<Rightarrow> upd_volvo_brk x ps
   | Var_VOLVO_VP15 x \<Rightarrow> upd_volvo_vp15 x ps
   | Var_EBC5 x \<Rightarrow> upd_ebc5 x ps
   | Var_CCVS x \<Rightarrow> upd_ccvs x ps
   | Var_ETC1 x \<Rightarrow> upd_etc1 x ps
   | Var_ETC2 x \<Rightarrow> upd_etc2 x ps
   | Var_VP_X x \<Rightarrow> upd_vp_x x ps
   | Var_VDC2 x \<Rightarrow> upd_vdc2 x ps
   | Var_LFE x \<Rightarrow> upd_lfe x ps
   | Var_IEC x \<Rightarrow> upd_iec x ps
   | Var_ERC1_TRANS x \<Rightarrow> upd_erc1_trans x ps
   | Var_LONG_INPUT v \<Rightarrow> ps\<lparr>vs_acc_pedal_voltage := v\<rparr>
   | Var_DVI_OUT acc_cacc gap \<Rightarrow> ps\<lparr>vs_acc_cacc_request := acc_cacc, vs_gap_request := gap\<rparr>
   | Var_COMM_LEAD_TRK p \<Rightarrow> ps\<lparr>vs_lead_trk := p\<rparr>
   | Var_COMM_SECOND_TRK p \<Rightarrow> ps\<lparr>vs_second_trk := p\<rparr>
   | Var_COMM_THIRD_TRK p \<Rightarrow> ps\<lparr>vs_third_trk := p\<rparr>
   | Var_other _ \<Rightarrow> ps)"

subsection \<open>All variables\<close>

text \<open>EEC1, EEC2, EEC3, ERC1, ETC1, ETC2, EBC1, EBC2, EBC5, CCVS, LFE, IEC, VDC2, VP-X, the eight TSC1, and the four of Volvo.\<close>

definition trk_jdbv_list :: "int list" where
  "trk_jdbv_list = [504, 505, 508, 501, 503, 506, 502, 520, 537, 512, 513, 515, 535, 534, 538, 539, 532, 540, 541, 542, 543, 544,
     545, 546, 550, 551]"

text \<open>Inputs, digital inputs, position, the three trucks, radar, the lidars (206 and 207, 660), and the driver's display.\<close>

definition trk_in_dbv_list :: "int list" where
  "trk_in_dbv_list = [200, 205, 202, 496, 497, 498, 5001, 206, 207, 660, 6544]"

text \<open>\<open>rd\<close> is what \<open>clt_read\<close> gives for a variable, \<open>None\<close> when it fails; \<open>active\<close> the flags that \<open>long_database_init\<close> sets.\<close>

definition read_dbvs :: "cfloat \<Rightarrow> (int \<Rightarrow> dbv option) \<Rightarrow> int list \<Rightarrow> vehicle_state \<Rightarrow> vehicle_state" where
  "read_dbvs ref rd ns ps = fold (\<lambda>n ps. case rd n of Some d \<Rightarrow> long_update_fields_from_dbv ref d ps | None \<Rightarrow> ps) ns ps"

definition long_read_vehicle_state :: "cfloat \<Rightarrow> (int \<Rightarrow> bool) \<Rightarrow> (int \<Rightarrow> dbv option) \<Rightarrow> vehicle_state \<Rightarrow> vehicle_state" where
  "long_read_vehicle_state ref active rd ps =
    read_dbvs ref rd trk_in_dbv_list (read_dbvs ref rd (filter active trk_jdbv_list) ps)"

subsection \<open>Digital inputs\<close>

record long_dig_in = di_manualctl :: u8
  di_autoctl :: u8
  di_man_autoswerr :: u8
  di_brakesw :: u8
  di_brakeswerr :: u8

definition long_rdswitch :: "long_dig_in \<Rightarrow> int" where
  "long_rdswitch di =
    (if di_man_autoswerr di = 1 then - 1
     else if di_manualctl di = 0 \<and> di_autoctl di = 0 then 3
     else if di_manualctl di = 1 then 1
     else if di_autoctl di = 1 then 2
     else - 1)"

text \<open>Without a \<open>return\<close> at the end: nothing is returned for a switch that is neither 0 nor 1.\<close>

definition long_rdbrake :: "long_dig_in \<Rightarrow> int option" where
  "long_rdbrake di =
    (if di_brakeswerr di = 1 then Some (- 1)
     else if di_brakesw di = 0 then Some 1
     else if di_brakesw di = 1 then Some 0
     else None)"

subsection \<open>What the state shows\<close>

text \<open>The state has the contents of a variable in its fields.\<close>

definition shows_dbv :: "cfloat \<Rightarrow> dbv \<Rightarrow> vehicle_state \<Rightarrow> bool" where
  "shows_dbv ref d ps \<longleftrightarrow> (case d of
     Var_VOLVO_TARGET x \<Rightarrow> vs_Volvo_TargetDist ps = TargetDist x \<and>
       vs_Volvo_TargetVel ps = TargetVel x \<and> vs_Volvo_TargetAcc ps = TargetAcc x \<and>
       vs_Volvo_TargetAvailable ps = of_nat (unat (TargetAvailable x))
   | Var_VOLVO_EGO x \<Rightarrow> vs_Volvo_EgoVel ps = EgoVel x \<and> vs_Volvo_EgoAcc ps = EgoAcc x
   | Var_EEC1 x \<Rightarrow> vs_EEC1_EngineSpeed ps = EEC1_EngineSpeed x \<and>
       vs_EEC1_ActualEnginePercentTorque ps = EEC1_ActualEnginePercentTorque x \<and>
       vs_EEC1_EngineTorqueMode ps = EEC1_EngineTorqueMode x \<and>
       vs_EEC1_DrvrDemandEngPercentTorque ps = EEC1_DrvrDemandEngPercentTorque x \<and>
       vs_EEC1_EngDemandPercentTorque ps = EEC1_EngDemandPercentTorque x
   | Var_EEC2 x \<Rightarrow> vs_EEC2_AccelPedalPos1 ps = EEC2_AccelPedalPos1 x \<and>
       vs_EEC2_AccelPedalPos2 ps = EEC2_AccelPedalPos2 x \<and>
       vs_EEC2_ActMaxAvailEngPercentTorque ps = c_trunc (EEC2_ActMaxAvailEngPercentTorque x) \<and>
       vs_EEC2_EnginePercentLoadAtCurrentSpd ps = EEC2_EnginePercentLoadAtCurrentSpd x \<and>
       vs_EEC2_RoadSpeedLimitStatus ps = int (unat (EEC2_RoadSpeedLimitStatus x))
   | Var_EEC3 x \<Rightarrow> vs_EEC3_NominalFrictionPercentTorque ps = EEC3_NominalFrictionPercentTorque x \<and>
       vs_EEC3_EngsDesiredOperatingSpeed ps = EEC3_EngsDesiredOperatingSpeed x
   | Var_ERC1 x \<Rightarrow> vs_ERC1ERActlMxAvlbRtdrtPerctTorque ps = ERC1ERActlMxAvlbRtdrtPerctTorque x \<and>
       vs_ERC1ERActualEngineRetPercentTrq ps = ERC1ERActualEngineRetPercentTrq x * ref / 100 \<and>
       vs_ERC1ERDrvrsDmandRtdrPerctTorque ps = ERC1ERDrvrsDmandRtdrPerctTorque x \<and>
       vs_ERC1ERIntendedRtdrPercentTorque ps = ERC1ERIntendedRtdrPercentTorque x \<and>
       vs_ERC1ERRetarderEnableShiftAssistSw ps = ERC1ERRetarderEnableShiftAssistSw x \<and>
       vs_ERC1ERRetarderRqingBrakeLight ps = ERC1ERRetarderRqingBrakeLight x \<and>
       vs_ERC1ERRetarderSelectionNonEng ps = ERC1ERRetarderSelectionNonEng x \<and>
       vs_ERC1ERRetarderTorqueMode ps = ERC1ERRetarderTorqueMode x \<and>
       vs_ERC1ERRtdrEnablBrakeAssistSwitch ps = ERC1ERRtdrEnablBrakeAssistSwitch x
   | Var_EBC1 x \<Rightarrow> vs_EBC1_BrakePedalPosition ps = EBC1_BrakePedalPosition x \<and>
       vs_EBSBrakeSwitch ps = int (unat (EBSBrakeSwitch x)) \<and>
       vs_ABSEBSAmberWarningSignal ps = int (unat (ABSEBSAmberWarningSignal x)) \<and>
       vs_EBC1_ABSFullyOperational ps = int (unat (EBC1_ABSFullyOperational x)) \<and>
       vs_EBC1_AntiLockBrakingActive ps = int (unat (EBC1_AntiLockBrakingActive x)) \<and>
       vs_EBC1_ASRBrakeControlActive ps = int (unat (EBC1_ASRBrakeControlActive x)) \<and>
       vs_EBC1_ASREngineControlActive ps = int (unat (EBC1_ASREngineControlActive x)) \<and>
       vs_EBC1_EBSRedWarningSignal ps = int (unat (EBC1_EBSRedWarningSignal x)) \<and>
       vs_EBC1_EngRetarderSelection ps = EBC1_EngRetarderSelection x
   | Var_EBC2 x \<Rightarrow> vs_EBC2_FrontAxleSpeed ps = EBC2_FrontAxleSpeed x \<and>
       vs_EBC2_RelativeSpeedFrontAxleLeftWheel ps = EBC2_RelativeSpeedFrontAxleLeftWheel x \<and>
       vs_EBC2_RlativeSpeedFrontAxleRightWheel ps = EBC2_RlativeSpeedFrontAxleRightWheel x \<and>
       vs_EBC2_RelativeSpeedRearAxle1LeftWheel ps = EBC2_RelativeSpeedRearAxle1LeftWheel x \<and>
       vs_EBC2_RlativeSpeedRearAxle1RightWheel ps = EBC2_RlativeSpeedRearAxle1RightWheel x \<and>
       vs_EBC2_RlativeSpeedRearAxle2RightWheel ps = EBC2_RlativeSpeedRearAxle2RightWheel x
   | Var_VOLVO_BRK x \<Rightarrow> vs_VBRK_BrkAppPressure ps = VBRK_BrkAppPressure x \<and>
       vs_VBRK_BrkPrimaryPressure ps = VBRK_BrkPrimaryPressure x \<and>
       vs_VBRK_BrkSecondaryPressure ps = VBRK_BrkSecondaryPressure x \<and>
       vs_VBRK_BrkStatParkBrkActuator ps = VBRK_BrkStatParkBrkActuator x \<and>
       vs_VBRK_ParkBrkRedWarningSignal ps = VBRK_ParkBrkRedWarningSignal x \<and>
       vs_VBRK_ParkBrkReleaseInhibitStat ps = VBRK_ParkBrkReleaseInhibitStat x
   | Var_VOLVO_VP15 x \<Rightarrow> vs_VP15_RoadInclinationVP15 ps = VP15_RoadInclinationVP15 x \<and>
       vs_VP15_VehicleWeightVP15 ps = VP15_VehicleWeightVP15 x
   | Var_EBC5 x \<Rightarrow> vs_EBC5_FoundationBrakeUse ps = EBC5_FoundationBrakeUse x \<and>
       vs_EBC5_HaltBrakeMode ps = EBC5_HaltBrakeMode x \<and>
       vs_EBC5_XBRAccelerationLimit ps = word_of_int (c_trunc (EBC5_XBRAccelerationLimit x)) \<and>
       vs_EBC5_XBRActiveControlMode ps = EBC5_XBRActiveControlMode x
   | Var_CCVS x \<Rightarrow> vs_CCVS_ParkingBrakeSwitch ps = CCVS_ParkingBrakeSwitch x \<and>
       vs_CCVS_TwoSpeedAxleSwitch ps = CCVS_TwoSpeedAxleSwitch x \<and>
       vs_CCVS_VehicleSpeed ps = CCVS_VehicleSpeed x \<and>
       vs_CCVS_ParkBrakeReleaseInhibitRq ps = CCVS_ParkBrakeReleaseInhibitRq x \<and>
       vs_CCVS_ClutchSwitch ps = CCVS_ClutchSwitch x \<and> vs_CCVS_BrakeSwitch ps = CCVS_BrakeSwitch x \<and>
       vs_CCVS_CruiseCtrlPauseSwitch ps = CCVS_CruiseCtrlPauseSwitch x \<and>
       vs_CCVS_CruiseControlEnableSwitch ps = CCVS_CruiseControlEnableSwitch x \<and>
       vs_CCVS_CruiseControlActive ps = CCVS_CruiseControlActive x \<and>
       vs_CCVS_CruiseControlAccelerateSwitch ps = CCVS_CruiseControlAccelerateSwitch x \<and>
       vs_CCVS_CruiseControlResumeSwitch ps = CCVS_CruiseControlResumeSwitch x \<and>
       vs_CCVS_CruiseControlCoastSwitch ps = CCVS_CruiseControlCoastSwitch x \<and>
       vs_CCVS_CruiseControlSetSwitch ps = CCVS_CruiseControlSetSwitch x \<and>
       vs_CCVS_CruiseControlState ps = CCVS_CruiseControlState x \<and> vs_CCVS_PtoState ps = CCVS_PtoState x \<and>
       vs_CCVS_EngShutdownOverrideSwitch ps = CCVS_EngShutdownOverrideSwitch x \<and>
       vs_CCVS_EngTestModeSwitch ps = CCVS_EngTestModeSwitch x \<and>
       vs_CCVS_EngIdleDecrementSwitch ps = CCVS_EngIdleDecrementSwitch x \<and>
       vs_CCVS_EngIdleIncrementSwitch ps = CCVS_EngIdleIncrementSwitch x \<and>
       vs_CCVS_CruiseControlSetSpeed ps = CCVS_CruiseControlSetSpeed x
   | Var_ETC1 x \<Rightarrow> vs_ETC1_TransmissionDrivelineEngaged ps = ETC1_TransmissionDrivelineEngaged x \<and>
       vs_ETC1_TorqueConverterLockupEngaged ps = ETC1_TorqueConverterLockupEngaged x \<and>
       vs_ETC1_TransmissionShiftInProcess ps = ETC1_TransmissionShiftInProcess x \<and>
       vs_ETC1_TransmissionOutputShaftSpeed ps = ETC1_TransmissionOutputShaftSpeed x \<and>
       vs_ETC1_PercentClutchSlip ps = ETC1_PercentClutchSlip x \<and>
       vs_ETC1_MomentaryEngineOverspeedEnable ps = ETC1_MomentaryEngineOverspeedEnable x \<and>
       vs_ETC1_ProgressiveShiftDisable ps = ETC1_ProgressiveShiftDisable x \<and>
       vs_ETC1_TransInputShaftSpeed ps = ETC1_TransInputShaftSpeed x
   | Var_ETC2 x \<Rightarrow> vs_ETC2_TransmissionSelectedGear ps = ETC2_TransmissionSelectedGear x \<and>
       vs_ETC2_TransmissionActualGearRatio ps = ETC2_TransmissionActualGearRatio x \<and>
       vs_ETC2_TransmissionCurrentGear ps = ETC2_TransmissionCurrentGear x \<and>
       vs_ETC2_TransmissionRangeSelected ps = ETC2_TransmissionRangeSelected x \<and>
       vs_ETC2_TransmissionRangeAttained ps = ETC2_TransmissionRangeAttained x
   | Var_VP_X x \<Rightarrow> vs_VP_X_TGW_Longitude_BB1_X_TGW ps = VP_X_TGW_Longitude_BB1_X_TGW x \<and>
       vs_VP_X_TGW_Latitude_BB1_X_TGW ps = VP_X_TGW_Latitude_BB1_X_TGW x
   | Var_VDC2 x \<Rightarrow> vs_VDC2_SteeringWheelAngle ps = VDC2_SteeringWheelAngle x \<and>
       vs_VDC2_YawRate ps = VDC2_YawRate x \<and> vs_VDC2_LateralAcceleration ps = VDC2_LateralAcceleration x \<and>
       vs_VDC2_LongitudinalAcceleration ps = VDC2_LongitudinalAcceleration x
   | Var_LFE x \<Rightarrow> vs_LFE_EngineFuelRate ps = LFE_EngineFuelRate x \<and>
       vs_LFE_EngineInstantaneousFuelEconomy ps = LFE_EngineInstantaneousFuelEconomy x \<and>
       vs_LFE_EngineAverageFuelEconomy ps = LFE_EngineAverageFuelEconomy x \<and>
       vs_LFE_EngineThrottleValve1Position ps = LFE_EngineThrottleValve1Position x
   | Var_IEC x \<Rightarrow> vs_boost_pressure ps = boost_pressure x
   | Var_ERC1_TRANS x \<Rightarrow> vs_ERC1ERRetarderEnableShiftAssistSw ps = ERC1ERRetarderEnableShiftAssistSw x \<and>
       vs_ERC1ERRtdrEnablBrakeAssistSwitch ps = ERC1ERRtdrEnablBrakeAssistSwitch x \<and>
       vs_ERC1ERRetarderTorqueMode ps = ERC1ERRetarderTorqueMode x \<and>
       vs_ERC1ERActualEngineRetPercentTrq ps = ERC1ERActualEngineRetPercentTrq x \<and>
       vs_ERC1ERIntendedRtdrPercentTorque ps = ERC1ERIntendedRtdrPercentTorque x \<and>
       vs_ERC1ERRetarderRqingBrakeLight ps = ERC1ERRetarderRqingBrakeLight x \<and>
       vs_ERC1ERDrvrsDmandRtdrPerctTorque ps = ERC1ERDrvrsDmandRtdrPerctTorque x \<and>
       vs_ERC1ERRetarderSelectionNonEng ps = ERC1ERRetarderSelectionNonEng x \<and>
       vs_ERC1ERActlMxAvlbRtdrtPerctTorque ps = ERC1ERActlMxAvlbRtdrtPerctTorque x
   | Var_LONG_INPUT v \<Rightarrow> vs_acc_pedal_voltage ps = v
   | Var_DVI_OUT a g \<Rightarrow> vs_acc_cacc_request ps = a \<and> vs_gap_request ps = g
   | Var_COMM_LEAD_TRK p \<Rightarrow> vs_lead_trk ps = p
   | Var_COMM_SECOND_TRK p \<Rightarrow> vs_second_trk ps = p
   | Var_COMM_THIRD_TRK p \<Rightarrow> vs_third_trk ps = p
   | Var_other n \<Rightarrow> True)"

lemmas upd_defs = upd_volvo_target_def upd_volvo_ego_def upd_eec1_def upd_eec2_def upd_eec3_def upd_erc1_def upd_ebc1_def upd_ebc2_def upd_volvo_brk_def upd_volvo_vp15_def upd_ebc5_def upd_ccvs_def upd_etc1_def upd_etc2_def upd_vp_x_def upd_vdc2_def upd_lfe_def upd_iec_def upd_erc1_trans_def

lemma update_shows: "shows_dbv ref d (long_update_fields_from_dbv ref d ps)"
  by (cases d) (simp_all add: shows_dbv_def long_update_fields_from_dbv_def upd_defs)

lemma shows_kept:
  assumes "dbv_num d \<noteq> dbv_num d'" "dbv_num d \<noteq> 524" "dbv_num d' \<noteq> 524"
  shows "shows_dbv ref d (long_update_fields_from_dbv ref d' ps) \<longleftrightarrow> shows_dbv ref d ps"
  using assms by (cases d; cases d') (simp_all add: shows_dbv_def long_update_fields_from_dbv_def upd_defs dbv_num_def)

text \<open>Each variable holds the structure its number stands for.\<close>

definition database_typed :: "(int \<Rightarrow> dbv option) \<Rightarrow> bool" where
  "database_typed rd \<longleftrightarrow> (\<forall>n d. rd n = Some d \<longrightarrow> dbv_num d = n)"

lemma read_keeps:
  assumes "database_typed rd" "524 \<notin> set ns" "dbv_num d \<noteq> 524" "dbv_num d \<in> set ns \<Longrightarrow> rd (dbv_num d) = None" "shows_dbv ref d ps"
  shows "shows_dbv ref d (read_dbvs ref rd ns ps)"
  using assms(2,4,5)
proof (induction ns arbitrary: ps)
  case (Cons n ns)
  show ?case
  proof (cases "rd n")
    case None
    then show ?thesis using Cons by (simp add: read_dbvs_def)
  next
    case (Some d')
    then have n: "dbv_num d' = n" using assms(1) by (simp add: database_typed_def)
    then have "dbv_num d \<noteq> dbv_num d'" using Some Cons.prems(2) by auto
    then have "shows_dbv ref d (long_update_fields_from_dbv ref d' ps)"
      using shows_kept[of d d' ref ps] n Cons.prems assms(3) by auto
    then show ?thesis using Cons.IH[of "long_update_fields_from_dbv ref d' ps"] Cons.prems Some by (simp add: read_dbvs_def)
  qed
qed (simp add: read_dbvs_def)

lemma read_shows:
  assumes "database_typed rd" "524 \<notin> set ns" "distinct ns" "n \<in> set ns" "rd n = Some d"
  shows "shows_dbv ref d (read_dbvs ref rd ns ps)"
  using assms(2-4)
proof (induction ns arbitrary: ps)
  case (Cons m ns)
  have n: "dbv_num d = n" using assms(1,5) by (simp add: database_typed_def)
  show ?case
  proof (cases "m = n")
    case True
    have "shows_dbv ref d (read_dbvs ref rd ns (long_update_fields_from_dbv ref d ps))"
      by (rule read_keeps[OF assms(1)]) (use n True Cons.prems update_shows in auto)
    then show ?thesis using True assms(5) by (simp add: read_dbvs_def)
  next
    case False
    then show ?thesis using Cons by (simp add: read_dbvs_def split: option.split)
  qed
qed simp

text \<open>The variables a cycle reads.\<close>

definition is_read :: "(int \<Rightarrow> bool) \<Rightarrow> int \<Rightarrow> bool" where
  "is_read active n \<longleftrightarrow> n \<in> set trk_in_dbv_list \<or> n \<in> set trk_jdbv_list \<and> active n"

lemma list_facts: "524 \<notin> set trk_jdbv_list" "524 \<notin> set trk_in_dbv_list" "distinct trk_jdbv_list" "distinct trk_in_dbv_list"
  "set trk_jdbv_list \<inter> set trk_in_dbv_list = {}"
  by (simp_all add: trk_jdbv_list_def trk_in_dbv_list_def)

lemma state_kept:
  assumes "database_typed rd" "dbv_num d \<noteq> 524" "is_read active (dbv_num d) \<Longrightarrow> rd (dbv_num d) = None" "shows_dbv ref d ps"
  shows "shows_dbv ref d (long_read_vehicle_state ref active rd ps)"
  unfolding long_read_vehicle_state_def
  by (intro read_keeps[OF assms(1)]) (use assms(2-4) list_facts in \<open>auto simp: is_read_def\<close>)

lemma state_shows:
  assumes "database_typed rd" "is_read active n" "rd n = Some d"
  shows "shows_dbv ref d (long_read_vehicle_state ref active rd ps)"
proof (cases "n \<in> set trk_in_dbv_list")
  case True
  then show ?thesis using read_shows[OF assms(1) list_facts(2,4) _ assms(3)] by (simp add: long_read_vehicle_state_def)
next
  case False
  have n: "dbv_num d = n" using assms(1,3) by (simp add: database_typed_def)
  have "shows_dbv ref d (read_dbvs ref rd (filter active trk_jdbv_list) ps)"
    by (rule read_shows[OF assms(1) _ _ _ assms(3)]) (use assms(2) False list_facts in \<open>auto simp: is_read_def\<close>)
  moreover have "n \<noteq> 524" using assms(2) list_facts by (auto simp: is_read_def)
  ultimately show ?thesis unfolding long_read_vehicle_state_def
    by (intro read_keeps[OF assms(1) list_facts(2)]) (use n False in auto)
qed


text \<open>The accelerator has been read; the brake switch could not be, and stays as it was.\<close>


definition pedal_down :: j1939_eec2_typ where
  "pedal_down = \<lparr>eec2_timestamp = zero_timestamp, EEC2_RoadSpeedLimitStatus = 0, EEC2_AccelPedalKickdownSwitch = 0,
     EEC2_AccelPedal2LowIdleSwitch = 0, EEC2_AccelPedal1LowIdleSwitch = 0, EEC2_AccelPedalPos1 = 40, EEC2_AccelPedalPos2 = 0,
     EEC2_ActMaxAvailEngPercentTorque = 100, EEC2_EnginePercentLoadAtCurrentSpd = 60\<rparr>"


end
