(* ===== verification/VehLib.thy ===== *)
theory VehLib
  imports LongState Timestamp
begin

text \<open>
  The packet between the trucks on its way through the air (truckcontrol/long_ctl/src/vehcomm): the conversion to a
  message of the standard J2735 and back (veh_lib.c), the program that sends the packet of the controller (veh_snd.c)
  and the one that receives the packets of the others and writes them to the data server (veh_rcv.c).  The coder and
  decoder of the message are generated from its ASN.1 description and parameters here.
\<close>

subsection \<open>The message\<close>

text \<open>Of \<open>BSMCACC_t\<close> the fields the programs use; all are of type \<open>long\<close>, the bits \<open>int\<close>.\<close>

record bsm = bs_msgID :: int
  bs_msgCnt :: int
  bs_id :: "u8 list"
  bs_latitude :: int
  bs_longitude :: int
  bs_speed :: int
  bs_heading :: int
  bs_longAcc :: int
  bs_grpSize :: int
  bs_vehGrpPos :: int
  bs_vehFltMode :: int
  bs_vehManDes :: int
  bs_vehManID :: int
  bs_distToPVeh :: int
  bs_relSpdPVeh :: int
  bs_desSpd :: int
  bs_desAcc :: int
  bs_userDI1 :: int
  bs_userDI2 :: int
  bs_userDF1 :: int
  bs_userDF2 :: int
  bs_globalTime :: int
  bs_userBit1 :: int
  bs_userBit2 :: int
  bs_userBit3 :: int
  bs_userBit4 :: int

definition zero_bsm :: bsm where
  "zero_bsm = \<lparr>bs_msgID = 0, bs_msgCnt = 0, bs_id = [], bs_latitude = 0, bs_longitude = 0, bs_speed = 0, bs_heading = 0,
     bs_longAcc = 0, bs_grpSize = 0, bs_vehGrpPos = 0, bs_vehFltMode = 0, bs_vehManDes = 0, bs_vehManID = 0, bs_distToPVeh = 0,
     bs_relSpdPVeh = 0, bs_desSpd = 0, bs_desAcc = 0, bs_userDI1 = 0, bs_userDI2 = 0, bs_userDF1 = 0, bs_userDF2 = 0,
     bs_globalTime = 0, bs_userBit1 = 0, bs_userBit2 = 0, bs_userBit3 = 0, bs_userBit4 = 0\<rparr>"

text \<open>
  The casts \<open>(int)(x * m)\<close> and \<open>(short)(x * m)\<close>: the fraction is cut off; a number out of range has no value in C
  (\<open>None\<close>).
\<close>

definition to_fixed :: "nat \<Rightarrow> cfloat \<Rightarrow> cfloat \<Rightarrow> int option" where
  "to_fixed w m x = (let n = c_trunc (x * m) in if - (2 ^ (w - 1)) \<le> n \<and> n < 2 ^ (w - 1) then Some n else None)"

abbreviation (input) BSM_FLOAT_MULT :: cfloat where "BSM_FLOAT_MULT \<equiv> 100"
abbreviation (input) LONG_LAT_MULT :: cfloat where "LONG_LAT_MULT \<equiv> 10000000"
abbreviation (input) HEADING_MULT :: cfloat where "HEADING_MULT \<equiv> 80"

definition byte_val :: "u8 \<Rightarrow> int" where "byte_val b = int (unat b)"
definition bit_val :: "u1 \<Rightarrow> int" where "bit_val b = int (unat b)"

text \<open>\<open>OCTET_STRING_new_fromBuf\<close> with length \<open>- 1\<close> measures the string; without an end in the array it reads on behind it.\<close>

definition c_string :: "u8 list \<Rightarrow> u8 list option" where
  "c_string s = (if 0 \<in> set s then Some (takeWhile (\<lambda>c. c \<noteq> 0) s) else None)"

definition vehcomm2BSM :: "bsm \<Rightarrow> veh_comm_packet \<Rightarrow> bsm option" where
  "vehcomm2BSM b p = do {
     gt \<leftarrow> to_fixed 32 50 (pk_global_time p);
     df1 \<leftarrow> to_fixed 32 BSM_FLOAT_MULT (pk_user_float p);
     df2 \<leftarrow> to_fixed 32 BSM_FLOAT_MULT (pk_user_float1 p);
     lon \<leftarrow> to_fixed 32 LONG_LAT_MULT (pk_longitude p);
     lat \<leftarrow> to_fixed 32 LONG_LAT_MULT (pk_latitude p);
     hea \<leftarrow> to_fixed 16 HEADING_MULT (pk_heading p);
     acc \<leftarrow> to_fixed 32 BSM_FLOAT_MULT (pk_acc_traj p);
     vel \<leftarrow> to_fixed 32 BSM_FLOAT_MULT (pk_vel_traj p);
     spd \<leftarrow> to_fixed 16 50 (pk_velocity p);
     lac \<leftarrow> to_fixed 32 BSM_FLOAT_MULT (pk_accel p);
     rng \<leftarrow> to_fixed 32 BSM_FLOAT_MULT (pk_range p);
     rat \<leftarrow> to_fixed 32 BSM_FLOAT_MULT (pk_rate p);
     oid \<leftarrow> c_string (pk_object_id p);
     Some (b\<lparr>bs_msgID := 2, bs_globalTime := gt, bs_userDF1 := df1, bs_userDF2 := df2,
       bs_userDI1 := byte_val (pk_user_ushort_1 p), bs_userDI2 := byte_val (pk_user_ushort_2 p),
       bs_vehGrpPos := byte_val (pk_my_pip p), bs_vehManID := byte_val (pk_maneuver_id p),
       bs_vehFltMode := byte_val (pk_fault_mode p), bs_vehManDes := byte_val (pk_maneuver_des_1 p),
       bs_grpSize := byte_val (pk_pltn_size p), bs_msgCnt := pk_sequence_no p, bs_longitude := lon, bs_latitude := lat,
       bs_heading := hea, bs_userBit1 := bit_val (pk_user_bit_1 p), bs_userBit2 := bit_val (pk_user_bit_2 p),
       bs_userBit3 := bit_val (pk_user_bit_3 p), bs_userBit4 := bit_val (pk_user_bit_4 p), bs_desAcc := acc, bs_desSpd := vel,
       bs_speed := spd, bs_longAcc := lac, bs_distToPVeh := rng, bs_relSpdPVeh := rat, bs_id := oid\<rparr>)
   }"

text \<open>
  Back: the numbers are cut to bytes and bits.  Both maneuver words are filled from the one of the message; node, times and
  the name of the truck are not touched, and nothing is when the message is of another kind.
\<close>

definition BSM2vehcomm :: "bsm \<Rightarrow> veh_comm_packet \<Rightarrow> int \<times> veh_comm_packet" where
  "BSM2vehcomm b p = (if bs_msgID b = 2 then
     (0, p\<lparr>pk_global_time := of_int (bs_globalTime b) / 50, pk_user_float := of_int (bs_userDF1 b) / BSM_FLOAT_MULT,
        pk_user_float1 := of_int (bs_userDF2 b) / BSM_FLOAT_MULT, pk_user_ushort_1 := word_of_int (bs_userDI1 b),
        pk_user_ushort_2 := word_of_int (bs_userDI2 b), pk_my_pip := word_of_int (bs_vehGrpPos b),
        pk_maneuver_id := word_of_int (bs_vehManID b), pk_fault_mode := word_of_int (bs_vehFltMode b),
        pk_maneuver_des_1 := word_of_int (bs_vehManDes b), pk_maneuver_des_2 := word_of_int (bs_vehManDes b),
        pk_pltn_size := word_of_int (bs_grpSize b), pk_sequence_no := to_char (bs_msgCnt b),
        pk_user_bit_1 := word_of_int (bs_userBit1 b), pk_user_bit_2 := word_of_int (bs_userBit2 b),
        pk_user_bit_3 := word_of_int (bs_userBit3 b), pk_user_bit_4 := word_of_int (bs_userBit4 b),
        pk_acc_traj := of_int (bs_desAcc b) / BSM_FLOAT_MULT, pk_vel_traj := of_int (bs_desSpd b) / BSM_FLOAT_MULT,
        pk_velocity := of_int (bs_speed b) / 50, pk_accel := of_int (bs_longAcc b) / BSM_FLOAT_MULT,
        pk_range := of_int (bs_distToPVeh b) / BSM_FLOAT_MULT, pk_rate := of_int (bs_relSpdPVeh b) / BSM_FLOAT_MULT,
        pk_longitude := of_int (bs_longitude b) / LONG_LAT_MULT, pk_latitude := of_int (bs_latitude b) / LONG_LAT_MULT,
        pk_heading := of_int (bs_heading b) / HEADING_MULT\<rparr>)
   else (- 1, p))"

subsection \<open>The sender\<close>

definition set_vehicle_string :: "veh_comm_packet \<Rightarrow> u8 list \<Rightarrow> veh_comm_packet" where
  "set_vehicle_string p str =
     (let s = takeWhile (\<lambda>c. c \<noteq> 0) str; oid = take 6 (s @ replicate 6 0) @ drop 6 (pk_object_id p) in p\<lparr>pk_object_id := oid[5 := 0]\<rparr>)"

record snd_state = sn_pkt :: veh_comm_packet
  sn_gps :: "cfloat \<times> cfloat \<times> cfloat"
  sn_count :: int

text \<open>
  The packet to send: what the reads give for the packet of the controller and the position (\<open>None\<close> when one fails: the
  old contents stay), with name and number of the message.
\<close>

definition snd_packet :: "u8 list \<Rightarrow> veh_comm_packet option \<Rightarrow> (cfloat \<times> cfloat \<times> cfloat) option \<Rightarrow> snd_state \<Rightarrow> snd_state" where
  "snd_packet str tx gps s =
    (let p = (case tx of Some q \<Rightarrow> q | None \<Rightarrow> sn_pkt s);
         (lat, lon, hea) = (case gps of Some g \<Rightarrow> g | None \<Rightarrow> sn_gps s);
         p = set_vehicle_string (p\<lparr>pk_latitude := lat, pk_longitude := lon, pk_heading := hea\<rparr>) str;
         n = to_short (sn_count s + 1)
     in \<lparr>sn_pkt = p\<lparr>pk_sequence_no := to_char n\<rparr>, sn_gps = (lat, lon, hea), sn_count = n\<rparr>)"

text \<open>
  A turn of the main loop of veh_snd.c (neither verbose nor in debug mode), with the time, and the datagram sent.  The coder
  \<open>enc\<close> fails with \<open>None\<close>; then the program exits.
\<close>

definition veh_snd_step :: "(bsm \<Rightarrow> u8 list option) \<Rightarrow> u8 list \<Rightarrow> veh_comm_packet option \<Rightarrow> (cfloat \<times> cfloat \<times> cfloat) option \<Rightarrow>
    timestamp \<Rightarrow> snd_state \<Rightarrow> (u8 list \<times> snd_state) option" where
  "veh_snd_step enc str tx gps ts s = do {
     let s = snd_packet str tx gps s;
     let s = s\<lparr>sn_pkt := (sn_pkt s)\<lparr>pk_ts := ts\<rparr>\<rparr>;
     b \<leftarrow> vehcomm2BSM zero_bsm (sn_pkt s);
     bytes \<leftarrow> enc b;
     Some (bytes, s)
   }"

subsection \<open>The receiver\<close>

record veh_ids = id_self :: int
  id_lead :: int
  id_second :: int
  id_third :: int

text \<open>\<open>ini\<close> gives the numbers of the section of the configuration file.\<close>

definition get_ids :: "(string \<Rightarrow> int option) \<Rightarrow> veh_ids" where
  "get_ids ini = (let get_ini_long = (\<lambda>k d. case ini k of Some n \<Rightarrow> n | None \<Rightarrow> d) in
     \<lparr>id_self = get_ini_long ''PositionInPlatoon'' 1, id_lead = get_ini_long ''LeadVehicleID'' 1,
      id_second = get_ini_long ''SecondVehicleID'' 0, id_third = get_ini_long ''ThirdVehicleID'' 0\<rparr>)"

abbreviation (input) BSMCACCSIZE :: nat where "BSMCACCSIZE \<equiv> 3000"

record rcv_state = rv_buf :: "u8 list"
  rv_pkt :: veh_comm_packet
  rv_count :: int
  rv_sn :: int

text \<open>
  A turn of the main loop of veh_rcv.c: a datagram is laid over the buffer, the whole buffer is decoded (the program exits
  when that fails, or nothing was received), and the packet is written to the variables of the trucks whose
  place it has.  \<open>c\<close> is the first letter of the name of the own truck.
\<close>

definition rcv_sequence :: "u8 \<Rightarrow> veh_comm_packet \<Rightarrow> rcv_state \<Rightarrow> rcv_state" where
  "rcv_sequence c p s = (if pk_object_id p ! 0 \<noteq> c then
     let n = to_short (rv_count s + 1);
         sn = (if n = 1 then pk_sequence_no p else rv_sn s);
         sn = (if pk_sequence_no p - sn = 1 then to_short (sn + 1) else pk_sequence_no p)
     in s\<lparr>rv_count := n, rv_sn := sn\<rparr>
   else s)"

definition packet_vars :: "veh_ids \<Rightarrow> veh_comm_packet \<Rightarrow> dbv list" where
  "packet_vars ids p =
    (if byte_val (pk_my_pip p) = id_lead ids then [Var_COMM_LEAD_TRK p] else []) @
    (if byte_val (pk_my_pip p) = id_second ids then [Var_COMM_SECOND_TRK p] else []) @
    (if byte_val (pk_my_pip p) = id_third ids then [Var_COMM_THIRD_TRK p] else [])"

definition veh_rcv_step :: "(u8 list \<Rightarrow> bsm option) \<Rightarrow> u8 \<Rightarrow> veh_ids \<Rightarrow> u8 list \<Rightarrow> timestamp \<Rightarrow> rcv_state \<Rightarrow>
    (dbv list \<times> rcv_state) option" where
  "veh_rcv_step dec c ids datagram ts s = (if datagram = [] then None else do {
     let bytes = take BSMCACCSIZE datagram;
     let buf = bytes @ drop (length bytes) (rv_buf s);
     b \<leftarrow> dec buf;
     let (ret, p) = BSM2vehcomm b (rv_pkt s);
     let p = p\<lparr>pk_ts := ts\<rparr>;
     let s = rcv_sequence c p (s\<lparr>rv_buf := buf, rv_pkt := p\<rparr>);
     Some (packet_vars ids p, s)
   })"

end
