(* ===== verification/VehProps.thy ===== *)
theory VehProps
  imports VehLib
begin

text \<open>A packet on its way from truck to truck.\<close>

subsection \<open>Numbers\<close>

text \<open>\<open>y\<close> is \<open>x\<close> cut towards zero to a multiple of \<open>r\<close>.\<close>

definition cut :: "cfloat \<Rightarrow> cfloat \<Rightarrow> cfloat \<Rightarrow> bool" where
  "cut r x y \<longleftrightarrow> (\<exists>n. y = of_int n * r) \<and> (0 \<le> x \<longrightarrow> 0 \<le> y \<and> y \<le> x \<and> x - y < r) \<and> (x \<le> 0 \<longrightarrow> x \<le> y \<and> y \<le> 0 \<and> y - x < r)"

lemma c_trunc_neg: "z \<le> 0 \<Longrightarrow> z \<le> of_int (c_trunc z) \<and> of_int (c_trunc z) < z + 1 \<and> c_trunc z \<le> 0"
  by (cases "z = 0") (auto simp: c_trunc_def; linarith)+

lemma to_fixed_cut:
  assumes "to_fixed w m x = Some n" "0 < m"
  shows "cut (1 / m) x (of_int n / m)"
proof -
  have e: "\<exists>i. of_int n / m = of_int i * (1 / m)" by (rule exI[of _ n]) simp
  have n: "n = c_trunc (x * m)" using assms(1) by (simp add: to_fixed_def Let_def split: if_splits)
  show ?thesis
  proof (cases "0 \<le> x")
    case True
    then have z: "0 \<le> x * m" using assms(2) by simp
    then have "0 \<le> n" by (simp add: n c_trunc_def)
    moreover have "of_int n / m \<le> x" "x < (of_int n + 1) / m"
      using c_trunc_pos[OF z] assms(2) by (simp_all add: n pos_divide_le_eq pos_less_divide_eq)
    ultimately show ?thesis using True assms(2) e by (auto simp: cut_def add_divide_distrib)
  next
    case False
    then have z: "x * m \<le> 0" using assms(2) by (simp add: mult_nonpos_nonneg)
    then have "n \<le> 0" using c_trunc_neg by (simp add: n)
    moreover have "x \<le> of_int n / m" "of_int n / m < x + 1 / m"
      using c_trunc_neg[OF z] assms(2) by (simp_all add: n pos_le_divide_eq pos_divide_less_eq field_simps)
    ultimately show ?thesis using False assms(2) e by (auto simp: cut_def divide_nonpos_pos)
  qed
qed

lemma cut_exact:
  assumes "cut r (of_int k * r) y" "0 < r"
  shows "y = of_int k * r"
proof -
  obtain n where n: "y = of_int n * r" using assms(1) by (auto simp: cut_def)
  have "n = k"
  proof (cases "0 \<le> k")
    case True
    then have "of_int n * r \<le> of_int k * r" "(of_int k - of_int n) * r < 1 * r"
      using assms by (auto simp: cut_def n left_diff_distrib)
    then have "of_int n \<le> (of_int k :: cfloat)" "of_int k - of_int n < (1 :: cfloat)"
      using assms(2) by (auto simp: mult_less_cancel_right mult_le_cancel_right)
    then show ?thesis by linarith
  next
    case False
    then have "of_int k * r \<le> 0" using assms(2) by (simp add: mult_nonpos_nonneg)
    then have "of_int k * r \<le> of_int n * r" "(of_int n - of_int k) * r < 1 * r"
      using assms by (auto simp: cut_def n left_diff_distrib)
    then have "of_int k \<le> (of_int n :: cfloat)" "of_int n - of_int k < (1 :: cfloat)"
      using assms(2) by (auto simp: mult_less_cancel_right mult_le_cancel_right)
    then show ?thesis by linarith
  qed
  then show ?thesis by (simp add: n)
qed

lemma to_char_idem [simp]: "to_char (to_char x) = to_char x"
  by (simp add: to_char_def)

lemma byte_back [simp]: "word_of_int (byte_val b) = b"
  by (simp add: byte_val_def)

text \<open>What the decoder makes of a bit: 255 stands for true.\<close>

definition ber_bool :: "int \<Rightarrow> int" where "ber_bool n = (if n = 0 then 0 else 255)"

definition ber_bools :: "bsm \<Rightarrow> bsm" where
  "ber_bools b = b\<lparr>bs_userBit1 := ber_bool (bs_userBit1 b), bs_userBit2 := ber_bool (bs_userBit2 b),
     bs_userBit3 := ber_bool (bs_userBit3 b), bs_userBit4 := ber_bool (bs_userBit4 b)\<rparr>"

lemma bit_back [simp]: "word_of_int (ber_bool (bit_val b)) = b"
  using u1_cases[of b] by (auto simp: ber_bool_def bit_val_def)

subsection \<open>There and back\<close>

text \<open>
  A packet as it arrives: identifiers and bits are the same, numbers are cut to the resolution of the message.  The
  second maneuver word is a copy of the first.
\<close>

definition arrives :: "veh_comm_packet \<Rightarrow> veh_comm_packet \<Rightarrow> bool" where
  "arrives p q \<longleftrightarrow>
     pk_my_pip q = pk_my_pip p \<and> pk_maneuver_id q = pk_maneuver_id p \<and> pk_fault_mode q = pk_fault_mode p \<and>
     pk_maneuver_des_1 q = pk_maneuver_des_1 p \<and> pk_maneuver_des_2 q = pk_maneuver_des_1 p \<and> pk_pltn_size q = pk_pltn_size p \<and>
     pk_user_ushort_1 q = pk_user_ushort_1 p \<and> pk_user_ushort_2 q = pk_user_ushort_2 p \<and>
     pk_user_bit_1 q = pk_user_bit_1 p \<and> pk_user_bit_2 q = pk_user_bit_2 p \<and> pk_user_bit_3 q = pk_user_bit_3 p \<and>
     pk_user_bit_4 q = pk_user_bit_4 p \<and> cut (1 / 50) (pk_global_time p) (pk_global_time q) \<and>
     cut (1 / 50) (pk_velocity p) (pk_velocity q) \<and> cut (1 / 100) (pk_accel p) (pk_accel q) \<and>
     cut (1 / 100) (pk_vel_traj p) (pk_vel_traj q) \<and> cut (1 / 100) (pk_acc_traj p) (pk_acc_traj q) \<and>
     cut (1 / 100) (pk_range p) (pk_range q) \<and> cut (1 / 100) (pk_rate p) (pk_rate q) \<and>
     cut (1 / 100) (pk_user_float p) (pk_user_float q) \<and> cut (1 / 100) (pk_user_float1 p) (pk_user_float1 q)"

definition located :: "veh_comm_packet \<Rightarrow> veh_comm_packet \<Rightarrow> bool" where
  "located p q \<longleftrightarrow> pk_sequence_no q = to_char (pk_sequence_no p) \<and> cut (1 / 10000000) (pk_longitude p) (pk_longitude q) \<and>
     cut (1 / 10000000) (pk_latitude p) (pk_latitude q) \<and> cut (1 / 80) (pk_heading p) (pk_heading q)"

lemma bsm_back:
  assumes "vehcomm2BSM b0 p = Some b" "BSM2vehcomm (ber_bools b) q = (r, q')"
  shows "r = 0" "arrives p q'" "located p q'" "pk_object_id q' = pk_object_id q"
proof -
  note cuts = to_fixed_cut[where m = 50, OF _ zero_less_numeral] to_fixed_cut[where m = 100, OF _ zero_less_numeral]
    to_fixed_cut[where m = 80, OF _ zero_less_numeral] to_fixed_cut[where m = 10000000, OF _ zero_less_numeral]
  have e: "BSM2vehcomm (ber_bools b) q = (r, q')" "bs_msgID b = 2" using assms by (auto simp: vehcomm2BSM_def split: bind_splits)
  then show "r = 0" "pk_object_id q' = pk_object_id q" by (auto simp: BSM2vehcomm_def ber_bools_def)
  show "arrives p q'" using assms(1) e
    by (auto simp: vehcomm2BSM_def BSM2vehcomm_def ber_bools_def arrives_def intro: cuts split: bind_splits)
  show "located p q'" using assms(1) e
    by (auto simp: vehcomm2BSM_def BSM2vehcomm_def ber_bools_def located_def intro: cuts split: bind_splits)
qed

subsection \<open>From truck to truck\<close>

text \<open>The coder and the decoder, generated from the description of the message: the decoder reads a coded message, whatever is behind it in the buffer.\<close>

definition codec_ok :: "(bsm \<Rightarrow> u8 list option) \<Rightarrow> (u8 list \<Rightarrow> bsm option) \<Rightarrow> bool" where
  "codec_ok enc dec \<longleftrightarrow> (\<forall>b bytes rest. enc b = Some bytes \<longrightarrow>
     bytes \<noteq> [] \<and> length bytes \<le> BSMCACCSIZE \<and> dec (bytes @ rest) = Some (ber_bools b))"

lemma named_arrives: "arrives (set_vehicle_string (p\<lparr>pk_latitude := lat, pk_longitude := lon, pk_heading := hea\<rparr>) str
    \<lparr>pk_sequence_no := n, pk_ts := ts\<rparr>) q = arrives p q"
  by (simp add: arrives_def set_vehicle_string_def Let_def)

lemma timed_arrives: "arrives p (q\<lparr>pk_ts := ts\<rparr>) = arrives p q" "located p (q\<lparr>pk_ts := ts\<rparr>) = located p q"
  by (simp_all add: arrives_def located_def)

lemma packet_sent:
  assumes "codec_ok enc dec" "veh_snd_step enc str (Some p) (Some (lat, lon, hea)) ts s = Some (bytes, s')"
  shows "\<exists>q r'. veh_rcv_step dec c ids bytes ts' r = Some (packet_vars ids q, r') \<and> arrives p q \<and> pk_ts q = ts' \<and>
    pk_sequence_no q = to_char (sn_count s') \<and> cut (1 / 10 ^ 7) lat (pk_latitude q) \<and> cut (1 / 10 ^ 7) lon (pk_longitude q)"
proof -
  let ?p = "(set_vehicle_string (p\<lparr>pk_latitude := lat, pk_longitude := lon, pk_heading := hea\<rparr>) str)
    \<lparr>pk_sequence_no := to_char (sn_count s'), pk_ts := ts\<rparr>"
  obtain b where b: "vehcomm2BSM zero_bsm ?p = Some b" "enc b = Some bytes"
    using assms(2) by (auto simp: veh_snd_step_def snd_packet_def Let_def split: bind_splits)
  note e = assms(1)[unfolded codec_ok_def, rule_format, OF b(2)]
  obtain q where q: "BSM2vehcomm (ber_bools b) (rv_pkt r) = (0, q)" "arrives ?p q" "located ?p q"
    using bsm_back[OF b(1)] by (metis surj_pair)
  let ?r = "r\<lparr>rv_buf := bytes @ drop (length bytes) (rv_buf r), rv_pkt := q\<lparr>pk_ts := ts'\<rparr>\<rparr>"
  have "veh_rcv_step dec c ids bytes ts' r = Some (packet_vars ids (q\<lparr>pk_ts := ts'\<rparr>), rcv_sequence c (q\<lparr>pk_ts := ts'\<rparr>) ?r)"
    using e q(1) by (simp add: veh_rcv_step_def Let_def)
  moreover have "arrives p (q\<lparr>pk_ts := ts'\<rparr>)" using q(2) by (simp add: named_arrives timed_arrives)
  ultimately show ?thesis using q(3) by (auto simp: located_def set_vehicle_string_def Let_def)
qed


text \<open>A packet of a leader that brakes, its message, and a coder and decoder for that.\<close>

definition lead_packet :: veh_comm_packet where
  "lead_packet = zero_packet\<lparr>pk_global_time := 1 / 50, pk_user_ushort_1 := 1, pk_user_ushort_2 := 3, pk_my_pip := 1, pk_fault_mode := 1,
     pk_pltn_size := 2, pk_user_bit_3 := 1, pk_acc_traj := - 3, pk_vel_traj := 2778 / 625, pk_velocity := 2778 / 625, pk_accel := - 3,
     pk_range := 80 / 3\<rparr>"

definition lead_bsm :: bsm where
  "lead_bsm = zero_bsm\<lparr>bs_msgID := 2, bs_msgCnt := 1, bs_id := [66, 108, 117, 101], bs_latitude := 379155000, bs_longitude := - 1223348000,
     bs_speed := 222, bs_heading := 7200, bs_longAcc := - 300, bs_grpSize := 2, bs_vehGrpPos := 1, bs_vehFltMode := 1,
     bs_distToPVeh := 2666, bs_desSpd := 444, bs_desAcc := - 300, bs_userDI1 := 1, bs_userDI2 := 3, bs_globalTime := 1, bs_userBit3 := 1\<rparr>"

definition enc1 :: "bsm \<Rightarrow> u8 list option" where "enc1 b = (if b = lead_bsm then Some [0x30, 2] else None)"
definition dec1 :: "u8 list \<Rightarrow> bsm option" where "dec1 bytes = (if take 2 bytes = [0x30, 2] then Some (ber_bools lead_bsm) else None)"

lemma codec1: "codec_ok enc1 dec1"
  by (simp add: codec_ok_def enc1_def dec1_def)

definition snd1 :: snd_state where "snd1 = \<lparr>sn_pkt = zero_packet, sn_gps = (0, 0, 0), sn_count = 0\<rparr>"

lemma lead_sent: "map_option (\<lambda>(bytes, s). (bytes, sn_count s))
    (veh_snd_step enc1 [66, 108, 117, 101] (Some lead_packet) (Some (379155 / 10000, - 1223348 / 10000, 90)) zero_timestamp snd1) =
    Some ([0x30, 2], 1)"
  by code_simp

definition ids2 :: veh_ids where "ids2 = get_ids [''PositionInPlatoon'' \<mapsto> 2]"


text \<open>The program of the second truck, named Gold, receives it.\<close>

definition rcv2 :: rcv_state where "rcv2 = \<lparr>rv_buf = replicate 3000 0, rv_pkt = zero_packet, rv_count = 0, rv_sn = 0\<rparr>"


end
