(* ===== verification/Convoy.thy ===== *)
theory Convoy
  imports VehProps
begin

text \<open>
  The programs of two trucks together: from the brake switch on the bus of the leader, through its data server, controller
  and sender, to receiver, data server, controller and bus of a follower.
\<close>

subsection \<open>The leader\<close>

text \<open>A library that leaves the brake switch alone.\<close>

definition keeps_switch :: "'l track_lib \<Rightarrow> bool" where
  "keeps_switch lib \<longleftrightarrow>
     (\<forall>t n l con se jb cfg sw v pltn mng. case tl_coording lib t n (l, con, se, jb, cfg, sw, v, pltn, mng) of
        (l', con', se', jb', cfg', sw', v', pltn', mng') \<Rightarrow> sw_brk_sw sw' = sw_brk_sw sw) \<and>
     (\<forall>t g lt l cfg con se sw v f m mng pltn. case tl_maneuver lib t g lt (l, cfg, con, se, sw, v, f, m, mng, pltn) of
        (l', cfg', con', se', sw', v', f', m', mng', pltn') \<Rightarrow> sw_brk_sw sw' = sw_brk_sw sw) \<and>
     (\<forall>t l m jb mng cfg con sw v out. case tl_cacc lib t (l, m, jb, mng, cfg, con, sw, v, out) of
        (l', m', jb', mng', cfg', con', sw', v', out') \<Rightarrow> sw_brk_sw sw' = sw_brk_sw sw)"

lemma switch_kept:
  "tk_sw (rt_control_state lib k) = tk_sw k" "tk_sw (rt_estimate lib k) = tk_sw k" "tk_sw (rt_faults lib k) = tk_sw k"
  "tk_sw (rt_distance lib k) = tk_sw k"
  by (simp_all add: rt_control_state_def rt_estimate_def rt_faults_def rt_distance_def long_setled_def Let_def case_prod_beta)

lemma coordinate_switch:
  assumes "keeps_switch lib"
  shows "sw_brk_sw (tk_sw (rt_coordinate lib k)) = sw_brk_sw (tk_sw k)"
  using assms by (cases "tk_maneuver_id k") (auto simp: rt_coordinate_def keeps_switch_def Let_def case_prod_beta)

lemma cacc_switch:
  assumes "keeps_switch lib"
  shows "sw_brk_sw (tk_sw (rt_cacc lib k)) = sw_brk_sw (tk_sw k)"
  using assms by (cases "tk_maneuver_id k") (auto simp: rt_cacc_def keeps_switch_def Let_def case_prod_beta)

lemma preceding_switch: "rt_preceding k = Some k' \<Longrightarrow> tk_sw k' = tk_sw k"
  by (auto simp: rt_preceding_def Let_def split: if_splits)

lemma read_switch: "sw_brk_sw (tk_sw (rt_read pv k)) = ucast (vs_CCVS_BrakeSwitch pv)"
  by (simp add: rt_read_def read_sw_def Let_def case_prod_beta)

lemma brake_switch_seen:
  assumes "run_tasks lib pv k pcmd = Some (k', p)" "keeps_switch lib"
  shows "sw_brk_sw (tk_sw k') = ucast (vs_CCVS_BrakeSwitch pv)"
proof -
  obtain k1 where 1: "rt_plan lib pv k = Some k1" "tk_sw k' = tk_sw k1" using run_tasks_split[OF assms(1)] by blast
  from 1(1) show ?thesis unfolding 1(2) rt_plan_def Let_def
    by (auto simp: cacc_switch[OF assms(2)] coordinate_switch[OF assms(2)] switch_kept read_switch
        dest!: preceding_switch split: bind_splits)
qed

lemma sends_packet:
  assumes "run_tasks lib pv k pcmd = Some (k', p)" "cc_use_comm (tk_config k') = 1"
  shows "\<exists>tx q. tk_tx k' = tx @ [q] \<and> pk_user_bit_3 q = sw_brk_sw (tk_sw k') \<and>
    pk_my_pip q = word_of_int (cc_MyPltnPos (tk_config k')) \<and> pk_accel q = se_ego_a (tk_sens k') \<and>
    pk_velocity q = se_ego_v (tk_sens k') \<and> pk_user_float q = jb_brk_pres (tk_jbus k')"
proof -
  obtain k0 where 0: "rt_plan lib pv k = Some k0" using run_tasks_split[OF assms(1)] by blast
  obtain k1 q where 1: "rt_actuate lib k0 pcmd = (k1, q)" by fastforce
  have "k' = long_setled TOGGLE_WATCHDOG (rt_send p k1)" using assms(1) by (auto simp: run_tasks_def 0 1 Let_def)
  then show ?thesis using assms(2) by (auto simp: rt_send_def long_setled_def Let_def)
qed

subsection \<open>Radio and follower\<close>

text \<open>A cycle of the program of a truck, on the variables of its data server.\<close>

definition truck_cycle :: "cfloat \<Rightarrow> (int \<Rightarrow> bool) \<Rightarrow> (int \<Rightarrow> dbv option) \<Rightarrow> 'l track_lib \<Rightarrow> 'l trk \<Rightarrow> 'l trk \<Rightarrow> long_output \<Rightarrow> bool" where
  "truck_cycle ref active rd lib k k' p \<longleftrightarrow>
     database_typed rd \<and> (\<exists>ps pcmd. run_tasks lib (long_read_vehicle_state ref active rd ps) k pcmd = Some (k', p))"

text \<open>A packet goes out of one truck, and the receiver of another writes what it makes of it.\<close>

definition radio :: "(bsm \<Rightarrow> u8 list option) \<Rightarrow> (u8 list \<Rightarrow> bsm option) \<Rightarrow> veh_ids \<Rightarrow> veh_comm_packet \<Rightarrow> dbv list \<Rightarrow> bool" where
  "radio enc dec ids p ws \<longleftrightarrow> (\<exists>str gps ts s bytes s' c ts' r r'.
     veh_snd_step enc str (Some p) (Some gps) ts s = Some (bytes, s') \<and> veh_rcv_step dec c ids bytes ts' r = Some (ws, r'))"

lemma radio_law:
  assumes "codec_ok enc dec" "radio enc dec ids p ws"
  obtains q where "ws = packet_vars ids q" "arrives p q"
proof -
  obtain str gps ts s bytes s' c ts' r r' where 1: "veh_snd_step enc str (Some p) (Some gps) ts s = Some (bytes, s')"
    "veh_rcv_step dec c ids bytes ts' r = Some (ws, r')"
    using assms(2) unfolding radio_def by blast
  obtain lat lon hea where "gps = (lat, lon, hea)" by (metis surj_pair)
  then show thesis using packet_sent[OF assms(1), of str p lat lon hea ts s bytes s' c ids ts' r] 1 that by auto
qed

lemma lead_packet:
  assumes "database_typed rd" "\<forall>d \<in> set (packet_vars ids q). rd (dbv_num d) = Some d" "id_lead ids = byte_val (pk_my_pip q)"
  shows "vs_lead_trk (long_read_vehicle_state ref active rd ps) = q"
proof -
  have "rd 496 = Some (Var_COMM_LEAD_TRK q)" using assms(2,3) by (auto simp: packet_vars_def dbv_num_def)
  from state_shows[OF assms(1) _ this, of active ref ps] show ?thesis
    by (simp add: shows_dbv_def is_read_def trk_in_dbv_list_def)
qed


text \<open>The bus and the data server of a leader whose driver brakes.\<close>

definition trk1 :: "unit trk" where
  "trk1 = (let cfg = config2\<lparr>cc_MyPltnPos := 1\<rparr> in fst (init_tasks cfg (trk_start cfg ()) trk_inactive_ctrl))"

definition foot_pdu :: j1939_pdu where
  "foot_pdu = \<lparr>pd_priority = 6, pd_R = 0, pd_DP = 0, pd_format = 0xfe, pd_specific = 0xf1, pd_src = 0,
     pd_data = [0, 0, 60, 0x10, 0, 0, 0, 0], pd_numbytes = 8\<rparr>"

definition ccvs_none :: j1939_ccvs_typ where
  "ccvs_none = \<lparr>ccvs_timestamp = zero_timestamp, CCVS_ParkingBrakeSwitch = 0, CCVS_TwoSpeedAxleSwitch = 0, CCVS_VehicleSpeed = 0,
     CCVS_ParkBrakeReleaseInhibitRq = 0, CCVS_ClutchSwitch = 0, CCVS_BrakeSwitch = 0, CCVS_CruiseCtrlPauseSwitch = 0,
     CCVS_CruiseControlEnableSwitch = 0, CCVS_CruiseControlActive = 0, CCVS_CruiseControlAccelerateSwitch = 0,
     CCVS_CruiseControlResumeSwitch = 0, CCVS_CruiseControlCoastSwitch = 0, CCVS_CruiseControlSetSwitch = 0, CCVS_CruiseControlSetSpeed = 0,
     CCVS_CruiseControlState = 0, CCVS_PtoState = 0, CCVS_EngShutdownOverrideSwitch = 0, CCVS_EngTestModeSwitch = 0,
     CCVS_EngIdleDecrementSwitch = 0, CCVS_EngIdleIncrementSwitch = 0\<rparr>"

definition lead_vars :: "int \<Rightarrow> dbv option" where
  "lead_vars = [512 \<mapsto> Var_CCVS (pdu_to_ccvs foot_pdu ccvs_none),
     546 \<mapsto> Var_VOLVO_EGO \<lparr>vego_timestamp = zero_timestamp, EgoVel = 16, EgoAcc = - 3, EgoRoadGrade = 0\<rparr>]"

lemma lead_cycle:
  "map_option (\<lambda>(k, p). (cc_use_comm (tk_config k), cc_MyPltnPos (tk_config k), se_ego_a (tk_sens k), last (tk_tx k)))
     (run_tasks auto_lib (long_read_vehicle_state 600 (\<lambda>_. True) lead_vars zero_vehicle_state) trk1 trk_inactive_ctrl) =
   Some (1, 1, - 3, lead_packet)"
  by code_simp

lemma auto_keeps_switch: "keeps_switch auto_lib"
  by (simp add: keeps_switch_def auto_lib_def idle_lib_def)


end
