(* ===== verification/Dvi.thy ===== *)
theory Dvi
  imports Convoy
begin

text \<open>
  The display of the driver (truckcontrol/long_ctl/src/vehcomm): the program that receives the buttons (dvi_rcv.c) and
  writes the wishes of the driver to the data server, and the one that tells the display what the trucks do
  (dvi_snd.c).
\<close>

subsection \<open>Buttons\<close>

record dvi_rcv = dr_acc_cacc_request :: u8
  dr_gap_request :: u8
  dr_gap_level :: int
  dr_ts_sav :: cfloat

abbreviation (input) ACC_REQUESTED :: u8 where "ACC_REQUESTED \<equiv> 5"
abbreviation (input) CACC_REQUESTED :: u8 where "CACC_REQUESTED \<equiv> 6"
abbreviation (input) GAP_DECREASE_REQUESTED :: u8 where "GAP_DECREASE_REQUESTED \<equiv> 7"
abbreviation (input) GAP_INCREASE_REQUESTED :: u8 where "GAP_INCREASE_REQUESTED \<equiv> 8"

text \<open>\<open>if ((gap_level--) < 0) gap_level = 0\<close> and \<open>if ((gap_level++) > 5) gap_level = 5\<close>: the level before the change is compared.\<close>

definition gap_decrease :: "int \<Rightarrow> int" where "gap_decrease l = (if l < 0 then 0 else to_char (l - 1))"
definition gap_increase :: "int \<Rightarrow> int" where "gap_increase l = (if l > 5 then 5 else to_char (l + 1))"

text \<open>One byte from the display at the time \<open>ts\<close>, and the variable written.  A button repeats while it is held.\<close>

definition dvi_rcv_step :: "u8 \<Rightarrow> cfloat \<Rightarrow> dvi_rcv \<Rightarrow> dvi_rcv \<times> dbv" where
  "dvi_rcv_step buf ts s =
    (let held = (\<lambda>f. if ts - dr_ts_sav s > 2 / 10 then f (dr_gap_level s) else dr_gap_level s);
         s = (if buf = ACC_REQUESTED then s\<lparr>dr_acc_cacc_request := 1, dr_gap_request := 0\<rparr>
              else if buf = CACC_REQUESTED then s\<lparr>dr_acc_cacc_request := 2, dr_gap_request := 0\<rparr>
              else if buf = GAP_DECREASE_REQUESTED then
                s\<lparr>dr_gap_level := held gap_decrease, dr_ts_sav := ts, dr_acc_cacc_request := 0, dr_gap_request := word_of_int (held gap_decrease)\<rparr>
              else if buf = GAP_INCREASE_REQUESTED then
                s\<lparr>dr_gap_level := held gap_increase, dr_ts_sav := ts, dr_acc_cacc_request := 0, dr_gap_request := word_of_int (held gap_increase)\<rparr>
              else s)
     in (s, Var_DVI_OUT (dr_acc_cacc_request s) (dr_gap_request s)))"

fun dvi_rcv_run :: "(u8 \<times> cfloat) list \<Rightarrow> dvi_rcv \<Rightarrow> dvi_rcv \<times> dbv list" where
  "dvi_rcv_run [] s = (s, [])"
| "dvi_rcv_run ((buf, ts) # bs) s = (let (s, d) = dvi_rcv_step buf ts s; (s, ds) = dvi_rcv_run bs s in (s, d # ds))"

subsection \<open>What the display is told\<close>

record dvi_vehicle = dv_type :: u8
  dv_hasIntruder :: u8
  dv_isBraking :: u8

text \<open>
  The two structures for the display, \<open>SeretUdpStruct\<close> and \<open>ExtraDataCACCStruct\<close>, as far as the program fills them, and its
  variables: the packets of this and the other trucks, the times they had, and the level of the gap.
\<close>

record dvi_snd = ds_platooningState :: u8
  ds_position :: int
  ds_vehicles :: "dvi_vehicle list"
  ds_CACCState :: u8
  ds_ConnectionToTarget :: u8
  ds_ConnectionFromFollower :: u8
  ds_CACCTimeGap :: u8
  ds_ACCTimeGap :: u8
  ds_self :: veh_comm_packet
  ds_packets :: "veh_comm_packet list"
  ds_times :: "timestamp list"
  ds_gap_level :: u8

definition braking :: "veh_comm_packet \<Rightarrow> u8" where "braking p = (if driver_brakes p then 1 else 0)"

definition is_truck :: "nat \<Rightarrow> dvi_snd \<Rightarrow> bool" where "is_truck i s \<longleftrightarrow> dv_type (ds_vehicles s ! i) = 1"

definition connected :: "bool \<Rightarrow> u8" where "connected b = (if b then 1 else 0)"

text \<open>Of the own truck, at place \<open>i\<close> (from 0).\<close>

definition show_self :: "nat \<Rightarrow> dvi_snd \<Rightarrow> dvi_snd" where
  "show_self i s = (let p = ds_self s in s\<lparr>ds_vehicles := (ds_vehicles s)[i := \<lparr>dv_type = 1,
     dv_hasIntruder = (if pk_maneuver_des_2 p AND 3 = 1 then 1 else 0), dv_isBraking = braking p\<rparr>]\<rparr>)"

text \<open>
  The own packet has been written: state of the controller (a table with five entries is indexed with the mode of
  the packet; \<open>None\<close> when it has a higher one), gap, place, and the connections.
\<close>

definition dvi_mode :: "dvi_snd \<Rightarrow> dvi_snd option" where
  "dvi_mode s =
    (let p = ds_self s; mode = unat (pk_user_ushort_2 p);
         gap = (if 0 < ds_gap_level s \<and> ds_gap_level s \<le> 5 then ds_gap_level s - 1 else 4) in
     if mode < 5 then Some (s\<lparr>ds_CACCState := [0, 0, 4, 4, 2] ! mode, ds_gap_level := gap, ds_CACCTimeGap := gap, ds_ACCTimeGap := gap,
       ds_platooningState := 2, ds_position := to_char (byte_val (pk_my_pip p) - 1)\<rparr>) else None)"

definition dvi_first :: "dvi_snd \<Rightarrow> dvi_snd" where
  "dvi_first s = (let s = show_self 0 s in
     s\<lparr>ds_ConnectionFromFollower := connected (is_truck 1 s \<or> is_truck 2 s), ds_ConnectionToTarget := 0\<rparr>)"

definition dvi_second :: "dvi_snd \<Rightarrow> dvi_snd" where
  "dvi_second s = (let s = show_self 1 s in
     s\<lparr>ds_ConnectionToTarget := connected (is_truck 0 s), ds_ConnectionFromFollower := connected (is_truck 2 s)\<rparr>)"

definition dvi_third :: "dvi_snd \<Rightarrow> dvi_snd" where
  "dvi_third s = (let s = show_self 2 s in
     s\<lparr>ds_ConnectionToTarget := connected (is_truck 0 s \<or> is_truck 1 s), ds_ConnectionFromFollower := 0\<rparr>)"

definition dvi_self :: "dvi_snd \<Rightarrow> dvi_snd option" where
  "dvi_self s = (let pip = pk_my_pip (ds_self s) in do {
     s \<leftarrow> dvi_mode s;
     Some (if pip = 1 then dvi_first s else if pip = 2 then dvi_second s else if pip = 3 then dvi_third s else s)
   })"

text \<open>The packet of another truck has been written: it counts as a truck when its time is later than the last.\<close>

definition dvi_other :: "nat \<Rightarrow> dvi_snd \<Rightarrow> dvi_snd" where
  "dvi_other i s =
    (let p = ds_packets s ! i; v = ds_vehicles s ! i;
         v = v\<lparr>dv_type := (if ts2_is_later_than_ts1 (ds_times s ! i) (pk_ts p) then 1 else 2)\<rparr>;
         v = (if dv_type v = 1 then v\<lparr>dv_isBraking := braking p, dv_hasIntruder := pk_maneuver_des_2 p AND 3\<rparr> else v)
     in s\<lparr>ds_vehicles := (ds_vehicles s)[i := v], ds_times := (ds_times s)[i := pk_ts p]\<rparr>)"

text \<open>
  A turn of the main loop, for the variable that triggered it: \<open>rd\<close> gives the packets in the data server, \<open>gap\<close> the level of
  the control variable (\<open>None\<close> when a read fails).  Both structures are sent at the end.
\<close>

definition dvi_snd_step :: "(int \<Rightarrow> veh_comm_packet option) \<Rightarrow> u8 option \<Rightarrow> int \<Rightarrow> dvi_snd \<Rightarrow> dvi_snd option" where
  "dvi_snd_step rd gap trig s =
    (let got = (\<lambda>n i s. case rd n of Some p \<Rightarrow> s\<lparr>ds_packets := (ds_packets s)[i := p]\<rparr> | None \<Rightarrow> s) in
     if trig = 499 then
       let s = (case rd 499 of Some p \<Rightarrow> s\<lparr>ds_self := p\<rparr> | None \<Rightarrow> s);
           s = (case gap of Some g \<Rightarrow> s\<lparr>ds_gap_level := g\<rparr> | None \<Rightarrow> s)
       in dvi_self s
     else if trig = 496 then Some (dvi_other 0 (got 496 0 s))
     else if trig = 497 then Some (dvi_other 1 (got 497 1 s))
     else if trig = 498 then Some (dvi_other 2 (got 498 2 s))
     else Some s)"

definition dvi_snd_start :: "timestamp \<Rightarrow> dvi_snd \<Rightarrow> dvi_snd" where
  "dvi_snd_start now s = s\<lparr>ds_platooningState := 0, ds_position := 0, ds_vehicles := replicate 3 \<lparr>dv_type = 0, dv_hasIntruder = 0, dv_isBraking = 0\<rparr>,
     ds_CACCState := 0, ds_ConnectionToTarget := 0, ds_ConnectionFromFollower := 0, ds_CACCTimeGap := 0, ds_ACCTimeGap := 0,
     ds_times := replicate 3 now\<rparr>"

fun dvi_snd_run :: "((int \<Rightarrow> veh_comm_packet option) \<times> u8 option \<times> int) list \<Rightarrow> dvi_snd \<Rightarrow> dvi_snd option" where
  "dvi_snd_run [] s = Some s"
| "dvi_snd_run ((rd, gap, trig) # ts) s = Option.bind (dvi_snd_step rd gap trig s) (dvi_snd_run ts)"

subsection \<open>The gap\<close>

lemma gap_steps:
  assumes "- 1 \<le> l" "l \<le> 6"
  shows "gap_decrease l = (if l < 0 then 0 else l - 1)" "gap_increase l = (if l > 5 then 5 else l + 1)"
proof -
  have "to_char (- 1) = - 1" by (simp add: to_char_def)
  then show "gap_decrease l = (if l < 0 then 0 else l - 1)" using assms char_id[of "l - 1"] by (cases "l = 0") (auto simp: gap_decrease_def)
  show "gap_increase l = (if l > 5 then 5 else l + 1)" using assms by (simp add: gap_increase_def)
qed

definition gap_ok :: "dvi_rcv \<Rightarrow> bool" where
  "gap_ok s \<longleftrightarrow> dr_gap_level s \<in> {-1..6} \<and> (\<exists>l \<in> {-1..6}. dr_gap_request s = word_of_int l)"

lemma level_request:
  assumes "l \<in> {-1..6}"
  shows "(word_of_int l :: u8) \<le> 6 \<or> (word_of_int l :: u8) = 255"
proof -
  have "{-1..6} = {-1, 0, 1, 2, 3, 4, 5, 6 :: int}" by auto
  then show ?thesis using assms by auto
qed

lemma gap_change: "l \<in> {-1..6} \<Longrightarrow> gap_decrease l \<in> {-1..6} \<and> gap_increase l \<in> {-1..6}"
  using gap_steps[of l] by auto

lemma step_gap:
  assumes "gap_ok s"
  shows "gap_ok (fst (dvi_rcv_step buf ts s))"
proof -
  have l: "dr_gap_level s \<in> {-1..6}" and r: "\<exists>l \<in> {-1..6}. dr_gap_request s = word_of_int l" using assms by (simp_all only: gap_ok_def)
  have z: "\<exists>l \<in> {-1..6}. (0 :: u8) = word_of_int l" by (rule bexI[of _ 0]) simp_all
  show ?thesis using l r z gap_change[OF l] unfolding gap_ok_def dvi_rcv_step_def Let_def
    by (simp del: atLeastAtMost_iff; metis)
qed

definition wish_ok :: "dbv \<Rightarrow> bool" where
  "wish_ok d \<longleftrightarrow> (case d of Var_DVI_OUT a g \<Rightarrow> a \<le> 2 \<and> (g \<le> 6 \<or> g = 255) | _ \<Rightarrow> False)"

lemma step_wish:
  assumes "gap_ok s" "dr_acc_cacc_request s \<le> 2"
  shows "wish_ok (snd (dvi_rcv_step buf ts s))" "dr_acc_cacc_request (fst (dvi_rcv_step buf ts s)) \<le> 2"
proof -
  have "dr_gap_request (fst (dvi_rcv_step buf ts s)) \<le> 6 \<or> dr_gap_request (fst (dvi_rcv_step buf ts s)) = 255"
    using step_gap[OF assms(1), of buf ts] level_request unfolding gap_ok_def by metis
  moreover show a: "dr_acc_cacc_request (fst (dvi_rcv_step buf ts s)) \<le> 2" using assms(2) by (simp add: dvi_rcv_step_def Let_def)
  moreover have "snd (dvi_rcv_step buf ts s) =
    Var_DVI_OUT (dr_acc_cacc_request (fst (dvi_rcv_step buf ts s))) (dr_gap_request (fst (dvi_rcv_step buf ts s)))"
    by (simp add: dvi_rcv_step_def Let_def)
  ultimately show "wish_ok (snd (dvi_rcv_step buf ts s))" by (simp add: wish_ok_def)
qed

lemma run_wishes: "gap_ok s \<Longrightarrow> dr_acc_cacc_request s \<le> 2 \<Longrightarrow>
   gap_ok (fst (dvi_rcv_run bs s)) \<and> list_all wish_ok (snd (dvi_rcv_run bs s))"
proof (induction bs arbitrary: s)
  case (Cons b bs)
  obtain buf ts where b: "b = (buf, ts)" by fastforce
  note n = step_gap[OF Cons.prems(1), of buf ts] step_wish[OF Cons.prems, of buf ts]
  show ?case using Cons.IH[OF n(1,3)] n(2) by (simp add: b Let_def case_prod_beta)
qed simp

text \<open>
  Whatever buttons are pressed and when, the wishes written have a level of the gap of at most 6, or 255 (that is \<open>- 1\<close>): the levels are
  meant to end at 0 and 5, but the level before the change is compared.  A driver who asks for more than the biggest gap gets level 6, which the controller
  takes for no wish: the gap of 1.8 seconds shrinks to 1.2.
\<close>

theorem gap_buttons:
  assumes "gap_ok s" "dr_acc_cacc_request s \<le> 2"
  shows "list_all wish_ok (snd (dvi_rcv_run bs s)) \<and>
    (dr_gap_level s = 5 \<and> ts - dr_ts_sav s > 2 / 10 \<longrightarrow>
      snd (dvi_rcv_step GAP_INCREASE_REQUESTED ts s) = Var_DVI_OUT 0 6 \<and> follower_gap 5 0 = 18 / 10 \<and> follower_gap 6 0 = 12 / 10)"
  using run_wishes[OF assms] by (simp add: dvi_rcv_step_def Let_def gap_steps follower_gap_def)

definition dvi_rcv0 :: dvi_rcv where
  "dvi_rcv0 = \<lparr>dr_acc_cacc_request = 0, dr_gap_request = 0, dr_gap_level = 0, dr_ts_sav = 0\<rparr>"

text \<open>Two times less, and seven times more.\<close>

theorem gap_buttons_witness:
  "list_all wish_ok (snd (dvi_rcv_run [(7, 1), (7, 2), (8, 3), (8, 4), (8, 5), (8, 6), (8, 7), (8, 8), (8, 9)] dvi_rcv0)) \<and>
   snd (dvi_rcv_step 8 1 (dvi_rcv0\<lparr>dr_gap_level := 5\<rparr>)) = Var_DVI_OUT 0 6"
proof -
  have "gap_ok dvi_rcv0" "dr_acc_cacc_request dvi_rcv0 \<le> 2" "gap_ok (dvi_rcv0\<lparr>dr_gap_level := 5\<rparr>)"
    "dr_acc_cacc_request (dvi_rcv0\<lparr>dr_gap_level := 5\<rparr>) \<le> 2"
    unfolding gap_ok_def by (auto simp: dvi_rcv0_def intro: bexI[of _ 0])
  then show ?thesis using gap_buttons[of dvi_rcv0] gap_buttons[of "dvi_rcv0\<lparr>dr_gap_level := 5\<rparr>" _ 1]
    by (simp add: dvi_rcv0_def del: dvi_rcv_run.simps)
qed

subsection \<open>What the display shows\<close>

definition vehicle_ok :: "dvi_vehicle \<Rightarrow> bool" where
  "vehicle_ok v \<longleftrightarrow> dv_type v \<le> 2 \<and> dv_hasIntruder v \<le> 3 \<and> dv_isBraking v \<le> 1"

text \<open>The ranges that dvi.h documents.\<close>

definition display_ok :: "dvi_snd \<Rightarrow> bool" where
  "display_ok s \<longleftrightarrow> length (ds_vehicles s) = 3 \<and> list_all vehicle_ok (ds_vehicles s) \<and> ds_CACCState s \<le> 4 \<and> ds_CACCTimeGap s \<le> 4 \<and>
     ds_ACCTimeGap s \<le> 4 \<and> ds_ConnectionToTarget s \<le> 1 \<and> ds_ConnectionFromFollower s \<le> 1 \<and> ds_platooningState s \<le> 4"

lemma list_all_update: "list_all P xs \<Longrightarrow> P x \<Longrightarrow> list_all P (xs[i := x])"
  by (auto simp: list_all_iff dest: set_update_subset_insert[THEN subsetD])

lemma and_three: "(x AND 3 :: u8) \<le> 3"
  by (rule word_and_le1)

lemma show_self_ok: "display_ok s \<Longrightarrow> display_ok (show_self i s)"
  by (auto simp: show_self_def display_ok_def vehicle_ok_def braking_def Let_def intro!: list_all_update)


lemma gap_four: "(if 0 < g \<and> g \<le> 5 then g - 1 else 4 :: u8) \<le> 4"
proof -
  have "unat (g - 1) = unat g - 1" if "0 < g" using that by (simp add: unat_minus_one word_gt_0)
  then show ?thesis by (auto simp: word_le_nat_alt)
qed

lemma mode_four:
  assumes "n < 5"
  shows "([0, 0, 4, 4, 2] ! n :: u8) \<le> 4"
proof -
  have "n = 0 \<or> n = 1 \<or> n = 2 \<or> n = 3 \<or> n = 4" using assms by linarith
  then show ?thesis by auto
qed

lemma mode_ok: "display_ok s \<Longrightarrow> dvi_mode s = Some s' \<Longrightarrow> display_ok s'"
  using gap_four[of "ds_gap_level s"] by (auto simp: dvi_mode_def display_ok_def Let_def intro: mode_four split: if_splits)

lemma places_ok: "display_ok s \<Longrightarrow> display_ok (dvi_first s)" "display_ok s \<Longrightarrow> display_ok (dvi_second s)"
  "display_ok s \<Longrightarrow> display_ok (dvi_third s)"
  using show_self_ok[of s 0] show_self_ok[of s 1] show_self_ok[of s 2]
  by (simp_all add: dvi_first_def dvi_second_def dvi_third_def display_ok_def connected_def Let_def)

lemma self_ok: "display_ok s \<Longrightarrow> dvi_self s = Some s' \<Longrightarrow> display_ok s'"
  by (auto simp: dvi_self_def Let_def places_ok dest: mode_ok split: bind_splits)

lemma other_ok:
  assumes "display_ok s" "i < 3"
  shows "display_ok (dvi_other i s)"
proof -
  have "vehicle_ok (ds_vehicles s ! i)" using assms by (auto simp: display_ok_def list_all_length)
  then show ?thesis using assms(1) and_three[of "pk_maneuver_des_2 (ds_packets s ! i)"]
    by (auto simp: dvi_other_def display_ok_def vehicle_ok_def braking_def Let_def intro!: list_all_update)
qed

lemma reads_ok: "display_ok (s\<lparr>ds_packets := ps\<rparr>) = display_ok s" "display_ok (s\<lparr>ds_self := p\<rparr>) = display_ok s"
  "display_ok (s\<lparr>ds_gap_level := g\<rparr>) = display_ok s"
  by (simp_all add: display_ok_def)

lemma step_ok:
  assumes "display_ok s" "dvi_snd_step rd gap trig s = Some s'"
  shows "display_ok s'"
proof -
  let ?s = "(case gap of Some g \<Rightarrow> (case rd 499 of Some p \<Rightarrow> s\<lparr>ds_self := p\<rparr> | None \<Rightarrow> s)\<lparr>ds_gap_level := g\<rparr>
    | None \<Rightarrow> (case rd 499 of Some p \<Rightarrow> s\<lparr>ds_self := p\<rparr> | None \<Rightarrow> s))"
  have "display_ok ?s" using assms(1) by (simp add: reads_ok split: option.split)
  from self_ok[OF this] show ?thesis using assms
    by (auto simp: dvi_snd_step_def Let_def other_ok reads_ok split: if_splits option.splits)
qed

lemma run_ok: "display_ok s \<Longrightarrow> dvi_snd_run ts s = Some s' \<Longrightarrow> display_ok s'"
  by (induction ts s rule: dvi_snd_run.induct) (auto dest: step_ok split: bind_splits)

lemma start_ok: "display_ok (dvi_snd_start now s)"
  by (simp add: dvi_snd_start_def display_ok_def vehicle_ok_def list_all_iff)

text \<open>The modes of the controller fit into the table.\<close>

definition mode_fits :: "veh_comm_packet \<Rightarrow> bool" where "mode_fits p \<longleftrightarrow> pk_user_ushort_2 p < 5"

definition modes_fit :: "(int \<Rightarrow> veh_comm_packet option) \<times> u8 option \<times> int \<Rightarrow> bool" where
  "modes_fit t \<longleftrightarrow> (case fst t 499 of Some p \<Rightarrow> mode_fits p | None \<Rightarrow> True)"

lemma mode_returns: "mode_fits (ds_self s) \<Longrightarrow> \<exists>s'. dvi_mode s = Some s' \<and> ds_self s' = ds_self s"
  by (simp add: dvi_mode_def mode_fits_def word_less_nat_alt Let_def)

lemma places_self: "ds_self (dvi_first s) = ds_self s" "ds_self (dvi_second s) = ds_self s" "ds_self (dvi_third s) = ds_self s"
  "ds_self (dvi_other i s) = ds_self s"
  by (simp_all add: dvi_first_def dvi_second_def dvi_third_def dvi_other_def show_self_def Let_def)

lemma self_returns:
  assumes "mode_fits (ds_self s)"
  shows "\<exists>s'. dvi_self s = Some s' \<and> mode_fits (ds_self s')"
proof -
  obtain s1 where "dvi_mode s = Some s1" "ds_self s1 = ds_self s" using mode_returns[OF assms] by blast
  then show ?thesis using assms by (simp add: dvi_self_def places_self Let_def)
qed

lemma step_returns:
  assumes "modes_fit (rd, gap, trig)" "mode_fits (ds_self s)"
  shows "\<exists>s'. dvi_snd_step rd gap trig s = Some s' \<and> mode_fits (ds_self s')"
proof (cases "trig = 499")
  case True
  let ?s = "(case gap of Some g \<Rightarrow> (case rd 499 of Some p \<Rightarrow> s\<lparr>ds_self := p\<rparr> | None \<Rightarrow> s)\<lparr>ds_gap_level := g\<rparr>
    | None \<Rightarrow> (case rd 499 of Some p \<Rightarrow> s\<lparr>ds_self := p\<rparr> | None \<Rightarrow> s))"
  have "mode_fits (ds_self ?s)" using assms by (auto simp: modes_fit_def split: option.splits)
  from self_returns[OF this] show ?thesis using True by (simp add: dvi_snd_step_def Let_def split: option.splits)
next
  case False
  then show ?thesis using assms(2) by (auto simp: dvi_snd_step_def places_self Let_def split: option.split)
qed

lemma run_returns: "list_all modes_fit ts \<Longrightarrow> mode_fits (ds_self s) \<Longrightarrow> \<exists>s'. dvi_snd_run ts s = Some s'"
proof (induction ts arbitrary: s)
  case (Cons t ts)
  obtain rd gap trig where t: "t = (rd, gap, trig)" by (metis surj_pair)
  then show ?case using step_returns[of rd gap trig s] Cons by fastforce
qed simp

text \<open>
  As long as the mode of the controller fits into the table of the program, it goes on whatever variables are written and
  whether reads fail, and all it tells the display is in the ranges that dvi.h documents.
\<close>

theorem display_in_range:
  assumes "list_all modes_fit ts" "mode_fits (ds_self s)"
  shows "\<exists>s'. dvi_snd_run ts (dvi_snd_start now s) = Some s' \<and> display_ok s'"
proof -
  have "mode_fits (ds_self (dvi_snd_start now s))" using assms(2) by (simp add: dvi_snd_start_def)
  from run_returns[OF assms(1) this] show ?thesis using run_ok[OF start_ok] by blast
qed

definition dvi_snd0 :: dvi_snd where
  "dvi_snd0 = \<lparr>ds_platooningState = 0, ds_position = 0, ds_vehicles = [], ds_CACCState = 0, ds_ConnectionToTarget = 0, ds_ConnectionFromFollower = 0,
     ds_CACCTimeGap = 0, ds_ACCTimeGap = 0, ds_self = zero_packet, ds_packets = replicate 3 zero_packet, ds_times = [], ds_gap_level = 0\<rparr>"

theorem display_in_range_witness:
  "\<exists>s'. dvi_snd_run [(\<lambda>_. Some lead_packet, Some 255, 499), (\<lambda>_. None, None, 497), (\<lambda>_. Some lead_packet, Some 6, 496)]
     (dvi_snd_start zero_timestamp dvi_snd0) = Some s' \<and> display_ok s'"
  by (rule display_in_range) (simp_all add: modes_fit_def mode_fits_def lead_packet_def dvi_snd0_def zero_packet_def)

text \<open>
  C38: a truck on the display of another: when the packet of the leader has come with a later time, the display shows a truck that
  brakes if the switch of its brake is on or the pressure is at least 0.11, and only if its driver brakes.  What it shows as the intruder, however, is not the cut-in of that truck
  but two bits of its maneuver: the message has no field for the second maneuver word.
\<close>

theorem display_shows_leader:
  assumes "codec_ok enc dec" "radio enc dec ids p [Var_COMM_LEAD_TRK q]" "rd 496 = Some q"
    and "length (ds_vehicles s) = 3" "length (ds_packets s) = 3" "ts2_is_later_than_ts1 (ds_times s ! 0) (pk_ts q)"
  shows "\<exists>s' v. dvi_snd_step rd gap 496 s = Some s' \<and> ds_vehicles s' ! 0 = v \<and> dv_type v = 1 \<and>
    (dv_isBraking v = 1 \<longrightarrow> driver_brakes p) \<and> (pk_user_bit_3 p = 1 \<or> 11 / 100 \<le> pk_user_float p \<longrightarrow> dv_isBraking v = 1) \<and>
    dv_hasIntruder v = pk_maneuver_des_1 p AND 3"
proof -
  obtain q' where q': "[Var_COMM_LEAD_TRK q] = packet_vars ids q'" "arrives p q'" using radio_law[OF assms(1,2)] by blast
  have "q' = q" using q'(1) by (auto simp: packet_vars_def split: if_splits)
  then have a: "pk_user_bit_3 q = pk_user_bit_3 p" "pk_maneuver_des_2 q = pk_maneuver_des_1 p" "cut (1 / 100) (pk_user_float p) (pk_user_float q)"
    using q'(2) by (simp_all add: arrives_def)
  have f: "pk_user_float q > 1 / 10 \<Longrightarrow> pk_user_float p > 1 / 10" "11 / 100 \<le> pk_user_float p \<Longrightarrow> pk_user_float q > 1 / 10"
    using a(3) by (auto simp: cut_def)
  have b: "braking q = 1 \<longleftrightarrow> driver_brakes q" by (simp add: braking_def)
  show ?thesis using assms(3-6) a(1,2) f b
    by (auto simp: dvi_snd_step_def dvi_other_def driver_brakes_def Let_def)
qed

definition time1 :: timestamp where "time1 = zero_timestamp\<lparr>ts_sec := 1\<rparr>"

theorem display_shows_leader_witness:
  "\<exists>q s'. radio enc1 dec1 ids2 lead_packet [Var_COMM_LEAD_TRK q] \<and>
     dvi_snd_step [496 \<mapsto> q] None 496 (dvi_snd_start zero_timestamp dvi_snd0) = Some s' \<and> dv_type (ds_vehicles s' ! 0) = 1 \<and>
     dv_isBraking (ds_vehicles s' ! 0) = 1"
proof -
  obtain s' where s: "veh_snd_step enc1 [66, 108, 117, 101] (Some lead_packet) (Some (379155 / 10000, - 1223348 / 10000, 90)) zero_timestamp snd1 =
    Some ([0x30, 2], s')"
    using lead_sent by auto
  obtain q r' where q: "veh_rcv_step dec1 71 ids2 [0x30, 2] time1 rcv2 = Some (packet_vars ids2 q, r')" "arrives lead_packet q" "pk_ts q = time1"
    using packet_sent[OF codec1 s] by blast
  have "packet_vars ids2 q = [Var_COMM_LEAD_TRK q]"
    using q(2) by (simp add: packet_vars_def ids2_def get_ids_def byte_val_def arrives_def lead_packet_def)
  then have r: "radio enc1 dec1 ids2 lead_packet [Var_COMM_LEAD_TRK q]" using s q(1) unfolding radio_def by metis
  let ?s = "dvi_snd_start zero_timestamp dvi_snd0"
  have l: "length (ds_vehicles ?s) = 3" "length (ds_packets ?s) = 3" "ds_times ?s ! 0 = zero_timestamp"
    by (simp_all add: dvi_snd_start_def dvi_snd0_def)
  have t: "ts2_is_later_than_ts1 (ds_times ?s ! 0) (pk_ts q)" unfolding l(3) q(3) by code_simp
  have b: "pk_user_bit_3 lead_packet = 1" by (simp add: lead_packet_def)
  show ?thesis using display_shows_leader[OF codec1 r _ l(1,2) t, of "[496 \<mapsto> q]" None] b r by fastforce
qed

end
