(* ===== verification/SysBtr.thy ===== *)
theory SysBtr
  imports Prelude
begin

text \<open>
  path/local/sys_btr.c and sys_btr.h: a binary search tree of pointers to items, balanced by the
  rules of Adelson-Velsky and Landis.  Memory maps addresses to nodes; the items are known by
  their addresses, of which \<open>live_items\<close> holds the allocated ones, and the client's comparison is the
  argument \<open>pfcmp\<close>.  A \<open>btr_node_typ **\<close> is a place that holds a node pointer: the client's root
  variable or one of the two links of a node.  \<open>avail\<close> are the addresses \<open>malloc\<close> will offer
  (failure included).  The result of an operation is \<open>None\<close> on a fault of memory (a null or
  dangling pointer is followed) or when a loop does not end.
\<close>

record btr_node = bn_pitem :: ptr
  bn_pleft :: ptr
  bn_pright :: ptr
  bn_balance :: int

record btr_mem = btr_nodes :: "ptr \<rightharpoonup> btr_node"
  btr_root :: ptr
  live_items :: "ptr set"
  btr_avail :: "ptr list"

datatype place = Root | LeftOf ptr | RightOf ptr

type_synonym comparison = "ptr \<Rightarrow> ptr \<Rightarrow> int"

abbreviation (input) AVL_RIGHT :: int where "AVL_RIGHT \<equiv> 1"
abbreviation (input) AVL_LEFT :: int where "AVL_LEFT \<equiv> -1"
abbreviation (input) AVL_BALANCED :: int where "AVL_BALANCED \<equiv> 0"

datatype rotation = AVL_DONE | AVL_SINGLE | AVL_DOUBLE

definition upd_node :: "ptr \<Rightarrow> (btr_node \<Rightarrow> btr_node) \<Rightarrow> btr_mem \<Rightarrow> btr_mem option" where
  "upd_node p f h = map_option (\<lambda>n. h\<lparr>btr_nodes := (btr_nodes h)(p \<mapsto> f n)\<rparr>) (btr_nodes h p)"

fun read_place :: "place \<Rightarrow> btr_mem \<Rightarrow> ptr option" where
  "read_place Root h = Some (btr_root h)"
| "read_place (LeftOf p) h = map_option bn_pleft (btr_nodes h p)"
| "read_place (RightOf p) h = map_option bn_pright (btr_nodes h p)"

fun write_place :: "place \<Rightarrow> ptr \<Rightarrow> btr_mem \<Rightarrow> btr_mem option" where
  "write_place Root v h = Some (h\<lparr>btr_root := v\<rparr>)"
| "write_place (LeftOf p) v h = upd_node p (\<lambda>n. n\<lparr>bn_pleft := v\<rparr>) h"
| "write_place (RightOf p) v h = upd_node p (\<lambda>n. n\<lparr>bn_pright := v\<rparr>) h"

text \<open>\<open>LINK(a,pnode)\<close>\<close>

definition LINK :: "int \<Rightarrow> ptr \<Rightarrow> btr_mem \<Rightarrow> ptr option" where
  "LINK a p h = map_option (\<lambda>n. if a = AVL_LEFT then bn_pleft n else bn_pright n) (btr_nodes h p)"

definition btr_inst_node :: "ptr \<Rightarrow> btr_mem \<Rightarrow> ptr \<times> btr_mem" where
  "btr_inst_node pitem h = (case btr_avail h of [] \<Rightarrow> (NULL, h)
     | p # ps \<Rightarrow> if p = NULL \<or> btr_nodes h p \<noteq> None then (NULL, h\<lparr>btr_avail := ps\<rparr>)
         else (p, h\<lparr>btr_nodes := (btr_nodes h)(p \<mapsto> \<lparr>bn_pitem = pitem, bn_pleft = NULL, bn_pright = NULL,
                 bn_balance = 0\<rparr>), btr_avail := ps\<rparr>))"

subsection \<open>The tree without balancing, and the search\<close>

text \<open>The pointer to a pointer itself is never \<open>NULL\<close> here: it is a \<open>place\<close>.\<close>

partial_function (option) btr_add :: "comparison \<Rightarrow> ptr \<Rightarrow> place \<Rightarrow> btr_mem \<Rightarrow> (ptr \<times> btr_mem) option" where
  "btr_add pfcmp pitem pparent h = (if pitem = NULL then Some (NULL, h)
     else Option.bind (read_place pparent h) (\<lambda>p.
       if p = NULL then
         (case btr_inst_node pitem h of (q, h') \<Rightarrow>
            Option.bind (write_place pparent q h') (\<lambda>h''. Some (if q = NULL then NULL else pitem, h'')))
       else Option.bind (btr_nodes h p) (\<lambda>n.
         if bn_pitem n = NULL then
           Option.bind (upd_node p (\<lambda>n. n\<lparr>bn_pitem := pitem\<rparr>) h) (\<lambda>h'. Some (pitem, h'))
         else if pfcmp pitem (bn_pitem n) < 0 then btr_add pfcmp pitem (LeftOf p) h
         else if pfcmp pitem (bn_pitem n) = 0 then Some (bn_pitem n, h)
         else btr_add pfcmp pitem (RightOf p) h)))"

partial_function (option) btr_find :: "comparison \<Rightarrow> ptr \<Rightarrow> place \<Rightarrow> btr_mem \<Rightarrow> ptr option" where
  "btr_find pfcmp pitem pparent h = (if pitem = NULL then Some NULL
     else Option.bind (read_place pparent h) (\<lambda>p.
       if p = NULL then Some NULL
       else Option.bind (btr_nodes h p) (\<lambda>n.
         if bn_pitem n = NULL then Some NULL
         else if pfcmp pitem (bn_pitem n) = 0 then Some (bn_pitem n)
         else if pfcmp pitem (bn_pitem n) < 0 then btr_find pfcmp pitem (LeftOf p) h
         else btr_find pfcmp pitem (RightOf p) h)))"

text \<open>\<open>btr_rm\<close> is a stub.\<close>

definition btr_rm :: "comparison \<Rightarrow> ptr \<Rightarrow> place \<Rightarrow> btr_mem \<Rightarrow> ptr \<times> btr_mem" where
  "btr_rm pfcmp pitem proot h = (NULL, h)"

subsection \<open>Insertion with balancing\<close>

text \<open>
  \<open>avl_insert\<close>: \<open>Found q\<close> is the result \<open>FALSE\<close>, \<open>Failed\<close> is \<open>ERROR\<close> and \<open>Inserted q s t\<close> is
  \<open>TRUE\<close> with the new node, the node where balancing begins and its parent.
\<close>

datatype ins_result = Found ptr | Failed | Inserted ptr ptr ptr

partial_function (option) avl_insert_loop ::
  "comparison \<Rightarrow> ptr \<Rightarrow> ptr \<Rightarrow> ptr \<Rightarrow> ptr \<Rightarrow> btr_mem \<Rightarrow> (ins_result \<times> btr_mem) option" where
  "avl_insert_loop pfcmp pitem pp ps pt h = (if pp = NULL then Some (Failed, h)
     else Option.bind (btr_nodes h pp) (\<lambda>n.
       let result = pfcmp pitem (bn_pitem n) in
       if result = 0 then Some (Found pp, h)
       else if result < 0 then
         (let pq = bn_pleft n in
          if pq = NULL then
            (case btr_inst_node pitem h of (q, h') \<Rightarrow>
               if q = NULL then Some (Failed, h')
               else Option.bind (upd_node pp (\<lambda>n. n\<lparr>bn_pleft := q\<rparr>) h') (\<lambda>h''. Some (Inserted q ps pt, h'')))
          else Option.bind (btr_nodes h pq) (\<lambda>nq.
            if bn_balance nq \<noteq> AVL_BALANCED then avl_insert_loop pfcmp pitem pq pq pp h
            else avl_insert_loop pfcmp pitem pq ps pt h))
       else
         (let pq = bn_pright n in
          if pq = NULL then
            (case btr_inst_node pitem h of (q, h') \<Rightarrow>
               if q = NULL then Some (Failed, h')
               else Option.bind (upd_node pp (\<lambda>n. n\<lparr>bn_pright := q\<rparr>) h') (\<lambda>h''. Some (Inserted q ps pt, h'')))
          else Option.bind (btr_nodes h pq) (\<lambda>nq.
            if bn_balance nq \<noteq> AVL_BALANCED then avl_insert_loop pfcmp pitem pq pq pp h
            else avl_insert_loop pfcmp pitem pq ps pt h))))"

definition avl_insert :: "comparison \<Rightarrow> ptr \<Rightarrow> ptr \<Rightarrow> btr_mem \<Rightarrow> (ins_result \<times> btr_mem) option" where
  "avl_insert pfcmp pitem pstart h = avl_insert_loop pfcmp pitem pstart pstart pstart h"

partial_function (option) balance_loop :: "comparison \<Rightarrow> ptr \<Rightarrow> ptr \<Rightarrow> ptr \<Rightarrow> btr_mem \<Rightarrow> btr_mem option" where
  "balance_loop pfcmp pitem pp pq h = (if pp = pq then Some h
     else Option.bind (btr_nodes h pp) (\<lambda>n.
       let result = pfcmp pitem (bn_pitem n) in
       if result < 0 then Option.bind (upd_node pp (\<lambda>n. n\<lparr>bn_balance := AVL_LEFT\<rparr>) h)
         (\<lambda>h'. balance_loop pfcmp pitem (bn_pleft n) pq h')
       else if 0 < result then Option.bind (upd_node pp (\<lambda>n. n\<lparr>bn_balance := AVL_RIGHT\<rparr>) h)
         (\<lambda>h'. balance_loop pfcmp pitem (bn_pright n) pq h')
       else Some h))"

text \<open>The results of \<open>avl_balance\<close>: the rotation, the node \<open>*pr\<close> and \<open>*pfactor\<close>.\<close>

definition avl_balance :: "comparison \<Rightarrow> ptr \<Rightarrow> ptr \<Rightarrow> ptr \<Rightarrow> btr_mem \<Rightarrow> ((rotation \<times> ptr \<times> int) \<times> btr_mem) option" where
  "avl_balance pfcmp pitem pq ps h = Option.bind (btr_nodes h ps) (\<lambda>n.
     let pp = (if pfcmp pitem (bn_pitem n) < 0 then bn_pleft n else bn_pright n); pr = pp in
     Option.bind (balance_loop pfcmp pitem pp pq h) (\<lambda>h.
     Option.bind (btr_nodes h ps) (\<lambda>n.
     let factor = (if pfcmp pitem (bn_pitem n) < 0 then AVL_LEFT else AVL_RIGHT) in
     if bn_balance n = AVL_BALANCED then
       Option.bind (upd_node ps (\<lambda>n. n\<lparr>bn_balance := factor\<rparr>) h) (\<lambda>h. Some ((AVL_DONE, pr, factor), h))
     else if bn_balance n = factor then
       Option.bind (btr_nodes h pr) (\<lambda>r.
         if bn_balance r = factor then Some ((AVL_SINGLE, pr, factor), h) else Some ((AVL_DOUBLE, pr, factor), h))
     else Option.bind (upd_node ps (\<lambda>n. n\<lparr>bn_balance := AVL_BALANCED\<rparr>) h)
       (\<lambda>h. Some ((AVL_DONE, pr, factor), h)))))"

definition avl_single :: "int \<Rightarrow> ptr \<Rightarrow> ptr \<Rightarrow> btr_mem \<Rightarrow> (ptr \<times> btr_mem) option" where
  "avl_single factor ps pr h = Option.bind (LINK (- factor) pr h) (\<lambda>l.
     Option.bind (if factor = AVL_RIGHT then
         Option.bind (upd_node ps (\<lambda>n. n\<lparr>bn_pright := l\<rparr>) h) (upd_node pr (\<lambda>n. n\<lparr>bn_pleft := ps\<rparr>))
       else Option.bind (upd_node ps (\<lambda>n. n\<lparr>bn_pleft := l\<rparr>) h) (upd_node pr (\<lambda>n. n\<lparr>bn_pright := ps\<rparr>))) (\<lambda>h.
     Option.bind (upd_node ps (\<lambda>n. n\<lparr>bn_balance := AVL_BALANCED\<rparr>) h) (\<lambda>h.
     Option.bind (upd_node pr (\<lambda>n. n\<lparr>bn_balance := AVL_BALANCED\<rparr>) h) (\<lambda>h.
     Some (pr, h)))))"

definition avl_double :: "int \<Rightarrow> ptr \<Rightarrow> ptr \<Rightarrow> btr_mem \<Rightarrow> (ptr \<times> btr_mem) option" where
  "avl_double factor ps pr h = Option.bind (LINK (- factor) pr h) (\<lambda>pp.
     Option.bind (if factor = AVL_RIGHT then
         Option.bind (LINK factor pp h) (\<lambda>l.
         Option.bind (upd_node pr (\<lambda>n. n\<lparr>bn_pleft := l\<rparr>) h) (\<lambda>h.
         Option.bind (upd_node pp (\<lambda>n. n\<lparr>bn_pright := pr\<rparr>) h) (\<lambda>h.
         Option.bind (LINK (- factor) pp h) (\<lambda>l.
         Option.bind (upd_node ps (\<lambda>n. n\<lparr>bn_pright := l\<rparr>) h) (\<lambda>h.
         upd_node pp (\<lambda>n. n\<lparr>bn_pleft := ps\<rparr>) h)))))
       else
         Option.bind (LINK factor pp h) (\<lambda>l.
         Option.bind (upd_node pr (\<lambda>n. n\<lparr>bn_pright := l\<rparr>) h) (\<lambda>h.
         Option.bind (upd_node pp (\<lambda>n. n\<lparr>bn_pleft := pr\<rparr>) h) (\<lambda>h.
         Option.bind (LINK (- factor) pp h) (\<lambda>l.
         Option.bind (upd_node ps (\<lambda>n. n\<lparr>bn_pleft := l\<rparr>) h) (\<lambda>h.
         upd_node pp (\<lambda>n. n\<lparr>bn_pright := ps\<rparr>) h)))))) (\<lambda>h.
     Option.bind (btr_nodes h pp) (\<lambda>n.
     let (bs, br) = (if bn_balance n = factor then (- factor, AVL_BALANCED)
         else if bn_balance n = AVL_BALANCED then (AVL_BALANCED, AVL_BALANCED)
         else (AVL_BALANCED, factor)) in
     Option.bind (upd_node ps (\<lambda>n. n\<lparr>bn_balance := bs\<rparr>) h) (\<lambda>h.
     Option.bind (upd_node pr (\<lambda>n. n\<lparr>bn_balance := br\<rparr>) h) (\<lambda>h.
     Option.bind (upd_node pp (\<lambda>n. n\<lparr>bn_balance := AVL_BALANCED\<rparr>) h) (\<lambda>h.
     Some (pp, h)))))))"

text \<open>The result is the pointer returned and memory; \<open>*proot\<close> is followed even when it is \<open>NULL\<close>-checked.\<close>

definition btr_avl :: "comparison \<Rightarrow> ptr \<Rightarrow> btr_mem \<Rightarrow> (ptr \<times> btr_mem) option" where
  "btr_avl pfcmp pitem h = (if pitem = NULL \<or> btr_root h = NULL then Some (NULL, h)
     else Option.bind (btr_nodes h (btr_root h)) (\<lambda>n.
       if bn_pitem n = NULL then
         Option.bind (upd_node (btr_root h) (\<lambda>n. n\<lparr>bn_pitem := pitem\<rparr>) h) (\<lambda>h. Some (pitem, h))
       else Option.bind (avl_insert pfcmp pitem (btr_root h) h) (\<lambda>(r, h).
         case r of
           Found pq \<Rightarrow> map_option (\<lambda>n. (bn_pitem n, h)) (btr_nodes h pq)
         | Failed \<Rightarrow> Some (NULL, h)
         | Inserted pq ps pt \<Rightarrow>
             Option.bind (avl_balance pfcmp pitem pq ps h) (\<lambda>((rot, pr, factor), h).
             if rot = AVL_DONE then Some (pitem, h)
             else Option.bind (if rot = AVL_SINGLE then avl_single factor ps pr h else avl_double factor ps pr h) (\<lambda>(pp, h).
               if ps = btr_root h then Some (pitem, h\<lparr>btr_root := pp\<rparr>)
               else Option.bind (btr_nodes h pt) (\<lambda>t.
                 Option.bind (if ps = bn_pright t then upd_node pt (\<lambda>n. n\<lparr>bn_pright := pp\<rparr>) h
                   else upd_node pt (\<lambda>n. n\<lparr>bn_pleft := pp\<rparr>) h) (\<lambda>h. Some (pitem, h))))))))"

subsection \<open>Traversal and destruction\<close>

datatype btr_visit = BTR_PREORDER | BTR_INORDER | BTR_LEAF | BTR_POSTORDER

text \<open>The calls of the client's function that a traversal makes, in order.\<close>

partial_function (option) btr_depth_left :: "ptr \<Rightarrow> int \<Rightarrow> btr_mem \<Rightarrow> (ptr \<times> btr_visit \<times> int) list option" where
  "btr_depth_left p level h = (if p = NULL then Some []
     else Option.bind (btr_nodes h p) (\<lambda>n.
       if bn_pitem n = NULL then Some []
       else Option.bind (if bn_pleft n \<noteq> NULL then btr_depth_left (bn_pleft n) (level + 1) h else Some []) (\<lambda>ls.
         Option.bind (if bn_pright n \<noteq> NULL then btr_depth_left (bn_pright n) (level + 1) h else Some []) (\<lambda>rs.
         Some ((bn_pitem n, BTR_PREORDER, level) # ls
           @ (bn_pitem n, if bn_pleft n = NULL \<and> bn_pright n = NULL then BTR_LEAF else BTR_INORDER, level) # rs
           @ [(bn_pitem n, BTR_POSTORDER, level)])))))"

definition btr_walk :: "ptr \<Rightarrow> btr_mem \<Rightarrow> (ptr \<times> btr_visit \<times> int) list option" where
  "btr_walk proot h = btr_depth_left proot 0 h"

definition free_item :: "ptr \<Rightarrow> btr_mem \<Rightarrow> btr_mem option" where
  "free_item p h = (if p = NULL then Some h else if p \<notin> live_items h then None else Some (h\<lparr>live_items := live_items h - {p}\<rparr>))"

definition free_node :: "ptr \<Rightarrow> btr_mem \<Rightarrow> btr_mem option" where
  "free_node p h = (if p = NULL then Some h else if btr_nodes h p = None then None
     else Some (h\<lparr>btr_nodes := (btr_nodes h)(p := None)\<rparr>))"

text \<open>\<open>btr_destroy\<close>: the items the client's function was called with, in order, and memory.\<close>

partial_function (option) btr_destroy :: "place \<Rightarrow> btr_mem \<Rightarrow> (ptr list \<times> btr_mem) option" where
  "btr_destroy ppnode h = Option.bind (read_place ppnode h) (\<lambda>p.
     if p = NULL then Some ([], h)
     else Option.bind (btr_nodes h p) (\<lambda>n.
       Option.bind (if bn_pleft n \<noteq> NULL then btr_destroy (LeftOf p) h else Some ([], h)) (\<lambda>(ls, h).
       Option.bind (btr_nodes h p) (\<lambda>n.
       Option.bind (if bn_pright n \<noteq> NULL then btr_destroy (RightOf p) h else Some ([], h)) (\<lambda>(rs, h).
       Option.bind (btr_nodes h p) (\<lambda>n.
       Option.bind (if bn_pitem n \<noteq> NULL then
           Option.bind (free_item (bn_pitem n) h) (upd_node p (\<lambda>n. n\<lparr>bn_pitem := NULL\<rparr>)) else Some h) (\<lambda>h.
       Option.bind (free_node p h) (\<lambda>h.
       Option.bind (write_place ppnode NULL h) (\<lambda>h.
       Some (ls @ rs @ [bn_pitem n], h))))))))))"

end
