(* ===== verification/SysBtrRep.thy ===== *)
theory SysBtrRep
  imports SysBtr "HOL-Library.Tree"
begin

text \<open>
  The balanced tree of path/local/sys_btr.c refines a sorted set.  \<open>rep\<close> relates memory to a tree
  of (address, item, balance) triples; on such trees the insertion with its deferred balancing is
  the function \<open>avl_ins\<close>, which keeps the order and the balance; \<open>btr_avl\<close> implements it.
\<close>

type_synonym ntree = "(ptr \<times> ptr \<times> int) tree"

fun addr :: "ntree \<Rightarrow> ptr" where
  "addr Leaf = NULL" | "addr (Node l (a, x, b) r) = a"

fun root_bal :: "ntree \<Rightarrow> int" where
  "root_bal Leaf = 0" | "root_bal (Node l (a, x, b) r) = b"

fun rep :: "(ptr \<rightharpoonup> btr_node) \<Rightarrow> ntree \<Rightarrow> bool" where
  "rep m Leaf = True"
| "rep m (Node l (a, x, b) r) = (a \<noteq> NULL \<and>
     m a = Some \<lparr>bn_pitem = x, bn_pleft = addr l, bn_pright = addr r, bn_balance = b\<rparr> \<and> rep m l \<and> rep m r)"

text \<open>The addresses and items of a tree in order.\<close>

fun pairs :: "ntree \<Rightarrow> (ptr \<times> ptr) list" where
  "pairs Leaf = []" | "pairs (Node l (a, x, b) r) = pairs l @ (a, x) # pairs r"

definition addrs :: "ntree \<Rightarrow> ptr set" where "addrs t = fst ` set (pairs t)"
definition uniq :: "ntree \<Rightarrow> bool" where "uniq t \<longleftrightarrow> distinct (map fst (pairs t))"

lemma addrs_simps [simp]: "addrs Leaf = {}" "addrs (Node l (a, x, b) r) = insert a (addrs l \<union> addrs r)"
  by (auto simp: addrs_def)

lemma uniq_simps [simp]: "uniq Leaf" "uniq (Node l (a, x, b) r) \<longleftrightarrow> a \<notin> addrs l \<and> a \<notin> addrs r \<and>
    addrs l \<inter> addrs r = {} \<and> uniq l \<and> uniq r"
  by (auto simp: uniq_def addrs_def)

text \<open>The balance is the height on the right less the height on the left.\<close>

fun avl :: "ntree \<Rightarrow> bool" where
  "avl Leaf = True"
| "avl (Node l (a, x, b) r) = (b = int (height r) - int (height l) \<and> -1 \<le> b \<and> b \<le> 1 \<and> avl l \<and> avl r)"

text \<open>The client's comparison orders the items by a key.\<close>

definition compares :: "comparison \<Rightarrow> (ptr \<Rightarrow> int) \<Rightarrow> bool" where
  "compares pfcmp key \<longleftrightarrow> (\<forall>x y. (pfcmp x y < 0 \<longleftrightarrow> key x < key y) \<and> (pfcmp x y = 0 \<longleftrightarrow> key x = key y))"

lemma compares_iff: "compares pfcmp key \<Longrightarrow> pfcmp x y < 0 \<longleftrightarrow> key x < key y"
  "compares pfcmp key \<Longrightarrow> pfcmp x y = 0 \<longleftrightarrow> key x = key y"
  "compares pfcmp key \<Longrightarrow> 0 < pfcmp x y \<longleftrightarrow> key y < key x"
proof -
  assume c: "compares pfcmp key"
  then show "pfcmp x y < 0 \<longleftrightarrow> key x < key y" "pfcmp x y = 0 \<longleftrightarrow> key x = key y" by (auto simp: compares_def)
  then show "0 < pfcmp x y \<longleftrightarrow> key y < key x" by linarith
qed

definition keys :: "(ptr \<Rightarrow> int) \<Rightarrow> ntree \<Rightarrow> int set" where "keys key t = (key \<circ> snd) ` set (pairs t)"
definition ordered :: "(ptr \<Rightarrow> int) \<Rightarrow> ntree \<Rightarrow> bool" where
  "ordered key t \<longleftrightarrow> sorted_wrt (<) (map (key \<circ> snd) (pairs t))"

lemma keys_simps [simp]: "keys key Leaf = {}" "keys key (Node l (a, x, b) r) = insert (key x) (keys key l \<union> keys key r)"
  by (auto simp: keys_def)

lemma ordered_simps [simp]: "ordered key Leaf" "ordered key (Node l (a, x, b) r) \<longleftrightarrow> (\<forall>k \<in> keys key l. k < key x) \<and>
    (\<forall>k \<in> keys key r. key x < k) \<and> ordered key l \<and> ordered key r"
  by (auto simp: ordered_def keys_def sorted_wrt_append) (rule order.strict_trans[of _ "key x"]; fastforce)

subsection \<open>The insertion on trees\<close>

text \<open>Without balancing; \<open>x\<close> is the new item and \<open>q\<close> its node.\<close>

fun ins0 :: "(ptr \<Rightarrow> int) \<Rightarrow> ptr \<Rightarrow> ptr \<Rightarrow> ntree \<Rightarrow> ntree" where
  "ins0 key x q Leaf = Node Leaf (q, x, 0) Leaf"
| "ins0 key x q (Node l (a, y, b) r) = (if key x < key y then Node (ins0 key x q l) (a, y, b) r
     else Node l (a, y, b) (ins0 key x q r))"

text \<open>No node on the path to the place of \<open>x\<close> leans to a side.\<close>

fun calm :: "(ptr \<Rightarrow> int) \<Rightarrow> ptr \<Rightarrow> ntree \<Rightarrow> bool" where
  "calm key x Leaf = True"
| "calm key x (Node l (a, y, b) r) = (b = 0 \<and> (if key x < key y then calm key x l else calm key x r))"

text \<open>Along such a path every node comes to lean to the side of the new one.\<close>

fun grow :: "(ptr \<Rightarrow> int) \<Rightarrow> ptr \<Rightarrow> ptr \<Rightarrow> ntree \<Rightarrow> ntree" where
  "grow key x q Leaf = Node Leaf (q, x, 0) Leaf"
| "grow key x q (Node l (a, y, b) r) = (if key x < key y then Node (grow key x q l) (a, y, -1) r
     else Node l (a, y, 1) (grow key x q r))"

fun rot_right :: "ntree \<Rightarrow> ptr \<Rightarrow> ptr \<Rightarrow> ntree \<Rightarrow> ntree" where
  "rot_right (Node A (pr, z, bz) B) a y r = (if bz = -1 then Node A (pr, z, 0) (Node B (a, y, 0) r)
     else (case B of Node B1 (pp, w, bp) B2 \<Rightarrow>
         Node (Node A (pr, z, if bp = 1 then -1 else 0) B1) (pp, w, 0) (Node B2 (a, y, if bp = -1 then 1 else 0) r)
       | Leaf \<Rightarrow> Leaf))"
| "rot_right Leaf a y r = Leaf"

fun rot_left :: "ntree \<Rightarrow> ptr \<Rightarrow> ptr \<Rightarrow> ntree \<Rightarrow> ntree" where
  "rot_left l a y (Node B (pr, z, bz) A) = (if bz = 1 then Node (Node l (a, y, 0) B) (pr, z, 0) A
     else (case B of Node B1 (pp, w, bp) B2 \<Rightarrow>
         Node (Node l (a, y, if bp = 1 then -1 else 0) B1) (pp, w, 0) (Node B2 (pr, z, if bp = -1 then 1 else 0) A)
       | Leaf \<Rightarrow> Leaf))"
| "rot_left l a y Leaf = Leaf"

fun rebal :: "(ptr \<Rightarrow> int) \<Rightarrow> ptr \<Rightarrow> ptr \<Rightarrow> ntree \<Rightarrow> ntree" where
  "rebal key x q Leaf = Leaf"
| "rebal key x q (Node l (a, y, b) r) = (if key x < key y then
       (let l' = grow key x q l in
        if b = 0 then Node l' (a, y, -1) r else if b = -1 then rot_right l' a y r else Node l' (a, y, 0) r)
     else (let r' = grow key x q r in
        if b = 0 then Node l (a, y, 1) r' else if b = 1 then rot_left l a y r' else Node l (a, y, 0) r'))"

text \<open>Balancing takes place at the last node of the path below which the path is calm.\<close>

fun avl_ins :: "(ptr \<Rightarrow> int) \<Rightarrow> ptr \<Rightarrow> ptr \<Rightarrow> ntree \<Rightarrow> ntree" where
  "avl_ins key x q Leaf = Node Leaf (q, x, 0) Leaf"
| "avl_ins key x q (Node l (a, y, b) r) = (if key x < key y then
       (if calm key x l then rebal key x q (Node l (a, y, b) r) else Node (avl_ins key x q l) (a, y, b) r)
     else (if calm key x r then rebal key x q (Node l (a, y, b) r) else Node l (a, y, b) (avl_ins key x q r)))"

lemma ins0_not_Leaf [simp]: "ins0 key x q t \<noteq> Leaf"
  by (cases t) (auto split: if_splits)

lemma grow_not_Leaf [simp]: "grow key x q t \<noteq> Leaf" "Leaf \<noteq> grow key x q t"
  by (cases t; auto split: if_splits)+

lemma addr_grow [simp]: "addr (grow key x q t) = addr (ins0 key x q t)"
  by (cases t) auto

lemma pairs_grow [simp]: "pairs (grow key x q t) = pairs (ins0 key x q t)"
  by (induction t rule: grow.induct) auto

lemma addrs_pairs: "pairs t = pairs u \<Longrightarrow> addrs t = addrs u"
  by (simp add: addrs_def)

lemma addrs_grow [simp]: "addrs (grow key x q t) = addrs (ins0 key x q t)"
  by (rule addrs_pairs) simp

lemma addrs_ins0 [simp]: "addrs (ins0 key x q t) = insert q (addrs t)"
  by (induction key x q t rule: ins0.induct) auto

lemma grow_height: "avl t \<Longrightarrow> calm key x t \<Longrightarrow> avl (grow key x q t) \<and> height (grow key x q t) = Suc (height t)"
  by (induction key x q t rule: grow.induct) auto

lemma grow_leans: "t \<noteq> Leaf \<Longrightarrow> root_bal (grow key x q t) = -1 \<or> root_bal (grow key x q t) = 1"
  by (cases t) (auto split: if_splits)

lemma rot_right_avl:
  assumes "avl l'" "avl r" "height l' = Suc (Suc (height r))" "root_bal l' \<noteq> 0"
  shows "avl (rot_right l' a y r) \<and> height (rot_right l' a y r) = height l' \<and>
    pairs (rot_right l' a y r) = pairs l' @ (a, y) # pairs r"
proof (cases l')
  case (Node A c B)
  obtain pr z bz where [simp]: "c = (pr, z, bz)" by (cases c)
  note [simp] = Node
  show ?thesis
  proof (cases "bz = -1")
    case False
    then have "bz = 1" using assms by auto
    with assms obtain B1 pp w bp B2 where "B = Node B1 (pp, w, bp) B2" by (cases B) auto
    with assms \<open>bz = 1\<close> show ?thesis by (auto simp: max_def split: if_splits)
  qed (use assms in \<open>auto simp: max_def\<close>)
qed (use assms in auto)

lemma rot_left_avl:
  assumes "avl l" "avl r'" "height r' = Suc (Suc (height l))" "root_bal r' \<noteq> 0"
  shows "avl (rot_left l a y r') \<and> height (rot_left l a y r') = height r' \<and>
    pairs (rot_left l a y r') = pairs l @ (a, y) # pairs r'"
proof (cases r')
  case (Node B c A)
  obtain pr z bz where [simp]: "c = (pr, z, bz)" by (cases c)
  note [simp] = Node
  show ?thesis
  proof (cases "bz = 1")
    case False
    then have "bz = -1" using assms by auto
    with assms obtain B1 pp w bp B2 where "B = Node B1 (pp, w, bp) B2" by (cases B) auto
    with assms \<open>bz = -1\<close> show ?thesis by (auto simp: max_def split: if_splits)
  qed (use assms in \<open>auto simp: max_def\<close>)
qed (use assms in auto)

lemma height_pos_iff: "0 < height t \<longleftrightarrow> t \<noteq> Leaf"
  by (cases t) auto

lemma rebal_avl:
  assumes "avl (Node l (a, y, b) r)" "calm key x (if key x < key y then l else r)"
  shows "avl (rebal key x q (Node l (a, y, b) r)) \<and>
    height (rebal key x q (Node l (a, y, b) r)) = (if b = 0 then Suc (height (Node l (a, y, b) r)) else height (Node l (a, y, b) r)) \<and>
    pairs (rebal key x q (Node l (a, y, b) r)) = pairs (ins0 key x q (Node l (a, y, b) r))"
proof (cases "key x < key y")
  case True
  then have g: "avl (grow key x q l)" "height (grow key x q l) = Suc (height l)" using assms grow_height by auto
  show ?thesis
  proof (cases "b = -1")
    case b: True
    then have "l \<noteq> Leaf" using assms(1) height_pos_iff[of l] by auto
    then show ?thesis
      using b True g assms(1) grow_leans[of l key x q] rot_right_avl[of "grow key x q l" r a y] by auto
  qed (use True g assms(1) in auto)
next
  case False
  then have g: "avl (grow key x q r)" "height (grow key x q r) = Suc (height r)" using assms grow_height by auto
  show ?thesis
  proof (cases "b = 1")
    case b: True
    then have "r \<noteq> Leaf" using assms(1) height_pos_iff[of r] by auto
    then show ?thesis
      using b False g assms(1) grow_leans[of r key x q] rot_left_avl[of l "grow key x q r" a y] by auto
  qed (use False g assms(1) in auto)
qed

text \<open>A tree that balances inside keeps its height, so nothing above changes.\<close>

lemma avl_ins_avl: "avl t \<Longrightarrow> avl (avl_ins key x q t) \<and> (\<not> calm key x t \<longrightarrow> height (avl_ins key x q t) = height t) \<and>
    pairs (avl_ins key x q t) = pairs (ins0 key x q t)"
proof (induction t)
  case (Node l c r)
  obtain a y b where c: "c = (a, y, b)" by (cases c)
  show ?case
    using Node rebal_avl[of l a y b r key x q]
    by (auto simp: c simp del: rebal.simps ins0.simps(1))
qed simp

subsection \<open>Memory\<close>

lemma rep_frame: "(\<And>p. p \<in> addrs t \<Longrightarrow> m' p = m p) \<Longrightarrow> rep m' t = rep m t"
  by (induction t rule: rep.induct) auto

lemma rep_upd [simp]: "a \<notin> addrs t \<Longrightarrow> rep (m(a \<mapsto> n)) t = rep m t"
  by (rule rep_frame) auto

lemma rep_addrs: "rep m t \<Longrightarrow> p \<in> addrs t \<Longrightarrow> p \<noteq> NULL \<and> m p \<noteq> None"
  by (induction t) auto

lemma addr_in: "t \<noteq> Leaf \<Longrightarrow> addr t \<in> addrs t"
  by (cases t rule: addr.cases) auto

lemma addr_leaning: "root_bal t \<noteq> 0 \<Longrightarrow> addr t \<in> addrs t"
  by (cases t rule: addr.cases) auto

lemma addr_NULL: "rep m t \<Longrightarrow> addr t = NULL \<longleftrightarrow> t = Leaf"
  by (cases t rule: addr.cases) auto

text \<open>Only nodes change, and none outside \<open>S\<close>.\<close>

definition kept :: "ptr set \<Rightarrow> btr_mem \<Rightarrow> btr_mem \<Rightarrow> bool" where
  "kept S h h' \<longleftrightarrow> btr_root h' = btr_root h \<and> live_items h' = live_items h \<and> btr_avail h' = btr_avail h \<and>
     (\<forall>p. p \<notin> S \<longrightarrow> btr_nodes h' p = btr_nodes h p)"

lemma kept_refl [simp]: "kept S h h"
  by (simp add: kept_def)

lemma kept_trans: "kept S h h' \<Longrightarrow> kept S h' h'' \<Longrightarrow> kept S h h''"
  by (simp add: kept_def)

lemma kept_mono: "kept S h h' \<Longrightarrow> S \<subseteq> S' \<Longrightarrow> kept S' h h'"
  by (auto simp: kept_def)

lemma kept_upd: "p \<in> S \<Longrightarrow> kept S h (h\<lparr>btr_nodes := (btr_nodes h)(p \<mapsto> n)\<rparr>)"
  by (simp add: kept_def)

lemma kept_at: "kept S h h' \<Longrightarrow> p \<notin> S \<Longrightarrow> btr_nodes h' p = btr_nodes h p"
  by (simp add: kept_def)

lemma kept_rep: "kept S h h' \<Longrightarrow> addrs t \<inter> S = {} \<Longrightarrow> rep (btr_nodes h') t = rep (btr_nodes h) t"
  by (rule rep_frame) (auto simp: kept_def)

subsection \<open>The walk down\<close>

fun spot :: "(ptr \<Rightarrow> int) \<Rightarrow> ptr \<Rightarrow> ntree \<Rightarrow> ptr \<times> ptr \<Rightarrow> ptr \<times> ptr" where
  "spot key x Leaf st = st"
| "spot key x (Node l (a, y, b) r) st = (let c = (if key x < key y then l else r) in
     spot key x c (if root_bal c \<noteq> 0 then (addr c, a) else st))"

lemma spot_calm: "calm key x t \<Longrightarrow> spot key x t st = st"
proof (induction t arbitrary: st)
  case (Node l c r)
  obtain a y b where c: "c = (a, y, b)" by (cases c)
  have "calm key x u \<Longrightarrow> root_bal u = 0" for u by (cases u rule: addr.cases) auto
  with Node c show ?case by (auto simp: Let_def split: if_splits)
qed simp

text \<open>Below a node that leans, the start does not matter.\<close>

lemma spot_start: "\<not> calm key x t \<Longrightarrow> root_bal t = 0 \<Longrightarrow> spot key x t st = spot key x t st'"
proof (induction t arbitrary: st st')
  case (Node l c r)
  obtain a y b where c: "c = (a, y, b)" by (cases c)
  let ?u = "if key x < key y then l else r"
  have "\<not> calm key x ?u" using Node.prems by (auto simp: c)
  then show ?case
    using Node.IH by (cases "root_bal ?u = 0") (auto simp: c Let_def split: if_splits)
qed simp

lemma calm_root: "\<not> calm key x t \<Longrightarrow> t \<noteq> Leaf"
  by auto

lemma spot_in: "fst (spot key x t st) \<in> insert (fst st) (addrs t)"
proof (induction t arbitrary: st)
  case (Node l c r)
  obtain a y b where c: "c = (a, y, b)" by (cases c)
  let ?u = "if key x < key y then l else r"
  have "fst (spot key x ?u st') \<in> insert (fst st') (addrs ?u)" for st' using Node.IH by auto
  from this[of "if root_bal ?u \<noteq> 0 then (addr ?u, a) else st"] show ?case
    using addr_leaning by (auto simp: c Let_def split: if_splits)
qed simp

lemma spot_below: "\<not> calm key x t \<Longrightarrow> root_bal t = 0 \<Longrightarrow> uniq t \<Longrightarrow> fst (spot key x t st) \<in> addrs t - {addr t}"
proof (induction t arbitrary: st)
  case (Node l c r)
  obtain a y b where c: "c = (a, y, b)" by (cases c)
  let ?u = "if key x < key y then l else r"
  have u: "\<not> calm key x ?u" "uniq ?u" "a \<notin> addrs ?u" using Node.prems by (auto simp: c)
  have "fst (spot key x ?u (if root_bal ?u \<noteq> 0 then (addr ?u, a) else st)) \<in> addrs ?u"
  proof (cases "root_bal ?u = 0")
    case True
    with u Node.IH show ?thesis by (auto split: if_splits)
  next
    case False
    then show ?thesis using spot_in[of key x ?u "(addr ?u, a)"] addr_in[OF calm_root[OF u(1)]] by auto
  qed
  with u(3) show ?case by (auto simp: c Let_def split: if_splits)
qed simp

text \<open>\<open>avl_insert\<close> finds the item, or links the new node and reports the place to balance.\<close>

definition walked :: "(ptr \<Rightarrow> int) \<Rightarrow> ptr \<Rightarrow> ntree \<Rightarrow> ptr \<times> ptr \<Rightarrow> btr_mem \<Rightarrow> (ins_result \<times> btr_mem) \<Rightarrow> bool" where
  "walked key x t st h res = (case res of (r, h') \<Rightarrow> case btr_inst_node x h of (q, h1) \<Rightarrow>
     if key x \<in> keys key t then h' = h \<and> (\<exists>p y. r = Found p \<and> (p, y) \<in> set (pairs t) \<and> key y = key x)
     else if q = NULL then r = Failed \<and> h' = h1
     else r = Inserted q (fst (spot key x t st)) (snd (spot key x t st)) \<and>
       kept (addrs t) h1 h' \<and> rep (btr_nodes h') (ins0 key x q t))"

lemma inst_node: "btr_inst_node x h = (q, h1) \<Longrightarrow> q \<noteq> NULL \<Longrightarrow> btr_nodes h q = None \<and>
    btr_nodes h1 = (btr_nodes h)(q \<mapsto> \<lparr>bn_pitem = x, bn_pleft = NULL, bn_pright = NULL, bn_balance = 0\<rparr>) \<and>
    btr_root h1 = btr_root h \<and> live_items h1 = live_items h"
  by (auto simp: btr_inst_node_def split: list.splits if_splits)

lemma inst_node_new: "btr_inst_node x h = (q, h1) \<Longrightarrow> q \<noteq> NULL \<Longrightarrow> rep (btr_nodes h) t \<Longrightarrow> q \<notin> addrs t"
  using inst_node rep_addrs by blast

lemma addr_ins0: "t \<noteq> Leaf \<Longrightarrow> addr (ins0 key x q t) = addr t"
  by (cases t rule: addr.cases) auto

text \<open>A step of the walk into a subtree carries over to the tree around it.\<close>

lemma walked_left:
  assumes "walked key x l (if root_bal l \<noteq> 0 then (addr l, a) else st) h res"
    "rep (btr_nodes h) (Node l (a, y, b) r)" "uniq (Node l (a, y, b) r)" "ordered key (Node l (a, y, b) r)"
    "key x < key y" "l \<noteq> Leaf"
  shows "walked key x (Node l (a, y, b) r) st h res"
proof -
  obtain q h1 where q: "btr_inst_node x h = (q, h1)" by fastforce
  obtain rr h' where res: "res = (rr, h')" by (cases res)
  have k: "key x \<notin> keys key r"
    using assms(4,5) by auto
  have "rep (btr_nodes h') (Node (ins0 key x q l) (a, y, b) r)"
    if "q \<noteq> NULL" "kept (addrs l) h1 h'" "rep (btr_nodes h') (ins0 key x q l)"
  proof -
    have new: "q \<noteq> a" "q \<notin> addrs r" using inst_node_new[OF q that(1) assms(2)] by auto
    have "btr_nodes h' a = btr_nodes h1 a" "rep (btr_nodes h') r = rep (btr_nodes h1) r"
      using that(2) assms(3) kept_at[OF that(2), of a] kept_rep[OF that(2), of r] by auto
    then show ?thesis
      using assms(2,6) new inst_node[OF q that(1)] that(3) by (simp add: addr_ins0)
  qed
  then show ?thesis
    using assms(1,5) by (auto simp: walked_def q res k Let_def intro: kept_mono split: if_splits)
qed

lemma walked_right:
  assumes "walked key x r (if root_bal r \<noteq> 0 then (addr r, a) else st) h res"
    "rep (btr_nodes h) (Node l (a, y, b) r)" "uniq (Node l (a, y, b) r)" "ordered key (Node l (a, y, b) r)"
    "key y < key x" "r \<noteq> Leaf"
  shows "walked key x (Node l (a, y, b) r) st h res"
proof -
  obtain q h1 where q: "btr_inst_node x h = (q, h1)" by fastforce
  obtain rr h' where res: "res = (rr, h')" by (cases res)
  have k: "key x \<notin> keys key l"
    using assms(4,5) by auto
  have "rep (btr_nodes h') (Node l (a, y, b) (ins0 key x q r))"
    if "q \<noteq> NULL" "kept (addrs r) h1 h'" "rep (btr_nodes h') (ins0 key x q r)"
  proof -
    have new: "q \<noteq> a" "q \<notin> addrs l" using inst_node_new[OF q that(1) assms(2)] by auto
    have "btr_nodes h' a = btr_nodes h1 a" "rep (btr_nodes h') l = rep (btr_nodes h1) l"
      using that(2) assms(3) kept_at[OF that(2), of a] kept_rep[OF that(2), of l] by auto
    then show ?thesis
      using assms(2,6) new inst_node[OF q that(1)] that(3) by (simp add: addr_ins0)
  qed
  then show ?thesis
    using assms(1,5) by (auto simp: walked_def q res k Let_def intro: kept_mono split: if_splits)
qed

lemma insert_walk:
  assumes "compares pfcmp key"
  shows "t \<noteq> Leaf \<Longrightarrow> rep (btr_nodes h) t \<Longrightarrow> ordered key t \<Longrightarrow> uniq t \<Longrightarrow>
    \<exists>res. avl_insert_loop pfcmp x (addr t) (fst st) (snd st) h = Some res \<and> walked key x t st h res"
proof (induction t arbitrary: st)
  case (Node l c r)
  obtain a y b where c: "c = (a, y, b)" by (cases c)
  obtain q h1 where q: "btr_inst_node x h = (q, h1)" by fastforce
  have n: "btr_nodes h a = Some \<lparr>bn_pitem = y, bn_pleft = addr l, bn_pright = addr r, bn_balance = b\<rparr>" "a \<noteq> NULL"
      "rep (btr_nodes h) l" "rep (btr_nodes h) r"
    using Node.prems by (auto simp: c)
  note new = inst_node[OF q] inst_node_new[OF q _ Node.prems(2)]
  have cmp: "pfcmp x y < 0 \<longleftrightarrow> key x < key y" "pfcmp x y = 0 \<longleftrightarrow> key x = key y"
    using compares_iff[OF assms] by auto
  have bal: "u \<noteq> Leaf \<Longrightarrow> rep (btr_nodes h) u \<Longrightarrow> addr u \<noteq> NULL \<and> (\<exists>n. btr_nodes h (addr u) = Some n \<and> bn_balance n = root_bal u)" for u
    by (cases u rule: addr.cases) auto
  consider "key x = key y" | "key x < key y" | "key y < key x" by linarith
  then show ?case
  proof cases
    case 1
    then show ?thesis
      using n cmp by (subst avl_insert_loop.simps) (auto simp: c q Let_def walked_def)
  next
    case 2
    have nr: "key x \<notin> keys key r" using Node.prems(3) 2 by (auto simp: c)
    show ?thesis
    proof (cases "l = Leaf")
      case True
      show ?thesis
        using n cmp 2 True nr new Node.prems(4)
        by (subst avl_insert_loop.simps) (auto simp: c q Let_def upd_node_def kept_def walked_def)
    next
      case False
      let ?st = "if root_bal l \<noteq> 0 then (addr l, a) else st"
      obtain res where res: "avl_insert_loop pfcmp x (addr l) (fst ?st) (snd ?st) h = Some res" "walked key x l ?st h res"
        using Node.IH(1)[OF False n(3), of ?st] Node.prems by (auto simp: c)
      have "avl_insert_loop pfcmp x a (fst st) (snd st) h = Some res"
        using n cmp 2 bal[OF False n(3)] res(1)
        by (subst avl_insert_loop.simps) (auto simp: Let_def split: if_splits)
      then show ?thesis
        using walked_left[OF res(2)] Node.prems 2 False by (auto simp: c)
    qed
  next
    case 3
    have nl: "key x \<notin> keys key l" using Node.prems(3) 3 by (auto simp: c)
    show ?thesis
    proof (cases "r = Leaf")
      case True
      show ?thesis
        using n cmp 3 True nl new Node.prems(4)
        by (subst avl_insert_loop.simps) (auto simp: c q Let_def upd_node_def kept_def walked_def)
    next
      case False
      let ?st = "if root_bal r \<noteq> 0 then (addr r, a) else st"
      obtain res where res: "avl_insert_loop pfcmp x (addr r) (fst ?st) (snd ?st) h = Some res" "walked key x r ?st h res"
        using Node.IH(2)[OF False n(4), of ?st] Node.prems by (auto simp: c)
      have "avl_insert_loop pfcmp x a (fst st) (snd st) h = Some res"
        using n cmp 3 bal[OF False n(4)] res(1)
        by (subst avl_insert_loop.simps) (auto simp: Let_def split: if_splits)
      then show ?thesis
        using walked_right[OF res(2)] Node.prems 3 False by (auto simp: c)
    qed
  qed
qed simp

end
