(* ===== verification/SysBtrProps.thy ===== *)
theory SysBtrProps
  imports SysBtrRep
begin

text \<open>
  \<open>btr_avl\<close> of path/local/sys_btr.c implements the insertion on trees, in particular the rotations
  at the node the walk reported, and so refines the insertion into a sorted set.
\<close>

subsection \<open>Balancing\<close>

lemma balance_path:
  assumes "compares pfcmp key" "q \<noteq> NULL"
  shows "rep (btr_nodes h) (ins0 key x q t) \<Longrightarrow> uniq t \<Longrightarrow> q \<notin> addrs t \<Longrightarrow> key x \<notin> keys key t \<Longrightarrow>
    \<exists>h'. balance_loop pfcmp x (addr (ins0 key x q t)) q h = Some h' \<and> kept (addrs t) h h' \<and>
      rep (btr_nodes h') (grow key x q t)"
proof (induction t arbitrary: h)
  case Leaf
  then show ?case by (subst balance_loop.simps) simp
next
  case (Node l c r)
  obtain a y b where c: "c = (a, y, b)" by (cases c)
  have cmp: "pfcmp x y < 0 \<longleftrightarrow> key x < key y" "0 < pfcmp x y \<longleftrightarrow> key y < key x"
    using compares_iff[OF assms(1)] by auto
  have d: "a \<noteq> q" "a \<notin> addrs l" "a \<notin> addrs r" "addrs l \<inter> addrs r = {}" "q \<notin> addrs l" "q \<notin> addrs r" "uniq l" "uniq r"
      "key x \<notin> keys key l" "key x \<notin> keys key r" "key x \<noteq> key y"
    using Node.prems by (auto simp: c)
  show ?case
  proof (cases "key x < key y")
    case True
    let ?h = "h\<lparr>btr_nodes := (btr_nodes h)(a \<mapsto> \<lparr>bn_pitem = y, bn_pleft = addr (ins0 key x q l), bn_pright = addr r, bn_balance = -1\<rparr>)\<rparr>"
    have rp: "rep (btr_nodes ?h) (ins0 key x q l)" using Node.prems(1) True d by (simp add: c)
    obtain h' where h': "balance_loop pfcmp x (addr (ins0 key x q l)) q ?h = Some h'" "kept (addrs l) ?h h'"
        "rep (btr_nodes h') (grow key x q l)"
      using Node.IH(1)[OF rp d(7) d(5) d(9)] by blast
    have "btr_nodes h' a = btr_nodes ?h a" "rep (btr_nodes h') r = rep (btr_nodes ?h) r"
      using kept_at[OF h'(2)] kept_rep[OF h'(2), of r] d by auto
    then have "rep (btr_nodes h') (grow key x q (Node l c r))"
      using Node.prems True d h'(3) by (simp add: c)
    moreover have "kept (addrs (Node l c r)) h h'"
      using kept_trans[OF kept_upd kept_mono[OF h'(2)]] by (auto simp: c)
    moreover have "balance_loop pfcmp x a q h = Some h'"
      using Node.prems True d cmp h'(1) by (subst balance_loop.simps) (auto simp: c upd_node_def Let_def)
    ultimately show ?thesis using True by (auto simp: c)
  next
    case False
    let ?h = "h\<lparr>btr_nodes := (btr_nodes h)(a \<mapsto> \<lparr>bn_pitem = y, bn_pleft = addr l, bn_pright = addr (ins0 key x q r), bn_balance = 1\<rparr>)\<rparr>"
    have rp: "rep (btr_nodes ?h) (ins0 key x q r)" using Node.prems(1) False d by (simp add: c)
    obtain h' where h': "balance_loop pfcmp x (addr (ins0 key x q r)) q ?h = Some h'" "kept (addrs r) ?h h'"
        "rep (btr_nodes h') (grow key x q r)"
      using Node.IH(2)[OF rp d(8) d(6) d(10)] by blast
    have "btr_nodes h' a = btr_nodes ?h a" "rep (btr_nodes h') l = rep (btr_nodes ?h) l"
      using kept_at[OF h'(2)] kept_rep[OF h'(2), of l] d by auto
    then have "rep (btr_nodes h') (grow key x q (Node l c r))"
      using Node.prems False d h'(3) by (simp add: c)
    moreover have "kept (addrs (Node l c r)) h h'"
      using kept_trans[OF kept_upd kept_mono[OF h'(2)]] by (auto simp: c)
    moreover have "balance_loop pfcmp x a q h = Some h'"
      using Node.prems False d cmp h'(1) by (subst balance_loop.simps) (auto simp: c upd_node_def Let_def)
    ultimately show ?thesis using False by (auto simp: c)
  qed
qed

lemma single_right:
  assumes "rep (btr_nodes h) (Node (Node A (pr, z, bz) B) (a, y, b) r)" "uniq (Node (Node A (pr, z, bz) B) (a, y, b) r)"
  shows "\<exists>h'. avl_single (-1) a pr h = Some (pr, h') \<and> kept {a, pr} h h' \<and>
    rep (btr_nodes h') (Node A (pr, z, 0) (Node B (a, y, 0) r))"
  using assms by (auto simp: avl_single_def LINK_def upd_node_def kept_def)

lemma single_left:
  assumes "rep (btr_nodes h) (Node l (a, y, b) (Node B (pr, z, bz) A))" "uniq (Node l (a, y, b) (Node B (pr, z, bz) A))"
  shows "\<exists>h'. avl_single 1 a pr h = Some (pr, h') \<and> kept {a, pr} h h' \<and>
    rep (btr_nodes h') (Node (Node l (a, y, 0) B) (pr, z, 0) A)"
  using assms by (auto simp: avl_single_def LINK_def upd_node_def kept_def)

lemma double_right:
  assumes "rep (btr_nodes h) (Node (Node A (pr, z, bz) (Node B1 (pp, w, bp) B2)) (a, y, b) r)"
    "uniq (Node (Node A (pr, z, bz) (Node B1 (pp, w, bp) B2)) (a, y, b) r)" "bp \<in> {-1, 0, 1}"
  shows "\<exists>h'. avl_double (-1) a pr h = Some (pp, h') \<and> kept {a, pr, pp} h h' \<and>
    rep (btr_nodes h') (Node (Node A (pr, z, if bp = 1 then -1 else 0) B1) (pp, w, 0) (Node B2 (a, y, if bp = -1 then 1 else 0) r))"
  using assms by (auto simp: avl_double_def LINK_def upd_node_def kept_def)

lemma double_left:
  assumes "rep (btr_nodes h) (Node l (a, y, b) (Node (Node B1 (pp, w, bp) B2) (pr, z, bz) A))"
    "uniq (Node l (a, y, b) (Node (Node B1 (pp, w, bp) B2) (pr, z, bz) A))" "bp \<in> {-1, 0, 1}"
  shows "\<exists>h'. avl_double 1 a pr h = Some (pp, h') \<and> kept {a, pr, pp} h h' \<and>
    rep (btr_nodes h') (Node (Node l (a, y, if bp = 1 then -1 else 0) B1) (pp, w, 0) (Node B2 (pr, z, if bp = -1 then 1 else 0) A))"
  using assms by (auto simp: avl_double_def LINK_def upd_node_def kept_def)

lemma uniq_grow: "q \<notin> addrs t \<Longrightarrow> uniq t \<Longrightarrow> uniq (grow key x q t)"
  by (induction key x q t rule: grow.induct) auto

text \<open>What \<open>btr_avl\<close> does at the node \<open>ps\<close>, with a flag for the rotation that is needed.\<close>

definition fix_up :: "comparison \<Rightarrow> ptr \<Rightarrow> ptr \<Rightarrow> ptr \<Rightarrow> btr_mem \<Rightarrow> (bool \<times> ptr \<times> btr_mem) option" where
  "fix_up pfcmp x q s h = Option.bind (avl_balance pfcmp x q s h) (\<lambda>((rot, pr, factor), h).
     if rot = AVL_DONE then Some (False, s, h)
     else Option.bind (if rot = AVL_SINGLE then avl_single factor s pr h else avl_double factor s pr h)
       (\<lambda>(pp, h). Some (True, pp, h)))"

definition fixed :: "ptr \<Rightarrow> ntree \<Rightarrow> btr_mem \<Rightarrow> bool \<times> ptr \<times> btr_mem \<Rightarrow> bool" where
  "fixed a t h res = (case res of (rotated, pp, h') \<Rightarrow> pp = addr t \<and> rep (btr_nodes h') t \<and> kept (addrs t) h h' \<and>
     (rotated \<longleftrightarrow> pp \<noteq> a))"

lemma fixed_later: "kept (addrs t) h h1 \<Longrightarrow> fixed a t h1 res \<Longrightarrow> fixed a t h res"
  by (cases res) (auto simp: fixed_def intro: kept_trans)

lemma avl_right_heavy:
  assumes "rep (btr_nodes h) (Node l' (a, y, -1) r)" "uniq (Node l' (a, y, -1) r)" "avl l'" "avl r"
    "height l' = Suc (Suc (height r))" "root_bal l' \<noteq> 0"
  shows "\<exists>res. (case btr_nodes h (addr l') of Some n \<Rightarrow>
        Option.bind (if bn_balance n = -1 then avl_single (-1) a (addr l') h else avl_double (-1) a (addr l') h)
          (\<lambda>(pp, h). Some (True, pp, h)) | None \<Rightarrow> None) = Some res \<and> fixed a (rot_right l' a y r) h res"
proof (cases l')
  case (Node A c B)
  obtain pr z bz where [simp]: "c = (pr, z, bz)" by (cases c)
  note [simp] = Node
  show ?thesis
  proof (cases "bz = -1")
    case True
    from single_right[of h A pr z bz B a y "-1" r] assms(1,2) obtain h' where
      "avl_single (-1) a pr h = Some (pr, h')" "kept {a, pr} h h'" "rep (btr_nodes h') (Node A (pr, z, 0) (Node B (a, y, 0) r))"
      by auto
    then show ?thesis
      using True assms(1,2) by (auto simp: fixed_def intro: kept_mono)
  next
    case False
    then have "bz = 1" using assms by auto
    with assms obtain B1 pp w bp B2 where B: "B = Node B1 (pp, w, bp) B2" by (cases B) auto
    then have "bp \<in> {-1, 0, 1}" using assms(3) by auto
    from double_right[OF _ _ this, of h A pr z bz B1 pp w B2 a y "-1" r] assms(1,2) B obtain h' where
      "avl_double (-1) a pr h = Some (pp, h')" "kept {a, pr, pp} h h'"
      "rep (btr_nodes h') (Node (Node A (pr, z, if bp = 1 then -1 else 0) B1) (pp, w, 0) (Node B2 (a, y, if bp = -1 then 1 else 0) r))"
      by auto
    then show ?thesis
      using B \<open>bz = 1\<close> assms(1,2) by (auto simp: fixed_def intro: kept_mono)
  qed
qed (use assms in auto)

lemma avl_left_heavy:
  assumes "rep (btr_nodes h) (Node l (a, y, 1) r')" "uniq (Node l (a, y, 1) r')" "avl l" "avl r'"
    "height r' = Suc (Suc (height l))" "root_bal r' \<noteq> 0"
  shows "\<exists>res. (case btr_nodes h (addr r') of Some n \<Rightarrow>
        Option.bind (if bn_balance n = 1 then avl_single 1 a (addr r') h else avl_double 1 a (addr r') h)
          (\<lambda>(pp, h). Some (True, pp, h)) | None \<Rightarrow> None) = Some res \<and> fixed a (rot_left l a y r') h res"
proof (cases r')
  case (Node B c A)
  obtain pr z bz where [simp]: "c = (pr, z, bz)" by (cases c)
  note [simp] = Node
  show ?thesis
  proof (cases "bz = 1")
    case True
    from single_left[of h l a y 1 B pr z bz A] assms(1,2) obtain h' where
      "avl_single 1 a pr h = Some (pr, h')" "kept {a, pr} h h'" "rep (btr_nodes h') (Node (Node l (a, y, 0) B) (pr, z, 0) A)"
      by auto
    then show ?thesis
      using True assms(1,2) by (auto simp: fixed_def intro: kept_mono)
  next
    case False
    then have "bz = -1" using assms by auto
    with assms obtain B1 pp w bp B2 where B: "B = Node B1 (pp, w, bp) B2" by (cases B) auto
    then have "bp \<in> {-1, 0, 1}" using assms(4) by auto
    from double_left[OF _ _ this, of h l a y 1 B1 pp w B2 pr z bz A] assms(1,2) B obtain h' where
      "avl_double 1 a pr h = Some (pp, h')" "kept {a, pr, pp} h h'"
      "rep (btr_nodes h') (Node (Node l (a, y, if bp = 1 then -1 else 0) B1) (pp, w, 0) (Node B2 (pr, z, if bp = -1 then 1 else 0) A))"
      by auto
    then show ?thesis
      using B \<open>bz = -1\<close> assms(1,2) by (auto simp: fixed_def intro: kept_mono)
  qed
qed (use assms in auto)

text \<open>The node where balancing begins, with a calm path below it.\<close>

lemma fix_up_rebal:
  assumes c: "compares pfcmp key" and q: "q \<noteq> NULL" "q \<notin> addrs T" and T: "T = Node l (a, y, b) r"
    and r: "rep (btr_nodes h) (ins0 key x q T)" "uniq T" "key x \<notin> keys key T" "avl T"
    and calm: "calm key x (if key x < key y then l else r)"
  shows "\<exists>res. fix_up pfcmp x q a h = Some res \<and> fixed a (rebal key x q T) h res"
proof (cases "key x < key y")
  case True
  note less = True
  have cmp: "pfcmp x y < 0" using compares_iff[OF c] True by auto
  have d: "a \<noteq> q" "a \<notin> addrs l" "a \<notin> addrs r" "addrs l \<inter> addrs r = {}" "q \<notin> addrs l" "q \<notin> addrs r" "uniq l"
      "key x \<notin> keys key l"
    using q r by (auto simp: T)
  have n: "rep (btr_nodes h) (ins0 key x q l)" "rep (btr_nodes h) r" "a \<noteq> NULL" "btr_nodes h a = Some \<lparr>bn_pitem = y,
      bn_pleft = addr (ins0 key x q l), bn_pright = addr r, bn_balance = b\<rparr>"
    using r(1) True by (auto simp: T)
  obtain h1 where h1: "balance_loop pfcmp x (addr (ins0 key x q l)) q h = Some h1" "kept (addrs l) h h1"
      "rep (btr_nodes h1) (grow key x q l)"
    using balance_path[OF c q(1) n(1) d(7) d(5) d(8)] by blast
  have n1: "btr_nodes h1 a = btr_nodes h a" "rep (btr_nodes h1) r"
    using kept_at[OF h1(2)] kept_rep[OF h1(2), of r] d n by auto
  have g: "avl (grow key x q l)" "height (grow key x q l) = Suc (height l)" "uniq (grow key x q l)"
    using grow_height[of l key x q] r(2,4) calm True d addrs_grow by (auto simp: T uniq_grow)
  show ?thesis
  proof (cases "b = -1")
    case b: True
    have "l \<noteq> Leaf" using r(4) b height_pos_iff[of l] by (auto simp: T)
    then have lean: "root_bal (grow key x q l) \<noteq> 0" using grow_leans[of l key x q] by auto
    then obtain res where res: "(case btr_nodes h1 (addr (ins0 key x q l)) of Some n \<Rightarrow>
        Option.bind (if bn_balance n = -1 then avl_single (-1) a (addr (ins0 key x q l)) h1
            else avl_double (-1) a (addr (ins0 key x q l)) h1) (\<lambda>(pp, h). Some (True, pp, h)) | None \<Rightarrow> None) = Some res"
        "fixed a (rot_right (grow key x q l) a y r) h1 res"
      using avl_right_heavy[of h1 "grow key x q l" a y r, unfolded addr_grow] h1(3) n1 n d g r(2,4) b by (auto simp: T)
    have p: "pairs (rot_right (grow key x q l) a y r) = pairs (ins0 key x q l) @ (a, y) # pairs r"
      using rot_right_avl[of "grow key x q l" r a y] g r(4) b lean by (auto simp: T)
    then have "addrs (rot_right (grow key x q l) a y r) = addrs (Node (ins0 key x q l) (a, y, b) r)"
      by (intro addrs_pairs) simp
    then have "kept (addrs (rot_right (grow key x q l) a y r)) h h1"
      by (intro kept_mono[OF h1(2)]) auto
    note fx = fixed_later[OF this res(2)]
    obtain nr where nr: "btr_nodes h1 (addr (ins0 key x q l)) = Some nr"
      using res(1) by (cases "btr_nodes h1 (addr (ins0 key x q l))") auto
    have "fix_up pfcmp x q a h = Some res"
      using res(1) less b n n1 h1 cmp nr
      by (cases "bn_balance nr = - 1") (simp_all add: fix_up_def avl_balance_def Let_def)
    with fx less b show ?thesis by (auto simp: T)
  next
    case nb: False
    show ?thesis
      using less nb n n1 h1 cmp d
      by (auto simp: T fix_up_def avl_balance_def Let_def upd_node_def fixed_def kept_def)
  qed
next
  case False
  note less = False
  have cmp: "\<not> pfcmp x y < 0" using compares_iff[OF c] False by auto
  have d: "a \<noteq> q" "a \<notin> addrs l" "a \<notin> addrs r" "addrs l \<inter> addrs r = {}" "q \<notin> addrs l" "q \<notin> addrs r" "uniq r"
      "key x \<notin> keys key r"
    using q r by (auto simp: T)
  have n: "rep (btr_nodes h) (ins0 key x q r)" "rep (btr_nodes h) l" "a \<noteq> NULL" "btr_nodes h a = Some \<lparr>bn_pitem = y,
      bn_pleft = addr l, bn_pright = addr (ins0 key x q r), bn_balance = b\<rparr>"
    using r(1) False by (auto simp: T)
  obtain h1 where h1: "balance_loop pfcmp x (addr (ins0 key x q r)) q h = Some h1" "kept (addrs r) h h1"
      "rep (btr_nodes h1) (grow key x q r)"
    using balance_path[OF c q(1) n(1) d(7) d(6) d(8)] by blast
  have n1: "btr_nodes h1 a = btr_nodes h a" "rep (btr_nodes h1) l"
    using kept_at[OF h1(2)] kept_rep[OF h1(2), of l] d n by auto
  have g: "avl (grow key x q r)" "height (grow key x q r) = Suc (height r)" "uniq (grow key x q r)"
    using grow_height[of r key x q] r(2,4) calm False d addrs_grow by (auto simp: T uniq_grow)
  show ?thesis
  proof (cases "b = 1")
    case b: True
    have "r \<noteq> Leaf" using r(4) b height_pos_iff[of r] by (auto simp: T)
    then have lean: "root_bal (grow key x q r) \<noteq> 0" using grow_leans[of r key x q] by auto
    then obtain res where res: "(case btr_nodes h1 (addr (ins0 key x q r)) of Some n \<Rightarrow>
        Option.bind (if bn_balance n = 1 then avl_single 1 a (addr (ins0 key x q r)) h1
            else avl_double 1 a (addr (ins0 key x q r)) h1) (\<lambda>(pp, h). Some (True, pp, h)) | None \<Rightarrow> None) = Some res"
        "fixed a (rot_left l a y (grow key x q r)) h1 res"
      using avl_left_heavy[of h1 l a y "grow key x q r", unfolded addr_grow] h1(3) n1 n d g r(2,4) b by (auto simp: T)
    have p: "pairs (rot_left l a y (grow key x q r)) = pairs l @ (a, y) # pairs (ins0 key x q r)"
      using rot_left_avl[of l "grow key x q r" a y] g r(4) b lean by (auto simp: T)
    then have "addrs (rot_left l a y (grow key x q r)) = addrs (Node l (a, y, b) (ins0 key x q r))"
      by (intro addrs_pairs) simp
    then have "kept (addrs (rot_left l a y (grow key x q r))) h h1"
      by (intro kept_mono[OF h1(2)]) auto
    note fx = fixed_later[OF this res(2)]
    obtain nr where nr: "btr_nodes h1 (addr (ins0 key x q r)) = Some nr"
      using res(1) by (cases "btr_nodes h1 (addr (ins0 key x q r))") auto
    have "fix_up pfcmp x q a h = Some res"
      using res(1) less b n n1 h1 cmp nr
      by (cases "bn_balance nr = 1") (simp_all add: fix_up_def avl_balance_def Let_def)
    with fx less b show ?thesis by (auto simp: T)
  next
    case nb: False
    show ?thesis
      using less nb n n1 h1 cmp d
      by (auto simp: T fix_up_def avl_balance_def Let_def upd_node_def fixed_def kept_def)
  qed
qed

subsection \<open>Insertion\<close>

definition relink :: "ptr \<Rightarrow> ptr \<Rightarrow> ptr \<Rightarrow> btr_mem \<Rightarrow> btr_mem option" where
  "relink s pp pt h = Option.bind (btr_nodes h pt) (\<lambda>t. if s = bn_pright t then upd_node pt (\<lambda>n. n\<lparr>bn_pright := pp\<rparr>) h
     else upd_node pt (\<lambda>n. n\<lparr>bn_pleft := pp\<rparr>) h)"

text \<open>
  The subtree \<open>t\<close> after balancing at \<open>s\<close>: either \<open>s\<close> is its root, which the caller has to replace,
  or the parent of \<open>s\<close> is relinked inside \<open>t\<close> (to no effect when nothing was rotated).
\<close>

definition settled :: "(ptr \<Rightarrow> int) \<Rightarrow> ptr \<Rightarrow> ptr \<Rightarrow> ntree \<Rightarrow> btr_mem \<Rightarrow> ptr \<times> ptr \<Rightarrow> bool \<times> ptr \<times> btr_mem \<Rightarrow> bool" where
  "settled key x q t h st res = (case (st, res) of ((s, p), (rot, pp, h2)) \<Rightarrow>
     if s = addr t then fixed s (avl_ins key x q t) h res
     else \<exists>h3. relink s pp p h2 = Some h3 \<and> kept (insert q (addrs t)) h h3 \<and> rep (btr_nodes h3) (avl_ins key x q t) \<and>
       addr (avl_ins key x q t) = addr t \<and> (rot \<or> h3 = h2))"

lemma nodes_same: "btr_nodes h a = Some n \<Longrightarrow> h\<lparr>btr_nodes := (btr_nodes h)(a \<mapsto> n)\<rparr> = h"
  by (cases h) (simp add: fun_upd_idem)

lemma spot_cases: "uniq t \<Longrightarrow> spot key x t st = st \<or> fst (spot key x t st) \<in> addrs t - {addr t}"
proof (induction t arbitrary: st)
  case (Node l c r)
  obtain a y b where c: "c = (a, y, b)" by (cases c)
  let ?u = "if key x < key y then l else r"
  have u: "uniq ?u" "a \<notin> addrs ?u" using Node.prems by (auto simp: c)
  have "spot key x ?u st' = st' \<or> fst (spot key x ?u st') \<in> addrs ?u - {addr ?u}" for st'
    using Node.IH(1)[of st'] Node.IH(2)[of st'] u by (auto split: if_splits)
  from this[of "if root_bal ?u \<noteq> 0 then (addr ?u, a) else st"] show ?case
    using addr_leaning[of ?u] u(2) by (auto simp: c Let_def split: if_splits)
qed simp

lemma addrs_avl_ins: "avl t \<Longrightarrow> addrs (avl_ins key x q t) = insert q (addrs t)"
  using addrs_pairs[of "avl_ins key x q t" "ins0 key x q t"] avl_ins_avl[of t key x q] by simp

lemma settled_left:
  assumes st: "st = spot key x l (addr l, a)" and s: "settled key x q l h st res" and l: "l \<noteq> Leaf" "avl l"
    and less: "key x < key y" "\<not> calm key x l"
    and r: "rep (btr_nodes h) (ins0 key x q (Node l (a, y, b) r))" "uniq (Node l (a, y, b) r)" "q \<notin> addrs (Node l (a, y, b) r)"
  shows "settled key x q (Node l (a, y, b) r) h st res"
proof -
  obtain s p rot pp h2 where [simp]: "st = (s, p)" "res = (rot, pp, h2)" by (cases st, cases res) auto
  have n: "btr_nodes h a = Some \<lparr>bn_pitem = y, bn_pleft = addr l, bn_pright = addr r, bn_balance = b\<rparr>" "rep (btr_nodes h) r" "a \<noteq> NULL"
    using r(1) less l by (auto simp: addr_ins0)
  have d: "a \<notin> insert q (addrs l)" "addrs r \<inter> insert q (addrs l) = {}" using r by auto
  have "s \<in> addrs l" using spot_in[of key x l "(addr l, a)"] addr_in[OF l(1)] st[symmetric] by auto
  then have sa: "s \<noteq> a" using d by auto
  show ?thesis
  proof (cases "s = addr l")
    case True
    then have f: "pp = addr (avl_ins key x q l)" "rep (btr_nodes h2) (avl_ins key x q l)" "kept (insert q (addrs l)) h h2" "rot \<longleftrightarrow> pp \<noteq> s"
      using s l(2) by (auto simp: settled_def fixed_def addrs_avl_ins)
    have "p = a" using spot_cases[of l key x "(addr l, a)"] st[symmetric] True r(2) by auto
    have "addr r \<noteq> s"
      using \<open>s \<in> addrs l\<close> d addr_in[of r] addr_NULL[OF n(2)] rep_addrs[OF r(1), of s] less by (cases "r = Leaf") auto
    have n2: "btr_nodes h2 a = btr_nodes h a" "rep (btr_nodes h2) r"
      using kept_at[OF f(3)] kept_rep[OF f(3)] d n by auto
    let ?h3 = "h2\<lparr>btr_nodes := (btr_nodes h2)(a \<mapsto> \<lparr>bn_pitem = y, bn_pleft = pp, bn_pright = addr r, bn_balance = b\<rparr>)\<rparr>"
    have "relink s pp p h2 = Some ?h3"
      using n n2 \<open>p = a\<close> \<open>addr r \<noteq> s\<close> by (simp add: relink_def upd_node_def)
    moreover have "kept (insert q (addrs (Node l (a, y, b) r))) h ?h3"
      by (rule kept_trans[OF kept_mono[OF f(3)] kept_upd]) auto
    moreover have "rep (btr_nodes ?h3) (Node (avl_ins key x q l) (a, y, b) r)"
      using f n n2 d l r by (simp add: addrs_avl_ins)
    moreover have "rot \<or> ?h3 = h2"
      using f(4) n n2 True by (auto intro!: nodes_same)
    ultimately show ?thesis
      using less sa by (auto simp: settled_def)
  next
    case False
    then obtain h3 where h3: "relink s pp p h2 = Some h3" "kept (insert q (addrs l)) h h3" "rep (btr_nodes h3) (avl_ins key x q l)"
        "addr (avl_ins key x q l) = addr l" "rot \<or> h3 = h2"
      using s by (auto simp: settled_def)
    have "btr_nodes h3 a = btr_nodes h a" "rep (btr_nodes h3) r"
      using kept_at[OF h3(2)] kept_rep[OF h3(2)] d n by auto
    then have "rep (btr_nodes h3) (Node (avl_ins key x q l) (a, y, b) r)"
      using h3 n by simp
    moreover have "kept (insert q (addrs (Node l (a, y, b) r))) h h3"
      by (rule kept_mono[OF h3(2)]) auto
    ultimately show ?thesis
      using less sa h3 by (auto simp: settled_def)
  qed
qed

lemma settled_right:
  assumes st: "st = spot key x r (addr r, a)" and s: "settled key x q r h st res" and l: "r \<noteq> Leaf" "avl r"
    and less: "\<not> key x < key y" "\<not> calm key x r"
    and r: "rep (btr_nodes h) (ins0 key x q (Node l (a, y, b) r))" "uniq (Node l (a, y, b) r)" "q \<notin> addrs (Node l (a, y, b) r)"
  shows "settled key x q (Node l (a, y, b) r) h st res"
proof -
  obtain s p rot pp h2 where [simp]: "st = (s, p)" "res = (rot, pp, h2)" by (cases st, cases res) auto
  have n: "btr_nodes h a = Some \<lparr>bn_pitem = y, bn_pleft = addr l, bn_pright = addr r, bn_balance = b\<rparr>" "rep (btr_nodes h) l" "a \<noteq> NULL"
    using r(1) less l by (auto simp: addr_ins0)
  have d: "a \<notin> insert q (addrs r)" "addrs l \<inter> insert q (addrs r) = {}" using r by auto
  have "s \<in> addrs r" using spot_in[of key x r "(addr r, a)"] addr_in[OF l(1)] st[symmetric] by auto
  then have sa: "s \<noteq> a" using d by auto
  show ?thesis
  proof (cases "s = addr r")
    case True
    then have f: "pp = addr (avl_ins key x q r)" "rep (btr_nodes h2) (avl_ins key x q r)" "kept (insert q (addrs r)) h h2" "rot \<longleftrightarrow> pp \<noteq> s"
      using s l(2) by (auto simp: settled_def fixed_def addrs_avl_ins)
    have "p = a" using spot_cases[of r key x "(addr r, a)"] st[symmetric] True r(2) by auto
    have n2: "btr_nodes h2 a = btr_nodes h a" "rep (btr_nodes h2) l"
      using kept_at[OF f(3)] kept_rep[OF f(3)] d n by auto
    let ?h3 = "h2\<lparr>btr_nodes := (btr_nodes h2)(a \<mapsto> \<lparr>bn_pitem = y, bn_pleft = addr l, bn_pright = pp, bn_balance = b\<rparr>)\<rparr>"
    have "relink s pp p h2 = Some ?h3"
      using n n2 \<open>p = a\<close> True by (simp add: relink_def upd_node_def)
    moreover have "kept (insert q (addrs (Node l (a, y, b) r))) h ?h3"
      by (rule kept_trans[OF kept_mono[OF f(3)] kept_upd]) auto
    moreover have "rep (btr_nodes ?h3) (Node l (a, y, b) (avl_ins key x q r))"
      using f n n2 d l r by (simp add: addrs_avl_ins)
    moreover have "rot \<or> ?h3 = h2"
      using f(4) n n2 True by (auto intro!: nodes_same)
    ultimately show ?thesis
      using less sa by (auto simp: settled_def)
  next
    case False
    then obtain h3 where h3: "relink s pp p h2 = Some h3" "kept (insert q (addrs r)) h h3" "rep (btr_nodes h3) (avl_ins key x q r)"
        "addr (avl_ins key x q r) = addr r" "rot \<or> h3 = h2"
      using s by (auto simp: settled_def)
    have "btr_nodes h3 a = btr_nodes h a" "rep (btr_nodes h3) l"
      using kept_at[OF h3(2)] kept_rep[OF h3(2)] d n by auto
    then have "rep (btr_nodes h3) (Node l (a, y, b) (avl_ins key x q r))"
      using h3 n by simp
    moreover have "kept (insert q (addrs (Node l (a, y, b) r))) h h3"
      by (rule kept_mono[OF h3(2)]) auto
    ultimately show ?thesis
      using less sa h3 by (auto simp: settled_def)
  qed
qed

lemma fix_inside:
  assumes "compares pfcmp key" "q \<noteq> NULL"
  shows "t \<noteq> Leaf \<Longrightarrow> rep (btr_nodes h) (ins0 key x q t) \<Longrightarrow> uniq t \<Longrightarrow> q \<notin> addrs t \<Longrightarrow> key x \<notin> keys key t \<Longrightarrow> avl t \<Longrightarrow>
    \<exists>res. fix_up pfcmp x q (fst (spot key x t (addr t, p))) h = Some res \<and>
      settled key x q t h (spot key x t (addr t, p)) res"
proof (induction t arbitrary: p)
  case (Node l c r)
  obtain a y b where c: "c = (a, y, b)" by (cases c)
  let ?u = "if key x < key y then l else r"
  show ?case
  proof (cases "calm key x ?u")
    case True
    have "root_bal ?u = 0" using True by (cases ?u rule: addr.cases) auto
    then have st: "spot key x (Node l c r) (addr (Node l c r), p) = (a, p)"
      using spot_calm[OF True] by (auto simp: c Let_def)
    have "avl_ins key x q (Node l c r) = rebal key x q (Node l c r)" using True by (auto simp: c)
    then show ?thesis
      using fix_up_rebal[OF assms Node.prems(4), of l a y b r h x] Node.prems True st
      by (auto simp: c settled_def simp del: rebal.simps avl_ins.simps)
  next
    case False
    then have u: "?u \<noteq> Leaf" by auto
    have "spot key x ?u (a, p) = spot key x ?u (addr ?u, a)" if "root_bal ?u = 0"
      using spot_start[OF False that] .
    then have st: "spot key x (Node l c r) (addr (Node l c r), p) = spot key x ?u (addr ?u, a)"
      by (auto simp: c Let_def)
    show ?thesis
    proof (cases "key x < key y")
      case True
      obtain res where "fix_up pfcmp x q (fst (spot key x l (addr l, a))) h = Some res"
          "settled key x q l h (spot key x l (addr l, a)) res"
        using Node.IH(1)[of a] u Node.prems True by (auto simp: c)
      then show ?thesis
        using settled_left[of _ key x l a q h res y b r] st u False Node.prems True by (auto simp: c)
    next
      case ge: False
      obtain res where "fix_up pfcmp x q (fst (spot key x r (addr r, a))) h = Some res"
          "settled key x q r h (spot key x r (addr r, a)) res"
        using Node.IH(2)[of a] u Node.prems ge by (auto simp: c)
      then show ?thesis
        using settled_right[of _ key x r a q h res y l b] st u False Node.prems ge by (auto simp: c)
    qed
  qed
qed simp

text \<open>The tree a client keeps: well-formed in memory, ordered, balanced, and without empty nodes.\<close>

definition btr_inv :: "(ptr \<Rightarrow> int) \<Rightarrow> btr_mem \<Rightarrow> ntree \<Rightarrow> bool" where
  "btr_inv key h t \<longleftrightarrow> rep (btr_nodes h) t \<and> addr t = btr_root h \<and> uniq t \<and> ordered key t \<and> avl t \<and> NULL \<notin> snd ` set (pairs t)"

definition btr_items :: "ntree \<Rightarrow> ptr list" where "btr_items t = map snd (pairs t)"

lemma pairs_ins0: "ordered key t \<Longrightarrow> key x \<notin> keys key t \<Longrightarrow> pairs (ins0 key x q t) =
    filter (\<lambda>p. key (snd p) < key x) (pairs t) @ (q, x) # filter (\<lambda>p. key x < key (snd p)) (pairs t)"
proof (induction key x q t rule: ins0.induct)
  case (2 key x q l a y b r)
  have none: "filter (\<lambda>p. key (snd p) < key x) (pairs r) = []" "filter (\<lambda>p. key x < key (snd p)) (pairs r) = pairs r"
    if "key x < key y"
    using 2(3) that by (auto simp: filter_empty_conv filter_id_conv keys_def)
  have none': "filter (\<lambda>p. key x < key (snd p)) (pairs l) = []" "filter (\<lambda>p. key (snd p) < key x) (pairs l) = pairs l"
    if "key y < key x"
    using 2(3) that by (auto simp: filter_empty_conv filter_id_conv keys_def)
  show ?case
    using 2 none none' by (cases "key x < key y") auto
qed simp

lemma ins0_inv:
  assumes "ordered key t" "uniq t" "key x \<notin> keys key t" "q \<notin> addrs t"
  shows "ordered key (ins0 key x q t)" "uniq (ins0 key x q t)"
proof -
  have k: "keys key (ins0 key x q u) = insert (key x) (keys key u)" for u
    by (induction u) (auto split: if_splits)
  show "ordered key (ins0 key x q t)"
    using assms(1,3) by (induction t) (auto simp: k)
  show "uniq (ins0 key x q t)"
    using assms(2,4) by (induction t) auto
qed

lemma btr_inv_avl_ins:
  assumes "btr_inv key h t" "key x \<notin> keys key t" "q \<notin> addrs t" "x \<noteq> NULL"
    "rep (btr_nodes h') (avl_ins key x q t)" "btr_root h' = addr (avl_ins key x q t)"
  shows "btr_inv key h' (avl_ins key x q t) \<and> btr_items (avl_ins key x q t) =
    filter (\<lambda>y. key y < key x) (btr_items t) @ x # filter (\<lambda>y. key x < key y) (btr_items t)"
proof -
  have i: "rep (btr_nodes h) t" "uniq t" "ordered key t" "avl t" "NULL \<notin> snd ` set (pairs t)"
    using assms(1) by (auto simp: btr_inv_def)
  have p: "pairs (avl_ins key x q t) = pairs (ins0 key x q t)" "avl (avl_ins key x q t)"
    using avl_ins_avl[OF i(4), of key x q] by auto
  note o = ins0_inv[OF i(3,2) assms(2,3)] pairs_ins0[OF i(3) assms(2), of q]
  have "ordered key (avl_ins key x q t)" "uniq (avl_ins key x q t)"
    using o(1,2) by (simp_all add: ordered_def uniq_def p)
  moreover have "NULL \<notin> snd ` set (pairs (avl_ins key x q t))" using i(5) assms(4) by (auto simp: p o(3))
  moreover have "btr_items (avl_ins key x q t) =
      filter (\<lambda>y. key y < key x) (btr_items t) @ x # filter (\<lambda>y. key x < key y) (btr_items t)"
    by (simp add: btr_items_def p o(3) filter_map comp_def)
  ultimately show ?thesis
    using assms p by (auto simp: btr_inv_def)
qed

lemma btr_avl_unfold:
  assumes "pitem \<noteq> NULL" "btr_nodes h (btr_root h) = Some n" "btr_root h \<noteq> NULL" "bn_pitem n \<noteq> NULL"
    "avl_insert pfcmp pitem (btr_root h) h = Some (Inserted pq ps pt, h1)" "fix_up pfcmp pitem pq ps h1 = Some (rot, pp, h2)"
  shows "btr_avl pfcmp pitem h = (if \<not> rot then Some (pitem, h2)
    else if ps = btr_root h2 then Some (pitem, h2\<lparr>btr_root := pp\<rparr>)
    else map_option (\<lambda>h. (pitem, h)) (relink ps pp pt h2))"
proof -
  obtain rt pr f h' where b: "avl_balance pfcmp pitem pq ps h1 = Some ((rt, pr, f), h')"
    using assms(6) by (auto simp: fix_up_def split: bind_splits)
  show ?thesis
  proof (cases "rt = AVL_DONE")
    case True
    then show ?thesis using assms b by (simp add: btr_avl_def fix_up_def)
  next
    case False
    then have r: "(if rt = AVL_SINGLE then avl_single f ps pr h' else avl_double f ps pr h') = Some (pp, h2)" "rot"
      using assms(6) b by (auto simp: fix_up_def split: bind_splits)
    have "btr_avl pfcmp pitem h = (if ps = btr_root h2 then Some (pitem, h2\<lparr>btr_root := pp\<rparr>)
        else Option.bind (btr_nodes h2 pt) (\<lambda>t. Option.bind (if ps = bn_pright t
          then upd_node pt (\<lambda>n. n\<lparr>bn_pright := pp\<rparr>) h2 else upd_node pt (\<lambda>n. n\<lparr>bn_pleft := pp\<rparr>) h2)
          (\<lambda>h. Some (pitem, h))))"
      using assms(1-5) b False r(1) by (cases rt) (simp_all add: btr_avl_def)
    then show ?thesis
      using r(2) by (cases "btr_nodes h2 pt") (auto simp: relink_def upd_node_def)
  qed
qed

text \<open>
  C6: \<open>btr_avl\<close> refines the insertion into a sorted set: from a well-formed, ordered and balanced
  tree it never faults and always returns, and either finds the item with the same key and changes
  nothing, or reports that no node could be allocated and changes nothing, or returns the new item and
  leaves a well-formed, ordered and balanced tree of the old items and the new one in order; the
  rotations lose and duplicate no node, and no other memory changes.
\<close>

theorem btr_avl_refines:
  assumes "compares pfcmp key" "btr_inv key h t" "t \<noteq> Leaf" "pitem \<noteq> NULL"
  shows "\<exists>ret h' t'. btr_avl pfcmp pitem h = Some (ret, h') \<and> btr_inv key h' t' \<and> live_items h' = live_items h \<and>
    (\<forall>p. btr_nodes h p \<noteq> None \<and> p \<notin> addrs t \<longrightarrow> btr_nodes h' p = btr_nodes h p) \<and>
    (if key pitem \<in> key ` set (btr_items t) then ret \<in> set (btr_items t) \<and> key ret = key pitem \<and> t' = t
     else if fst (btr_inst_node pitem h) = NULL then ret = NULL \<and> t' = t
     else ret = pitem \<and> btr_items t' =
       filter (\<lambda>y. key y < key pitem) (btr_items t) @ pitem # filter (\<lambda>y. key pitem < key y) (btr_items t))"
proof -
  have i: "rep (btr_nodes h) t" "addr t = btr_root h" "uniq t" "ordered key t" "avl t" "NULL \<notin> snd ` set (pairs t)"
    using assms(2) by (auto simp: btr_inv_def)
  obtain n where n: "btr_nodes h (btr_root h) = Some n" "btr_root h \<noteq> NULL" "bn_pitem n \<noteq> NULL"
    using i assms(3) by (cases t rule: addr.cases) auto
  have keys: "key ` set (btr_items t) = keys key t" by (simp add: btr_items_def keys_def image_comp)
  obtain q h1 where q: "btr_inst_node pitem h = (q, h1)" by fastforce
  obtain r h2 where w: "avl_insert pfcmp pitem (btr_root h) h = Some (r, h2)"
      "walked key pitem t (addr t, addr t) h (r, h2)"
    using insert_walk[OF assms(1,3) i(1,4,3), of pitem "(addr t, addr t)"] i(2) by (auto simp: avl_insert_def)
  consider "key pitem \<in> keys key t" | "key pitem \<notin> keys key t" "q = NULL" | "key pitem \<notin> keys key t" "q \<noteq> NULL" by blast
  then show ?thesis
  proof cases
    case 1
    then obtain p y where f: "h2 = h" "r = Found p" "(p, y) \<in> set (pairs t)" "key y = key pitem"
      using w(2) by (auto simp: walked_def q)
    have "\<exists>n. m p = Some n \<and> bn_pitem n = y" if "rep m u" "(p, y) \<in> set (pairs u)" for m u
      using that by (induction u rule: rep.induct) auto
    from this[OF i(1) f(3)] obtain m where "btr_nodes h p = Some m" "bn_pitem m = y" by blast
    then have "btr_avl pfcmp pitem h = Some (y, h)"
      using assms(4) n w(1) f by (simp add: btr_avl_def)
    then show ?thesis
      using 1 f(3,4) assms(2) keys by (intro exI[of _ y] exI[of _ h] exI[of _ t]) (force simp: btr_items_def)
  next
    case 2
    then have "btr_avl pfcmp pitem h = Some (NULL, h1)"
      using assms(4) n w by (auto simp: btr_avl_def walked_def q)
    moreover have "btr_nodes h1 = btr_nodes h" "btr_root h1 = btr_root h" "live_items h1 = live_items h"
      using q 2 by (auto simp: btr_inst_node_def split: list.splits if_splits)
    ultimately show ?thesis
      using 2 assms(2) keys by (intro exI[of _ NULL] exI[of _ h1] exI[of _ t]) (auto simp: btr_inv_def q)
  next
    case 3
    let ?st = "spot key pitem t (addr t, addr t)" and ?t = "avl_ins key pitem q t"
    note new = inst_node[OF q 3(2)] inst_node_new[OF q 3(2) i(1)]
    have h2: "r = Inserted q (fst ?st) (snd ?st)" "kept (addrs t) h1 h2" "rep (btr_nodes h2) (ins0 key pitem q t)"
      using 3 w(2) by (auto simp: walked_def q)
    obtain rot pp h3 where h3: "fix_up pfcmp pitem q (fst ?st) h2 = Some (rot, pp, h3)" "settled key pitem q t h2 ?st (rot, pp, h3)"
      using fix_inside[OF assms(1) 3(2) assms(3) h2(3) i(3) new(2) 3(1) i(5), of "addr t"] by (metis prod_cases3)
    note u = btr_avl_unfold[OF assms(4) n w(1)[unfolded h2(1)] h3(1)]
    have "\<exists>h'. btr_avl pfcmp pitem h = Some (pitem, h') \<and> rep (btr_nodes h') ?t \<and> btr_root h' = addr ?t \<and> live_items h' = live_items h2 \<and>
        (\<forall>p. p \<notin> insert q (addrs t) \<longrightarrow> btr_nodes h' p = btr_nodes h2 p)"
    proof (cases "fst ?st = addr t")
      case True
      then have f: "fixed (addr t) ?t h2 (rot, pp, h3)"
        using h3(2) by (auto simp: settled_def split: prod.splits)
      then have "btr_root h3 = addr t" using i(2) h2(2) new by (auto simp: fixed_def kept_def)
      then show ?thesis
        using u True f by (auto simp: fixed_def kept_def addrs_avl_ins[OF i(5)])
    next
      case False
      then obtain h4 where h4: "relink (fst ?st) pp (snd ?st) h3 = Some h4" "kept (insert q (addrs t)) h2 h4" "rep (btr_nodes h4) ?t"
          "addr ?t = addr t" "rot \<or> h4 = h3"
        using h3(2) by (auto simp: settled_def split: prod.splits)
      have "btr_root h4 = btr_root h3"
        using h4(1) by (auto simp: relink_def upd_node_def split: bind_splits if_splits)
      moreover have "btr_root h4 = addr t" using h4(2) i(2) h2(2) new by (auto simp: kept_def)
      ultimately have "btr_avl pfcmp pitem h = Some (pitem, h4)"
        using u False h4(1,5) by (cases rot) auto
      then show ?thesis
        using h4 \<open>btr_root h4 = addr t\<close> by (auto simp: kept_def)
    qed
    then obtain h' where h': "btr_avl pfcmp pitem h = Some (pitem, h')" "rep (btr_nodes h') ?t" "btr_root h' = addr ?t" "live_items h' = live_items h2"
        "\<And>p. p \<notin> insert q (addrs t) \<Longrightarrow> btr_nodes h' p = btr_nodes h2 p" by blast
    have "btr_nodes h' p = btr_nodes h p" if "btr_nodes h p \<noteq> None" "p \<notin> addrs t" for p
    proof -
      have "p \<noteq> q" using that(1) new(1) by auto
      then show ?thesis using h'(5)[of p] kept_at[OF h2(2), of p] new(1) that(2) by auto
    qed
    moreover have "live_items h' = live_items h" using h'(4) h2(2) new(1) by (auto simp: kept_def)
    ultimately show ?thesis
      using h'(1) 3 keys q btr_inv_avl_ins[OF assms(2) 3(1) new(2) assms(4) h'(2,3)]
      by (intro exI[of _ pitem] exI[of _ h'] exI[of _ ?t]) auto
  qed
qed

subsection \<open>A concrete tree\<close>

definition cmp1 :: comparison where "cmp1 x y = int x - int y"

definition mem1 :: btr_mem where
  "mem1 = \<lparr>btr_nodes = [100 \<mapsto> \<lparr>bn_pitem = 5, bn_pleft = NULL, bn_pright = 101, bn_balance = 1\<rparr>,
      101 \<mapsto> \<lparr>bn_pitem = 7, bn_pleft = NULL, bn_pright = NULL, bn_balance = 0\<rparr>],
    btr_root = 100, live_items = {5, 7, 9}, btr_avail = [102]\<rparr>"

definition tree1 :: ntree where "tree1 = Node Leaf (100, 5, 1) (Node Leaf (101, 7, 0) Leaf)"

lemma compares1: "compares cmp1 int"
  by (simp add: compares_def cmp1_def)

lemma inv1: "btr_inv int mem1 tree1" "tree1 \<noteq> Leaf" "btr_items tree1 = [5, 7]"
  by (simp_all add: btr_inv_def mem1_def tree1_def btr_items_def)

text \<open>Inserting 9 rotates: 7 becomes the root.\<close>

lemma btr_avl_tree1: "btr_avl cmp1 9 mem1 = Some (9, mem1\<lparr>btr_nodes := [100 \<mapsto> \<lparr>bn_pitem = 5, bn_pleft = NULL,
      bn_pright = NULL, bn_balance = 0\<rparr>, 101 \<mapsto> \<lparr>bn_pitem = 7, bn_pleft = 100, bn_pright = 102, bn_balance = 0\<rparr>,
      102 \<mapsto> \<lparr>bn_pitem = 9, bn_pleft = NULL, bn_pright = NULL, bn_balance = 0\<rparr>], btr_root := 101, btr_avail := []\<rparr>)"
  by (simp add: btr_avl_def avl_insert_def avl_insert_loop.simps avl_balance_def balance_loop.simps avl_single_def LINK_def
      upd_node_def btr_inst_node_def mem1_def cmp1_def fun_upd_twist)

theorem btr_avl_refines_witness:
  "\<exists>h' t'. btr_avl cmp1 9 mem1 = Some (9, h') \<and> btr_inv int h' t' \<and> btr_items t' = [5, 7, 9]"
proof -
  have "int 9 \<notin> int ` set (btr_items tree1)" "fst (btr_inst_node 9 mem1) = 102"
    by (simp_all add: inv1 btr_inst_node_def mem1_def)
  then show ?thesis
    using btr_avl_refines[OF compares1 inv1(1,2), of 9] by (auto simp: inv1)
qed

end
