(* ===== verification/SysBtrUse.thy ===== *)
theory SysBtrUse
  imports SysBtrProps
begin

text \<open>
  The other operations of path/local/sys_btr.c on the trees that \<open>btr_avl\<close> keeps: the search, the
  traversal, the insertion without balancing and the destruction.
\<close>

subsection \<open>Search\<close>


text \<open>The item a search returns, \<open>NULL\<close> when there is none.\<close>

definition found :: "(ptr \<Rightarrow> int) \<Rightarrow> ntree \<Rightarrow> int \<Rightarrow> ptr \<Rightarrow> bool" where
  "found key t k y \<longleftrightarrow> (if k \<in> keys key t then y \<in> set (btr_items t) \<and> key y = k else y = NULL)"

lemma btr_find_tree:
  assumes "compares pfcmp key" "x \<noteq> NULL"
  shows "rep (btr_nodes h) t \<Longrightarrow> ordered key t \<Longrightarrow> NULL \<notin> snd ` set (pairs t) \<Longrightarrow> read_place pl h = Some (addr t) \<Longrightarrow>
    \<exists>y. btr_find pfcmp x pl h = Some y \<and> found key t (key x) y"
proof (induction t arbitrary: pl)
  case Leaf
  then show ?case using assms by (subst btr_find.simps) (simp add: found_def)
next
  case (Node l c r)
  obtain a y b where c: "c = (a, y, b)" by (cases c)
  have n: "btr_nodes h a = Some \<lparr>bn_pitem = y, bn_pleft = addr l, bn_pright = addr r, bn_balance = b\<rparr>" "a \<noteq> NULL" "y \<noteq> NULL"
      "read_place pl h = Some a"
    using Node.prems by (auto simp: c)
  consider "key x = key y" | "key x < key y" | "key y < key x" by linarith
  then show ?case
  proof cases
    case 1
    then show ?thesis
      using n assms(2) compares_iff(2)[OF assms(1), of x y]
      by (subst btr_find.simps) (auto simp: c found_def btr_items_def)
  next
    case 2
    then obtain z where "btr_find pfcmp x (LeftOf a) h = Some z" "found key l (key x) z"
      using Node.IH(1)[of "LeftOf a"] Node.prems n by (auto simp: c)
    moreover have "key x \<notin> keys key r" using Node.prems(2) 2 by (auto simp: c)
    ultimately show ?thesis
      using n assms(2) 2 compares_iff(1,2)[OF assms(1), of x y]
      by (subst btr_find.simps) (auto simp: c found_def btr_items_def)
  next
    case 3
    then obtain z where "btr_find pfcmp x (RightOf a) h = Some z" "found key r (key x) z"
      using Node.IH(2)[of "RightOf a"] Node.prems n by (auto simp: c)
    moreover have "key x \<notin> keys key l" using Node.prems(2) 3 by (auto simp: c)
    ultimately show ?thesis
      using n assms(2) 3 compares_iff(1,2)[OF assms(1), of x y]
      by (subst btr_find.simps) (auto simp: c found_def btr_items_def)
  qed
qed

lemma found_unique: "ordered key t \<Longrightarrow> found key t k y \<Longrightarrow> found key t k z \<Longrightarrow> y = z"
proof -
  assume o: "ordered key t" and f: "found key t k y" "found key t k z"
  have "inj_on key (set (btr_items t))"
    using o by (auto simp: ordered_def btr_items_def comp_def inj_on_def strict_sorted_iff distinct_map
        simp flip: map_map dest!: strict_sorted_iff[THEN iffD1])
  with f show ?thesis by (auto simp: found_def inj_on_def split: if_splits)
qed

lemma btr_find_root: "compares pfcmp key \<Longrightarrow> x \<noteq> NULL \<Longrightarrow> btr_inv key h t \<Longrightarrow>
    \<exists>y. btr_find pfcmp x Root h = Some y \<and> found key t (key x) y"
  by (rule btr_find_tree) (auto simp: btr_inv_def)

text \<open>
  C35: \<open>btr_find\<close> after \<open>btr_avl\<close>: the search for the key of the item returns what the insertion
  returned, and every other search has the result it had before, whatever rotations took place.
\<close>

theorem btr_find_after_avl:
  assumes "compares pfcmp key" "btr_inv key h t" "t \<noteq> Leaf" "pitem \<noteq> NULL" "btr_avl pfcmp pitem h = Some (ret, h')" "ret \<noteq> NULL"
    "x \<noteq> NULL"
  shows "btr_find pfcmp x Root h' = (if key x = key pitem then Some ret else btr_find pfcmp x Root h)"
proof -
  obtain t' where t': "btr_inv key h' t'" "if key pitem \<in> key ` set (btr_items t)
      then ret \<in> set (btr_items t) \<and> key ret = key pitem \<and> t' = t
      else ret = pitem \<and> btr_items t' =
        filter (\<lambda>y. key y < key pitem) (btr_items t) @ pitem # filter (\<lambda>y. key pitem < key y) (btr_items t)"
    using btr_avl_refines[OF assms(1-4)] assms(5,6) by (auto split: if_splits)
  have k: "keys key u = key ` set (btr_items u)" for u by (simp add: btr_items_def keys_def image_comp)
  obtain y where y: "btr_find pfcmp x Root h = Some y" "found key t (key x) y"
    using btr_find_root[OF assms(1,7,2)] by blast
  obtain z where z: "btr_find pfcmp x Root h' = Some z" "found key t' (key x) z"
    using btr_find_root[OF assms(1,7) t'(1)] by blast
  have "found key t' (key x) (if key x = key pitem then ret else y)"
    using t'(2) y(2) by (auto simp: found_def k split: if_splits)
  then have "z = (if key x = key pitem then ret else y)"
    using found_unique[of key t'] t'(1) z(2) by (auto simp: btr_inv_def)
  then show ?thesis using y z by simp
qed

lemma find5: "btr_find cmp1 5 Root mem1 = Some 5"
  by (simp add: btr_find.simps mem1_def cmp1_def)

theorem btr_find_after_avl_witness:
  "\<exists>h'. btr_avl cmp1 9 mem1 = Some (9, h') \<and> btr_find cmp1 9 Root h' = Some 9 \<and> btr_find cmp1 5 Root h' = Some 5"
proof -
  obtain h' where h: "btr_avl cmp1 9 mem1 = Some (9, h')" using btr_avl_tree1 by blast
  show ?thesis
    using btr_find_after_avl[OF compares1 inv1(1,2) _ h, of 9] btr_find_after_avl[OF compares1 inv1(1,2) _ h, of 5] h
    by (simp add: find5)
qed

subsection \<open>Traversal\<close>

text \<open>Every level of a balanced tree is at most twice the logarithm of the number of items.\<close>

lemma avl_size: "avl t \<Longrightarrow> 2 ^ (height t div 2) \<le> size t + 1"
proof (induction t)
  case (Node l c r)
  obtain a y b where c: "c = (a, y, b)" by (cases c)
  have i: "2 ^ (height l div 2) \<le> size l + 1" "2 ^ (height r div 2) \<le> size r + 1"
    using Node by (auto simp: c)
  let ?m = "min (height l) (height r)"
  have h: "height (Node l c r) \<le> ?m + 2" "?m \<le> height l" "?m \<le> height r"
    using Node.prems by (auto simp: c)
  have "(2::nat) ^ (height (Node l c r) div 2) \<le> 2 ^ Suc (?m div 2)"
    using h(1) by (intro power_increasing) auto
  also have "\<dots> \<le> 2 ^ (height l div 2) + 2 ^ (height r div 2)"
  proof -
    have "(2::nat) ^ (?m div 2) \<le> 2 ^ (height l div 2)" by (intro power_increasing div_le_mono) simp_all
    moreover have "(2::nat) ^ (?m div 2) \<le> 2 ^ (height r div 2)" by (intro power_increasing div_le_mono) simp_all
    ultimately show ?thesis unfolding power_Suc mult_2 by (rule add_mono)
  qed
  also have "\<dots> \<le> size (Node l c r) + 1" using i by simp
  finally show ?case .
qed simp

fun visits :: "ntree \<Rightarrow> int \<Rightarrow> (ptr \<times> btr_visit \<times> int) list" where
  "visits Leaf lv = []"
| "visits (Node l (a, x, b) r) lv = (x, BTR_PREORDER, lv) # visits l (lv + 1) @
     (x, if l = Leaf \<and> r = Leaf then BTR_LEAF else BTR_INORDER, lv) # visits r (lv + 1) @ [(x, BTR_POSTORDER, lv)]"

lemma depth_left_visits: "rep (btr_nodes h) t \<Longrightarrow> NULL \<notin> snd ` set (pairs t) \<Longrightarrow> btr_depth_left (addr t) lv h = Some (visits t lv)"
proof (induction t arbitrary: lv)
  case Leaf
  then show ?case by (subst btr_depth_left.simps) simp
next
  case (Node l c r)
  obtain a y b where c: "c = (a, y, b)" by (cases c)
  have "addr l = NULL \<longleftrightarrow> l = Leaf" "addr r = NULL \<longleftrightarrow> r = Leaf"
    using Node.prems by (auto simp: c addr_NULL)
  then show ?case
    using Node by (subst btr_depth_left.simps) (auto simp: c image_Un)
qed

lemma visits_order: "map fst (filter (\<lambda>(x, v, lv). v = BTR_INORDER \<or> v = BTR_LEAF) (visits t lv)) = btr_items t"
  by (induction t lv rule: visits.induct) (auto simp: btr_items_def)

lemma visits_level: "(x, v, k) \<in> set (visits t lv) \<Longrightarrow> lv \<le> k \<and> k < lv + int (height t)"
  by (induction t lv rule: visits.induct) fastforce+

lemma length_items: "length (btr_items t) = size t"
  by (induction t) (auto simp: btr_items_def)

text \<open>
  \<open>btr_walk\<close> of a balanced tree ends and visits the items in the order of their keys, each
  once between the visits of its two subtrees, and no level it reports is deeper than twice the
  logarithm of the number of items.
\<close>

theorem btr_walk_in_order:
  assumes "btr_inv key h t"
  shows "\<exists>vs. btr_walk (btr_root h) h = Some vs \<and>
    (let xs = map fst (filter (\<lambda>(x, v, lv). v = BTR_INORDER \<or> v = BTR_LEAF) vs) in
      xs = btr_items t \<and> sorted_wrt (<) (map key xs) \<and>
      list_all (\<lambda>(x, v, lv). 0 \<le> lv \<and> 2 ^ ((nat lv + 1) div 2) \<le> length xs + 1) vs)"
proof -
  have i: "rep (btr_nodes h) t" "addr t = btr_root h" "ordered key t" "avl t" "NULL \<notin> snd ` set (pairs t)"
    using assms by (auto simp: btr_inv_def)
  have "0 \<le> lv \<and> 2 ^ ((nat lv + 1) div 2) \<le> size t + 1" if "(x, v, lv) \<in> set (visits t 0)" for x v lv
  proof -
    have lv: "0 \<le> lv" "nat lv + 1 \<le> height t" using visits_level[OF that] by auto
    have "(2::nat) ^ ((nat lv + 1) div 2) \<le> 2 ^ (height t div 2)"
      using lv(2) by (intro power_increasing div_le_mono) auto
    with avl_size[OF i(4)] lv(1) show ?thesis by linarith
  qed
  then have "list_all (\<lambda>(x, v, lv). 0 \<le> lv \<and> 2 ^ ((nat lv + 1) div 2) \<le> length (btr_items t) + 1) (visits t 0)"
    by (auto simp: list_all_iff length_items)
  moreover have "sorted_wrt (<) (map key (btr_items t))"
    using i(3) by (simp add: ordered_def btr_items_def)
  moreover have "btr_walk (btr_root h) h = Some (visits t 0)"
    using depth_left_visits[OF i(1,5), of 0] i(2) by (simp add: btr_walk_def)
  ultimately show ?thesis
    by (intro exI[of _ "visits t 0"]) (simp only: Let_def visits_order)
qed

theorem btr_walk_in_order_witness:
  "\<exists>vs. btr_walk 100 mem1 = Some vs \<and> map fst (filter (\<lambda>(x, v, lv). v = BTR_INORDER \<or> v = BTR_LEAF) vs) = [5, 7]"
  using btr_walk_in_order[OF inv1(1)] by (auto simp: inv1(3) mem1_def Let_def)

subsection \<open>Destruction\<close>

fun post :: "ntree \<Rightarrow> ptr list" where
  "post Leaf = []" | "post (Node l (a, x, b) r) = post l @ post r @ [x]"

definition cleared :: "ntree \<Rightarrow> btr_mem \<Rightarrow> btr_mem" where
  "cleared t h = h\<lparr>btr_nodes := btr_nodes h |` (- addrs t), live_items := live_items h - set (btr_items t)\<rparr>"

lemma set_post: "set (post t) = set (btr_items t)"
  by (induction t rule: post.induct) (auto simp: btr_items_def)

fun outside :: "place \<Rightarrow> ptr set \<Rightarrow> bool" where
  "outside Root A = True" | "outside (LeftOf p) A = (p \<notin> A)" | "outside (RightOf p) A = (p \<notin> A)"

text \<open>The nodes and the items of the subtree are freed and the place that held it is \<open>NULL\<close>.\<close>

lemma destroy_tree:
  "rep (btr_nodes h) t \<Longrightarrow> uniq t \<Longrightarrow> distinct (btr_items t) \<Longrightarrow> NULL \<notin> set (btr_items t) \<Longrightarrow> set (btr_items t) \<subseteq> live_items h \<Longrightarrow>
    read_place pl h = Some (addr t) \<Longrightarrow> outside pl (addrs t) \<Longrightarrow> t \<noteq> Leaf \<Longrightarrow>
    \<exists>h'. btr_destroy pl h = Some (post t, h') \<and> write_place pl NULL (cleared t h) = Some h'"
proof (induction t arbitrary: pl h)
  case (Node l c r)
  obtain a y b where c: "c = (a, y, b)" by (cases c)
  have n: "btr_nodes h a = Some \<lparr>bn_pitem = y, bn_pleft = addr l, bn_pright = addr r, bn_balance = b\<rparr>" "a \<noteq> NULL" "y \<noteq> NULL"
      "rep (btr_nodes h) l" "rep (btr_nodes h) r" "a \<notin> addrs l" "a \<notin> addrs r" "addrs l \<inter> addrs r = {}" "uniq l" "uniq r"
      "y \<notin> set (btr_items l)" "y \<notin> set (btr_items r)" "set (btr_items l) \<inter> set (btr_items r) = {}" "y \<in> live_items h"
    using Node.prems by (auto simp: c btr_items_def)
  define h1 where "h1 = (if l = Leaf then h else (cleared l h)\<lparr>btr_nodes := (btr_nodes h |` (- addrs l))(a \<mapsto>
      \<lparr>bn_pitem = y, bn_pleft = NULL, bn_pright = addr r, bn_balance = b\<rparr>)\<rparr>)"
  have l: "(if addr l \<noteq> NULL then btr_destroy (LeftOf a) h else Some ([], h)) = Some (post l, h1)"
  proof (cases "l = Leaf")
    case False
    then have "\<exists>h'. btr_destroy (LeftOf a) h = Some (post l, h') \<and> write_place (LeftOf a) NULL (cleared l h) = Some h'"
      using Node.IH(1)[of h "LeftOf a"] Node.prems n by (auto simp: c btr_items_def)
    moreover have "addr l \<noteq> NULL" using False n addr_NULL by blast
    ultimately show ?thesis using False n by (auto simp: h1_def cleared_def upd_node_def)
  qed (simp add: h1_def)
  have n1: "btr_nodes h1 a = Some \<lparr>bn_pitem = y, bn_pleft = NULL, bn_pright = addr r, bn_balance = b\<rparr>"
      "\<And>p. p \<noteq> a \<Longrightarrow> btr_nodes h1 p = (btr_nodes h |` (- addrs l)) p" "live_items h1 = live_items h - set (btr_items l)"
      "btr_root h1 = btr_root h" "btr_avail h1 = btr_avail h"
    using n(1) by (auto simp: h1_def cleared_def btr_items_def)
  have r1: "rep (btr_nodes h1) r"
  proof -
    have "btr_nodes h1 p = btr_nodes h p" if "p \<in> addrs r" for p
    proof -
      have "p \<noteq> a" "p \<notin> addrs l" using that n(7,8) by auto
      then show ?thesis by (simp add: n1(2))
    qed
    from rep_frame[OF this] n(5) show ?thesis by simp
  qed
  define h2 where "h2 = (if r = Leaf then h1 else (cleared r h1)\<lparr>btr_nodes := (btr_nodes h1 |` (- addrs r))(a \<mapsto>
      \<lparr>bn_pitem = y, bn_pleft = NULL, bn_pright = NULL, bn_balance = b\<rparr>)\<rparr>)"
  have r: "(if addr r \<noteq> NULL then btr_destroy (RightOf a) h1 else Some ([], h1)) = Some (post r, h2)"
  proof (cases "r = Leaf")
    case False
    have "set (btr_items r) \<subseteq> live_items h1" using Node.prems(5) n(13) by (auto simp: n1 c btr_items_def)
    then have "\<exists>h'. btr_destroy (RightOf a) h1 = Some (post r, h') \<and> write_place (RightOf a) NULL (cleared r h1) = Some h'"
      using Node.IH(2)[of h1 "RightOf a"] Node.prems n n1(1) r1 False by (auto simp: c btr_items_def)
    moreover have "addr r \<noteq> NULL" using False n addr_NULL by blast
    ultimately show ?thesis using False n n1(1) by (auto simp: h2_def cleared_def upd_node_def)
  qed (simp add: h2_def)
  have n2: "btr_nodes h2 a = Some \<lparr>bn_pitem = y, bn_pleft = NULL, bn_pright = NULL, bn_balance = b\<rparr>"
      "\<And>p. p \<noteq> a \<Longrightarrow> btr_nodes h2 p = (btr_nodes h1 |` (- addrs r)) p" "live_items h2 = live_items h1 - set (btr_items r)"
      "btr_root h2 = btr_root h1" "btr_avail h2 = btr_avail h1"
    using n1(1) by (auto simp: h2_def cleared_def btr_items_def)
  have "y \<in> live_items h2" using n(11,12,14) by (simp add: n1 n2)
  moreover have "h2\<lparr>live_items := live_items h2 - {y}, btr_nodes := (btr_nodes h2)(a := None)\<rparr> = cleared (Node l c r) h"
  proof -
    have "(btr_nodes h2)(a := None) = btr_nodes h |` (- addrs (Node l c r))"
    proof
      fix p show "((btr_nodes h2)(a := None)) p = (btr_nodes h |` (- addrs (Node l c r))) p"
        by (cases "p = a") (auto simp: c n1 n2 restrict_map_def)
    qed
    moreover have "live_items h2 - {y} = live_items h - set (btr_items (Node l c r))"
      by (auto simp: n1 n2 c btr_items_def)
    ultimately show ?thesis
      by (cases h2, cases h) (use n1 n2 in \<open>auto simp: cleared_def\<close>)
  qed
  moreover have "\<exists>h'. write_place pl NULL (cleared (Node l c r) h) = Some h'"
    using Node.prems(6,7) by (cases pl) (auto simp: cleared_def upd_node_def c)
  ultimately show ?case
    using l r n n1(1) n2(1) Node.prems(6)
    by (subst btr_destroy.simps) (auto simp: c free_item_def free_node_def upd_node_def)
qed simp

text \<open>
  C36: \<open>btr_destroy\<close> of a tree whose items are allocated ends without a fault: it calls the client's
  function once for every item, frees every item and every node of the tree exactly once, sets the
  root to \<open>NULL\<close> and leaves the rest of memory as it was.
\<close>

theorem btr_destroy_frees_all:
  assumes "btr_inv key h t" "set (btr_items t) \<subseteq> live_items h"
  shows "\<exists>xs h'. btr_destroy Root h = Some (xs, h') \<and> distinct xs \<and> set xs = set (btr_items t) \<and> btr_root h' = NULL \<and>
    btr_nodes h' = btr_nodes h |` (- addrs t) \<and> live_items h' = live_items h - set (btr_items t)"
proof (cases "t = Leaf")
  case True
  then show ?thesis
    using assms by (subst btr_destroy.simps) (auto simp: btr_inv_def btr_items_def restrict_map_def)
next
  case False
  have i: "rep (btr_nodes h) t" "addr t = btr_root h" "uniq t" "ordered key t" "NULL \<notin> set (btr_items t)"
    using assms(1) by (auto simp: btr_inv_def btr_items_def)
  have "distinct (btr_items t)"
    using i(4) by (auto simp: ordered_def btr_items_def distinct_map strict_sorted_iff comp_def inj_on_def
        dest!: strict_sorted_iff[THEN iffD1])
  moreover from this have "distinct (post t)"
    by (induction t rule: post.induct) (auto simp: btr_items_def set_post)
  ultimately show ?thesis
    using destroy_tree[OF i(1,3) _ i(5) assms(2), of Root] i(2) False
    by (auto simp: set_post cleared_def)
qed

theorem btr_destroy_frees_all_witness:
  "\<exists>xs h'. btr_destroy Root mem1 = Some (xs, h') \<and> set xs = {5, 7} \<and> btr_nodes h' 100 = None \<and> btr_nodes h' 101 = None \<and> live_items h' = {9}"
proof -
  have "set (btr_items tree1) \<subseteq> live_items mem1" by (simp add: inv1 mem1_def)
  from btr_destroy_frees_all[OF inv1(1) this] show ?thesis
    by (auto simp: inv1 mem1_def tree1_def btr_items_def)
qed

subsection \<open>Insertion without balancing\<close>

definition btr_added :: "(ptr \<Rightarrow> int) \<Rightarrow> ptr \<Rightarrow> ntree \<Rightarrow> place \<Rightarrow> btr_mem \<Rightarrow> ptr \<times> btr_mem \<Rightarrow> bool" where
  "btr_added key x t pl h res = (case res of (ret, h') \<Rightarrow> case btr_inst_node x h of (q, h1) \<Rightarrow>
     if key x \<in> keys key t then h' = h \<and> found key t (key x) ret
     else if t = Leaf then write_place pl q h1 = Some h' \<and> ret = (if q = NULL then NULL else x)
     else if q = NULL then ret = NULL \<and> btr_nodes h' = btr_nodes h \<and> btr_root h' = btr_root h \<and> live_items h' = live_items h
     else ret = x \<and> kept (addrs t) h1 h' \<and> rep (btr_nodes h') (ins0 key x q t))"

lemma btr_add_tree:
  assumes "compares pfcmp key" "x \<noteq> NULL"
  shows "rep (btr_nodes h) t \<Longrightarrow> ordered key t \<Longrightarrow> uniq t \<Longrightarrow> NULL \<notin> snd ` set (pairs t) \<Longrightarrow> read_place pl h = Some (addr t) \<Longrightarrow>
    \<exists>res. btr_add pfcmp x pl h = Some res \<and> btr_added key x t pl h res"
proof (induction t arbitrary: pl)
  case Leaf
  obtain q h1 where q: "btr_inst_node x h = (q, h1)" by fastforce
  have "\<exists>h'. write_place pl q h1 = Some h'"
    using Leaf.prems(5) q by (cases pl) (auto simp: btr_inst_node_def upd_node_def split: list.splits if_splits)
  then show ?case
    using Leaf.prems assms by (subst btr_add.simps) (auto simp: btr_added_def q)
next
  case (Node l c r)
  obtain a y b where c: "c = (a, y, b)" by (cases c)
  obtain q h1 where q: "btr_inst_node x h = (q, h1)" by fastforce
  have n: "btr_nodes h a = Some \<lparr>bn_pitem = y, bn_pleft = addr l, bn_pright = addr r, bn_balance = b\<rparr>" "a \<noteq> NULL" "y \<noteq> NULL"
      "read_place pl h = Some a" "rep (btr_nodes h) l" "rep (btr_nodes h) r" "a \<notin> addrs l" "a \<notin> addrs r" "addrs l \<inter> addrs r = {}"
    using Node.prems by (auto simp: c)
  have none: "q = NULL \<Longrightarrow> btr_nodes h1 = btr_nodes h \<and> btr_root h1 = btr_root h \<and> live_items h1 = live_items h"
    using q by (auto simp: btr_inst_node_def split: list.splits if_splits)
  note new = inst_node[OF q] inst_node_new[OF q _ Node.prems(1)]
  note cmp = compares_iff(1,2)[OF assms(1), of x y]
  consider "key x = key y" | "key x < key y" | "key y < key x" by linarith
  then show ?case
  proof cases
    case 1
    then show ?thesis
      using n assms(2) cmp by (subst btr_add.simps) (auto simp: c btr_added_def found_def btr_items_def split: prod.splits)
  next
    case 2
    then obtain rt h' where res: "btr_add pfcmp x (LeftOf a) h = Some (rt, h')" "btr_added key x l (LeftOf a) h (rt, h')"
      using Node.IH(1)[of "LeftOf a"] Node.prems n by (auto simp: c)
    have nr: "key x \<notin> keys key r" using Node.prems(2) 2 by (auto simp: c)
    have "btr_added key x (Node l c r) pl h (rt, h')"
    proof (cases "key x \<in> keys key l")
      case True
      with res(2) nr show ?thesis by (auto simp: c btr_added_def q found_def btr_items_def)
    next
      case False
      show ?thesis
      proof (cases "l = Leaf")
        case leaf: True
        have w: "write_place (LeftOf a) q h1 = Some h'" "rt = (if q = NULL then NULL else x)"
          using res(2) False leaf by (auto simp: btr_added_def q)
        show ?thesis
        proof (cases "q = NULL")
          case True
          have e: "btr_nodes h1 = btr_nodes h" "btr_root h1 = btr_root h" "live_items h1 = live_items h" using none[OF True] by simp_all
          have "h' = h1\<lparr>btr_nodes := (btr_nodes h)(a \<mapsto> \<lparr>bn_pitem = y, bn_pleft = NULL, bn_pright = addr r, bn_balance = b\<rparr>)\<rparr>"
            using w(1) n(1) True leaf by (simp add: upd_node_def e)
          moreover have "(btr_nodes h)(a \<mapsto> \<lparr>bn_pitem = y, bn_pleft = NULL, bn_pright = addr r, bn_balance = b\<rparr>) = btr_nodes h"
            using n(1) leaf by (intro fun_upd_idem) simp
          ultimately have "btr_nodes h' = btr_nodes h" "btr_root h' = btr_root h" "live_items h' = live_items h" by (simp_all add: e)
          then show ?thesis
            using True False leaf nr 2 w by (simp add: c btr_added_def q)
        next
          case q0: False
          then have "h' = h1\<lparr>btr_nodes := (btr_nodes h1)(a \<mapsto> \<lparr>bn_pitem = y, bn_pleft = q, bn_pright = addr r, bn_balance = b\<rparr>)\<rparr>"
            using w n(1) new leaf by (auto simp: upd_node_def c)
          then show ?thesis
            using q0 False leaf nr 2 w n new by (auto simp: c btr_added_def q kept_def)
        qed
      next
        case nl: False
        show ?thesis
        proof (cases "q = NULL")
          case q0: False
          then have k: "kept (addrs l) h1 h'" "rep (btr_nodes h') (ins0 key x q l)" "rt = x"
            using res(2) False nl by (auto simp: btr_added_def q)
          have "btr_nodes h' a = btr_nodes h a" "rep (btr_nodes h') r = rep (btr_nodes h1) r"
            using kept_at[OF k(1) n(7)] kept_rep[OF k(1), of r] n(9) new q0 by (auto simp: c)
          moreover have "kept (addrs (Node l c r)) h1 h'" by (rule kept_mono[OF k(1)]) (auto simp: c)
          ultimately show ?thesis
            using q0 False nl nr k n new 2 by (auto simp: c btr_added_def q addr_ins0)
        qed (use res(2) False nl nr 2 in \<open>auto simp: c btr_added_def q\<close>)
      qed
    qed
    moreover have "btr_add pfcmp x pl h = Some (rt, h')"
      using n assms(2) 2 cmp res(1) by (subst btr_add.simps) auto
    ultimately show ?thesis by blast
  next
    case 3
    then obtain rt h' where res: "btr_add pfcmp x (RightOf a) h = Some (rt, h')" "btr_added key x r (RightOf a) h (rt, h')"
      using Node.IH(2)[of "RightOf a"] Node.prems n by (auto simp: c)
    have nr: "key x \<notin> keys key l" using Node.prems(2) 3 by (auto simp: c)
    have "btr_added key x (Node l c r) pl h (rt, h')"
    proof (cases "key x \<in> keys key r")
      case True
      with res(2) nr show ?thesis by (auto simp: c btr_added_def q found_def btr_items_def)
    next
      case False
      show ?thesis
      proof (cases "r = Leaf")
        case leaf: True
        have w: "write_place (RightOf a) q h1 = Some h'" "rt = (if q = NULL then NULL else x)"
          using res(2) False leaf by (auto simp: btr_added_def q)
        show ?thesis
        proof (cases "q = NULL")
          case True
          have e: "btr_nodes h1 = btr_nodes h" "btr_root h1 = btr_root h" "live_items h1 = live_items h" using none[OF True] by simp_all
          have "h' = h1\<lparr>btr_nodes := (btr_nodes h)(a \<mapsto> \<lparr>bn_pitem = y, bn_pleft = addr l, bn_pright = NULL, bn_balance = b\<rparr>)\<rparr>"
            using w(1) n(1) True leaf by (simp add: upd_node_def e)
          moreover have "(btr_nodes h)(a \<mapsto> \<lparr>bn_pitem = y, bn_pleft = addr l, bn_pright = NULL, bn_balance = b\<rparr>) = btr_nodes h"
            using n(1) leaf by (intro fun_upd_idem) simp
          ultimately have "btr_nodes h' = btr_nodes h" "btr_root h' = btr_root h" "live_items h' = live_items h" by (simp_all add: e)
          then show ?thesis
            using True False leaf nr 3 w by (simp add: c btr_added_def q)
        next
          case q0: False
          then have "h' = h1\<lparr>btr_nodes := (btr_nodes h1)(a \<mapsto> \<lparr>bn_pitem = y, bn_pleft = addr l, bn_pright = q, bn_balance = b\<rparr>)\<rparr>"
            using w n(1) new leaf by (auto simp: upd_node_def c)
          then show ?thesis
            using q0 False leaf nr 3 w n new by (auto simp: c btr_added_def q kept_def)
        qed
      next
        case nl: False
        show ?thesis
        proof (cases "q = NULL")
          case q0: False
          then have k: "kept (addrs r) h1 h'" "rep (btr_nodes h') (ins0 key x q r)" "rt = x"
            using res(2) False nl by (auto simp: btr_added_def q)
          have "btr_nodes h' a = btr_nodes h a" "rep (btr_nodes h') l = rep (btr_nodes h1) l"
            using kept_at[OF k(1) n(8)] kept_rep[OF k(1), of l] n(9) new q0 by (auto simp: c)
          moreover have "kept (addrs (Node l c r)) h1 h'" by (rule kept_mono[OF k(1)]) (auto simp: c)
          ultimately show ?thesis
            using q0 False nl nr k n new 3 by (auto simp: c btr_added_def q addr_ins0)
        qed (use res(2) False nl nr 3 in \<open>auto simp: c btr_added_def q\<close>)
      qed
    qed
    moreover have "btr_add pfcmp x pl h = Some (rt, h')"
      using n assms(2) 3 cmp res(1) by (subst btr_add.simps) auto
    ultimately show ?thesis by blast
  qed
qed

text \<open>\<open>btr_avl\<close> cannot start a tree: an empty root pointer stays empty.\<close>

lemma btr_avl_empty: "btr_root h = NULL \<Longrightarrow> btr_avl pfcmp pitem h = Some (NULL, h)"
  by (simp add: btr_avl_def)

end
