(* ===== verification/SysStr.thy ===== *)
theory SysStr
  imports Timestamp
begin

text \<open>
  path/local/sys_str.c: the string routines, and the parts of \<open>sprintf\<close> and \<open>sscanf\<close> that the time
  routines use.  A string is the list of its characters before the terminator; the routines work
  in place, so the result is the new contents.  \<open>END_OF_STRING\<close> never occurs in such a list, and
  \<open>None\<close> is an access outside the string.
\<close>

abbreviation (input) END_OF_STRING :: char where "END_OF_STRING \<equiv> CHR 0x00"

definition c_string :: "string \<Rightarrow> bool" where "c_string s \<longleftrightarrow> END_OF_STRING \<notin> set s"

subsection \<open>Editing\<close>

text \<open>
  The loops run while \<open>*pstring != ch\<close> and characters are left.  The terminator itself matches
  \<open>ch = END_OF_STRING\<close>; \<open>str_delchr_aft\<close> then writes behind it.
\<close>

fun str_delchr_aft :: "string \<Rightarrow> char \<Rightarrow> string option" where
  "str_delchr_aft [] ch = (if ch = END_OF_STRING then None else Some [])"
| "str_delchr_aft (c # cs) ch = (if c \<noteq> ch then map_option ((#) c) (str_delchr_aft cs ch) else Some [c])"

fun bef_pos :: "string \<Rightarrow> char \<Rightarrow> string option" where
  "bef_pos [] ch = (if ch = END_OF_STRING then Some [] else None)"
| "bef_pos (c # cs) ch = (if c \<noteq> ch then bef_pos cs ch else Some (c # cs))"

definition str_delchr_bef :: "string \<Rightarrow> char \<Rightarrow> string" where
  "str_delchr_bef s ch = (case bef_pos s ch of Some s' \<Rightarrow> s' | None \<Rightarrow> s)"

fun str_delchr :: "string \<Rightarrow> char \<Rightarrow> bool \<times> string" where
  "str_delchr [] ch = (False, [])"
| "str_delchr (c # cs) ch = (if c = ch then (True, cs)
     else case str_delchr cs ch of (b, cs') \<Rightarrow> (b, c # cs'))"

lemma str_delchr_shorter [termination_simp]: "str_delchr s ch = (True, s') \<Longrightarrow> length s' < length s"
  by (induction s ch arbitrary: s' rule: str_delchr.induct) (auto split: if_splits prod.splits)

text \<open>\<open>str_delchr_all\<close>: \<open>count\<close> counts the calls, the last one (which finds nothing) included.\<close>

function delchr_calls :: "string \<Rightarrow> char \<Rightarrow> int \<Rightarrow> int \<times> string" where
  "delchr_calls s ch count = (let count' = count + 1 in
     case str_delchr s ch of (True, s') \<Rightarrow> delchr_calls s' ch count' | (False, s') \<Rightarrow> (count', s'))"
  by pat_completeness auto
termination
  by (relation "measure (\<lambda>(s, _, _). length s)") (auto dest: str_delchr_shorter[OF sym])

declare delchr_calls.simps [simp del]

definition str_delchr_all :: "string \<Rightarrow> char \<Rightarrow> int \<times> string" where
  "str_delchr_all s ch = (case delchr_calls s ch 0 of (count, s') \<Rightarrow> (count - 1, s'))"

fun repchr_loop :: "string \<Rightarrow> char \<Rightarrow> char \<Rightarrow> int \<Rightarrow> int \<Rightarrow> int \<Rightarrow> int \<times> string" where
  "repchr_loop [] new old len cnt repl = (repl, [])"
| "repchr_loop (c # cs) new old len cnt repl = (if cnt < len then
       (if c = old then case repchr_loop cs new old len (cnt + 1) (repl + 1) of (r, s) \<Rightarrow> (r, new # s)
        else case repchr_loop cs new old len (cnt + 1) repl of (r, s) \<Rightarrow> (r, c # s))
     else (repl, c # cs))"

definition str_repchr_all :: "string \<Rightarrow> char \<Rightarrow> char \<Rightarrow> int \<Rightarrow> int \<times> string" where
  "str_repchr_all s new old len = repchr_loop s new old len 0 0"

text \<open>\<open>str_index\<close>: the offset of the result.  An empty \<open>psub_string\<close> starts with its terminator.\<close>

definition first_char :: "string \<Rightarrow> char" where
  "first_char s = (case s of [] \<Rightarrow> END_OF_STRING | c # _ \<Rightarrow> c)"

fun index_loop :: "string \<Rightarrow> string \<Rightarrow> nat \<Rightarrow> nat option" where
  "index_loop [] sub i = None"
| "index_loop (c # cs) sub i = (if c = first_char sub \<and> take (length sub) (c # cs) = sub then Some i
     else index_loop cs sub (i + 1))"

definition str_index :: "string \<Rightarrow> string \<Rightarrow> nat option" where
  "str_index s sub = index_loop s sub 0"

text \<open>
  \<open>str_copy\<close> compares \<open>strlen(s2)\<close> with \<open>max_len\<close> as unsigned values, so a negative length is a
  large one; with length 0 it writes in front of the destination.
\<close>

definition str_copy :: "string \<Rightarrow> int \<Rightarrow> string option" where
  "str_copy s2 max_len = (if max_len < 0 \<or> int (length s2) < max_len then Some s2
     else if max_len = 0 then None else Some (take (nat (max_len - 1)) s2))"

subsection \<open>Numbers in strings\<close>

fun dec_digits :: "nat \<Rightarrow> string" where
  "dec_digits n = (if n < 10 then [digit_char (int n)] else dec_digits (n div 10) @ [digit_char (int (n mod 10))])"

declare dec_digits.simps [simp del]

text \<open>\<open>%02d\<close> pads with zeros behind the sign, \<open>%2d\<close> with spaces in front of it.\<close>

definition fill :: "char \<Rightarrow> nat \<Rightarrow> string \<Rightarrow> string" where
  "fill c w s = replicate (w - length s) c @ s"

definition fmt02d :: "int \<Rightarrow> string" where
  "fmt02d x = (if x < 0 then CHR ''-'' # fill (CHR ''0'') 1 (dec_digits (nat (- x))) else fill (CHR ''0'') 2 (dec_digits (nat x)))"

definition fmt2d :: "int \<Rightarrow> string" where
  "fmt2d x = fill (CHR '' '') 2 (if x < 0 then CHR ''-'' # dec_digits (nat (- x)) else dec_digits (nat x))"

text \<open>
  One \<open>%2d\<close> of \<open>sscanf\<close>: leading white space, then at most two characters, of which the first may be
  a sign and at least one must be a digit.
\<close>

definition isspace :: "char \<Rightarrow> bool" where
  "isspace c \<longleftrightarrow> c = CHR '' '' \<or> (9 \<le> (of_char c :: nat) \<and> (of_char c :: nat) \<le> 13)"

definition scan2d :: "string \<Rightarrow> (int \<times> string) option" where
  "scan2d s = (let s1 = dropWhile isspace s;
       sign = (s1 \<noteq> [] \<and> (hd s1 = CHR ''-'' \<or> hd s1 = CHR ''+''));
       neg = (s1 \<noteq> [] \<and> hd s1 = CHR ''-'');
       s2 = (if sign then tl s1 else s1);
       ds = takeWhile isdigit (take (if sign then 1 else 2) s2)
     in if ds = [] then None
        else Some ((if neg then - atoi_digits ds 0 else atoi_digits ds 0), drop (length ds) s2))"

text \<open>
  \<open>sscanf\<close> with a format of \<open>%2d\<close> directives, each after a literal text: the values converted
  before the first mismatch (their number is the result of the call).
\<close>

fun scan_ints :: "string list \<Rightarrow> string \<Rightarrow> int list" where
  "scan_ints [] s = []"
| "scan_ints (lit # fs) s = (if take (length lit) s \<noteq> lit then []
     else case scan2d (drop (length lit) s) of None \<Rightarrow> [] | Some (v, s') \<Rightarrow> v # scan_ints fs s')"

abbreviation (input) JULTIME_FMT :: "string list" where "JULTIME_FMT \<equiv> [[], [], []]"
abbreviation (input) MILTIME_FMT :: "string list" where "MILTIME_FMT \<equiv> [[], '':'', '':'']"

subsection \<open>What the routines do\<close>

lemma str_delchr_aft_cut: "c_string s \<Longrightarrow> ch \<noteq> END_OF_STRING \<Longrightarrow>
    str_delchr_aft s ch = Some (takeWhile (\<lambda>c. c \<noteq> ch) s @ (if ch \<in> set s then [ch] else []))"
  by (induction s ch rule: str_delchr_aft.induct) (auto simp: c_string_def)

lemma bef_pos_cut: "ch \<noteq> END_OF_STRING \<Longrightarrow>
    bef_pos s ch = (if ch \<in> set s then Some (dropWhile (\<lambda>c. c \<noteq> ch) s) else None)"
  by (induction s ch rule: bef_pos.induct) auto

lemma str_delchr_bef_cut: "ch \<noteq> END_OF_STRING \<Longrightarrow>
    str_delchr_bef s ch = (if ch \<in> set s then dropWhile (\<lambda>c. c \<noteq> ch) s else s)"
  by (simp add: str_delchr_bef_def bef_pos_cut)

lemma str_delchr_remove: "str_delchr s ch = (ch \<in> set s, remove1 ch s)"
  by (induction s ch rule: str_delchr.induct) auto

lemma remove1_filter: "x \<in> set xs \<Longrightarrow> filter (\<lambda>c. c \<noteq> x) (remove1 x xs) = filter (\<lambda>c. c \<noteq> x) xs"
  by (induction xs) auto

lemma count_remove1: "x \<in> set xs \<Longrightarrow> count_list xs x = Suc (count_list (remove1 x xs) x)"
  by (induction xs) auto

lemma delchr_calls_all:
  "delchr_calls s ch n = (n + 1 + int (count_list s ch), filter (\<lambda>c. c \<noteq> ch) s)"
proof (induction "length s" arbitrary: s n rule: less_induct)
  case less
  show ?case
  proof (cases "ch \<in> set s")
    case True
    then have "length (remove1 ch s) < length s"
      using length_pos_if_in_set[of ch s] by (simp add: length_remove1)
    note IH = less[OF this, of "n + 1"]
    have "delchr_calls s ch n = delchr_calls (remove1 ch s) ch (n + 1)"
      by (simp add: delchr_calls.simps[of s] str_delchr_remove True)
    also have "\<dots> = (n + 2 + int (count_list (remove1 ch s) ch), filter (\<lambda>c. c \<noteq> ch) (remove1 ch s))"
      by (simp add: IH)
    also have "\<dots> = (n + 1 + int (count_list s ch), filter (\<lambda>c. c \<noteq> ch) s)"
      by (simp only: count_remove1[OF True] remove1_filter[OF True]) simp
    finally show ?thesis .
  next
    case False
    then have "filter (\<lambda>c. c \<noteq> ch) s = s" "remove1 ch s = s" "count_list s ch = 0"
      by (auto simp: filter_id_conv remove1_idem count_list_0_iff)
    with False show ?thesis
      by (simp add: delchr_calls.simps[of s] str_delchr_remove)
  qed
qed

lemma str_delchr_all_filters: "str_delchr_all s ch = (int (count_list s ch), filter (\<lambda>c. c \<noteq> ch) s)"
  by (simp add: str_delchr_all_def delchr_calls_all)

lemma index_loop_shift: "index_loop s sub i = map_option ((+) i) (index_loop s sub 0)"
proof (induction s arbitrary: i)
  case (Cons c s)
  show ?case
    using Cons[of "Suc i"] Cons[of "Suc 0"] by (auto simp: option.map_comp comp_def)
qed simp

lemma find_map: "find P (map f xs) = map_option f (find (P \<circ> f) xs)"
  by (induction xs) auto

lemma take_first: "sub \<noteq> [] \<Longrightarrow> take (length sub) (c # cs) = sub \<Longrightarrow> c = first_char sub"
  by (cases sub) (auto simp: first_char_def)

lemma str_index_finds: "sub \<noteq> [] \<Longrightarrow>
    str_index s sub = find (\<lambda>i. take (length sub) (drop i s) = sub) [0..<length s]"
proof (induction s)
  case (Cons c s)
  have "[0..<length (c # s)] = 0 # map Suc [0..<length s]"
    using upt_conv_Cons[of 0 "length (c # s)"] by (simp only: map_Suc_upt) simp
  moreover have "str_index (c # s) sub = (if take (length sub) (c # s) = sub then Some 0
      else map_option ((+) (Suc 0)) (str_index s sub))"
  proof (cases "c = first_char sub \<and> take (length sub) (c # s) = sub")
    case False
    then have "take (length sub) (c # s) \<noteq> sub"
      using take_first[OF Cons.prems] by auto
    then show ?thesis
      using False index_loop_shift[of s sub "Suc 0"] by (simp only: str_index_def index_loop.simps) simp
  next
    case True
    then show ?thesis by (auto simp: str_index_def)
  qed
  ultimately show ?case
    using Cons by (auto simp: find_map comp_def simp del: upt_Suc intro!: option.map_cong0)
qed (simp add: str_index_def)

end
