(* ===== verification/SysTime.thy ===== *)
theory SysTime
  imports SysStr
begin

text \<open>
  path/local/sys_time.c: the four forms of a time and the conversions between them.  The system
  time is a \<open>long\<close> of 4 bytes (sys_time.h) that counts tenths of a second since the beginning of
  1989; the new and the old form are structures of \<open>unsigned char\<close> fields; the compound form is a
  pair of strings YYMMDD and HH:MM:SS.  What \<open>time\<close> and \<open>localtime\<close> report is the argument
  \<open>now\<close>, \<open>None\<close> where \<open>time\<close> fails.
\<close>

abbreviation (input) ERROR_LONG :: int where "ERROR_LONG \<equiv> -1"
abbreviation (input) TENTHS_SEC_PER_SEC :: int where "TENTHS_SEC_PER_SEC \<equiv> 10"
abbreviation (input) TENTHS_SEC_PER_MIN :: int where "TENTHS_SEC_PER_MIN \<equiv> 600"
abbreviation (input) TENTHS_SEC_PER_HR :: int where "TENTHS_SEC_PER_HR \<equiv> 36000"
abbreviation (input) TENTHS_SEC_PER_DAY :: int where "TENTHS_SEC_PER_DAY \<equiv> 864000"
abbreviation (input) SYS_TIME_MIN_YEAR :: int where "SYS_TIME_MIN_YEAR \<equiv> 89"
abbreviation (input) SYS_TIME_MAX_YEAR :: int where "SYS_TIME_MAX_YEAR \<equiv> 95"
abbreviation (input) MAX_SYS_TIME :: int where "MAX_SYS_TIME \<equiv> 2485 * 864000"

definition to_long :: "int \<Rightarrow> int" where "to_long x = sint (word_of_int x :: 32 word)"
definition to_uchar :: "int \<Rightarrow> int" where "to_uchar x = x mod 256"

record tms_time = tms_day :: int
  tms_hour :: int
  tms_minute :: int
  tms_sec :: int

record new_time = nt_year :: int
  nt_month :: int
  nt_day :: int
  nt_hour :: int
  nt_minute :: int
  nt_sec :: int
  nt_tenths :: int

text \<open>The fields of the broken-down time of the C library that the code uses.\<close>

record tm = tm_sec :: int
  tm_min :: int
  tm_hour :: int
  tm_mday :: int
  tm_mon :: int
  tm_year :: int
  tm_wday :: int
  tm_yday :: int

definition elapsed_days :: "int list" where
  "elapsed_days = [365, 730, 1095, 1461, 1826, 2191, 0]"

definition calendar :: "int list" where
  "calendar =
    [31, 28, 31, 30, 31, 30, 31, 31, 30, 31, 30, 31,
     31, 28, 31, 30, 31, 30, 31, 31, 30, 31, 30, 31,
     31, 28, 31, 30, 31, 30, 31, 31, 30, 31, 30, 31,
     31, 29, 31, 30, 31, 30, 31, 31, 30, 31, 30, 31,
     31, 28, 31, 30, 31, 30, 31, 31, 30, 31, 30, 31,
     31, 28, 31, 30, 31, 30, 31, 31, 30, 31, 30, 31,
     31, 28, 31, 30, 31, 30, 31, 31, 30, 31, 30, 31,
     0]"

subsection \<open>System time\<close>

text \<open>The \<open>while\<close> loop of \<open>get_sys_time\<close> moves along the table of elapsed days; \<open>None\<close>: its error.\<close>

fun elapsed_loop :: "int \<Rightarrow> int list \<Rightarrow> int option" where
  "elapsed_loop cal_year [] = None"
| "elapsed_loop cal_year (d # ds) = (if cal_year - 1 \<noteq> SYS_TIME_MIN_YEAR then
       (case ds of [] \<Rightarrow> None | e # _ \<Rightarrow> if e = 0 then None else elapsed_loop (cal_year - 1) ds)
     else Some d)"

definition get_sys_time :: "tm option \<Rightarrow> int" where
  "get_sys_time now = (case now of None \<Rightarrow> ERROR_LONG | Some ptime \<Rightarrow>
     let cal_sec = tm_sec ptime * TENTHS_SEC_PER_SEC; cal_min = tm_min ptime * TENTHS_SEC_PER_MIN;
         cal_hour = tm_hour ptime * TENTHS_SEC_PER_HR; cal_day = tm_yday ptime * TENTHS_SEC_PER_DAY;
         cal_year = tm_year ptime; total = cal_sec + cal_min + cal_hour + cal_day
     in if cal_year < SYS_TIME_MIN_YEAR then ERROR_LONG
        else if cal_year > SYS_TIME_MAX_YEAR then ERROR_LONG
        else if cal_year > SYS_TIME_MIN_YEAR then
          (case elapsed_loop cal_year elapsed_days of None \<Rightarrow> ERROR_LONG
           | Some days_since_89 \<Rightarrow>
               let total' = to_long (total + days_since_89 * TENTHS_SEC_PER_DAY)
               in if total' \<ge> MAX_SYS_TIME \<or> total' < 0 then ERROR_LONG else total')
        else total)"

definition diff_sys_time :: "int \<Rightarrow> int \<Rightarrow> int option" where
  "diff_sys_time end_time start_time =
     (if end_time < 0 \<or> start_time < 0 then None else Some (end_time - start_time))"

definition cmp_sys_time :: "int \<Rightarrow> int \<Rightarrow> int" where
  "cmp_sys_time t1 t2 = (if t1 = t2 then 0 else if t2 < t1 then 1 else -1)"

text \<open>
  A sum that overflows a \<open>long\<close> is negative there and too large here, so the check refuses it
  in both readings; what the error leaves in \<open>*padjusted_time\<close> is not used by the callers.
\<close>

definition inc_sys_time :: "int \<Rightarrow> int \<Rightarrow> int option" where
  "inc_sys_time time delta_time = (if time < 0 \<or> time = ERROR_LONG then None
     else let adjusted_time = time + delta_time in
       if adjusted_time < 0 \<or> adjusted_time > MAX_SYS_TIME then None else Some adjusted_time)"

text \<open>
  The two loops of \<open>sys_time_from_midnight\<close>; a result is the running total that is kept (the
  previous one), \<open>None\<close> the error return.
\<close>

fun month_loop :: "int \<Rightarrow> int \<Rightarrow> int \<Rightarrow> int list \<Rightarrow> int option" where
  "month_loop now running_total last_total [] = None"
| "month_loop now running_total last_total (m # pmonths) = (if running_total \<le> now then
       (case inc_sys_time running_total (m * TENTHS_SEC_PER_DAY) of
          None \<Rightarrow> Some running_total
        | Some r \<Rightarrow> (case pmonths of [] \<Rightarrow> None | m' # _ \<Rightarrow> if m' = 0 then None
            else month_loop now r running_total pmonths))
     else Some last_total)"

function day_loop :: "int \<Rightarrow> int \<Rightarrow> int \<Rightarrow> int" where
  "day_loop now running_total last_total = (if running_total \<le> now then
       (case inc_sys_time running_total TENTHS_SEC_PER_DAY of
          None \<Rightarrow> running_total
        | Some r \<Rightarrow> day_loop now r running_total)
     else last_total)"
  by pat_completeness auto
termination
  by (relation "measure (\<lambda>(now, running_total, _). nat (now + 1 - running_total))")
    (auto simp: inc_sys_time_def Let_def split: if_splits)

declare day_loop.simps [simp del]

definition sys_time_from_midnight :: "int \<Rightarrow> int" where
  "sys_time_from_midnight now = (if now = ERROR_LONG \<or> now < 0 then ERROR_LONG
     else case (if 31 * TENTHS_SEC_PER_DAY \<le> now then month_loop now 0 0 calendar else Some 0) of
         None \<Rightarrow> ERROR_LONG
       | Some running_total \<Rightarrow>
           let running_total = (if TENTHS_SEC_PER_DAY \<le> now then day_loop now running_total running_total else running_total)
           in (case diff_sys_time now running_total of None \<Rightarrow> ERROR_LONG
               | Some tenths_since_midnight \<Rightarrow> tenths_since_midnight))"

fun interval_loop :: "int \<Rightarrow> int list \<Rightarrow> int \<Rightarrow> int" where
  "interval_loop current_time [] array_index = array_index"
| "interval_loop current_time (a # as) array_index =
     (if cmp_sys_time current_time a \<le> 0 then array_index else interval_loop current_time as (array_index + 1))"

text \<open>\<open>parray\<close> has \<open>n_items\<close> elements; the result \<open>ERROR\<close> is -1.\<close>

definition sys_time_interval :: "int \<Rightarrow> int list \<Rightarrow> int" where
  "sys_time_interval now parray = (if now = ERROR_LONG \<or> now < 0 then -1
     else let current_time = sys_time_from_midnight now in
       if current_time = ERROR_LONG then -1
       else let array_index = interval_loop current_time parray 0 in
         if array_index = int (length parray) then -1 else array_index)"

subsection \<open>Conversions\<close>

text \<open>The search for the day of the month: \<open>None\<close> when the table ends.\<close>

fun tms_loop :: "int \<Rightarrow> int list \<Rightarrow> int option" where
  "tms_loop calc_day [] = None"
| "tms_loop calc_day (p # pcalendar) = (if calc_day > p then
       (if p = 0 then None else tms_loop (calc_day - p) pcalendar) else Some calc_day)"

definition sys2tms_time :: "int \<Rightarrow> tms_time \<Rightarrow> bool \<times> tms_time" where
  "sys2tms_time time ptms = (if time < 0 \<or> time = ERROR_LONG then (False, ptms)
     else let calc_day = time div TENTHS_SEC_PER_DAY;
              time = time mod TENTHS_SEC_PER_DAY; ptms = ptms\<lparr>tms_hour := to_uchar (time div TENTHS_SEC_PER_HR)\<rparr>;
              time = time mod TENTHS_SEC_PER_HR; ptms = ptms\<lparr>tms_minute := to_uchar (time div TENTHS_SEC_PER_MIN)\<rparr>;
              time = time mod TENTHS_SEC_PER_MIN; ptms = ptms\<lparr>tms_sec := to_uchar (time div TENTHS_SEC_PER_SEC)\<rparr>
          in case tms_loop (calc_day + 1) calendar of
               None \<Rightarrow> (False, ptms) | Some day \<Rightarrow> (True, ptms\<lparr>tms_day := to_uchar day\<rparr>))"

text \<open>\<open>None\<close>: an index outside the tables.\<close>

definition sys_time_days :: "int \<Rightarrow> int \<Rightarrow> int \<Rightarrow> int option" where
  "sys_time_days year month day =
     (if year - SYS_TIME_MIN_YEAR - 1 \<ge> int (length elapsed_days) \<or> month - 1 > int (length calendar) then None
      else let y_days = (if year > SYS_TIME_MIN_YEAR then elapsed_days ! nat (year - SYS_TIME_MIN_YEAR - 1) else 0);
               m_days = sum_list (map (\<lambda>i. if i = 1 \<and> year mod 4 = 0 then 29 else calendar ! i) [0..<nat (month - 1)])
           in Some (y_days + m_days + day - 1))"

definition get_time :: "tms_time \<Rightarrow> int \<Rightarrow> int \<Rightarrow> int option" where
  "get_time ptime year month =
     (if year < SYS_TIME_MIN_YEAR \<or> year > SYS_TIME_MAX_YEAR \<or> month < 1 \<or> month > 12 then Some ERROR_LONG
      else do {
        sys_days \<leftarrow> sys_time_days year month (tms_day ptime);
        let total_tenth_secs = to_long ((((sys_days * 24 + tms_hour ptime) * 60 + tms_minute ptime) * 60
              + tms_sec ptime) * TENTHS_SEC_PER_SEC);
        if total_tenth_secs < 0 then Some ERROR_LONG else Some total_tenth_secs
      })"

text \<open>The month of \<open>time_systonew\<close> runs from 1 to 12 and the year advances after December.\<close>

fun new_loop :: "int \<Rightarrow> int \<Rightarrow> int \<Rightarrow> int list \<Rightarrow> (int \<times> int \<times> int) option" where
  "new_loop calc_day month year [] = None"
| "new_loop calc_day month year (p # pcalendar) = (if calc_day > p then
       (if p = 0 then None
        else let calc_day = calc_day - p;
               (year, month) = (if month mod 12 = 0 then (year + 1, month - 12) else (year, month))
             in new_loop calc_day (month + 1) year pcalendar)
     else Some (calc_day, month, year))"

definition time_systonew :: "int \<Rightarrow> new_time \<Rightarrow> bool \<times> new_time" where
  "time_systonew sys_time pnew = (if sys_time < 0 \<or> sys_time = ERROR_LONG then (False, pnew)
     else let calc_day = sys_time div TENTHS_SEC_PER_DAY;
              t = sys_time mod TENTHS_SEC_PER_DAY; pnew = pnew\<lparr>nt_hour := to_uchar (t div TENTHS_SEC_PER_HR)\<rparr>;
              t = t mod TENTHS_SEC_PER_HR; pnew = pnew\<lparr>nt_minute := to_uchar (t div TENTHS_SEC_PER_MIN)\<rparr>;
              t = t mod TENTHS_SEC_PER_MIN; pnew = pnew\<lparr>nt_sec := to_uchar (t div TENTHS_SEC_PER_SEC)\<rparr>;
              t = t mod TENTHS_SEC_PER_SEC; pnew = pnew\<lparr>nt_tenths := to_uchar (t div TENTHS_SEC_PER_SEC)\<rparr>
          in case new_loop (calc_day + 1) 1 SYS_TIME_MIN_YEAR calendar of
               None \<Rightarrow> (False, pnew)
             | Some (day, month, year) \<Rightarrow>
                 (True, pnew\<lparr>nt_day := to_uchar day, nt_month := to_uchar month, nt_year := to_uchar year\<rparr>))"

definition time_newtosys :: "new_time \<Rightarrow> int option" where
  "time_newtosys pnew =
     (if nt_year pnew < SYS_TIME_MIN_YEAR \<or> nt_year pnew > SYS_TIME_MAX_YEAR \<or> nt_month pnew < 1 \<or> nt_month pnew > 12
      then Some ERROR_LONG
      else do {
        sys_days \<leftarrow> sys_time_days (nt_year pnew) (nt_month pnew) (nt_day pnew);
        let total_tenth_secs = to_long ((((sys_days * 24 + nt_hour pnew) * 60 + nt_minute pnew) * 60
              + nt_sec pnew) * TENTHS_SEC_PER_SEC + nt_tenths pnew);
        if total_tenth_secs < 0 then Some ERROR_LONG else Some total_tenth_secs
      })"

definition time_newtocmp :: "new_time \<Rightarrow> string \<times> string" where
  "time_newtocmp pnew = (fmt02d (nt_year pnew) @ fmt02d (nt_month pnew) @ fmt02d (nt_day pnew),
     fmt02d (nt_hour pnew) @ '':'' @ fmt02d (nt_minute pnew) @ '':'' @ fmt02d (nt_sec pnew))"

text \<open>The date is stored before the time of day is scanned.\<close>

definition time_cmptonew :: "string \<Rightarrow> string \<Rightarrow> new_time \<Rightarrow> bool \<times> new_time" where
  "time_cmptonew pjulian pmil_time pnew = (case scan_ints JULTIME_FMT pjulian of
       [year, month, day] \<Rightarrow>
         let pnew = pnew\<lparr>nt_year := to_uchar year, nt_month := to_uchar month, nt_day := to_uchar day\<rparr>
         in (case scan_ints MILTIME_FMT pmil_time of
               [hour, minute, sec] \<Rightarrow>
                 (True, pnew\<lparr>nt_hour := to_uchar hour, nt_minute := to_uchar minute, nt_sec := to_uchar sec,
                    nt_tenths := 0\<rparr>)
             | _ \<Rightarrow> (False, pnew))
     | _ \<Rightarrow> (False, pnew))"

text \<open>The local structure of the next two functions is not initialised: \<open>junk\<close>.\<close>

definition time_cmptosys :: "new_time \<Rightarrow> string \<Rightarrow> string \<Rightarrow> int option" where
  "time_cmptosys junk pjulian pmil_time = (case time_cmptonew pjulian pmil_time junk of
       (False, _) \<Rightarrow> Some ERROR_LONG
     | (True, new_time) \<Rightarrow> time_newtosys new_time)"

definition time_systocmp :: "new_time \<Rightarrow> int \<Rightarrow> (string \<times> string) option" where
  "time_systocmp junk sys_time = (case time_systonew sys_time junk of
       (False, _) \<Rightarrow> None
     | (True, new_time) \<Rightarrow> Some (time_newtocmp new_time))"

definition time_newtoold :: "new_time \<Rightarrow> tms_time \<times> int \<times> int" where
  "time_newtoold pnew = (\<lparr>tms_day = nt_day pnew, tms_hour = nt_hour pnew, tms_minute = nt_minute pnew,
     tms_sec = nt_sec pnew\<rparr>, nt_year pnew, nt_month pnew)"

definition time_oldtonew :: "tms_time \<Rightarrow> int \<Rightarrow> int \<Rightarrow> new_time" where
  "time_oldtonew ptms year month = \<lparr>nt_year = to_uchar year, nt_month = to_uchar month, nt_day = tms_day ptms,
     nt_hour = tms_hour ptms, nt_minute = tms_minute ptms, nt_sec = tms_sec ptms, nt_tenths = 0\<rparr>"

definition time_oldtosys :: "tms_time \<Rightarrow> int \<Rightarrow> int \<Rightarrow> int option" where
  "time_oldtosys ptms year month = get_time ptms year month"

definition time_systoold :: "new_time \<Rightarrow> int \<Rightarrow> (tms_time \<times> int \<times> int) option" where
  "time_systoold junk sys_time = (case time_systonew sys_time junk of
       (False, _) \<Rightarrow> None
     | (True, new_time) \<Rightarrow> Some (time_newtoold new_time))"

subsection \<open>The next minute, hour, day, week or month\<close>

text \<open>
  \<open>mktime\<close> brings the fields of a broken-down time into their ranges (no daylight saving time); the
  code only makes them too large.
\<close>

definition leap_year :: "int \<Rightarrow> bool" where
  "leap_year y \<longleftrightarrow> (let y = y + 1900 in y mod 4 = 0 \<and> (y mod 100 \<noteq> 0 \<or> y mod 400 = 0))"

definition month_length :: "int \<Rightarrow> int \<Rightarrow> int" where
  "month_length y mon = (if mon = 1 then (if leap_year y then 29 else 28)
     else if mon = 3 \<or> mon = 5 \<or> mon = 8 \<or> mon = 10 then 30 else 31)"

function carry_days :: "int \<Rightarrow> int \<Rightarrow> int \<Rightarrow> int \<times> int \<times> int" where
  "carry_days y mon d = (if d > month_length y mon then
       (if mon = 11 then carry_days (y + 1) 0 (d - month_length y mon)
        else carry_days y (mon + 1) (d - month_length y mon))
     else (y, mon, d))"
  by pat_completeness auto
termination
  by (relation "measure (\<lambda>(_, _, d). nat d)") (auto simp: month_length_def split: if_splits)

declare carry_days.simps [simp del]

definition mktime :: "tm \<Rightarrow> tm" where
  "mktime p = (let mi = tm_min p + tm_sec p div 60; h = tm_hour p + mi div 60; d = tm_mday p + h div 24;
       y = tm_year p + tm_mon p div 12; (y, mon, d) = carry_days y (tm_mon p mod 12) d
     in p\<lparr>tm_sec := tm_sec p mod 60, tm_min := mi mod 60, tm_hour := h mod 24, tm_mday := d, tm_mon := mon,
          tm_year := y\<rparr>)"

datatype time_unit = TIME_NEXT_MINUTE | TIME_NEXT_HOUR | TIME_NEXT_DAY | TIME_NEXT_WEEK | TIME_NEXT_MONTH | Other_unit

fun next_fields :: "time_unit \<Rightarrow> tm \<Rightarrow> tm option" where
  "next_fields TIME_NEXT_MINUTE p = Some (p\<lparr>tm_sec := 0, tm_min := tm_min p + 1\<rparr>)"
| "next_fields TIME_NEXT_HOUR p = Some (p\<lparr>tm_sec := 0, tm_min := 0, tm_hour := tm_hour p + 1\<rparr>)"
| "next_fields TIME_NEXT_DAY p = Some (p\<lparr>tm_sec := 0, tm_min := 0, tm_hour := 0, tm_mday := tm_mday p + 1\<rparr>)"
| "next_fields TIME_NEXT_WEEK p =
     Some (p\<lparr>tm_sec := 0, tm_min := 0, tm_hour := 0, tm_mday := tm_mday p + (7 - tm_wday p)\<rparr>)"
| "next_fields TIME_NEXT_MONTH p =
     Some (p\<lparr>tm_sec := 0, tm_min := 0, tm_hour := 0, tm_mday := 1, tm_mon := tm_mon p + 1\<rparr>)"
| "next_fields Other_unit p = None"

definition time_next :: "tm option \<Rightarrow> time_unit \<Rightarrow> int option" where
  "time_next now when = (case now of None \<Rightarrow> Some ERROR_LONG | Some ptime \<Rightarrow>
     (case next_fields when ptime of None \<Rightarrow> Some ERROR_LONG | Some ptime \<Rightarrow>
        let ptime = mktime ptime;
            tms = \<lparr>tms_day = to_uchar (tm_mday ptime), tms_hour = to_uchar (tm_hour ptime),
              tms_minute = to_uchar (tm_min ptime), tms_sec = to_uchar (tm_sec ptime)\<rparr>
        in get_time tms (tm_year ptime) (tm_mon ptime + 1)))"

subsection \<open>Dates in file names\<close>

definition filedate :: "tm option \<Rightarrow> string option" where
  "filedate now = map_option (\<lambda>p. fmt02d (tm_year p) @ fmt02d (tm_mon p + 1) @ fmt02d (tm_mday p)) now"

definition filemonth :: "tm option \<Rightarrow> string option" where
  "filemonth now = map_option (\<lambda>p. fmt02d (tm_year p) @ fmt02d (tm_mon p + 1) @ ''01'') now"

definition sec2label :: "int \<Rightarrow> string" where
  "sec2label total_sec = (let minute = total_sec sdiv 60; second = total_sec smod 60;
       hour = minute sdiv 60; minute = minute smod 60
     in fmt2d hour @ '':'' @ fmt02d minute @ '':'' @ fmt02d second)"

text \<open>
  \<open>read_yymmdd\<close>: the result and the values of \<open>*pyear\<close>, \<open>*pmonth\<close> and \<open>*pday\<close> (0 where the scan
  stopped), which are not set when the name has no date.
\<close>

definition read_yymmdd :: "string \<Rightarrow> bool \<times> (int \<times> int \<times> int) option" where
  "read_yymmdd ps = (if CHR ''.'' \<notin> set ps then (False, None)
     else let dot = length (takeWhile (\<lambda>c. c \<noteq> CHR ''.'') ps) in
       if dot < 6 then (False, None)
       else let vs = scan_ints JULTIME_FMT (drop (dot - 6) ps);
                val = (\<lambda>i. if i < length vs then vs ! i else 0);
                year = val 0; month = val 1; day = val 2
         in (\<not> (year < SYS_TIME_MIN_YEAR \<or> month < 1 \<or> 12 < month \<or> day < 1 \<or> 31 < day),
             Some (year, month, day)))"

text \<open>
  \<open>read_julian\<close>: \<open>fname\<close> holds 27 characters; the search for the first digit leaves the string when
  there is none.  \<open>None\<close> stands for these two faults.
\<close>

definition read_julian :: "string \<Rightarrow> string option option" where
  "read_julian pfilename = (if length pfilename > 27 \<or> (\<forall>c \<in> set pfilename. \<not> isdigit c) then None
     else let proot = hd (dropWhile (\<lambda>c. \<not> isdigit c) pfilename);
              fname = str_delchr_bef pfilename proot
       in do {
         fname \<leftarrow> str_delchr_aft fname (CHR ''.'');
         let fname = snd (str_delchr fname (CHR ''.''));
         Some (if length fname \<noteq> 6 then None else Some fname)
       })"

end
