(* ===== verification/SysTimeProps.thy ===== *)
theory SysTimeProps
  imports SysTime
begin

text \<open>
  The calendar of path/local/sys_time.c: day numbers and dates correspond, so the conversions are
  inverse to each other (up to the tenths, which \<open>time_systonew\<close> loses), the time of day is the
  remainder by a day, and \<open>time_next\<close> finds the next boundary.
\<close>

lemma to_long_id: "0 \<le> x \<Longrightarrow> x < 2147483648 \<Longrightarrow> to_long x = x"
  by (simp add: to_long_def signed_of_int signed_take_bit_int_eq_self)

lemma to_uchar_id: "0 \<le> x \<Longrightarrow> x < 256 \<Longrightarrow> to_uchar x = x"
  by (simp add: to_uchar_def)

subsection \<open>Months\<close>

lemma length_calendar [simp]: "length calendar = 85"
  by (simp add: calendar_def)

definition month_start :: "nat \<Rightarrow> int" where "month_start k = sum_list (take k calendar)"

definition month_no :: "int \<Rightarrow> int \<Rightarrow> nat" where "month_no y mon = nat ((y - 89) * 12 + mon)"

lemma months_table: "list_all (\<lambda>k. sys_time_days (89 + int k div 12) (int k mod 12 + 1) 1 = Some (month_start k)
    \<and> month_start (Suc k) = month_start k + month_length (89 + int k div 12) (int k mod 12)) [0..<84]"
  by code_simp

lemma month_no_inv: "89 \<le> y \<Longrightarrow> y \<le> 95 \<Longrightarrow> 0 \<le> mon \<Longrightarrow> mon < 12 \<Longrightarrow>
    month_no y mon < 84 \<and> 89 + int (month_no y mon) div 12 = y \<and> int (month_no y mon) mod 12 = mon"
  by (auto simp: month_no_def nat_less_iff) presburger+

lemma sys_time_days_day: "sys_time_days y m d = map_option (\<lambda>s. s + d - 1) (sys_time_days y m 1)"
  by (simp add: sys_time_days_def Let_def)

lemma month_table: "k < 84 \<Longrightarrow> sys_time_days (89 + int k div 12) (int k mod 12 + 1) d = Some (month_start k + d - 1)
    \<and> month_start (Suc k) = month_start k + month_length (89 + int k div 12) (int k mod 12)"
  using months_table sys_time_days_day[of "89 + int k div 12" "int k mod 12 + 1" d] by (simp add: list_all_iff)

lemma days_of_date: "89 \<le> y \<Longrightarrow> y \<le> 95 \<Longrightarrow> 0 \<le> mon \<Longrightarrow> mon < 12 \<Longrightarrow>
    sys_time_days y (mon + 1) d = Some (month_start (month_no y mon) + d - 1)
    \<and> month_start (Suc (month_no y mon)) = month_start (month_no y mon) + month_length y mon"
  using month_no_inv[of y mon] month_table[of "month_no y mon" d] by simp

lemma month_start_end: "month_start 0 = 0" "month_start 84 = 2556" "month_start 81 = 2464"
  by code_simp+

lemma calendar_positive: "\<forall>p \<in> set (take 84 calendar). 0 < p" "calendar = take 84 calendar @ [0]" "length (take 84 calendar) = 84"
  by (simp_all add: calendar_def)

lemma month_start_mono: "j \<le> k \<Longrightarrow> k \<le> 84 \<Longrightarrow> month_start j \<le> month_start k"
proof (induction k)
  case (Suc k)
  then have "month_start k \<le> month_start (Suc k)"
    using month_table[of k] by (simp add: month_length_def)
  with Suc show ?case by (cases "j = Suc k") auto
qed simp

lemma segment_of: "\<forall>p \<in> set ps. 0 < p \<Longrightarrow> 0 < d \<Longrightarrow> d \<le> sum_list ps \<Longrightarrow>
    \<exists>k < length ps. sum_list (take k ps) < d \<and> d \<le> sum_list (take (Suc k) ps)" for d :: int
proof (induction ps arbitrary: d)
  case (Cons p ps)
  show ?case
  proof (cases "d \<le> p")
    case True
    with Cons.prems show ?thesis by (intro exI[of _ 0]) simp
  next
    case False
    with Cons.IH[of "d - p"] Cons.prems obtain k where
      "k < length ps" "sum_list (take k ps) < d - p" "d - p \<le> sum_list (take (Suc k) ps)" by auto
    then show ?thesis by (intro exI[of _ "Suc k"]) auto
  qed
qed simp

lemma month_of_day: "1 \<le> d \<Longrightarrow> d \<le> 2556 \<Longrightarrow> \<exists>k < 84. month_start k < d \<and> d \<le> month_start (Suc k)"
  using segment_of[OF calendar_positive(1), of d] month_start_end(2)
  by (auto simp: month_start_def)

lemma new_loop_finds: "\<forall>p \<in> set ps. 0 < p \<Longrightarrow> k < length ps \<Longrightarrow> sum_list (take k ps) < d \<Longrightarrow>
    d \<le> sum_list (take (Suc k) ps) \<Longrightarrow> 1 \<le> m \<Longrightarrow> m \<le> 12 \<Longrightarrow>
    new_loop d m y (ps @ qs) =
      Some (d - sum_list (take k ps), (m - 1 + int k) mod 12 + 1, y + (m - 1 + int k) div 12)"
proof (induction ps arbitrary: k d m y)
  case (Cons p ps)
  show ?case
  proof (cases k)
    case (Suc j)
    have pos: "0 \<le> sum_list (take j ps)" using Cons.prems(1) by (intro sum_list_nonneg) (auto dest!: in_set_takeD intro: less_imp_le)
    show ?thesis
    proof (cases "m = 12")
      case True
      with Cons.IH[of j "d - p" 1 "y + 1"] Cons.prems Suc pos show ?thesis
        by (simp add: div_add_self2 algebra_simps)
    next
      case False
      then have "m mod 12 \<noteq> 0" using Cons.prems by presburger
      with False Cons.IH[of j "d - p" "m + 1" y] Cons.prems Suc pos show ?thesis
        by (simp add: algebra_simps)
    qed
  qed (use Cons.prems in simp)
qed simp

text \<open>Every day from 1 January 1989 to 31 December 1995 has its date.\<close>

lemma date_of_day:
  assumes "1 \<le> d" "d \<le> 2556"
  obtains day mon y where "new_loop d 1 89 calendar = Some (day, mon + 1, y)" "89 \<le> y" "y \<le> 95" "0 \<le> mon" "mon < 12"
    "1 \<le> day" "day \<le> month_length y mon" "sys_time_days y (mon + 1) day = Some (d - 1)"
proof -
  obtain k where k: "k < 84" "month_start k < d" "d \<le> month_start (Suc k)"
    using month_of_day[OF assms] by blast
  have "new_loop d 1 89 (take 84 calendar @ [0]) = Some (d - month_start k, int k mod 12 + 1, 89 + int k div 12)"
    using new_loop_finds[OF calendar_positive(1), of k d 1 89 "[0]"] k
    by (simp add: month_start_def)
  then show ?thesis
    using k month_table[of k "d - month_start k"] that[of "d - month_start k" "int k mod 12" "89 + int k div 12"]
    by (simp flip: calendar_positive(2))
qed

subsection \<open>System time and dates\<close>

definition valid_new :: "new_time \<Rightarrow> bool" where
  "valid_new n \<longleftrightarrow> 89 \<le> nt_year n \<and> nt_year n \<le> 95 \<and> 1 \<le> nt_month n \<and> nt_month n \<le> 12 \<and>
     1 \<le> nt_day n \<and> nt_day n \<le> month_length (nt_year n) (nt_month n - 1) \<and> 0 \<le> nt_hour n \<and> nt_hour n < 24 \<and>
     0 \<le> nt_minute n \<and> nt_minute n < 60 \<and> 0 \<le> nt_sec n \<and> nt_sec n < 60 \<and> nt_tenths n = 0"

lemma month_length_bounds: "28 \<le> month_length y mon \<and> month_length y mon \<le> 31"
  by (simp add: month_length_def)

lemma clock_sum: "((((t div 864000 * 24 + t mod 864000 div 36000) * 60 + t mod 864000 mod 36000 div 600) * 60
    + t mod 864000 mod 36000 mod 600 div 10) * 10) = t - t mod (10 :: int)"
proof -
  define a b c where "a = t mod 864000" and "b = a mod 36000" and "c = b mod 600"
  have "c mod 10 = t mod 10"
    by (simp add: a_def b_def c_def mod_mod_cancel)
  then show ?thesis
    using div_mult_mod_eq[of t 864000] div_mult_mod_eq[of a 36000] div_mult_mod_eq[of b 600] div_mult_mod_eq[of c 10]
    unfolding a_def[symmetric] b_def[symmetric] c_def[symmetric] ring_distribs by linarith
qed

lemma tenths_lost: "t mod 864000 mod 36000 mod 600 mod 10 div 10 = (0 :: int)"
  by presburger

lemma clock_ranges: "t mod 864000 div 36000 < (24 :: int)" "t mod 864000 mod 36000 div 600 < (60 :: int)"
  "t mod 864000 mod 36000 mod 600 div 10 < (60 :: int)" "0 \<le> t mod 864000 div 36000"
  "0 \<le> t mod 864000 mod 36000 div 600" "0 \<le> t mod 864000 mod 36000 mod 600 div 10"
proof -
  have d: "a div q < c" if "a < c * q" "0 < q" for a q c :: int
    using that by (metis div_mult_mod_eq linorder_not_less mult_right_mono order.strict_implies_order
        pos_mod_sign add_increasing2 order.strict_trans1 order.refl)
  show "t mod 864000 div 36000 < (24 :: int)" "t mod 864000 mod 36000 div 600 < (60 :: int)"
    "t mod 864000 mod 36000 mod 600 div 10 < (60 :: int)"
    by (rule d; simp)+
  show "0 \<le> t mod 864000 div 36000" "0 \<le> t mod 864000 mod 36000 div 600"
    "0 \<le> t mod 864000 mod 36000 mod 600 div 10"
    by (subst pos_imp_zdiv_nonneg_iff; simp)+
qed

lemma systonew_date:
  assumes "0 \<le> t" "t < 2147483648"
  shows "\<exists>n. time_systonew t junk = (True, n) \<and> valid_new n \<and> time_newtosys n = Some (t - t mod 10)"
proof -
  have "1 \<le> t div 864000 + 1" "t div 864000 + 1 \<le> 2556"
    using assms zdiv_mono1[of t 2147483647 864000] by (simp_all add: pos_imp_zdiv_nonneg_iff)
  then obtain day mon y where d: "new_loop (t div 864000 + 1) 1 89 calendar = Some (day, mon + 1, y)" "89 \<le> y" "y \<le> 95"
      "0 \<le> mon" "mon < 12" "1 \<le> day" "day \<le> month_length y mon"
      "sys_time_days y (mon + 1) day = Some (t div 864000 + 1 - 1)"
    by (rule date_of_day)
  define h mi s where "h = t mod 864000 div 36000" and "mi = t mod 864000 mod 36000 div 600"
    and "s = t mod 864000 mod 36000 mod 600 div 10"
  have b: "0 \<le> h" "h < 24" "0 \<le> mi" "mi < 60" "0 \<le> s" "s < 60"
    unfolding h_def mi_def s_def by (rule clock_ranges)+
  have "day \<le> 31" using d(7) month_length_bounds[of y mon] by simp
  have u: "to_uchar day = day" "to_uchar (mon + 1) = mon + 1" "to_uchar y = y" "to_uchar h = h" "to_uchar mi = mi"
      "to_uchar s = s" "to_uchar 0 = 0" "\<not> (t < 0 \<or> t = - 1)"
    using assms d(2-6) \<open>day \<le> 31\<close> b by (simp_all add: to_uchar_id)
  have n: "time_systonew t junk = (True, \<lparr>nt_year = y, nt_month = mon + 1, nt_day = day, nt_hour = h, nt_minute = mi,
      nt_sec = s, nt_tenths = 0\<rparr>)"
    unfolding time_systonew_def Let_def tenths_lost h_def[symmetric] mi_def[symmetric] s_def[symmetric] u d(1)
    if_not_P[OF u(8)] by (simp add: u new_time.equality)
  moreover have "time_newtosys \<lparr>nt_year = y, nt_month = mon + 1, nt_day = day, nt_hour = h, nt_minute = mi,
      nt_sec = s, nt_tenths = 0\<rparr> = Some (t - t mod 10)"
  proof -
    have "(((t div 864000 * 24 + h) * 60 + mi) * 60 + s) * 10 = t - t mod 10"
      unfolding h_def mi_def s_def by (rule clock_sum)
    moreover have "0 \<le> t - t mod 10" "t - t mod 10 < 2147483648" using assms by presburger+
    ultimately show ?thesis
      using d(2-6) d(8) by (simp add: time_newtosys_def Let_def to_long_id)
  qed
  ultimately show ?thesis
    using d b by (simp add: valid_new_def)
qed

subsection \<open>The compound form\<close>

lemma digit_char_0: "CHR ''0'' = digit_char 0"
  by code_simp

lemma fmt02d_two: "0 \<le> x \<Longrightarrow> x < 100 \<Longrightarrow> fmt02d x = dec2 x"
  by (auto simp: fmt02d_def dec_digits.simps[of "nat x"] dec_digits.simps[of "nat x div 10"] fill_def dec2_def
      digit_char_0 zdiv_int zmod_int nat_less_iff)

lemma digit_not_space: "0 \<le> d \<Longrightarrow> d < 10 \<Longrightarrow> \<not> isspace (digit_char d) \<and> digit_char d \<noteq> CHR ''-'' \<and>
    digit_char d \<noteq> CHR ''+'' \<and> digit_char d \<noteq> CHR ''.'' \<and> digit_char d \<noteq> END_OF_STRING"
proof -
  have "list_all (\<lambda>d. \<not> isspace (digit_char d) \<and> digit_char d \<noteq> CHR ''-'' \<and> digit_char d \<noteq> CHR ''+'' \<and>
      digit_char d \<noteq> CHR ''.'' \<and> digit_char d \<noteq> END_OF_STRING) (map int [0..<10])" by code_simp
  moreover assume "0 \<le> d" "d < 10"
  then have "d \<in> set (map int [0..<10])" by (auto intro!: image_eqI[of _ _ "nat d"])
  ultimately show ?thesis unfolding list_all_iff by blast
qed

lemma scan2d_dec2: "0 \<le> x \<Longrightarrow> x < 100 \<Longrightarrow> scan2d (dec2 x @ s) = Some (x, s)"
  using digit_not_space[of "x div 10 mod 10"] digit_not_space[of "x mod 10"]
    digit_char_simps[of "x div 10 mod 10"] digit_char_simps[of "x mod 10"]
  by (simp add: scan2d_def dec2_def Let_def)

lemma length_dec2 [simp]: "length (dec2 x) = 2"
  by (simp add: dec2_def)

lemma newtocmp_back:
  assumes "valid_new n"
  shows "case time_newtocmp n of (j, m) \<Rightarrow> time_cmptonew j m junk = (True, n) \<and> length j = 6 \<and> length m = 8"
proof -
  have r: "0 \<le> f n \<and> f n < 100" if "f \<in> {nt_year, nt_month, nt_day, nt_hour, nt_minute, nt_sec}" for f
    using assms that month_length_bounds[of "nt_year n" "nt_month n - 1"] by (auto simp: valid_new_def)
  have f: "fmt02d (f n) = dec2 (f n)" if "f \<in> {nt_year, nt_month, nt_day, nt_hour, nt_minute, nt_sec}" for f
    using r[OF that] fmt02d_two by blast
  have sc: "scan2d (dec2 (f n) @ s) = Some (f n, s)" "scan2d (dec2 (f n)) = Some (f n, [])" "to_uchar (f n) = f n"
    if "f \<in> {nt_year, nt_month, nt_day, nt_hour, nt_minute, nt_sec}" for f s
    using r[OF that] scan2d_dec2[of "f n" s] scan2d_dec2[of "f n" "[]"] to_uchar_id[of "f n"] by auto
  show ?thesis
    using assms by (simp add: time_newtocmp_def time_cmptonew_def f sc valid_new_def)
qed

text \<open>
  C37: A system time survives the way through the date and the two strings YYMMDD and HH:MM:SS and
  back, whatever the uninitialised structures hold: every time of the 32-bit range is converted,
  the strings have their lengths, and only the tenths of a second are dropped
  (\<open>time_systonew\<close> computes them as 0).
\<close>

theorem compound_time_roundtrip:
  assumes "0 \<le> t" "t < 2147483648"
  shows "\<exists>j m. time_systocmp junk t = Some (j, m) \<and> length j = 6 \<and> length m = 8 \<and>
    time_cmptosys junk' j m = Some (t - t mod 10)"
proof -
  obtain n where n: "time_systonew t junk = (True, n)" "valid_new n" "time_newtosys n = Some (t - t mod 10)"
    using systonew_date[OF assms] by blast
  then show ?thesis
    using newtocmp_back[OF n(2), of junk'] by (cases "time_newtocmp n") (auto simp: time_systocmp_def time_cmptosys_def)
qed

definition no_time :: new_time where
  "no_time = \<lparr>nt_year = 0, nt_month = 0, nt_day = 0, nt_hour = 0, nt_minute = 0, nt_sec = 0, nt_tenths = 0\<rparr>"

theorem compound_time_roundtrip_witness:
  "\<exists>j m. time_systocmp no_time 1000000007 = Some (j, m) \<and> length j = 6 \<and> length m = 8 \<and>
    time_cmptosys no_time j m = Some 1000000000"
  using compound_time_roundtrip[of 1000000007 no_time no_time] by simp

subsection \<open>Dates to system time and back\<close>

definition date_total :: "int \<Rightarrow> int \<Rightarrow> int \<Rightarrow> int \<Rightarrow> int \<Rightarrow> int \<Rightarrow> int" where
  "date_total y mon d h mi s = ((((month_start (month_no y mon) + d - 1) * 24 + h) * 60 + mi) * 60 + s) * 10"

lemma newtosys_total: "valid_new n \<Longrightarrow> time_newtosys n =
    (let t = to_long (date_total (nt_year n) (nt_month n - 1) (nt_day n) (nt_hour n) (nt_minute n) (nt_sec n))
     in Some (if t < 0 then -1 else t))"
  using days_of_date[of "nt_year n" "nt_month n - 1" "nt_day n"]
  by (simp add: valid_new_def time_newtosys_def date_total_def Let_def)

lemma date_total_parts:
  assumes "0 \<le> h" "h < 24" "0 \<le> mi" "mi < 60" "0 \<le> s" "s < 60"
  shows "date_total y mon d h mi s div 864000 = month_start (month_no y mon) + d - 1"
    "date_total y mon d h mi s mod 864000 div 36000 = h"
    "date_total y mon d h mi s mod 864000 mod 36000 div 600 = mi"
    "date_total y mon d h mi s mod 864000 mod 36000 mod 600 div 10 = s"
proof -
  have e: "date_total y mon d h mi s = (month_start (month_no y mon) + d - 1) * 864000 + (h * 36000 + (mi * 600 + s * 10))"
    by (simp add: date_total_def ring_distribs)
  have b: "0 \<le> s * 10" "s * 10 < 600" "0 \<le> mi * 600 + s * 10" "mi * 600 + s * 10 < 36000"
      "0 \<le> h * 36000 + (mi * 600 + s * 10)" "h * 36000 + (mi * 600 + s * 10) < 864000"
    using assms by simp_all
  note a = split_div(1)[OF b(5,6), of "month_start (month_no y mon) + d - 1"]
    split_div(2)[OF b(5,6), of "month_start (month_no y mon) + d - 1"]
    split_div(1)[OF b(3,4), of h] split_div(2)[OF b(3,4), of h] split_div(1)[OF b(1,2), of mi] split_div(2)[OF b(1,2), of mi]
  show "date_total y mon d h mi s div 864000 = month_start (month_no y mon) + d - 1"
    "date_total y mon d h mi s mod 864000 div 36000 = h"
    "date_total y mon d h mi s mod 864000 mod 36000 div 600 = mi"
    "date_total y mon d h mi s mod 864000 mod 36000 mod 600 div 10 = s"
    unfolding e a by simp_all
qed

lemma new_loop_date:
  assumes "89 \<le> y" "y \<le> 95" "0 \<le> mon" "mon < 12" "1 \<le> d" "d \<le> month_length y mon"
  shows "new_loop (month_start (month_no y mon) + d) 1 89 calendar = Some (d, mon + 1, y)"
proof -
  let ?k = "month_no y mon"
  have k: "?k < 84" "89 + int ?k div 12 = y" "int ?k mod 12 = mon"
    using month_no_inv assms by auto
  have "new_loop (month_start ?k + d) 1 89 (take 84 calendar @ [0]) = Some (d, mon + 1, y)"
    using new_loop_finds[OF calendar_positive(1), of ?k "month_start ?k + d" 1 89 "[0]"] k
      days_of_date[of y mon d] assms by (simp add: month_start_def)
  then show ?thesis by (simp flip: calendar_positive(2))
qed

text \<open>
  C33: Every date from 1 January 1989 on is converted to its system time and back to the same date;
  the dates whose system time does not fit a \<open>long\<close> of 4 bytes are refused with \<open>ERROR_LONG\<close> and
  never wrapped to another time.
\<close>

theorem date_roundtrip:
  assumes "valid_new n"
  defines "t \<equiv> date_total (nt_year n) (nt_month n - 1) (nt_day n) (nt_hour n) (nt_minute n) (nt_sec n)"
  shows "if t < 2147483648 then time_newtosys n = Some t \<and> time_systonew t junk = (True, n)
    else time_newtosys n = Some ERROR_LONG"
proof -
  let ?y = "nt_year n" and ?m = "nt_month n - 1"
  have v: "89 \<le> ?y" "?y \<le> 95" "0 \<le> ?m" "?m < 12" "1 \<le> nt_day n" "nt_day n \<le> month_length ?y ?m" "nt_day n \<le> 31"
      "0 \<le> nt_hour n" "nt_hour n < 24" "0 \<le> nt_minute n" "nt_minute n < 60" "0 \<le> nt_sec n" "nt_sec n < 60"
      "nt_tenths n = 0"
    using assms(1) month_length_bounds[of ?y ?m] by (auto simp: valid_new_def)
  have k: "month_no ?y ?m < 84" using month_no_inv v by blast
  have "0 \<le> month_start (month_no ?y ?m)" "month_start (month_no ?y ?m) + nt_day n \<le> 2556"
    using month_start_mono[of 0 "month_no ?y ?m"] month_start_mono[of "Suc (month_no ?y ?m)" 84] k
      days_of_date[of ?y ?m 1] v month_start_end by auto
  then have t: "0 \<le> t" "t < 2 * 2147483648" using v by (auto simp: t_def date_total_def)
  show ?thesis
  proof (cases "t < 2147483648")
    case True
    note p = date_total_parts[OF v(8-13), of ?y ?m "nt_day n", folded t_def]
    have u: "to_uchar (nt_day n) = nt_day n" "to_uchar (nt_month n) = nt_month n" "to_uchar ?y = ?y" "to_uchar (nt_hour n) = nt_hour n"
        "to_uchar (nt_minute n) = nt_minute n" "to_uchar (nt_sec n) = nt_sec n" "to_uchar 0 = 0" "\<not> (t < 0 \<or> t = - 1)"
      using v t by (simp_all add: to_uchar_id)
    have "time_systonew t junk = (True, n)"
      unfolding time_systonew_def Let_def tenths_lost p if_not_P[OF u(8)]
      using new_loop_date[OF v(1-6)] v(14) by (simp add: u new_time.equality)
    with True t show ?thesis
      using newtosys_total[OF assms(1)] by (simp add: to_long_id flip: t_def)
  next
    case False
    have "to_long t = t - 2 * 2147483648"
      using False t mod_pos_geq[of 4294967296 "t + 2147483648"]
      by (simp add: to_long_def signed_of_int signed_take_bit_eq_take_bit_shift take_bit_eq_mod mod_pos_pos_trivial)
    with False t show ?thesis
      using newtosys_total[OF assms(1)] by (simp flip: t_def)
  qed
qed

theorem date_roundtrip_witness:
  "time_newtosys \<lparr>nt_year = 92, nt_month = 2, nt_day = 29, nt_hour = 23, nt_minute = 59, nt_sec = 59, nt_tenths = 0\<rparr>
      = Some 997919990 \<and>
   time_newtosys \<lparr>nt_year = 95, nt_month = 12, nt_day = 31, nt_hour = 0, nt_minute = 0, nt_sec = 0, nt_tenths = 0\<rparr>
      = Some (-1)"
proof -
  let ?n = "\<lparr>nt_year = 92, nt_month = 2, nt_day = 29, nt_hour = 23, nt_minute = 59, nt_sec = 59, nt_tenths = 0\<rparr>"
  let ?m = "\<lparr>nt_year = 95, nt_month = 12, nt_day = 31, nt_hour = 0, nt_minute = 0, nt_sec = 0, nt_tenths = 0\<rparr>"
  have "valid_new ?n" "valid_new ?m" by code_simp+
  moreover have "date_total 92 1 29 23 59 59 = 997919990" "date_total 95 11 31 0 0 0 = 2207520000" by code_simp+
  ultimately show ?thesis
    using date_roundtrip[of ?n no_time] date_roundtrip[of ?m no_time] by simp
qed

subsection \<open>The time of day\<close>

lemma month_loop_total: "(864000 :: int) dvd r \<Longrightarrow> 0 \<le> r \<Longrightarrow> r \<le> now \<Longrightarrow> now < 2147483648 \<Longrightarrow> \<forall>p \<in> set ps. 0 < p \<Longrightarrow>
    2147040000 < r + sum_list ps * 864000 \<Longrightarrow>
    \<exists>r'. month_loop now r l (ps @ [0]) = Some r' \<and> 864000 dvd r' \<and> 0 \<le> r' \<and> r' \<le> now"
proof (induction ps arbitrary: r l)
  case (Cons p ps)
  show ?case
  proof (cases "inc_sys_time r (p * 864000)")
    case None
    with Cons.prems show ?thesis by simp
  next
    case (Some r')
    then have r': "r' = r + p * 864000" "r' \<le> 2147040000" by (auto simp: inc_sys_time_def Let_def split: if_splits)
    with Cons.prems have ps: "ps \<noteq> []" by auto
    then have h: "hd ps \<noteq> 0" using Cons.prems(5) by (cases ps) auto
    show ?thesis
    proof (cases "r' \<le> now")
      case True
      with Cons.IH[of r' r] Cons.prems r' Some h(1) ps show ?thesis
        by (cases ps) (auto simp: algebra_simps)
    next
      case False
      with Cons.prems r' Some h(1) ps show ?thesis by (cases ps) auto
    qed
  qed
qed (auto simp: inc_sys_time_def Let_def)

lemma day_loop_last: "(864000 :: int) dvd r \<Longrightarrow> 0 \<le> r \<Longrightarrow> r \<le> now \<Longrightarrow> now < 2147483648 \<Longrightarrow>
    864000 dvd day_loop now r l \<and> day_loop now r l \<le> now \<and> now < day_loop now r l + 864000"
proof (induction now r l rule: day_loop.induct)
  case (1 now r l)
  show ?case
  proof (cases "inc_sys_time r 864000")
    case None
    with "1.prems" have "2147040000 < r + 864000" by (auto simp: inc_sys_time_def Let_def split: if_splits)
    moreover have "2147040000 \<le> r"
    proof -
      obtain q where "r = 864000 * q" using "1.prems"(1) by (elim dvdE)
      with calculation show ?thesis by simp
    qed
    ultimately show ?thesis
      using None "1.prems" by (simp add: day_loop.simps[of now r])
  next
    case (Some r')
    then have r': "r' = r + 864000" by (auto simp: inc_sys_time_def Let_def split: if_splits)
    show ?thesis
    proof (cases "r' \<le> now")
      case True
      with "1.IH"[OF "1.prems"(3) Some] "1.prems" r' Some show ?thesis
        by (simp add: day_loop.simps[of now r])
    next
      case False
      with "1.prems" r' Some show ?thesis
        by (simp add: day_loop.simps[of now r] day_loop.simps[of now "r + 864000"])
    qed
  qed
qed

lemma multiple_rest: "(d :: int) dvd r \<Longrightarrow> r \<le> x \<Longrightarrow> x < r + d \<Longrightarrow> x - r = x mod d"
proof (elim dvdE)
  fix q assume q: "r \<le> x" "x < r + d" "r = d * q"
  have "x mod d = (x - d * q + d * q) mod d" by simp
  also have "\<dots> = (x - d * q) mod d" by (rule mod_mult_self2)
  also have "\<dots> = x - d * q" using q by (intro mod_pos_pos_trivial) simp_all
  finally show "x - r = x mod d" using q by simp
qed

lemma interval_loop_first: "interval_loop c as i = i + int (length (takeWhile (\<lambda>a. a < c) as))"
  by (induction as arbitrary: i) (auto simp: cmp_sys_time_def)

text \<open>
  The time of day is the remainder of the system time by a day, for every time a \<open>long\<close> can
  hold, so the two loops over the calendar and the days end with the midnight before \<open>now\<close>;
  \<open>sys_time_interval\<close> is the index of the first bound in the array that is not before it, and
  \<open>ERROR\<close> when there is none.
\<close>

theorem time_of_day:
  assumes "0 \<le> now" "now < 2147483648"
  shows "sys_time_from_midnight now = now mod 864000 \<and>
    sys_time_interval now parray = (let i = length (takeWhile (\<lambda>a. a < now mod 864000) parray)
      in if i = length parray then -1 else int i)"
proof -
  define r0 where "r0 = (if 31 * 864000 \<le> now then month_loop now 0 0 calendar else Some 0)"
  have "\<exists>r. month_loop now 0 0 (take 84 calendar @ [0]) = Some r \<and> 864000 dvd r \<and> 0 \<le> r \<and> r \<le> now"
    using month_loop_total[OF dvd_0_right order.refl assms(1,2) calendar_positive(1), of 0] month_start_end(2)
    by (simp add: month_start_def assms)
  then have "\<exists>r. r0 = Some r \<and> 864000 dvd r \<and> 0 \<le> r \<and> r \<le> now"
    using assms(1) by (simp add: r0_def flip: calendar_positive(2))
  then obtain r where r: "r0 = Some r" "864000 dvd r" "0 \<le> r" "r \<le> now" by blast
  define l where "l = (if 864000 \<le> now then day_loop now r r else r)"
  have l: "864000 dvd l" "l \<le> now" "now < l + 864000"
    using day_loop_last[OF r(2-4) assms(2), of r] r by (auto simp: l_def)
  have "0 \<le> l" using l assms by (elim dvdE) simp
  then have "sys_time_from_midnight now = now - l"
    unfolding sys_time_from_midnight_def r0_def[symmetric] r(1) option.case Let_def l_def[symmetric]
    using assms by (simp add: diff_sys_time_def)
  then have m: "sys_time_from_midnight now = now mod 864000"
    using multiple_rest[OF l] by simp
  moreover have "0 \<le> now mod 864000" by simp
  ultimately show ?thesis
    using assms by (simp add: sys_time_interval_def interval_loop_first Let_def del: pos_mod_sign)
qed

theorem time_of_day_witness:
  "sys_time_from_midnight 2147483647 = 443647 \<and> sys_time_interval 2147483647 [0, 432000, 864000] = 2"
  using time_of_day[of 2147483647 "[0, 432000, 864000]"] by simp

subsection \<open>The next boundary\<close>

definition valid_tm :: "tm \<Rightarrow> bool" where
  "valid_tm p \<longleftrightarrow> 89 \<le> tm_year p \<and> tm_year p \<le> 95 \<and> 0 \<le> tm_mon p \<and> tm_mon p < 12 \<and>
     1 \<le> tm_mday p \<and> tm_mday p \<le> month_length (tm_year p) (tm_mon p) \<and> 0 \<le> tm_hour p \<and> tm_hour p < 24 \<and>
     0 \<le> tm_min p \<and> tm_min p < 60 \<and> 0 \<le> tm_sec p \<and> tm_sec p < 60 \<and> 0 \<le> tm_wday p \<and> tm_wday p < 7 \<and>
     tm_yday p = month_start (month_no (tm_year p) (tm_mon p)) - month_start (month_no (tm_year p) 0) + tm_mday p - 1"

definition tm_total :: "tm \<Rightarrow> int" where
  "tm_total p = date_total (tm_year p) (tm_mon p) (tm_mday p) (tm_hour p) (tm_min p) (tm_sec p)"

lemma carry_one: "d \<le> 56 \<Longrightarrow> carry_days y mon d = (if d \<le> month_length y mon then (y, mon, d)
    else if mon = 11 then (y + 1, 0, d - month_length y mon) else (y, mon + 1, d - month_length y mon))"
  using month_length_bounds[of y mon] month_length_bounds[of y 11] month_length_bounds[of y "mon + 1"] month_length_bounds[of "y + 1" 0]
  by (simp add: carry_days.simps[of y mon] carry_days.simps[of y "mon + 1"] carry_days.simps[of "y + 1" 0])

lemma carry_date:
  assumes "89 \<le> y" "0 \<le> mon" "mon < 12" "month_no y mon < 83" "1 \<le> d" "d \<le> 56" "carry_days y mon d = (y', mon', d')"
  shows "89 \<le> y' \<and> y' \<le> 95 \<and> 0 \<le> mon' \<and> mon' < 12 \<and> 1 \<le> d' \<and> d' \<le> 31 \<and>
    month_start (month_no y' mon') + d' = month_start (month_no y mon) + d"
proof -
  have y: "y \<le> 95" "mon = 11 \<Longrightarrow> y \<le> 94" using assms(2-4) by (auto simp: month_no_def)
  have "month_no y (mon + 1) = Suc (month_no y mon)" "month_no (y + 1) 0 = Suc (month_no y 11)"
    using assms(1,2) by (simp_all add: month_no_def nat_add_distrib flip: Suc_nat_eq_nat_zadd1)
  then show ?thesis
    using assms y days_of_date[of y mon 1] month_length_bounds[of y mon] carry_one[of d y mon]
    by (auto split: if_splits)
qed

lemma mktime_total:
  assumes "89 \<le> tm_year p" "0 \<le> tm_mon p" "tm_mon p \<le> 12" "month_no (tm_year p) (tm_mon p) < 83"
    "1 \<le> tm_mday p" "tm_mday p \<le> 40" "0 \<le> tm_hour p" "tm_hour p \<le> 24" "0 \<le> tm_min p" "tm_min p \<le> 60"
    "0 \<le> tm_sec p" "tm_sec p < 60" "0 \<le> tm_total p" "tm_total p < 2147483648"
  shows "(let q = mktime p in get_time \<lparr>tms_day = to_uchar (tm_mday q), tms_hour = to_uchar (tm_hour q),
      tms_minute = to_uchar (tm_min q), tms_sec = to_uchar (tm_sec q)\<rparr> (tm_year q) (tm_mon q + 1)) = Some (tm_total p)"
proof -
  define h where "h = tm_hour p + tm_min p div 60"
  define d where "d = tm_mday p + h div 24"
  define y mon where "y = tm_year p + tm_mon p div 12" and "mon = tm_mon p mod 12"
  obtain y' mon' d' where c: "carry_days y mon d = (y', mon', d')" by (cases "carry_days y mon d")
  have b: "tm_min p div 60 \<in> {0, 1}" using assms by auto
  have "h \<le> 25" "0 \<le> h" using b assms by (auto simp: h_def)
  then have d: "1 \<le> d" "d \<le> 56" using assms by (auto simp: d_def)
  have ym: "89 \<le> y" "0 \<le> mon" "mon < 12" "month_no y mon = month_no (tm_year p) (tm_mon p)"
    using assms(1-3) by (auto simp: y_def mon_def month_no_def intro!: arg_cong[of _ _ nat])
  have v: "89 \<le> y'" "y' \<le> 95" "0 \<le> mon'" "mon' < 12" "1 \<le> d'" "d' \<le> 31"
      "month_start (month_no y' mon') + d' = month_start (month_no y mon) + d"
    using carry_date[OF ym(1-3) _ d c] ym(4) assms(4) by auto
  have t: "date_total y' mon' d' (h mod 24) (tm_min p mod 60) (tm_sec p) = tm_total p"
  proof -
    have "month_start (month_no y' mon') + d' - 1 = month_start (month_no (tm_year p) (tm_mon p)) + tm_mday p - 1 + h div 24"
      using v(7) ym(4) by (simp add: d_def)
    then show ?thesis
      using div_mult_mod_eq[of h 24] div_mult_mod_eq[of "tm_min p" 60] h_def
      unfolding date_total_def tm_total_def ring_distribs by linarith
  qed
  have m: "mktime p = p\<lparr>tm_sec := tm_sec p, tm_min := tm_min p mod 60, tm_hour := h mod 24, tm_mday := d', tm_mon := mon',
      tm_year := y'\<rparr>"
    using assms(11,12) c by (simp add: mktime_def Let_def d_def h_def y_def mon_def)
  have "h mod 24 < 24" "0 \<le> h mod 24" "tm_min p mod 60 < 60" "0 \<le> tm_min p mod 60" by simp_all
  then have u: "to_uchar d' = d'" "to_uchar (h mod 24) = h mod 24" "to_uchar (tm_min p mod 60) = tm_min p mod 60"
      "to_uchar (tm_sec p) = tm_sec p"
    using v assms(11,12) by (simp_all add: to_uchar_id)
  have "((((month_start (month_no y' mon') + d' - 1) * 24 + h mod 24) * 60 + tm_min p mod 60) * 60 + tm_sec p) * 10 = tm_total p"
    using t by (simp add: date_total_def)
  then show ?thesis
    using v(1-4) days_of_date[OF v(1-4), of d'] assms(13,14)
    by (simp add: m u get_time_def Let_def to_long_id)
qed

text \<open>Both ways to compute the system time of a local time agree.\<close>

lemma elapsed_table: "list_all (\<lambda>y. elapsed_loop y elapsed_days = Some (month_start (month_no y 0))) [90, 91, 92, 93, 94, 95]"
  "month_start (month_no 89 0) = 0"
  by code_simp+

lemma get_sys_time_total:
  assumes "valid_tm p" "0 \<le> tm_total p" "tm_total p < 2147040000"
  shows "get_sys_time (Some p) = tm_total p"
proof -
  let ?k = "month_start (month_no (tm_year p) (tm_mon p))" and ?e = "month_start (month_no (tm_year p) 0)"
  have s: "tm_sec p * 10 + tm_min p * 600 + tm_hour p * 36000 + tm_yday p * 864000 + ?e * 864000 = tm_total p"
    using assms(1) by (simp add: valid_tm_def tm_total_def date_total_def ring_distribs)
  show ?thesis
  proof (cases "tm_year p = 89")
    case True
    with s show ?thesis using elapsed_table(2) by (simp add: get_sys_time_def Let_def)
  next
    case False
    then have "tm_year p \<in> {90, 91, 92, 93, 94, 95}" using assms(1) by (auto simp: valid_tm_def)
    then have "elapsed_loop (tm_year p) elapsed_days = Some ?e" using elapsed_table(1) by auto
    with False s show ?thesis
      using assms by (simp add: get_sys_time_def Let_def valid_tm_def to_long_id)
  qed
qed



subsection \<open>Dates in file names\<close>

lemma fmt02d_three: "100 \<le> x \<Longrightarrow> x < 200 \<Longrightarrow> fmt02d x = digit_char 1 # dec2 (x mod 100)"
proof -
  assume "100 \<le> x" "x < 200"
  then obtain k where "x - 100 = int k" using zero_le_imp_eq_int[of "x - 100"] by auto
  with \<open>x < 200\<close> have k: "x = 100 + int k" "k < 100" by simp_all
  have q: "k div 10 < 10" using k(2) by (simp add: div_less_iff_less_mult)
  have d: "(100 + k) div 10 = 10 + k div 10" "(100 + k) mod 10 = k mod 10"
    using mod_mult_self2[of k 10 10] by (simp_all add: add.commute)
  have o: "(10 + k div 10) div 10 = 1" using q le_div_geq[of 10 "10 + k div 10"] by simp
  have "dec_digits (100 + k) = [digit_char 1, digit_char (int (k div 10)), digit_char (int (k mod 10))]"
    using q by (simp add: dec_digits.simps[of "100 + k"] dec_digits.simps[of "10 + k div 10"] dec_digits.simps[of "Suc 0"] d o)
  moreover have "x mod 100 = int k" using k by simp
  ultimately show ?thesis
    using k(1) q by (simp add: fmt02d_def fill_def dec2_def nat_add_distrib zdiv_int zmod_int)
qed

lemma dec2_no_dot: "0 \<le> x \<Longrightarrow> CHR ''.'' \<notin> set (dec2 x)"
  using digit_not_space[of "x div 10 mod 10"] digit_not_space[of "x mod 10"] by (auto simp: dec2_def)

lemma read_last_six:
  assumes "0 \<le> y" "y < 100" "0 \<le> m" "m < 100" "0 \<le> d" "d < 100" "CHR ''.'' \<notin> set pre"
  shows "read_yymmdd (pre @ dec2 y @ dec2 m @ dec2 d @ ''.'' @ ext) =
    (\<not> (y < 89 \<or> m < 1 \<or> 12 < m \<or> d < 1 \<or> 31 < d), Some (y, m, d))"
proof -
  let ?s = "pre @ dec2 y @ dec2 m @ dec2 d @ ''.'' @ ext"
  let ?a = "pre @ dec2 y @ dec2 m @ dec2 d"
  have "c \<noteq> CHR ''.''" if "c \<in> set ?a" for c
    using that assms dec2_no_dot[of y] dec2_no_dot[of m] dec2_no_dot[of d] by auto
  from takeWhile_append2[of ?a _ "''.'' @ ext", OF this]
  have "takeWhile (\<lambda>c. c \<noteq> CHR ''.'') ?s = ?a" by simp
  moreover have "scan_ints JULTIME_FMT (dec2 y @ dec2 m @ dec2 d @ ''.'' @ ext) = [y, m, d]"
    using assms by (simp add: scan2d_dec2)
  ultimately show ?thesis
    by (simp add: read_yymmdd_def)
qed

text \<open>
  A file named by \<open>filedate\<close> in the years 1989 to 1999 gives its date back to
  \<open>read_yymmdd\<close>; from 2000 to 2088 the name has seven digits and \<open>read_yymmdd\<close> refuses it,
  because the year is not reduced to two digits.
\<close>

theorem file_dates:
  assumes "0 \<le> tm_mon p" "tm_mon p < 12" "1 \<le> tm_mday p" "tm_mday p \<le> 31" "filedate (Some p) = Some name"
  shows "(89 \<le> tm_year p \<and> tm_year p < 100 \<longrightarrow>
      read_yymmdd (name @ ''.'' @ ext) = (True, Some (tm_year p, tm_mon p + 1, tm_mday p)))
    \<and> (100 \<le> tm_year p \<and> tm_year p < 189 \<longrightarrow> fst (read_yymmdd (name @ ''.'' @ ext)) = False)"
proof -
  have n: "name = fmt02d (tm_year p) @ dec2 (tm_mon p + 1) @ dec2 (tm_mday p)"
    using assms by (simp add: filedate_def fmt02d_two)
  have "digit_char 1 \<noteq> CHR ''.''" using digit_not_space[of 1] by simp
  moreover have "tm_year p mod 100 = tm_year p - 100" if "100 \<le> tm_year p" "tm_year p < 189"
    using multiple_rest[of 100 100 "tm_year p"] that by simp
  ultimately show ?thesis
    using read_last_six[of "tm_year p" "tm_mon p + 1" "tm_mday p" "[]" ext]
      read_last_six[of "tm_year p mod 100" "tm_mon p + 1" "tm_mday p" "[digit_char 1]" ext] assms
    by (auto simp: n fmt02d_two fmt02d_three)
qed

theorem file_dates_witness:
  "let p = (\<lambda>y. \<lparr>tm_sec = 0, tm_min = 0, tm_hour = 0, tm_mday = 30, tm_mon = 10, tm_year = y, tm_wday = 5, tm_yday = 333\<rparr>) in
   read_yymmdd (the (filedate (Some (p 90))) @ ''.das'') = (True, Some (90, 11, 30)) \<and>
   fst (read_yymmdd (the (filedate (Some (p 106))) @ ''.das'')) = False"
  using file_dates[of "\<lparr>tm_sec = 0, tm_min = 0, tm_hour = 0, tm_mday = 30, tm_mon = 10, tm_year = 90, tm_wday = 5, tm_yday = 333\<rparr>" _ "''das''"]
    file_dates[of "\<lparr>tm_sec = 0, tm_min = 0, tm_hour = 0, tm_mday = 30, tm_mon = 10, tm_year = 106, tm_wday = 5, tm_yday = 333\<rparr>" _ "''das''"]
  by (simp add: Let_def filedate_def)

end
