(* ===== verification/Spec2Isabelle.thy ===== *)
theory Spec2Isabelle
  imports DbCltProps SysLl SysFifo SysBuff CanClient I82527 J1939Props Dvi SysBtrUse SysTimeProps
begin

text \<open>
  The PATH programs of a Volvo truck with cooperative adaptive cruise control: a publish/subscribe
  data server that all processes of the vehicle share, the drivers of its CAN controllers, the
  J1939 library that turns messages of the vehicle bus into variables of the data server and
  commands into messages, the library of lists, queues and time stamps under them, and the truck
  programs above.  The definitions follow the C sources function by function and keep their names;
  each theory names its source file at its top.

  \<^bold>\<open>The parts and how they interact.\<close>  Everything is built on the lists of path/local.  The CAN drivers
  keep received and unsent messages in queues; a client of the driver (can_client.c) opens the
  device and reads, writes and filters.  The J1939 library sends and receives protocol data
  units through such a client or through a serial converter; rdj1939.c reads the bus, puts multipacket
  messages together, converts each message and updates the variable of the data server that
  belongs to its parameter group.  The server (db_slv.c) answers one command at a time, and
  notifies the clients that asked for a variable when it is updated.

  \<^bold>\<open>Library (path/local).\<close>  Prelude has the shared vocabulary; CHeap the memory (typed blocks, an allocator
  that may refuse, a fault as \<open>None\<close>); ListStore the contract of a list as a locale, which
  SysList/SysListRep (\<open>dl_...\<close> of sys_list.c) and SysLl (\<open>ll_...\<close>) interpret on their own functions;
  SysBlocks, SysFifo and SysBuff (sys_fifo.c, sys_buff.c) build the byte FIFO and the output
  buffer on it; Timestamp has timestamp.c.  SysBtr has the balanced search tree of sys_btr.c, whose
  insertion walks down once, remembers where to balance and rotates there; SysBtrRep relates memory to
  trees of addresses and gives that insertion as a function on trees, SysBtrProps shows that the code
  computes it, SysBtrUse has search, traversal and destruction.  SysStr has the string routines of
  sys_str.c with the number formats of \<open>sprintf\<close> and \<open>sscanf\<close> in use, SysTime the four forms of a time
  of sys_time.c and SysTimeProps its calendar.  The claims: the tree refines a sorted set and stays
  balanced, dates and system times correspond, the lists refine sequences and touch no
  other memory, the priority queue stays ordered, the FIFO is a byte stream, the buffer keeps the
  last bytes.

  \<^bold>\<open>CAN drivers (can).\<close>  CanQueue is the circular queue as a locale with the two instances of the
  driver; CanIf the part of the driver above the chip (can_if.c); CanTx the contract of a chip
  (locale \<open>can_chip\<close>) and what the queues do on any chip that meets it; Sja1000 and I82527 model the two
  drivers, registers and interrupt loops included, and interpret the contract.  The claims:
  messages leave in the order they were accepted, each sent exactly once, filters hold, a
  client reads what the chip received.

  \<^bold>\<open>Data server (path/db).\<close>  DbTypes has the structures, DbComm the channels (System V message queues, with the
  retry loop of sending: at most 11 attempts, the code's own bound), DbSlv the
  server over the heap.  ObjList is the shared theory of lists of objects that own memory (locale
  \<open>objects\<close>).  DbSpec states the server without memory (a list of variables with their
  watchers, a list of users, \<open>srv_step\<close>); DbRep, DbOps, DbUsers, DbTrig and DbServer prove that
  each operation and the main loop implement it, including where the code faults; DbProps has the
  claims about what clients observe.

  \<^bold>\<open>Clients of the data server (path/db).\<close>  DbClt has the client library (db_clt.c, db_utils.c) with the queues
  between clients and server; DbMeet shows that a call, the server's answer and the reply meet in one
  step of the abstract server; DbCltProps has the claims: any calls of any clients in any order behave as on
  that server, what one writes another reads, triggers arrive, calls return.

  \<^bold>\<open>J1939 (can/jbus).\<close>  BitFields has facts on bytes of words; J1939 the protocol data unit, the packing
  macros and both ways of sending and receiving; J1939Db the tables of messages and variables and
  the bus reader; J1939Scale the conversions of single values; J1939Msgs and J1939Msgs2 the
  conversions of whole messages; J1939Cmd the commands sent to engine, retarder and brake;
  J1939Props the claims (round trips, ranges, resynchronisation, reassembly, loss of packets).

  \<^bold>\<open>The command sender (truckcontrol, jbussend.c).\<close>  JbusSend is the program that sends the control variable to the
  bus, one kind of message at a time; JbusProps its claims (it follows the control variable, is
  released when that is lost, and before an exit).

  \<^bold>\<open>The longitudinal controller (truckcontrol/long_ctl/src/xyl).\<close>  LongTypes has the structures; CaccComm the links to the other
  trucks (\<open>cacc_comm\<close>), with CaccCommLaws, its meaning as watchdogs; LongSense the reading of switches and
  measurements; Actuate the step from demands to the control variable (all of long_trk_func.c); LongTrk
  the program around them (long_trk.c: start, cycle, exit; the loop of common/long_ctl.c).  The
  controller library is a parameter (a record of functions with a state of their own), so LongSafe states
  what holds whatever it does; LongRun that no array is left when it leaves the numbers of
  the platoon alone; LongLaws the laws of single parts; LongBus joins controller and command sender;
  LongProps has the claims, the first of them from a packet over the air to the brake request on
  the bus.  LongState has the read of the vehicle state at the start of a cycle (common/long_utils.c): which fields
  each variable of the data server fills.

  \<^bold>\<open>From truck to truck (truckcontrol/long_ctl/src/vehcomm).\<close>  VehLib has the conversion of a packet to the radio message and
  back (veh_lib.c) and the programs that send and receive it (veh_snd.c, veh_rcv.c); the coder and decoder
  of the message are parameters, with the round trip of a message (up to the value that stands for true) as the
  hypothesis.  VehProps shows what arrives; Convoy joins everything, from the message of the brake switch on
  the bus of the leader to the brake request on the bus of the truck behind.  Dvi has the programs for the display of
  the driver (dvi_rcv.c, dvi_snd.c): the buttons for the gap, and what is shown of the other trucks.

  \<^bold>\<open>Bounds and numbers.\<close>  Words have the width of the C types and wrap as in C; a \<open>float\<close> is an exact rational
  (Complex_Main's \<open>rat\<close> or \<open>real\<close>), so the rounding of its last place is left out and the claims on
  values speak of the scaling, not of rounding errors.  Loops that read from a device or a
  queue are recursive on the input that is left; loops through a list in memory are
  partial functions whose results are shown to exist; the retry loops recurse on the
  attempts that are left.

  \<^bold>\<open>Not modelled.\<close>  Calls of the operating system and of libraries appear as parameters (which writes
  succeed, what the clock says); printing, options and signal handlers are left out.  The control law and the
  reference trajectories are in a binary library; GPS positions and log files of the controller are left out, and so are the fields of
  the vehicle state that it only prints.  Sensor
  drivers, displays and plots are I/O of particular devices.  Code generated from ASN.1 and the
  vendored sqlite are not the program's own.
\<close>

section \<open>Lists and queues (path/local)\<close>

abbreviation heap_of :: "nat \<Rightarrow> 'a heap" where
  "heap_of n \<equiv> \<lparr>cells = Map.empty, avail = [1..<n]\<rparr>"



text \<open>The single linked list has the same meaning.\<close>

theorem ll_list_refines:
  assumes "cells h NULL = None" "ll_create h = (ph, h0)" "ph \<noteq> NULL"
  shows "\<exists>rs h' L. list_do ll_insert ll_append ll_rm_first ll_rm_last ops ph h0 = Some (rs, h') \<and>
    ll_rep h' ph L \<and> list_steps ops rs [] (items L)"
  using ll.list_do_refines[OF ll_rep_create[OF assms], of ops] by simp

theorem ll_list_refines_witness:
  "\<exists>rs h' L. list_do ll_insert ll_append ll_rm_first ll_rm_last [Append 50, Append 60, Insert 70, RmLast] 1
      (snd (ll_create (heap_of 9 :: int heap))) = Some (rs, h') \<and>
    ll_rep h' 1 L \<and> list_steps [Append 50, Append 60, Insert 70, RmLast] rs [] (items L)"
  by (rule ll_list_refines[of "heap_of 9"]) (simp_all add: ll_create_def malloc_def upt_rec)


definition int_cmp :: "int heap \<Rightarrow> ptr \<Rightarrow> ptr \<Rightarrow> int option" where
  "int_cmp h p q = do { x \<leftarrow> get_obj h p; y \<leftarrow> get_obj h q; Some (x - y) }"

definition pq_heap :: "int heap" where
  "pq_heap = \<lparr>cells = [1 \<mapsto> DlHead \<lparr>dh_length = 2, dh_pfirst = 2, dh_plast = 3\<rparr>,
     2 \<mapsto> DlNode \<lparr>dn_pitem = 4, dn_pprev = 0, dn_pnext = 3\<rparr>, 3 \<mapsto> DlNode \<lparr>dn_pitem = 5, dn_pprev = 2, dn_pnext = 0\<rparr>,
     4 \<mapsto> Obj 9, 5 \<mapsto> Obj 2], avail = [6, 7]\<rparr>"


text \<open>
  Taking a node out of the middle of a double linked list (\<open>dl_rm_node\<close>): its item is returned,
  its neighbours are linked, the node is freed, the cursor moves to the node before it, and no
  memory outside the list is touched.
\<close>

theorem dl_rm_node_correct:
  assumes "dl_rep h ph (A @ (n, x) # B)"
  shows "\<exists>h'. dl_rm_node ph n h = Some (x, dl_last_addr NULL A, h') \<and> dl_rep h' ph (A @ B) \<and>
    cells h' n = None \<and> same_except ({ph, n} \<union> nodes (A @ B)) h h'"
  by (rule dl_rm_node_spec[OF assms])

theorem dl_rm_node_correct_witness:
  "\<exists>h'. dl_rm_node 1 3 pq_heap = Some (5, dl_last_addr NULL [(2, 4)], h') \<and> dl_rep h' 1 ([(2, 4)] @ []) \<and>
    cells h' 3 = None \<and> same_except ({1, 3} \<union> nodes ([(2, 4)] @ [])) pq_heap h'"
  by (rule dl_rm_node_correct) (simp add: dl_rep_def pq_heap_def)

text \<open>
  \<open>dl_nth_insert\<close> puts the item at position \<open>k\<close> (at the end when \<open>k\<close> is past it), or
  fails for want of memory and changes nothing.
\<close>

theorem dl_nth_insert_correct:
  assumes "dl_rep h ph L"
  shows "(\<exists>h'. dl_nth_insert (int k) x ph h = Some (False, h') \<and> cells h' = cells h) \<or>
     (\<exists>h' n. dl_nth_insert (int k) x ph h = Some (True, h') \<and> cells h n = None \<and>
        dl_rep h' ph (take k L @ (n, x) # drop k L) \<and> same_except ({ph, n} \<union> nodes L) h h')"
  using dl_nth_insert_spec[OF assms, of k x] by (simp add: added_def)

theorem dl_nth_insert_correct_witness:
  "(\<exists>h'. dl_nth_insert (int 1) 5 1 pq_heap = Some (False, h') \<and> cells h' = cells pq_heap) \<or>
     (\<exists>h' n. dl_nth_insert (int 1) 5 1 pq_heap = Some (True, h') \<and> cells pq_heap n = None \<and>
        dl_rep h' 1 (take 1 [(2, 4), (3, 5)] @ (n, 5) # drop 1 [(2, 4), (3, 5)]) \<and>
        same_except ({1, n} \<union> nodes [(2, 4), (3, 5)]) pq_heap h')"
  by (rule dl_nth_insert_correct) (simp add: dl_rep_def pq_heap_def)

text \<open>
  \<open>dl_free\<close> returns every node, every item and the head of a list that owns its items, each
  exactly once, and frees nothing else.
\<close>

theorem dl_free_correct:
  assumes "dl_rep h ph L" "own_items h L"
  shows "\<exists>h'. dl_free ph h = Some h' \<and> (\<forall>a \<in> {ph} \<union> nodes L \<union> set (items L). cells h' a = None) \<and>
    same_except ({ph} \<union> nodes L \<union> set (items L)) h h'"
  by (rule dl_free_spec[OF assms])

theorem dl_free_correct_witness:
  "\<exists>h'. dl_free 1 pq_heap = Some h' \<and>
    (\<forall>a \<in> {1} \<union> nodes [(2, 4), (3, 5)] \<union> set (items [(2, 4), (3, 5)]). cells h' a = None) \<and>
    same_except ({1} \<union> nodes [(2, 4), (3, 5)] \<union> set (items [(2, 4), (3, 5)])) pq_heap h'"
  by (rule dl_free_correct) (simp_all add: dl_rep_def own_items_def pq_heap_def)



text \<open>
  An output buffer of sys_buff.c keeps the last \<open>max_size\<close> records that were accepted (all of
  them when there is no limit); closing it writes them out oldest first and returns TRUE when every
  write succeeds.
\<close>

theorem buff_keeps_last:
  assumes "cells h NULL = None" "buff_init pfout n h = Some (pb, h0)" "pb \<noteq> NULL" "[] \<notin> set ds" "\<And>i. wr_ok f i"
  shows "\<exists>acc h1 f' h2. buff_add_all pb ds h0 = Some (acc, h1) \<and> buff_done pb f h1 = Some (True, f', h2) \<and>
    written f' = written f @ keep_last n acc"
proof -
  have p: "pfout \<noteq> NULL" using assms(2,3) by (cases "pfout = 0") (simp_all add: buff_init_def)
  obtain ph where "buff_rep h0 pb \<lparr>bf_phead = ph, bf_max_size = n, bf_pfout = pfout\<rparr> []"
    using buff_init_spec[OF assms(1) p, of n] assms(2,3) by auto
  from buff_lifetime[OF this assms(4), of f] assms(5) show ?thesis by auto
qed

theorem buff_keeps_last_witness:
  "\<exists>acc h1 f' h2. buff_add_all 1 [[1], [2, 3], [4]] (snd (the (buff_init 99 2 (heap_of 20)))) = Some (acc, h1) \<and>
    buff_done 1 \<lparr>wr_ok = (\<lambda>_. True), wr_calls = 0, written = []\<rparr> h1 = Some (True, f', h2) \<and>
    written f' = written \<lparr>wr_ok = (\<lambda>_. True), wr_calls = 0, written = []\<rparr> @ keep_last 2 acc"
  by (rule buff_keeps_last[of "heap_of 20" 99])
     (simp_all add: buff_init_def malloc_def dl_create_def upt_rec put_def)

text \<open>
  The circular buffer is a bounded queue: over any sequence of \<open>can_cq_add\<close> and
  \<open>can_cq_pop_first\<close> on a buffer of \<open>n\<close> entries, it returns what a queue returns that drops its
  oldest message when one is added to \<open>n\<close> others, and no index leaves the array.
\<close>

theorem circular_buffer_refines:
  assumes "0 < n" "length arr = n"
  shows "\<exists>b. queue_do can_cq_add can_cq_pop_first ops (init_circular_buffer (int n) arr) =
      Some (fst (queue_abs n ops []), b) \<and> cq_rep n b (snd (queue_abs n ops []))"
  by (rule cq.queue_do_refines[OF cq_rep_init[OF assms]])

theorem circular_buffer_refines_witness:
  "\<exists>b. queue_do can_cq_add can_cq_pop_first [QAdd 1, QAdd 2, QAdd 3, QPop] (init_circular_buffer (int 2) [0, 0 :: int]) =
      Some (fst (queue_abs 2 [QAdd 1, QAdd 2, QAdd 3, QPop] []), b) \<and>
    cq_rep 2 b (snd (queue_abs 2 [QAdd 1, QAdd 2, QAdd 3, QPop] []))"
  by (rule circular_buffer_refines) simp_all

section \<open>The CAN driver and its clients (can)\<close>

definition demo_msg :: "u32 \<Rightarrow> can_msg" where
  "demo_msg i = \<lparr>cm_id = i, cm_size = 2, cm_data = [1, 2, 3, 4, 5, 6, 7, 8], cm_error = 0\<rparr>"

definition demo_attr :: "'c \<Rightarrow> ('c, int) can_attr" where
  "demo_attr c = can_init_attr \<lparr>ci_port = 0, ci_irq = 5, ci_use_extended_frame = 1, ci_bit_speed = 250, ci_intr_id = 1,
     ci_filter = \<lparr>cf_id = 0, cf_mask = 0\<rparr>\<rparr> (replicate 150 (demo_msg 0)) (replicate 150 (demo_msg 0)) c"

definition demo_sja :: sja where
  "demo_sja = \<lparr>s_mode = 8, s_clk = 0, s_outc = 0, s_tim0 = 0, s_tim1 = 0, s_irq_enable = 0, s_rmc = 0,
     s_acc = replicate 13 0, s_tx = replicate 13 0, s_rxq = [], s_rx_idle = replicate 13 0, s_irqs = [], s_log = [], s_cmds = []\<rparr>"

definition demo_i82527 :: i82527 where
  "demo_i82527 = \<lparr>i_regs = (\<lambda>_. 0), i_rxq = [], i_lost = False, i_log = [], i_speed = 250, i_ext = 1\<rparr>"

lemma demo_queues [simp]: "in_rep (demo_attr c) []" "out_rep (demo_attr c) []" "chip (demo_attr c) = c"
  "last_time_can_sent (demo_attr c) = 0"
  using cq_rep_init[of 150 "replicate 150 (demo_msg 0)"] by (simp_all add: demo_attr_def can_init_attr_def)

lemma demo_msg_ok: "unat i < 2 ^ 11 \<Longrightarrow> can_msg_ok (demo_msg i)"
proof -
  assume i: "unat i < 2 ^ 11"
  then have "\<not> bit i 31" using bit_unat_small[OF i, of 31] by simp
  then show ?thesis using i by (simp add: can_msg_ok_def IS_EXTENDED_FRAME_def demo_msg_def ext_flag_bit)
qed

lemma demo_sja_ready [simp]: "sja_ready demo_sja" "s_log demo_sja = []"
  by (simp_all add: sja_ready_def demo_sja_def)

lemma demo_inv: "tx_inv sja_ready sja_sent [] [] (demo_attr demo_sja) [] []"
  by (simp add: tx_inv_def sja_sent_def)

text \<open>
  C27: the receive queue.  However many messages arrive, a client that then reads gets, in order of
  arrival, the last 150 of those that were queued or passed the filter, each without an error mark,
  and error messages once there are no more.
\<close>

theorem can_receive_filtered:
  assumes "in_rep a xs"
  shows "\<exists>a1 a2. can_new_msgs ms a = Some a1 \<and> can_reads k a1 =
     Some (let q = keep_last CAN_IN_BUFFER_SIZE (xs @ filter (passes a) ms) in
       map (\<lambda>m. m\<lparr>cm_error := 0\<rparr>) (take k q) @ replicate (k - length q) no_can_msg, a2)"
proof -
  have "length xs \<le> CAN_IN_BUFFER_SIZE" using assms by (simp add: cq_rep_def)
  from can_new_msgs_spec[OF assms this, of ms] can_reads_spec show ?thesis unfolding Let_def by blast
qed

theorem can_receive_filtered_witness:
  "\<exists>a1 a2. can_new_msgs [demo_msg 0x100, demo_msg 7] (demo_attr demo_sja) = Some a1 \<and> can_reads 2 a1 =
     Some (let q = keep_last CAN_IN_BUFFER_SIZE ([] @ filter (passes (demo_attr demo_sja)) [demo_msg 0x100, demo_msg 7]) in
       map (\<lambda>m. m\<lparr>cm_error := 0\<rparr>) (take 2 q) @ replicate (2 - length q) no_can_msg, a2)"
  by (rule can_receive_filtered) (rule demo_queues)

text \<open>
  C13: transmission over the SJA 1000, in order and without loss.  In every state reached from an
  empty queue by writes of valid messages (fewer than ten queued, the chip answering within a second)
  and transmit interrupts, the chip has been given a prefix of the messages written, in that order,
  each with its identifier and data unchanged, and the queue holds the rest.
\<close>

theorem sja_transmit_order:
  assumes "tx_reach sja_send a0 ws a" "out_rep a0 []" "sja_ready (chip a0)"
  shows "\<exists>n. n \<le> length ws \<and> sja_sent (chip a) = sja_sent (chip a0) @ map wire (take n ws) \<and>
    data_count (out_buff a) - 1 \<le> int (length ws) - int n"
  by (rule sja.tx_reach_order[OF assms])

lemma demo_reach: "\<exists>a. tx_reach sja_send (demo_attr demo_sja) [demo_msg 7] a"
proof -
  from sja.tx_write_step[OF demo_inv demo_msg_ok[of 7], of 0 0] obtain a' where
    "can_dev_write sja_send 0 0 (demo_msg 7) (demo_attr demo_sja) = Some (EOK, a')" by (auto simp: demo_queues)
  from tx_write[OF tx_start demo_msg_ok[of 7] _ _ this] show ?thesis
    using cq_rep_count[OF demo_queues(2)[of demo_sja]] by (auto simp: demo_queues)
qed

theorem sja_transmit_order_witness:
  "\<exists>a n. tx_reach sja_send (demo_attr demo_sja) [demo_msg 7] a \<and> n \<le> length [demo_msg 7] \<and>
    sja_sent (chip a) = sja_sent demo_sja @ map wire (take n [demo_msg 7])"
  using demo_reach sja_transmit_order[OF _ demo_queues(2)[of demo_sja]] demo_sja_ready by (fastforce simp: demo_queues)

text \<open>
  C18: transmission ends.  From every such state, as many transmit interrupts as messages are queued
  leave every message written on the wire, exactly once and in order, whatever the time of each.
\<close>

theorem sja_transmit_complete:
  assumes "tx_reach sja_send a0 ws a" "out_rep a0 []" "sja_ready (chip a0)"
  shows "\<exists>a'. tx_irqs sja_send now (nat (data_count (out_buff a))) a = Some a' \<and>
    sja_sent (chip a') = sja_sent (chip a0) @ map wire ws"
  by (rule sja.tx_reach_drain[OF assms])

theorem sja_transmit_complete_witness:
  "\<exists>a a'. tx_reach sja_send (demo_attr demo_sja) [demo_msg 7] a \<and>
    tx_irqs sja_send 0 (nat (data_count (out_buff a))) a = Some a' \<and>
    sja_sent (chip a') = sja_sent demo_sja @ map wire [demo_msg 7]"
  using demo_reach sja_transmit_complete[OF _ demo_queues(2)[of demo_sja]] demo_sja_ready by (fastforce simp: demo_queues)



text \<open>
  The flush of an overfull transmit queue loses its newest message.  When ten messages wait and
  an eleventh is written, the driver answers EOK and keeps only the new message in the queue; the
  next transmit interrupt, which is for the message on the chip, takes it off the queue unsent.
\<close>

theorem sja_flush_loses_message:
  assumes "tx_inv sja_ready sja_sent b ws a d q" "can_msg_ok m" "length q = 10" "now1 - last_time_can_sent a \<le> 1"
  shows "\<exists>a1 a2. can_dev_write sja_send now1 now2 m a = Some (EOK, a1) \<and> out_rep a1 [m\<lparr>cm_error := 0\<rparr>] \<and>
    tx_process_interrupt sja_send now3 a1 = Some a2 \<and> out_rep a2 [] \<and>
    sja_sent (chip a2) = b @ map wire (d @ [hd q])"
  by (rule sja.flush_loses_message[OF assms])

lemma demo_fill:
  "n \<le> 10 \<Longrightarrow> \<exists>(a :: (sja, int) can_attr) q. tx_inv sja_ready sja_sent [] (replicate n (demo_msg 7)) a [] q \<and> length q = n \<and> last_time_can_sent a = 0"
proof (induction n)
  case 0
  show ?case by (intro exI[of _ "demo_attr demo_sja"] exI[of _ "[]"]) (simp add: demo_inv)
next
  case (Suc n)
  then obtain a :: "(sja, int) can_attr" and q where a: "tx_inv sja_ready sja_sent [] (replicate n (demo_msg 7)) a [] q" "length q = n" "last_time_can_sent a = 0"
    by auto
  obtain a' where a': "can_dev_write sja_send 0 0 (demo_msg 7) a = Some (EOK, a')"
    "tx_inv sja_ready sja_sent [] (replicate n (demo_msg 7) @ [demo_msg 7]) a' [] (q @ [(demo_msg 7)\<lparr>cm_error := 0\<rparr>])"
    using sja.tx_write_step[OF a(1) demo_msg_ok[of 7], of 0 0] a Suc.prems by auto
  have "last_time_can_sent a' = 0" using a'(1) a(3)
    by (auto simp: can_dev_write_def can_send_def can_dev_flush_q_def Let_def split: if_splits)
  then show ?case using a'(2) a(2) by (auto simp: replicate_append_same intro!: exI[of _ a'])
qed

theorem sja_flush_loses_message_witness:
  "\<exists>(a :: (sja, int) can_attr) a1 a2 q. can_dev_write sja_send 0 0 (demo_msg 9) a = Some (EOK, a1) \<and> out_rep a1 [(demo_msg 9)\<lparr>cm_error := 0\<rparr>] \<and>
    tx_process_interrupt sja_send 0 a1 = Some a2 \<and> out_rep a2 [] \<and> sja_sent (chip a2) = map wire [hd q] \<and> length q = 10"
proof -
  obtain a :: "(sja, int) can_attr" and q where a: "tx_inv sja_ready sja_sent [] (replicate 10 (demo_msg 7)) a [] q" "length q = 10" "last_time_can_sent a = 0"
    using demo_fill[of 10] by auto
  have u: "unat (9 :: u32) < 2 ^ 11" "0 - last_time_can_sent a \<le> 1" using a(3) by simp_all
  from sja_flush_loses_message[OF a(1) demo_msg_ok[OF u(1)] a(2) u(2), of 0 0] a(2) show ?thesis by fastforce
qed

text \<open>
  C8: a message from client to client over the SJA 1000.  What one client writes with \<open>can_write\<close> (a
  valid identifier and at most 8 bytes) is transmitted as one frame; when another node that opened
  its device for reading receives that frame, its client gets exactly one event, and its
  \<open>can_read\<close> returns the same identifier, frame type, size and data.
\<close>

theorem can_client_to_client:
  assumes "write_ok cid extended data n" "length pad = 8" "length pad' = 8"
    and "out_rep a []" "sja_ready (chip a)" "in_rep b0 ys"
  shows "\<exists>m a1 f b. can_write_msg pad jerr cid extended data n = Some m \<and>
    io_devctl sja_send None r1 now1 now2 (D_WRITE m) a = Some (R_STATUS EOK, a1) \<and>
    s_log (chip a1) = s_log (chip a) @ [f] \<and> can_open_read sja_send r2 ev b0 = Some b \<and>
    (\<exists>b1 b2 r. can_handle_interrupt (can_dev_interrupt st pad' jerr' now3 isopen baud) (\<lambda>_. True) 0
        (b\<lparr>chip := (chip b)\<lparr>s_rxq := f # fs, s_irqs := [CAN_RECEIVE_INT]\<rparr>\<rparr>) = Some (EOK, [(r2, ev)], b1) \<and>
      io_devctl sja_send None r3 now4 now5 D_READ b1 = Some (R_MSG r, b2) \<and>
      can_read 0 EOK r n = (int (unat n), Some (cid, extended, data)))"
proof -
  obtain m a1 f where tx: "can_write_msg pad jerr cid extended data n = Some m"
    "io_devctl sja_send None r1 now1 now2 (D_WRITE m) a = Some (R_STATUS EOK, a1)" "s_log (chip a1) = s_log (chip a) @ [f]"
    and dec: "let r = sja_decode pad' jerr' f in
       CAN_ID r = cid \<and> IS_EXTENDED_FRAME r = extended \<and> cm_size r = n \<and> take (unat n) (cm_data r) = data"
    using write_to_frame[OF assms(1,2,4,5)] assms(3) by blast
  obtain b where b: "can_open_read sja_send r2 ev b0 = Some b" "in_rep b []" "\<And>m. passes b m" "notify_pocb b = Some (r2, ev)"
    using can_open_read_spec[OF assms(6)] by (metis option.inject)
  let ?b = "b\<lparr>chip := (chip b)\<lparr>s_rxq := f # fs, s_irqs := [CAN_RECEIVE_INT]\<rparr>\<rparr>"
  have "in_rep ?b []" "\<And>m. passes ?b m" "notify_pocb ?b = Some (r2, ev)" using b(2-4) by (simp_all add: passes_def)
  from frame_to_read[OF this, where f = f and fs = fs and st = st and junk = pad' and jerr = jerr' and now = now3 and
      isopen = isopen and baud = baud] obtain b1 b2 where rx:
    "can_handle_interrupt (can_dev_interrupt st pad' jerr' now3 isopen baud) (\<lambda>_. True) 0 ?b = Some (EOK, [(r2, ev)], b1)"
    "io_devctl sja_send None r3 now4 now5 D_READ b1 = Some (R_MSG ((sja_decode pad' jerr' f)\<lparr>cm_error := 0\<rparr>), b2)"
    by fastforce
  moreover have "unat n \<le> 8" "n \<le> 8" using assms(1) by (auto simp: write_ok_def word_le_nat_alt)
  then have "can_read 0 EOK ((sja_decode pad' jerr' f)\<lparr>cm_error := 0\<rparr>) n = (int (unat n), Some (cid, extended, data))"
    using dec by (auto simp: can_read_def Let_def CAN_ID_def IS_EXTENDED_FRAME_def)
  ultimately show ?thesis using tx b(1) by blast
qed

theorem can_client_to_client_witness:
  "\<exists>m a1 f b. can_write_msg (replicate 8 0) 0 0x18F00401 True [10, 20, 30] 3 = Some m \<and>
    io_devctl sja_send None 0 0 0 (D_WRITE m) (demo_attr demo_sja) = Some (R_STATUS EOK, a1) \<and>
    s_log (chip a1) = s_log (chip (demo_attr demo_sja)) @ [f] \<and>
    can_open_read sja_send 5 (77 :: int) (demo_attr demo_sja) = Some b \<and>
    (\<exists>b1 b2 r. can_handle_interrupt (can_dev_interrupt 0 (replicate 8 9) 0 0 0 0) (\<lambda>_. True) 0
        (b\<lparr>chip := (chip b)\<lparr>s_rxq := f # [], s_irqs := [CAN_RECEIVE_INT]\<rparr>\<rparr>) = Some (EOK, [(5, 77)], b1) \<and>
      io_devctl sja_send None 0 0 0 D_READ b1 = Some (R_MSG r, b2) \<and>
      can_read 0 EOK r 3 = (int (unat (3 :: u8)), Some (0x18F00401, True, [10, 20, 30])))"
  by (rule can_client_to_client[where ys = "[]"]) (simp_all add: write_ok_def)

text \<open>
  Initialising the SJA 1000 leaves it in normal mode with the acceptance filter open, the four
  interrupts enabled, the timing of the speed asked for, pending interrupts read away, and nothing sent.
\<close>

theorem sja_init_correct:
  assumes "length (s_acc c) = 13" "length (s_tx c) = 13"
  shows "\<exists>c'. can_dev_init isopen baud c = Some c' \<and> sja_ready c' \<and> s_mode c' = 0x08 \<and>
    take 8 (s_acc c') = [0, 0, 0, 0, 0xff, 0xff, 0xff, 0xff] \<and> s_irq_enable c' AND 0x0f = 0x0f \<and>
    (s_tim0 c', s_tim1 c') = CanTiming baud \<and> s_irqs c' = tl (s_irqs c) \<and> s_log c' = s_log c"
  by (rule can_dev_init_spec[OF assms])

theorem sja_init_correct_witness:
  "\<exists>c'. can_dev_init 1 250 demo_sja = Some c' \<and> sja_ready c' \<and> s_mode c' = 0x08 \<and>
    take 8 (s_acc c') = [0, 0, 0, 0, 0xff, 0xff, 0xff, 0xff] \<and> s_irq_enable c' AND 0x0f = 0x0f \<and>
    (s_tim0 c', s_tim1 c') = CanTiming 250 \<and> s_irqs c' = tl (s_irqs demo_sja) \<and> s_log c' = s_log demo_sja"
  by (rule sja_init_correct) (simp_all add: demo_sja_def)

section \<open>J1939 over the CAN driver\<close>

text \<open>
  C26: a J1939 message from node to node.  A PDU with fields of their J1939 widths that \<open>send_can\<close>
  sends is transmitted as one frame; a node that opened its device for reading and receives the
  frame gets one event, reads one message, and \<open>receive_can\<close> makes the same PDU of it: priority,
  format, specific field, source address, size, and the first \<open>size\<close> data bytes.
\<close>

theorem j1939_node_to_node:
  assumes "pdu_ok p" "length pad = 8" "length pad' = 8"
    and "out_rep a []" "sja_ready (chip a)" "in_rep b0 ys"
  shows "\<exists>a1 f b. send_can sja_send pad jerr r1 now1 now2 p a = Some (1, p\<lparr>pd_src := 0x2A\<rparr>, a1) \<and>
    s_log (chip a1) = s_log (chip a) @ [f] \<and> can_open_read sja_send r2 ev b0 = Some b \<and>
    (\<exists>b1 b2 r d. can_handle_interrupt (can_dev_interrupt st pad' jerr' now3 isopen baud) (\<lambda>_. True) 0
        (b\<lparr>chip := (chip b)\<lparr>s_rxq := f # fs, s_irqs := [CAN_RECEIVE_INT]\<rparr>\<rparr>) = Some (EOK, [(r2, ev)], b1) \<and>
      io_devctl sja_send None r3 now4 now5 D_READ b1 = Some (R_MSG r, b2) \<and>
      take (nat (pd_numbytes p)) d = take (nat (pd_numbytes p)) (pd_data p) \<and>
      receive_can EOK r q ext = (pd_numbytes p, (pdu_fields p q)\<lparr>pd_data := d\<rparr>, 1))"
proof -
  obtain a1 f where tx: "send_can sja_send pad jerr r1 now1 now2 p a = Some (1, p\<lparr>pd_src := 0x2A\<rparr>, a1)"
    "s_log (chip a1) = s_log (chip a) @ [f]"
    and dec: "\<exists>d. take (nat (pd_numbytes p)) d = take (nat (pd_numbytes p)) (pd_data p) \<and>
       receive_can 0 ((sja_decode pad' jerr' f)\<lparr>cm_error := 0\<rparr>) q ext =
         (pd_numbytes p, q\<lparr>pd_priority := pd_priority p, pd_format := pd_format p, pd_specific := pd_specific p,
            pd_src := pd_src p, pd_data := d, pd_numbytes := pd_numbytes p\<rparr>, 1)"
    using send_can_frame[OF assms(1,2,4,5)] assms(3) by blast
  obtain b where b: "can_open_read sja_send r2 ev b0 = Some b" "in_rep b []" "\<And>m. passes b m" "notify_pocb b = Some (r2, ev)"
    using can_open_read_spec[OF assms(6)] by (metis option.inject)
  let ?b = "b\<lparr>chip := (chip b)\<lparr>s_rxq := f # fs, s_irqs := [CAN_RECEIVE_INT]\<rparr>\<rparr>"
  have "in_rep ?b []" "\<And>m. passes ?b m" "notify_pocb ?b = Some (r2, ev)" using b(2-4) by (simp_all add: passes_def)
  from frame_to_read[OF this, where f = f and fs = fs and st = st and junk = pad' and jerr = jerr' and now = now3 and
      isopen = isopen and baud = baud] obtain b1 b2 where rx:
    "can_handle_interrupt (can_dev_interrupt st pad' jerr' now3 isopen baud) (\<lambda>_. True) 0 ?b = Some (EOK, [(r2, ev)], b1)"
    "io_devctl sja_send None r3 now4 now5 D_READ b1 = Some (R_MSG ((sja_decode pad' jerr' f)\<lparr>cm_error := 0\<rparr>), b2)"
    by fastforce
  obtain d where "take (nat (pd_numbytes p)) d = take (nat (pd_numbytes p)) (pd_data p)"
    "receive_can EOK ((sja_decode pad' jerr' f)\<lparr>cm_error := 0\<rparr>) q ext = (pd_numbytes p, (pdu_fields p q)\<lparr>pd_data := d\<rparr>, 1)"
    using dec by (auto simp: pdu_fields_def)
  then show ?thesis using tx b(1) rx by blast
qed

definition demo_pdu :: j1939_pdu where
  "demo_pdu = \<lparr>pd_priority = 3, pd_R = 0, pd_DP = 0, pd_format = 0xf0, pd_specific = 4, pd_src = 0,
     pd_data = [1, 2, 3, 4, 5, 6, 7, 8], pd_numbytes = 8\<rparr>"

theorem j1939_node_to_node_witness:
  "\<exists>a1 f b. send_can sja_send (replicate 8 0) 0 0 0 0 demo_pdu (demo_attr demo_sja) = Some (1, demo_pdu\<lparr>pd_src := 0x2A\<rparr>, a1) \<and>
    s_log (chip a1) = s_log (chip (demo_attr demo_sja)) @ [f] \<and>
    can_open_read sja_send 5 (77 :: int) (demo_attr demo_sja) = Some b \<and>
    (\<exists>b1 b2 r d. can_handle_interrupt (can_dev_interrupt 0 (replicate 8 9) 0 0 0 0) (\<lambda>_. True) 0
        (b\<lparr>chip := (chip b)\<lparr>s_rxq := f # [], s_irqs := [CAN_RECEIVE_INT]\<rparr>\<rparr>) = Some (EOK, [(5, 77)], b1) \<and>
      io_devctl sja_send None 0 0 0 D_READ b1 = Some (R_MSG r, b2) \<and>
      take (nat (pd_numbytes demo_pdu)) d = take (nat (pd_numbytes demo_pdu)) (pd_data demo_pdu) \<and>
      receive_can EOK r demo_pdu 0 = (pd_numbytes demo_pdu, (pdu_fields demo_pdu demo_pdu)\<lparr>pd_data := d\<rparr>, 1))"
  by (rule j1939_node_to_node[where ys = "[]"]) (simp_all add: pdu_ok_def demo_pdu_def)

end
